(* ===== verification/Prelude.thy ===== *)
theory Prelude
  imports Main "HOL-Library.Char_ord" "HOL-Library.List_Lexorder" "HOL-Library.AList"
begin

text \<open>
  What every component of the development shares: Python exceptions as values, the
  error-propagating combinators, the string methods the source calls, dictionaries as
  association lists in insertion order, dynamically typed values (\<open>Any\<close>) and instants
  of time.

  A Python \<open>str\<close> is a list of characters; the characters are the code points below 256,
  so \<open>len\<close>, slicing and the character classes are those of Python on that range.
\<close>

named_theorems vl_res \<open>rewriting of error-returning code\<close>
named_theorems vl_defs \<open>definitions unfolded when a closed instance is evaluated\<close>

section \<open>Exceptions as values\<close>

text \<open>
  The exception classes the modelled code raises. \<open>PolicyDenied\<close>, \<open>ApprovalRejected\<close>,
  \<open>CapabilityRejected\<close>, \<open>ReceiptRejected\<close> and \<open>GraphTransitionRejected\<close> are subclasses
  of \<open>PermissionError\<close> in the source, \<open>GraphBudgetExceeded\<close> of \<open>RuntimeError\<close>.
\<close>

datatype exc = ValueError | TypeError | KeyError | RuntimeError | PermissionError
  | PolicyDenied | ApprovalRejected | CapabilityRejected | ReceiptRejected
  | GraphTransitionRejected | RunStateConflict | IntegrityError
  | ContractCompilationError | GraphBudgetExceeded | AssertionError | OtherException

type_synonym 'a res = "(exc \<times> string) + 'a"

definition is_permission_error :: "exc \<Rightarrow> bool" where
  "is_permission_error e \<longleftrightarrow> e \<in> {PermissionError, PolicyDenied, ApprovalRejected,
     CapabilityRejected, ReceiptRejected, GraphTransitionRejected}"

text \<open>\<open>type(exc).__name__\<close>.\<close>

primrec exc_name :: "exc \<Rightarrow> string" where
  "exc_name ValueError = ''ValueError''"
| "exc_name TypeError = ''TypeError''"
| "exc_name KeyError = ''KeyError''"
| "exc_name RuntimeError = ''RuntimeError''"
| "exc_name PermissionError = ''PermissionError''"
| "exc_name PolicyDenied = ''PolicyDenied''"
| "exc_name ApprovalRejected = ''ApprovalRejected''"
| "exc_name CapabilityRejected = ''CapabilityRejected''"
| "exc_name ReceiptRejected = ''ReceiptRejected''"
| "exc_name GraphTransitionRejected = ''GraphTransitionRejected''"
| "exc_name RunStateConflict = ''RunStateConflict''"
| "exc_name IntegrityError = ''IntegrityError''"
| "exc_name ContractCompilationError = ''ContractCompilationError''"
| "exc_name GraphBudgetExceeded = ''GraphBudgetExceeded''"
| "exc_name AssertionError = ''AssertionError''"
| "exc_name OtherException = ''Exception''"

definition bnd :: "'e + 'a \<Rightarrow> ('a \<Rightarrow> 'e + 'b) \<Rightarrow> 'e + 'b" where
  "bnd m f = (case m of Inl e \<Rightarrow> Inl e | Inr x \<Rightarrow> f x)"

lemma bnd_simps [simp]: "bnd (Inl e) f = Inl e" "bnd (Inr x) f = f x"
  by (simp_all add: bnd_def)

lemma bnd_eq_Inr [vl_res]: "bnd m f = Inr y \<longleftrightarrow> (\<exists>x. m = Inr x \<and> f x = Inr y)"
  by (cases m) auto

lemma bnd_eq_Inl [vl_res]:
  "bnd m f = Inl e \<longleftrightarrow> m = Inl e \<or> (\<exists>x. m = Inr x \<and> f x = Inl e)"
  by (cases m) auto

lemma if_Inl_eq_Inr [simp, vl_res]: "((if b then Inl e else k) = Inr x) \<longleftrightarrow> \<not> b \<and> k = Inr x"
  by auto

lemma bnd_total: "\<exists>x. m = Inr x \<Longrightarrow> (\<And>x. \<exists>y. f x = Inr y) \<Longrightarrow> \<exists>y. bnd m f = Inr y"
  by (cases m) auto

lemma Inr_total: "\<exists>x. Inr y = Inr x"
  by blast

lemma bnd_cong [fundef_cong]:
  "m = m' \<Longrightarrow> (\<And>x. m' = Inr x \<Longrightarrow> f x = f' x) \<Longrightarrow> bnd m f = bnd m' f'"
  by (cases m') auto

text \<open>\<open>all(...)\<close> and \<open>any(...)\<close> over a generator whose element may raise: both stop early.\<close>

fun all_res :: "('a \<Rightarrow> 'e + bool) \<Rightarrow> 'a list \<Rightarrow> 'e + bool" where
  "all_res p [] = Inr True"
| "all_res p (x # xs) = bnd (p x) (\<lambda>b. if b then all_res p xs else Inr False)"

fun any_res :: "('a \<Rightarrow> 'e + bool) \<Rightarrow> 'a list \<Rightarrow> 'e + bool" where
  "any_res p [] = Inr False"
| "any_res p (x # xs) = bnd (p x) (\<lambda>b. if b then Inr True else any_res p xs)"

text \<open>A comprehension whose condition may raise, and one whose element may raise.\<close>

fun filter_res :: "('a \<Rightarrow> 'e + bool) \<Rightarrow> 'a list \<Rightarrow> 'e + 'a list" where
  "filter_res p [] = Inr []"
| "filter_res p (x # xs) =
     bnd (p x) (\<lambda>b. bnd (filter_res p xs) (\<lambda>ys. Inr (if b then x # ys else ys)))"

fun map_res :: "('a \<Rightarrow> 'e + 'b) \<Rightarrow> 'a list \<Rightarrow> 'e + 'b list" where
  "map_res f [] = Inr []"
| "map_res f (x # xs) = bnd (f x) (\<lambda>y. bnd (map_res f xs) (\<lambda>ys. Inr (y # ys)))"

text \<open>A \<open>for\<close> loop over a state whose body may raise.\<close>

fun fold_res :: "('a \<Rightarrow> 's \<Rightarrow> 'e + 's) \<Rightarrow> 'a list \<Rightarrow> 's \<Rightarrow> 'e + 's" where
  "fold_res f [] s = Inr s"
| "fold_res f (x # xs) s = bnd (f x s) (fold_res f xs)"

lemma fold_res_invariant:
  assumes "fold_res f xs s = Inr s'" "P s"
    and "\<And>x s s'. x \<in> set xs \<Longrightarrow> P s \<Longrightarrow> f x s = Inr s' \<Longrightarrow> P s'"
  shows "P s'"
  using assms by (induction xs arbitrary: s) (auto simp: bnd_eq_Inr)

lemma fold_res_total:
  assumes "P s" and "\<And>x s. x \<in> set xs \<Longrightarrow> P s \<Longrightarrow> \<exists>s'. f x s = Inr s' \<and> P s'"
  shows "\<exists>s'. fold_res f xs s = Inr s' \<and> P s'"
  using assms
proof (induction xs arbitrary: s)
  case (Cons x xs)
  obtain s' where "f x s = Inr s'" "P s'" using Cons.prems by auto
  then show ?case using Cons.IH [of s'] Cons.prems(2) by auto
qed simp

lemma fold_res_cong [fundef_cong]:
  "xs = ys \<Longrightarrow> s = t \<Longrightarrow> (\<And>x u. x \<in> set ys \<Longrightarrow> f x u = g x u) \<Longrightarrow> fold_res f xs s = fold_res g ys t"
proof (induction ys arbitrary: xs s t)
  case (Cons y ys)
  have "fold_res f ys u = fold_res g ys u" for u by (rule Cons.IH) (use Cons.prems in simp_all)
  then show ?case using Cons.prems by simp presburger
qed simp

lemma all_res_True: "all_res p xs = Inr True \<longleftrightarrow> (\<forall>x \<in> set xs. p x = Inr True)"
  by (induction xs) (auto simp: bnd_eq_Inr split: if_splits)

lemma any_res_False: "any_res p xs = Inr False \<longleftrightarrow> (\<forall>x \<in> set xs. p x = Inr False)"
  by (induction xs) (auto simp: bnd_eq_Inr split: if_splits)

lemma filter_res_set:
  "filter_res p xs = Inr ys \<Longrightarrow> set ys = {x \<in> set xs. p x = Inr True}"
  by (induction xs arbitrary: ys) (auto simp: bnd_eq_Inr split: if_splits)

lemma map_res_length: "map_res f xs = Inr ys \<Longrightarrow> length ys = length xs"
  by (induction xs arbitrary: ys) (auto simp: bnd_eq_Inr)

lemma map_res_all: "map_res f xs = Inr ys \<longleftrightarrow> list_all2 (\<lambda>x y. f x = Inr y) xs ys"
  by (induction xs arbitrary: ys) (auto simp: bnd_eq_Inr list_all2_Cons1)

lemma all_res_cong [fundef_cong]:
  "xs = ys \<Longrightarrow> (\<And>x. x \<in> set ys \<Longrightarrow> p x = q x) \<Longrightarrow> all_res p xs = all_res q ys"
proof (induction ys arbitrary: xs)
  case (Cons y ys)
  then have "all_res p ys = all_res q ys" and "p y = q y" by simp_all
  with Cons.prems(1) show ?case by (simp cong: if_cong)
qed simp

lemma map_res_cong [fundef_cong]:
  "xs = ys \<Longrightarrow> (\<And>x. x \<in> set ys \<Longrightarrow> f x = g x) \<Longrightarrow> map_res f xs = map_res g ys"
  by (induction ys arbitrary: xs) auto

section \<open>Python strings\<close>

definition py_isspace :: "char \<Rightarrow> bool" where
  "py_isspace c \<longleftrightarrow> c \<in> {CHR 0x09, CHR 0x0A, CHR 0x0B, CHR 0x0C, CHR 0x0D, CHR 0x1C, CHR 0x1D,
     CHR 0x1E, CHR 0x1F, CHR 0x20, CHR 0x85, CHR 0xA0}"

definition py_strip :: "string \<Rightarrow> string" where
  "py_strip s = rev (dropWhile py_isspace (rev (dropWhile py_isspace s)))"

definition blank :: "string \<Rightarrow> bool" where
  "blank s \<longleftrightarrow> py_strip s = []"

definition strip_chr :: "char \<Rightarrow> string \<Rightarrow> string" where
  "strip_chr ch s = rev (dropWhile (\<lambda>c. c = ch) (rev (dropWhile (\<lambda>c. c = ch) s)))"

definition rstrip_chr :: "char \<Rightarrow> string \<Rightarrow> string" where
  "rstrip_chr ch s = rev (dropWhile (\<lambda>c. c = ch) (rev s))"

definition startswith :: "string \<Rightarrow> string \<Rightarrow> bool" where
  "startswith s p \<longleftrightarrow> take (length p) s = p"

definition endswith :: "string \<Rightarrow> string \<Rightarrow> bool" where
  "endswith s p \<longleftrightarrow> length p \<le> length s \<and> drop (length s - length p) s = p"

lemma blank_iff: "blank s \<longleftrightarrow> (\<forall>c \<in> set s. py_isspace c)"
proof
  assume "blank s"
  then have "dropWhile py_isspace (rev (dropWhile py_isspace s)) = []"
    by (simp add: blank_def py_strip_def)
  then have "\<forall>c \<in> set (dropWhile py_isspace s). py_isspace c"
    by (simp add: dropWhile_eq_Nil_conv)
  then have "dropWhile py_isspace s = []"
    by (metis hd_dropWhile hd_in_set)
  then show "\<forall>c \<in> set s. py_isspace c" by (simp add: dropWhile_eq_Nil_conv)
next
  assume "\<forall>c \<in> set s. py_isspace c"
  then show "blank s" by (auto simp: blank_def py_strip_def dest: set_dropWhileD)
qed

lemma startswith_iff: "startswith s p \<longleftrightarrow> (\<exists>t. s = p @ t)"
  unfolding startswith_def by (metis append_eq_conv_conj append_take_drop_id)

lemma endswith_iff: "endswith s p \<longleftrightarrow> (\<exists>t. s = t @ p)"
  unfolding endswith_def by (metis append_take_drop_id diff_diff_cancel length_append
    length_drop le_add2 append_eq_conv_conj add_diff_cancel_right')

text \<open>\<open>sep.join(parts)\<close> and \<open>s.split(sep)\<close> for a one-character separator.\<close>

fun join :: "string \<Rightarrow> string list \<Rightarrow> string" where
  "join sep [] = []"
| "join sep [x] = x"
| "join sep (x # y # ys) = x @ sep @ join sep (y # ys)"

fun split_chr :: "char \<Rightarrow> string \<Rightarrow> string list" where
  "split_chr sep [] = [[]]"
| "split_chr sep (c # s) =
     (if c = sep then [] # split_chr sep s
      else (case split_chr sep s of [] \<Rightarrow> [[c]] | w # ws \<Rightarrow> (c # w) # ws))"

lemma split_chr_nonempty [simp]: "split_chr sep s \<noteq> []"
  by (induction s) (auto split: list.splits)

lemma join_split_chr: "join [sep] (split_chr sep s) = s"
proof (induction s)
  case Nil
  show ?case by simp
next
  case (Cons c s)
  then show ?case
    by (cases "split_chr sep s"; cases "tl (split_chr sep s)") auto
qed

text \<open>\<open>PurePosixPath(s).parts\<close>: pathlib drops empty and \<open>.\<close> components and keeps the root.\<close>

definition path_parts :: "string \<Rightarrow> string list" where
  "path_parts s =
     (if startswith s ''//'' \<and> \<not> startswith s ''///'' then [''//'']
      else if startswith s ''/'' then [''/''] else [])
     @ filter (\<lambda>p. p \<noteq> [] \<and> p \<noteq> ''.'') (split_chr (CHR ''/'') s)"

definition hex_chars :: string where "hex_chars = ''0123456789abcdef''"

definition is_hex :: "string \<Rightarrow> bool" where
  "is_hex s \<longleftrightarrow> list_all (\<lambda>c. c \<in> set hex_chars) s"

text \<open>The test \<open>len(v) == 64\<close> with hexadecimal digits only, written at every digest field.\<close>

definition sha256_shape :: "string \<Rightarrow> bool" where
  "sha256_shape v \<longleftrightarrow> length v = 64 \<and> is_hex v"

section \<open>Decimal numbers\<close>

definition digit_char :: "nat \<Rightarrow> char" where
  "digit_char d = ''0123456789'' ! d"

fun dec_nat :: "nat \<Rightarrow> string" where
  "dec_nat n = (if n < 10 then [digit_char n] else dec_nat (n div 10) @ [digit_char (n mod 10)])"

declare dec_nat.simps [simp del]

definition dec_int :: "int \<Rightarrow> string" where
  "dec_int i = (if i < 0 then CHR ''-'' # dec_nat (nat (- i)) else dec_nat (nat i))"

definition pad_dec :: "nat \<Rightarrow> int \<Rightarrow> string" where
  "pad_dec w i = (let s = dec_int i in replicate (w - length s) (CHR ''0'') @ s)"

end
