(* ===== verification/Values.thy ===== *)
theory Values
  imports Prelude
begin

text \<open>
  Dynamically typed Python values (the \<open>Any\<close> of payloads, arguments and receipts), the
  dictionary operations on association lists in insertion order, \<open>bool()\<close>, \<open>str()\<close> and
  \<open>repr()\<close>, and timezone-aware instants with \<open>isoformat()\<close>.
\<close>

section \<open>Dynamically typed values\<close>

text \<open>A float is represented by the text \<open>float.__repr__\<close> gives it, which identifies it.\<close>

datatype pyval = PNone | PBool bool | PInt int | PFloat string | PStr string
  | PList "pyval list" | PTuple "pyval list" | PDict "(string \<times> pyval) list"

type_synonym pydict = "(string \<times> pyval) list"

lemma size_in_dict [termination_simp]:
  "(k, v) \<in> set kvs \<Longrightarrow> size v < Suc (size_list (size_prod (\<lambda>_. 0) size) kvs)"
  by (induction kvs) auto

section \<open>Dictionaries\<close>

definition dget :: "('k \<times> 'v) list \<Rightarrow> 'k \<Rightarrow> 'v option" where
  "dget d k = map_of d k"

text \<open>\<open>{**a, **b}\<close>: the keys of \<open>a\<close> keep their place, new keys of \<open>b\<close> go to the end.\<close>

definition dmerge :: "('k \<times> 'v) list \<Rightarrow> ('k \<times> 'v) list \<Rightarrow> ('k \<times> 'v) list" where
  "dmerge a b = fold (\<lambda>(k, v) d. AList.update k v d) b a"

definition ddel :: "'k \<Rightarrow> ('k \<times> 'v) list \<Rightarrow> ('k \<times> 'v) list" where
  "ddel k d = filter (\<lambda>kv. fst kv \<noteq> k) d"

definition dkeys :: "('k \<times> 'v) list \<Rightarrow> 'k list" where
  "dkeys d = map fst d"

lemma dget_update [simp]: "dget (AList.update k v d) k' = (if k' = k then Some v else dget d k')"
  by (simp add: dget_def update_conv')

lemma dget_ddel [simp]: "dget (ddel k d) k' = (if k' = k then None else dget d k')"
  by (induction d) (auto simp: dget_def ddel_def)

lemma dget_Nil [simp]: "dget [] k = None"
  by (simp add: dget_def)

lemma dget_Cons: "dget ((k, v) # d) k' = (if k' = k then Some v else dget d k')"
  by (simp add: dget_def)

lemma dget_dmerge: "dget (dmerge a b) k = (case map_of (rev b) k of Some v \<Rightarrow> Some v | None \<Rightarrow> dget a k)"
  by (induction b arbitrary: a) (auto simp: dmerge_def map_add_def split: option.splits)

lemma map_of_rev_distinct:
  assumes "distinct (map fst xs)"
  shows "map_of (rev xs) k = map_of xs k"
proof -
  have "map_of (rev xs) k = Some v \<longleftrightarrow> map_of xs k = Some v" for v
    using assms by (simp add: map_of_eq_Some_iff rev_map [symmetric])
  then show ?thesis by (cases "map_of xs k"; cases "map_of (rev xs) k") auto
qed

lemma dget_dmerge_distinct:
  "distinct (dkeys b) \<Longrightarrow> dget (dmerge a b) k = (case dget b k of Some v \<Rightarrow> Some v | None \<Rightarrow> dget a k)"
  unfolding dget_dmerge by (simp add: dget_def dkeys_def map_of_rev_distinct split: option.splits)

lemma set_dkeys_update [simp]: "set (dkeys (AList.update k v d)) = insert k (set (dkeys d))"
  using dom_update [of k v d] by (simp add: dkeys_def)

lemma distinct_dkeys_update [simp]: "distinct (dkeys d) \<Longrightarrow> distinct (dkeys (AList.update k v d))"
  by (simp add: dkeys_def distinct_update)

lemma set_dkeys_ddel [simp]: "set (dkeys (ddel k d)) = set (dkeys d) - {k}"
  by (auto simp: dkeys_def ddel_def)

lemma distinct_dkeys_ddel [simp]: "distinct (dkeys d) \<Longrightarrow> distinct (dkeys (ddel k d))"
  by (auto simp: dkeys_def ddel_def distinct_map inj_on_def)

lemma dget_None_iff: "dget d k = None \<longleftrightarrow> k \<notin> set (dkeys d)"
  by (simp add: dget_def dkeys_def map_of_eq_None_iff)

lemma dget_Some_key: "dget d k = Some v \<Longrightarrow> k \<in> set (dkeys d)"
  using dget_None_iff [of d k] by auto

section \<open>Truth values, \<open>str\<close> and \<open>repr\<close>\<close>

fun truthy :: "pyval \<Rightarrow> bool" where
  "truthy PNone = False"
| "truthy (PBool b) = b"
| "truthy (PInt i) = (i \<noteq> 0)"
| "truthy (PFloat t) = (t \<notin> {''0.0'', ''-0.0''})"
| "truthy (PStr s) = (s \<noteq> [])"
| "truthy (PList xs) = (xs \<noteq> [])"
| "truthy (PTuple xs) = (xs \<noteq> [])"
| "truthy (PDict kvs) = (kvs \<noteq> [])"

text \<open>\<open>hash(value)\<close> raises \<open>TypeError\<close> on lists and dictionaries, also inside tuples.\<close>

fun hashable :: "pyval \<Rightarrow> bool" where
  "hashable (PList xs) = False"
| "hashable (PDict d) = False"
| "hashable (PTuple xs) = list_all hashable xs"
| "hashable v = True"

definition hex_digit :: "nat \<Rightarrow> char" where
  "hex_digit d = hex_chars ! d"

definition repr_char :: "char \<Rightarrow> char \<Rightarrow> string" where
  "repr_char q c =
     (if c = q \<or> c = CHR 0x5C then [CHR 0x5C, c]
      else if c = CHR 0x0A then [CHR 0x5C, CHR ''n'']
      else if c = CHR 0x0D then [CHR 0x5C, CHR ''r'']
      else if c = CHR 0x09 then [CHR 0x5C, CHR ''t'']
      else let n = (of_char c :: nat) in
        if n < 32 \<or> (127 \<le> n \<and> n < 161) \<or> n = 173
        then [CHR 0x5C, CHR ''x'', hex_digit (n div 16), hex_digit (n mod 16)] else [c])"

definition repr_str :: "string \<Rightarrow> string" where
  "repr_str s =
     (let q = (if CHR 0x27 \<in> set s \<and> CHR 0x22 \<notin> set s then CHR 0x22 else CHR 0x27)
      in [q] @ concat (map (repr_char q) s) @ [q])"

fun py_repr :: "pyval \<Rightarrow> string" where
  "py_repr PNone = ''None''"
| "py_repr (PBool b) = (if b then ''True'' else ''False'')"
| "py_repr (PInt i) = dec_int i"
| "py_repr (PFloat t) = t"
| "py_repr (PStr s) = repr_str s"
| "py_repr (PList xs) = ''['' @ join '', '' (map py_repr xs) @ '']''"
| "py_repr (PTuple xs) =
     (if length xs = 1 then ''('' @ concat (map py_repr xs) @ '',)''
      else ''('' @ join '', '' (map py_repr xs) @ '')'')"
| "py_repr (PDict kvs) =
     ''{'' @ join '', '' (map (\<lambda>(k, v). repr_str k @ '': '' @ py_repr v) kvs) @ ''}''"

fun py_str :: "pyval \<Rightarrow> string" where
  "py_str (PStr s) = s"
| "py_str v = py_repr v"

definition str_opt :: "pyval option \<Rightarrow> pyval" where
  "str_opt v = (case v of None \<Rightarrow> PNone | Some x \<Rightarrow> x)"

definition str_bool_lower :: "bool \<Rightarrow> string" where
  "str_bool_lower b = (if b then ''true'' else ''false'')"

section \<open>\<open>int(str)\<close>\<close>

text \<open>
  Surrounding whitespace, a sign, digits with single underscores between them, and at most
  4300 digits; anything else raises \<open>ValueError\<close>, here \<open>None\<close>.
\<close>

definition is_digit :: "char \<Rightarrow> bool" where
  "is_digit c \<longleftrightarrow> (48::nat) \<le> of_char c \<and> of_char c \<le> (57::nat)"

definition digit_value :: "char \<Rightarrow> int" where
  "digit_value c = of_char c - 48"

fun py_digits :: "int \<Rightarrow> string \<Rightarrow> int option" where
  "py_digits acc [] = Some acc"
| "py_digits acc [c] = (if is_digit c then Some (10 * acc + digit_value c) else None)"
| "py_digits acc (c # d # s) =
     (if is_digit c then py_digits (10 * acc + digit_value c) (d # s)
      else if c = CHR ''_'' \<and> is_digit d then py_digits acc (d # s)
      else None)"

definition py_nat :: "string \<Rightarrow> int option" where
  "py_nat s =
     (if length (filter is_digit s) > 4300 then None
      else case s of [] \<Rightarrow> None | c # cs \<Rightarrow> if is_digit c then py_digits (digit_value c) cs else None)"

definition py_int :: "string \<Rightarrow> int option" where
  "py_int s =
     (case py_strip s of
        [] \<Rightarrow> None
      | c # cs \<Rightarrow> if c = CHR ''-'' then map_option uminus (py_nat cs)
                  else if c = CHR ''+'' then py_nat cs else py_nat (c # cs))"

section \<open>Instants\<close>

text \<open>
  A \<open>datetime\<close>: the instant in microseconds since 1970-01-01T00:00:00 UTC (of the wall
  clock when it is naive) and its offset from UTC in minutes, absent when it is naive.
  Comparison of aware values compares the instants.
\<close>

record dtime =
  instant :: int
  tzinfo :: "int option"

abbreviation aware :: "dtime \<Rightarrow> bool" where
  "aware t \<equiv> tzinfo t \<noteq> None"

definition utc :: "int \<Rightarrow> dtime" where
  "utc us = \<lparr>instant = us, tzinfo = Some 0\<rparr>"

text \<open>A \<open>timedelta\<close> in microseconds.\<close>

definition seconds :: "int \<Rightarrow> int" where "seconds n = n * 1000000"
definition minutes :: "int \<Rightarrow> int" where "minutes n = n * 60000000"

definition dt_add :: "dtime \<Rightarrow> int \<Rightarrow> dtime" where
  "dt_add t d = t\<lparr>instant := instant t + d\<rparr>"

text \<open>The proleptic Gregorian date of a day number (days since 1970-01-01).\<close>

definition civil :: "int \<Rightarrow> int \<times> int \<times> int" where
  "civil day =
     (let z = day + 719468; era = z div 146097; doe = z mod 146097;
          yoe = (doe - doe div 1460 + doe div 36524 - doe div 146096) div 365;
          doy = doe - (365 * yoe + yoe div 4 - yoe div 100);
          mp = (5 * doy + 2) div 153;
          d = doy - (153 * mp + 2) div 5 + 1;
          m = (if mp < 10 then mp + 3 else mp - 9)
      in (yoe + era * 400 + (if m \<le> 2 then 1 else 0), m, d))"

definition iso_offset :: "int \<Rightarrow> string" where
  "iso_offset off = (if off < 0 then ''-'' else ''+'')
     @ pad_dec 2 (\<bar>off\<bar> div 60) @ '':'' @ pad_dec 2 (\<bar>off\<bar> mod 60)"

definition isoformat :: "dtime \<Rightarrow> string" where
  "isoformat t =
     (let wall = instant t + (case tzinfo t of None \<Rightarrow> 0 | Some off \<Rightarrow> minutes off);
          day = wall div 86400000000; us = wall mod 86400000000;
          s = us div 1000000; frac = us mod 1000000
      in case civil day of (y, m, d) \<Rightarrow>
        pad_dec 4 y @ ''-'' @ pad_dec 2 m @ ''-'' @ pad_dec 2 d @ ''T''
        @ pad_dec 2 (s div 3600) @ '':'' @ pad_dec 2 (s div 60 mod 60) @ '':'' @ pad_dec 2 (s mod 60)
        @ (if frac = 0 then [] else ''.'' @ pad_dec 6 frac)
        @ (case tzinfo t of None \<Rightarrow> [] | Some off \<Rightarrow> iso_offset off))"

text \<open>
  \<open>datetime.fromisoformat\<close> on the texts \<open>isoformat\<close> writes; any other text is the
  \<open>ValueError\<close>, here \<open>None\<close>.
\<close>

definition days_of_civil :: "int \<Rightarrow> int \<Rightarrow> int \<Rightarrow> int" where
  "days_of_civil y m d =
     (let y' = (if m \<le> 2 then y - 1 else y); era = y' div 400; yoe = y' mod 400;
          mp = (if m > 2 then m - 3 else m + 9);
          doy = (153 * mp + 2) div 5 + d - 1;
          doe = yoe * 365 + yoe div 4 - yoe div 100 + doy
      in era * 146097 + doe - 719468)"

definition digits_at :: "string \<Rightarrow> nat \<Rightarrow> nat \<Rightarrow> int option" where
  "digits_at s i n = (let t = take n (drop i s) in
     if length t = n \<and> list_all is_digit t then Some (foldl (\<lambda>a c. 10 * a + digit_value c) 0 t) else None)"

definition char_at :: "string \<Rightarrow> nat \<Rightarrow> char \<Rightarrow> bool" where
  "char_at s i c \<longleftrightarrow> take 1 (drop i s) = [c]"

definition parse_offset :: "string \<Rightarrow> int option option" where
  "parse_offset s =
     (if s = [] then Some None
      else case (digits_at s 1 2, digits_at s 4 2) of
        (Some h, Some m) \<Rightarrow>
          if length s = 6 \<and> char_at s 3 (CHR '':'')
          then if char_at s 0 (CHR ''+'') then Some (Some (h * 60 + m))
               else if char_at s 0 (CHR ''-'') then Some (Some (- (h * 60 + m))) else None
          else None
      | _ \<Rightarrow> None)"

definition fromisoformat :: "string \<Rightarrow> dtime option" where
  "fromisoformat s =
     (case (digits_at s 0 4, digits_at s 5 2, digits_at s 8 2) of
        (Some y, Some mo, Some d) \<Rightarrow>
          (case (digits_at s 11 2, digits_at s 14 2, digits_at s 17 2) of
             (Some h, Some mi, Some sec) \<Rightarrow>
               let dot = char_at s 19 (CHR ''.'');
                   frac = (if dot then digits_at s 20 6 else Some 0);
                   off = parse_offset (drop (if dot then 26 else 19) s) in
               if char_at s 4 (CHR ''-'') \<and> char_at s 7 (CHR ''-'') \<and> char_at s 10 (CHR ''T'')
                 \<and> char_at s 13 (CHR '':'') \<and> char_at s 16 (CHR '':'')
                 \<and> 1 \<le> y \<and> 1 \<le> mo \<and> mo \<le> 12 \<and> 1 \<le> d \<and> h \<le> 23 \<and> mi \<le> 59 \<and> sec \<le> 59
                 \<and> civil (days_of_civil y mo d) = (y, mo, d)
               then (case (frac, off) of
                  (Some f, Some tz) \<Rightarrow>
                    let wall = ((days_of_civil y mo d * 24 + h) * 60 + mi) * 60000000 + sec * 1000000 + f
                    in Some \<lparr>instant = wall - (case tz of None \<Rightarrow> 0 | Some m \<Rightarrow> minutes m), tzinfo = tz\<rparr>
                | _ \<Rightarrow> None)
               else None
           | _ \<Rightarrow> None)
      | _ \<Rightarrow> None)"

text \<open>The instants whose text is read back: years 1 to 9999 with a whole-minute offset.\<close>

definition iso_ok :: "dtime \<Rightarrow> bool" where
  "iso_ok t \<longleftrightarrow> fromisoformat (isoformat t) = Some t"

section \<open>Reading typed fields\<close>

definition dreq :: "pydict \<Rightarrow> string \<Rightarrow> pyval res" where
  "dreq d k = (case dget d k of None \<Rightarrow> Inl (KeyError, repr_str k) | Some v \<Rightarrow> Inr v)"

definition ddef :: "pydict \<Rightarrow> string \<Rightarrow> pyval \<Rightarrow> pyval" where
  "ddef d k v = (case dget d k of None \<Rightarrow> v | Some x \<Rightarrow> x)"

text \<open>\<open>int(value)\<close>; floats are not converted by the modelled code.\<close>

fun int_of :: "pyval \<Rightarrow> int res" where
  "int_of (PInt i) = Inr i"
| "int_of (PBool b) = Inr (if b then 1 else 0)"
| "int_of (PStr s) = (case py_int s of None \<Rightarrow> Inl (ValueError, ''invalid literal for int()'') | Some i \<Rightarrow> Inr i)"
| "int_of v = Inl (TypeError, ''int() argument must be a string or a real number'')"

fun str_of :: "pyval \<Rightarrow> string res" where
  "str_of (PStr s) = Inr s"
| "str_of v = Inl (TypeError, ''expected a string'')"

fun list_of :: "pyval \<Rightarrow> pyval list res" where
  "list_of (PList xs) = Inr xs"
| "list_of (PTuple xs) = Inr xs"
| "list_of (PDict d) = Inr (map (PStr \<circ> fst) d)"
| "list_of (PStr s) = Inr (map (\<lambda>c. PStr [c]) s)"
| "list_of v = Inl (TypeError, ''object is not iterable'')"

fun dict_of :: "pyval \<Rightarrow> pydict res" where
  "dict_of (PDict d) = Inr d"
| "dict_of v = Inl (TypeError, ''expected a dictionary'')"

definition strs_of :: "pyval \<Rightarrow> string list res" where
  "strs_of v = bnd (list_of v) (map_res str_of)"

definition str_dict_of :: "pyval \<Rightarrow> (string \<times> string) list res" where
  "str_dict_of v = bnd (dict_of v) (map_res (\<lambda>(k, x). bnd (str_of x) (\<lambda>s. Inr (k, s))))"

definition time_of :: "pyval \<Rightarrow> dtime res" where
  "time_of v = bnd (str_of v) (\<lambda>s. case fromisoformat s of
     None \<Rightarrow> Inl (ValueError, ''Invalid isoformat string: '' @ repr_str s) | Some t \<Rightarrow> Inr t)"

lemma map_res_str_of [simp]: "map_res str_of (map PStr xs) = Inr xs"
  by (induction xs) auto

lemma strs_of_list [simp]: "strs_of (PList (map PStr xs)) = Inr xs" "strs_of (PTuple (map PStr xs)) = Inr xs"
  by (simp_all add: strs_of_def)

lemma str_dict_of_PDict [simp]: "str_dict_of (PDict (map (\<lambda>(k, v). (k, PStr v)) d)) = Inr d"
proof -
  have "map_res (\<lambda>(k, x). bnd (str_of x) (\<lambda>s. Inr (k, s))) (map (\<lambda>(k, v). (k, PStr v)) d) = Inr d"
    by (induction d) auto
  then show ?thesis by (simp add: str_dict_of_def)
qed

lemma time_of_iso [simp]: "iso_ok t \<Longrightarrow> time_of (PStr (isoformat t)) = Inr t"
  by (simp add: time_of_def iso_ok_def)

lemma iso_ok_epoch: "iso_ok (utc 0)"
  by code_simp

end
