(* ===== verification/Canonical.thy ===== *)
theory Canonical
  imports Values
begin

text \<open>
  \<open>src/vloop/canonical.py\<close>: canonical JSON and the digests taken on every security
  boundary. SHA-256 and Ed25519 come from a Rust extension or from the \<open>cryptography\<close>
  package; they are the fields of a record \<open>crypto\<close> that every definition using them takes
  as an argument. The text that is hashed is modelled completely, and it is shown to
  determine the value it encodes (up to key order and the list/tuple distinction, which
  JSON does not keep).
\<close>

section \<open>Canonical JSON\<close>

text \<open>\<open>json.dumps\<close> with \<open>ensure_ascii=False\<close>: only quotes, backslashes and controls are escaped.\<close>

definition json_char :: "char \<Rightarrow> string" where
  "json_char c =
     (if c = CHR 0x22 then [CHR 0x5C, CHR 0x22]
      else if c = CHR 0x5C then [CHR 0x5C, CHR 0x5C]
      else if c = CHR 0x0A then [CHR 0x5C, CHR ''n'']
      else if c = CHR 0x0D then [CHR 0x5C, CHR ''r'']
      else if c = CHR 0x09 then [CHR 0x5C, CHR ''t'']
      else if c = CHR 0x0C then [CHR 0x5C, CHR ''f'']
      else if c = CHR 0x08 then [CHR 0x5C, CHR ''b'']
      else let n = (of_char c :: nat) in
        if n < 32 then [CHR 0x5C, CHR ''u'', CHR ''0'', CHR ''0'', hex_digit (n div 16), hex_digit (n mod 16)]
        else [c])"

definition json_string :: "string \<Rightarrow> string" where
  "json_string s = CHR 0x22 # concat (map json_char s) @ [CHR 0x22]"

text \<open>A float is written by its \<open>repr\<close>; \<open>json.dumps\<close> has names of its own for NaN and the infinities.\<close>

definition json_float :: "string \<Rightarrow> string" where
  "json_float t = (if t = ''nan'' then ''NaN'' else if t = ''inf'' then ''Infinity''
     else if t = ''-inf'' then ''-Infinity'' else t)"

text \<open>Separators are \<open>,\<close> and \<open>:\<close> without blanks, and keys are sorted by code point.\<close>

fun canonical_json :: "pyval \<Rightarrow> string" where
  "canonical_json PNone = ''null''"
| "canonical_json (PBool b) = (if b then ''true'' else ''false'')"
| "canonical_json (PInt i) = dec_int i"
| "canonical_json (PFloat t) = json_float t"
| "canonical_json (PStr s) = json_string s"
| "canonical_json (PList xs) = ''['' @ join '','' (map canonical_json xs) @ '']''"
| "canonical_json (PTuple xs) = ''['' @ join '','' (map canonical_json xs) @ '']''"
| "canonical_json (PDict kvs) =
     ''{'' @ join '','' (map (\<lambda>(k, t). json_string k @ '':'' @ t)
               (sort_key fst (map (\<lambda>(k, v). (k, canonical_json v)) kvs))) @ ''}''"

text \<open>
  What \<open>json.loads\<close> gives back for a canonical text: the value with tuples read as lists and
  with every dictionary in the sorted order of its keys.
\<close>

fun json_norm :: "pyval \<Rightarrow> pyval" where
  "json_norm (PList xs) = PList (map json_norm xs)"
| "json_norm (PTuple xs) = PList (map json_norm xs)"
| "json_norm (PDict kvs) = PDict (sort_key fst (map (\<lambda>(k, v). (k, json_norm v)) kvs))"
| "json_norm v = v"

section \<open>Cryptographic primitives\<close>

record crypto =
  sha256_hex :: "string \<Rightarrow> string"
  ed_public :: "string \<Rightarrow> string"
  ed_sign :: "string \<Rightarrow> string \<Rightarrow> string"
  ed_verify :: "string \<Rightarrow> string \<Rightarrow> string \<Rightarrow> bool"

definition digest :: "crypto \<Rightarrow> pyval \<Rightarrow> string" where
  "digest cr v = sha256_hex cr (canonical_json v)"

text \<open>
  Documented behaviour of the primitives: a SHA-256 digest is 64 lower-case hexadecimal
  digits, and a signature made with a private key verifies under its public key.
\<close>

definition sha256_spec :: "crypto \<Rightarrow> bool" where
  "sha256_spec cr \<longleftrightarrow> (\<forall>m. sha256_shape (sha256_hex cr m))"

definition ed25519_spec :: "crypto \<Rightarrow> bool" where
  "ed25519_spec cr \<longleftrightarrow> (\<forall>sk m. ed_verify cr (ed_public cr sk) m (ed_sign cr sk m))"

text \<open>Two texts with the same hash: what an attacker on a digest would have to exhibit.\<close>

definition collision :: "crypto \<Rightarrow> string \<Rightarrow> string \<Rightarrow> bool" where
  "collision cr a b \<longleftrightarrow> a \<noteq> b \<and> sha256_hex cr a = sha256_hex cr b"

section \<open>A canonical text determines its value\<close>

text \<open>
  The shape of the texts \<open>float.__repr__\<close> produces for finite floats: number characters
  with a point or an exponent, which no integer text has.
\<close>

definition num_chars :: string where "num_chars = ''0123456789-''"

definition float_chars :: string where "float_chars = ''0123456789-+.e''"

definition float_text :: "string \<Rightarrow> bool" where
  "float_text t \<longleftrightarrow> t \<noteq> [] \<and> hd t \<in> set num_chars \<and> set t \<subseteq> set float_chars
     \<and> (CHR ''.'' \<in> set t \<or> CHR ''e'' \<in> set t)"

lemma json_float_finite [simp]: "float_text t \<Longrightarrow> json_float t = t"
proof -
  have "CHR ''n'' \<notin> set float_chars" by (simp add: float_chars_def)
  then show "float_text t \<Longrightarrow> json_float t = t" unfolding float_text_def json_float_def by (auto simp del: set_append)
qed

fun wf_json :: "pyval \<Rightarrow> bool" where
  "wf_json (PFloat t) = float_text t"
| "wf_json (PList xs) = list_all wf_json xs"
| "wf_json (PTuple xs) = list_all wf_json xs"
| "wf_json (PDict kvs) = (distinct (map fst kvs) \<and> list_all (\<lambda>(k, v). wf_json v) kvs)"
| "wf_json v = True"

subsection \<open>Decimal texts\<close>

definition digit_val :: "char \<Rightarrow> nat" where
  "digit_val c = of_char c - 48"

definition undec :: "string \<Rightarrow> nat" where
  "undec s = foldl (\<lambda>a c. 10 * a + digit_val c) 0 s"

lemma digit_cases: "d < 10 \<Longrightarrow> d \<in> {0, 1, 2, 3, 4, 5, 6, 7, 8, 9 :: nat}"
  by auto

lemma digit_val_char: "d < 10 \<Longrightarrow> digit_val (digit_char d) = d"
  by (drule digit_cases) (auto simp: digit_val_def digit_char_def)

lemma digit_char_in: "d < 10 \<Longrightarrow> digit_char d \<in> set ''0123456789''"
  by (drule digit_cases) (auto simp: digit_char_def)

lemma undec_dec_nat: "undec (dec_nat n) = n"
proof (induction n rule: dec_nat.induct)
  case (1 n)
  show ?case
  proof (cases "n < 10")
    case True
    then show ?thesis by (simp add: dec_nat.simps [of n] undec_def digit_val_char)
  next
    case False
    then have "dec_nat n = dec_nat (n div 10) @ [digit_char (n mod 10)]"
      by (simp add: dec_nat.simps [of n])
    moreover have "undec (dec_nat (n div 10)) = n div 10" using "1.IH" False by simp
    ultimately show ?thesis by (simp add: undec_def digit_val_char)
  qed
qed

lemma dec_nat_inj: "dec_nat m = dec_nat n \<longleftrightarrow> m = n"
  by (metis undec_dec_nat)

lemma dec_nat_chars: "set (dec_nat n) \<subseteq> set ''0123456789'' \<and> dec_nat n \<noteq> []"
proof (induction n rule: dec_nat.induct)
  case (1 n)
  show ?case
  proof (cases "n < 10")
    case True
    then show ?thesis using digit_char_in [of n] by (simp add: dec_nat.simps [of n])
  next
    case False
    then show ?thesis using "1.IH" digit_char_in [of "n mod 10"]
      by (simp add: dec_nat.simps [of n])
  qed
qed

lemma dec_nat_hd: "hd (dec_nat n) \<in> set ''0123456789''"
  using dec_nat_chars [of n] by (cases "dec_nat n") auto

lemma dec_int_inj: "dec_int i = dec_int j \<longleftrightarrow> i = j"
proof -
  have neq: "dec_nat a = CHR ''-'' # s \<longleftrightarrow> False" "CHR ''-'' # s = dec_nat a \<longleftrightarrow> False" for a s
    using dec_nat_hd [of a] by (cases "dec_nat a"; force)+
  show ?thesis
    by (cases "i < 0"; cases "j < 0") (auto simp: dec_int_def dec_nat_inj neq)
qed

lemma dec_int_chars: "set (dec_int i) \<subseteq> set num_chars" "dec_int i \<noteq> []"
proof -
  have sub: "set (dec_nat n) \<subseteq> set num_chars" for n
    by (rule subset_trans [OF conjunct1 [OF dec_nat_chars]]) (simp add: num_chars_def)
  have minus: "CHR ''-'' \<in> set num_chars" by (simp add: num_chars_def)
  show "set (dec_int i) \<subseteq> set num_chars"
    by (simp add: dec_int_def sub minus)
  show "dec_int i \<noteq> []"
    using dec_nat_chars by (simp add: dec_int_def)
qed

subsection \<open>String texts\<close>

text \<open>The reading direction: the first character of an escaped text and the rest of it.\<close>

definition hex_val :: "char \<Rightarrow> nat" where
  "hex_val c = length (takeWhile (\<lambda>x. x \<noteq> c) hex_chars)"

definition unescape :: "char \<Rightarrow> char" where
  "unescape e = (if e = CHR ''n'' then CHR 0x0A else if e = CHR ''r'' then CHR 0x0D
     else if e = CHR ''t'' then CHR 0x09 else if e = CHR ''f'' then CHR 0x0C
     else if e = CHR ''b'' then CHR 0x08 else e)"

definition json_uncons :: "string \<Rightarrow> char \<times> string" where
  "json_uncons s =
     (if hd s \<noteq> CHR 0x5C then (hd s, tl s)
      else if s ! 1 \<noteq> CHR ''u'' then (unescape (s ! 1), drop 2 s)
      else (char_of (16 * hex_val (s ! 4) + hex_val (s ! 5)), drop 6 s))"

lemma hex_val_digit: "d < 16 \<Longrightarrow> hex_val (hex_digit d) = d"
proof -
  assume "d < 16"
  then have "d \<in> {0, 1, 2, 3, 4, 5, 6, 7, 8, 9, 10, 11, 12, 13, 14, 15}"
    unfolding insert_iff empty_iff by presburger
  then show ?thesis by (auto simp: hex_val_def hex_digit_def hex_chars_def)
qed

lemma json_uncons_char: "json_uncons (json_char c @ r) = (c, r)"
proof -
  have "(of_char c :: nat) div 16 < 16" if "(of_char c :: nat) < 32"
    using that by simp
  then show ?thesis
    unfolding json_char_def json_uncons_def Let_def
    by (simp add: unescape_def hex_val_digit)
qed

lemma json_char_decode: "json_char c @ r = json_char d @ s \<Longrightarrow> c = d \<and> r = s"
  by (metis json_uncons_char prod.inject)

lemma json_char_start: "json_char c \<noteq> [] \<and> hd (json_char c) \<noteq> CHR 0x22"
  by (auto simp: json_char_def Let_def)

lemma json_body_decode:
  "concat (map json_char s) @ CHR 0x22 # r = concat (map json_char t) @ CHR 0x22 # u
   \<Longrightarrow> s = t \<and> r = u"
proof (induction s arbitrary: t)
  case Nil
  then show ?case
    using json_char_start by (cases t) (auto simp: hd_append, metis hd_append2 list.sel(1))
next
  case (Cons c s)
  show ?case
  proof (cases t)
    case Nil
    then show ?thesis using Cons.prems json_char_start [of c]
      by (auto, metis hd_append2 list.sel(1))
  next
    case (Cons d t')
    with Cons.prems have "json_char c @ concat (map json_char s) @ CHR 0x22 # r
        = json_char d @ concat (map json_char t') @ CHR 0x22 # u" by simp
    from json_char_decode [OF this] Cons.IH show ?thesis by (auto simp: Cons)
  qed
qed

lemma json_string_decode: "json_string s @ r = json_string t @ u \<Longrightarrow> s = t \<and> r = u"
  using json_body_decode [of s r t u] by (simp add: json_string_def)

subsection \<open>Number texts\<close>

text \<open>What may follow a value inside a canonical text.\<close>

definition delim :: "string \<Rightarrow> bool" where
  "delim r \<longleftrightarrow> r = [] \<or> hd r \<in> {CHR '','', CHR '']'', CHR ''}''}"

lemma delim_simps [simp]:
  "delim []" "delim (CHR '','' # r)" "delim (CHR '']'' # r)" "delim (CHR ''}'' # r)"
  by (simp_all add: delim_def)

lemma number_text_decode:
  assumes "set t \<subseteq> set float_chars" "set u \<subseteq> set float_chars" "delim r" "delim s"
    and "t @ r = u @ s"
  shows "t = u \<and> r = s"
proof -
  have stop: "takeWhile (\<lambda>c. c \<in> set float_chars) (v @ q) = v"
    if "set v \<subseteq> set float_chars" "delim q" for v q
  proof -
    have "takeWhile (\<lambda>c. c \<in> set float_chars) q = []"
      using that(2) by (cases q) (auto simp: delim_def float_chars_def)
    moreover have "\<forall>x \<in> set v. x \<in> set float_chars" using that(1) by blast
    ultimately show ?thesis by (simp add: takeWhile_append2)
  qed
  from stop [OF assms(1,3)] stop [OF assms(2,4)] assms(5) show ?thesis by simp
qed

lemma num_subset_float: "set num_chars \<subseteq> set float_chars"
  by (simp add: num_chars_def float_chars_def)

lemma dec_int_float_chars: "set (dec_int i) \<subseteq> set float_chars"
  by (rule subset_trans [OF dec_int_chars(1) num_subset_float])

lemma int_not_float: "float_text t \<Longrightarrow> dec_int i \<noteq> t"
proof
  assume f: "float_text t" and e: "dec_int i = t"
  then have "CHR ''.'' \<in> set num_chars \<or> CHR ''e'' \<in> set num_chars"
    using dec_int_chars(1) [of i] unfolding float_text_def by blast
  then show False by (simp add: num_chars_def)
qed

lemma not_float_text_int [simp]: "\<not> float_text (dec_int i)"
  using int_not_float by blast

lemma float_text_chars: "float_text t \<Longrightarrow> set t \<subseteq> set float_chars"
  by (simp add: float_text_def)

subsection \<open>Sequences of items\<close>

lemma join_cons: "xs \<noteq> [] \<Longrightarrow> join sep (x # xs) = x @ sep @ join sep xs"
  by (cases xs) auto

definition items_tail :: "char \<Rightarrow> ('a \<Rightarrow> string) \<Rightarrow> 'a list \<Rightarrow> string \<Rightarrow> string" where
  "items_tail cl f xs r =
     (if xs = [] then cl # r else CHR '','' # join '','' (map f xs) @ cl # r)"

lemma items_unfold:
  "join '','' (map f (x # xs)) @ cl # r = f x @ items_tail cl f xs r"
  by (cases xs) (simp_all add: items_tail_def)

lemma items_decode:
  assumes cl: "cl \<in> {CHR '']'', CHR ''}''}"
    and first: "\<And>x. x \<in> set xs \<Longrightarrow> f x \<noteq> [] \<and> hd (f x) \<noteq> cl"
    and first': "\<And>y. y \<in> set ys \<Longrightarrow> g y \<noteq> [] \<and> hd (g y) \<noteq> cl"
    and item: "\<And>x y r s. x \<in> set xs \<Longrightarrow> y \<in> set ys \<Longrightarrow> delim r \<Longrightarrow> delim s \<Longrightarrow>
       f x @ r = g y @ s \<Longrightarrow> R x y \<and> r = s"
    and eq: "join '','' (map f xs) @ cl # r = join '','' (map g ys) @ cl # s"
  shows "list_all2 R xs ys \<and> r = s"
  using first first' item eq
proof (induction xs arbitrary: ys)
  case Nil
  show ?case
  proof (cases ys)
    case (Cons y ys')
    with Nil.prems(4) have "cl # r = g y @ items_tail cl g ys' s"
      by (simp add: items_unfold del: list.map(2))
    with Nil.prems(2) [of y] Cons show ?thesis by (metis hd_append2 list.sel(1) list.set_intros(1))
  qed (use Nil in simp)
next
  case (Cons x xs)
  have dt: "delim (items_tail cl h zs q)" for h zs q
    using cl by (auto simp: items_tail_def)
  show ?case
  proof (cases ys)
    case Nil
    with Cons.prems(4) have "f x @ items_tail cl f xs r = cl # s"
      by (simp add: items_unfold del: list.map(2))
    with Cons.prems(1) [of x] show ?thesis by (metis hd_append2 list.sel(1) list.set_intros(1))
  next
    case (Cons y ys')
    with Cons.prems(4) have "f x @ items_tail cl f xs r = g y @ items_tail cl g ys' s"
      by (simp add: items_unfold del: list.map(2))
    from Cons.prems(3) [OF _ _ dt dt this] Cons
    have xy: "R x y" and tl: "items_tail cl f xs r = items_tail cl g ys' s" by auto
    have "list_all2 R xs ys' \<and> r = s"
    proof (cases "xs = [] \<or> ys' = []")
      case True
      with tl cl show ?thesis by (auto simp: items_tail_def split: if_splits)
    next
      case False
      with tl have "join '','' (map f xs) @ cl # r = join '','' (map g ys') @ cl # s"
        by (simp add: items_tail_def)
      show ?thesis
      proof (rule Cons.IH [OF _ _ _ \<open>join _ (map f xs) @ cl # r = _\<close>])
        fix a b p q
        assume "a \<in> set xs" "b \<in> set ys'" "delim p" "delim q" "f a @ p = g b @ q"
        with Cons.prems(3) [of a b p q] Cons show "R a b \<and> p = q" by simp
      qed (use Cons.prems(1,2) Cons in auto)
    qed
    with xy Cons show ?thesis by simp
  qed
qed

subsection \<open>Values\<close>

lemma insort_key_map: "insort_key f (g x) (map g xs) = map g (insort_key (f \<circ> g) x xs)"
  by (induction xs) auto

lemma sort_key_map: "sort_key f (map g xs) = map g (sort_key (f \<circ> g) xs)"
  by (induction xs) (simp_all add: insort_key_map [unfolded comp_def] comp_def)

lemma sort_fst_map_snd:
  "sort_key fst (map (\<lambda>(k, v). (k, h v)) kvs) = map (\<lambda>(k, v). (k, h v)) (sort_key fst kvs)"
proof -
  have "fst \<circ> (\<lambda>(k, v). (k, h v)) = fst" by (rule ext) auto
  then show ?thesis unfolding sort_key_map by (rule arg_cong)
qed

definition json_item :: "string \<times> pyval \<Rightarrow> string" where
  "json_item kv = json_string (fst kv) @ '':'' @ canonical_json (snd kv)"

lemma canonical_json_dict:
  "canonical_json (PDict kvs) = ''{'' @ join '','' (map json_item (sort_key fst kvs)) @ ''}''"
  by (simp add: sort_fst_map_snd comp_def json_item_def [abs_def] case_prod_beta)

lemma json_norm_dict:
  "json_norm (PDict kvs) = PDict (map (\<lambda>(k, v). (k, json_norm v)) (sort_key fst kvs))"
  by (simp add: sort_fst_map_snd)

text \<open>The first character of a text tells which kind of value it encodes.\<close>

fun json_kind :: "pyval \<Rightarrow> nat" where
  "json_kind PNone = 0"
| "json_kind (PBool b) = (if b then 1 else 2)"
| "json_kind (PInt i) = 3"
| "json_kind (PFloat t) = 3"
| "json_kind (PStr s) = 4"
| "json_kind (PList xs) = 5"
| "json_kind (PTuple xs) = 5"
| "json_kind (PDict kvs) = 6"

definition char_kind :: "char \<Rightarrow> nat" where
  "char_kind c = (if c = CHR ''n'' then 0 else if c = CHR ''t'' then 1 else if c = CHR ''f'' then 2
     else if c = CHR 0x22 then 4 else if c = CHR ''['' then 5 else if c = CHR ''{'' then 6
     else if c \<in> set num_chars then 3 else 7)"

lemma char_kind_num: "c \<in> set num_chars \<Longrightarrow> char_kind c = 3"
  by (auto simp: char_kind_def num_chars_def)

lemma canonical_json_start:
  "wf_json v \<Longrightarrow> canonical_json v \<noteq> [] \<and> char_kind (hd (canonical_json v)) = json_kind v"
proof (cases v)
  case (PInt i)
  have "hd (dec_int i) \<in> set num_chars"
    using dec_int_chars [of i] by (cases "dec_int i") auto
  then show ?thesis using PInt dec_int_chars(2) by (simp add: char_kind_num)
next
  case (PFloat t)
  then show "wf_json v \<Longrightarrow> ?thesis" by (simp add: char_kind_num float_text_def)
qed (auto simp: char_kind_def json_string_def)

lemma start_not_close:
  assumes "wf_json v" "cl \<in> {CHR '']'', CHR ''}''}"
  shows "hd (canonical_json v) \<noteq> cl"
proof
  assume "hd (canonical_json v) = cl"
  with canonical_json_start [OF assms(1)] assms(2) have "json_kind v = 7"
    by (auto simp: char_kind_def num_chars_def)
  then show False by (cases v) (auto split: if_splits)
qed

lemma same_kind:
  "wf_json x \<Longrightarrow> wf_json y \<Longrightarrow> canonical_json x @ r = canonical_json y @ s \<Longrightarrow>
   json_kind x = json_kind y"
  using canonical_json_start [of x] canonical_json_start [of y] by (metis hd_append2)

definition decodable :: "pyval \<Rightarrow> bool" where
  "decodable x \<longleftrightarrow> (\<forall>y r s. wf_json x \<longrightarrow> wf_json y \<longrightarrow> delim r \<longrightarrow> delim s \<longrightarrow>
     canonical_json x @ r = canonical_json y @ s \<longrightarrow> json_norm x = json_norm y \<and> r = s)"

lemma decodable_array:
  assumes "\<And>x. x \<in> set xs \<Longrightarrow> decodable x" "list_all wf_json xs" "list_all wf_json ys"
    and "join '','' (map canonical_json xs) @ '']'' @ r = join '','' (map canonical_json ys) @ '']'' @ s"
  shows "map json_norm xs = map json_norm ys \<and> r = s"
proof -
  have "list_all2 (\<lambda>x y. json_norm x = json_norm y) xs ys \<and> r = s"
    by (rule items_decode [where cl = "CHR '']''" and f = canonical_json and g = canonical_json])
      (use assms canonical_json_start start_not_close in
        \<open>auto simp: decodable_def list_all_iff\<close>)
  then show ?thesis
    by (simp add: list.rel_eq [symmetric] list.rel_map)
qed

lemma decodable_object:
  assumes "\<And>k v. (k, v) \<in> set kvs \<Longrightarrow> decodable v"
    and "wf_json (PDict kvs)" "wf_json (PDict kvs')"
    and "join '','' (map json_item (sort_key fst kvs)) @ ''}'' @ r
       = join '','' (map json_item (sort_key fst kvs')) @ ''}'' @ s"
  shows "json_norm (PDict kvs) = json_norm (PDict kvs') \<and> r = s"
proof -
  let ?R = "\<lambda>x y. fst x = fst y \<and> json_norm (snd x) = json_norm (snd y)"
  have "list_all2 ?R (sort_key fst kvs) (sort_key fst kvs') \<and> r = s"
  proof (rule items_decode [where cl = "CHR ''}''" and f = json_item and g = json_item])
    fix x y r s
    assume x: "x \<in> set (sort_key fst kvs)" and y: "y \<in> set (sort_key fst kvs')"
      and d: "delim r" "delim s" and e: "json_item x @ r = json_item y @ s"
    from e have k: "fst x = fst y" and v: "canonical_json (snd x) @ r = canonical_json (snd y) @ s"
      using json_string_decode [of "fst x" "'':'' @ canonical_json (snd x) @ r" "fst y"
          "'':'' @ canonical_json (snd y) @ s"]
      by (auto simp: json_item_def)
    have "decodable (snd x)" using x assms(1) [of "fst x" "snd x"] by simp
    moreover have "wf_json (snd x)" "wf_json (snd y)"
      using x y assms(2,3) by (auto simp: list_all_iff case_prod_beta)
    ultimately have "json_norm (snd x) = json_norm (snd y) \<and> r = s"
      using d v unfolding decodable_def by blast
    with k show "?R x y \<and> r = s" by simp
  qed (use assms(4) in \<open>auto simp: json_item_def json_string_def\<close>)
  then show ?thesis
    unfolding json_norm_dict
    by (simp add: list.rel_eq [symmetric] list.rel_map case_prod_beta prod_eq_iff)
qed

lemma decodable_all: "decodable v"
proof (induction v)
  case (PInt i)
  show ?case unfolding decodable_def
  proof (intro allI impI)
    fix y r s assume a: "wf_json y" "delim r" "delim s" "canonical_json (PInt i) @ r = canonical_json y @ s"
    from same_kind [OF _ a(1,4)] have "json_kind y = 3" by simp
    with a show "json_norm (PInt i) = json_norm y \<and> r = s"
      using number_text_decode [of "dec_int i" "canonical_json y" r s]
      by (cases y) (auto simp: dec_int_float_chars dec_int_inj float_text_chars split: if_splits)
  qed
next
  case (PFloat t)
  show ?case unfolding decodable_def
  proof (intro allI impI)
    fix y r s
    assume a: "wf_json (PFloat t)" "wf_json y" "delim r" "delim s"
      "canonical_json (PFloat t) @ r = canonical_json y @ s"
    from same_kind [OF a(1,2,5)] have "json_kind y = 3" by simp
    with a show "json_norm (PFloat t) = json_norm y \<and> r = s"
      using number_text_decode [of t "canonical_json y" r s]
      by (cases y) (auto simp: dec_int_float_chars float_text_chars split: if_splits)
  qed
next
  case (PList xs)
  show ?case unfolding decodable_def
  proof (intro allI impI)
    fix y r s
    assume a: "wf_json (PList xs)" "wf_json y" "delim r" "delim s"
      "canonical_json (PList xs) @ r = canonical_json y @ s"
    from same_kind [OF a(1,2,5)] have "json_kind y = 5" by simp
    then obtain ys where y: "y = PList ys \<or> y = PTuple ys" by (cases y) (auto split: if_splits)
    with a have w: "list_all wf_json xs" "list_all wf_json ys"
      and j: "join '','' (map canonical_json xs) @ '']'' @ r = join '','' (map canonical_json ys) @ '']'' @ s"
      by auto
    from decodable_array [OF PList w j] y show "json_norm (PList xs) = json_norm y \<and> r = s" by auto
  qed
next
  case (PTuple xs)
  show ?case unfolding decodable_def
  proof (intro allI impI)
    fix y r s
    assume a: "wf_json (PTuple xs)" "wf_json y" "delim r" "delim s"
      "canonical_json (PTuple xs) @ r = canonical_json y @ s"
    from same_kind [OF a(1,2,5)] have "json_kind y = 5" by simp
    then obtain ys where y: "y = PList ys \<or> y = PTuple ys" by (cases y) (auto split: if_splits)
    with a have w: "list_all wf_json xs" "list_all wf_json ys"
      and j: "join '','' (map canonical_json xs) @ '']'' @ r = join '','' (map canonical_json ys) @ '']'' @ s"
      by auto
    from decodable_array [OF PTuple w j] y show "json_norm (PTuple xs) = json_norm y \<and> r = s" by auto
  qed
next
  case (PDict kvs)
  have IH: "(k, v) \<in> set kvs \<Longrightarrow> decodable v" for k v
    using PDict by (metis snd_conv prod_set_simps(2) singletonI)
  show ?case unfolding decodable_def
  proof (intro allI impI)
    fix y r s
    assume a: "wf_json (PDict kvs)" "wf_json y" "delim r" "delim s"
      "canonical_json (PDict kvs) @ r = canonical_json y @ s"
    from same_kind [OF a(1,2,5)] have "json_kind y = 6" by simp
    then obtain kvs' where y: "y = PDict kvs'" by (cases y) (auto split: if_splits)
    from a(5) have j: "join '','' (map json_item (sort_key fst kvs)) @ ''}'' @ r
       = join '','' (map json_item (sort_key fst kvs')) @ ''}'' @ s"
      unfolding y canonical_json_dict by simp
    from decodable_object [OF IH a(1) a(2) [unfolded y] j] y
    show "json_norm (PDict kvs) = json_norm y \<and> r = s" by simp
  qed
next
  case (PStr t)
  show ?case unfolding decodable_def
  proof (intro allI impI)
    fix y r s
    assume a: "wf_json y" "canonical_json (PStr t) @ r = canonical_json y @ s"
    from same_kind [OF _ a] have "json_kind y = 4" by simp
    then obtain u where y: "y = PStr u" by (cases y) (auto split: if_splits)
    with a have "json_string t @ r = json_string u @ s" by simp
    from json_string_decode [OF this] y show "json_norm (PStr t) = json_norm y \<and> r = s" by simp
  qed
next
  case PNone
  show ?case unfolding decodable_def
  proof (intro allI impI)
    fix y r s
    assume a: "wf_json y" "canonical_json PNone @ r = canonical_json y @ s"
    from same_kind [OF _ a] have "json_kind y = 0" by simp
    with a show "json_norm PNone = json_norm y \<and> r = s"
      by (cases y) (auto split: if_splits)
  qed
next
  case (PBool b)
  show ?case unfolding decodable_def
  proof (intro allI impI)
    fix y r s
    assume a: "wf_json y" "canonical_json (PBool b) @ r = canonical_json y @ s"
    from same_kind [OF _ a] have "json_kind y = (if b then 1 else 2)" by simp
    with a show "json_norm (PBool b) = json_norm y \<and> r = s"
      by (cases y) (auto split: if_splits)
  qed
qed

lemma canonical_json_inj:
  "wf_json x \<Longrightarrow> wf_json y \<Longrightarrow> canonical_json x = canonical_json y \<Longrightarrow> json_norm x = json_norm y"
  using decodable_all [of x] unfolding decodable_def by (metis append_Nil2 delim_simps(1))

text \<open>Equal digests: equal values, or two different texts with the same hash.\<close>

lemma digest_eq_cases:
  assumes "wf_json x" "wf_json y" "digest cr x = digest cr y"
  obtains "json_norm x = json_norm y"
  | "collision cr (canonical_json x) (canonical_json y)"
  using assms canonical_json_inj unfolding digest_def collision_def by blast

section \<open>Values read back from their text\<close>

text \<open>A dictionary stored as JSON and read back: sorted keys, normalised values.\<close>

definition sort_dict :: "(string \<times> 'v) list \<Rightarrow> (string \<times> 'v) list" where
  "sort_dict d = sort_key fst d"

definition norm_dict :: "pydict \<Rightarrow> pydict" where
  "norm_dict d = sort_dict (map (\<lambda>(k, v). (k, json_norm v)) d)"

lemma json_norm_PDict: "json_norm (PDict d) = PDict (norm_dict d)"
  by (simp add: norm_dict_def sort_dict_def)

lemma dkeys_sort_dict [simp]: "set (dkeys (sort_dict d)) = set (dkeys d)"
  by (simp add: sort_dict_def dkeys_def)

lemma distinct_sort_dict [simp]: "distinct (dkeys (sort_dict d)) = distinct (dkeys d)"
proof -
  have "length (dkeys (sort_dict d)) = length (dkeys d)" by (simp add: sort_dict_def dkeys_def)
  then show ?thesis by (metis card_distinct distinct_card dkeys_sort_dict)
qed

lemma map_of_filter_key: "map_of (filter (\<lambda>kv. fst kv = k) d) k = map_of d k"
  by (induction d) auto

text \<open>Sorting is stable, so looking a key up is not affected.\<close>

lemma dget_sort_dict [simp]: "dget (sort_dict d) k = dget d k"
proof -
  have "filter (\<lambda>kv. fst kv = k) (sort_dict d) = filter (\<lambda>kv. fst kv = k) d"
    unfolding sort_dict_def using sort_key_stable [of fst k d] by (simp add: eq_commute)
  then show ?thesis
    unfolding dget_def by (metis map_of_filter_key)
qed

lemma dget_map_value: "dget (map (\<lambda>(k, v). (k, f v)) d) k = map_option f (dget d k)"
  by (induction d) (auto simp: dget_def)

lemma dget_norm_dict: "dget (norm_dict d) k = map_option json_norm (dget d k)"
  by (simp add: norm_dict_def dget_map_value)

lemma dkeys_map_value [simp]: "dkeys (map (\<lambda>(k, v). (k, f v)) d) = dkeys d"
  by (induction d) (auto simp: dkeys_def)

lemma dkeys_norm_dict [simp]: "set (dkeys (norm_dict d)) = set (dkeys d)"
  "distinct (dkeys (norm_dict d)) = distinct (dkeys d)"
  by (simp_all add: norm_dict_def)

lemma sort_dict_idem [simp]: "sort_dict (sort_dict d) = sort_dict d"
  by (simp add: sort_dict_def sort_key_id_if_sorted)

lemma sort_dict_map: "sort_dict (map (\<lambda>(k, v). (k, f v)) d) = map (\<lambda>(k, v). (k, f v)) (sort_dict d)"
proof -
  have fst_id: "fst \<circ> (\<lambda>(k, v). (k, f v)) = fst" by (auto simp: fun_eq_iff)
  show ?thesis unfolding sort_dict_def by (simp only: sort_key_map fst_id)
qed

lemma json_norm_idem [simp]: "json_norm (json_norm v) = json_norm v"
proof (induction v rule: json_norm.induct)
  case (3 kvs)
  let ?f = "\<lambda>(k, v). (k, json_norm v)"
  have e: "map ?f (map ?f kvs) = map ?f kvs"
    unfolding map_map by (rule map_cong [OF refl]) (use 3 in auto)
  have "norm_dict (norm_dict kvs) = sort_dict (map ?f (map ?f (sort_dict kvs)))"
    by (simp only: norm_dict_def sort_dict_map sort_dict_idem)
  also have "\<dots> = sort_dict (sort_dict (map ?f (map ?f kvs)))"
    by (simp only: sort_dict_map)
  also have "\<dots> = norm_dict kvs" by (simp only: e sort_dict_idem norm_dict_def)
  finally show ?case unfolding json_norm_PDict by simp
qed (auto simp: map_eq_conv)

lemma norm_dict_idem [simp]: "norm_dict (norm_dict d) = norm_dict d"
  using json_norm_idem [of "PDict d"] unfolding json_norm_PDict by simp

text \<open>Reading back and writing again gives the same text, hence the same digest.\<close>

lemma canonical_json_norm [simp]: "canonical_json (json_norm v) = canonical_json v"
proof (induction v rule: json_norm.induct)
  case (3 kvs)
  let ?n = "\<lambda>(k, v). (k, json_norm v)"
  have it: "map json_item (map ?n xs) = map json_item xs" if "set xs \<subseteq> set kvs" for xs
    unfolding map_map by (rule map_cong [OF refl]) (use 3 that in \<open>auto simp: json_item_def\<close>)
  have "sort_key fst (norm_dict kvs) = norm_dict kvs"
    by (simp add: norm_dict_def sort_dict_def sort_key_id_if_sorted)
  also have "norm_dict kvs = map ?n (sort_key fst kvs)"
    unfolding norm_dict_def sort_dict_map by (simp only: sort_dict_def)
  finally have "sort_key fst (norm_dict kvs) = map ?n (sort_key fst kvs)" .
  then show ?case
    unfolding json_norm_PDict canonical_json_dict by (simp only: it set_sort subset_refl)
next
  case (1 xs)
  then have "map (canonical_json \<circ> json_norm) xs = map canonical_json xs" by simp
  then show ?case by (simp only: json_norm.simps canonical_json.simps map_map)
next
  case (2 xs)
  then have "map (canonical_json \<circ> json_norm) xs = map canonical_json xs" by simp
  then show ?case by (simp only: json_norm.simps canonical_json.simps map_map)
qed simp_all

lemma digest_norm [simp]: "digest cr (json_norm v) = digest cr v"
  by (simp add: digest_def)

lemma wf_json_norm: "wf_json v \<Longrightarrow> wf_json (json_norm v)"
proof (induction v rule: json_norm.induct)
  case (3 kvs)
  have "distinct (dkeys kvs)" using 3(2) by (simp add: dkeys_def)
  then have "distinct (dkeys (norm_dict kvs))" by simp
  moreover have "list_all (\<lambda>(k, v). wf_json v) (norm_dict kvs)"
    using 3 by (force simp: norm_dict_def sort_dict_def list_all_iff)
  ultimately show ?case unfolding json_norm_PDict by (simp add: dkeys_def)
qed (auto simp: list_all_iff)

section \<open>A concrete instance of the primitives\<close>

text \<open>Used where a theorem about the parameter is applied to a closed instance.\<close>

definition toy_crypto :: crypto where
  "toy_crypto = \<lparr>sha256_hex = (\<lambda>_. replicate 64 (CHR ''0'')), ed_public = (\<lambda>sk. sk),
     ed_sign = (\<lambda>sk m. sk @ m), ed_verify = (\<lambda>pk m s. s = pk @ m)\<rparr>"

lemma toy_crypto_spec: "sha256_spec toy_crypto" "ed25519_spec toy_crypto"
  by (simp_all add: sha256_spec_def ed25519_spec_def toy_crypto_def sha256_shape_def is_hex_def
      list_all_iff hex_chars_def)

end
