(* ===== verification/Models.thy ===== *)
theory Models
  imports Canonical
begin

text \<open>
  \<open>src/vloop/models.py\<close>: the immutable records that cross the controller, the policy gate
  and the verifier. Every \<open>__post_init__\<close> is a function \<open>..._init\<close> that returns the record
  or the exception the constructor raises, with the checks in the order of the source.
\<close>

section \<open>Enumerations\<close>

datatype effect = READ | WRITE | EXECUTE | NETWORK | DELETE | PUBLISH

primrec effect_value :: "effect \<Rightarrow> string" where
  "effect_value READ = ''read''"
| "effect_value WRITE = ''write''"
| "effect_value EXECUTE = ''execute''"
| "effect_value NETWORK = ''network''"
| "effect_value DELETE = ''delete''"
| "effect_value PUBLISH = ''publish''"

datatype argument_kind = K_STRING | K_INTEGER | K_BOOLEAN | K_PATH | K_ARGV | K_ENUM

primrec argument_kind_value :: "argument_kind \<Rightarrow> string" where
  "argument_kind_value K_STRING = ''string''"
| "argument_kind_value K_INTEGER = ''integer''"
| "argument_kind_value K_BOOLEAN = ''boolean''"
| "argument_kind_value K_PATH = ''path''"
| "argument_kind_value K_ARGV = ''argv''"
| "argument_kind_value K_ENUM = ''enum''"

datatype provenance = USER | TRUSTED_REPOSITORY | UNTRUSTED_RETRIEVAL | TOOL_OUTPUT | VERIFIED_MEMORY

primrec provenance_value :: "provenance \<Rightarrow> string" where
  "provenance_value USER = ''user''"
| "provenance_value TRUSTED_REPOSITORY = ''trusted-repository''"
| "provenance_value UNTRUSTED_RETRIEVAL = ''untrusted-retrieval''"
| "provenance_value TOOL_OUTPUT = ''tool-output''"
| "provenance_value VERIFIED_MEMORY = ''verified-memory''"

datatype check_status = PASS | FAIL | INCONCLUSIVE

primrec check_status_value :: "check_status \<Rightarrow> string" where
  "check_status_value PASS = ''pass''"
| "check_status_value FAIL = ''fail''"
| "check_status_value INCONCLUSIVE = ''inconclusive''"

datatype loop_decision = ACCEPT | REPAIR | REPLAN | ESCALATE | WAITING | STOP

primrec loop_decision_value :: "loop_decision \<Rightarrow> string" where
  "loop_decision_value ACCEPT = ''accept''"
| "loop_decision_value REPAIR = ''repair''"
| "loop_decision_value REPLAN = ''replan''"
| "loop_decision_value ESCALATE = ''escalate''"
| "loop_decision_value WAITING = ''waiting''"
| "loop_decision_value STOP = ''stop''"

lemma effect_value_inj [simp]: "effect_value a = effect_value b \<longleftrightarrow> a = b"
  by (cases a; cases b) simp_all

lemma provenance_value_inj [simp]: "provenance_value a = provenance_value b \<longleftrightarrow> a = b"
  by (cases a; cases b) simp_all

text \<open>The members of each enumeration, in an order, so that they are a \<open>linorder\<close>.\<close>

instantiation provenance :: linorder
begin

definition less_eq_provenance :: "provenance \<Rightarrow> provenance \<Rightarrow> bool" where
  "a \<le> b \<longleftrightarrow> provenance_value a \<le> provenance_value b"

definition less_provenance :: "provenance \<Rightarrow> provenance \<Rightarrow> bool" where
  "a < b \<longleftrightarrow> provenance_value a < provenance_value b"

instance
proof
  fix x y z :: provenance
  show "x < y \<longleftrightarrow> x \<le> y \<and> \<not> y \<le> x"
    unfolding less_eq_provenance_def less_provenance_def by (rule less_le_not_le)
  show "x \<le> x" and "x \<le> y \<or> y \<le> x"
    unfolding less_eq_provenance_def by (rule order.refl, rule linear)
  show "x \<le> z" if "x \<le> y" "y \<le> z"
    using that unfolding less_eq_provenance_def by (rule order.trans)
  show "x = y" if "x \<le> y" "y \<le> x"
    using order.antisym [OF that [unfolded less_eq_provenance_def]] by (rule provenance_value_inj [THEN iffD1])
qed

end

section \<open>Prepared executions\<close>

record prepared_execution =
  pe_operation_id :: string
  pe_executor_id :: string
  pe_intent_digest :: string
  pe_request_digest :: string
  pe_remote_job_id :: string
  pe_graph_digest :: string
  pe_graph_node_id :: string

definition prepared_execution_init :: "prepared_execution \<Rightarrow> prepared_execution res" where
  "prepared_execution_init p =
     (if blank (pe_operation_id p) \<or> blank (pe_executor_id p) \<or> blank (pe_remote_job_id p)
      then Inl (ValueError, ''prepared execution needs operation, executor, and remote job identities'')
      else if \<not> sha256_shape (pe_intent_digest p)
      then Inl (ValueError, ''prepared execution intent digest must be SHA-256 hex'')
      else if \<not> sha256_shape (pe_request_digest p)
      then Inl (ValueError, ''prepared execution request digest must be SHA-256 hex'')
      else if (pe_graph_digest p \<noteq> []) \<noteq> (pe_graph_node_id p \<noteq> [])
      then Inl (ValueError, ''prepared execution graph digest and node must be supplied together'')
      else if pe_graph_digest p \<noteq> [] \<and> \<not> sha256_shape (pe_graph_digest p)
      then Inl (ValueError, ''prepared execution graph digest must be SHA-256 hex'')
      else Inr p)"

section \<open>Argument rules\<close>

record argument_rule =
  arg_name :: string
  arg_kind :: argument_kind
  arg_required :: bool
  arg_allowed_values :: "string list"
  arg_maximum_length :: "int option"
  arg_minimum :: "int option"
  arg_maximum :: "int option"

definition argument_rule_init :: "argument_rule \<Rightarrow> argument_rule res" where
  "argument_rule_init r =
     (if blank (arg_name r) then Inl (ValueError, ''argument rule name is required'')
      else if arg_kind r = K_ENUM \<and> arg_allowed_values r = []
      then Inl (ValueError, ''enum argument rules need allowed values'')
      else if arg_kind r \<noteq> K_ENUM \<and> arg_allowed_values r \<noteq> []
      then Inl (ValueError, ''allowed values are only valid for enum arguments'')
      else if (case arg_maximum_length r of None \<Rightarrow> False | Some m \<Rightarrow> m < 1)
      then Inl (ValueError, ''argument maximum length must be positive'')
      else if (case (arg_minimum r, arg_maximum r) of (Some a, Some b) \<Rightarrow> a > b | _ \<Rightarrow> False)
      then Inl (ValueError, ''argument minimum exceeds maximum'')
      else Inr r)"

definition has_traversal :: "string \<Rightarrow> bool" where
  "has_traversal s \<longleftrightarrow> list_ex (\<lambda>p. p = ''.'' \<or> p = ''..'') (path_parts s)"

text \<open>The pair \<open>valid, length\<close> that \<open>ArgumentRule.validate\<close> computes for each kind.\<close>

fun argv_item :: "pyval \<Rightarrow> bool" where
  "argv_item (PStr s) = (CHR 0x00 \<notin> set s)"
| "argv_item v = False"

fun argument_shape :: "argument_rule \<Rightarrow> pyval \<Rightarrow> bool \<times> nat" where
  "argument_shape r v =
     (case arg_kind r of
        K_STRING \<Rightarrow> (case v of PStr s \<Rightarrow> (True, length s) | _ \<Rightarrow> (False, 0))
      | K_INTEGER \<Rightarrow> (case v of PInt i \<Rightarrow> (True, 0) | _ \<Rightarrow> (False, 0))
      | K_BOOLEAN \<Rightarrow> (case v of PBool b \<Rightarrow> (True, 0) | _ \<Rightarrow> (False, 0))
      | K_PATH \<Rightarrow> (case v of PStr s \<Rightarrow> (startswith s ''/'' \<and> \<not> has_traversal s, length s) | _ \<Rightarrow> (False, 0))
      | K_ARGV \<Rightarrow> (case v of PList xs \<Rightarrow> (xs \<noteq> [] \<and> list_all argv_item xs, length xs) | _ \<Rightarrow> (False, 0))
      | K_ENUM \<Rightarrow> (case v of PStr s \<Rightarrow> (List.member (arg_allowed_values r) s, length s) | _ \<Rightarrow> (False, 0)))"

declare argument_shape.simps [simp del]

text \<open>\<open>ArgumentRule.validate\<close>: \<open>None\<close> when the value satisfies the rule, else the reason.\<close>

definition argument_validate :: "argument_rule \<Rightarrow> pyval \<Rightarrow> string option" where
  "argument_validate r v =
     (case argument_shape r v of (valid, len) \<Rightarrow>
        if \<not> valid
        then Some (''argument '' @ repr_str (arg_name r) @ '' does not satisfy ''
                   @ argument_kind_value (arg_kind r) @ '' semantics'')
        else if (case arg_maximum_length r of None \<Rightarrow> False | Some m \<Rightarrow> int len > m)
        then Some (''argument '' @ repr_str (arg_name r) @ '' exceeds maximum length'')
        else (case (arg_kind r, v) of
            (K_INTEGER, PInt i) \<Rightarrow>
              if (case arg_minimum r of None \<Rightarrow> False | Some m \<Rightarrow> i < m)
              then Some (''argument '' @ repr_str (arg_name r) @ '' is below the allowed minimum'')
              else if (case arg_maximum r of None \<Rightarrow> False | Some m \<Rightarrow> i > m)
              then Some (''argument '' @ repr_str (arg_name r) @ '' exceeds the allowed maximum'')
              else None
          | _ \<Rightarrow> None))"

text \<open>The contract of \<open>validate\<close>: the typed bounds an accepted value satisfies.\<close>

definition within :: "int option \<Rightarrow> int \<Rightarrow> int option \<Rightarrow> bool" where
  "within lo i hi \<longleftrightarrow> (\<forall>m \<in> set_option lo. m \<le> i) \<and> (\<forall>m \<in> set_option hi. i \<le> m)"

fun argument_ok :: "argument_rule \<Rightarrow> pyval \<Rightarrow> bool" where
  "argument_ok r (PStr s) = (within None (int (length s)) (arg_maximum_length r) \<and>
     (arg_kind r = K_STRING
      \<or> arg_kind r = K_PATH \<and> startswith s ''/'' \<and> \<not> has_traversal s
      \<or> arg_kind r = K_ENUM \<and> s \<in> set (arg_allowed_values r)))"
| "argument_ok r (PInt i) = (arg_kind r = K_INTEGER \<and> within None 0 (arg_maximum_length r)
     \<and> within (arg_minimum r) i (arg_maximum r))"
| "argument_ok r (PBool b) = (arg_kind r = K_BOOLEAN \<and> within None 0 (arg_maximum_length r))"
| "argument_ok r (PList xs) = (arg_kind r = K_ARGV \<and> xs \<noteq> [] \<and> list_all argv_item xs
     \<and> within None (int (length xs)) (arg_maximum_length r))"
| "argument_ok r v = False"

text \<open>\<open>ArgumentRule.validate\<close> reports no error exactly for the values of the rule's kind
  that satisfy its length bound, its integer range, its enumeration, and for paths the
  absence of parent references; every other Python value is rejected.\<close>

theorem argument_validate_iff: "argument_validate r v = None \<longleftrightarrow> argument_ok r v"
  by (cases v; cases "arg_kind r")
     (auto simp: argument_validate_def argument_shape.simps within_def List.member_iff not_less
       split: option.splits)

section \<open>Action rules and task contracts\<close>

record action_rule =
  rule_tool :: string
  rule_effect :: effect
  rule_target_prefix :: string
  rule_approval_required :: bool
  rule_max_uses :: "int option"
  rule_argument_rules :: "argument_rule list"
  rule_allow_unlisted :: bool

definition action_rule_init :: "action_rule \<Rightarrow> action_rule res" where
  "action_rule_init r =
     (if blank (rule_tool r) \<or> \<not> startswith (rule_target_prefix r) ''/''
      then Inl (ValueError, ''action rules need a tool and absolute target prefix'')
      else if (case rule_max_uses r of None \<Rightarrow> False | Some m \<Rightarrow> m < 1)
      then Inl (ValueError, ''action rule max uses must be positive'')
      else if \<not> distinct (map arg_name (rule_argument_rules r))
      then Inl (ValueError, ''action rule argument names must be unique'')
      else Inr r)"

record task_contract =
  tc_goal :: string
  tc_success_conditions :: "string list"
  tc_allowed_actions :: "action_rule list"
  tc_forbidden_actions :: "string list"
  tc_required_verifiers :: "(string \<times> string list) list"
  tc_success_condition_bindings :: "(string \<times> string list) list"
  tc_action_safety_checks :: "string list"
  tc_global_completion_guards :: "string list"
  tc_require_argument_provenance :: bool
  tc_task_kind :: string
  tc_risk_class :: string
  tc_probe_policy_digest :: string
  tc_profile_version :: string
  tc_profile_digest :: string
  tc_maximum_iterations :: int
  tc_maximum_tool_calls :: int
  tc_expires_at :: "dtime option"
  tc_contract_id :: string
  tc_version :: int

definition py_sorted_strs :: "string list \<Rightarrow> string" where
  "py_sorted_strs xs = py_repr (PList (map PStr (sort (remdups xs))))"

fun required_names_check :: "(string \<times> string list) list \<Rightarrow> unit res" where
  "required_names_check [] = Inr ()"
| "required_names_check ((category, names) # rest) =
     (if names = [] \<or> list_ex blank names
      then Inl (ValueError, ''required verifier category '' @ repr_str category
                            @ '' needs non-empty check names'')
      else required_names_check rest)"

definition bindings_check :: "string list \<Rightarrow> (string \<times> string list) list \<Rightarrow> unit res" where
  "bindings_check conditions bindings =
     (if bindings = [] then Inr ()
      else if \<not> set (dkeys bindings) \<subseteq> set conditions \<or> \<not> set conditions \<subseteq> set (dkeys bindings)
      then Inl (ValueError, ''success condition bindings must cover exactly the contract success conditions'')
      else if list_ex (\<lambda>(c, names). names = [] \<or> list_ex blank names) bindings
      then Inl (ValueError, ''success condition bindings need non-empty check names'')
      else Inr ())"

definition profile_fields :: "task_contract \<Rightarrow> string list" where
  "profile_fields c = [tc_task_kind c, tc_risk_class c, tc_probe_policy_digest c,
     tc_profile_version c, tc_profile_digest c]"

definition verifier_categories :: "string list" where
  "verifier_categories = [''correctness'', ''policy'', ''evidence'', ''quality'']"

definition task_contract_init :: "task_contract \<Rightarrow> task_contract res" where
  "task_contract_init c =
     (if tc_maximum_iterations c < 1 \<or> tc_maximum_tool_calls c < 1
      then Inl (ValueError, ''budgets must be positive'')
      else if tc_success_conditions c = []
      then Inl (ValueError, ''a contract needs at least one success condition'')
      else if tc_allowed_actions c = []
      then Inl (ValueError, ''a contract needs at least one allowed action'')
      else let unknown = filter (\<lambda>k. \<not> List.member verifier_categories k) (dkeys (tc_required_verifiers c)) in
      if unknown \<noteq> []
      then Inl (ValueError, ''unknown verifier categories: '' @ py_sorted_strs unknown)
      else bnd (required_names_check (tc_required_verifiers c)) (\<lambda>_.
        if \<not> distinct (concat (map snd (tc_required_verifiers c)))
        then Inl (ValueError, ''a required verifier check may belong to only one category'')
        else bnd (bindings_check (tc_success_conditions c) (tc_success_condition_bindings c)) (\<lambda>_.
          if \<not> distinct (tc_action_safety_checks c) \<or> list_ex blank (tc_action_safety_checks c)
          then Inl (ValueError, ''action safety checks must contain unique non-empty names'')
          else if \<not> distinct (tc_global_completion_guards c) \<or> list_ex blank (tc_global_completion_guards c)
          then Inl (ValueError, ''global completion guards must contain unique non-empty names'')
          else if list_ex (\<lambda>f. f \<noteq> []) (profile_fields c) \<and> \<not> list_all (\<lambda>f. f \<noteq> []) (profile_fields c)
          then Inl (ValueError, ''task profile metadata must be complete when present'')
          else Inr c)))"

definition contract_is_expired :: "task_contract \<Rightarrow> int \<Rightarrow> bool" where
  "contract_is_expired c now = (case tc_expires_at c of None \<Rightarrow> False | Some t \<Rightarrow> instant t \<le> now)"

section \<open>Provenance graphs of arguments\<close>

record prov_node =
  pn_node_id :: string
  pn_provenance :: provenance
  pn_source_id :: string
  pn_content_digest :: string
  pn_parent_ids :: "string list"

definition prov_node_init :: "prov_node \<Rightarrow> prov_node res" where
  "prov_node_init n =
     (if blank (pn_node_id n) \<or> blank (pn_source_id n)
      then Inl (ValueError, ''provenance nodes need an id and source id'')
      else if \<not> sha256_shape (pn_content_digest n)
      then Inl (ValueError, ''provenance node content digest must be a SHA-256 hex digest'')
      else if pn_node_id n \<in> set (pn_parent_ids n) \<or> \<not> distinct (pn_parent_ids n)
      then Inl (ValueError, ''provenance node parent list is invalid'')
      else Inr n)"

record argument_provenance =
  ap_value_digest :: string
  ap_nodes :: "prov_node list"

text \<open>
  The nested function \<open>visit\<close>: a depth-first search that raises on a node it is still
  visiting. \<open>visiting\<close> is the current path and the result is the extended \<open>visited\<close> list,
  newest first; \<open>parents\<close> is the \<open>by_id\<close> dictionary, of which only the parents matter.
\<close>

definition cycle_error :: "exc \<times> string" where
  "cycle_error = (ValueError, ''argument provenance must be acyclic'')"

function prov_visit :: "(string \<times> string list) list \<Rightarrow> string list \<Rightarrow> string list \<Rightarrow> string
    \<Rightarrow> string list res"
  and prov_visits :: "(string \<times> string list) list \<Rightarrow> string list \<Rightarrow> string list \<Rightarrow> string list
    \<Rightarrow> string list res"
where
  "prov_visit parents visiting visited n =
     (if n \<in> set visiting then Inl cycle_error
      else if n \<in> set visited then Inr visited
      else case dget parents n of
             None \<Rightarrow> Inl (KeyError, repr_str n)
           | Some ps \<Rightarrow> bnd (prov_visits parents (n # visiting) visited ps) (\<lambda>visited'. Inr (n # visited')))"
| "prov_visits parents visiting visited [] = Inr visited"
| "prov_visits parents visiting visited (p # ps) =
     bnd (prov_visit parents visiting visited p) (\<lambda>visited'. prov_visits parents visiting visited' ps)"
  by pat_completeness auto

termination
proof (relation "inv_image (less_than <*lex*> less_than)
    (\<lambda>x. case x of Inl (parents, visiting, _, _) \<Rightarrow> (card (set (dkeys parents) - set visiting), 0)
       | Inr (parents, visiting, _, ps) \<Rightarrow> (card (set (dkeys parents) - set visiting), length ps + 1))",
    goal_cases)
  case (2 parents visiting visited n ps)
  then have "set (dkeys parents) - set (n # visiting) \<subset> set (dkeys parents) - set visiting"
    by (auto dest: dget_Some_key)
  then have "card (set (dkeys parents) - set (n # visiting)) < card (set (dkeys parents) - set visiting)"
    by (rule psubset_card_mono [rotated]) simp
  then show ?case by simp
qed auto

declare prov_visit.simps [simp del]

definition parents_of :: "prov_node list \<Rightarrow> (string \<times> string list) list" where
  "parents_of nodes = map (\<lambda>n. (pn_node_id n, pn_parent_ids n)) nodes"

definition argument_provenance_init :: "argument_provenance \<Rightarrow> argument_provenance res" where
  "argument_provenance_init a =
     (if \<not> sha256_shape (ap_value_digest a)
      then Inl (ValueError, ''argument provenance value digest must be a SHA-256 hex digest'')
      else if ap_nodes a = []
      then Inl (ValueError, ''argument provenance needs at least one node'')
      else if \<not> distinct (map pn_node_id (ap_nodes a))
      then Inl (ValueError, ''argument provenance node ids must be unique'')
      else if list_ex (\<lambda>n. list_ex (\<lambda>p. p \<notin> set (map pn_node_id (ap_nodes a))) (pn_parent_ids n)) (ap_nodes a)
      then Inl (ValueError, ''argument provenance parent is outside the argument graph'')
      else bnd (prov_visits (parents_of (ap_nodes a)) [] [] (map pn_node_id (ap_nodes a))) (\<lambda>_. Inr a))"

definition categories :: "argument_provenance \<Rightarrow> provenance list" where
  "categories a = sort (remdups (map pn_provenance (ap_nodes a)))"

subsection \<open>The search accepts exactly the acyclic graphs\<close>

definition parent_rel :: "(string \<times> string list) list \<Rightarrow> (string \<times> string) set" where
  "parent_rel parents = {(n, p). \<exists>ps. dget parents n = Some ps \<and> p \<in> set ps}"

text \<open>A visited list in which the parents of every node come later.\<close>

fun topo :: "(string \<times> string list) list \<Rightarrow> string list \<Rightarrow> bool" where
  "topo parents [] = True"
| "topo parents (n # vs) = (n \<notin> set vs \<and> (\<exists>ps. dget parents n = Some ps \<and> set ps \<subseteq> set vs) \<and> topo parents vs)"

lemma topo_no_path:
  assumes "topo parents vs" and "(x, y) \<in> (parent_rel parents)\<^sup>+" and "x \<in> set vs"
  shows "x \<noteq> y \<and> y \<in> set vs"
  using assms
proof (induction vs arbitrary: x y)
  case (Cons n vs)
  have tail: "\<And>x y. (x, y) \<in> (parent_rel parents)\<^sup>+ \<Longrightarrow> x \<in> set vs \<Longrightarrow> x \<noteq> y \<and> y \<in> set vs"
    using Cons.IH Cons.prems(1) by simp
  show ?case
  proof (cases "x \<in> set vs")
    case True
    then show ?thesis using tail [OF Cons.prems(2)] by simp
  next
    case False
    then have x: "x = n" using Cons.prems(3) by simp
    have step: "z \<in> set vs" if "(n, z) \<in> parent_rel parents" for z
      using that Cons.prems(1) by (auto simp: parent_rel_def)
    have "y \<in> set vs"
      using Cons.prems(2) unfolding x
      by (rule converse_tranclE) (use step tail in blast)+
    with False x show ?thesis by auto
  qed
qed simp

lemma visit_topo:
  "prov_visit parents visiting visited n = Inr vs \<Longrightarrow> topo parents visited
    \<Longrightarrow> set visited \<inter> set visiting = {} \<Longrightarrow>
    topo parents vs \<and> set visited \<subseteq> set vs \<and> n \<in> set vs \<and> set vs \<inter> set visiting = {}"
  "prov_visits parents visiting visited ns = Inr vs \<Longrightarrow> topo parents visited
    \<Longrightarrow> set visited \<inter> set visiting = {} \<Longrightarrow>
    topo parents vs \<and> set visited \<subseteq> set vs \<and> set ns \<subseteq> set vs \<and> set vs \<inter> set visiting = {}"
proof (induction parents visiting visited n and parents visiting visited ns
    arbitrary: vs and vs rule: prov_visit_prov_visits.induct)
  case (1 parents visiting visited n)
  show ?case
  proof (cases "n \<in> set visited")
    case True
    with 1 show ?thesis by (auto simp: prov_visit.simps)
  next
    case False
    with 1(2) obtain ps vs' where ps: "n \<notin> set visiting" "dget parents n = Some ps"
      "prov_visits parents (n # visiting) visited ps = Inr vs'" "vs = n # vs'"
      by (subst (asm) prov_visit.simps) (auto simp: bnd_eq_Inr split: if_splits option.splits)
    have "topo parents vs' \<and> set visited \<subseteq> set vs' \<and> set ps \<subseteq> set vs' \<and> set vs' \<inter> set (n # visiting) = {}"
      by (rule 1(1) [OF ps(1) False ps(2,3)]) (use 1(3,4) False in auto)
    then show ?thesis using ps by auto
  qed
next
  case (3 parents visiting visited p ps)
  from 3(3) obtain vs' where v: "prov_visit parents visiting visited p = Inr vs'"
    "prov_visits parents visiting vs' ps = Inr vs" by (auto simp: bnd_eq_Inr)
  from 3(1) [OF v(1) 3(4,5)] have a: "topo parents vs' \<and> set visited \<subseteq> set vs' \<and> p \<in> set vs'
    \<and> set vs' \<inter> set visiting = {}" .
  from 3(2) [OF v] a show ?case by auto
qed auto

lemma visit_succeeds:
  assumes acyclic: "acyclic (parent_rel parents)"
    and closed: "\<And>n ps p. dget parents n = Some ps \<Longrightarrow> p \<in> set ps \<Longrightarrow> p \<in> set (dkeys parents)"
  shows "n \<in> set (dkeys parents) \<Longrightarrow> (\<forall>v \<in> set visiting. (v, n) \<in> (parent_rel parents)\<^sup>+)
      \<Longrightarrow> \<exists>vs. prov_visit parents visiting visited n = Inr vs"
    and "(\<forall>p \<in> set ns. p \<in> set (dkeys parents) \<and> (\<forall>v \<in> set visiting. (v, p) \<in> (parent_rel parents)\<^sup>+))
      \<Longrightarrow> \<exists>vs. prov_visits parents visiting visited ns = Inr vs"
  using assms
proof (induction parents visiting visited n and parents visiting visited ns
    rule: prov_visit_prov_visits.induct)
  case (1 parents visiting visited n)
  have new: "n \<notin> set visiting"
    using 1(3,4) by (auto simp: acyclic_def)
  obtain ps where ps: "dget parents n = Some ps"
    using 1(2) dget_None_iff [of parents n] by auto
  have "\<forall>p \<in> set ps. p \<in> set (dkeys parents) \<and> (\<forall>v \<in> set (n # visiting). (v, p) \<in> (parent_rel parents)\<^sup>+)"
  proof
    fix p assume p: "p \<in> set ps"
    then have e: "(n, p) \<in> parent_rel parents" using ps by (auto simp: parent_rel_def)
    show "p \<in> set (dkeys parents) \<and> (\<forall>v \<in> set (n # visiting). (v, p) \<in> (parent_rel parents)\<^sup>+)"
      using 1(5) [OF ps p] 1(3) e by (auto intro: trancl_into_trancl)
  qed
  then show ?case
    using 1(1) [OF new _ ps] new ps 1(4,5)
    by (cases "n \<in> set visited") (auto simp: prov_visit.simps)
next
  case (3 parents visiting visited p ps)
  obtain vs where "prov_visit parents visiting visited p = Inr vs"
    using 3(1) 3(3-) by auto
  then show ?case using 3(2) 3(3-) by auto
qed auto

lemma dkeys_parents_of [simp]: "dkeys (parents_of nodes) = map pn_node_id nodes"
  by (simp add: dkeys_def parents_of_def)

lemma dget_parents_of:
  "distinct (map pn_node_id nodes) \<Longrightarrow>
    dget (parents_of nodes) k = Some ps \<longleftrightarrow> (\<exists>n \<in> set nodes. pn_node_id n = k \<and> pn_parent_ids n = ps)"
  by (subst dget_def, subst map_of_eq_Some_iff) (auto simp: parents_of_def comp_def)

definition prov_dag :: "argument_provenance \<Rightarrow> bool" where
  "prov_dag a \<longleftrightarrow> distinct (map pn_node_id (ap_nodes a))
     \<and> (\<forall>n \<in> set (ap_nodes a). set (pn_parent_ids n) \<subseteq> set (map pn_node_id (ap_nodes a)))
     \<and> acyclic (parent_rel (parents_of (ap_nodes a)))"

text \<open>C12: constructing an argument provenance succeeds exactly when the value digest is a
  SHA-256 digest and the nodes form a non-empty acyclic graph with unique identifiers whose
  parents all lie inside the graph; in particular the depth-first search of the constructor
  terminates, finds every cycle and rejects nothing else.\<close>

theorem argument_provenance_init_iff:
  "argument_provenance_init a = Inr b \<longleftrightarrow>
     b = a \<and> sha256_shape (ap_value_digest a) \<and> ap_nodes a \<noteq> [] \<and> prov_dag a"
proof -
  let ?P = "parents_of (ap_nodes a)" and ?ids = "map pn_node_id (ap_nodes a)"
  have search: "(\<exists>vs. prov_visits ?P [] [] ?ids = Inr vs) \<longleftrightarrow> acyclic (parent_rel ?P)"
    if d: "distinct ?ids" and c: "\<forall>n \<in> set (ap_nodes a). set (pn_parent_ids n) \<subseteq> set ?ids"
  proof
    assume "\<exists>vs. prov_visits ?P [] [] ?ids = Inr vs"
    then obtain vs where vs: "prov_visits ?P [] [] ?ids = Inr vs" by blast
    have t: "topo ?P vs" "set ?ids \<subseteq> set vs" using visit_topo(2) [OF vs] by simp_all
    show "acyclic (parent_rel ?P)"
    proof (rule acyclicI, intro allI notI)
      fix x assume cyc: "(x, x) \<in> (parent_rel ?P)\<^sup>+"
      then obtain z where "(x, z) \<in> parent_rel ?P" by (meson tranclD)
      then have "x \<in> set ?ids" by (auto simp: parent_rel_def dest: dget_Some_key)
      then show False using topo_no_path [OF t(1) cyc] t(2) by blast
    qed
  next
    assume ac: "acyclic (parent_rel ?P)"
    have cl: "p \<in> set (dkeys ?P)" if "dget ?P n = Some ps" "p \<in> set ps" for n ps p
      using that c d by (auto simp: dget_parents_of)
    show "\<exists>vs. prov_visits ?P [] [] ?ids = Inr vs"
      by (rule visit_succeeds(2) [OF ac cl]) auto
  qed
  have "(\<not> list_ex (\<lambda>n. list_ex (\<lambda>p. p \<notin> set ?ids) (pn_parent_ids n)) (ap_nodes a))
      \<longleftrightarrow> (\<forall>n \<in> set (ap_nodes a). set (pn_parent_ids n) \<subseteq> set ?ids)"
    by (auto simp: list_ex_iff)
  then show ?thesis
    using search unfolding argument_provenance_init_def prov_dag_def
    by (auto simp: bnd_eq_Inr split: if_splits)
qed

section \<open>Action intents\<close>

record action_intent =
  in_tool :: string
  in_effect :: effect
  in_target :: string
  in_arguments :: pydict
  in_provenance :: "provenance list"
  in_explanation :: string
  in_contract_id :: string
  in_contract_version :: int
  in_idempotency_key :: string
  in_argument_provenance :: "(string \<times> provenance list) list"
  in_argument_provenance_graph :: "(string \<times> argument_provenance) list"

fun argument_provenance_check :: "(string \<times> provenance list) list \<Rightarrow> unit res" where
  "argument_provenance_check [] = Inr ()"
| "argument_provenance_check ((argument, ps) # rest) =
     (if ps = [] then Inl (ValueError, ''argument '' @ repr_str argument @ '' needs non-empty provenance'')
      else argument_provenance_check rest)"

fun argument_graph_check :: "crypto \<Rightarrow> pydict \<Rightarrow> (string \<times> argument_provenance) list \<Rightarrow> unit res" where
  "argument_graph_check cr args [] = Inr ()"
| "argument_graph_check cr args ((argument, graph) # rest) =
     (case dget args argument of
        None \<Rightarrow> Inl (KeyError, repr_str argument)
      | Some v \<Rightarrow>
          if ap_value_digest graph \<noteq> digest cr v
          then Inl (ValueError, ''argument '' @ repr_str argument
                                @ '' provenance graph is bound to another value'')
          else argument_graph_check cr args rest)"

definition action_intent_init :: "crypto \<Rightarrow> action_intent \<Rightarrow> action_intent res" where
  "action_intent_init cr i =
     (if \<not> startswith (in_target i) ''/''
      then Inl (ValueError, ''target must be an absolute resource path'')
      else if has_traversal (in_target i)
      then Inl (ValueError, ''target may not contain traversal segments'')
      else if in_provenance i = [] then Inl (ValueError, ''intent provenance is required'')
      else if blank (in_explanation i) then Inl (ValueError, ''intent explanation is required'')
      else if \<not> set (dkeys (in_argument_provenance i)) \<subseteq> set (dkeys (in_arguments i))
      then Inl (ValueError, ''argument provenance refers to an unknown argument'')
      else bnd (argument_provenance_check (in_argument_provenance i)) (\<lambda>_.
        if \<not> set (dkeys (in_argument_provenance_graph i)) \<subseteq> set (dkeys (in_arguments i))
        then Inl (ValueError, ''argument provenance graph refers to an unknown argument'')
        else bnd (argument_graph_check cr (in_arguments i) (in_argument_provenance_graph i)) (\<lambda>_. Inr i)))"

definition provenance_for_argument :: "action_intent \<Rightarrow> string \<Rightarrow> provenance list" where
  "provenance_for_argument i name =
     (case dget (in_argument_provenance_graph i) name of
        Some graph \<Rightarrow> categories graph
      | None \<Rightarrow> (case dget (in_argument_provenance i) name of Some ps \<Rightarrow> ps | None \<Rightarrow> in_provenance i))"

definition has_complete_argument_provenance :: "action_intent \<Rightarrow> bool" where
  "has_complete_argument_provenance i \<longleftrightarrow>
     set (dkeys (in_argument_provenance_graph i)) = set (dkeys (in_arguments i))"

text \<open>\<open>asdict\<close> of the records that are hashed.\<close>

definition pstrs :: "string list \<Rightarrow> pyval" where
  "pstrs xs = PTuple (map PStr xs)"

definition prov_node_py :: "prov_node \<Rightarrow> pyval" where
  "prov_node_py n = PDict [(''node_id'', PStr (pn_node_id n)),
     (''provenance'', PStr (provenance_value (pn_provenance n))),
     (''source_id'', PStr (pn_source_id n)), (''content_digest'', PStr (pn_content_digest n)),
     (''parent_ids'', pstrs (pn_parent_ids n))]"

definition argument_provenance_py :: "argument_provenance \<Rightarrow> pyval" where
  "argument_provenance_py a = PDict [(''value_digest'', PStr (ap_value_digest a)),
     (''nodes'', PTuple (map prov_node_py (ap_nodes a)))]"

definition action_intent_py :: "action_intent \<Rightarrow> pyval" where
  "action_intent_py i = PDict
     [(''tool'', PStr (in_tool i)), (''effect'', PStr (effect_value (in_effect i))),
      (''target'', PStr (in_target i)), (''arguments'', PDict (in_arguments i)),
      (''provenance'', PTuple (map (PStr \<circ> provenance_value) (in_provenance i))),
      (''explanation'', PStr (in_explanation i)), (''contract_id'', PStr (in_contract_id i)),
      (''contract_version'', PInt (in_contract_version i)),
      (''idempotency_key'', PStr (in_idempotency_key i)),
      (''argument_provenance'', PDict (map (\<lambda>(k, ps). (k, PTuple (map (PStr \<circ> provenance_value) ps)))
         (in_argument_provenance i))),
      (''argument_provenance_graph'', PDict (map (\<lambda>(k, g). (k, argument_provenance_py g))
         (in_argument_provenance_graph i)))]"

definition intent_digest :: "crypto \<Rightarrow> action_intent \<Rightarrow> string" where
  "intent_digest cr i = digest cr (action_intent_py i)"

definition opt_int_py :: "int option \<Rightarrow> pyval" where
  "opt_int_py x = (case x of None \<Rightarrow> PNone | Some i \<Rightarrow> PInt i)"

definition argument_rule_py :: "argument_rule \<Rightarrow> pyval" where
  "argument_rule_py r = PDict [(''name'', PStr (arg_name r)),
     (''kind'', PStr (argument_kind_value (arg_kind r))), (''required'', PBool (arg_required r)),
     (''allowed_values'', pstrs (arg_allowed_values r)),
     (''maximum_length'', opt_int_py (arg_maximum_length r)),
     (''minimum'', opt_int_py (arg_minimum r)), (''maximum'', opt_int_py (arg_maximum r))]"

definition action_rule_py :: "action_rule \<Rightarrow> pyval" where
  "action_rule_py r = PDict [(''tool'', PStr (rule_tool r)),
     (''effect'', PStr (effect_value (rule_effect r))),
     (''target_prefix'', PStr (rule_target_prefix r)),
     (''approval_required'', PBool (rule_approval_required r)),
     (''max_uses'', opt_int_py (rule_max_uses r)),
     (''argument_rules'', PTuple (map argument_rule_py (rule_argument_rules r))),
     (''allow_unlisted_arguments'', PBool (rule_allow_unlisted r))]"

definition str_map_py :: "(string \<times> string list) list \<Rightarrow> pyval" where
  "str_map_py d = PDict (map (\<lambda>(k, xs). (k, pstrs xs)) d)"

text \<open>
  \<open>contract_digest\<close> hashes the whole contract. \<open>expires_at\<close> is a \<open>datetime\<close>, which
  \<open>canonical._default\<close> does not convert, so a contract with an expiry has no digest: the
  property raises \<open>TypeError\<close>.
\<close>

definition task_contract_py :: "task_contract \<Rightarrow> pyval res" where
  "task_contract_py c =
     (case tc_expires_at c of
        Some t \<Rightarrow> Inl (TypeError, ''cannot canonicalize <class '' @ repr_str ''datetime.datetime'' @ ''>'')
      | None \<Rightarrow> Inr (PDict
         [(''goal'', PStr (tc_goal c)), (''success_conditions'', pstrs (tc_success_conditions c)),
          (''allowed_actions'', PTuple (map action_rule_py (tc_allowed_actions c))),
          (''forbidden_actions'', pstrs (tc_forbidden_actions c)),
          (''required_verifiers'', str_map_py (tc_required_verifiers c)),
          (''success_condition_bindings'', str_map_py (tc_success_condition_bindings c)),
          (''action_safety_checks'', pstrs (tc_action_safety_checks c)),
          (''global_completion_guards'', pstrs (tc_global_completion_guards c)),
          (''require_argument_provenance'', PBool (tc_require_argument_provenance c)),
          (''task_kind'', PStr (tc_task_kind c)), (''risk_class'', PStr (tc_risk_class c)),
          (''probe_policy_digest'', PStr (tc_probe_policy_digest c)),
          (''profile_version'', PStr (tc_profile_version c)),
          (''profile_digest'', PStr (tc_profile_digest c)),
          (''maximum_iterations'', PInt (tc_maximum_iterations c)),
          (''maximum_tool_calls'', PInt (tc_maximum_tool_calls c)),
          (''expires_at'', PNone), (''contract_id'', PStr (tc_contract_id c)),
          (''version'', PInt (tc_version c))]))"

definition contract_digest :: "crypto \<Rightarrow> task_contract \<Rightarrow> string res" where
  "contract_digest cr c = bnd (task_contract_py c) (\<lambda>v. Inr (digest cr v))"

subsection \<open>What an accepted intent guarantees\<close>

text \<open>
  pathlib has already dropped the \<open>.\<close> components, so only \<open>..\<close> is ever found: \<open>/a/./b\<close> is
  accepted although the check names both.
\<close>

lemma has_traversal_iff: "has_traversal s \<longleftrightarrow> ''..'' \<in> set (split_chr (CHR ''/'') s)"
  by (auto simp: has_traversal_def path_parts_def list_ex_iff)

lemma argument_graph_check_Inr:
  "argument_graph_check cr args gs = Inr u \<longleftrightarrow>
    (\<forall>(k, g) \<in> set gs. \<exists>v. dget args k = Some v \<and> ap_value_digest g = digest cr v)"
  by (induction gs) (auto split: option.splits)

lemma argument_provenance_check_Inr:
  "argument_provenance_check ps = Inr u \<longleftrightarrow> (\<forall>(k, p) \<in> set ps. p \<noteq> [])"
  by (induction ps) auto

definition intent_ok :: "crypto \<Rightarrow> action_intent \<Rightarrow> bool" where
  "intent_ok cr i \<longleftrightarrow>
     startswith (in_target i) ''/'' \<and> ''..'' \<notin> set (split_chr (CHR ''/'') (in_target i))
     \<and> in_provenance i \<noteq> [] \<and> \<not> blank (in_explanation i)
     \<and> set (dkeys (in_argument_provenance i)) \<subseteq> set (dkeys (in_arguments i))
     \<and> (\<forall>(k, ps) \<in> set (in_argument_provenance i). ps \<noteq> [])
     \<and> (\<forall>(k, g) \<in> set (in_argument_provenance_graph i).
          \<exists>v. dget (in_arguments i) k = Some v \<and> ap_value_digest g = digest cr v)"

text \<open>An action intent is constructed exactly when its target is absolute without a \<open>..\<close>
  segment, it has provenance and an explanation, and every provenance graph it carries belongs
  to one of its arguments and is bound, by digest, to that argument's value.\<close>

theorem action_intent_init_iff: "action_intent_init cr i = Inr j \<longleftrightarrow> j = i \<and> intent_ok cr i"
proof -
  have "set (dkeys (in_argument_provenance_graph i)) \<subseteq> set (dkeys (in_arguments i))"
    if "\<forall>(k, g) \<in> set (in_argument_provenance_graph i).
      \<exists>v. dget (in_arguments i) k = Some v \<and> ap_value_digest g = digest cr v"
    using that by (fastforce simp: dkeys_def dest: dget_Some_key)
  then show ?thesis
    unfolding action_intent_init_def intent_ok_def has_traversal_iff
    by (auto simp: bnd_eq_Inr argument_graph_check_Inr argument_provenance_check_Inr)
qed

section \<open>Capabilities, observations and verification reports\<close>

record capability =
  cap_capability_id :: string
  cap_nonce :: string
  cap_intent_digest :: string
  cap_contract_digest :: string
  cap_executor_id :: string
  cap_issued_at :: dtime
  cap_expires_at :: dtime
  cap_signature :: string
  cap_graph_digest :: string
  cap_graph_node_id :: string

definition capability_init :: "capability \<Rightarrow> capability res" where
  "capability_init c =
     (if (cap_graph_digest c \<noteq> []) \<noteq> (cap_graph_node_id c \<noteq> [])
      then Inl (ValueError, ''capability graph binding needs both digest and node id'')
      else if cap_graph_digest c \<noteq> [] \<and> \<not> sha256_shape (cap_graph_digest c)
      then Inl (ValueError, ''capability graph digest must be SHA-256 hex'')
      else Inr c)"

record observation =
  ob_success :: bool
  ob_exit_code :: "int option"
  ob_stdout :: string
  ob_stderr :: string
  ob_artifact_digests :: "(string \<times> string) list"
  ob_metadata :: pydict

definition observation_py :: "observation \<Rightarrow> pyval" where
  "observation_py x = PDict [(''success'', PBool (ob_success x)), (''exit_code'', opt_int_py (ob_exit_code x)),
     (''stdout'', PStr (ob_stdout x)), (''stderr'', PStr (ob_stderr x)),
     (''artifact_digests'', PDict (map (\<lambda>(k, v). (k, PStr v)) (ob_artifact_digests x))),
     (''metadata'', PDict (ob_metadata x))]"

record check_result =
  cr_name :: string
  cr_status :: check_status
  cr_evidence :: pydict
  cr_message :: string

record verification_report =
  vr_correctness :: check_status
  vr_policy :: check_status
  vr_evidence :: check_status
  vr_quality :: check_status
  vr_checks :: "check_result list"

definition report_accepted :: "verification_report \<Rightarrow> bool" where
  "report_accepted r \<longleftrightarrow> vr_correctness r = PASS \<and> vr_policy r = PASS
     \<and> vr_evidence r = PASS \<and> vr_quality r = PASS"

end
