(* ===== verification/Schema.thy ===== *)
theory Schema
  imports Canonical
begin

text \<open>
  \<open>src/vloop/graph_schema.py\<close>: typed ports, the closed predicate language of edges, join
  barriers and the deployment-owned templates a dynamic node may select.
\<close>

datatype port_direction = INPUT | OUTPUT

primrec port_direction_value :: "port_direction \<Rightarrow> string" where
  "port_direction_value INPUT = ''input''"
| "port_direction_value OUTPUT = ''output''"

datatype join_policy = ALL_J | ANY_J | QUORUM | THRESHOLD

primrec join_policy_value :: "join_policy \<Rightarrow> string" where
  "join_policy_value ALL_J = ''all''"
| "join_policy_value ANY_J = ''any''"
| "join_policy_value QUORUM = ''quorum''"
| "join_policy_value THRESHOLD = ''threshold''"

datatype predicate_kind = ALWAYS | FIELD_EQUALS | FIELD_TRUTHY | FIELD_IN

primrec predicate_kind_value :: "predicate_kind \<Rightarrow> string" where
  "predicate_kind_value ALWAYS = ''always''"
| "predicate_kind_value FIELD_EQUALS = ''field-equals''"
| "predicate_kind_value FIELD_TRUTHY = ''field-truthy''"
| "predicate_kind_value FIELD_IN = ''field-in''"

definition schema_digest :: "crypto \<Rightarrow> string \<Rightarrow> string res" where
  "schema_digest cr schema_id =
     (if blank schema_id then Inl (ValueError, ''artifact schema id is required'')
      else Inr (digest cr (PDict [(''artifact_schema'', PStr schema_id)])))"

record node_port =
  port_name :: string
  port_direction :: port_direction
  port_schema_digest :: string
  port_required :: bool

definition node_port_init :: "node_port \<Rightarrow> node_port res" where
  "node_port_init p =
     (if blank (port_name p) \<or> length (port_schema_digest p) \<noteq> 64
      then Inl (ValueError, ''node ports need a name and SHA-256 schema digest'')
      else Inr p)"

section \<open>Edge predicates\<close>

record graph_predicate =
  pred_kind :: predicate_kind
  pred_field :: string
  pred_value :: string
  pred_values :: "string list"

definition always :: graph_predicate where
  "always = \<lparr>pred_kind = ALWAYS, pred_field = [], pred_value = [], pred_values = []\<rparr>"

definition field_equals :: "string \<Rightarrow> string \<Rightarrow> graph_predicate" where
  "field_equals f v = \<lparr>pred_kind = FIELD_EQUALS, pred_field = f, pred_value = v, pred_values = []\<rparr>"

definition graph_predicate_init :: "graph_predicate \<Rightarrow> graph_predicate res" where
  "graph_predicate_init p =
     (if pred_kind p = ALWAYS \<and> (pred_field p \<noteq> [] \<or> pred_value p \<noteq> [] \<or> pred_values p \<noteq> [])
      then Inl (ValueError, ''always predicates cannot carry operands'')
      else if pred_kind p \<noteq> ALWAYS \<and> pred_field p = []
      then Inl (ValueError, ''field predicates need a field name'')
      else if pred_kind p = FIELD_EQUALS \<and> pred_value p = []
      then Inl (ValueError, ''equals predicates need a value'')
      else if pred_kind p = FIELD_IN \<and> pred_values p = []
      then Inl (ValueError, ''membership predicates need values'')
      else Inr p)"

text \<open>\<open>GraphPredicate.evaluate\<close>: a missing field reads as \<open>None\<close>, whose text is \<open>None\<close>.\<close>

definition pred_evaluate :: "graph_predicate \<Rightarrow> pydict \<Rightarrow> bool" where
  "pred_evaluate p event =
     (let observed = str_opt (dget event (pred_field p)) in
      case pred_kind p of
        ALWAYS \<Rightarrow> True
      | FIELD_TRUTHY \<Rightarrow> truthy observed
      | FIELD_EQUALS \<Rightarrow> py_str observed = pred_value p
      | FIELD_IN \<Rightarrow> List.member (pred_values p) (py_str observed))"

lemma pred_evaluate_always [simp]: "pred_evaluate always event"
  by (simp add: pred_evaluate_def always_def)

section \<open>Joins\<close>

record graph_join =
  join_node_id :: string
  join_predecessors :: "string list"
  join_policy :: join_policy
  join_threshold :: "int option"

definition graph_join_init :: "graph_join \<Rightarrow> graph_join res" where
  "graph_join_init j =
     (if blank (join_node_id j) \<or> join_predecessors j = []
      then Inl (ValueError, ''joins need an identity and predecessors'')
      else if \<not> distinct (join_predecessors j)
      then Inl (ValueError, ''join predecessors must be unique'')
      else if join_policy j = QUORUM \<or> join_policy j = THRESHOLD
      then (case join_threshold j of
              Some t \<Rightarrow> if 1 \<le> t \<and> t \<le> int (length (join_predecessors j)) then Inr j
                        else Inl (ValueError, ''threshold joins need a threshold inside their predecessor count'')
            | None \<Rightarrow> Inl (ValueError, ''threshold joins need a threshold inside their predecessor count''))
      else if join_threshold j \<noteq> None
      then Inl (ValueError, ''only threshold joins may carry a threshold'')
      else Inr j)"

definition satisfied_by :: "graph_join \<Rightarrow> string set \<Rightarrow> bool" where
  "satisfied_by j completed =
     (let count = length (filter (\<lambda>p. p \<in> completed) (remdups (join_predecessors j))) in
      case join_policy j of
        ALL_J \<Rightarrow> count = length (join_predecessors j)
      | ANY_J \<Rightarrow> count \<ge> 1
      | _ \<Rightarrow> int count \<ge> (case join_threshold j of None \<Rightarrow> 0 | Some t \<Rightarrow> t))"

lemma satisfied_by_all:
  assumes "distinct (join_predecessors j)" "join_policy j = ALL_J"
  shows "satisfied_by j completed \<longleftrightarrow> set (join_predecessors j) \<subseteq> completed"
proof -
  have "length (filter P xs) = length xs \<longleftrightarrow> (\<forall>x \<in> set xs. P x)" for P :: "string \<Rightarrow> bool" and xs
    by (metis filter_id_conv filter_True length_filter_less less_irrefl)
  with assms show ?thesis by (auto simp: satisfied_by_def distinct_remdups_id)
qed

lemma satisfied_by_any:
  "join_policy j = ANY_J \<Longrightarrow> satisfied_by j completed \<longleftrightarrow> set (join_predecessors j) \<inter> completed \<noteq> {}"
  by (auto simp: satisfied_by_def Suc_le_eq filter_empty_conv)

lemma satisfied_by_mono:
  assumes "satisfied_by j A" "A \<subseteq> B" "distinct (join_predecessors j)"
  shows "satisfied_by j B"
proof -
  have "length (filter (\<lambda>p. p \<in> A) xs) \<le> length (filter (\<lambda>p. p \<in> B) xs)" for xs
    using assms(2) by (induction xs) auto
  note le = this [of "join_predecessors j"]
  show ?thesis
  proof (cases "join_policy j")
    case ALL_J
    then show ?thesis using assms by (auto simp: satisfied_by_all)
  next
    case ANY_J
    then show ?thesis using assms by (auto simp: satisfied_by_any)
  next
    case QUORUM
    then show ?thesis using assms(1,3) le by (simp add: satisfied_by_def distinct_remdups_id)
  next
    case THRESHOLD
    then show ?thesis using assms(1,3) le by (simp add: satisfied_by_def distinct_remdups_id)
  qed
qed

text \<open>An accepted join can always be satisfied, and never by nothing.\<close>

lemma satisfied_by_bounds:
  assumes "graph_join_init j = Inr j"
  shows "satisfied_by j (set (join_predecessors j))" and "\<not> satisfied_by j {}"
  using assms
  by (auto simp: graph_join_init_def satisfied_by_def distinct_remdups_id neq_Nil_conv
      split: if_splits option.splits join_policy.splits)

section \<open>Node implementations\<close>

record node_implementation =
  ni_implementation_id :: string
  ni_image_digest :: string
  ni_input_schema_digests :: "string list"
  ni_output_schema_digests :: "string list"
  ni_maximum_tokens :: int
  ni_maximum_calls :: int
  ni_timeout_seconds :: int
  ni_network_allowed :: bool

definition node_implementation_init :: "node_implementation \<Rightarrow> node_implementation res" where
  "node_implementation_init n =
     (if blank (ni_implementation_id n)
        \<or> min (ni_maximum_tokens n) (min (ni_maximum_calls n) (ni_timeout_seconds n)) < 1
      then Inl (ValueError, ''node implementations need identity and positive resource limits'')
      else if list_ex (\<lambda>v. length v \<noteq> 64)
        (ni_image_digest n # ni_input_schema_digests n @ ni_output_schema_digests n)
      then Inl (ValueError, ''node implementation identities must be SHA-256 digests'')
      else Inr n)"

definition implementation_digest :: "crypto \<Rightarrow> node_implementation \<Rightarrow> string" where
  "implementation_digest cr n = digest cr (PDict
     [(''implementation_id'', PStr (ni_implementation_id n)), (''image_digest'', PStr (ni_image_digest n)),
      (''input_schema_digests'', PTuple (map PStr (ni_input_schema_digests n))),
      (''output_schema_digests'', PTuple (map PStr (ni_output_schema_digests n))),
      (''maximum_tokens'', PInt (ni_maximum_tokens n)), (''maximum_calls'', PInt (ni_maximum_calls n)),
      (''timeout_seconds'', PInt (ni_timeout_seconds n)), (''network_allowed'', PBool (ni_network_allowed n))])"

end
