(* ===== verification/Graph.thy ===== *)
theory Graph
  imports Models Schema
begin

text \<open>
  \<open>src/vloop/graph.py\<close>, the data: nodes, edges, manifests and their digest, and the table of
  edge types. The checks, the searches and the compilers are in the theories that follow.
\<close>

datatype node_type = N_TASK | N_ACTION | N_PRINCIPAL | N_APPROVAL | N_CAPABILITY | N_OPERATION
  | N_EXECUTOR | N_SNAPSHOT | N_ARTIFACT | N_EVALUATOR | N_RECEIPT | N_CRITERION | N_DECISION
  | N_MEMORY | N_CONTEXT | N_JOIN

primrec node_type_value :: "node_type \<Rightarrow> string" where
  "node_type_value N_TASK = ''task''"
| "node_type_value N_ACTION = ''action''"
| "node_type_value N_PRINCIPAL = ''principal''"
| "node_type_value N_APPROVAL = ''approval''"
| "node_type_value N_CAPABILITY = ''capability''"
| "node_type_value N_OPERATION = ''operation''"
| "node_type_value N_EXECUTOR = ''executor''"
| "node_type_value N_SNAPSHOT = ''snapshot''"
| "node_type_value N_ARTIFACT = ''artifact''"
| "node_type_value N_EVALUATOR = ''evaluator''"
| "node_type_value N_RECEIPT = ''receipt''"
| "node_type_value N_CRITERION = ''criterion''"
| "node_type_value N_DECISION = ''decision''"
| "node_type_value N_MEMORY = ''memory''"
| "node_type_value N_CONTEXT = ''context''"
| "node_type_value N_JOIN = ''join''"

datatype edge_type = DEPENDS_ON | AUTHORISED_BY | DERIVED_FROM | REQUIRES | DISPATCHED_TO
  | PRODUCED | VERIFIED_BY | SATISFIES | RECONCILES | ESCALATES_TO

primrec edge_type_value :: "edge_type \<Rightarrow> string" where
  "edge_type_value DEPENDS_ON = ''depends-on''"
| "edge_type_value AUTHORISED_BY = ''authorised-by''"
| "edge_type_value DERIVED_FROM = ''derived-from''"
| "edge_type_value REQUIRES = ''requires''"
| "edge_type_value DISPATCHED_TO = ''dispatched-to''"
| "edge_type_value PRODUCED = ''produced''"
| "edge_type_value VERIFIED_BY = ''verified-by''"
| "edge_type_value SATISFIES = ''satisfies''"
| "edge_type_value RECONCILES = ''reconciles''"
| "edge_type_value ESCALATES_TO = ''escalates-to''"

type_synonym metadata = "(string \<times> string) list"

text \<open>\<open>metadata.get(key, "")\<close>.\<close>

definition meta :: "metadata \<Rightarrow> string \<Rightarrow> string" where
  "meta m k = (case dget m k of None \<Rightarrow> [] | Some v \<Rightarrow> v)"

section \<open>Nodes and edges\<close>

record graph_node =
  nd_id :: string
  nd_type :: node_type
  nd_effect :: string
  nd_authority :: string
  nd_budget :: "int option"
  nd_timeout_seconds :: "int option"
  nd_required_guards :: "string list"
  nd_input_ports :: "node_port list"
  nd_output_ports :: "node_port list"
  nd_metadata :: metadata

text \<open>The constructor's defaults.\<close>

definition graph_node :: "string \<Rightarrow> node_type \<Rightarrow> graph_node" where
  "graph_node i t = \<lparr>nd_id = i, nd_type = t, nd_effect = ''read-only'', nd_authority = [],
     nd_budget = None, nd_timeout_seconds = None, nd_required_guards = [], nd_input_ports = [],
     nd_output_ports = [], nd_metadata = []\<rparr>"

definition graph_node_init :: "graph_node \<Rightarrow> graph_node res" where
  "graph_node_init n =
     (if blank (nd_id n) then Inl (ValueError, ''graph nodes need an identity'')
      else if nd_effect n \<noteq> ''read-only'' \<and> nd_effect n \<noteq> ''side-effect'' \<and> nd_effect n \<noteq> ''terminal''
      then Inl (ValueError, ''graph node effect is invalid'')
      else if nd_effect n = ''side-effect'' \<and> blank (nd_authority n)
      then Inl (ValueError, ''side-effect graph nodes need an authority'')
      else if (case nd_budget n of None \<Rightarrow> False | Some b \<Rightarrow> b < 1)
      then Inl (ValueError, ''graph node budgets must be positive'')
      else if (case nd_timeout_seconds n of None \<Rightarrow> False | Some b \<Rightarrow> b < 1)
      then Inl (ValueError, ''graph node timeouts must be positive'')
      else if \<not> distinct (map port_name (nd_input_ports n @ nd_output_ports n))
      then Inl (ValueError, ''node port names must be unique across inputs and outputs'')
      else if list_ex (\<lambda>p. port_direction p \<noteq> INPUT) (nd_input_ports n)
        \<or> list_ex (\<lambda>p. port_direction p \<noteq> OUTPUT) (nd_output_ports n)
      then Inl (ValueError, ''node ports must match their declared direction'')
      else Inr n)"

record graph_edge =
  ed_source :: string
  ed_target :: string
  ed_type :: edge_type
  ed_condition :: string
  ed_source_port :: string
  ed_target_port :: string
  ed_predicate :: graph_predicate

definition graph_edge :: "string \<Rightarrow> string \<Rightarrow> edge_type \<Rightarrow> graph_edge" where
  "graph_edge s t ty = \<lparr>ed_source = s, ed_target = t, ed_type = ty, ed_condition = [],
     ed_source_port = [], ed_target_port = [], ed_predicate = always\<rparr>"

definition edge_conditions :: "string list" where
  "edge_conditions = [[], ''execution.success'', ''outcome-unknown-or-failed'', ''guard-pass'']"

definition graph_edge_init :: "graph_edge \<Rightarrow> graph_edge res" where
  "graph_edge_init e =
     (if blank (ed_source e) \<or> blank (ed_target e)
      then Inl (ValueError, ''graph edges need source and target'')
      else if (ed_source_port e \<noteq> []) \<noteq> (ed_target_port e \<noteq> [])
      then Inl (ValueError, ''typed edges need both source and target ports'')
      else if \<not> List.member edge_conditions (ed_condition e)
      then Inl (ValueError, ''graph edges must use a closed predicate vocabulary'')
      else Inr e)"

text \<open>\<open>_EDGE_COMPATIBILITY\<close> and \<open>_edge_pair_is_valid\<close>.\<close>

primrec edge_compatibility :: "edge_type \<Rightarrow> (node_type \<times> node_type) list option" where
  "edge_compatibility AUTHORISED_BY = Some [(N_ACTION, N_APPROVAL), (N_CAPABILITY, N_APPROVAL),
     (N_PRINCIPAL, N_CAPABILITY), (N_APPROVAL, N_CAPABILITY), (N_CAPABILITY, N_OPERATION)]"
| "edge_compatibility DISPATCHED_TO = Some [(N_OPERATION, N_EXECUTOR)]"
| "edge_compatibility PRODUCED = Some [(N_EXECUTOR, N_EXECUTOR), (N_EXECUTOR, N_ARTIFACT),
     (N_EVALUATOR, N_RECEIPT)]"
| "edge_compatibility VERIFIED_BY = Some [(N_ARTIFACT, N_EVALUATOR), (N_RECEIPT, N_CRITERION)]"
| "edge_compatibility SATISFIES = Some [(N_ACTION, N_JOIN), (N_APPROVAL, N_JOIN),
     (N_CAPABILITY, N_JOIN), (N_CRITERION, N_JOIN), (N_JOIN, N_CAPABILITY), (N_JOIN, N_DECISION)]"
| "edge_compatibility RECONCILES = Some [(N_EXECUTOR, N_OPERATION)]"
| "edge_compatibility REQUIRES = Some [(N_SNAPSHOT, N_EVALUATOR)]"
| "edge_compatibility DEPENDS_ON = None"
| "edge_compatibility DERIVED_FROM = None"
| "edge_compatibility ESCALATES_TO = None"

definition edge_pair_is_valid :: "node_type \<Rightarrow> edge_type \<Rightarrow> node_type \<Rightarrow> bool" where
  "edge_pair_is_valid s ty t =
     (case edge_compatibility ty of None \<Rightarrow> True | Some allowed \<Rightarrow> List.member allowed (s, t))"

section \<open>Manifests\<close>

record graph_manifest =
  gm_graph_id :: string
  gm_schema_version :: int
  gm_contract_digest :: string
  gm_profile_digest :: string
  gm_nodes :: "graph_node list"
  gm_edges :: "graph_edge list"
  gm_compiler_version :: string
  gm_metadata :: metadata
  gm_joins :: "graph_join list"

definition graph_manifest_init :: "graph_manifest \<Rightarrow> graph_manifest res" where
  "graph_manifest_init g =
     (if blank (gm_graph_id g) \<or> gm_schema_version g < 1
      then Inl (ValueError, ''graph manifest needs an id and schema version'')
      else if length (gm_contract_digest g) \<noteq> 64 \<or> length (gm_profile_digest g) \<noteq> 64
      then Inl (ValueError, ''graph manifest needs bound contract and profile digests'')
      else Inr g)"

definition metadata_py :: "metadata \<Rightarrow> pyval" where
  "metadata_py m = PDict (map (\<lambda>(k, v). (k, PStr v)) m)"

definition port_py :: "node_port \<Rightarrow> pyval" where
  "port_py p = PDict [(''name'', PStr (port_name p)),
     (''direction'', PStr (port_direction_value (port_direction p))),
     (''schema_digest'', PStr (port_schema_digest p)), (''required'', PBool (port_required p))]"

definition node_py :: "graph_node \<Rightarrow> pyval" where
  "node_py n = PDict [(''node_id'', PStr (nd_id n)), (''node_type'', PStr (node_type_value (nd_type n))),
     (''effect'', PStr (nd_effect n)), (''authority'', PStr (nd_authority n)),
     (''budget'', opt_int_py (nd_budget n)), (''timeout_seconds'', opt_int_py (nd_timeout_seconds n)),
     (''required_guards'', pstrs (nd_required_guards n)),
     (''input_ports'', PList (map port_py (nd_input_ports n))),
     (''output_ports'', PList (map port_py (nd_output_ports n))),
     (''metadata'', metadata_py (nd_metadata n))]"

definition predicate_py :: "graph_predicate \<Rightarrow> pyval" where
  "predicate_py p = PDict [(''kind'', PStr (predicate_kind_value (pred_kind p))),
     (''field'', PStr (pred_field p)), (''value'', PStr (pred_value p)), (''values'', pstrs (pred_values p))]"

definition edge_py :: "graph_edge \<Rightarrow> pyval" where
  "edge_py e = PDict [(''source'', PStr (ed_source e)), (''target'', PStr (ed_target e)),
     (''edge_type'', PStr (edge_type_value (ed_type e))), (''condition'', PStr (ed_condition e)),
     (''source_port'', PStr (ed_source_port e)), (''target_port'', PStr (ed_target_port e)),
     (''predicate'', predicate_py (ed_predicate e))]"

definition join_py :: "graph_join \<Rightarrow> pyval" where
  "join_py j = PDict [(''node_id'', PStr (join_node_id j)), (''predecessors'', pstrs (join_predecessors j)),
     (''policy'', PStr (join_policy_value (join_policy j))), (''threshold'', opt_int_py (join_threshold j))]"

definition manifest_py :: "graph_manifest \<Rightarrow> pyval" where
  "manifest_py g = PDict
     [(''graph_id'', PStr (gm_graph_id g)), (''schema_version'', PInt (gm_schema_version g)),
      (''contract_digest'', PStr (gm_contract_digest g)), (''profile_digest'', PStr (gm_profile_digest g)),
      (''compiler_version'', PStr (gm_compiler_version g)), (''metadata'', metadata_py (gm_metadata g)),
      (''nodes'', PList (map node_py (gm_nodes g))), (''edges'', PList (map edge_py (gm_edges g))),
      (''joins'', PList (map join_py (gm_joins g)))]"

definition graph_digest :: "crypto \<Rightarrow> graph_manifest \<Rightarrow> string" where
  "graph_digest cr g = digest cr (manifest_py g)"

text \<open>The dictionaries \<open>by_id\<close>, \<open>incoming\<close> and \<open>outgoing\<close>; a later node replaces an earlier one.\<close>

definition node_ids :: "graph_manifest \<Rightarrow> string list" where
  "node_ids g = remdups (map nd_id (gm_nodes g))"

definition by_id :: "graph_manifest \<Rightarrow> string \<Rightarrow> graph_node option" where
  "by_id g i = dget (map (\<lambda>n. (nd_id n, n)) (rev (gm_nodes g))) i"

definition known_edges :: "graph_manifest \<Rightarrow> graph_edge list" where
  "known_edges g = filter (\<lambda>e. ed_source e \<in> set (node_ids g) \<and> ed_target e \<in> set (node_ids g)) (gm_edges g)"

definition incoming :: "graph_manifest \<Rightarrow> string \<Rightarrow> graph_edge list" where
  "incoming g i = filter (\<lambda>e. ed_target e = i) (known_edges g)"

definition outgoing :: "graph_manifest \<Rightarrow> string \<Rightarrow> graph_edge list" where
  "outgoing g i = filter (\<lambda>e. ed_source e = i) (known_edges g)"

lemma by_id_Some: "by_id g i = Some n \<Longrightarrow> n \<in> set (gm_nodes g) \<and> nd_id n = i"
  unfolding by_id_def dget_def by (auto dest!: map_of_SomeD)

lemma by_id_None: "by_id g i = None \<longleftrightarrow> i \<notin> set (node_ids g)"
  unfolding by_id_def dget_None_iff by (auto simp: dkeys_def node_ids_def)

lemma by_id_distinct:
  assumes "distinct (map nd_id (gm_nodes g))" "n \<in> set (gm_nodes g)"
  shows "by_id g (nd_id n) = Some n"
proof -
  have "distinct (map fst (map (\<lambda>n. (nd_id n, n)) (rev (gm_nodes g))))"
    using assms(1) by (simp add: comp_def rev_map [symmetric])
  then show ?thesis
    unfolding by_id_def dget_def using assms(2) by (subst map_of_eq_Some_iff) auto
qed

lemma edges_known:
  "e \<in> set (incoming g i) \<Longrightarrow> ed_source e \<in> set (node_ids g) \<and> ed_target e = i \<and> e \<in> set (gm_edges g)"
  "e \<in> set (outgoing g i) \<Longrightarrow> ed_target e \<in> set (node_ids g) \<and> ed_source e = i \<and> e \<in> set (gm_edges g)"
  by (auto simp: incoming_def outgoing_def known_edges_def)

end
