(* ===== verification/Graph_Search.thy ===== *)
theory Graph_Search
  imports Graph
begin

text \<open>
  The seven work-list searches of \<open>GraphManifest\<close> (\<open>src/vloop/graph.py\<close>). Each is an
  instance of one loop, shown to terminate and to decide reachability: the loop pops a node
  off the end of \<open>pending\<close>, skips it when seen or excluded, stops with success at a hit and
  otherwise pushes its neighbours.
\<close>

section \<open>The loop\<close>

text \<open>
  \<open>pending\<close> is held with its end first. \<open>nbr\<close> is the dictionary of neighbours, and a missing
  key is the \<open>KeyError\<close> of \<open>outgoing[node_id]\<close>. The result is whether a hit was found, and
  the nodes seen.
\<close>

function worklist :: "(string \<times> string list) list \<Rightarrow> (string \<Rightarrow> bool) \<Rightarrow> (string \<Rightarrow> bool)
    \<Rightarrow> string list \<Rightarrow> string list \<Rightarrow> (bool \<times> string list) res" where
  "worklist nbr skip hit [] seen = Inr (False, seen)"
| "worklist nbr skip hit (n # pending) seen =
     (if n \<in> set seen \<or> skip n then worklist nbr skip hit pending seen
      else if hit n then Inr (True, n # seen)
      else case dget nbr n of
             None \<Rightarrow> Inl (KeyError, repr_str n)
           | Some ts \<Rightarrow> worklist nbr skip hit (rev ts @ pending) (n # seen))"
  by pat_completeness auto

termination
proof (relation "inv_image (less_than <*lex*> less_than)
    (\<lambda>(nbr, skip, hit, pending, seen). (card (set (dkeys nbr) - set seen), length pending))", goal_cases)
  case (3 nbr skip hit n pending seen ts)
  then have "set (dkeys nbr) - set (n # seen) \<subset> set (dkeys nbr) - set seen"
    by (auto dest: dget_Some_key)
  then have "card (set (dkeys nbr) - set (n # seen)) < card (set (dkeys nbr) - set seen)"
    by (rule psubset_card_mono [rotated]) simp
  then show ?case by simp
qed auto

inductive_set reach :: "(string \<times> string list) list \<Rightarrow> (string \<Rightarrow> bool) \<Rightarrow> string set \<Rightarrow> string set"
  for nbr skip starts where
  start: "s \<in> starts \<Longrightarrow> \<not> skip s \<Longrightarrow> s \<in> reach nbr skip starts"
| step: "x \<in> reach nbr skip starts \<Longrightarrow> dget nbr x = Some ts \<Longrightarrow> y \<in> set ts \<Longrightarrow> \<not> skip y
    \<Longrightarrow> y \<in> reach nbr skip starts"

definition closed_dict :: "(string \<times> string list) list \<Rightarrow> bool" where
  "closed_dict nbr \<longleftrightarrow> (\<forall>x ts. dget nbr x = Some ts \<longrightarrow> set ts \<subseteq> set (dkeys nbr))"

lemma worklist_total:
  "closed_dict nbr \<Longrightarrow> set pending \<subseteq> set (dkeys nbr)
    \<Longrightarrow> \<exists>b seen'. worklist nbr skip hit pending seen = Inr (b, seen')"
proof (induction nbr skip hit pending seen rule: worklist.induct)
  case (2 nbr skip hit n pending seen)
  show ?case
  proof (cases "n \<in> set seen \<or> skip n")
    case True
    then show ?thesis using 2 by simp
  next
    case new: False
    show ?thesis
    proof (cases "hit n")
      case False
      obtain ts where ts: "dget nbr n = Some ts"
        using 2(4) dget_None_iff [of nbr n] by auto
      have "set (rev ts @ pending) \<subseteq> set (dkeys nbr)"
        using 2(3,4) ts by (auto simp: closed_dict_def)
      from 2(2) [OF new False ts 2(3) this] new False ts show ?thesis by simp
    qed (use new in \<open>auto intro: exI [of _ True]\<close>)
  qed
qed (auto intro: exI [of _ False])

text \<open>What holds of the loop state, and what it gives at the end.\<close>

definition loop_inv :: "(string \<times> string list) list \<Rightarrow> (string \<Rightarrow> bool) \<Rightarrow> (string \<Rightarrow> bool)
    \<Rightarrow> string set \<Rightarrow> string list \<Rightarrow> string list \<Rightarrow> bool" where
  "loop_inv nbr skip hit starts pending seen \<longleftrightarrow>
     (\<forall>x \<in> starts. \<not> skip x \<longrightarrow> x \<in> set pending \<union> set seen)
     \<and> (\<forall>x \<in> set pending. \<not> skip x \<longrightarrow> x \<in> reach nbr skip starts)
     \<and> set seen \<subseteq> reach nbr skip starts
     \<and> (\<forall>x \<in> set seen. \<not> hit x)
     \<and> (\<forall>x \<in> set seen. \<forall>ts. dget nbr x = Some ts \<longrightarrow>
          (\<forall>y \<in> set ts. \<not> skip y \<longrightarrow> y \<in> set pending \<union> set seen))"

lemma loop_inv_end:
  assumes "loop_inv nbr skip hit starts [] seen"
  shows "set seen = reach nbr skip starts"
proof
  show "reach nbr skip starts \<subseteq> set seen"
  proof
    fix x assume "x \<in> reach nbr skip starts"
    then show "x \<in> set seen"
      by induction (use assms in \<open>auto simp: loop_inv_def\<close>)
  qed
qed (use assms in \<open>auto simp: loop_inv_def\<close>)

lemma worklist_sound:
  "worklist nbr skip hit pending seen = Inr (b, seen') \<Longrightarrow> loop_inv nbr skip hit starts pending seen
    \<Longrightarrow> (b \<longleftrightarrow> (\<exists>x \<in> reach nbr skip starts. hit x)) \<and> (\<not> b \<longrightarrow> set seen' = reach nbr skip starts)"
proof (induction nbr skip hit pending seen rule: worklist.induct)
  case (1 nbr skip hit seen)
  then show ?case
    using loop_inv_end [OF 1(2)] by (auto simp: loop_inv_def)
next
  case (2 nbr skip hit n pending seen)
  show ?case
  proof (cases "n \<in> set seen \<or> skip n")
    case True
    then have "loop_inv nbr skip hit starts pending seen"
      using 2(4) unfolding loop_inv_def by simp blast
    then show ?thesis using 2(1) [OF True] 2(3) True by auto
  next
    case new: False
    then have r: "n \<in> reach nbr skip starts" using 2(4) by (auto simp: loop_inv_def)
    show ?thesis
    proof (cases "hit n")
      case True
      then show ?thesis using new r 2(3) by auto
    next
      case False
      obtain ts where ts: "dget nbr n = Some ts"
        "worklist nbr skip hit (rev ts @ pending) (n # seen) = Inr (b, seen')"
        using 2(3) new False by (auto split: option.splits)
      have "loop_inv nbr skip hit starts (rev ts @ pending) (n # seen)"
        using 2(4) new False r reach.step [OF r ts(1)] ts(1) unfolding loop_inv_def
        by simp blast
      from 2(2) [OF new False ts(1) ts(2) this] show ?thesis .
    qed
  qed
qed

text \<open>The loop started on \<open>pending\<close> decides whether a hit is reachable.\<close>

lemma worklist_correct:
  assumes "closed_dict nbr" "set pending \<subseteq> set (dkeys nbr)"
  shows "\<exists>b seen. worklist nbr skip hit pending [] = Inr (b, seen)
    \<and> (b \<longleftrightarrow> (\<exists>x \<in> reach nbr skip (set pending). hit x))
    \<and> (\<not> b \<longrightarrow> set seen = reach nbr skip (set pending))"
proof -
  obtain b seen where w: "worklist nbr skip hit pending [] = Inr (b, seen)"
    using worklist_total [OF assms] by blast
  have "loop_inv nbr skip hit (set pending) pending []"
    by (auto simp: loop_inv_def intro: reach.start)
  from worklist_sound [OF w this] w show ?thesis by blast
qed

lemma reach_mono: "starts \<subseteq> starts' \<Longrightarrow> reach nbr skip starts \<subseteq> reach nbr skip starts'"
proof
  fix x assume sub: "starts \<subseteq> starts'" and x: "x \<in> reach nbr skip starts"
  show "x \<in> reach nbr skip starts'"
    using x by induction (use sub in \<open>auto intro: reach.intros\<close>)
qed

declare worklist.simps [simp del]

section \<open>The searches\<close>

definition found :: "(bool \<times> string list) res \<Rightarrow> bool res" where
  "found r = bnd r (\<lambda>(b, _). Inr b)"

definition type_of :: "graph_manifest \<Rightarrow> string \<Rightarrow> node_type option" where
  "type_of g i = map_option nd_type (by_id g i)"

text \<open>The dictionaries of neighbours the searches walk, keyed by the node identities.\<close>

definition nbr_dict :: "graph_manifest \<Rightarrow> (string \<Rightarrow> string list) \<Rightarrow> (string \<times> string list) list" where
  "nbr_dict g f = map (\<lambda>i. (i, f i)) (node_ids g)"

definition targets :: "graph_manifest \<Rightarrow> (string \<times> string list) list" where
  "targets g = nbr_dict g (\<lambda>i. map ed_target (outgoing g i))"

definition sources :: "edge_type list \<Rightarrow> graph_manifest \<Rightarrow> (string \<times> string list) list" where
  "sources tys g = nbr_dict g (\<lambda>i. map ed_source (filter (\<lambda>e. ed_type e \<in> set tys) (incoming g i)))"

definition reachable_from :: "graph_manifest \<Rightarrow> string list \<Rightarrow> string list res" where
  "reachable_from g starts =
     bnd (worklist (targets g) (\<lambda>_. False) (\<lambda>_. False) (rev starts) []) (\<lambda>(_, seen). Inr seen)"

definition has_capability_path :: "graph_manifest \<Rightarrow> string \<Rightarrow> bool res" where
  "has_capability_path g start = found (worklist (sources [AUTHORISED_BY, DISPATCHED_TO] g) (\<lambda>_. False)
     (\<lambda>n. n \<noteq> start \<and> type_of g n = Some N_CAPABILITY) [start] [])"

definition has_approval_path :: "graph_manifest \<Rightarrow> string \<Rightarrow> bool res" where
  "has_approval_path g start = found (worklist (sources [AUTHORISED_BY] g) (\<lambda>_. False)
     (\<lambda>n. n \<noteq> start \<and> type_of g n = Some N_APPROVAL) [start] [])"

definition reaches_human_exit :: "graph_manifest \<Rightarrow> string \<Rightarrow> bool res" where
  "reaches_human_exit g start = found (worklist (targets g) (\<lambda>_. False)
     (\<lambda>n. n \<noteq> start \<and> type_of g n = Some N_DECISION \<and> (endswith n ''escalate'' \<or> endswith n ''cancel''))
     [start] [])"

definition is_recovery :: "graph_manifest \<Rightarrow> string \<Rightarrow> bool" where
  "is_recovery g n = (case by_id g n of
     None \<Rightarrow> False
   | Some node \<Rightarrow> nd_type node = N_OPERATION \<and> meta (nd_metadata node) ''recovery'' = ''true'')"

definition reaches_recovery :: "graph_manifest \<Rightarrow> string \<Rightarrow> bool res" where
  "reaches_recovery g start = found (worklist (targets g) (\<lambda>_. False) (is_recovery g) [start] [])"

definition reaches_type :: "graph_manifest \<Rightarrow> string \<Rightarrow> node_type \<Rightarrow> bool res" where
  "reaches_type g start ty = found (worklist (targets g) (\<lambda>_. False)
     (\<lambda>n. n \<noteq> start \<and> type_of g n = Some ty) [start] [])"

definition reachable_without :: "graph_manifest \<Rightarrow> string list \<Rightarrow> string \<Rightarrow> string list \<Rightarrow> bool res" where
  "reachable_without g starts target excluded = found (worklist (targets g) (\<lambda>n. n \<in> set excluded)
     (\<lambda>n. n = target) (rev (filter (\<lambda>n. n \<notin> set excluded) starts)) [])"

lemma nbr_dict_simps [simp]:
  "dkeys (nbr_dict g f) = node_ids g"
  "dget (nbr_dict g f) i = (if i \<in> set (node_ids g) then Some (f i) else None)"
proof -
  have "map_of (map (\<lambda>i. (i, f i)) xs) i = (if i \<in> set xs then Some (f i) else None)" for xs
    by (induction xs) auto
  then show "dget (nbr_dict g f) i = (if i \<in> set (node_ids g) then Some (f i) else None)"
    by (simp add: dget_def nbr_dict_def)
qed (simp add: nbr_dict_def dkeys_def comp_def)

lemma closed_dicts [simp]: "closed_dict (targets g)" "closed_dict (sources tys g)"
  unfolding closed_dict_def targets_def sources_def
  by (auto split: if_splits dest: edges_known)

lemma targets_keys [simp]: "dkeys (targets g) = node_ids g" "dkeys (sources tys g) = node_ids g"
  by (simp_all add: targets_def sources_def)

lemma found_worklist:
  assumes "closed_dict nbr" "set pending \<subseteq> set (dkeys nbr)"
  shows "found (worklist nbr skip hit pending []) = Inr (\<exists>x \<in> reach nbr skip (set pending). hit x)"
  using worklist_correct [OF assms, of skip hit] by (auto simp: found_def)

end
