(* ===== verification/Tarjan.thy ===== *)
theory Tarjan
  imports Graph_Search
begin

text \<open>
  \<open>GraphManifest._cyclic_components\<close> (\<open>src/vloop/graph.py\<close>): Tarjan's algorithm, with the
  mutable variables of the method as a record. \<open>outgoing\<close> is the dictionary of successors.
  The recursion depth of \<open>visit\<close> is the fuel; a depth of one more than the number of nodes is
  shown to be enough.
\<close>

record tarjan =
  tj_index :: nat
  tj_stack :: "string list"
  tj_indices :: "(string \<times> nat) list"
  tj_lowlinks :: "(string \<times> nat) list"
  tj_on_stack :: "string list"
  tj_components :: "string list list"

definition tj_start :: tarjan where
  "tj_start = \<lparr>tj_index = 0, tj_stack = [], tj_indices = [], tj_lowlinks = [], tj_on_stack = [],
     tj_components = []\<rparr>"

text \<open>A dictionary read at a key that the algorithm has stored.\<close>

definition num_at :: "(string \<times> nat) list \<Rightarrow> string \<Rightarrow> nat" where
  "num_at d k = (case dget d k of None \<Rightarrow> 0 | Some i \<Rightarrow> i)"

definition lower :: "string \<Rightarrow> nat \<Rightarrow> tarjan \<Rightarrow> tarjan" where
  "lower n i st = st\<lparr>tj_lowlinks := AList.update n (min (num_at (tj_lowlinks st) n) i) (tj_lowlinks st)\<rparr>"

definition tj_enter :: "string \<Rightarrow> tarjan \<Rightarrow> tarjan" where
  "tj_enter n st = st\<lparr>tj_indices := AList.update n (tj_index st) (tj_indices st),
     tj_lowlinks := AList.update n (tj_index st) (tj_lowlinks st),
     tj_index := tj_index st + 1, tj_stack := n # tj_stack st, tj_on_stack := n # tj_on_stack st\<rparr>"

text \<open>The inner \<open>while True\<close>: pop up to and including \<open>n\<close>, and keep the component if cyclic.\<close>

definition tj_leave :: "string \<Rightarrow> string list \<Rightarrow> tarjan \<Rightarrow> tarjan" where
  "tj_leave n ts st =
     (if num_at (tj_lowlinks st) n = num_at (tj_indices st) n
      then let component = takeWhile (\<lambda>x. x \<noteq> n) (tj_stack st) @ [n] in
        st\<lparr>tj_stack := tl (dropWhile (\<lambda>x. x \<noteq> n) (tj_stack st)),
           tj_on_stack := filter (\<lambda>x. x \<notin> set component) (tj_on_stack st),
           tj_components := tj_components st
             @ (if length component > 1 \<or> n \<in> set ts then [component] else [])\<rparr>
      else st)"

fun tj_visit :: "nat \<Rightarrow> (string \<times> string list) list \<Rightarrow> string \<Rightarrow> tarjan \<Rightarrow> tarjan res" where
  "tj_visit 0 out n st = Inl (RuntimeError, ''maximum recursion depth exceeded'')"
| "tj_visit (Suc depth) out n st =
     (case dget out n of
        None \<Rightarrow> Inl (KeyError, repr_str n)
      | Some ts \<Rightarrow>
          bnd (fold_res (\<lambda>t st.
                 if t \<notin> set (dkeys (tj_indices st))
                 then bnd (tj_visit depth out t st) (\<lambda>st'. Inr (lower n (num_at (tj_lowlinks st') t) st'))
                 else if t \<in> set (tj_on_stack st)
                 then Inr (lower n (num_at (tj_indices st) t) st)
                 else Inr st) ts (tj_enter n st))
            (\<lambda>st'. Inr (tj_leave n ts st')))"

definition cyclic_components :: "(string \<times> string list) list \<Rightarrow> string list list res" where
  "cyclic_components out =
     bnd (fold_res (\<lambda>n st. if n \<notin> set (dkeys (tj_indices st))
                          then tj_visit (Suc (length out)) out n st else Inr st)
            (dkeys out) tj_start)
       (\<lambda>st. Inr (tj_components st))"

section \<open>The recursion depth suffices\<close>

lemma indices_simps [simp]:
  "tj_indices (lower n i st) = tj_indices st"
  "tj_indices (tj_leave n ts st) = tj_indices st"
  "tj_indices (tj_enter n st) = AList.update n (tj_index st) (tj_indices st)"
  by (simp_all add: lower_def tj_leave_def tj_enter_def Let_def)

lemma tj_visit_total:
  assumes "closed_dict out"
  shows "n \<in> set (dkeys out) \<Longrightarrow> n \<notin> set (dkeys (tj_indices (st :: tarjan)))
    \<Longrightarrow> card (set (dkeys out) - set (dkeys (tj_indices st))) \<le> depth
    \<Longrightarrow> \<exists>st'. tj_visit depth out n st = Inr st' \<and> set (dkeys (tj_indices st)) \<subseteq> set (dkeys (tj_indices st'))"
proof (induction depth arbitrary: n st)
  case 0
  then show ?case by (metis Diff_iff List.finite_set card_0_eq empty_iff finite_Diff le_zero_eq)
next
  case (Suc depth)
  let ?U = "set (dkeys out)"
  let ?P = "\<lambda>st' :: tarjan. insert n (set (dkeys (tj_indices st))) \<subseteq> set (dkeys (tj_indices st'))"
  obtain ts where ts: "dget out n = Some ts" using Suc.prems(1) dget_None_iff [of out n] by auto
  have sub: "set ts \<subseteq> ?U" using assms ts by (auto simp: closed_dict_def)
  have small: "card (?U - set (dkeys (tj_indices st'))) \<le> depth" if "?P st'" for st' :: tarjan
  proof -
    have "?U - set (dkeys (tj_indices st')) \<subset> ?U - set (dkeys (tj_indices st))"
      using that Suc.prems(1,2) by auto
    then have "card (?U - set (dkeys (tj_indices st'))) < card (?U - set (dkeys (tj_indices st)))"
      by (rule psubset_card_mono [rotated]) simp
    then show ?thesis using Suc.prems(3) by linarith
  qed
  let ?f = "\<lambda>t (st :: tarjan). if t \<notin> set (dkeys (tj_indices st))
                 then bnd (tj_visit depth out t st) (\<lambda>st'. Inr (lower n (num_at (tj_lowlinks st') t) st'))
                 else if t \<in> set (tj_on_stack st)
                 then Inr (lower n (num_at (tj_indices st) t) st)
                 else Inr st"
  have "\<exists>st'. fold_res ?f ts (tj_enter n st) = Inr st' \<and> ?P st'"
  proof (rule fold_res_total)
    show "?P (tj_enter n st)" by auto
    fix t and st1 :: tarjan assume t: "t \<in> set ts" and P: "?P st1"
    show "\<exists>st'. ?f t st1 = Inr st' \<and> ?P st'"
    proof (cases "t \<in> set (dkeys (tj_indices st1))")
      case False
      obtain st2 where "tj_visit depth out t st1 = Inr st2"
        "set (dkeys (tj_indices st1)) \<subseteq> set (dkeys (tj_indices st2))"
        using Suc.IH [OF _ False small [OF P]] t sub by auto
      then show ?thesis using P False by auto
    qed (use P in auto)
  qed
  then show ?case using ts by auto
qed

text \<open>
  On a graph whose edges stay inside it the search returns a result: no node is missing from the
  dictionary and the recursion never goes deeper than the number of nodes.
\<close>

lemma cyclic_components_total:
  assumes "closed_dict out"
  shows "\<exists>cs. cyclic_components out = Inr cs"
proof -
  have "\<exists>st'. fold_res (\<lambda>n st. if n \<notin> set (dkeys (tj_indices st))
      then tj_visit (Suc (length out)) out n st else Inr st) (dkeys out) tj_start = Inr st' \<and> True"
  proof (rule fold_res_total)
    fix n and st :: tarjan assume n: "n \<in> set (dkeys out)"
    have "card (set (dkeys out) - set (dkeys (tj_indices st))) \<le> card (set (dkeys out))"
      by (rule card_mono) auto
    also have "\<dots> \<le> length out" using card_length [of "dkeys out"] by (simp add: dkeys_def)
    finally have "card (set (dkeys out) - set (dkeys (tj_indices st))) \<le> Suc (length out)" by simp
    then show "\<exists>s'. (if n \<notin> set (dkeys (tj_indices st)) then tj_visit (Suc (length out)) out n st
        else Inr st) = Inr s' \<and> True"
      using tj_visit_total [OF assms n, of st "Suc (length out)"] by auto
  qed simp
  then show ?thesis by (auto simp: cyclic_components_def)
qed

end
