(* ===== verification/Graph_Validate.thy ===== *)
theory Graph_Validate
  imports Tarjan
begin

text \<open>
  \<open>GraphManifest.validate\<close> (\<open>src/vloop/graph.py\<close>): the static checks of a graph, one
  definition per loop of the method, each returning the error texts it appends. Python iterates
  over the set of node identities in an arbitrary order where the model uses the order of the
  nodes; only the order of the cycle errors depends on it.
\<close>

definition concat_res :: "('a \<Rightarrow> 'b list res) \<Rightarrow> 'a list \<Rightarrow> 'b list res" where
  "concat_res f xs = bnd (map_res f xs) (\<lambda>ess. Inr (concat ess))"

lemma concat_res_Nil: "concat_res f xs = Inr [] \<longleftrightarrow> (\<forall>x \<in> set xs. f x = Inr [])"
proof (induction xs)
  case Nil
  show ?case by (simp add: concat_res_def)
next
  case (Cons x xs)
  then show ?case by (cases "f x"; cases "map_res f xs") (auto simp: concat_res_def)
qed

definition err_if :: "bool \<Rightarrow> string \<Rightarrow> string list" where
  "err_if b msg = (if b then [msg] else [])"

lemma err_if_Nil [simp]: "err_if b msg = [] \<longleftrightarrow> \<not> b"
  by (simp add: err_if_def)

section \<open>Edges\<close>

definition port_named :: "node_port list \<Rightarrow> string \<Rightarrow> node_port option" where
  "port_named ports name = dget (map (\<lambda>p. (port_name p, p)) (rev ports)) name"

definition edge_text :: "graph_edge \<Rightarrow> string" where
  "edge_text e = ''edge '' @ ed_source e @ ''->'' @ ed_target e"

definition edge_errors :: "graph_manifest \<Rightarrow> graph_edge \<Rightarrow> string list" where
  "edge_errors g e =
     (case (by_id g (ed_source e), by_id g (ed_target e)) of
        (Some source, Some target) \<Rightarrow>
          err_if (\<not> edge_pair_is_valid (nd_type source) (ed_type e) (nd_type target))
            (''edge '' @ edge_type_value (ed_type e) @ '' is invalid for ''
             @ node_type_value (nd_type source) @ ''->'' @ node_type_value (nd_type target))
          @ (if ed_source_port e = [] then []
             else case (port_named (nd_output_ports source) (ed_source_port e),
                        port_named (nd_input_ports target) (ed_target_port e)) of
               (Some p, Some q) \<Rightarrow> err_if (port_schema_digest p \<noteq> port_schema_digest q)
                  (edge_text e @ '' joins incompatible port schemas'')
             | _ \<Rightarrow> [edge_text e @ '' names an unknown port''])
      | _ \<Rightarrow> [edge_text e @ '' refers to an unknown node''])"

section \<open>Reachability\<close>

definition entries :: "graph_manifest \<Rightarrow> string list" where
  "entries g = filter (\<lambda>i. incoming g i = []) (node_ids g)"

definition liveness_errors :: "graph_manifest \<Rightarrow> string list \<Rightarrow> graph_node \<Rightarrow> string list" where
  "liveness_errors g reachable n =
     err_if (nd_id n \<notin> set reachable) (''node '' @ repr_str (nd_id n) @ '' is unreachable'')
     @ err_if (nd_id n \<in> set reachable \<and> outgoing g (nd_id n) = [] \<and> nd_effect n \<noteq> ''terminal''
         \<and> nd_effect n \<noteq> ''side-effect'' \<and> dget (nd_metadata n) ''terminal'' \<noteq> Some ''true'')
       (''reachable node '' @ repr_str (nd_id n) @ '' has no successor or terminal declaration'')"

section \<open>Authority, recovery and acceptance\<close>

definition meta_is :: "graph_node \<Rightarrow> string \<Rightarrow> string \<Rightarrow> bool" where
  "meta_is n k v \<longleftrightarrow> dget (nd_metadata n) k = Some v"

text \<open>The guards that the nodes of a join provide: \<open>by_id[...]\<close> raises on an unknown one.\<close>

definition guard_of :: "graph_manifest \<Rightarrow> string \<Rightarrow> string res" where
  "guard_of g i = (case by_id g i of None \<Rightarrow> Inl (KeyError, repr_str i)
     | Some n \<Rightarrow> Inr (meta (nd_metadata n) ''guard''))"

definition accept_errors :: "graph_manifest \<Rightarrow> graph_node \<Rightarrow> string list res" where
  "accept_errors g n =
     (if nd_required_guards n = [] then Inr [''accept decision has no completion requirements'']
      else let barrier = filter (\<lambda>e. ed_type e = SATISFIES \<and> type_of g (ed_source e) = Some N_JOIN)
                                (incoming g (nd_id n)) in
        case barrier of
          [b] \<Rightarrow>
            (case find (\<lambda>j. join_node_id j = ed_source b) (gm_joins g) of
               None \<Rightarrow> Inr [''accept decision requires an ALL guard join'']
             | Some j \<Rightarrow>
                 if join_policy j \<noteq> ALL_J then Inr [''accept decision requires an ALL guard join'']
                 else bnd (map_res (guard_of g) (join_predecessors j)) (\<lambda>actual.
                   let missing = filter (\<lambda>r. r \<notin> set actual) (nd_required_guards n) in
                   bnd (reachable_without g (entries g) (nd_id n) (join_predecessors j)) (\<lambda>without.
                     Inr (err_if (missing \<noteq> [])
                            (''accept decision lacks criterion edges for: '' @ py_sorted_strs missing)
                          @ err_if without ''accept decision is reachable without completion criteria''))))
        | _ \<Rightarrow> Inr [''accept decision needs exactly one explicit guard join''])"

definition authority_errors :: "graph_manifest \<Rightarrow> graph_node \<Rightarrow> string list res" where
  "authority_errors g n =
     (let i = nd_id n; side = (nd_effect n = ''side-effect'') in
      bnd (if side then has_capability_path g i else Inr True) (\<lambda>capability.
      bnd (if side then reaches_recovery g i else Inr True) (\<lambda>recovery.
      bnd (if meta_is n ''approval_required'' ''true'' then has_approval_path g i else Inr True) (\<lambda>approval.
      bnd (if meta_is n ''human_control'' ''required'' then reaches_human_exit g i else Inr True) (\<lambda>human.
      bnd (if nd_type n = N_DECISION \<and> i = ''decision.accept'' then accept_errors g n else Inr []) (\<lambda>accept.
        Inr (err_if (side \<and> \<not> list_ex (\<lambda>e. ed_type e = AUTHORISED_BY \<or> ed_type e = DISPATCHED_TO) (incoming g i))
               (''side-effect node '' @ repr_str i @ '' has no authority edge'')
             @ err_if (\<not> capability) (''side-effect node '' @ repr_str i @ '' has no capability authority path'')
             @ err_if (\<not> recovery) (''side-effect node '' @ repr_str i @ '' has no reconciliation path'')
             @ err_if (\<not> approval) (''approval-required node '' @ repr_str i @ '' has no approval authority path'')
             @ err_if (\<not> human) (''human-controlled node '' @ repr_str i @ '' has no escalation or cancellation path'')
             @ accept)))))))"

section \<open>Joins, cycles, trust and memory\<close>

definition join_errors :: "graph_manifest \<Rightarrow> graph_join \<Rightarrow> string list" where
  "join_errors g j =
     (if type_of g (join_node_id j) \<noteq> Some N_JOIN
      then [''join '' @ repr_str (join_node_id j) @ '' does not name a join node'']
      else err_if (set (map ed_source (filter (\<lambda>e. ed_type e = SATISFIES) (incoming g (join_node_id j))))
                   \<noteq> set (join_predecessors j))
        (''join '' @ repr_str (join_node_id j) @ '' does not have its declared predecessor edges''))"

definition node_at :: "graph_manifest \<Rightarrow> (graph_node \<Rightarrow> bool) \<Rightarrow> string \<Rightarrow> bool" where
  "node_at g p i = (case by_id g i of None \<Rightarrow> False | Some n \<Rightarrow> p n)"

definition cycle_errors :: "graph_manifest \<Rightarrow> string list \<Rightarrow> string list" where
  "cycle_errors g component =
     (let has_budget = list_all (node_at g (\<lambda>n. nd_budget n \<noteq> None)) component;
          has_timeout = list_all (node_at g (\<lambda>n. nd_timeout_seconds n \<noteq> None)) component;
          has_escalation = list_ex (\<lambda>i. list_ex (\<lambda>e. ed_type e = ESCALATES_TO
             \<and> ed_target e \<notin> set component) (outgoing g i)) component
      in err_if (\<not> has_budget \<or> \<not> has_timeout \<or> \<not> has_escalation)
        (''cycle requires a budget, timeout, and escalation edge: '' @ join '', '' (sort component)))"

definition trust_errors :: "graph_manifest \<Rightarrow> graph_node \<Rightarrow> string list res" where
  "trust_errors g n =
     (if \<not> meta_is n ''trust'' ''untrusted'' then Inr []
      else concat_res (\<lambda>ty. bnd (reaches_type g (nd_id n) ty) (\<lambda>b.
        Inr (err_if b (''untrusted node '' @ repr_str (nd_id n) @ '' can influence an authority node''))))
        [N_APPROVAL, N_CAPABILITY])"

definition memory_errors :: "graph_manifest \<Rightarrow> graph_node \<Rightarrow> string list" where
  "memory_errors g n =
     (if nd_type n \<noteq> N_MEMORY \<or> nd_authority n = [] then []
      else let origins = map (\<lambda>e. by_id g (ed_source e))
                             (filter (\<lambda>e. ed_type e = DERIVED_FROM) (incoming g (nd_id n))) in
        if origins = []
        then [''memory node '' @ repr_str (nd_id n) @ '' with authority has no provenance origin'']
        else let numbers = map (\<lambda>o'. Option.bind o' (\<lambda>m. py_int (nd_authority m))) origins in
          case py_int (nd_authority n) of
            None \<Rightarrow> [''memory authority for '' @ repr_str (nd_id n) @ '' and its origins must be numeric'']
          | Some a \<Rightarrow>
              if None \<in> set numbers
              then [''memory authority for '' @ repr_str (nd_id n) @ '' and its origins must be numeric'']
              else err_if (list_ex (\<lambda>x. case x of None \<Rightarrow> False | Some b \<Rightarrow> a > b) numbers)
                (''memory node '' @ repr_str (nd_id n) @ '' exceeds its origin authority''))"

section \<open>The whole check\<close>

definition validate :: "graph_manifest \<Rightarrow> string list res" where
  "validate g =
     bnd (reachable_from g (entries g)) (\<lambda>reachable.
     bnd (concat_res (authority_errors g) (gm_nodes g)) (\<lambda>authority.
     bnd (cyclic_components (targets g)) (\<lambda>components.
     bnd (concat_res (trust_errors g) (gm_nodes g)) (\<lambda>trust.
       Inr (err_if (\<not> distinct (map nd_id (gm_nodes g))) ''node identities are not unique''
            @ concat (map (edge_errors g) (gm_edges g))
            @ err_if (entries g = []) ''graph has no entry node''
            @ concat (map (liveness_errors g reachable) (gm_nodes g))
            @ authority
            @ concat (map (join_errors g) (gm_joins g))
            @ concat (map (cycle_errors g) components)
            @ trust
            @ concat (map (memory_errors g) (gm_nodes g)))))))"

text \<open>\<open>graph.validate().require_valid()\<close>.\<close>

definition require_valid :: "graph_manifest \<Rightarrow> unit res" where
  "require_valid g = bnd (validate g) (\<lambda>errors.
     if errors \<noteq> [] then Inl (ValueError, ''invalid V-Loop graph: '' @ join ''; '' errors) else Inr ())"

end
