(* ===== verification/Graph_Valid.thy ===== *)
theory Graph_Valid
  imports Graph_Validate
begin

text \<open>
  What a graph accepted by \<open>validate\<close> guarantees, stated over paths of its edges: authority and
  recovery of effects, the isolation of untrusted nodes, and the barrier before acceptance.
\<close>

section \<open>Searches and paths\<close>

definition edge_rel :: "(graph_edge \<Rightarrow> bool) \<Rightarrow> graph_manifest \<Rightarrow> (string \<times> string) set" where
  "edge_rel P g = {(ed_source e, ed_target e) | e. e \<in> set (gm_edges g) \<and> P e}"

abbreviation path_rel :: "graph_manifest \<Rightarrow> (string \<times> string) set" where
  "path_rel g \<equiv> edge_rel (\<lambda>_. True) g"

abbreviation authority_rel :: "graph_manifest \<Rightarrow> (string \<times> string) set" where
  "authority_rel g \<equiv> edge_rel (\<lambda>e. ed_type e = AUTHORISED_BY \<or> ed_type e = DISPATCHED_TO) g"

definition edges_inside :: "graph_manifest \<Rightarrow> bool" where
  "edges_inside g \<longleftrightarrow> (\<forall>e \<in> set (gm_edges g). ed_source e \<in> set (node_ids g) \<and> ed_target e \<in> set (node_ids g))"

lemma known_edges_inside: "edges_inside g \<Longrightarrow> known_edges g = gm_edges g"
  unfolding known_edges_def edges_inside_def by (rule filter_True) simp

lemma reach_rtrancl:
  "reach nbr skip starts =
    {(x, y). \<exists>ts. dget nbr x = Some ts \<and> y \<in> set ts \<and> \<not> skip y}\<^sup>* `` {s \<in> starts. \<not> skip s}" (is "_ = ?R\<^sup>* `` ?S")
proof
  show "reach nbr skip starts \<subseteq> ?R\<^sup>* `` ?S"
  proof
    fix x assume "x \<in> reach nbr skip starts"
    then show "x \<in> ?R\<^sup>* `` ?S"
    proof induction
      case (step x ts y)
      then have "(x, y) \<in> ?R" by blast
      with step show ?case by (meson Image_iff rtrancl.rtrancl_into_rtrancl)
    qed blast
  qed
  show "?R\<^sup>* `` ?S \<subseteq> reach nbr skip starts"
  proof
    fix y assume "y \<in> ?R\<^sup>* `` ?S"
    then obtain x where "(x, y) \<in> ?R\<^sup>*" "x \<in> ?S" by blast
    then show "y \<in> reach nbr skip starts"
      by (induction rule: rtrancl_induct) (auto intro: reach.intros)
  qed
qed

lemma targets_step:
  assumes "edges_inside g"
  shows "(\<exists>ts. dget (targets g) x = Some ts \<and> y \<in> set ts) \<longleftrightarrow> (x, y) \<in> path_rel g"
  using assms unfolding targets_def edge_rel_def outgoing_def
  by (auto simp: known_edges_inside) (auto simp: edges_inside_def)

lemma sources_step:
  assumes "edges_inside g"
  shows "(\<exists>ts. dget (sources tys g) x = Some ts \<and> y \<in> set ts) \<longleftrightarrow> (y, x) \<in> edge_rel (\<lambda>e. ed_type e \<in> set tys) g"
  using assms unfolding sources_def edge_rel_def incoming_def
  by (auto simp: known_edges_inside) (auto simp: edges_inside_def)

lemma reach_targets:
  assumes "edges_inside g"
  shows "reach (targets g) (\<lambda>_. False) starts = (path_rel g)\<^sup>* `` starts"
  by (simp add: reach_rtrancl targets_step [OF assms])

lemma reach_sources:
  assumes "edges_inside g"
  shows "reach (sources tys g) (\<lambda>_. False) {s} = {c. (c, s) \<in> (edge_rel (\<lambda>e. ed_type e \<in> set tys) g)\<^sup>*}"
proof -
  have "{(x, y). \<exists>ts. dget (sources tys g) x = Some ts \<and> y \<in> set ts}
      = (edge_rel (\<lambda>e. ed_type e \<in> set tys) g)\<inverse>"
    using sources_step [OF assms] by auto
  then show ?thesis by (auto simp: reach_rtrancl rtrancl_converse)
qed

lemma search_defs:
  assumes "i \<in> set (node_ids g)"
  shows "has_capability_path g i = Inr (\<exists>x \<in> reach (sources [AUTHORISED_BY, DISPATCHED_TO] g) (\<lambda>_. False) {i}.
           x \<noteq> i \<and> type_of g x = Some N_CAPABILITY)"
    and "has_approval_path g i = Inr (\<exists>x \<in> reach (sources [AUTHORISED_BY] g) (\<lambda>_. False) {i}.
           x \<noteq> i \<and> type_of g x = Some N_APPROVAL)"
    and "reaches_human_exit g i = Inr (\<exists>x \<in> reach (targets g) (\<lambda>_. False) {i}.
           x \<noteq> i \<and> type_of g x = Some N_DECISION \<and> (endswith x ''escalate'' \<or> endswith x ''cancel''))"
    and "reaches_recovery g i = Inr (\<exists>x \<in> reach (targets g) (\<lambda>_. False) {i}. is_recovery g x)"
    and "reaches_type g i ty = Inr (\<exists>x \<in> reach (targets g) (\<lambda>_. False) {i}.
           x \<noteq> i \<and> type_of g x = Some ty)"
  using assms
  unfolding has_capability_path_def has_approval_path_def reaches_human_exit_def
    reaches_recovery_def reaches_type_def
  by (simp_all add: found_worklist)

lemma reachable_without_spec:
  "reachable_without g starts target excluded = Inr (target \<in>
     reach (targets g) (\<lambda>n. n \<in> set excluded) (set starts - set excluded))"
  if "set starts \<subseteq> set (node_ids g)"
proof -
  have "{x \<in> set starts. x \<notin> set excluded} = set starts - set excluded" by auto
  then show ?thesis
    unfolding reachable_without_def using that by (subst found_worklist) auto
qed

lemma reachable_from_spec:
  assumes "set starts \<subseteq> set (node_ids g)"
  shows "\<exists>seen. reachable_from g starts = Inr seen
    \<and> set seen = reach (targets g) (\<lambda>_. False) (set starts)"
  using worklist_correct [of "targets g" "rev starts" "\<lambda>_. False" "\<lambda>_. False"] assms
  by (auto simp: reachable_from_def)

lemma entries_nodes: "set (entries g) \<subseteq> set (node_ids g)"
  by (auto simp: entries_def)

lemma node_in_ids: "n \<in> set (gm_nodes g) \<Longrightarrow> nd_id n \<in> set (node_ids g)"
  by (simp add: node_ids_def)

section \<open>\<open>validate\<close> always returns\<close>

lemma concat_res_total: "(\<forall>x \<in> set xs. \<exists>y. f x = Inr y) \<Longrightarrow> \<exists>ys. concat_res f xs = Inr ys"
proof (induction xs)
  case Nil
  show ?case by (simp add: concat_res_def)
next
  case (Cons x xs)
  then show ?case by (cases "f x"; cases "map_res f xs") (auto simp: concat_res_def)
qed

lemma map_res_total: "(\<forall>x \<in> set xs. \<exists>y. f x = Inr y) \<Longrightarrow> \<exists>ys. map_res f xs = Inr ys"
  by (induction xs) auto

lemma accept_errors_total:
  assumes "\<forall>j \<in> set (gm_joins g). set (join_predecessors j) \<subseteq> set (node_ids g)"
  shows "\<exists>es. accept_errors g n = Inr es"
proof -
  have "\<exists>ys. map_res (guard_of g) (join_predecessors j) = Inr ys" if "j \<in> set (gm_joins g)" for j
  proof (rule map_res_total, rule ballI)
    fix x assume "x \<in> set (join_predecessors j)"
    then have "by_id g x \<noteq> None" using assms that by (auto simp: by_id_None)
    then show "\<exists>y. guard_of g x = Inr y" by (auto simp: guard_of_def)
  qed
  moreover have "\<exists>b. reachable_without g (entries g) x ys = Inr b" for x ys
    using reachable_without_spec [OF entries_nodes] by blast
  ultimately show ?thesis
    unfolding accept_errors_def Let_def
    by (simp split: list.split option.split add: find_Some_iff) (fastforce intro!: bnd_total)
qed

lemma authority_errors_total:
  assumes "\<forall>j \<in> set (gm_joins g). set (join_predecessors j) \<subseteq> set (node_ids g)" "n \<in> set (gm_nodes g)"
  shows "\<exists>es. authority_errors g n = Inr es"
  unfolding authority_errors_def Let_def
  by (intro bnd_total Inr_total)
    (use accept_errors_total [OF assms(1), of n] node_in_ids [OF assms(2)] in \<open>auto simp: search_defs\<close>)

text \<open>C11: the static check always returns a list of errors, for every graph, as long as the joins
  name existing nodes: all its searches terminate and never read a missing node.\<close>

theorem validate_total:
  assumes "\<forall>j \<in> set (gm_joins g). set (join_predecessors j) \<subseteq> set (node_ids g)"
  shows "\<exists>errors. validate g = Inr errors"
proof -
  obtain r where r: "reachable_from g (entries g) = Inr r"
    using reachable_from_spec [OF entries_nodes] by blast
  obtain a where a: "concat_res (authority_errors g) (gm_nodes g) = Inr a"
    using concat_res_total [of "gm_nodes g" "authority_errors g"] authority_errors_total [OF assms] by blast
  obtain c where c: "cyclic_components (targets g) = Inr c"
    using cyclic_components_total [of "targets g"] by auto
  have "\<exists>t. trust_errors g n = Inr t" if "n \<in> set (gm_nodes g)" for n
  proof (cases "meta_is n ''trust'' ''untrusted''")
    case True
    show ?thesis unfolding trust_errors_def
      by (simp only: True not_True_eq_False if_False, rule concat_res_total, rule ballI)
        (simp only: search_defs(5) [OF node_in_ids [OF that]] bnd_simps Inr_total)
  qed (simp add: trust_errors_def)
  then obtain t where t: "concat_res (trust_errors g) (gm_nodes g) = Inr t"
    using concat_res_total [of "gm_nodes g" "trust_errors g"] by blast
  show ?thesis unfolding validate_def r a c t bnd_simps by (rule Inr_total)
qed

section \<open>What acceptance guarantees\<close>

definition valid_graph :: "graph_manifest \<Rightarrow> bool" where
  "valid_graph g \<longleftrightarrow> validate g = Inr []"

lemma valid_graphD:
  assumes "valid_graph g"
  shows "distinct (map nd_id (gm_nodes g))"
    and "e \<in> set (gm_edges g) \<Longrightarrow> edge_errors g e = []"
    and "n \<in> set (gm_nodes g) \<Longrightarrow> authority_errors g n = Inr []"
    and "n \<in> set (gm_nodes g) \<Longrightarrow> trust_errors g n = Inr []"
    and "j \<in> set (gm_joins g) \<Longrightarrow> join_errors g j = []"
    and "n \<in> set (gm_nodes g) \<Longrightarrow> memory_errors g n = []"
    and "\<exists>r. reachable_from g (entries g) = Inr r \<and> (\<forall>n \<in> set (gm_nodes g). liveness_errors g r n = [])"
    and "\<exists>cs. cyclic_components (targets g) = Inr cs \<and> (\<forall>c \<in> set cs. cycle_errors g c = [])"
  using assms unfolding valid_graph_def validate_def bnd_eq_Inr
  by (simp_all add: concat_res_Nil) (auto simp only: concat_res_Nil Ball_def)

lemma valid_graph_inside:
  assumes "valid_graph g"
  shows "edges_inside g"
  unfolding edges_inside_def
proof (rule ballI)
  fix e assume "e \<in> set (gm_edges g)"
  then have "edge_errors g e = []" by (rule valid_graphD(2) [OF assms])
  then show "ed_source e \<in> set (node_ids g) \<and> ed_target e \<in> set (node_ids g)"
    unfolding edge_errors_def using by_id_None [of g "ed_source e"] by_id_None [of g "ed_target e"]
    by (cases "by_id g (ed_source e)"; cases "by_id g (ed_target e)") simp_all
qed

lemma if_Inr_True: "(if b then Inr x else Inr True) = Inr y \<longleftrightarrow> y = (b \<longrightarrow> x)"
  by auto

lemma authority_errors_Nil:
  assumes "n \<in> set (gm_nodes g)" "authority_errors g n = Inr []"
  shows "nd_effect n = ''side-effect'' \<Longrightarrow>
      has_capability_path g (nd_id n) = Inr True \<and> reaches_recovery g (nd_id n) = Inr True"
    and "meta_is n ''approval_required'' ''true'' \<Longrightarrow> has_approval_path g (nd_id n) = Inr True"
    and "meta_is n ''human_control'' ''required'' \<Longrightarrow> reaches_human_exit g (nd_id n) = Inr True"
    and "nd_type n = N_DECISION \<Longrightarrow> nd_id n = ''decision.accept'' \<Longrightarrow> accept_errors g n = Inr []"
  using assms(2) search_defs [OF node_in_ids [OF assms(1)]] unfolding authority_errors_def Let_def
  by (simp_all only: if_Inr_True bnd_eq_Inr append_is_Nil_conv err_if_Nil sum.inject)
    (auto simp only: simp_thms if_True append_is_Nil_conv err_if_Nil)

text \<open>C10: in a graph that passes the static check every node with a side effect is authorised
  by a different capability node through a chain of authorisation and dispatch edges, and leads to
  a recovery operation, so that its outcome can be reconciled.\<close>

theorem valid_effects:
  assumes "valid_graph g" "n \<in> set (gm_nodes g)" "nd_effect n = ''side-effect''"
  shows "(\<exists>c. c \<noteq> nd_id n \<and> type_of g c = Some N_CAPABILITY \<and> (c, nd_id n) \<in> (authority_rel g)\<^sup>*)
    \<and> (\<exists>r. is_recovery g r \<and> (nd_id n, r) \<in> (path_rel g)\<^sup>*)"
proof -
  note inside = valid_graph_inside [OF assms(1)]
  note paths = authority_errors_Nil(1) [OF assms(2) valid_graphD(3) [OF assms(1,2)] assms(3)]
  show ?thesis
    using paths unfolding search_defs [OF node_in_ids [OF assms(2)]] reach_targets [OF inside]
      reach_sources [OF inside] by auto
qed

text \<open>In a graph that passes the static check no approval node and no capability node, other
  than the node itself, can be reached from a node marked untrusted.\<close>

theorem valid_untrusted:
  assumes "valid_graph g" "n \<in> set (gm_nodes g)" "meta_is n ''trust'' ''untrusted''"
    and "(nd_id n, m) \<in> (path_rel g)\<^sup>*" "m \<noteq> nd_id n"
  shows "type_of g m \<noteq> Some N_APPROVAL \<and> type_of g m \<noteq> Some N_CAPABILITY"
proof -
  have "\<not> (\<exists>x \<in> reach (targets g) (\<lambda>_. False) {nd_id n}. x \<noteq> nd_id n \<and> type_of g x = Some ty)"
    if "ty \<in> {N_APPROVAL, N_CAPABILITY}" for ty
    using valid_graphD(4) [OF assms(1,2)] assms(3) that node_in_ids [OF assms(2)]
    unfolding trust_errors_def concat_res_Nil
    by (auto simp only: search_defs(5) bnd_simps err_if_Nil sum.inject concat_res_Nil list.set if_False
        not_True_eq_False insert_iff empty_iff simp_thms)
  then show ?thesis
    using assms(4,5) unfolding reach_targets [OF valid_graph_inside [OF assms(1)]] by blast
qed

text \<open>In a graph that passes the static check the node \<open>decision.accept\<close> is entered
  through a join that waits for all of its predecessors; these carry all guards the decision
  requires, and every path from an entry of the graph to the decision passes through one of them.\<close>

lemma valid_accept:
  assumes "valid_graph g" "n \<in> set (gm_nodes g)" "nd_type n = N_DECISION" "nd_id n = ''decision.accept''"
  shows "\<exists>j \<in> set (gm_joins g). join_policy j = ALL_J \<and> (join_node_id j, nd_id n) \<in> path_rel g
    \<and> (\<forall>r \<in> set (nd_required_guards n). \<exists>p \<in> set (join_predecessors j). guard_of g p = Inr r)
    \<and> nd_id n \<notin> {(x, y) \<in> path_rel g. y \<notin> set (join_predecessors j)}\<^sup>*
        `` (set (entries g) - set (join_predecessors j))"
proof -
  note inside = valid_graph_inside [OF assms(1)]
  have acc: "accept_errors g n = Inr []"
    by (rule authority_errors_Nil(4) [OF assms(2) valid_graphD(3) [OF assms(1,2)] assms(3,4)])
  then have "nd_required_guards n \<noteq> []" by (auto simp: accept_errors_def)
  then obtain b bs where b: "filter (\<lambda>e. ed_type e = SATISFIES \<and> type_of g (ed_source e) = Some N_JOIN)
      (incoming g (nd_id n)) = [b]"
    using acc unfolding accept_errors_def Let_def by (auto split: list.splits)
  have b_in: "b \<in> set (incoming g (nd_id n))" using arg_cong [OF b, of set] by auto
  obtain j actual where j: "find (\<lambda>j. join_node_id j = ed_source b) (gm_joins g) = Some j"
    "join_policy j = ALL_J" "map_res (guard_of g) (join_predecessors j) = Inr actual"
    "set (nd_required_guards n) \<subseteq> set actual"
    "nd_id n \<notin> reach (targets g) (\<lambda>n. n \<in> set (join_predecessors j)) (set (entries g) - set (join_predecessors j))"
    using acc \<open>nd_required_guards n \<noteq> []\<close> unfolding accept_errors_def Let_def b
    by (auto simp: bnd_eq_Inr reachable_without_spec [OF entries_nodes] filter_empty_conv
        split: option.splits if_splits)
  have j_in: "j \<in> set (gm_joins g)" "join_node_id j = ed_source b"
    using j(1) by (auto simp: find_Some_iff)
  have "(join_node_id j, nd_id n) \<in> path_rel g"
    using edges_known(1) [OF b_in] j_in by (auto simp: edge_rel_def)
  moreover have "\<exists>p \<in> set (join_predecessors j). guard_of g p = Inr r" if r: "r \<in> set (nd_required_guards n)" for r
  proof -
    have all: "list_all2 (\<lambda>x y. guard_of g x = Inr y) (join_predecessors j) actual"
      using j(3) by (simp add: map_res_all)
    obtain i where "i < length actual" "actual ! i = r"
      using subsetD [OF j(4) r] by (auto simp: in_set_conv_nth)
    then show ?thesis using list_all2_nthD2 [OF all] list_all2_lengthD [OF all] by force
  qed
  moreover have "nd_id n \<notin> {(x, y) \<in> path_rel g. y \<notin> set (join_predecessors j)}\<^sup>*
        `` (set (entries g) - set (join_predecessors j))"
  proof -
    have "{(x, y). \<exists>ts. dget (targets g) x = Some ts \<and> y \<in> set ts \<and> y \<notin> set (join_predecessors j)}
        = {(x, y) \<in> path_rel g. y \<notin> set (join_predecessors j)}"
      using targets_step [OF inside] by auto
    moreover have "{s \<in> set (entries g) - set (join_predecessors j). s \<notin> set (join_predecessors j)}
        = set (entries g) - set (join_predecessors j)" by blast
    ultimately show ?thesis using j(5) unfolding reach_rtrancl by simp
  qed
  ultimately show ?thesis using j(2) j_in(1) by blast
qed

section \<open>An accepted graph\<close>

definition sample_graph :: graph_manifest where
  "sample_graph = \<lparr>gm_graph_id = ''g'', gm_schema_version = 1, gm_contract_digest = replicate 64 (CHR ''0''),
     gm_profile_digest = replicate 64 (CHR ''0''),
     gm_nodes = [graph_node ''t'' N_TASK, graph_node ''c'' N_CAPABILITY, graph_node ''o'' N_OPERATION,
       (graph_node ''x'' N_EXECUTOR)\<lparr>nd_effect := ''side-effect'', nd_authority := ''c''\<rparr>,
       (graph_node ''r'' N_OPERATION)\<lparr>nd_metadata := [(''recovery'', ''true''), (''terminal'', ''true'')]\<rparr>,
       (graph_node ''u'' N_CONTEXT)\<lparr>nd_metadata := [(''trust'', ''untrusted'')]\<rparr>,
       (graph_node ''k'' N_CRITERION)\<lparr>nd_metadata := [(''guard'', ''ok'')]\<rparr>, graph_node ''j'' N_JOIN,
       (graph_node ''decision.accept'' N_DECISION)\<lparr>nd_effect := ''terminal'', nd_required_guards := [''ok'']\<rparr>],
     gm_edges = [graph_edge ''t'' ''c'' DEPENDS_ON, graph_edge ''c'' ''o'' AUTHORISED_BY,
       graph_edge ''o'' ''x'' DISPATCHED_TO, graph_edge ''x'' ''r'' RECONCILES,
       graph_edge ''t'' ''k'' DEPENDS_ON, graph_edge ''k'' ''j'' SATISFIES,
       graph_edge ''j'' ''decision.accept'' SATISFIES, graph_edge ''t'' ''u'' DEPENDS_ON,
       graph_edge ''u'' ''k'' DERIVED_FROM],
     gm_compiler_version = ''v'', gm_metadata = [],
     gm_joins = [\<lparr>join_node_id = ''j'', join_predecessors = [''k''], join_policy = ALL_J, join_threshold = None\<rparr>]\<rparr>"

lemma sample_graph_valid: "valid_graph sample_graph"
  by code_simp

lemma sample_node:
  assumes "i < 9"
  shows "gm_nodes sample_graph ! i \<in> set (gm_nodes sample_graph)"
  using assms by (intro nth_mem) (simp add: sample_graph_def)

theorem validate_total_witness: "\<exists>errors. validate sample_graph = Inr errors"
  by (rule validate_total) (simp add: sample_graph_def node_ids_def graph_node_def)

theorem valid_effects_witness:
  "(\<exists>c. c \<noteq> ''x'' \<and> type_of sample_graph c = Some N_CAPABILITY \<and> (c, ''x'') \<in> (authority_rel sample_graph)\<^sup>*)
    \<and> (\<exists>r. is_recovery sample_graph r \<and> (''x'', r) \<in> (path_rel sample_graph)\<^sup>*)"
  using valid_effects [OF sample_graph_valid sample_node [of 3]]
  by (simp add: sample_graph_def graph_node_def)

theorem valid_untrusted_witness:
  "type_of sample_graph ''k'' \<noteq> Some N_APPROVAL \<and> type_of sample_graph ''k'' \<noteq> Some N_CAPABILITY"
proof (rule valid_untrusted [OF sample_graph_valid sample_node [of 5]])
  show "(nd_id (gm_nodes sample_graph ! 5), ''k'') \<in> (path_rel sample_graph)\<^sup>*"
    unfolding edge_rel_def
    by (rule r_into_rtrancl, rule CollectI, rule exI [of _ "gm_edges sample_graph ! 8"])
      (simp add: sample_graph_def graph_node_def graph_edge_def)
qed (simp_all add: sample_graph_def graph_node_def meta_is_def dget_def)

lemma valid_accept_sample:
  "\<exists>j \<in> set (gm_joins sample_graph). join_policy j = ALL_J
    \<and> (join_node_id j, ''decision.accept'') \<in> path_rel sample_graph
    \<and> (\<forall>r \<in> {''ok''}. \<exists>p \<in> set (join_predecessors j). guard_of sample_graph p = Inr r)
    \<and> ''decision.accept'' \<notin> {(x, y) \<in> path_rel sample_graph. y \<notin> set (join_predecessors j)}\<^sup>*
        `` (set (entries sample_graph) - set (join_predecessors j))"
  using valid_accept [OF sample_graph_valid sample_node [of 8]]
  by (simp add: sample_graph_def graph_node_def)

end
