(* ===== verification/Monitor.thy ===== *)
theory Monitor
  imports Graph_Valid
begin

text \<open>
  \<open>src/vloop/graph_monitor.py\<close>: the transition monitor that decides which nodes of a compiled
  graph may be reserved, completed or advanced. Its steps form an inductive relation; every
  reachable state justifies each of its nodes by completed predecessors whose recorded events
  satisfy the edge conditions.
\<close>

section \<open>State and edge conditions\<close>

record transition_state =
  ts_iteration :: int
  ts_completed :: "string set"
  ts_events :: "(string \<times> pydict) list"
  ts_started :: "(string \<times> pydict) list"

record monitor =
  mon_manifest :: graph_manifest
  mon_joins :: "graph_join list"

text \<open>\<open>value in {False, "indeterminate"}\<close>; \<open>0\<close> and \<open>0.0\<close> equal \<open>False\<close>.\<close>

definition in_failure_set :: "pyval \<Rightarrow> bool res" where
  "in_failure_set v =
     (if \<not> hashable v then Inl (TypeError, ''unhashable type'')
      else Inr (case v of PBool b \<Rightarrow> \<not> b | PInt i \<Rightarrow> i = 0 | PFloat t \<Rightarrow> t = ''0.0'' \<or> t = ''-0.0''
                | PStr s \<Rightarrow> s = ''indeterminate'' | _ \<Rightarrow> False))"

definition condition_matches :: "graph_edge \<Rightarrow> (string \<times> pydict) list \<Rightarrow> pydict \<Rightarrow> bool res" where
  "condition_matches e events payload =
     (let source_payload = (case dget events (ed_source e) of Some p \<Rightarrow> p | None \<Rightarrow> payload) in
      bnd (if ed_condition e = [] then Inr True
           else if ed_condition e = ''execution.success''
           then Inr (dget source_payload ''success'' = Some (PBool True))
           else if ed_condition e = ''outcome-unknown-or-failed''
           then in_failure_set (str_opt (dget source_payload ''success''))
           else if ed_condition e = ''guard-pass''
           then Inr (dget source_payload ''passed'' = Some (PBool True))
           else Inr False)
        (\<lambda>legacy. Inr (legacy \<and> pred_evaluate (ed_predicate e) source_payload)))"

section \<open>The monitor\<close>

definition mon_nodes :: "monitor \<Rightarrow> string set" where
  "mon_nodes m = set (map nd_id (gm_nodes (mon_manifest m)))"

definition mon_incoming :: "monitor \<Rightarrow> string \<Rightarrow> graph_edge list" where
  "mon_incoming m n = filter (\<lambda>e. ed_target e = n) (gm_edges (mon_manifest m))"

text \<open>\<open>{join.node_id: join for join in joins}\<close>: the last join of a node wins.\<close>

definition mon_join :: "monitor \<Rightarrow> string \<Rightarrow> graph_join option" where
  "mon_join m n = dget (map (\<lambda>j. (join_node_id j, j)) (rev (mon_joins m))) n"

definition monitor_init :: "graph_manifest \<Rightarrow> graph_join list \<Rightarrow> monitor res" where
  "monitor_init g joins =
     bnd (require_valid g) (\<lambda>_.
       if list_ex (\<lambda>j. join_node_id j \<notin> set (map nd_id (gm_nodes g))) joins
       then Inl (ValueError, ''joins refer to nodes absent from the manifest'')
       else Inr \<lparr>mon_manifest = g, mon_joins = joins\<rparr>)"

definition initial_state :: "int \<Rightarrow> transition_state res" where
  "initial_state iteration =
     (if iteration < 1 then Inl (ValueError, ''graph iteration must be positive'')
      else Inr \<lparr>ts_iteration = iteration, ts_completed = {}, ts_events = [], ts_started = []\<rparr>)"

definition edge_satisfied :: "transition_state \<Rightarrow> pydict \<Rightarrow> graph_edge \<Rightarrow> bool res" where
  "edge_satisfied st payload e =
     (if ed_source e \<in> ts_completed st then condition_matches e (ts_events st) payload else Inr False)"

definition enabled :: "monitor \<Rightarrow> transition_state \<Rightarrow> string \<Rightarrow> pydict \<Rightarrow> bool res" where
  "enabled m st n payload =
     (if n \<notin> mon_nodes m \<or> n \<in> ts_completed st \<or> n \<in> set (dkeys (ts_started st)) then Inr False
      else case mon_join m n of
        Some j \<Rightarrow> bnd (filter_res (edge_satisfied st payload) (mon_incoming m n))
                   (\<lambda>es. Inr (satisfied_by j (set (map ed_source es))))
      | None \<Rightarrow>
          if mon_incoming m n = [] then Inr (ts_completed st = {})
          else all_res (edge_satisfied st payload) (mon_incoming m n))"

definition rejected :: "crypto \<Rightarrow> monitor \<Rightarrow> string \<Rightarrow> string \<Rightarrow> exc \<times> string" where
  "rejected cr m what n = (GraphTransitionRejected, what @ '' '' @ repr_str n
     @ '' is not enabled by graph '' @ graph_digest cr (mon_manifest m))"

definition completed_state :: "transition_state \<Rightarrow> string \<Rightarrow> pydict \<Rightarrow> transition_state" where
  "completed_state st n payload = st\<lparr>ts_completed := ts_completed st \<union> {n},
     ts_events := AList.update n payload (ts_events st), ts_started := ddel n (ts_started st)\<rparr>"

definition mon_advance :: "crypto \<Rightarrow> monitor \<Rightarrow> transition_state \<Rightarrow> string \<Rightarrow> pydict \<Rightarrow> transition_state res" where
  "mon_advance cr m st n payload =
     bnd (enabled m st n payload) (\<lambda>ok.
       if \<not> ok then Inl (rejected cr m ''transition to'' n) else Inr (completed_state st n payload))"

definition mon_reserve :: "crypto \<Rightarrow> monitor \<Rightarrow> transition_state \<Rightarrow> string \<Rightarrow> pydict \<Rightarrow> transition_state res" where
  "mon_reserve cr m st n payload =
     bnd (enabled m st n payload) (\<lambda>ok.
       if \<not> ok then Inl (rejected cr m ''reservation for'' n)
       else Inr (st\<lparr>ts_started := AList.update n payload (ts_started st)\<rparr>))"

definition mon_complete :: "transition_state \<Rightarrow> string \<Rightarrow> pydict \<Rightarrow> transition_state res" where
  "mon_complete st n payload =
     (if n \<notin> set (dkeys (ts_started st))
      then Inl (GraphTransitionRejected, ''completion for '' @ repr_str n @ '' has no enabled reservation'')
      else Inr (completed_state st n payload))"

section \<open>Runs of the monitor\<close>

inductive mon_step :: "crypto \<Rightarrow> monitor \<Rightarrow> transition_state \<Rightarrow> transition_state \<Rightarrow> bool" for cr m where
  advance: "mon_advance cr m st n payload = Inr st' \<Longrightarrow> mon_step cr m st st'"
| reserve: "mon_reserve cr m st n payload = Inr st' \<Longrightarrow> mon_step cr m st st'"
| complete: "mon_complete st n payload = Inr st' \<Longrightarrow> mon_step cr m st st'"

inductive_cases mon_stepE: "mon_step cr m st st'"

inductive mon_reachable :: "crypto \<Rightarrow> monitor \<Rightarrow> transition_state \<Rightarrow> bool" for cr m where
  init: "initial_state iteration = Inr st \<Longrightarrow> mon_reachable cr m st"
| step: "mon_reachable cr m st \<Longrightarrow> mon_step cr m st st' \<Longrightarrow> mon_reachable cr m st'"

text \<open>The prerequisites of a node hold of a state, whatever payload is offered.\<close>

definition edge_holds :: "transition_state \<Rightarrow> graph_edge \<Rightarrow> bool" where
  "edge_holds st e \<longleftrightarrow> ed_source e \<in> ts_completed st
     \<and> (\<forall>payload. condition_matches e (ts_events st) payload = Inr True)"

definition justified :: "monitor \<Rightarrow> transition_state \<Rightarrow> string \<Rightarrow> bool" where
  "justified m st n \<longleftrightarrow>
     (case mon_join m n of
        Some j \<Rightarrow> satisfied_by j {ed_source e | e. e \<in> set (mon_incoming m n) \<and> edge_holds st e}
      | None \<Rightarrow> \<forall>e \<in> set (mon_incoming m n). edge_holds st e)"

definition mon_inv :: "monitor \<Rightarrow> transition_state \<Rightarrow> bool" where
  "mon_inv m st \<longleftrightarrow>
     ts_completed st \<subseteq> mon_nodes m \<and> set (dkeys (ts_started st)) \<subseteq> mon_nodes m
     \<and> ts_completed st \<inter> set (dkeys (ts_started st)) = {}
     \<and> set (dkeys (ts_events st)) = ts_completed st
     \<and> (\<forall>n \<in> ts_completed st \<union> set (dkeys (ts_started st)). justified m st n)"

lemma completed_state_simps [simp]:
  "ts_completed (completed_state st n p) = insert n (ts_completed st)"
  "ts_events (completed_state st n p) = AList.update n p (ts_events st)"
  "ts_started (completed_state st n p) = ddel n (ts_started st)"
  "ts_iteration (completed_state st n p) = ts_iteration st"
  by (simp_all add: completed_state_def)

text \<open>A recorded event decides the condition: the offered payload is not consulted.\<close>

lemma condition_matches_recorded:
  "dget events (ed_source e) = Some p \<Longrightarrow> condition_matches e events payload = condition_matches e events payload'"
  by (simp add: condition_matches_def)

lemma condition_matches_events:
  "dget events (ed_source e) = dget events' (ed_source e)
    \<Longrightarrow> condition_matches e events payload = condition_matches e events' payload"
  by (simp add: condition_matches_def)

lemma edge_satisfied_holds:
  assumes "edge_satisfied st payload e = Inr True" "ts_completed st \<subseteq> set (dkeys (ts_events st))"
  shows "edge_holds st e"
proof -
  from assms(1) have c: "ed_source e \<in> ts_completed st" "condition_matches e (ts_events st) payload = Inr True"
    by (auto simp: edge_satisfied_def split: if_splits)
  then obtain p where "dget (ts_events st) (ed_source e) = Some p"
    using assms(2) dget_None_iff [of "ts_events st" "ed_source e"] by auto
  then show ?thesis
    unfolding edge_holds_def using c condition_matches_recorded [of "ts_events st" e p] by metis
qed

lemma enabled_justified:
  assumes "enabled m st n payload = Inr True" "ts_completed st \<subseteq> set (dkeys (ts_events st))"
    and "\<And>j. mon_join m n = Some j \<Longrightarrow> distinct (join_predecessors j)"
  shows "justified m st n \<and> n \<in> mon_nodes m \<and> n \<notin> ts_completed st \<and> n \<notin> set (dkeys (ts_started st))"
proof -
  have new: "n \<in> mon_nodes m" "n \<notin> ts_completed st" "n \<notin> set (dkeys (ts_started st))"
    using assms(1) by (auto simp: enabled_def split: if_splits)
  have "justified m st n"
  proof (cases "mon_join m n")
    case None
    then have "\<forall>e \<in> set (mon_incoming m n). edge_satisfied st payload e = Inr True"
      using assms(1) new by (auto simp: enabled_def all_res_True split: if_splits)
    then show ?thesis
      using None edge_satisfied_holds [OF _ assms(2)] by (auto simp: justified_def)
  next
    case (Some j)
    then obtain es where es: "filter_res (edge_satisfied st payload) (mon_incoming m n) = Inr es"
      "satisfied_by j (ed_source ` set es)"
      using assms(1) new by (auto simp: enabled_def bnd_eq_Inr)
    have "ed_source ` set es \<subseteq> {ed_source e | e. e \<in> set (mon_incoming m n) \<and> edge_holds st e}"
      using filter_res_set [OF es(1)] edge_satisfied_holds [OF _ assms(2)] by auto
    from satisfied_by_mono [OF es(2) this assms(3) [OF Some]] show ?thesis
      using Some by (simp add: justified_def)
  qed
  with new show ?thesis by simp
qed

section \<open>The invariant\<close>

definition joins_distinct :: "monitor \<Rightarrow> bool" where
  "joins_distinct m \<longleftrightarrow> (\<forall>j \<in> set (mon_joins m). distinct (join_predecessors j))"

lemma mon_join_in: "mon_join m n = Some j \<Longrightarrow> j \<in> set (mon_joins m) \<and> join_node_id j = n"
  unfolding mon_join_def dget_def by (auto dest!: map_of_SomeD)

text \<open>Completing or starting a node that was not complete leaves every held condition in place.\<close>

lemma edge_holds_mono:
  assumes "edge_holds st e" "ts_completed st \<subseteq> ts_completed st'"
    and "\<And>s. s \<in> ts_completed st \<Longrightarrow> dget (ts_events st') s = dget (ts_events st) s"
  shows "edge_holds st' e"
  using assms condition_matches_events [of "ts_events st'" e "ts_events st"]
  by (auto simp: edge_holds_def)

lemma justified_mono:
  assumes "justified m st n" "joins_distinct m"
    and "\<And>e. edge_holds st e \<Longrightarrow> edge_holds st' e"
  shows "justified m st' n"
proof (cases "mon_join m n")
  case None
  then show ?thesis using assms by (auto simp: justified_def)
next
  case (Some j)
  then have "distinct (join_predecessors j)"
    using assms(2) mon_join_in [OF Some] by (auto simp: joins_distinct_def)
  then show ?thesis
    using assms(1,3) Some by (auto simp: justified_def elim!: satisfied_by_mono)
qed

lemma complete_keeps_inv:
  assumes inv: "mon_inv m st" and d: "joins_distinct m" and new: "n \<notin> ts_completed st"
    and n: "n \<in> mon_nodes m" "justified m st n"
  shows "mon_inv m (completed_state st n payload)"
proof -
  have "edge_holds (completed_state st n payload) e" if "edge_holds st e" for e
    by (rule edge_holds_mono [OF that]) (use new in auto)
  then have j: "justified m (completed_state st n payload) k" if "justified m st k" for k
    by (rule justified_mono [OF that d])
  show ?thesis
    using inv n j unfolding mon_inv_def by auto
qed

lemma start_keeps_inv:
  assumes inv: "mon_inv m st" and d: "joins_distinct m" and new: "n \<notin> ts_completed st"
    and n: "n \<in> mon_nodes m" "justified m st n"
    and st': "ts_completed st' = ts_completed st" "ts_events st' = ts_events st"
      "set (dkeys (ts_started st')) = insert n (set (dkeys (ts_started st)))"
  shows "mon_inv m st'"
proof -
  have "edge_holds st' e" if "edge_holds st e" for e
    by (rule edge_holds_mono [OF that]) (simp_all add: st')
  then have j: "justified m st' k" if "justified m st k" for k
    by (rule justified_mono [OF that d])
  show ?thesis
    using inv n j new unfolding mon_inv_def by (auto simp: st')
qed

lemma mon_step_inv:
  assumes "mon_step cr m st st'" "mon_inv m st" "joins_distinct m"
  shows "mon_inv m st' \<and> ts_completed st \<subseteq> ts_completed st' \<and> ts_iteration st' = ts_iteration st
    \<and> (\<forall>k \<in> ts_completed st. dget (ts_events st') k = dget (ts_events st) k)"
proof -
  have sub: "ts_completed st \<subseteq> set (dkeys (ts_events st))"
    using assms(2) by (auto simp: mon_inv_def)
  have dj: "distinct (join_predecessors j)" if "mon_join m n = Some j" for n j
    using assms(3) mon_join_in [OF that] by (auto simp: joins_distinct_def)
  have en: "justified m st n \<and> n \<in> mon_nodes m \<and> n \<notin> ts_completed st \<and> n \<notin> set (dkeys (ts_started st))"
    if "enabled m st n payload = Inr True" for n payload
    using enabled_justified [OF that sub dj] .
  from assms(1) show ?thesis
  proof cases
    case (advance n payload)
    then have e: "enabled m st n payload = Inr True" and st': "st' = completed_state st n payload"
      by (auto simp: mon_advance_def bnd_eq_Inr)
    from en [OF e] show ?thesis
      using complete_keeps_inv [OF assms(2,3)] st' by auto
  next
    case (reserve n payload)
    then have e: "enabled m st n payload = Inr True"
      and st': "st' = st\<lparr>ts_started := AList.update n payload (ts_started st)\<rparr>"
      by (auto simp: mon_reserve_def bnd_eq_Inr)
    have "mon_inv m st'"
      by (rule start_keeps_inv [OF assms(2,3), where n = n]) (use en [OF e] st' in auto)
    then show ?thesis using st' by simp
  next
    case (complete n payload)
    then have n: "n \<in> set (dkeys (ts_started st))" and st': "st' = completed_state st n payload"
      by (auto simp: mon_complete_def split: if_splits)
    then have "n \<notin> ts_completed st" "n \<in> mon_nodes m" "justified m st n"
      using assms(2) by (auto simp: mon_inv_def)
    then show ?thesis
      using complete_keeps_inv [OF assms(2,3)] st' by auto
  qed
qed

lemma mon_inv_initial: "initial_state i = Inr st \<Longrightarrow> mon_inv m st"
  by (auto simp: initial_state_def mon_inv_def dkeys_def)

lemma mon_reachable_inv: "mon_reachable cr m st \<Longrightarrow> joins_distinct m \<Longrightarrow> mon_inv m st"
  by (induction rule: mon_reachable.induct) (auto intro: mon_inv_initial dest: mon_step_inv)

text \<open>C9: in every state a run of the monitor reaches, each node that is reserved or complete is
  justified by that state itself: all its incoming edges (for a join, enough of them) leave
  completed nodes, and the edge conditions hold of the events recorded for them, whatever payload
  the caller offered.\<close>

theorem monitor_justified:
  assumes "mon_reachable cr m st" "joins_distinct m" "n \<in> ts_completed st \<union> set (dkeys (ts_started st))"
  shows "n \<in> mon_nodes m \<and> justified m st n"
  using mon_reachable_inv [OF assms(1,2)] assms(3) by (auto simp: mon_inv_def)

text \<open>A step of the monitor never undoes anything: completed nodes stay complete, keep their
  recorded event and are never started again, and no node is both started and complete.\<close>

theorem monitor_monotone:
  assumes "mon_reachable cr m st" "joins_distinct m" "mon_step cr m st st'"
  shows "ts_completed st \<subseteq> ts_completed st'
    \<and> (\<forall>k \<in> ts_completed st. dget (ts_events st') k = dget (ts_events st) k)
    \<and> ts_completed st' \<inter> set (dkeys (ts_started st')) = {}"
  using mon_step_inv [OF assms(3) mon_reachable_inv [OF assms(1,2)] assms(2)]
  by (auto simp: mon_inv_def)

section \<open>Predecessors and acceptance\<close>

text \<open>The edges into nodes without a join: all of them must hold before the node starts.\<close>

definition strict_rel :: "monitor \<Rightarrow> (string \<times> string) set" where
  "strict_rel m = {(ed_source e, ed_target e) | e. e \<in> set (gm_edges (mon_manifest m)) \<and> mon_join m (ed_target e) = None}"

lemma strict_predecessor:
  assumes "(c, n) \<in> (strict_rel m)\<^sup>+" "mon_inv m st" "n \<in> ts_completed st \<union> set (dkeys (ts_started st))"
  shows "c \<in> ts_completed st"
  using assms(1,3)
proof (induction rule: converse_trancl_induct)
  case (base c)
  then have "justified m st n" using assms(2) by (auto simp: mon_inv_def)
  then show ?case using base(1)
    by (auto simp: strict_rel_def justified_def mon_incoming_def edge_holds_def)
next
  case (step c d)
  then have "justified m st d" using assms(2) by (auto simp: mon_inv_def)
  then show ?case using step(1)
    by (auto simp: strict_rel_def justified_def mon_incoming_def edge_holds_def)
qed

text \<open>A node that is reserved or complete has every node before it complete, along any chain of
  edges that does not enter a join: no effect happens before the capability, preparation and
  dispatch nodes on its chain.\<close>

theorem monitor_predecessors:
  assumes "mon_reachable cr m st" "joins_distinct m" "(c, n) \<in> (strict_rel m)\<^sup>+"
    and "n \<in> ts_completed st \<union> set (dkeys (ts_started st))"
  shows "c \<in> ts_completed st"
  by (rule strict_predecessor [OF assms(3) mon_reachable_inv [OF assms(1,2)] assms(4)])

lemma distinct_join_lookup:
  assumes "distinct (map join_node_id (mon_joins m))" "j \<in> set (mon_joins m)"
  shows "mon_join m (join_node_id j) = Some j"
proof -
  have "distinct (map fst (map (\<lambda>j. (join_node_id j, j)) (rev (mon_joins m))))"
    using assms(1) by (simp add: comp_def rev_map [symmetric])
  then show ?thesis
    unfolding mon_join_def dget_def using assms(2) by (subst map_of_eq_Some_iff) auto
qed

lemma join_names_join_node:
  assumes "valid_graph g" "j \<in> set (gm_joins g)"
  shows "type_of g (join_node_id j) = Some N_JOIN"
  using valid_graphD(5) [OF assms] by (auto simp: join_errors_def split: if_splits)

lemma accepts_guarded:
  assumes "mon_reachable cr m st" "joins_distinct m" "valid_graph (mon_manifest m)"
    and joins: "mon_joins m = gm_joins (mon_manifest m)" "distinct (map join_node_id (mon_joins m))"
    and n: "n \<in> set (gm_nodes (mon_manifest m))" "nd_type n = N_DECISION" "nd_id n = ''decision.accept''"
    and acc: "''decision.accept'' \<in> ts_completed st \<union> set (dkeys (ts_started st))"
    and r: "r \<in> set (nd_required_guards n)"
  shows "\<exists>e \<in> set (gm_edges (mon_manifest m)). guard_of (mon_manifest m) (ed_source e) = Inr r \<and> edge_holds st e"
proof -
  let ?g = "mon_manifest m"
  obtain j where j: "j \<in> set (gm_joins ?g)" "join_policy j = ALL_J" "(join_node_id j, nd_id n) \<in> path_rel ?g"
    "\<exists>p \<in> set (join_predecessors j). guard_of ?g p = Inr r"
    using valid_accept [OF assms(3) n] r by blast
  have "mon_join m (nd_id n) = None"
  proof (rule ccontr)
    assume "mon_join m (nd_id n) \<noteq> None"
    then obtain j' where j': "j' \<in> set (gm_joins ?g)" "join_node_id j' = nd_id n"
      using mon_join_in joins(1) by fastforce
    then show False
      using join_names_join_node [OF assms(3) j'(1)] by_id_distinct [OF valid_graphD(1) [OF assms(3)] n(1)] n(2)
      by (simp add: type_of_def)
  qed
  then have "(join_node_id j, nd_id n) \<in> strict_rel m"
    using j(3) by (auto simp: strict_rel_def edge_rel_def)
  then have "join_node_id j \<in> ts_completed st"
    using strict_predecessor [OF r_into_trancl mon_reachable_inv [OF assms(1,2)]] acc n(3) by auto
  then have "justified m st (join_node_id j)"
    using mon_reachable_inv [OF assms(1,2)] by (auto simp: mon_inv_def)
  then have "satisfied_by j {ed_source e | e. e \<in> set (mon_incoming m (join_node_id j)) \<and> edge_holds st e}"
    using distinct_join_lookup [OF joins(2)] j(1) joins(1) by (simp add: justified_def)
  then have "set (join_predecessors j) \<subseteq> {ed_source e | e. e \<in> set (mon_incoming m (join_node_id j)) \<and> edge_holds st e}"
    using satisfied_by_all [of j] j(1,2) assms(2) joins(1) by (auto simp: joins_distinct_def)
  with j(4) show ?thesis by (auto simp: mon_incoming_def)
qed

text \<open>C8: in a run over a graph that passed the static check, with at most one join per node, the
  node \<open>decision.accept\<close> is reached only when every guard it requires is provided by a completed
  node whose edge into the guard join holds of its recorded event.\<close>

theorem monitor_accept_guards:
  assumes "mon_reachable cr m st" "joins_distinct m" "valid_graph (mon_manifest m)"
    and joins: "mon_joins m = gm_joins (mon_manifest m)" "distinct (map join_node_id (mon_joins m))"
    and n: "n \<in> set (gm_nodes (mon_manifest m))" "nd_type n = N_DECISION" "nd_id n = ''decision.accept''"
    and acc: "''decision.accept'' \<in> ts_completed st \<union> set (dkeys (ts_started st))"
    and r: "r \<in> set (nd_required_guards n)"
  shows "\<exists>e \<in> set (gm_edges (mon_manifest m)). guard_of (mon_manifest m) (ed_source e) = Inr r \<and> edge_holds st e"
  by (rule accepts_guarded [OF assms])

section \<open>A concrete run\<close>

definition sample_monitor :: monitor where
  "sample_monitor = \<lparr>mon_manifest = sample_graph, mon_joins = gm_joins sample_graph\<rparr>"

definition mon_run :: "monitor \<Rightarrow> (string \<times> pydict) list \<Rightarrow> transition_state res" where
  "mon_run m steps = bnd (initial_state 1) (fold_res (\<lambda>(n, payload) st. mon_advance toy_crypto m st n payload) steps)"

definition sample_run :: "(string \<times> pydict) list" where
  "sample_run = [(''t'', []), (''u'', []), (''c'', []), (''o'', []), (''k'', [(''passed'', PBool True)]),
     (''x'', []), (''j'', []), (''decision.accept'', [])]"

lemma mon_run_reachable: "mon_run m steps = Inr st \<Longrightarrow> mon_reachable toy_crypto m st"
  unfolding mon_run_def bnd_eq_Inr
  by (elim exE conjE, erule fold_res_invariant [where P = "mon_reachable toy_crypto m"])
    (auto intro: mon_reachable.intros mon_step.intros)

lemma sample_run_ok:
  "case mon_run sample_monitor sample_run of
     Inr st \<Rightarrow> ts_completed st = set (map nd_id (gm_nodes sample_graph)) - {''r''} | Inl _ \<Rightarrow> False"
  by code_simp

lemma sample_run_state:
  obtains st where "mon_reachable toy_crypto sample_monitor st"
    "ts_completed st = set (map nd_id (gm_nodes sample_graph)) - {''r''}"
  using sample_run_ok mon_run_reachable [of sample_monitor sample_run] by (auto split: sum.splits)

lemma sample_monitor_simps:
  "joins_distinct sample_monitor" "mon_joins sample_monitor = gm_joins (mon_manifest sample_monitor)"
  "distinct (map join_node_id (mon_joins sample_monitor))" "mon_manifest sample_monitor = sample_graph"
  by (simp_all add: sample_monitor_def joins_distinct_def sample_graph_def)

lemma accept_done: "''decision.accept'' \<in> set (map nd_id (gm_nodes sample_graph)) - {''r''}"
  by code_simp

theorem monitor_justified_witness:
  "\<exists>st. ''decision.accept'' \<in> ts_completed st \<and> justified sample_monitor st ''decision.accept''"
proof (rule sample_run_state)
  fix st assume st: "mon_reachable toy_crypto sample_monitor st"
    "ts_completed st = set (map nd_id (gm_nodes sample_graph)) - {''r''}"
  have "''decision.accept'' \<in> ts_completed st" unfolding st(2) by (rule accept_done)
  with monitor_justified [OF st(1) sample_monitor_simps(1), of "''decision.accept''"]
  show ?thesis by blast
qed

theorem monitor_monotone_witness:
  "\<exists>st. mon_step toy_crypto sample_monitor
      \<lparr>ts_iteration = 1, ts_completed = {}, ts_events = [], ts_started = []\<rparr> st
    \<and> ts_completed st \<inter> set (dkeys (ts_started st)) = {}"
proof -
  let ?st = "\<lparr>ts_iteration = 1, ts_completed = {}, ts_events = [], ts_started = []\<rparr> :: transition_state"
  have r: "mon_reachable toy_crypto sample_monitor ?st"
    by (rule mon_reachable.init [of 1]) (simp add: initial_state_def)
  have "enabled sample_monitor ?st ''t'' [] = Inr True" by code_simp
  then have s: "mon_step toy_crypto sample_monitor ?st (completed_state ?st ''t'' [])"
    by (intro mon_step.advance [of _ _ _ "''t''" "[]"]) (simp add: mon_advance_def)
  from monitor_monotone [OF r sample_monitor_simps(1) s] s show ?thesis by blast
qed

theorem monitor_predecessors_witness:
  "\<exists>st :: transition_state. ''x'' \<in> ts_completed st \<and> ''c'' \<in> ts_completed st"
proof (rule sample_run_state)
  fix st assume st: "mon_reachable toy_crypto sample_monitor st"
    "ts_completed st = set (map nd_id (gm_nodes sample_graph)) - {''r''}"
  have x: "''x'' \<in> ts_completed st" unfolding st(2) by code_simp
  have e: "i < 9 \<Longrightarrow> gm_edges sample_graph ! i \<in> set (gm_edges sample_graph)" for i
    by (rule nth_mem) (simp add: sample_graph_def)
  have edge: "(ed_source e, ed_target e) \<in> strict_rel sample_monitor"
    if "e \<in> set (gm_edges sample_graph)" "mon_join sample_monitor (ed_target e) = None" for e
    using that by (auto simp: strict_rel_def sample_monitor_simps)
  have "mon_join sample_monitor (ed_target (gm_edges sample_graph ! i)) = None" if "i \<in> {1, 2}" for i
    using that by (auto simp: sample_graph_def graph_edge_def mon_join_def sample_monitor_def dget_def)
  from edge [OF e this [of 1]] edge [OF e this [of 2]]
  have "(''c'', ''o'') \<in> strict_rel sample_monitor" "(''o'', ''x'') \<in> strict_rel sample_monitor"
    by (simp_all add: sample_graph_def graph_edge_def)
  then have "(''c'', ''x'') \<in> (strict_rel sample_monitor)\<^sup>+" by (rule trancl.trancl_into_trancl [OF r_into_trancl])
  from monitor_predecessors [OF st(1) sample_monitor_simps(1) this] x show ?thesis by blast
qed

theorem monitor_accept_guards_witness:
  "\<exists>st. \<exists>e \<in> set (gm_edges sample_graph). guard_of sample_graph (ed_source e) = Inr ''ok'' \<and> edge_holds st e"
proof (rule sample_run_state)
  fix st assume st: "mon_reachable toy_crypto sample_monitor st"
    "ts_completed st = set (map nd_id (gm_nodes sample_graph)) - {''r''}"
  have "''decision.accept'' \<in> ts_completed st" unfolding st(2) by (rule accept_done)
  moreover have "nd_type (gm_nodes sample_graph ! 8) = N_DECISION"
    "nd_id (gm_nodes sample_graph ! 8) = ''decision.accept''"
    "''ok'' \<in> set (nd_required_guards (gm_nodes sample_graph ! 8))"
    by (simp_all add: sample_graph_def graph_node_def)
  moreover have "gm_nodes sample_graph ! 8 \<in> set (gm_nodes sample_graph)" by (rule sample_node) simp
  ultimately have "\<exists>e \<in> set (gm_edges sample_graph). guard_of sample_graph (ed_source e) = Inr ''ok'' \<and> edge_holds st e"
    using monitor_accept_guards [OF st(1) sample_monitor_simps(1) _ sample_monitor_simps(2,3),
        of "gm_nodes sample_graph ! 8" "''ok''"] sample_graph_valid
    unfolding sample_monitor_simps(4) by blast
  then show ?thesis by (rule exI)
qed

section \<open>Two joins for one node\<close>

text \<open>
  \<open>validate\<close> reads the first join that names a node, the monitor keeps the last one.
\<close>

definition twin_join_graph :: graph_manifest where
  "twin_join_graph = sample_graph\<lparr>
     gm_nodes := map (\<lambda>n. if nd_id n = ''decision.accept'' then n\<lparr>nd_required_guards := [''ok'', ''ok2'']\<rparr> else n)
       (gm_nodes sample_graph) @ [(graph_node ''k2'' N_CRITERION)\<lparr>nd_metadata := [(''guard'', ''ok2'')]\<rparr>],
     gm_edges := gm_edges sample_graph @ [graph_edge ''t'' ''k2'' DEPENDS_ON, graph_edge ''k2'' ''j'' SATISFIES],
     gm_joins := [\<lparr>join_node_id = ''j'', join_predecessors = [''k'', ''k2''], join_policy = ALL_J, join_threshold = None\<rparr>,
       \<lparr>join_node_id = ''j'', join_predecessors = [''k'', ''k2''], join_policy = ANY_J, join_threshold = None\<rparr>]\<rparr>"

text \<open>The static check accepts a graph that declares two joins for the guard barrier, the first
  waiting for all guards and the second for any; the monitor built from it accepts the run although
  the second required guard was never evaluated.\<close>

theorem twin_join_bypasses_guard:
  "valid_graph twin_join_graph
    \<and> (\<exists>m st. monitor_init twin_join_graph (gm_joins twin_join_graph) = Inr m
        \<and> mon_reachable toy_crypto m st \<and> ''decision.accept'' \<in> ts_completed st \<and> ''k2'' \<notin> ts_completed st
        \<and> (\<exists>n \<in> set (gm_nodes twin_join_graph). nd_id n = ''decision.accept'' \<and> ''ok2'' \<in> set (nd_required_guards n)))"
proof -
  let ?m = "\<lparr>mon_manifest = twin_join_graph, mon_joins = gm_joins twin_join_graph\<rparr> :: monitor"
  have v: "valid_graph twin_join_graph" by code_simp
  have m: "monitor_init twin_join_graph (gm_joins twin_join_graph) = Inr ?m"
    using v by (simp add: monitor_init_def require_valid_def valid_graph_def)
      (simp add: twin_join_graph_def sample_graph_def graph_node_def)
  have "case mon_run ?m (sample_run) of Inr st \<Rightarrow> ''decision.accept'' \<in> ts_completed st \<and> ''k2'' \<notin> ts_completed st
      | Inl _ \<Rightarrow> False" by code_simp
  then obtain st where "mon_reachable toy_crypto ?m st" "''decision.accept'' \<in> ts_completed st" "''k2'' \<notin> ts_completed st"
    using mon_run_reachable [of ?m sample_run] by (auto split: sum.splits)
  moreover have "\<exists>n \<in> set (gm_nodes twin_join_graph). nd_id n = ''decision.accept'' \<and> ''ok2'' \<in> set (nd_required_guards n)"
    by (simp add: twin_join_graph_def sample_graph_def graph_node_def)
  ultimately show ?thesis using v m by blast
qed

end
