(* ===== verification/Events.thy ===== *)
theory Events
  imports Models
begin

text \<open>
  \<open>src/vloop/graph_events.py\<close>: causal events of a graph run, their durable store and the
  evidence projection drawn from them. A stored event is the value its canonical JSON reads
  back as; SQLite's uniqueness constraints are checks on the table.
\<close>

section \<open>Node instances and events\<close>

definition instance_py :: "string \<Rightarrow> string \<Rightarrow> string \<Rightarrow> int \<Rightarrow> int \<Rightarrow> pyval" where
  "instance_py run graph node iteration attempt = PDict [(''run_id'', PStr run), (''graph_digest'', PStr graph),
     (''template_node_id'', PStr node), (''iteration'', PInt iteration), (''attempt'', PInt attempt)]"

definition node_instance_id :: "crypto \<Rightarrow> string \<Rightarrow> string \<Rightarrow> string \<Rightarrow> int \<Rightarrow> int \<Rightarrow> string res" where
  "node_instance_id cr run graph node iteration attempt =
     (if blank run \<or> blank node \<or> iteration < 1 \<or> attempt < 1
      then Inl (ValueError, ''node instances need a run, template, iteration, and attempt'')
      else Inr (digest cr (instance_py run graph node iteration attempt)))"

record causal_event =
  ce_event_id :: string
  ce_run_id :: string
  ce_graph_digest :: string
  ce_node_instance_id :: string
  ce_template_node_id :: string
  ce_event_type :: string
  ce_iteration :: int
  ce_attempt :: int
  ce_causal_parents :: "string list"
  ce_input_artifacts :: "(string \<times> string) list"
  ce_output_artifacts :: "(string \<times> string) list"
  ce_authorization_ref :: string
  ce_receipt_refs :: "string list"
  ce_payload :: pydict
  ce_occurred_at :: dtime

definition causal_event_init :: "causal_event \<Rightarrow> causal_event res" where
  "causal_event_init e =
     (if blank (ce_event_id e) \<or> blank (ce_run_id e) \<or> ce_node_instance_id e = []
        \<or> ce_template_node_id e = [] \<or> ce_event_type e = []
      then Inl (ValueError, ''causal events need stable identities'')
      else if ce_iteration e < 1 \<or> ce_attempt e < 1
      then Inl (ValueError, ''causal events need positive iteration and attempt numbers'')
      else if length (ce_graph_digest e) \<noteq> 64 then Inl (ValueError, ''causal events need a graph digest'')
      else if \<not> aware (ce_occurred_at e) then Inl (ValueError, ''causal event time must be timezone-aware'')
      else if \<not> distinct (ce_causal_parents e) then Inl (ValueError, ''causal parents must be unique'')
      else Inr e)"

text \<open>The mapping that is hashed (\<open>event_digest\<close>) and stored (\<open>_encode_event\<close>).\<close>

definition event_fields :: "causal_event \<Rightarrow> pydict" where
  "event_fields e =
     [(''event_id'', PStr (ce_event_id e)), (''run_id'', PStr (ce_run_id e)),
      (''graph_digest'', PStr (ce_graph_digest e)), (''node_instance_id'', PStr (ce_node_instance_id e)),
      (''template_node_id'', PStr (ce_template_node_id e)), (''event_type'', PStr (ce_event_type e)),
      (''iteration'', PInt (ce_iteration e)), (''attempt'', PInt (ce_attempt e)),
      (''causal_parents'', pstrs (ce_causal_parents e)),
      (''input_artifacts'', PDict (map (\<lambda>(k, v). (k, PStr v)) (ce_input_artifacts e))),
      (''output_artifacts'', PDict (map (\<lambda>(k, v). (k, PStr v)) (ce_output_artifacts e))),
      (''authorization_ref'', PStr (ce_authorization_ref e)), (''receipt_refs'', pstrs (ce_receipt_refs e)),
      (''payload'', PDict (ce_payload e)), (''occurred_at'', PStr (isoformat (ce_occurred_at e)))]"

definition event_digest :: "crypto \<Rightarrow> causal_event \<Rightarrow> string" where
  "event_digest cr e = digest cr (PDict (event_fields e))"

definition encode_event :: "causal_event \<Rightarrow> pyval" where
  "encode_event e = json_norm (PDict (event_fields e))"

text \<open>\<open>str(data[key])\<close> of a required field.\<close>

definition str_req :: "pydict \<Rightarrow> string \<Rightarrow> string res" where
  "str_req d k = bnd (dreq d k) (\<lambda>v. Inr (py_str v))"

definition decode_event :: "pyval \<Rightarrow> causal_event res" where
  "decode_event value =
     bnd (dict_of value) (\<lambda>d.
     bnd (str_req d ''event_id'') (\<lambda>event_id. bnd (str_req d ''run_id'') (\<lambda>run_id.
     bnd (str_req d ''graph_digest'') (\<lambda>graph. bnd (str_req d ''node_instance_id'') (\<lambda>inst.
     bnd (str_req d ''template_node_id'') (\<lambda>node. bnd (str_req d ''event_type'') (\<lambda>ty.
     bnd (int_of (ddef d ''iteration'' (PInt 1))) (\<lambda>iteration. bnd (int_of (ddef d ''attempt'' (PInt 1))) (\<lambda>attempt.
     bnd (strs_of (ddef d ''causal_parents'' (PTuple []))) (\<lambda>parents.
     bnd (str_dict_of (ddef d ''input_artifacts'' (PDict []))) (\<lambda>inputs.
     bnd (str_dict_of (ddef d ''output_artifacts'' (PDict []))) (\<lambda>outputs.
     bnd (strs_of (ddef d ''receipt_refs'' (PTuple []))) (\<lambda>receipts.
     bnd (dict_of (ddef d ''payload'' (PDict []))) (\<lambda>payload.
     bnd (dreq d ''occurred_at'') (\<lambda>t. bnd (time_of t) (\<lambda>occurred.
       causal_event_init \<lparr>ce_event_id = event_id, ce_run_id = run_id, ce_graph_digest = graph,
         ce_node_instance_id = inst, ce_template_node_id = node, ce_event_type = ty,
         ce_iteration = iteration, ce_attempt = attempt, ce_causal_parents = parents,
         ce_input_artifacts = inputs, ce_output_artifacts = outputs,
         ce_authorization_ref = py_str (ddef d ''authorization_ref'' (PStr [])),
         ce_receipt_refs = receipts, ce_payload = payload, ce_occurred_at = occurred\<rparr>))))))))))))))))"

section \<open>The event store\<close>

record event_row =
  er_event_id :: string
  er_run_id :: string
  er_graph_digest :: string
  er_event_json :: pyval
  er_event_digest :: string

definition event_row_of :: "crypto \<Rightarrow> causal_event \<Rightarrow> event_row" where
  "event_row_of cr e = \<lparr>er_event_id = ce_event_id e, er_run_id = ce_run_id e,
     er_graph_digest = ce_graph_digest e, er_event_json = encode_event e, er_event_digest = event_digest cr e\<rparr>"

text \<open>\<open>event_id\<close> is the primary key and \<open>event_digest\<close> is unique.\<close>

definition event_append :: "crypto \<Rightarrow> causal_event \<Rightarrow> event_row list \<Rightarrow> event_row list res" where
  "event_append cr e rows =
     (if ce_event_id e \<in> set (map er_event_id rows) \<or> event_digest cr e \<in> set (map er_event_digest rows)
      then Inl (IntegrityError, ''UNIQUE constraint failed'')
      else Inr (rows @ [event_row_of cr e]))"

definition store_events :: "event_row list \<Rightarrow> string \<Rightarrow> causal_event list res" where
  "store_events rows run = map_res (decode_event \<circ> er_event_json) (filter (\<lambda>r. er_run_id r = run) rows)"

definition causal_root :: "crypto \<Rightarrow> event_row list \<Rightarrow> string \<Rightarrow> string res" where
  "causal_root cr rows run =
     bnd (store_events rows run) (\<lambda>es. Inr (digest cr (PList (map (PStr \<circ> event_digest cr) es))))"

section \<open>The evidence projection\<close>

record semantic_graph =
  sg_run_id :: string
  sg_graph_digest :: string
  sg_nodes :: "(string \<times> string) list"
  sg_edges :: "(string \<times> string \<times> string) list"

definition setdefault :: "'k \<Rightarrow> 'v \<Rightarrow> ('k \<times> 'v) list \<Rightarrow> ('k \<times> 'v) list" where
  "setdefault k v d = (case dget d k of None \<Rightarrow> d @ [(k, v)] | Some _ \<Rightarrow> d)"

definition event_nodes :: "causal_event \<Rightarrow> (string \<times> string) list \<Rightarrow> (string \<times> string) list" where
  "event_nodes e nodes =
     fold (\<lambda>r. setdefault r ''receipt'') (ce_receipt_refs e)
       ((if ce_authorization_ref e = [] then id else setdefault (ce_authorization_ref e) ''authorization'')
          (fold (\<lambda>(_, a). setdefault a ''artifact'') (ce_input_artifacts e @ ce_output_artifacts e)
             (AList.update (ce_event_id e) (ce_template_node_id e) nodes)))"

definition event_edges :: "causal_event \<Rightarrow> (string \<times> string \<times> string) list" where
  "event_edges e =
     map (\<lambda>p. (p, ce_event_id e, ''caused'')) (ce_causal_parents e)
     @ map (\<lambda>(_, a). (a, ce_event_id e, ''input'')) (ce_input_artifacts e)
     @ map (\<lambda>(_, a). (ce_event_id e, a, ''output'')) (ce_output_artifacts e)
     @ (if ce_authorization_ref e = [] then [] else [(ce_authorization_ref e, ce_event_id e, ''authorised'')])
     @ map (\<lambda>r. (r, ce_event_id e, ''evidence'')) (ce_receipt_refs e)"

definition build_semantic_evidence_graph :: "causal_event list \<Rightarrow> string \<Rightarrow> semantic_graph res" where
  "build_semantic_evidence_graph events run =
     (let selected = filter (\<lambda>e. ce_run_id e = run) events in
      if selected = [] then Inl (ValueError, ''semantic graph needs events for the selected run'')
      else if length (remdups (map ce_graph_digest selected)) \<noteq> 1
      then Inl (ValueError, ''semantic graph cannot mix graph versions'')
      else Inr \<lparr>sg_run_id = run, sg_graph_digest = ce_graph_digest (hd selected),
                sg_nodes = fold event_nodes selected [], sg_edges = concat (map event_edges selected)\<rparr>)"

definition dot_escape :: "string \<Rightarrow> string" where
  "dot_escape s = map (\<lambda>c. if c = CHR 0x22 then CHR 0x27 else c) s"

definition quoted :: "string \<Rightarrow> string" where
  "quoted s = [CHR 0x22] @ s @ [CHR 0x22]"

definition semantic_to_dot :: "semantic_graph \<Rightarrow> string" where
  "semantic_to_dot g = join [CHR 0x0A]
     ([''digraph vloop_causal {'']
      @ map (\<lambda>(n, label). ''  '' @ quoted n @ '' [label='' @ quoted (dot_escape label) @ ''];'')
          (sort_dict (sg_nodes g))
      @ map (\<lambda>(s, t, label). ''  '' @ quoted s @ '' -> '' @ quoted t @ '' [label='' @ quoted label @ ''];'') (sg_edges g)
      @ [''}''])"

section \<open>What the store gives back\<close>

definition norm_event :: "causal_event \<Rightarrow> causal_event" where
  "norm_event e = e\<lparr>ce_input_artifacts := sort_dict (ce_input_artifacts e),
     ce_output_artifacts := sort_dict (ce_output_artifacts e), ce_payload := norm_dict (ce_payload e)\<rparr>"

lemma json_norm_strs [simp]: "json_norm (pstrs xs) = PList (map PStr xs)"
  by (simp add: pstrs_def)

lemma json_norm_str_dict [simp]:
  "json_norm (PDict (map (\<lambda>(k, v). (k, PStr v)) d)) = PDict (map (\<lambda>(k, v). (k, PStr v)) (sort_dict d))"
proof -
  have "map (\<lambda>(k, v). (k, json_norm v)) (map (\<lambda>(k, v). (k, PStr v)) d) = map (\<lambda>(k, v). (k, PStr v)) d"
    by (simp add: split_def comp_def)
  then show ?thesis unfolding json_norm_PDict norm_dict_def by (simp only: sort_dict_map)
qed

lemma norm_event_eq: "norm_event e = \<lparr>ce_event_id = ce_event_id e, ce_run_id = ce_run_id e, ce_graph_digest = ce_graph_digest e, ce_node_instance_id = ce_node_instance_id e, ce_template_node_id = ce_template_node_id e, ce_event_type = ce_event_type e, ce_iteration = ce_iteration e, ce_attempt = ce_attempt e, ce_causal_parents = ce_causal_parents e, ce_input_artifacts = sort_dict (ce_input_artifacts e),
     ce_output_artifacts = sort_dict (ce_output_artifacts e), ce_authorization_ref = ce_authorization_ref e,
     ce_receipt_refs = ce_receipt_refs e, ce_payload = norm_dict (ce_payload e), ce_occurred_at = ce_occurred_at e\<rparr>"
  by (cases e) (simp add: norm_event_def)

lemma decode_encode_event:
  assumes "causal_event_init e = Inr e" "iso_ok (ce_occurred_at e)"
  shows "decode_event (encode_event e) = Inr (norm_event e)"
proof -
  have "causal_event_init (norm_event e) = Inr (norm_event e)"
    using assms(1) by (auto simp: causal_event_init_def norm_event_def split: if_splits)
  then show ?thesis
    unfolding decode_event_def encode_event_def json_norm_PDict norm_event_eq
    using assms(2) by (simp del: json_norm.simps(3) add: str_req_def dreq_def ddef_def dget_norm_dict
      event_fields_def dget_Cons json_norm_PDict [of "ce_payload e"])
qed

lemma event_digest_norm [simp]: "event_digest cr (norm_event e) = event_digest cr e"
proof -
  have "map (\<lambda>(k, v). (k, json_norm v)) (event_fields (norm_event e)) = map (\<lambda>(k, v). (k, json_norm v)) (event_fields e)"
    by (simp del: json_norm.simps(3) add: event_fields_def norm_event_def json_norm_PDict [of "norm_dict _"]
        json_norm_PDict [of "ce_payload e"])
  then have "json_norm (PDict (event_fields (norm_event e))) = json_norm (PDict (event_fields e))"
    unfolding json_norm_PDict norm_dict_def by simp
  then show ?thesis unfolding event_digest_def by (metis digest_norm)
qed

definition appended :: "crypto \<Rightarrow> causal_event list \<Rightarrow> event_row list res" where
  "appended cr es = fold_res (event_append cr) es []"

lemma event_append_rows: "event_append cr e rows = Inr rows' \<Longrightarrow> rows' = rows @ [event_row_of cr e]"
  by (auto simp: event_append_def split: if_splits)

lemma append_rows: "fold_res (event_append cr) es rows = Inr rows' \<Longrightarrow> rows' = rows @ map (event_row_of cr) es"
proof (induction es arbitrary: rows)
  case (Cons e es)
  then obtain r where "event_append cr e rows = Inr r" "fold_res (event_append cr) es r = Inr rows'"
    by (auto simp: bnd_eq_Inr)
  then show ?case using Cons.IH [of r] event_append_rows [of cr e rows r] by simp
qed simp

lemma decode_rows:
  assumes "\<forall>e \<in> set es. causal_event_init e = Inr e \<and> iso_ok (ce_occurred_at e)"
  shows "store_events (map (event_row_of cr) es) run = Inr (map norm_event (filter (\<lambda>e. ce_run_id e = run) es))"
  using assms unfolding store_events_def
  by (induction es) (simp_all add: decode_encode_event event_row_of_def)

text \<open>Events appended to the store are read back in order, per run, with nothing lost but the
  order of dictionary keys, and the causal root of a run is the digest of exactly the digests of
  the events that were appended.\<close>

theorem event_store_roundtrip:
  assumes "appended cr es = Inr rows"
    and "\<forall>e \<in> set es. causal_event_init e = Inr e \<and> iso_ok (ce_occurred_at e)"
  shows "store_events rows run = Inr (map norm_event (filter (\<lambda>e. ce_run_id e = run) es))
    \<and> causal_root cr rows run
        = Inr (digest cr (PList (map (PStr \<circ> event_digest cr) (filter (\<lambda>e. ce_run_id e = run) es))))"
proof -
  have rows: "rows = map (event_row_of cr) es"
    using append_rows [of cr es "[]" rows] assms(1) by (simp add: appended_def)
  show ?thesis
    unfolding causal_root_def rows decode_rows [OF assms(2)] by (simp add: comp_def)
qed

definition sample_event :: causal_event where
  "sample_event = \<lparr>ce_event_id = ''e1'', ce_run_id = ''run'', ce_graph_digest = replicate 64 (CHR ''0''),
     ce_node_instance_id = ''i'', ce_template_node_id = ''x'', ce_event_type = ''t'', ce_iteration = 1,
     ce_attempt = 1, ce_causal_parents = [], ce_input_artifacts = [(''b'', ''d''), (''a'', ''d'')],
     ce_output_artifacts = [], ce_authorization_ref = [], ce_receipt_refs = [],
     ce_payload = [(''success'', PBool True)], ce_occurred_at = utc 0\<rparr>"

theorem event_store_roundtrip_witness:
  "\<exists>rows. appended toy_crypto [sample_event] = Inr rows \<and> store_events rows ''run'' = Inr [norm_event sample_event]"
proof -
  have a: "appended toy_crypto [sample_event] = Inr [event_row_of toy_crypto sample_event]"
    by (simp add: appended_def event_append_def)
  have ok: "\<forall>e \<in> set [sample_event]. causal_event_init e = Inr e \<and> iso_ok (ce_occurred_at e)"
    using iso_ok_epoch by (simp add: causal_event_init_def sample_event_def blank_iff py_isspace_def utc_def)
  show ?thesis using event_store_roundtrip [OF a ok, of "''run''"] a by (simp add: sample_event_def)
qed

end
