(* ===== verification/Attestations.thy ===== *)
theory Attestations
  imports Models
begin

text \<open>
  \<open>src/vloop/attestations.py\<close>: signed completions of graph nodes. A producer workload signs the
  result of the node it owns; the verifier checks the binding to graph, contract, run and node
  instance, the workload's identity and role, the lifetime and the signature. Keys and
  signatures come from the \<open>crypto\<close> parameter, the nonce (\<open>uuid4\<close>) is an argument.
\<close>

section \<open>Identities and completions\<close>

datatype completion_result = SUCCEEDED | FAILED | INDETERMINATE

primrec completion_result_value :: "completion_result \<Rightarrow> string" where
  "completion_result_value SUCCEEDED = ''succeeded''"
| "completion_result_value FAILED = ''failed''"
| "completion_result_value INDETERMINATE = ''indeterminate''"

record workload_identity =
  wi_subject :: string
  wi_roles :: "string set"
  wi_valid_from :: dtime
  wi_valid_until :: dtime
  wi_revoked_at :: "dtime option"

definition workload_identity_init :: "workload_identity \<Rightarrow> workload_identity res" where
  "workload_identity_init w =
     (if \<not> startswith (wi_subject w) ''spiffe://'' \<or> wi_roles w = {}
      then Inl (ValueError, ''workload identities need a SPIFFE subject and one or more roles'')
      else if \<not> aware (wi_valid_from w) \<or> \<not> aware (wi_valid_until w)
        \<or> instant (wi_valid_until w) \<le> instant (wi_valid_from w)
      then Inl (ValueError, ''workload identity validity is invalid'')
      else if (case wi_revoked_at w of None \<Rightarrow> False | Some t \<Rightarrow> \<not> aware t)
      then Inl (ValueError, ''workload identity revocation time must be timezone-aware'')
      else Inr w)"

definition identity_active :: "workload_identity \<Rightarrow> int \<Rightarrow> bool" where
  "identity_active w now \<longleftrightarrow> instant (wi_valid_from w) \<le> now \<and> now < instant (wi_valid_until w)
     \<and> (case wi_revoked_at w of None \<Rightarrow> True | Some t \<Rightarrow> now < instant t)"

record node_completion =
  nc_graph_digest :: string
  nc_contract_digest :: string
  nc_run_id :: string
  nc_template_node_id :: string
  nc_node_instance_id :: string
  nc_producer_identity :: string
  nc_producer_role :: string
  nc_artifact_digest :: string
  nc_validator_policy_digest :: string
  nc_result :: completion_result
  nc_issued_at :: dtime
  nc_expires_at :: dtime
  nc_nonce :: string
  nc_input_artifact_digests :: "(string \<times> string) list"
  nc_facts :: "(string \<times> string) list"
  nc_authority_refs :: "string list"
  nc_evidence_refs :: "string list"
  nc_transparency_log_proof :: string
  nc_signature :: string

definition node_completion_init :: "node_completion \<Rightarrow> node_completion res" where
  "node_completion_init c =
     (if blank (nc_run_id c) \<or> blank (nc_template_node_id c) \<or> nc_node_instance_id c = []
        \<or> \<not> startswith (nc_producer_identity c) ''spiffe://'' \<or> blank (nc_producer_role c) \<or> blank (nc_nonce c)
      then Inl (ValueError, ''node completions need run, node, producer, role, and nonce identities'')
      else if list_ex (\<lambda>v. \<not> sha256_shape v)
        ([nc_graph_digest c, nc_contract_digest c, nc_node_instance_id c, nc_artifact_digest c,
          nc_validator_policy_digest c] @ map snd (nc_input_artifact_digests c))
      then Inl (ValueError, ''node completion digests must be SHA-256 hex'')
      else if \<not> aware (nc_issued_at c) \<or> \<not> aware (nc_expires_at c)
        \<or> instant (nc_expires_at c) \<le> instant (nc_issued_at c)
      then Inl (ValueError, ''node completion validity is invalid'')
      else if \<not> distinct (nc_authority_refs c) \<or> \<not> distinct (nc_evidence_refs c)
      then Inl (ValueError, ''node completion references must be unique'')
      else Inr c)"

text \<open>\<open>_payload_mapping\<close>: the signature is blanked and the times are written as texts.\<close>

definition str_dict_py :: "(string \<times> string) list \<Rightarrow> pyval" where
  "str_dict_py d = PDict (map (\<lambda>(k, v). (k, PStr v)) d)"

definition completion_py :: "node_completion \<Rightarrow> pyval" where
  "completion_py c = PDict
     [(''graph_digest'', PStr (nc_graph_digest c)), (''contract_digest'', PStr (nc_contract_digest c)),
      (''run_id'', PStr (nc_run_id c)), (''template_node_id'', PStr (nc_template_node_id c)),
      (''node_instance_id'', PStr (nc_node_instance_id c)),
      (''producer_identity'', PStr (nc_producer_identity c)), (''producer_role'', PStr (nc_producer_role c)),
      (''artifact_digest'', PStr (nc_artifact_digest c)),
      (''validator_policy_digest'', PStr (nc_validator_policy_digest c)),
      (''result'', PStr (completion_result_value (nc_result c))),
      (''issued_at'', PStr (isoformat (nc_issued_at c))), (''expires_at'', PStr (isoformat (nc_expires_at c))),
      (''nonce'', PStr (nc_nonce c)), (''input_artifact_digests'', str_dict_py (nc_input_artifact_digests c)),
      (''facts'', str_dict_py (nc_facts c)), (''authority_refs'', pstrs (nc_authority_refs c)),
      (''evidence_refs'', pstrs (nc_evidence_refs c)),
      (''transparency_log_proof'', PStr (nc_transparency_log_proof c)), (''signature'', PStr [])]"

definition completion_payload :: "node_completion \<Rightarrow> string" where
  "completion_payload c = canonical_json (completion_py c)"

definition completion_digest :: "crypto \<Rightarrow> node_completion \<Rightarrow> string" where
  "completion_digest cr c = digest cr (completion_py c)"

section \<open>Ownership\<close>

record ownership_policy =
  op_graph_digest :: string
  op_template_roles :: "(string \<times> string) list"
  op_policy_digest :: string

definition ownership_digest :: "crypto \<Rightarrow> ownership_policy \<Rightarrow> string" where
  "ownership_digest cr p = digest cr (PDict [(''graph_digest'', PStr (op_graph_digest p)),
     (''template_roles'', str_dict_py (op_template_roles p))])"

definition ownership_policy_init :: "crypto \<Rightarrow> ownership_policy \<Rightarrow> ownership_policy res" where
  "ownership_policy_init cr p =
     (if length (op_graph_digest p) \<noteq> 64 \<or> op_template_roles p = []
        \<or> list_ex (\<lambda>(node, role). blank node \<or> blank role) (op_template_roles p)
      then Inl (ValueError, ''node ownership policies need graph-bound non-empty role assignments'')
      else if op_policy_digest p \<noteq> [] \<and> op_policy_digest p \<noteq> ownership_digest cr p
      then Inl (ValueError, ''node ownership policy digest does not match its assignments'')
      else Inr (p\<lparr>op_policy_digest := ownership_digest cr p\<rparr>))"

definition required_role :: "ownership_policy \<Rightarrow> string \<Rightarrow> string res" where
  "required_role p node =
     (case dget (op_template_roles p) node of
        None \<Rightarrow> Inl (PermissionError, ''node has no authorised producer role'')
      | Some role \<Rightarrow> Inr role)"

section \<open>Issuing and validating\<close>

text \<open>
  \<open>CompletionSigner.issue\<close>: the keyword arguments are the fields of \<open>req\<close>; identity, times,
  nonce and signature are set by the signer.
\<close>

record completion_signer =
  cs_identity :: workload_identity
  cs_key :: string

definition completion_issue :: "crypto \<Rightarrow> completion_signer \<Rightarrow> node_completion \<Rightarrow> int \<Rightarrow> int \<Rightarrow> string
    \<Rightarrow> node_completion res" where
  "completion_issue cr s req now ttl nonce =
     bnd (node_completion_init (req\<lparr>nc_producer_identity := wi_subject (cs_identity s),
            nc_issued_at := utc now, nc_expires_at := dt_add (utc now) ttl, nc_nonce := nonce,
            nc_signature := []\<rparr>))
       (\<lambda>unsigned. node_completion_init
          (unsigned\<lparr>nc_signature := ed_sign cr (cs_key s) (completion_payload unsigned)\<rparr>))"

record completion_verifier =
  cv_identities :: "(string \<times> workload_identity) list"
  cv_keys :: "(string \<times> string) list"
  cv_ownership :: ownership_policy
  cv_maximum_ttl :: int
  cv_clock_skew :: int

definition completion_verifier_init :: "completion_verifier \<Rightarrow> completion_verifier res" where
  "completion_verifier_init v =
     (if set (dkeys (cv_identities v)) \<noteq> set (dkeys (cv_keys v))
      then Inl (ValueError, ''completion trust identities and keys must match exactly'')
      else Inr v)"

text \<open>The binding a caller of \<open>CompletionVerifier.validate\<close> expects.\<close>

record expected_completion =
  ex_graph_digest :: string
  ex_contract_digest :: string
  ex_run_id :: string
  ex_template_node_id :: string
  ex_node_instance_id :: string

definition completion_validate :: "crypto \<Rightarrow> completion_verifier \<Rightarrow> node_completion \<Rightarrow> expected_completion
    \<Rightarrow> int \<Rightarrow> unit res" where
  "completion_validate cr v c ex now =
     (if nc_graph_digest c \<noteq> ex_graph_digest ex \<or> nc_contract_digest c \<noteq> ex_contract_digest ex
        \<or> nc_run_id c \<noteq> ex_run_id ex \<or> nc_template_node_id c \<noteq> ex_template_node_id ex
        \<or> nc_node_instance_id c \<noteq> ex_node_instance_id ex
      then Inl (PermissionError, ''node completion is bound to another graph, contract, run, or instance'')
      else case (dget (cv_identities v) (nc_producer_identity c), dget (cv_keys v) (nc_producer_identity c)) of
        (Some identity, Some key) \<Rightarrow>
          if \<not> identity_active identity now
          then Inl (PermissionError, ''node completion producer workload is not trusted and active'')
          else if nc_producer_role c \<notin> wi_roles identity
          then Inl (PermissionError, ''node completion producer does not own this graph node'')
          else bnd (required_role (cv_ownership v) (ex_template_node_id ex)) (\<lambda>role.
            if nc_producer_role c \<noteq> role
            then Inl (PermissionError, ''node completion producer does not own this graph node'')
            else if instant (nc_expires_at c) \<le> now \<or> instant (nc_issued_at c) > now + cv_clock_skew v
              \<or> instant (nc_expires_at c) - instant (nc_issued_at c) > cv_maximum_ttl v
            then Inl (PermissionError, ''node completion is expired or has invalid lifetime'')
            else if \<not> ed_verify cr key (completion_payload c) (nc_signature c)
            then Inl (PermissionError, ''node completion signature is invalid'')
            else Inr ())
      | _ \<Rightarrow> Inl (PermissionError, ''node completion producer workload is not trusted and active''))"

definition bound_to :: "node_completion \<Rightarrow> expected_completion \<Rightarrow> bool" where
  "bound_to c ex \<longleftrightarrow> nc_graph_digest c = ex_graph_digest ex \<and> nc_contract_digest c = ex_contract_digest ex
     \<and> nc_run_id c = ex_run_id ex \<and> nc_template_node_id c = ex_template_node_id ex
     \<and> nc_node_instance_id c = ex_node_instance_id ex"

definition owner_of :: "completion_verifier \<Rightarrow> node_completion \<Rightarrow> int \<Rightarrow> string \<Rightarrow> bool" where
  "owner_of v c now key \<longleftrightarrow> dget (cv_keys v) (nc_producer_identity c) = Some key
     \<and> (\<exists>identity. dget (cv_identities v) (nc_producer_identity c) = Some identity
          \<and> identity_active identity now \<and> nc_producer_role c \<in> wi_roles identity)
     \<and> dget (op_template_roles (cv_ownership v)) (nc_template_node_id c) = Some (nc_producer_role c)"

definition lifetime_ok :: "completion_verifier \<Rightarrow> node_completion \<Rightarrow> int \<Rightarrow> bool" where
  "lifetime_ok v c now \<longleftrightarrow> now < instant (nc_expires_at c) \<and> instant (nc_issued_at c) \<le> now + cv_clock_skew v
     \<and> instant (nc_expires_at c) - instant (nc_issued_at c) \<le> cv_maximum_ttl v"

lemma completion_validate_ok:
  "completion_validate cr v c ex now = Inr u \<longleftrightarrow> bound_to c ex \<and> lifetime_ok v c now
     \<and> (\<exists>key. owner_of v c now key \<and> ed_verify cr key (completion_payload c) (nc_signature c))"
proof -
  have "completion_validate cr v c ex now = Inr u \<longleftrightarrow> bound_to c ex \<and>
      (\<exists>identity key role. dget (cv_identities v) (nc_producer_identity c) = Some identity
        \<and> dget (cv_keys v) (nc_producer_identity c) = Some key \<and> identity_active identity now
        \<and> nc_producer_role c \<in> wi_roles identity
        \<and> dget (op_template_roles (cv_ownership v)) (ex_template_node_id ex) = Some role \<and> nc_producer_role c = role
        \<and> lifetime_ok v c now \<and> ed_verify cr key (completion_payload c) (nc_signature c))"
    unfolding completion_validate_def bound_to_def lifetime_ok_def required_role_def
    by (cases "dget (cv_identities v) (nc_producer_identity c)"; cases "dget (cv_keys v) (nc_producer_identity c)";
        cases "dget (op_template_roles (cv_ownership v)) (ex_template_node_id ex)")
      (simp_all add: not_less not_le, blast?)
  then show ?thesis unfolding owner_of_def by (auto simp: bound_to_def)
qed

text \<open>A completion is accepted exactly when it is bound to the expected graph, contract, run,
  node and instance, its producer is an active trusted workload that holds and owns the node's
  role, its lifetime is current and bounded, and its signature verifies under that producer's key.\<close>

theorem completion_validate_iff:
  "completion_validate cr v c ex now = Inr () \<longleftrightarrow> bound_to c ex \<and> lifetime_ok v c now
     \<and> (\<exists>key. owner_of v c now key \<and> ed_verify cr key (completion_payload c) (nc_signature c))"
  by (rule completion_validate_ok)

section \<open>The development fabric\<close>

text \<open>
  \<open>DevelopmentCompletionFabric\<close>: one workload per role. \<open>keygen\<close> stands for the key pairs that
  \<open>Ed25519PrivateKey.generate\<close> makes, one per role.
\<close>

record fabric =
  fb_ownership :: ownership_policy
  fb_signers :: "(string \<times> completion_signer) list"
  fb_verifier :: completion_verifier

definition fabric_subject :: "string \<Rightarrow> string" where
  "fabric_subject role = ''spiffe://vloop.local/'' @ role"

definition fabric_identity :: "int \<Rightarrow> string \<Rightarrow> workload_identity" where
  "fabric_identity issued role = \<lparr>wi_subject = fabric_subject role, wi_roles = {role},
     wi_valid_from = utc (issued - minutes 1), wi_valid_until = utc (issued + seconds 86400),
     wi_revoked_at = None\<rparr>"

definition fabric_init :: "crypto \<Rightarrow> string \<Rightarrow> (string \<times> string) list \<Rightarrow> int \<Rightarrow> (string \<Rightarrow> string)
    \<Rightarrow> fabric res" where
  "fabric_init cr graph roles issued keygen =
     bnd (ownership_policy_init cr \<lparr>op_graph_digest = graph, op_template_roles = roles, op_policy_digest = []\<rparr>)
       (\<lambda>ownership. let names = remdups (map snd roles) in
     bnd (map_res (\<lambda>r. workload_identity_init (fabric_identity issued r)) names) (\<lambda>identities.
     bnd (completion_verifier_init \<lparr>
            cv_identities = map (\<lambda>r. (fabric_subject r, fabric_identity issued r)) names,
            cv_keys = map (\<lambda>r. (fabric_subject r, ed_public cr (keygen r))) names,
            cv_ownership = ownership, cv_maximum_ttl = minutes 15, cv_clock_skew = seconds 30\<rparr>)
       (\<lambda>verifier. Inr \<lparr>fb_ownership = ownership,
          fb_signers = map (\<lambda>r. (r, \<lparr>cs_identity = fabric_identity issued r, cs_key = keygen r\<rparr>)) names,
          fb_verifier = verifier\<rparr>)))"

definition fabric_complete :: "crypto \<Rightarrow> fabric \<Rightarrow> node_completion \<Rightarrow> int \<Rightarrow> int \<Rightarrow> string
    \<Rightarrow> node_completion res" where
  "fabric_complete cr fb req now ttl nonce =
     bnd (required_role (fb_ownership fb) (nc_template_node_id req)) (\<lambda>role.
       case dget (fb_signers fb) role of
         None \<Rightarrow> Inl (KeyError, repr_str role)
       | Some s \<Rightarrow> completion_issue cr s (req\<lparr>nc_producer_role := role\<rparr>) now ttl nonce)"

lemma completion_payload_unsigned [simp]: "completion_payload (c\<lparr>nc_signature := x\<rparr>) = completion_payload c"
  by (simp add: completion_payload_def completion_py_def)

lemma node_completion_init_id: "node_completion_init c = Inr d \<Longrightarrow> d = c"
  by (auto simp: node_completion_init_def split: if_splits)

lemma dget_map_key: "inj f \<Longrightarrow> dget (map (\<lambda>r. (f r, g r)) rs) (f r) = (if r \<in> set rs then Some (g r) else None)"
  by (induction rs) (auto simp: dget_def inj_def)

lemma fabric_subject_inj [simp]: "inj fabric_subject" "inj (\<lambda>r :: string. r)"
  by (auto simp: inj_def fabric_subject_def)

lemma completion_issue_ok:
  assumes "node_completion_init (req\<lparr>nc_producer_identity := wi_subject (cs_identity s),
      nc_issued_at := utc now, nc_expires_at := dt_add (utc now) ttl, nc_nonce := nonce, nc_signature := []\<rparr>) = Inr u"
  shows "completion_issue cr s req now ttl nonce = Inr (u\<lparr>nc_signature := ed_sign cr (cs_key s) (completion_payload u)\<rparr>)"
  using assms node_completion_init_id [OF assms]
  by (simp add: completion_issue_def node_completion_init_def split: if_splits)

definition binding_of :: "node_completion \<Rightarrow> expected_completion" where
  "binding_of c = \<lparr>ex_graph_digest = nc_graph_digest c, ex_contract_digest = nc_contract_digest c,
     ex_run_id = nc_run_id c, ex_template_node_id = nc_template_node_id c,
     ex_node_instance_id = nc_node_instance_id c\<rparr>"

lemma fabric_initD:
  assumes "fabric_init cr graph roles issued keygen = Inr fb"
  shows "op_template_roles (fb_ownership fb) = roles" "cv_ownership (fb_verifier fb) = fb_ownership fb"
    and "fb_signers fb = map (\<lambda>r. (r, \<lparr>cs_identity = fabric_identity issued r, cs_key = keygen r\<rparr>)) (remdups (map snd roles))"
    and "cv_identities (fb_verifier fb) = map (\<lambda>r. (fabric_subject r, fabric_identity issued r)) (remdups (map snd roles))"
    and "cv_keys (fb_verifier fb) = map (\<lambda>r. (fabric_subject r, ed_public cr (keygen r))) (remdups (map snd roles))"
    and "cv_maximum_ttl (fb_verifier fb) = minutes 15" "cv_clock_skew (fb_verifier fb) = seconds 30"
  using assms
  unfolding fabric_init_def bnd_eq_Inr Let_def ownership_policy_init_def completion_verifier_init_def
  by (auto simp only: if_Inl_eq_Inr sum.inject fabric.simps completion_verifier.simps ownership_policy.simps)

text \<open>What the development fabric signs, its verifier accepts: for an owned node, until the
  completion expires or the workloads do, with the binding that was requested.\<close>

theorem fabric_roundtrip:
  assumes "ed25519_spec cr" "fabric_init cr graph roles issued keygen = Inr fb"
    and "fabric_complete cr fb req signed ttl nonce = Inr c"
    and "ttl \<le> minutes 15" "signed \<le> now" "now < signed + ttl"
    and "issued - minutes 1 \<le> now" "now < issued + seconds 86400"
  shows "completion_validate cr (fb_verifier fb) c (binding_of req) now = Inr ()"
proof -
  note fb = fabric_initD [OF assms(2)]
  obtain role s where role: "dget roles (nc_template_node_id req) = Some role"
    "dget (fb_signers fb) role = Some s"
    "completion_issue cr s (req\<lparr>nc_producer_role := role\<rparr>) signed ttl nonce = Inr c"
    using assms(3) fb(1) by (auto simp: fabric_complete_def bnd_eq_Inr required_role_def split: option.splits)
  have mem: "role \<in> set (remdups (map snd roles))"
    using role(1) by (force simp: dget_def dest: map_of_SomeD)
  have s: "s = \<lparr>cs_identity = fabric_identity issued role, cs_key = keygen role\<rparr>"
    using role(2) fb(3) dget_map_key [OF fabric_subject_inj(2), of "\<lambda>r. \<lparr>cs_identity = fabric_identity issued r, cs_key = keygen r\<rparr>"] mem
    by simp
  define u where "u = req\<lparr>nc_producer_role := role, nc_producer_identity := fabric_subject role,
    nc_issued_at := utc signed, nc_expires_at := dt_add (utc signed) ttl, nc_nonce := nonce, nc_signature := []\<rparr>"
  have c: "c = u\<lparr>nc_signature := ed_sign cr (keygen role) (completion_payload u)\<rparr>"
    using role(3) unfolding s completion_issue_def bnd_eq_Inr u_def
    by (auto dest!: node_completion_init_id simp: fabric_identity_def)
  have keys: "dget (cv_keys (fb_verifier fb)) (fabric_subject role) = Some (ed_public cr (keygen role))"
    "dget (cv_identities (fb_verifier fb)) (fabric_subject role) = Some (fabric_identity issued role)"
    unfolding fb(4,5) dget_map_key [OF fabric_subject_inj(1)] using mem by simp_all
  have "identity_active (fabric_identity issued role) now"
    using assms(7,8) by (simp add: identity_active_def fabric_identity_def utc_def)
  then have "owner_of (fb_verifier fb) c now (ed_public cr (keygen role))"
    using keys role(1) fb(1,2) by (simp add: owner_of_def c u_def fabric_identity_def)
  moreover have "lifetime_ok (fb_verifier fb) c now"
    using assms(4-6) fb(6,7) by (simp add: lifetime_ok_def c u_def utc_def dt_add_def seconds_def)
  moreover have "bound_to c (binding_of req)" by (simp add: bound_to_def binding_of_def c u_def)
  moreover have "ed_verify cr (ed_public cr (keygen role)) (completion_payload c) (nc_signature c)"
    using assms(1) by (simp add: c ed25519_spec_def)
  ultimately show ?thesis unfolding completion_validate_ok by blast
qed

definition sample_digest :: string where
  "sample_digest = replicate 64 (CHR ''a'')"

definition sample_request :: node_completion where
  "sample_request = \<lparr>nc_graph_digest = sample_digest, nc_contract_digest = sample_digest, nc_run_id = ''run'',
     nc_template_node_id = ''x'', nc_node_instance_id = sample_digest, nc_producer_identity = [],
     nc_producer_role = [], nc_artifact_digest = sample_digest, nc_validator_policy_digest = sample_digest,
     nc_result = SUCCEEDED, nc_issued_at = utc 0, nc_expires_at = utc 0, nc_nonce = [],
     nc_input_artifact_digests = [], nc_facts = [], nc_authority_refs = [], nc_evidence_refs = [],
     nc_transparency_log_proof = [], nc_signature = []\<rparr>"

definition sample_fabric :: "fabric res" where
  "sample_fabric = fabric_init toy_crypto sample_digest [(''x'', ''worker'')] 0 (\<lambda>r. r)"

lemma sample_completion:
  assumes "sample_fabric = Inr fb"
  shows "\<exists>c. fabric_complete toy_crypto fb sample_request 0 (minutes 10) ''n'' = Inr c"
proof -
  note fb = fabric_initD [OF assms [unfolded sample_fabric_def]]
  let ?s = "\<lparr>cs_identity = fabric_identity 0 ''worker'', cs_key = ''worker''\<rparr>"
  let ?u = "sample_request\<lparr>nc_producer_role := ''worker'', nc_producer_identity := fabric_subject ''worker'',
      nc_issued_at := utc 0, nc_expires_at := dt_add (utc 0) (minutes 10), nc_nonce := ''n'', nc_signature := []\<rparr>"
  have "node_completion_init ?u = Inr ?u" by code_simp
  then have "\<exists>c. completion_issue toy_crypto ?s (sample_request\<lparr>nc_producer_role := ''worker''\<rparr>) 0 (minutes 10) ''n'' = Inr c"
    using completion_issue_ok [where req = "sample_request\<lparr>nc_producer_role := ''worker''\<rparr>" and s = ?s
      and now = 0 and ttl = "minutes 10" and nonce = "''n''" and u = ?u and cr = toy_crypto]
    by (auto simp: fabric_identity_def)
  then show ?thesis
    by (simp add: fabric_complete_def required_role_def fb(1,3) dget_def sample_request_def)
qed

theorem fabric_roundtrip_witness:
  "\<exists>fb c. sample_fabric = Inr fb \<and> completion_validate toy_crypto (fb_verifier fb) c (binding_of sample_request) 1 = Inr ()"
proof -
  have "case sample_fabric of Inr c \<Rightarrow> True | Inl _ \<Rightarrow> False" by code_simp
  then obtain fb where fb: "sample_fabric = Inr fb" by (auto split: sum.splits)
  then obtain c where c: "fabric_complete toy_crypto fb sample_request 0 (minutes 10) ''n'' = Inr c"
    using sample_completion by blast
  have "completion_validate toy_crypto (fb_verifier fb) c (binding_of sample_request) 1 = Inr ()"
    by (rule fabric_roundtrip [OF toy_crypto_spec(2) fb [unfolded sample_fabric_def] c])
      (simp_all add: minutes_def seconds_def)
  with fb show ?thesis by blast
qed

end
