(* ===== verification/Scheduler.thy ===== *)
theory Scheduler
  imports Monitor Events Attestations
begin

text \<open>
  \<open>DurableGraphScheduler\<close> of \<open>src/vloop/graph_runtime.py\<close>: the only writer of graph state. The
  database holds the causal events and one row per run, graph and iteration; every operation is
  one transaction. The event identifier (\<open>uuid4\<close>) and the clock are arguments.
\<close>

section \<open>The database\<close>

record sched_row =
  rw_completed :: "string list"
  rw_events :: "(string \<times> pydict) list"
  rw_started :: "(string \<times> pydict) list"
  rw_attempts :: "(string \<times> int) list"

record sched_db =
  db_events :: "event_row list"
  db_rows :: "((string \<times> string \<times> int) \<times> sched_row) list"

definition empty_db :: sched_db where
  "empty_db = \<lparr>db_events = [], db_rows = []\<rparr>"

record scheduler =
  sc_monitor :: monitor
  sc_verifier :: "completion_verifier option"

definition scheduler_init :: "graph_manifest \<Rightarrow> graph_join list \<Rightarrow> completion_verifier option \<Rightarrow> scheduler res" where
  "scheduler_init g joins v =
     bnd (monitor_init g (if joins = [] then gm_joins g else joins)) (\<lambda>m.
       Inr \<lparr>sc_monitor = m, sc_verifier = v\<rparr>)"

abbreviation sc_manifest :: "scheduler \<Rightarrow> graph_manifest" where
  "sc_manifest sc \<equiv> mon_manifest (sc_monitor sc)"

definition sc_digest :: "crypto \<Rightarrow> scheduler \<Rightarrow> string" where
  "sc_digest cr sc = graph_digest cr (sc_manifest sc)"

definition node_role :: "scheduler \<Rightarrow> string \<Rightarrow> string option" where
  "node_role sc n = map_option (\<lambda>node. case dget (nd_metadata node) ''producer_role'' of
     None \<Rightarrow> ''controller'' | Some r \<Rightarrow> r) (by_id (sc_manifest sc) n)"

definition row_key :: "crypto \<Rightarrow> scheduler \<Rightarrow> string \<Rightarrow> int \<Rightarrow> string \<times> string \<times> int" where
  "row_key cr sc run iteration = (run, sc_digest cr sc, iteration)"

text \<open>\<open>state\<close>, \<open>_attempts\<close> and \<open>_save\<close>: what is written is read back normalised.\<close>

definition load_state :: "crypto \<Rightarrow> scheduler \<Rightarrow> sched_db \<Rightarrow> string \<Rightarrow> int \<Rightarrow> transition_state res" where
  "load_state cr sc db run iteration =
     (case dget (db_rows db) (row_key cr sc run iteration) of
        None \<Rightarrow> initial_state iteration
      | Some r \<Rightarrow> Inr \<lparr>ts_iteration = iteration, ts_completed = set (rw_completed r),
                       ts_events = rw_events r, ts_started = rw_started r\<rparr>)"

definition load_attempts :: "crypto \<Rightarrow> scheduler \<Rightarrow> sched_db \<Rightarrow> string \<Rightarrow> int \<Rightarrow> (string \<times> int) list" where
  "load_attempts cr sc db run iteration =
     (case dget (db_rows db) (row_key cr sc run iteration) of None \<Rightarrow> [] | Some r \<Rightarrow> rw_attempts r)"

definition norm_events :: "(string \<times> pydict) list \<Rightarrow> (string \<times> pydict) list" where
  "norm_events evs = sort_dict (map (\<lambda>(k, p). (k, norm_dict p)) evs)"

definition save_state :: "crypto \<Rightarrow> scheduler \<Rightarrow> string \<Rightarrow> transition_state \<Rightarrow> (string \<times> int) list
    \<Rightarrow> sched_db \<Rightarrow> sched_db" where
  "save_state cr sc run st attempts db = db\<lparr>db_rows :=
     AList.update (row_key cr sc run (ts_iteration st))
       \<lparr>rw_completed = sorted_list_of_set (ts_completed st), rw_events = norm_events (ts_events st),
        rw_started = norm_events (ts_started st), rw_attempts = sort_dict attempts\<rparr> (db_rows db)\<rparr>"

text \<open>
  A transaction: the statements run against the database one after the other, and an exception
  rolls all of them back.
\<close>

type_synonym 'a tx = "sched_db \<Rightarrow> 'a res \<times> sched_db"

definition transaction :: "'a tx \<Rightarrow> 'a tx" where
  "transaction body db = (case body db of (Inl e, _) \<Rightarrow> (Inl e, db) | (Inr x, db') \<Rightarrow> (Inr x, db'))"

definition tx_lift :: "(sched_db \<Rightarrow> 'a res) \<Rightarrow> ('a \<Rightarrow> 'b tx) \<Rightarrow> 'b tx" where
  "tx_lift f k db = (case f db of Inl e \<Rightarrow> (Inl e, db) | Inr x \<Rightarrow> k x db)"

definition tx_append :: "crypto \<Rightarrow> causal_event \<Rightarrow> 'b tx \<Rightarrow> 'b tx" where
  "tx_append cr e k db = (case event_append cr e (db_events db) of
     Inl err \<Rightarrow> (Inl err, db) | Inr rows \<Rightarrow> k (db\<lparr>db_events := rows\<rparr>))"

definition tx_finish :: "(sched_db \<Rightarrow> sched_db) \<Rightarrow> 'b \<Rightarrow> 'b tx" where
  "tx_finish f x db = (Inr x, f db)"

section \<open>Operations\<close>

record sched_args =
  sa_run_id :: string
  sa_iteration :: int
  sa_node :: string
  sa_event_type :: string
  sa_payload :: pydict
  sa_causal_parents :: "string list"
  sa_input_artifacts :: "(string \<times> string) list"
  sa_output_artifacts :: "(string \<times> string) list"
  sa_authorization_ref :: string
  sa_receipt_refs :: "string list"

definition event_of :: "crypto \<Rightarrow> scheduler \<Rightarrow> sched_args \<Rightarrow> string \<Rightarrow> int \<Rightarrow> pydict \<Rightarrow> string \<Rightarrow> int
    \<Rightarrow> causal_event" where
  "event_of cr sc a inst attempt payload eid now =
     \<lparr>ce_event_id = eid, ce_run_id = sa_run_id a, ce_graph_digest = sc_digest cr sc,
      ce_node_instance_id = inst, ce_template_node_id = sa_node a, ce_event_type = sa_event_type a,
      ce_iteration = sa_iteration a, ce_attempt = attempt, ce_causal_parents = sa_causal_parents a,
      ce_input_artifacts = sa_input_artifacts a, ce_output_artifacts = sa_output_artifacts a,
      ce_authorization_ref = sa_authorization_ref a, ce_receipt_refs = sa_receipt_refs a,
      ce_payload = payload, ce_occurred_at = utc now\<rparr>"

definition next_attempt :: "(string \<times> int) list \<Rightarrow> string \<Rightarrow> int" where
  "next_attempt attempts n = (case dget attempts n of None \<Rightarrow> 1 | Some k \<Rightarrow> k + 1)"

text \<open>The branch of \<open>advance\<close> for nodes that the controller or the scheduler own.\<close>

definition advance_owned :: "crypto \<Rightarrow> scheduler \<Rightarrow> sched_args \<Rightarrow> string \<Rightarrow> int
    \<Rightarrow> (causal_event \<times> transition_state) tx" where
  "advance_owned cr sc a eid now =
     transaction (
       tx_lift (\<lambda>db. load_state cr sc db (sa_run_id a) (sa_iteration a)) (\<lambda>state.
       tx_lift (\<lambda>_. mon_advance cr (sc_monitor sc) state (sa_node a) (sa_payload a)) (\<lambda>next_st.
       tx_lift (\<lambda>db. Inr (load_attempts cr sc db (sa_run_id a) (sa_iteration a))) (\<lambda>attempts.
       let attempt = next_attempt attempts (sa_node a) in
       tx_lift (\<lambda>_. node_instance_id cr (sa_run_id a) (sc_digest cr sc) (sa_node a) (sa_iteration a) attempt) (\<lambda>inst.
       tx_lift (\<lambda>_. causal_event_init (event_of cr sc a inst attempt (sa_payload a) eid now)) (\<lambda>event.
       tx_append cr event (
       tx_finish (save_state cr sc (sa_run_id a) next_st (AList.update (sa_node a) attempt attempts))
         (event, next_st))))))))"

definition sched_reserve :: "crypto \<Rightarrow> scheduler \<Rightarrow> sched_args \<Rightarrow> string \<Rightarrow> int
    \<Rightarrow> (causal_event \<times> string \<times> transition_state) tx" where
  "sched_reserve cr sc a eid now db =
     (if blank (sa_run_id a) \<or> sa_iteration a < 1
      then (Inl (ValueError, ''scheduled reservations need a run and positive iteration''), db)
      else transaction (
       tx_lift (\<lambda>db. load_state cr sc db (sa_run_id a) (sa_iteration a)) (\<lambda>state.
       tx_lift (\<lambda>_. mon_reserve cr (sc_monitor sc) state (sa_node a) (sa_payload a)) (\<lambda>reserved.
       tx_lift (\<lambda>db. Inr (load_attempts cr sc db (sa_run_id a) (sa_iteration a))) (\<lambda>attempts.
       let attempt = next_attempt attempts (sa_node a) in
       tx_lift (\<lambda>_. node_instance_id cr (sa_run_id a) (sc_digest cr sc) (sa_node a) (sa_iteration a) attempt) (\<lambda>inst.
       let next_st = reserved\<lparr>ts_started := AList.update (sa_node a)
             (dmerge (sa_payload a) [(''node_instance_id'', PStr inst), (''attempt'', PInt attempt)])
             (ts_started reserved)\<rparr> in
       tx_lift (\<lambda>_. causal_event_init (event_of cr sc
             (a\<lparr>sa_input_artifacts := [], sa_output_artifacts := [], sa_authorization_ref := [], sa_receipt_refs := []\<rparr>)
             inst attempt (dmerge [(''lifecycle'', PStr ''started'')] (sa_payload a)) eid now)) (\<lambda>event.
       tx_append cr event (
       tx_finish (save_state cr sc (sa_run_id a) next_st (AList.update (sa_node a) attempt attempts))
         (event, inst, next_st)))))))) db)"

text \<open>The payload of a completion: facts, then the producer's authenticated fields, then the caller's.\<close>

definition decoded_facts :: "(string \<times> string) list \<Rightarrow> pydict" where
  "decoded_facts facts = map (\<lambda>(k, v). (k, if k = ''passed'' \<and> (v = ''true'' \<or> v = ''false'')
     then PBool (v = ''true'') else PStr v)) facts"

definition authenticated_fields :: "crypto \<Rightarrow> node_completion \<Rightarrow> pydict" where
  "authenticated_fields cr c =
     [(''result'', PStr (completion_result_value (nc_result c))),
      (''success'', PBool (nc_result c = SUCCEEDED)),
      (''completion_digest'', PStr (completion_digest cr c)),
      (''producer_identity'', PStr (nc_producer_identity c)),
      (''producer_role'', PStr (nc_producer_role c)),
      (''artifact_digest'', PStr (nc_artifact_digest c))]"

definition completion_event_payload :: "crypto \<Rightarrow> node_completion \<Rightarrow> pydict \<Rightarrow> pydict" where
  "completion_event_payload cr c payload =
     dmerge (dmerge (decoded_facts (nc_facts c)) (authenticated_fields cr c)) payload"

definition complete_direct :: "crypto \<Rightarrow> scheduler \<Rightarrow> sched_args \<Rightarrow> node_completion \<Rightarrow> string \<Rightarrow> int
    \<Rightarrow> (causal_event \<times> transition_state) tx" where
  "complete_direct cr sc a c eid now db =
     (case sc_verifier sc of
        None \<Rightarrow> (Inl (PermissionError, ''validated completions require a configured ownership verifier''), db)
      | Some v \<Rightarrow> transaction (
         tx_lift (\<lambda>db. load_state cr sc db (sa_run_id a) (sa_iteration a)) (\<lambda>state.
         tx_lift (\<lambda>_. case dget (ts_started state) (sa_node a) of
             None \<Rightarrow> Inl (PermissionError, ''external node completion has no prior reservation'')
           | Some s \<Rightarrow> Inr s) (\<lambda>started.
         let inst = py_str (ddef started ''node_instance_id'' (PStr [])) in
         tx_lift (\<lambda>_. completion_validate cr v c \<lparr>ex_graph_digest = sc_digest cr sc,
             ex_contract_digest = gm_contract_digest (sc_manifest sc), ex_run_id = sa_run_id a,
             ex_template_node_id = sa_node a, ex_node_instance_id = inst\<rparr> now) (\<lambda>_.
         let payload = completion_event_payload cr c (sa_payload a) in
         tx_lift (\<lambda>_. mon_complete state (sa_node a) payload) (\<lambda>next_st.
         tx_lift (\<lambda>_. int_of (ddef started ''attempt'' (PInt 1))) (\<lambda>attempt.
         tx_lift (\<lambda>_. causal_event_init (event_of cr sc a inst attempt
             (dmerge [(''lifecycle'', PStr (completion_result_value (nc_result c)))] payload) eid now)) (\<lambda>event.
         tx_append cr event (\<lambda>db.
         tx_finish (save_state cr sc (sa_run_id a) next_st (load_attempts cr sc db (sa_run_id a) (sa_iteration a)))
           (event, next_st) db)))))))) db)"

definition sched_complete :: "crypto \<Rightarrow> scheduler \<Rightarrow> sched_args \<Rightarrow> node_completion \<Rightarrow> string \<Rightarrow> int
    \<Rightarrow> (causal_event \<times> transition_state) tx" where
  "sched_complete cr sc a c eid now = complete_direct cr sc
     (a\<lparr>sa_payload := [], sa_input_artifacts := nc_input_artifact_digests c,
        sa_output_artifacts := [(''primary'', nc_artifact_digest c)],
        sa_authorization_ref := (case nc_authority_refs c of [] \<Rightarrow> [] | r # _ \<Rightarrow> r),
        sa_receipt_refs := nc_evidence_refs c\<rparr>) c eid now"

definition internal_roles :: "string list" where
  "internal_roles = [''controller'', ''scheduler'']"

definition sched_advance :: "crypto \<Rightarrow> scheduler \<Rightarrow> sched_args \<Rightarrow> node_completion option \<Rightarrow> string \<Rightarrow> int
    \<Rightarrow> (causal_event \<times> transition_state) tx" where
  "sched_advance cr sc a completion eid now db =
     (if blank (sa_run_id a) \<or> sa_iteration a < 1
      then (Inl (ValueError, ''scheduled transitions need a run and positive iteration''), db)
      else case node_role sc (sa_node a) of
        None \<Rightarrow> (Inl (PermissionError, ''graph node has no producer ownership assignment''), db)
      | Some role \<Rightarrow>
          if sc_verifier sc \<noteq> None \<and> role \<notin> set internal_roles
          then (case completion of
              None \<Rightarrow> (Inl (PermissionError, ''externally owned graph nodes require a validated completion''), db)
            | Some c \<Rightarrow> complete_direct cr sc a c eid now db)
          else advance_owned cr sc a eid now db)"

end
