(* ===== verification/Scheduler_Inv.thy ===== *)
theory Scheduler_Inv
  imports Scheduler
begin

text \<open>
  What the durable scheduler keeps: failed operations change nothing, every stored state
  satisfies the monitor's invariant, the event log and the stored states agree, and a node owned
  by an external workload completes only with that workload's validated completion.
\<close>

section \<open>Transactions\<close>

lemma transaction_Inr: "transaction body db = (Inr x, db') \<longleftrightarrow> body db = (Inr x, db')"
  by (cases "body db"; cases "fst (body db)") (auto simp: transaction_def)

lemma transaction_Inl: "transaction body db = (Inl e, db') \<Longrightarrow> db' = db"
  by (cases "body db"; cases "fst (body db)") (auto simp: transaction_def)

lemma tx_lift_Inr: "tx_lift f k db = (Inr x, db') \<longleftrightarrow> (\<exists>y. f db = Inr y \<and> k y db = (Inr x, db'))"
  by (cases "f db") (auto simp: tx_lift_def)

lemma tx_append_Inr: "tx_append cr e k db = (Inr x, db') \<longleftrightarrow>
    (\<exists>rows. event_append cr e (db_events db) = Inr rows \<and> k (db\<lparr>db_events := rows\<rparr>) = (Inr x, db'))"
  by (cases "event_append cr e (db_events db)") (auto simp: tx_append_def)

lemma tx_finish_Inr: "tx_finish f y db = (Inr x, db') \<longleftrightarrow> x = y \<and> db' = f db"
  by (auto simp: tx_finish_def)

lemmas tx_simps = transaction_Inr tx_lift_Inr tx_append_Inr tx_finish_Inr

section \<open>One committed operation\<close>

text \<open>What an operation does to the state of its run and iteration.\<close>

inductive sched_effect :: "monitor \<Rightarrow> transition_state \<Rightarrow> string \<Rightarrow> transition_state \<Rightarrow> bool" for m where
  advanced: "enabled m st n payload = Inr True \<Longrightarrow> sched_effect m st n (completed_state st n payload)"
| started: "enabled m st n payload = Inr True
    \<Longrightarrow> sched_effect m st n (st\<lparr>ts_started := AList.update n p (ts_started st)\<rparr>)"
| finished: "n \<in> set (dkeys (ts_started st)) \<Longrightarrow> sched_effect m st n (completed_state st n payload)"

inductive_cases sched_effectE: "sched_effect m st n st'"

definition committed :: "crypto \<Rightarrow> scheduler \<Rightarrow> sched_args \<Rightarrow> causal_event \<Rightarrow> sched_db \<Rightarrow> sched_db \<Rightarrow> bool" where
  "committed cr sc a ev db db' \<longleftrightarrow>
     (\<exists>st st' attempts. load_state cr sc db (sa_run_id a) (sa_iteration a) = Inr st
        \<and> sched_effect (sc_monitor sc) st (sa_node a) st'
        \<and> event_append cr ev (db_events db) = Inr (db_events db @ [event_row_of cr ev])
        \<and> db' = save_state cr sc (sa_run_id a) st' attempts (db\<lparr>db_events := db_events db @ [event_row_of cr ev]\<rparr>)
        \<and> ce_run_id ev = sa_run_id a \<and> ce_template_node_id ev = sa_node a
        \<and> ce_iteration ev = sa_iteration a \<and> ce_graph_digest ev = sc_digest cr sc
        \<and> causal_event_init ev = Inr ev)"

lemma load_attempts_events [simp]:
  "load_attempts cr sc (db\<lparr>db_events := rows\<rparr>) run i = load_attempts cr sc db run i"
  by (simp add: load_attempts_def)

lemma causal_event_init_id: "causal_event_init e = Inr e' \<Longrightarrow> e' = e"
  by (auto simp: causal_event_init_def split: if_splits)

lemma event_of_simps [simp]:
  "ce_run_id (event_of cr sc a inst k p eid now) = sa_run_id a"
  "ce_template_node_id (event_of cr sc a inst k p eid now) = sa_node a"
  "ce_iteration (event_of cr sc a inst k p eid now) = sa_iteration a"
  "ce_graph_digest (event_of cr sc a inst k p eid now) = sc_digest cr sc"
  "ce_payload (event_of cr sc a inst k p eid now) = p"
  "ce_node_instance_id (event_of cr sc a inst k p eid now) = inst"
  by (simp_all add: event_of_def)

lemma mon_advance_effect:
  "mon_advance cr m st n p = Inr st' \<Longrightarrow> sched_effect m st n st'"
  by (auto simp: mon_advance_def bnd_eq_Inr intro: sched_effect.advanced)

lemma mon_complete_effect: "mon_complete st n p = Inr st' \<Longrightarrow> sched_effect m st n st'"
  by (auto simp: mon_complete_def intro: sched_effect.finished split: if_splits)

lemma mon_reserve_effect:
  assumes "mon_reserve cr m st n p = Inr st'"
  shows "sched_effect m st n (st'\<lparr>ts_started := AList.update n q (ts_started st')\<rparr>)"
proof -
  have e: "enabled m st n p = Inr True" and st': "st' = st\<lparr>ts_started := AList.update n p (ts_started st)\<rparr>"
    using assms by (auto simp: mon_reserve_def bnd_eq_Inr)
  have "AList.update n q (AList.update n p xs) = AList.update n q xs" for xs :: "(string \<times> pydict) list"
    by (induction xs) auto
  then show ?thesis using sched_effect.started [OF e, of q] by (simp add: st')
qed

lemma committedI:
  assumes "load_state cr sc db (sa_run_id a) (sa_iteration a) = Inr st"
    "sched_effect (sc_monitor sc) st (sa_node a) st'"
    "causal_event_init (event_of cr sc b inst attempt payload eid now) = Inr ev"
    "sa_run_id b = sa_run_id a" "sa_node b = sa_node a" "sa_iteration b = sa_iteration a"
    "event_append cr ev (db_events db) = Inr rows"
    "\<exists>attempts. db' = save_state cr sc (sa_run_id a) st' attempts (db\<lparr>db_events := rows\<rparr>)"
  shows "committed cr sc a ev db db'"
proof -
  have ev: "ev = event_of cr sc b inst attempt payload eid now"
    by (rule causal_event_init_id [OF assms(3)])
  have "rows = db_events db @ [event_row_of cr ev]" by (rule event_append_rows [OF assms(7)])
  then show ?thesis
    unfolding committed_def using assms ev by auto
qed

lemma advance_owned_committed:
  assumes "advance_owned cr sc a eid now db = (Inr (ev, st), db')"
  shows "committed cr sc a ev db db'"
proof -
  obtain state inst attempt rows where r:
    "load_state cr sc db (sa_run_id a) (sa_iteration a) = Inr state"
    "mon_advance cr (sc_monitor sc) state (sa_node a) (sa_payload a) = Inr st"
    "causal_event_init (event_of cr sc a inst attempt (sa_payload a) eid now) = Inr ev"
    "event_append cr ev (db_events db) = Inr rows"
    "\<exists>attempts. db' = save_state cr sc (sa_run_id a) st attempts (db\<lparr>db_events := rows\<rparr>)"
    using assms unfolding advance_owned_def Let_def by (simp add: tx_simps) blast
  show ?thesis
    by (rule committedI [OF r(1) mon_advance_effect [OF r(2)] r(3) _ _ _ r(4,5)]) simp_all
qed

text \<open>A completion succeeds only after the verifier has accepted it for the reserved instance.\<close>

definition reserved_instance :: "transition_state \<Rightarrow> string \<Rightarrow> string" where
  "reserved_instance st n = (case dget (ts_started st) n of None \<Rightarrow> []
     | Some s \<Rightarrow> py_str (ddef s ''node_instance_id'' (PStr [])))"

lemma complete_directE:
  assumes "complete_direct cr sc a c eid now db = (Inr (ev, st), db')"
  obtains v state attempt rows where "sc_verifier sc = Some v"
    "load_state cr sc db (sa_run_id a) (sa_iteration a) = Inr state"
    "completion_validate cr v c \<lparr>ex_graph_digest = sc_digest cr sc,
       ex_contract_digest = gm_contract_digest (sc_manifest sc), ex_run_id = sa_run_id a,
       ex_template_node_id = sa_node a, ex_node_instance_id = reserved_instance state (sa_node a)\<rparr> now = Inr ()"
    "mon_complete state (sa_node a) (completion_event_payload cr c (sa_payload a)) = Inr st"
    "causal_event_init (event_of cr sc a (reserved_instance state (sa_node a)) attempt
       (dmerge [(''lifecycle'', PStr (completion_result_value (nc_result c)))]
          (completion_event_payload cr c (sa_payload a))) eid now) = Inr ev"
    "event_append cr ev (db_events db) = Inr rows"
    "\<exists>attempts. db' = save_state cr sc (sa_run_id a) st attempts (db\<lparr>db_events := rows\<rparr>)"
proof -
  obtain v where v: "sc_verifier sc = Some v"
    using assms by (cases "sc_verifier sc") (auto simp: complete_direct_def)
  obtain state started where st: "load_state cr sc db (sa_run_id a) (sa_iteration a) = Inr state"
    "dget (ts_started state) (sa_node a) = Some started"
    using assms v unfolding complete_direct_def Let_def
    by (simp add: tx_simps) (metis (no_types, lifting) Inl_Inr_False option.case_eq_if option.collapse)
  have inst: "py_str (ddef started ''node_instance_id'' (PStr [])) = reserved_instance state (sa_node a)"
    by (simp add: reserved_instance_def st(2))
  show thesis
    by (insert assms [unfolded complete_direct_def Let_def], simp add: tx_simps v st inst, elim exE conjE, hypsubst)
      (rule that [OF v st(1)], assumption+, blast)
qed

lemma complete_direct_committed:
  assumes "complete_direct cr sc a c eid now db = (Inr (ev, st), db')"
  shows "committed cr sc a ev db db'"
proof (rule complete_directE [OF assms])
  fix v state attempt rows
  assume r: "load_state cr sc db (sa_run_id a) (sa_iteration a) = Inr state"
    "mon_complete state (sa_node a) (completion_event_payload cr c (sa_payload a)) = Inr st"
    "causal_event_init (event_of cr sc a (reserved_instance state (sa_node a)) attempt
       (dmerge [(''lifecycle'', PStr (completion_result_value (nc_result c)))]
          (completion_event_payload cr c (sa_payload a))) eid now) = Inr ev"
    "event_append cr ev (db_events db) = Inr rows"
    "\<exists>attempts. db' = save_state cr sc (sa_run_id a) st attempts (db\<lparr>db_events := rows\<rparr>)"
  show ?thesis
    by (rule committedI [OF r(1) mon_complete_effect [OF r(2)] r(3) _ _ _ r(4,5)]) simp_all
qed

lemma reserve_committed:
  assumes "sched_reserve cr sc a eid now db = (Inr (ev, inst, st), db')"
  shows "committed cr sc a ev db db'"
proof -
  let ?a = "a\<lparr>sa_input_artifacts := [], sa_output_artifacts := [], sa_authorization_ref := [], sa_receipt_refs := []\<rparr>"
  obtain state reserved attempt rows where r:
    "load_state cr sc db (sa_run_id a) (sa_iteration a) = Inr state"
    "mon_reserve cr (sc_monitor sc) state (sa_node a) (sa_payload a) = Inr reserved"
    "causal_event_init (event_of cr sc ?a inst attempt (dmerge [(''lifecycle'', PStr ''started'')] (sa_payload a)) eid now) = Inr ev"
    "event_append cr ev (db_events db) = Inr rows"
    "st = reserved\<lparr>ts_started := AList.update (sa_node a)
      (dmerge (sa_payload a) [(''node_instance_id'', PStr inst), (''attempt'', PInt attempt)]) (ts_started reserved)\<rparr>"
    "\<exists>attempts. db' = save_state cr sc (sa_run_id a) st attempts (db\<lparr>db_events := rows\<rparr>)"
    using assms unfolding sched_reserve_def Let_def
    by (simp add: tx_simps split: if_splits) blast
  have "sched_effect (sc_monitor sc) state (sa_node a) st"
    unfolding r(5) by (rule mon_reserve_effect [OF r(2)])
  then show ?thesis
    by (rule committedI [OF r(1) _ r(3) _ _ _ r(4,6)]) simp_all
qed

section \<open>Runs of the scheduler\<close>

inductive sched_step :: "crypto \<Rightarrow> scheduler \<Rightarrow> sched_db \<Rightarrow> sched_db \<Rightarrow> bool" for cr sc where
  advance: "sched_advance cr sc a c eid now db = (r, db') \<Longrightarrow> sched_step cr sc db db'"
| reserve: "sched_reserve cr sc a eid now db = (r', db') \<Longrightarrow> sched_step cr sc db db'"
| complete: "sched_complete cr sc a c' eid now db = (r'', db') \<Longrightarrow> sched_step cr sc db db'"

inductive sched_reachable :: "crypto \<Rightarrow> scheduler \<Rightarrow> sched_db \<Rightarrow> bool" for cr sc where
  empty: "sched_reachable cr sc empty_db"
| step: "sched_reachable cr sc db \<Longrightarrow> sched_step cr sc db db' \<Longrightarrow> sched_reachable cr sc db'"

lemma complete_direct_error:
  "complete_direct cr sc a c eid now db = (Inl e, db') \<Longrightarrow> db' = db"
  unfolding complete_direct_def by (cases "sc_verifier sc") (auto dest: transaction_Inl)

lemma advance_committed:
  assumes "sched_advance cr sc a c eid now db = (Inr (ev, st), db')"
  shows "committed cr sc a ev db db'"
  using assms unfolding sched_advance_def
  by (auto split: if_splits option.splits dest: complete_direct_committed advance_owned_committed)

lemma complete_committed:
  "sched_complete cr sc a c eid now db = (Inr (ev, st), db') \<Longrightarrow> committed cr sc a ev db db'"
  unfolding sched_complete_def by (drule complete_direct_committed) (simp add: committed_def)

lemma committed_events:
  "committed cr sc a ev db db' \<Longrightarrow> db_events db' = db_events db @ [event_row_of cr ev]"
  by (auto simp: committed_def save_state_def)

lemma advance_error: "sched_advance cr sc a c eid now db = (Inl e, db') \<Longrightarrow> db' = db"
  unfolding sched_advance_def advance_owned_def
  by (auto split: if_splits option.splits dest: complete_direct_error transaction_Inl)

lemma reserve_error: "sched_reserve cr sc a eid now db = (Inl e, db') \<Longrightarrow> db' = db"
  unfolding sched_reserve_def by (auto split: if_splits dest: transaction_Inl)

lemma complete_error: "sched_complete cr sc a c eid now db = (Inl e, db') \<Longrightarrow> db' = db"
  unfolding sched_complete_def by (rule complete_direct_error)

text \<open>An operation of the scheduler that fails leaves the database exactly as it was; one that
  succeeds appends exactly one event: there is no event without its state change and no state
  change without its event.\<close>

theorem scheduler_atomic:
  "(case sched_advance cr sc a c eid now db of
      (Inl e, db') \<Rightarrow> db' = db
    | (Inr (ev, st), db') \<Rightarrow> db_events db' = db_events db @ [event_row_of cr ev])
   \<and> (case sched_reserve cr sc a eid now db of
      (Inl e, db') \<Rightarrow> db' = db
    | (Inr (ev, inst, st), db') \<Rightarrow> db_events db' = db_events db @ [event_row_of cr ev])
   \<and> (case sched_complete cr sc a c' eid now db of
      (Inl e, db') \<Rightarrow> db' = db
    | (Inr (ev, st), db') \<Rightarrow> db_events db' = db_events db @ [event_row_of cr ev])"
  by (auto split: prod.split sum.split
      dest: advance_error reserve_error complete_error
        advance_committed reserve_committed complete_committed committed_events)

section \<open>Stored states and the event log\<close>

definition row_state :: "sched_row \<Rightarrow> int \<Rightarrow> transition_state" where
  "row_state r i = \<lparr>ts_iteration = i, ts_completed = set (rw_completed r), ts_events = rw_events r,
     ts_started = rw_started r\<rparr>"

definition normal_events :: "transition_state \<Rightarrow> bool" where
  "normal_events st \<longleftrightarrow> (\<forall>k p. dget (ts_events st) k = Some p \<longrightarrow> norm_dict p = p)"

definition json_field :: "event_row \<Rightarrow> string \<Rightarrow> pyval option" where
  "json_field r k = (case er_event_json r of PDict d \<Rightarrow> dget d k | _ \<Rightarrow> None)"

text \<open>The nodes for which the log of a run holds an event of this graph and iteration.\<close>

definition logged_nodes :: "crypto \<Rightarrow> scheduler \<Rightarrow> sched_db \<Rightarrow> string \<Rightarrow> int \<Rightarrow> string set" where
  "logged_nodes cr sc db run i = {n. \<exists>r \<in> set (db_events db). er_run_id r = run
     \<and> er_graph_digest r = sc_digest cr sc \<and> json_field r ''iteration'' = Some (PInt i)
     \<and> json_field r ''template_node_id'' = Some (PStr n)}"

definition state_nodes :: "transition_state \<Rightarrow> string set" where
  "state_nodes st = ts_completed st \<union> set (dkeys (ts_started st))"

definition db_inv :: "crypto \<Rightarrow> scheduler \<Rightarrow> sched_db \<Rightarrow> bool" where
  "db_inv cr sc db \<longleftrightarrow>
     (\<forall>run i st. load_state cr sc db run i = Inr st \<longrightarrow>
        mon_inv (sc_monitor sc) st \<and> normal_events st \<and> ts_iteration st = i
        \<and> logged_nodes cr sc db run i = state_nodes st)"

lemma mon_inv_cong:
  assumes "mon_inv m st" "ts_completed st' = ts_completed st"
    "\<And>k. dget (ts_events st') k = dget (ts_events st) k"
    "set (dkeys (ts_started st')) = set (dkeys (ts_started st))"
  shows "mon_inv m st'"
proof -
  have "edge_holds st' e = edge_holds st e" for e
    using assms(2,3) condition_matches_events [of "ts_events st'" e "ts_events st"]
    by (simp add: edge_holds_def)
  then have eh: "edge_holds st' = edge_holds st" by (rule ext)
  have "justified m st' = justified m st"
    by (rule ext) (simp only: justified_def eh)
  moreover have "set (dkeys (ts_events st')) = set (dkeys (ts_events st))"
    using assms(3) by (auto simp: set_eq_iff dget_None_iff [symmetric, THEN arg_cong [where f = Not], simplified])
  ultimately show ?thesis using assms unfolding mon_inv_def by simp
qed

lemma dget_norm_events: "dget (norm_events evs) k = map_option norm_dict (dget evs k)"
  by (simp add: norm_events_def dget_map_value)

lemma dkeys_norm_events [simp]: "set (dkeys (norm_events evs)) = set (dkeys evs)"
  by (simp add: norm_events_def)

lemma load_state_saved:
  "load_state cr sc (save_state cr sc run st attempts db) run' i =
     (if run' = run \<and> i = ts_iteration st
      then Inr (row_state \<lparr>rw_completed = sorted_list_of_set (ts_completed st), rw_events = norm_events (ts_events st),
                  rw_started = norm_events (ts_started st), rw_attempts = sort_dict attempts\<rparr> i)
      else load_state cr sc db run' i)"
  by (simp add: load_state_def save_state_def row_key_def row_state_def)

lemma load_state_events [simp]: "load_state cr sc (db\<lparr>db_events := rows\<rparr>) run i = load_state cr sc db run i"
  by (simp add: load_state_def)

lemma json_field_event [simp]:
  "json_field (event_row_of cr e) ''iteration'' = Some (PInt (ce_iteration e))"
  "json_field (event_row_of cr e) ''template_node_id'' = Some (PStr (ce_template_node_id e))"
  by (simp_all del: json_norm.simps(3) add: json_field_def event_row_of_def encode_event_def json_norm_PDict
      dget_norm_dict event_fields_def dget_Cons)

lemma effect_inv:
  assumes "sched_effect m st n st'" "mon_inv m st" "joins_distinct m"
  shows "mon_inv m st' \<and> finite (ts_completed st') \<and> state_nodes st' = insert n (state_nodes st)
    \<and> ts_iteration st' = ts_iteration st"
proof -
  have sub: "ts_completed st \<subseteq> set (dkeys (ts_events st))" using assms(2) by (auto simp: mon_inv_def)
  have dj: "distinct (join_predecessors j)" if "mon_join m n = Some j" for j
    using assms(3) mon_join_in [OF that] by (auto simp: joins_distinct_def)
  have fin: "finite (ts_completed s)" if "mon_inv m s" for s :: transition_state
    using that unfolding mon_inv_def mon_nodes_def by (auto intro: finite_subset [OF _ List.finite_set])
  have en: "justified m st n \<and> n \<in> mon_nodes m \<and> n \<notin> ts_completed st" if "enabled m st n p = Inr True" for p
    using enabled_justified [OF that sub dj] by blast
  have inv: "mon_inv m st'"
    using assms(1)
  proof cases
    case (advanced p)
    then show ?thesis using complete_keeps_inv [OF assms(2,3), of n p] en by auto
  next
    case (started p q)
    show ?thesis
      by (rule start_keeps_inv [OF assms(2,3), where n = n]) (use started en in auto)
  next
    case (finished p)
    then have "n \<notin> ts_completed st" "n \<in> mon_nodes m" "justified m st n"
      using assms(2) by (auto simp: mon_inv_def)
    then show ?thesis using complete_keeps_inv [OF assms(2,3), of n p] finished by auto
  qed
  have "state_nodes st' = insert n (state_nodes st)" "ts_iteration st' = ts_iteration st"
    using assms(1) by (cases; auto simp: state_nodes_def)+
  with inv fin show ?thesis by blast
qed

lemma normal_dget: "normal_events st \<Longrightarrow> map_option norm_dict (dget (ts_events st) k) = dget (ts_events st) k"
  by (cases "dget (ts_events st) k") (auto simp: normal_events_def)

definition saved_row :: "transition_state \<Rightarrow> (string \<times> int) list \<Rightarrow> sched_row" where
  "saved_row st attempts = \<lparr>rw_completed = sorted_list_of_set (ts_completed st),
     rw_events = norm_events (ts_events st), rw_started = norm_events (ts_started st), rw_attempts = attempts\<rparr>"

lemma row_state_saved:
  assumes "finite (ts_completed st)"
  shows "ts_completed (row_state (saved_row st attempts) i) = ts_completed st"
    and "dget (ts_events (row_state (saved_row st attempts) i)) k = map_option norm_dict (dget (ts_events st) k)"
    and "set (dkeys (ts_started (row_state (saved_row st attempts) i))) = set (dkeys (ts_started st))"
    and "ts_iteration (row_state (saved_row st attempts) i) = i"
  using assms by (simp_all add: row_state_def saved_row_def dget_norm_events)

text \<open>Reading a saved state back keeps the invariant: the events are the same up to normalisation.\<close>

lemma saved_inv:
  assumes e: "sched_effect m st n st'" and inv: "mon_inv m st" and norm: "normal_events st"
    and d: "joins_distinct m"
  shows "mon_inv m (row_state (saved_row st' attempts) i)"
proof -
  note eff = effect_inv [OF e inv d]
  have fin: "finite (ts_completed st')" using eff by blast
  note rs = row_state_saved [OF fin, of attempts i]
  have completed: "mon_inv m (row_state (saved_row st' attempts) i)"
    if st': "st' = completed_state st n p" and n: "n \<in> mon_nodes m" "justified m st n" "n \<notin> ts_completed st" for p
  proof (rule mon_inv_cong [OF complete_keeps_inv [OF inv d n(3,1,2), of "norm_dict p"]])
    show "dget (ts_events (row_state (saved_row st' attempts) i)) k
        = dget (ts_events (completed_state st n (norm_dict p))) k" for k
      unfolding rs(2) unfolding st' using normal_dget [OF norm, of k] by simp
  qed (simp_all add: rs(1,3) [unfolded st'] st')
  have dj: "distinct (join_predecessors j)" if "mon_join m n = Some j" for j
    using d mon_join_in [OF that] by (auto simp: joins_distinct_def)
  have sub: "ts_completed st \<subseteq> set (dkeys (ts_events st))" using inv by (auto simp: mon_inv_def)
  from e show ?thesis
  proof cases
    case (advanced p)
    then show ?thesis using completed [of p] enabled_justified [OF advanced(2) sub dj] by blast
  next
    case (finished p)
    then have "n \<notin> ts_completed st" "n \<in> mon_nodes m" "justified m st n"
      using inv by (auto simp: mon_inv_def)
    then show ?thesis using completed [of p] finished(1) by blast
  next
    case (started p q)
    have "mon_inv m st'" using eff by blast
    then show ?thesis
      by (rule mon_inv_cong) (use rs started(1) normal_dget [OF norm] in simp_all)
  qed
qed

lemma saved_normal:
  assumes "finite (ts_completed st)"
  shows "normal_events (row_state (saved_row st attempts) i)"
  using row_state_saved(2) [OF assms, of attempts i] by (auto simp: normal_events_def)

lemma load_state_saved':
  "load_state cr sc (save_state cr sc run st attempts db) run' i =
     (if run' = run \<and> i = ts_iteration st then Inr (row_state (saved_row st (sort_dict attempts)) i)
      else load_state cr sc db run' i)"
  unfolding load_state_saved saved_row_def ..

lemma logged_append:
  "logged_nodes cr sc (db\<lparr>db_events := db_events db @ [event_row_of cr ev]\<rparr>) run i =
    logged_nodes cr sc db run i \<union>
    (if ce_run_id ev = run \<and> ce_graph_digest ev = sc_digest cr sc \<and> ce_iteration ev = i
     then {ce_template_node_id ev} else {})"
  by (auto simp: logged_nodes_def event_row_of_def [THEN arg_cong [where f = er_run_id]]
      event_row_of_def [THEN arg_cong [where f = er_graph_digest]])

lemma logged_save [simp]: "logged_nodes cr sc (save_state cr sc run st attempts db) = logged_nodes cr sc db"
  by (simp add: logged_nodes_def save_state_def fun_eq_iff)

lemma committed_logged:
  "committed cr sc a ev db db' \<Longrightarrow> sa_node a \<in> logged_nodes cr sc db' (sa_run_id a) (sa_iteration a)"
  unfolding committed_def by (elim exE conjE) (simp add: logged_append)

lemma committed_inv:
  assumes "committed cr sc a ev db db'" "db_inv cr sc db" "joins_distinct (sc_monitor sc)"
  shows "db_inv cr sc db'"
  unfolding db_inv_def
proof (intro allI impI)
  fix run i s
  assume load: "load_state cr sc db' run i = Inr s"
  obtain st st' attempts where c: "load_state cr sc db (sa_run_id a) (sa_iteration a) = Inr st"
    "sched_effect (sc_monitor sc) st (sa_node a) st'"
    "db' = save_state cr sc (sa_run_id a) st' attempts (db\<lparr>db_events := db_events db @ [event_row_of cr ev]\<rparr>)"
    "ce_run_id ev = sa_run_id a" "ce_template_node_id ev = sa_node a"
    "ce_iteration ev = sa_iteration a" "ce_graph_digest ev = sc_digest cr sc"
    using assms(1) unfolding committed_def by blast
  have old: "mon_inv (sc_monitor sc) st" "normal_events st" "ts_iteration st = sa_iteration a"
    "logged_nodes cr sc db (sa_run_id a) (sa_iteration a) = state_nodes st"
    using assms(2) c(1) unfolding db_inv_def by blast+
  note eff = effect_inv [OF c(2) old(1) assms(3)]
  have fin: "finite (ts_completed st')" and it: "ts_iteration st' = sa_iteration a"
    and nodes: "state_nodes st' = insert (sa_node a) (state_nodes st)" using eff old(3) by auto
  show "mon_inv (sc_monitor sc) s \<and> normal_events s \<and> ts_iteration s = i
      \<and> logged_nodes cr sc db' run i = state_nodes s"
  proof (cases "run = sa_run_id a \<and> i = sa_iteration a")
    case True
    then have s: "s = row_state (saved_row st' (sort_dict attempts)) i"
      using load unfolding c(3) load_state_saved' it by simp
    have "logged_nodes cr sc db' run i = state_nodes st'"
      unfolding c(3) logged_save logged_append using True c(4-7) old(4) nodes by simp
    then show ?thesis
      unfolding s using saved_inv [OF c(2) old(1,2) assms(3)] saved_normal [OF fin] row_state_saved [OF fin]
      by (simp add: state_nodes_def)
  next
    case False
    then have l: "load_state cr sc db run i = Inr s"
      using load unfolding c(3) load_state_saved' it by (auto split: if_splits)
    moreover have "logged_nodes cr sc db' run i = logged_nodes cr sc db run i"
      unfolding c(3) logged_save logged_append using False c(4-7) by auto
    ultimately show ?thesis using assms(2) unfolding db_inv_def by auto
  qed
qed

lemma db_inv_empty: "db_inv cr sc empty_db"
  by (auto simp: db_inv_def load_state_def empty_db_def initial_state_def mon_inv_def normal_events_def
      logged_nodes_def state_nodes_def dkeys_def)

lemma sched_step_inv:
  assumes "sched_step cr sc db db'" "db_inv cr sc db" "joins_distinct (sc_monitor sc)"
  shows "db_inv cr sc db'"
proof -
  have ok: "db_inv cr sc db'" if "committed cr sc a ev db db'" for a ev
    using committed_inv [OF that assms(2,3)] .
  from assms(1) show ?thesis
  proof cases
    case (advance a c eid now r)
    then show ?thesis
      by (cases r) (auto dest: advance_error advance_committed ok simp: assms(2))
  next
    case (reserve a eid now r)
    then show ?thesis
      by (cases r) (auto dest: reserve_error reserve_committed ok simp: assms(2))
  next
    case (complete a c eid now r)
    then show ?thesis
      by (cases r) (auto dest: complete_error complete_committed ok simp: assms(2))
  qed
qed

lemma sched_reachable_inv:
  "sched_reachable cr sc db \<Longrightarrow> joins_distinct (sc_monitor sc) \<Longrightarrow> db_inv cr sc db"
  by (induction rule: sched_reachable.induct) (auto intro: db_inv_empty sched_step_inv)

text \<open>C15: in every database a run of the scheduler reaches, the stored state of each run and
  iteration satisfies the monitor's invariant (every reserved or completed node is justified by
  completed predecessors and their stored events), and the event log of that run, graph and
  iteration names exactly the nodes the state holds.\<close>

theorem scheduler_state_sound:
  assumes "sched_reachable cr sc db" "joins_distinct (sc_monitor sc)" "load_state cr sc db run i = Inr st"
  shows "mon_inv (sc_monitor sc) st \<and> logged_nodes cr sc db run i = state_nodes st"
  using sched_reachable_inv [OF assms(1,2)] assms(3) unfolding db_inv_def by blast

text \<open>The state after a completion, as it is returned.\<close>

lemma complete_direct_state:
  assumes "complete_direct cr sc a c eid now db = (Inr (ev, st), db')"
  shows "\<exists>v state. sc_verifier sc = Some v
    \<and> load_state cr sc db (sa_run_id a) (sa_iteration a) = Inr state \<and> sa_node a \<in> set (dkeys (ts_started state))
    \<and> completion_validate cr v c \<lparr>ex_graph_digest = sc_digest cr sc,
       ex_contract_digest = gm_contract_digest (sc_manifest sc), ex_run_id = sa_run_id a,
       ex_template_node_id = sa_node a, ex_node_instance_id = reserved_instance state (sa_node a)\<rparr> now = Inr ()
    \<and> st = completed_state state (sa_node a) (completion_event_payload cr c (sa_payload a))"
  by (rule complete_directE [OF assms]) (auto simp: mon_complete_def)

text \<open>With a verifier configured, \<open>advance\<close> moves a node that neither the controller nor the
  scheduler owns only when it was reserved before and a completion was presented that the
  verifier accepts for exactly this graph, contract, run, node and reserved instance.\<close>

theorem external_needs_completion:
  "case sched_advance cr sc a completion eid now db of
     (Inl e, db') \<Rightarrow> db' = db
   | (Inr (ev, st), db') \<Rightarrow> \<exists>role. node_role sc (sa_node a) = Some role \<and>
       (sc_verifier sc = None \<or> role \<in> set internal_roles \<or>
        (\<exists>c v state. completion = Some c \<and> sc_verifier sc = Some v
          \<and> load_state cr sc db (sa_run_id a) (sa_iteration a) = Inr state
          \<and> sa_node a \<in> set (dkeys (ts_started state))
          \<and> completion_validate cr v c \<lparr>ex_graph_digest = sc_digest cr sc,
              ex_contract_digest = gm_contract_digest (sc_manifest sc), ex_run_id = sa_run_id a,
              ex_template_node_id = sa_node a, ex_node_instance_id = reserved_instance state (sa_node a)\<rparr> now = Inr ()
          \<and> st = completed_state state (sa_node a) (completion_event_payload cr c (sa_payload a))))"
proof (cases "sched_advance cr sc a completion eid now db")
  case (Pair r db')
  show ?thesis
  proof (cases r)
    case (Inl e)
    then show ?thesis using Pair advance_error by auto
  next
    case (Inr x)
    then show ?thesis
      using Pair complete_direct_state [of cr sc a _ eid now db "fst x" "snd x" db']
      unfolding sched_advance_def by (cases x) (auto split: if_splits option.splits)
  qed
qed

lemma dget_append: "dget (a @ b) k = (case dget a k of Some v \<Rightarrow> Some v | None \<Rightarrow> dget b k)"
  by (auto simp: dget_def map_add_def split: option.splits)

lemma authenticated_success:
  "map_of (rev (authenticated_fields cr c)) ''success'' = Some (PBool (nc_result c = SUCCEEDED))"
  by (simp add: authenticated_fields_def)

text \<open>The fields of the event a completion records. \<open>complete\<close> records the producer's result
  as \<open>success\<close>. \<open>advance\<close>, with the same authenticated completion, records whatever its caller
  passed in the payload under that key: the caller's value overrides the producer's, for the event
  that later edge conditions read.\<close>

theorem completion_payload_precedence:
  "dget (completion_event_payload cr c payload) ''success'' =
     (case map_of (rev payload) ''success'' of
        Some v \<Rightarrow> Some v | None \<Rightarrow> Some (PBool (nc_result c = SUCCEEDED)))
   \<and> (case complete_direct cr sc a c eid now db of
        (Inr (ev, st), db') \<Rightarrow> dget (ts_events st) (sa_node a) = Some (completion_event_payload cr c (sa_payload a))
      | (Inl e, db') \<Rightarrow> db' = db)
   \<and> (case sched_complete cr sc a c eid now db of
        (Inr (ev, st), db') \<Rightarrow> (\<exists>p. dget (ts_events st) (sa_node a) = Some p
           \<and> dget p ''success'' = Some (PBool (nc_result c = SUCCEEDED)))
      | (Inl e, db') \<Rightarrow> db' = db)"
proof -
  have *: "dget (completion_event_payload cr c payload) ''success'' =
     (case map_of (rev payload) ''success'' of
        Some v \<Rightarrow> Some v | None \<Rightarrow> Some (PBool (nc_result c = SUCCEEDED)))" for payload
    unfolding completion_event_payload_def dget_dmerge authenticated_success
    by (cases "map_of (rev payload) ''success''") simp_all
  have **: "dget (ts_events st) (sa_node b) = Some (completion_event_payload cr c (sa_payload b))"
    if "complete_direct cr sc b c eid now db = (Inr (ev, st), db')" for b ev st db'
    using complete_direct_state [OF that] by auto
  show ?thesis
    using * ** [of a] complete_direct_error [of cr sc a c eid now db]
      ** [of "a\<lparr>sa_payload := [], sa_input_artifacts := nc_input_artifact_digests c,
        sa_output_artifacts := [(''primary'', nc_artifact_digest c)],
        sa_authorization_ref := (case nc_authority_refs c of [] \<Rightarrow> [] | r # _ \<Rightarrow> r),
        sa_receipt_refs := nc_evidence_refs c\<rparr>"] complete_error [of cr sc a c eid now db]
    unfolding sched_complete_def by (auto split: prod.split sum.split)
qed

section \<open>A concrete run\<close>

lemma toy_digest [simp]: "digest toy_crypto v = replicate 64 (CHR ''0'')"
  by (simp add: digest_def toy_crypto_def)

definition sample_scheduler :: scheduler where
  "sample_scheduler = \<lparr>sc_monitor = sample_monitor, sc_verifier = None\<rparr>"

definition sample_args :: sched_args where
  "sample_args = \<lparr>sa_run_id = ''run'', sa_iteration = 1, sa_node = ''t'', sa_event_type = ''task'', sa_payload = [],
     sa_causal_parents = [], sa_input_artifacts = [], sa_output_artifacts = [], sa_authorization_ref = [],
     sa_receipt_refs = []\<rparr>"

lemma sample_advance:
  "\<exists>ev st db. sched_advance toy_crypto sample_scheduler sample_args None ''e1'' 0 empty_db = (Inr (ev, st), db)"
proof -
  have en: "mon_advance toy_crypto sample_monitor \<lparr>ts_iteration = 1, ts_completed = {}, ts_events = [], ts_started = []\<rparr> ''t'' []
      = Inr (completed_state \<lparr>ts_iteration = 1, ts_completed = {}, ts_events = [], ts_started = []\<rparr> ''t'' [])"
  proof -
    have "enabled sample_monitor \<lparr>ts_iteration = 1, ts_completed = {}, ts_events = [], ts_started = []\<rparr> ''t'' [] = Inr True"
      by code_simp
    then show ?thesis by (simp add: mon_advance_def)
  qed
  have role: "node_role sample_scheduler ''t'' = Some ''controller''" by code_simp
  have not_blank: "\<not> blank ''run''" "\<not> blank ''t''" "\<not> blank ''e1''" by code_simp+
  show ?thesis
    unfolding sched_advance_def advance_owned_def Let_def
    by (simp add: sample_args_def not_blank role)
      (simp add: sample_scheduler_def tx_simps load_state_def empty_db_def initial_state_def en not_blank
        node_instance_id_def next_attempt_def load_attempts_def causal_event_init_def event_of_def
        sc_digest_def graph_digest_def event_append_def utc_def)
qed

theorem scheduler_state_sound_witness:
  "\<exists>db st. load_state toy_crypto sample_scheduler db ''run'' 1 = Inr st \<and> ''t'' \<in> state_nodes st
    \<and> mon_inv sample_monitor st \<and> logged_nodes toy_crypto sample_scheduler db ''run'' 1 = state_nodes st"
proof -
  obtain ev st db where a: "sched_advance toy_crypto sample_scheduler sample_args None ''e1'' 0 empty_db = (Inr (ev, st), db)"
    using sample_advance by blast
  have r: "sched_reachable toy_crypto sample_scheduler db"
    by (rule sched_reachable.step [OF sched_reachable.empty sched_step.advance [OF a]])
  obtain st' where st': "load_state toy_crypto sample_scheduler db ''run'' 1 = Inr st'"
    by (cases "load_state toy_crypto sample_scheduler db ''run'' 1")
      (auto simp: load_state_def initial_state_def split: option.splits)
  note sound = scheduler_state_sound [OF r _ st']
  have "''t'' \<in> logged_nodes toy_crypto sample_scheduler db ''run'' 1"
    using committed_logged [OF advance_committed [OF a]] by (simp add: sample_args_def)
  then show ?thesis using sound st' by (auto simp: sample_scheduler_def sample_monitor_simps)
qed

end
