(* ===== verification/Policy_Rules.thy ===== *)
theory Policy_Rules
  imports Models "HOL-Library.Sublist"
begin

text \<open>
  The pure checks of \<open>PolicyGate\<close> (\<open>src/vloop/policy.py\<close>): prefix matching of targets, the
  argument rules of the matching action rules, and the search for inline secrets.
\<close>

section \<open>Targets\<close>

definition target_matches :: "string \<Rightarrow> string \<Rightarrow> bool" where
  "target_matches target prefix_path =
     (let stripped = rstrip_chr (CHR ''/'') prefix_path;
          normalized = (if stripped = [] then ''/'' else stripped)
      in normalized = ''/'' \<or> target = normalized \<or> startswith target (normalized @ ''/''))"

text \<open>The segments of an absolute path; the empty segment before the first slash comes first.\<close>

definition segments :: "string \<Rightarrow> string list" where
  "segments p = split_chr (CHR ''/'') p"

lemma split_chr_append: "split_chr c (a @ c # b) = split_chr c a @ split_chr c b"
proof (induction a)
  case (Cons x a)
  then show ?case by (cases "split_chr c a") auto
qed simp

lemma split_chr_no_sep: "w \<in> set (split_chr c s) \<Longrightarrow> c \<notin> set w"
proof (induction s arbitrary: w)
  case (Cons x s)
  then show ?case by (cases "split_chr c s") (auto split: if_splits)
qed simp

lemma split_chr_inj: "split_chr c a = split_chr c b \<Longrightarrow> a = b"
  using join_split_chr by metis

lemma join_split_prefix:
  assumes "split_chr c t = split_chr c p @ ws" "ws \<noteq> []"
  shows "t = p @ c # join [c] ws"
proof -
  have j: "join [c] (xs @ ws) = join [c] xs @ c # join [c] ws" if "xs \<noteq> []" for xs
    using that
  proof (induction xs)
    case (Cons x xs)
    then show ?case using assms(2) by (cases xs; cases ws) auto
  qed simp
  show ?thesis
    using join_split_chr [of c t] j [of "split_chr c p"] join_split_chr [of c p] assms(1) by simp
qed

lemma target_matches_stripped:
  "target_matches t p \<longleftrightarrow> (let q = rstrip_chr (CHR ''/'') p in
     q = [] \<or> q = ''/'' \<or> t = q \<or> (\<exists>r. t = q @ CHR ''/'' # r))"
  by (auto simp: target_matches_def startswith_iff Let_def)

lemma rstrip_not_slash: "rstrip_chr c p \<noteq> s @ [c]"
proof
  assume "rstrip_chr c p = s @ [c]"
  then have "dropWhile (\<lambda>x. x = c) (rev p) = c # rev s"
    by (simp add: rstrip_chr_def rev_swap)
  then show False by (metis (full_types) hd_dropWhile list.distinct(1) list.sel(1))
qed

lemma target_matches_prefix:
  assumes "startswith t ''/''"
  shows "target_matches t p \<longleftrightarrow> prefix (segments (rstrip_chr (CHR ''/'') p)) (segments t)"
proof -
  define q where "q = rstrip_chr (CHR ''/'') p"
  obtain t' where t: "t = CHR ''/'' # t'" using assms by (auto simp: startswith_iff)
  have not_slash: "q \<noteq> ''/''" using rstrip_not_slash [of "CHR ''/''" p "[]"] by (simp add: q_def)
  show ?thesis
  proof (cases "q = []")
    case True
    then show ?thesis by (simp add: target_matches_stripped segments_def t flip: q_def)
  next
    case False
    have "(t = q \<or> (\<exists>r. t = q @ CHR ''/'' # r)) \<longleftrightarrow> prefix (segments q) (segments t)"
    proof
      assume "t = q \<or> (\<exists>r. t = q @ CHR ''/'' # r)"
      then show "prefix (segments q) (segments t)"
        by (auto simp: segments_def split_chr_append)
    next
      assume "prefix (segments q) (segments t)"
      then obtain ws where ws: "segments t = segments q @ ws" by (auto simp: prefix_def)
      show "t = q \<or> (\<exists>r. t = q @ CHR ''/'' # r)"
      proof (cases "ws = []")
        case True
        then show ?thesis using ws split_chr_inj by (auto simp: segments_def)
      next
        case False
        then show ?thesis using join_split_prefix ws unfolding segments_def by blast
      qed
    qed
    then show ?thesis
      using False not_slash by (simp add: target_matches_stripped Let_def flip: q_def)
  qed
qed

lemma rstrip_append:
  "rstrip_chr c (xs @ ys) = (if \<forall>y \<in> set ys. y = c then rstrip_chr c xs else xs @ rstrip_chr c ys)"
proof (cases "\<forall>y \<in> set ys. y = c")
  case True
  then have "dropWhile (\<lambda>x. x = c) (rev ys @ rev xs) = dropWhile (\<lambda>x. x = c) (rev xs)"
    by (subst dropWhile_append2) auto
  with True show ?thesis by (simp add: rstrip_chr_def)
next
  case False
  then obtain y where "y \<in> set (rev ys)" "y \<noteq> c" by auto
  then have "dropWhile (\<lambda>x. x = c) (rev ys @ rev xs) = dropWhile (\<lambda>x. x = c) (rev ys) @ rev xs"
    by (rule dropWhile_append1)
  with False show ?thesis by (auto simp: rstrip_chr_def)
qed

lemma rstrip_idem: "rstrip_chr c (rstrip_chr c p) = rstrip_chr c p"
  by (simp add: rstrip_chr_def)

lemma rstrip_segments:
  assumes "q = p \<or> (\<exists>r. p = q @ CHR ''/'' # r)" "rstrip_chr (CHR ''/'') q = q"
  shows "prefix (segments q) (segments (rstrip_chr (CHR ''/'') p))"
  using assms(1)
proof
  assume "\<exists>r. p = q @ CHR ''/'' # r"
  then obtain r where r: "p = q @ CHR ''/'' # r" by blast
  have "rstrip_chr (CHR ''/'') p = q \<or> (\<exists>r'. rstrip_chr (CHR ''/'') p = q @ CHR ''/'' # r')"
    using rstrip_append [of "CHR ''/''" "q @ ''/''" r] rstrip_append [of "CHR ''/''" q "''/''"] assms(2)
    by (auto simp: r)
  then show ?thesis by (auto simp: segments_def split_chr_append)
qed (use assms(2) in simp)

text \<open>A target below a target that a prefix covers is covered by the prefix.\<close>

lemma target_matches_trans:
  assumes "target_matches t p" "target_matches p q" "startswith t ''/''" "startswith p ''/''"
  shows "target_matches t q"
proof -
  have pq: "prefix (segments (rstrip_chr (CHR ''/'') q)) (segments p)"
    using assms target_matches_prefix by blast
  show ?thesis
  proof (cases "rstrip_chr (CHR ''/'') q = []")
    case True
    then show ?thesis by (simp add: target_matches_stripped)
  next
    case False
    let ?p = "rstrip_chr (CHR ''/'') p" and ?q = "rstrip_chr (CHR ''/'') q"
    have "?q = p \<or> (\<exists>r. p = ?q @ CHR ''/'' # r)"
      using assms(2) False rstrip_not_slash [of "CHR ''/''" q "[]"]
      by (auto simp: target_matches_stripped Let_def)
    then have "prefix (segments ?q) (segments ?p)"
      by (rule rstrip_segments) (rule rstrip_idem)
    then show ?thesis
      using assms(1,3) target_matches_prefix prefix_order.trans by blast
  qed
qed

text \<open>A rule's target prefix covers an absolute target exactly when the segments of the
  prefix, without trailing slashes, are the first segments of the target: \<open>/work\<close> covers
  \<open>/work/a\<close> but not \<open>/workshop\<close>.\<close>

theorem target_matches_segments:
  assumes "startswith target ''/''"
  shows "target_matches target p \<longleftrightarrow> prefix (segments (rstrip_chr (CHR ''/'') p)) (segments target)"
  using assms by (rule target_matches_prefix)

theorem target_matches_segments_witness:
  "target_matches ''/work/a'' ''/work/'' \<and> \<not> target_matches ''/workshop'' ''/work''"
proof -
  have "target_matches ''/work/a'' ''/work/''
      = prefix (segments (rstrip_chr (CHR ''/'') ''/work/'')) (segments ''/work/a'')"
    by (rule target_matches_segments) code_simp
  moreover have "target_matches ''/workshop'' ''/work''
      = prefix (segments (rstrip_chr (CHR ''/'') ''/work'')) (segments ''/workshop'')"
    by (rule target_matches_segments) code_simp
  moreover have "prefix (segments (rstrip_chr (CHR ''/'') ''/work/'')) (segments ''/work/a'')
      \<and> \<not> prefix (segments (rstrip_chr (CHR ''/'') ''/work'')) (segments ''/workshop'')" by code_simp
  ultimately show ?thesis by blast
qed

section \<open>Argument rules\<close>

text \<open>\<open>_validate_argument_rules\<close>: every constraint of every matching rule, in order.\<close>

fun constraint_check :: "pydict \<Rightarrow> argument_rule list \<Rightarrow> unit res" where
  "constraint_check args [] = Inr ()"
| "constraint_check args (r # rs) =
     (case dget args (arg_name r) of
        None \<Rightarrow> if arg_required r then Inl (PolicyDenied, ''required argument is missing: '' @ arg_name r)
                else constraint_check args rs
      | Some v \<Rightarrow> (case argument_validate r v of
          Some msg \<Rightarrow> Inl (PolicyDenied, msg) | None \<Rightarrow> constraint_check args rs))"

fun validate_argument_rules :: "action_intent \<Rightarrow> action_rule list \<Rightarrow> unit res" where
  "validate_argument_rules i [] = Inr ()"
| "validate_argument_rules i (r # rs) =
     (let extras = filter (\<lambda>a. a \<notin> set (map arg_name (rule_argument_rules r))) (dkeys (in_arguments i)) in
      if \<not> rule_allow_unlisted r \<and> extras \<noteq> []
      then Inl (PolicyDenied, ''action has unlisted arguments: '' @ py_sorted_strs extras)
      else bnd (constraint_check (in_arguments i) (rule_argument_rules r)) (\<lambda>_. validate_argument_rules i rs))"

definition arguments_ok :: "action_rule \<Rightarrow> pydict \<Rightarrow> bool" where
  "arguments_ok r args \<longleftrightarrow>
     (rule_allow_unlisted r \<or> set (dkeys args) \<subseteq> set (map arg_name (rule_argument_rules r)))
     \<and> (\<forall>c \<in> set (rule_argument_rules r). case dget args (arg_name c) of
          None \<Rightarrow> \<not> arg_required c | Some v \<Rightarrow> argument_validate c v = None)"

lemma constraint_check_ok:
  "constraint_check args rs = Inr u \<longleftrightarrow> (\<forall>c \<in> set rs. case dget args (arg_name c) of
     None \<Rightarrow> \<not> arg_required c | Some v \<Rightarrow> argument_validate c v = None)"
  by (induction rs) (auto split: option.splits)

lemma validate_argument_rules_ok:
  "validate_argument_rules i rs = Inr u \<longleftrightarrow> (\<forall>r \<in> set rs. arguments_ok r (in_arguments i))"
proof (induction rs)
  case (Cons r rs)
  have "filter (\<lambda>a. a \<notin> set (map arg_name (rule_argument_rules r))) (dkeys (in_arguments i)) = []
      \<longleftrightarrow> set (dkeys (in_arguments i)) \<subseteq> set (map arg_name (rule_argument_rules r))"
    by (auto simp: filter_empty_conv)
  then show ?case using Cons.IH
    by (auto simp: arguments_ok_def bnd_eq_Inr constraint_check_ok Let_def)
qed simp

section \<open>Inline secrets\<close>

text \<open>
  The two regular expressions, read as searches: case-insensitive, \<open>.\<close> matches no newline.
\<close>

definition lower_char :: "char \<Rightarrow> char" where
  "lower_char c = (let n = (of_char c :: nat) in if 65 \<le> n \<and> n \<le> 90 then char_of (n + 32) else c)"

definition lower :: "string \<Rightarrow> string" where
  "lower s = map lower_char s"

fun has_infix :: "string \<Rightarrow> string \<Rightarrow> bool" where
  "has_infix p s = (startswith s p \<or> (case s of [] \<Rightarrow> False | _ # t \<Rightarrow> has_infix p t))"

definition api_key_here :: "string \<Rightarrow> bool" where
  "api_key_here s \<longleftrightarrow> startswith s ''api'' \<and> (startswith (drop 3 s) ''key''
     \<or> (case drop 3 s of [] \<Rightarrow> False | c # t \<Rightarrow> c \<noteq> CHR 0x0A \<and> startswith t ''key''))"

fun has_api_key :: "string \<Rightarrow> bool" where
  "has_api_key s = (api_key_here s \<or> (case s of [] \<Rightarrow> False | _ # t \<Rightarrow> has_api_key t))"

definition sensitive_words :: "string list" where
  "sensitive_words = [''token'', ''password'', ''secret'', ''credential'', ''authorization'', ''cookie'']"

definition sensitive_key :: "string \<Rightarrow> bool" where
  "sensitive_key k \<longleftrightarrow> has_api_key (lower k) \<or> list_ex (\<lambda>w. has_infix w (lower k)) sensitive_words"

definition token_char :: "char \<Rightarrow> bool" where
  "token_char c \<longleftrightarrow> (let n = (of_char c :: nat) in (48 \<le> n \<and> n \<le> 57) \<or> (65 \<le> n \<and> n \<le> 90) \<or> (97 \<le> n \<and> n \<le> 122)
     \<or> c = CHR ''.'' \<or> c = CHR ''_'' \<or> c = CHR ''-'')"

definition token_run :: "string \<Rightarrow> bool" where
  "token_run s \<longleftrightarrow> 6 \<le> length (takeWhile token_char s)"

definition token_here :: "string \<Rightarrow> bool" where
  "token_here s \<longleftrightarrow>
     (startswith (lower s) ''bearer'' \<and> (let r = drop 6 s; w = dropWhile py_isspace r in w \<noteq> r \<and> token_run w))
     \<or> list_ex (\<lambda>p. startswith (lower s) p \<and> (case drop (length p) s of
          [] \<Rightarrow> False | c # r \<Rightarrow> (c = CHR ''_'' \<or> c = CHR ''-'') \<and> token_run r)) [''sk'', ''rk'', ''ghp'']"

fun token_like :: "string \<Rightarrow> bool" where
  "token_like s = (token_here s \<or> (case s of [] \<Rightarrow> False | _ # t \<Rightarrow> token_like t))"

declare has_infix.simps [simp del] has_api_key.simps [simp del] token_like.simps [simp del]

definition empty_value :: "pyval \<Rightarrow> bool" where
  "empty_value v \<longleftrightarrow> v = PNone \<or> v = PStr [] \<or> v = PBool False"

fun contains_inline_secret :: "string \<Rightarrow> pyval \<Rightarrow> bool" where
  "contains_inline_secret key (PDict kvs) = (sensitive_key key \<and> \<not> empty_value (PDict kvs)
     \<or> list_ex (\<lambda>(k, v). contains_inline_secret k v) kvs)"
| "contains_inline_secret key (PList xs) = (sensitive_key key \<and> \<not> empty_value (PList xs)
     \<or> list_ex (contains_inline_secret key) xs)"
| "contains_inline_secret key (PTuple xs) = (sensitive_key key \<and> \<not> empty_value (PTuple xs)
     \<or> list_ex (contains_inline_secret key) xs)"
| "contains_inline_secret key (PStr s) = (sensitive_key key \<and> \<not> empty_value (PStr s) \<or> token_like s)"
| "contains_inline_secret key v = (sensitive_key key \<and> \<not> empty_value v)"

text \<open>The values nested in a value, with the dictionary key each of them is found under.\<close>

inductive nested :: "string \<times> pyval \<Rightarrow> string \<times> pyval \<Rightarrow> bool" where
  here: "nested x x"
| in_dict: "(k, v) \<in> set kvs \<Longrightarrow> nested (k, v) y \<Longrightarrow> nested (key, PDict kvs) y"
| in_list: "v \<in> set xs \<Longrightarrow> nested (key, v) y \<Longrightarrow> nested (key, PList xs) y"
| in_tuple: "v \<in> set xs \<Longrightarrow> nested (key, v) y \<Longrightarrow> nested (key, PTuple xs) y"

definition secret_leaf :: "string \<times> pyval \<Rightarrow> bool" where
  "secret_leaf p \<longleftrightarrow> sensitive_key (fst p) \<and> \<not> empty_value (snd p)
     \<or> (\<exists>s. snd p = PStr s \<and> token_like s)"

inductive_cases nested_dictE: "nested (key, PDict kvs) y"
inductive_cases nested_listE: "nested (key, PList xs) y"
inductive_cases nested_tupleE: "nested (key, PTuple xs) y"

lemma nested_secret: "nested x y \<Longrightarrow> secret_leaf y \<Longrightarrow> contains_inline_secret (fst x) (snd x)"
proof (induction rule: nested.induct)
  case (here x)
  then show ?case by (cases x; cases "snd x") (auto simp: secret_leaf_def)
qed (auto simp: list_ex_iff)

text \<open>The search for inline secrets is complete and exact: it reports a secret exactly when some
  value nested at any depth in the arguments has a sensitive key and is not empty, or is a
  token-like text.\<close>

theorem contains_inline_secret_iff:
  "contains_inline_secret key v \<longleftrightarrow> (\<exists>y. nested (key, v) y \<and> secret_leaf y)"
proof
  assume "contains_inline_secret key v"
  then show "\<exists>y. nested (key, v) y \<and> secret_leaf y"
  proof (induction key v rule: contains_inline_secret.induct)
    case (1 key kvs)
    then show ?case
      by (auto simp: list_ex_iff secret_leaf_def intro: nested.intros) (metis nested.in_dict)+
  next
    case (2 key xs)
    then show ?case
      by (auto simp: list_ex_iff secret_leaf_def intro: nested.intros) (metis nested.in_list)+
  next
    case (3 key xs)
    then show ?case
      by (auto simp: list_ex_iff secret_leaf_def intro: nested.intros) (metis nested.in_tuple)+
  qed (auto simp: secret_leaf_def intro: nested.here)
next
  assume "\<exists>y. nested (key, v) y \<and> secret_leaf y"
  then show "contains_inline_secret key v" using nested_secret by fastforce
qed

end
