(* ===== verification/Once_Store.thy ===== *)
theory Once_Store
  imports Prelude
begin

text \<open>
  The contract of the stores that accept a key at most once: capability nonces
  (\<open>NonceStore\<close> of \<open>src/vloop/authorization.py\<close>) and approvals
  (\<open>ApprovalConsumptionStore\<close> of \<open>src/vloop/policy.py\<close>). Both have an in-memory and an
  SQLite provider; the clients are proved against the contract.
\<close>

locale once_store =
  fixes consume :: "'s \<Rightarrow> 'k \<Rightarrow> 'i \<Rightarrow> bool \<times> 's"
    and used :: "'s \<Rightarrow> 'k set"
  assumes accepts: "fst (consume s k i) \<longleftrightarrow> k \<notin> used s"
    and records: "used (snd (consume s k i)) = insert k (used s)"
begin

lemma used_mono: "used s \<subseteq> used (snd (consume s k i))"
  by (auto simp: records)

lemma rejects_again: "\<not> fst (consume (snd (consume s k i)) k j)"
  by (simp add: accepts records)

lemma other_keys: "k' \<noteq> k \<Longrightarrow> k' \<in> used (snd (consume s k i)) \<longleftrightarrow> k' \<in> used s"
  by (simp add: records)

end

text \<open>A sequence of requests against a store, and the accepted requests for a key.\<close>

fun run_all :: "('s \<Rightarrow> 'r \<Rightarrow> 'a res \<times> 's) \<Rightarrow> 's \<Rightarrow> 'r list \<Rightarrow> ('r \<times> 'a res) list" where
  "run_all present s [] = []"
| "run_all present s (r # rs) = (r, fst (present s r)) # run_all present (snd (present s r)) rs"

definition accepted_with :: "('r \<Rightarrow> 'k) \<Rightarrow> 'k \<Rightarrow> 'r \<times> 'a res \<Rightarrow> bool" where
  "accepted_with key_of k p \<longleftrightarrow> key_of (fst p) = k \<and> (\<exists>x. snd p = Inr x)"

text \<open>
  A client that offers a key of the store as the last of its checks: \<open>offer\<close> gives the key
  and additional input of a request, or the error of an earlier check.
\<close>

locale once_client = once_store consume used
  for consume :: "'s \<Rightarrow> 'k \<Rightarrow> 'i \<Rightarrow> bool \<times> 's" and used :: "'s \<Rightarrow> 'k set" +
  fixes present :: "'s \<Rightarrow> 'r \<Rightarrow> 'a res \<times> 's"
    and key_of :: "'r \<Rightarrow> 'k"
  assumes accepted_consumes: "fst (present s r) = Inr x \<Longrightarrow>
      \<exists>i. fst (consume s (key_of r) i) \<and> snd (present s r) = snd (consume s (key_of r) i)"
    and rejected_keeps: "fst (present s r) = Inl e \<Longrightarrow> used s \<subseteq> used (snd (present s r))"
begin

lemma present_used: "used s \<subseteq> used (snd (present s r))"
proof (cases "fst (present s r)")
  case (Inl e)
  then show ?thesis by (rule rejected_keeps)
next
  case (Inr x)
  then show ?thesis using accepted_consumes [OF Inr] used_mono by metis
qed

lemma none_after_use: "k \<in> used s \<Longrightarrow> filter (accepted_with key_of k) (run_all present s rs) = []"
proof (induction rs arbitrary: s)
  case (Cons r rs)
  have "\<not> accepted_with key_of k (r, fst (present s r))"
  proof
    assume "accepted_with key_of k (r, fst (present s r))"
    then obtain x where "key_of r = k" "fst (present s r) = Inr x" by (auto simp: accepted_with_def)
    with accepted_consumes [of s r x] accepts [of s k] Cons.prems show False by auto
  qed
  then show ?case using Cons.IH [of "snd (present s r)"] present_used [of s r] Cons.prems by auto
qed simp

lemma at_most_once: "length (filter (accepted_with key_of k) (run_all present s rs)) \<le> 1"
proof (induction rs arbitrary: s)
  case (Cons r rs)
  show ?case
  proof (cases "accepted_with key_of k (r, fst (present s r))")
    case True
    then obtain x where "key_of r = k" "fst (present s r) = Inr x" by (auto simp: accepted_with_def)
    then have "k \<in> used (snd (present s r))"
      using accepted_consumes [of s r x] records by force
    then show ?thesis using none_after_use True by simp
  next
    case False
    then show ?thesis using Cons.IH by simp
  qed
qed simp

end

end
