(* ===== verification/Authorization.thy ===== *)
theory Authorization
  imports Models Once_Store
begin

text \<open>
  \<open>src/vloop/authorization.py\<close>: capabilities signed by the policy decision point and verified,
  then consumed once, by the executor. Identifiers and nonces (\<open>uuid4\<close>) and the clock are
  arguments; keys are texts interpreted by the \<open>crypto\<close> parameter.
\<close>

section \<open>Capabilities\<close>

definition capability_payload :: "capability \<Rightarrow> string" where
  "capability_payload c = canonical_json (PDict
     [(''capability_id'', PStr (cap_capability_id c)), (''nonce'', PStr (cap_nonce c)),
      (''intent_digest'', PStr (cap_intent_digest c)), (''contract_digest'', PStr (cap_contract_digest c)),
      (''executor_id'', PStr (cap_executor_id c)), (''issued_at'', PStr (isoformat (cap_issued_at c))),
      (''expires_at'', PStr (isoformat (cap_expires_at c))), (''graph_digest'', PStr (cap_graph_digest c)),
      (''graph_node_id'', PStr (cap_graph_node_id c))])"

text \<open>\<open>CapabilitySigner.__init__\<close> with a private key given as bytes.\<close>

definition signer_init :: "string \<Rightarrow> string res" where
  "signer_init key = (if length key \<noteq> 32
     then Inl (ValueError, ''Ed25519 private keys must contain exactly 32 bytes'') else Inr key)"

definition capability_issue :: "crypto \<Rightarrow> string \<Rightarrow> action_intent \<Rightarrow> string \<Rightarrow> string \<Rightarrow> dtime \<Rightarrow> dtime
    \<Rightarrow> string \<Rightarrow> string \<Rightarrow> string \<Rightarrow> string \<Rightarrow> capability res" where
  "capability_issue cr sk intent contract executor issued_at expires_at graph node cap_id nonce =
     (if blank executor then Inl (ValueError, ''capability needs a non-empty executor audience'')
      else bnd (capability_init \<lparr>cap_capability_id = cap_id, cap_nonce = nonce,
             cap_intent_digest = intent_digest cr intent, cap_contract_digest = contract,
             cap_executor_id = executor, cap_issued_at = issued_at, cap_expires_at = expires_at,
             cap_signature = [], cap_graph_digest = graph, cap_graph_node_id = node\<rparr>)
       (\<lambda>unsigned. capability_init (unsigned\<lparr>cap_signature := ed_sign cr sk (capability_payload unsigned)\<rparr>)))"

section \<open>Nonce stores\<close>

text \<open>\<open>InMemoryNonceStore\<close> holds a set; the expiry is ignored.\<close>

definition mem_nonce_consume :: "string set \<Rightarrow> string \<Rightarrow> dtime \<times> int \<Rightarrow> bool \<times> string set" where
  "mem_nonce_consume s nonce i = (if nonce \<in> s then (False, s) else (True, insert nonce s))"

text \<open>\<open>SQLiteNonceStore\<close>: a table whose primary key is the nonce; the insert fails on a duplicate.\<close>

record nonce_row =
  nr_nonce :: string
  nr_expires_at :: string
  nr_consumed_at :: string

definition sql_nonce_consume :: "nonce_row list \<Rightarrow> string \<Rightarrow> dtime \<times> int \<Rightarrow> bool \<times> nonce_row list" where
  "sql_nonce_consume rows nonce i =
     (if nonce \<in> set (map nr_nonce rows) then (False, rows)
      else (True, rows @ [\<lparr>nr_nonce = nonce, nr_expires_at = isoformat (fst i),
                          nr_consumed_at = isoformat (utc (snd i))\<rparr>]))"

interpretation mem_nonces: once_store mem_nonce_consume "\<lambda>s. s"
  by unfold_locales (auto simp: mem_nonce_consume_def)

interpretation sql_nonces: once_store sql_nonce_consume "\<lambda>rows. set (map nr_nonce rows)"
  by unfold_locales (auto simp: sql_nonce_consume_def)

section \<open>The verifier\<close>

definition capability_validate :: "crypto \<Rightarrow> string \<Rightarrow> capability \<Rightarrow> action_intent \<Rightarrow> string \<Rightarrow> int \<Rightarrow> unit res" where
  "capability_validate cr pk c intent executor now =
     (if cap_executor_id c \<noteq> executor
      then Inl (CapabilityRejected, ''capability audience does not match this executor'')
      else if instant (cap_expires_at c) \<le> now \<or> instant (cap_issued_at c) > now
      then Inl (CapabilityRejected, ''capability is expired or not yet valid'')
      else if cap_intent_digest c \<noteq> intent_digest cr intent
      then Inl (CapabilityRejected, ''capability is not bound to this exact intent'')
      else if \<not> ed_verify cr pk (capability_payload c) (cap_signature c)
      then Inl (CapabilityRejected, ''invalid capability signature'')
      else Inr ())"

text \<open>A request to the executor's verifier: the time it happens is part of it.\<close>

record cap_request =
  rq_capability :: capability
  rq_intent :: action_intent
  rq_executor_id :: string
  rq_now :: int

definition validate_and_consume :: "crypto \<Rightarrow> string \<Rightarrow> ('s \<Rightarrow> string \<Rightarrow> dtime \<times> int \<Rightarrow> bool \<times> 's)
    \<Rightarrow> 's \<Rightarrow> cap_request \<Rightarrow> unit res \<times> 's" where
  "validate_and_consume cr pk consume s r =
     (case capability_validate cr pk (rq_capability r) (rq_intent r) (rq_executor_id r) (rq_now r) of
        Inl e \<Rightarrow> (Inl e, s)
      | Inr _ \<Rightarrow>
          (case consume s (cap_nonce (rq_capability r)) (cap_expires_at (rq_capability r), rq_now r) of
             (ok, s') \<Rightarrow> (if ok then Inr () else Inl (CapabilityRejected, ''capability nonce was already consumed''), s')))"

abbreviation request_nonce :: "cap_request \<Rightarrow> string" where
  "request_nonce r \<equiv> cap_nonce (rq_capability r)"

lemma vac_accepted:
  "fst (validate_and_consume cr pk consume s r) = Inr x \<Longrightarrow>
    \<exists>i. fst (consume s (request_nonce r) i) \<and>
      snd (validate_and_consume cr pk consume s r) = snd (consume s (request_nonce r) i)"
  by (auto simp: validate_and_consume_def split: sum.splits prod.splits if_splits)
    (metis fst_conv snd_conv)

lemma vac_rejected:
  "snd (validate_and_consume cr pk consume s r) = s \<or>
    (\<exists>i. snd (validate_and_consume cr pk consume s r) = snd (consume s (request_nonce r) i))"
  by (auto simp: validate_and_consume_def split: sum.splits prod.splits) (metis snd_conv)

interpretation mem_gate: once_client mem_nonce_consume "\<lambda>s. s" "validate_and_consume cr pk mem_nonce_consume" request_nonce
  for cr pk
proof unfold_locales
  fix s r x e
  show "fst (validate_and_consume cr pk mem_nonce_consume s r) = Inr x \<Longrightarrow>
      \<exists>i. fst (mem_nonce_consume s (request_nonce r) i) \<and>
        snd (validate_and_consume cr pk mem_nonce_consume s r) = snd (mem_nonce_consume s (request_nonce r) i)"
    by (rule vac_accepted)
  show "s \<subseteq> snd (validate_and_consume cr pk mem_nonce_consume s r)"
    using vac_rejected [of cr pk mem_nonce_consume s r] mem_nonces.used_mono by (metis order_refl)
qed

interpretation sql_gate: once_client sql_nonce_consume "\<lambda>rows. set (map nr_nonce rows)"
    "validate_and_consume cr pk sql_nonce_consume" request_nonce for cr pk
proof unfold_locales
  fix s r x e
  show "fst (validate_and_consume cr pk sql_nonce_consume s r) = Inr x \<Longrightarrow>
      \<exists>i. fst (sql_nonce_consume s (request_nonce r) i) \<and>
        snd (validate_and_consume cr pk sql_nonce_consume s r) = snd (sql_nonce_consume s (request_nonce r) i)"
    by (rule vac_accepted)
  show "set (map nr_nonce s) \<subseteq> set (map nr_nonce (snd (validate_and_consume cr pk sql_nonce_consume s r)))"
    using vac_rejected [of cr pk sql_nonce_consume s r] sql_nonces.used_mono by (metis order_refl)
qed

section \<open>Properties\<close>

text \<open>Whatever sequence of requests an executor's verifier receives, with replays, forgeries and
  expired capabilities in any order, it accepts at most one per nonce; this holds for the
  in-memory store and for the SQLite store, from any earlier contents.\<close>

theorem capability_single_use:
  "length (filter (accepted_with request_nonce n)
      (run_all (validate_and_consume cr pk mem_nonce_consume) seen rs)) \<le> 1
   \<and> length (filter (accepted_with request_nonce n)
      (run_all (validate_and_consume cr pk sql_nonce_consume) rows rs)) \<le> 1"
  using mem_gate.at_most_once sql_gate.at_most_once by blast

text \<open>A capability is accepted exactly by the executor it names, inside its validity interval, for
  the intent whose digest it carries, under a signature of the policy's key over all its fields.\<close>

theorem capability_validate_iff:
  "capability_validate cr pk c intent executor now = Inr () \<longleftrightarrow>
     cap_executor_id c = executor \<and> instant (cap_issued_at c) \<le> now \<and> now < instant (cap_expires_at c)
     \<and> cap_intent_digest c = intent_digest cr intent
     \<and> ed_verify cr pk (capability_payload c) (cap_signature c)"
  by (auto simp: capability_validate_def not_le not_less)

lemma capability_payload_signature [simp]:
  "capability_payload (c\<lparr>cap_signature := x\<rparr>) = capability_payload c"
  by (simp add: capability_payload_def)

lemma capability_init_id: "capability_init c = Inr d \<Longrightarrow> d = c"
  by (auto simp: capability_init_def split: if_splits)

lemma capability_issueD:
  assumes "capability_issue cr sk intent contract executor issued_at expires_at graph node cap_id nonce = Inr c"
  shows "cap_executor_id c = executor" "cap_issued_at c = issued_at" "cap_expires_at c = expires_at"
    "cap_intent_digest c = intent_digest cr intent" "cap_contract_digest c = contract"
    "cap_nonce c = nonce" "cap_graph_digest c = graph" "cap_graph_node_id c = node"
    "cap_signature c = ed_sign cr sk (capability_payload c)" "\<not> blank executor"
  using assms unfolding capability_issue_def
  by (auto simp: bnd_eq_Inr capability_payload_def split: if_splits dest!: capability_init_id)

text \<open>A capability the policy issues is accepted by a verifier that holds the matching public key,
  for the same intent and executor, from the moment of issue until it expires.\<close>

theorem capability_roundtrip:
  assumes "ed25519_spec cr"
    and "capability_issue cr sk intent contract executor issued_at expires_at graph node cap_id nonce = Inr c"
    and "instant issued_at \<le> now" "now < instant expires_at"
  shows "capability_validate cr (ed_public cr sk) c intent executor now = Inr ()"
  using assms(1,3,4) capability_issueD [OF assms(2)]
  by (simp add: capability_validate_def ed25519_spec_def)

definition sample_intent :: action_intent where
  "sample_intent = \<lparr>in_tool = ''write_file'', in_effect = WRITE, in_target = ''/work/a'', in_arguments = [],
     in_provenance = [USER], in_explanation = ''e'', in_contract_id = ''k'', in_contract_version = 1,
     in_idempotency_key = ''i'', in_argument_provenance = [], in_argument_provenance_graph = []\<rparr>"

lemma sample_issue:
  "\<exists>c. capability_issue toy_crypto ''sk'' sample_intent ''contract'' ''exec'' (utc 0) (utc 10) [] [] ''id'' ''n'' = Inr c"
  by (simp add: capability_issue_def capability_init_def blank_iff py_isspace_def)

theorem capability_roundtrip_witness:
  "\<exists>c. capability_validate toy_crypto ''sk'' c sample_intent ''exec'' 5 = Inr ()"
proof -
  obtain c where c: "capability_issue toy_crypto ''sk'' sample_intent ''contract'' ''exec'' (utc 0) (utc 10) [] [] ''id'' ''n'' = Inr c"
    using sample_issue by blast
  have "capability_validate toy_crypto (ed_public toy_crypto ''sk'') c sample_intent ''exec'' 5 = Inr ()"
    by (rule capability_roundtrip [OF toy_crypto_spec(2) c]) (simp_all add: utc_def)
  then show ?thesis by (auto simp: toy_crypto_def)
qed

end
