(* ===== verification/Approvals.thy ===== *)
theory Approvals
  imports Authorization
begin

text \<open>
  Human approvals of \<open>src/vloop/policy.py\<close>: signed receipts, the trust the verifier places in
  their keys, and the stores that consume each approval once.
\<close>

section \<open>Trust entries and receipts\<close>

record trust_entry =
  te_key_id :: string
  te_subject :: string
  te_roles :: "string set"
  te_valid_from :: dtime
  te_valid_until :: dtime
  te_revoked_at :: "dtime option"

definition trust_entry_init :: "trust_entry \<Rightarrow> trust_entry res" where
  "trust_entry_init e =
     (if blank (te_key_id e) \<or> blank (te_subject e) \<or> te_roles e = {}
      then Inl (ValueError, ''approval trust entry needs a key, subject, and roles'')
      else if \<not> aware (te_valid_from e) \<or> \<not> aware (te_valid_until e)
      then Inl (ValueError, ''approval trust entry times must be timezone-aware'')
      else if instant (te_valid_until e) \<le> instant (te_valid_from e)
      then Inl (ValueError, ''approval trust interval is invalid'')
      else if (case te_revoked_at e of None \<Rightarrow> False | Some t \<Rightarrow> \<not> aware t)
      then Inl (ValueError, ''approval revocation time must be timezone-aware'')
      else Inr e)"

record approval_receipt =
  ar_key_id :: string
  ar_approval_id :: string
  ar_approver :: string
  ar_scope :: string
  ar_intent_digest :: string
  ar_contract_digest :: string
  ar_executor_id :: string
  ar_issued_at :: dtime
  ar_expires_at :: dtime
  ar_signature :: string

definition approval_receipt_init :: "approval_receipt \<Rightarrow> approval_receipt res" where
  "approval_receipt_init r =
     (if list_ex blank [ar_key_id r, ar_approval_id r, ar_approver r, ar_scope r, ar_intent_digest r,
          ar_contract_digest r, ar_executor_id r]
      then Inl (ValueError, ''approval receipt has a required blank field'')
      else if ar_scope r \<noteq> ''action.execute''
      then Inl (ValueError, ''approval receipt has an unsupported scope'')
      else if \<not> aware (ar_issued_at r) \<or> \<not> aware (ar_expires_at r)
      then Inl (ValueError, ''approval receipt timestamps must be timezone-aware'')
      else Inr r)"

definition approval_payload :: "approval_receipt \<Rightarrow> string" where
  "approval_payload r = canonical_json (PDict
     [(''key_id'', PStr (ar_key_id r)), (''approval_id'', PStr (ar_approval_id r)),
      (''approver'', PStr (ar_approver r)), (''scope'', PStr (ar_scope r)),
      (''intent_digest'', PStr (ar_intent_digest r)), (''contract_digest'', PStr (ar_contract_digest r)),
      (''executor_id'', PStr (ar_executor_id r)), (''issued_at'', PStr (isoformat (ar_issued_at r))),
      (''expires_at'', PStr (isoformat (ar_expires_at r)))])"

text \<open>\<open>ApprovalSigner.approve\<close>; the approval id is \<open>uuid4\<close>.\<close>

definition approve :: "crypto \<Rightarrow> string \<Rightarrow> string \<Rightarrow> action_intent \<Rightarrow> task_contract \<Rightarrow> string \<Rightarrow> string
    \<Rightarrow> int \<Rightarrow> int \<Rightarrow> string \<Rightarrow> approval_receipt res" where
  "approve cr sk key_id intent contract approver executor ttl now approval_id =
     bnd (contract_digest cr contract) (\<lambda>cd.
     bnd (approval_receipt_init \<lparr>ar_key_id = key_id, ar_approval_id = approval_id, ar_approver = approver,
            ar_scope = ''action.execute'', ar_intent_digest = intent_digest cr intent, ar_contract_digest = cd,
            ar_executor_id = executor, ar_issued_at = utc now, ar_expires_at = utc (now + ttl), ar_signature = []\<rparr>)
       (\<lambda>unsigned. approval_receipt_init (unsigned\<lparr>ar_signature := ed_sign cr sk (approval_payload unsigned)\<rparr>)))"

section \<open>Consumption stores\<close>

type_synonym approval_key = "string \<times> string \<times> string"

definition mem_approval_consume :: "approval_key set \<Rightarrow> approval_key \<Rightarrow> int \<Rightarrow> bool \<times> approval_key set" where
  "mem_approval_consume s key now = (if key \<in> s then (False, s) else (True, insert key s))"

record approval_row =
  aw_key :: approval_key
  aw_consumed_at :: string

definition sql_approval_consume :: "approval_row list \<Rightarrow> approval_key \<Rightarrow> int \<Rightarrow> bool \<times> approval_row list" where
  "sql_approval_consume rows key now =
     (if key \<in> set (map aw_key rows) then (False, rows)
      else (True, rows @ [\<lparr>aw_key = key, aw_consumed_at = isoformat (utc now)\<rparr>]))"

interpretation mem_approvals: once_store mem_approval_consume "\<lambda>s. s"
  by unfold_locales (auto simp: mem_approval_consume_def)

interpretation sql_approvals: once_store sql_approval_consume "\<lambda>rows. set (map aw_key rows)"
  by unfold_locales (auto simp: sql_approval_consume_def)

section \<open>The verifier\<close>

record approval_verifier =
  av_keys :: "(string \<times> string) list"
  av_allowed_approvers :: "string set"
  av_trust_entries :: "(string \<times> trust_entry) list"
  av_maximum_ttl :: int
  av_maximum_age :: int
  av_clock_skew :: int

definition approval_verifier_init :: "approval_verifier \<Rightarrow> approval_verifier res" where
  "approval_verifier_init v =
     (if av_keys v = [] \<or> (av_allowed_approvers v = {} \<and> av_trust_entries v = [])
      then Inl (ValueError, ''approval verifier needs keys and approver trust'')
      else if av_trust_entries v \<noteq> [] \<and> set (dkeys (av_trust_entries v)) \<noteq> set (dkeys (av_keys v))
      then Inl (ValueError, ''approval trust entries must cover exactly the configured keys'')
      else Inr v)"

definition trust_check :: "approval_verifier \<Rightarrow> approval_receipt \<Rightarrow> int \<Rightarrow> unit res" where
  "trust_check v r now =
     (case dget (av_trust_entries v) (ar_key_id r) of
        Some trust \<Rightarrow>
          if te_subject trust \<noteq> ar_approver r \<or> ''security-reviewer'' \<notin> te_roles trust
          then Inl (ApprovalRejected, ''approval key is not bound to this approver identity'')
          else if now < instant (te_valid_from trust) \<or> now \<ge> instant (te_valid_until trust)
            \<or> (case te_revoked_at trust of None \<Rightarrow> False | Some t \<Rightarrow> now \<ge> instant t)
          then Inl (ApprovalRejected, ''approval signing key is not currently trusted'')
          else Inr ()
      | None \<Rightarrow>
          if ar_approver r \<notin> av_allowed_approvers v
          then Inl (ApprovalRejected, ''approval signer identity is not allowed'') else Inr ())"

text \<open>Everything \<open>ApprovalVerifier.validate\<close> checks before it consumes the approval.\<close>

definition approval_check :: "crypto \<Rightarrow> approval_verifier \<Rightarrow> approval_receipt \<Rightarrow> action_intent \<Rightarrow> task_contract
    \<Rightarrow> string \<Rightarrow> int \<Rightarrow> unit res" where
  "approval_check cr v r intent contract executor now =
     bnd (trust_check v r now) (\<lambda>_.
     bnd (if ar_intent_digest r \<noteq> intent_digest cr intent then Inr False
          else bnd (contract_digest cr contract) (\<lambda>cd. Inr (ar_contract_digest r = cd))) (\<lambda>bound.
     if \<not> bound then Inl (ApprovalRejected, ''approval is not bound to this intent and contract'')
     else if ar_executor_id r \<noteq> executor
     then Inl (ApprovalRejected, ''approval is not bound to this executor'')
     else if instant (ar_expires_at r) \<le> now \<or> instant (ar_issued_at r) > now + av_clock_skew v
       \<or> now - instant (ar_issued_at r) > av_maximum_age v
       \<or> instant (ar_expires_at r) - instant (ar_issued_at r) > av_maximum_ttl v
     then Inl (ApprovalRejected, ''approval is expired or not yet valid'')
     else case dget (av_keys v) (ar_key_id r) of
       None \<Rightarrow> Inl (ApprovalRejected, ''approval key is not trusted'')
     | Some key \<Rightarrow>
         if \<not> ed_verify cr key (approval_payload r) (ar_signature r)
         then Inl (ApprovalRejected, ''invalid approval signature'') else Inr ()))"

record approval_request =
  aq_receipt :: approval_receipt
  aq_intent :: action_intent
  aq_contract :: task_contract
  aq_executor_id :: string
  aq_now :: int

definition approval_key_of :: "crypto \<Rightarrow> approval_request \<Rightarrow> approval_key" where
  "approval_key_of cr q = (ar_approval_id (aq_receipt q), intent_digest cr (aq_intent q), aq_executor_id q)"

definition approval_validate :: "crypto \<Rightarrow> approval_verifier \<Rightarrow> ('s \<Rightarrow> approval_key \<Rightarrow> int \<Rightarrow> bool \<times> 's)
    \<Rightarrow> 's \<Rightarrow> approval_request \<Rightarrow> unit res \<times> 's" where
  "approval_validate cr v consume s q =
     (case approval_check cr v (aq_receipt q) (aq_intent q) (aq_contract q) (aq_executor_id q) (aq_now q) of
        Inl e \<Rightarrow> (Inl e, s)
      | Inr _ \<Rightarrow> (case consume s (approval_key_of cr q) (aq_now q) of
          (ok, s') \<Rightarrow> (if ok then Inr () else Inl (ApprovalRejected, ''approval receipt was already consumed''), s')))"

lemma approval_accepted:
  "fst (approval_validate cr v consume s q) = Inr x \<Longrightarrow>
    \<exists>i. fst (consume s (approval_key_of cr q) i) \<and>
      snd (approval_validate cr v consume s q) = snd (consume s (approval_key_of cr q) i)"
  by (auto simp: approval_validate_def split: sum.splits prod.splits if_splits) (metis fst_conv snd_conv)

lemma approval_rejected:
  "snd (approval_validate cr v consume s q) = s \<or>
    (\<exists>i. snd (approval_validate cr v consume s q) = snd (consume s (approval_key_of cr q) i))"
  by (auto simp: approval_validate_def split: sum.splits prod.splits) (metis snd_conv)

interpretation mem_approver: once_client mem_approval_consume "\<lambda>s. s"
    "approval_validate cr v mem_approval_consume" "approval_key_of cr" for cr v
proof unfold_locales
  fix s q x e
  show "fst (approval_validate cr v mem_approval_consume s q) = Inr x \<Longrightarrow>
      \<exists>i. fst (mem_approval_consume s (approval_key_of cr q) i) \<and>
        snd (approval_validate cr v mem_approval_consume s q) = snd (mem_approval_consume s (approval_key_of cr q) i)"
    by (rule approval_accepted)
  show "s \<subseteq> snd (approval_validate cr v mem_approval_consume s q)"
    using approval_rejected [of cr v mem_approval_consume s q] mem_approvals.used_mono by (metis order_refl)
qed

interpretation sql_approver: once_client sql_approval_consume "\<lambda>rows. set (map aw_key rows)"
    "approval_validate cr v sql_approval_consume" "approval_key_of cr" for cr v
proof unfold_locales
  fix s q x e
  show "fst (approval_validate cr v sql_approval_consume s q) = Inr x \<Longrightarrow>
      \<exists>i. fst (sql_approval_consume s (approval_key_of cr q) i) \<and>
        snd (approval_validate cr v sql_approval_consume s q) = snd (sql_approval_consume s (approval_key_of cr q) i)"
    by (rule approval_accepted)
  show "set (map aw_key s) \<subseteq> set (map aw_key (snd (approval_validate cr v sql_approval_consume s q)))"
    using approval_rejected [of cr v sql_approval_consume s q] sql_approvals.used_mono by (metis order_refl)
qed

section \<open>Properties\<close>

text \<open>In any sequence of approval presentations, an approval is accepted at most once for an
  intent and executor, with the in-memory and with the SQLite store.\<close>

theorem approval_single_use:
  "length (filter (accepted_with (approval_key_of cr) k)
      (run_all (approval_validate cr v mem_approval_consume) seen qs)) \<le> 1
   \<and> length (filter (accepted_with (approval_key_of cr) k)
      (run_all (approval_validate cr v sql_approval_consume) rows qs)) \<le> 1"
  using mem_approver.at_most_once sql_approver.at_most_once by blast

definition approver_trusted :: "approval_verifier \<Rightarrow> approval_receipt \<Rightarrow> int \<Rightarrow> bool" where
  "approver_trusted v r now \<longleftrightarrow>
     (case dget (av_trust_entries v) (ar_key_id r) of
        Some trust \<Rightarrow> te_subject trust = ar_approver r \<and> ''security-reviewer'' \<in> te_roles trust
          \<and> instant (te_valid_from trust) \<le> now \<and> now < instant (te_valid_until trust)
          \<and> (\<forall>t \<in> set_option (te_revoked_at trust). now < instant t)
      | None \<Rightarrow> ar_approver r \<in> av_allowed_approvers v)"

lemma trust_check_ok: "trust_check v r now = Inr u \<longleftrightarrow> approver_trusted v r now"
  by (auto simp: trust_check_def approver_trusted_def not_less not_le split: option.splits)

lemma approval_check_ok:
  "approval_check cr v r intent contract executor now = Inr u \<longleftrightarrow>
     approver_trusted v r now \<and> ar_intent_digest r = intent_digest cr intent
     \<and> contract_digest cr contract = Inr (ar_contract_digest r) \<and> ar_executor_id r = executor
     \<and> now < instant (ar_expires_at r) \<and> instant (ar_issued_at r) \<le> now + av_clock_skew v
     \<and> now - instant (ar_issued_at r) \<le> av_maximum_age v
     \<and> instant (ar_expires_at r) - instant (ar_issued_at r) \<le> av_maximum_ttl v
     \<and> (\<exists>key. dget (av_keys v) (ar_key_id r) = Some key \<and> ed_verify cr key (approval_payload r) (ar_signature r))"
  unfolding approval_check_def bnd_eq_Inr trust_check_ok
  by (cases "dget (av_keys v) (ar_key_id r)"; cases "contract_digest cr contract")
    (auto simp: not_le not_less)

text \<open>An approval is valid exactly when its approver is trusted for its key now, it is bound by
  digest to this intent and this contract and to this executor, its age and lifetime are within
  the verifier's limits and its signature verifies under the configured key.\<close>

theorem approval_check_iff:
  "approval_check cr v r intent contract executor now = Inr () \<longleftrightarrow>
     approver_trusted v r now \<and> ar_intent_digest r = intent_digest cr intent
     \<and> contract_digest cr contract = Inr (ar_contract_digest r) \<and> ar_executor_id r = executor
     \<and> now < instant (ar_expires_at r) \<and> instant (ar_issued_at r) \<le> now + av_clock_skew v
     \<and> now - instant (ar_issued_at r) \<le> av_maximum_age v
     \<and> instant (ar_expires_at r) - instant (ar_issued_at r) \<le> av_maximum_ttl v
     \<and> (\<exists>key. dget (av_keys v) (ar_key_id r) = Some key \<and> ed_verify cr key (approval_payload r) (ar_signature r))"
  by (rule approval_check_ok)

end
