(* ===== verification/Counters.thy ===== *)
theory Counters
  imports Values Once_Store
begin

text \<open>
  Use budgets of action rules (\<open>PolicyUseCounterStore\<close> of \<open>src/vloop/policy.py\<close>): the contract
  of a counter store, its in-memory and SQLite providers, and what the contract gives: a budget
  bounds the number of accepted uses.
\<close>

type_synonym rule_key = "string \<times> string \<times> string \<times> string"
type_synonym limits = "(rule_key \<times> int option) list"

definition within_limits :: "(rule_key \<Rightarrow> int) \<Rightarrow> limits \<Rightarrow> bool" where
  "within_limits count ls \<longleftrightarrow> (\<forall>(k, l) \<in> set ls. \<forall>m \<in> set_option l. count k < m)"

definition limits_positive :: "limits \<Rightarrow> bool" where
  "limits_positive ls \<longleftrightarrow> (\<forall>(k, l) \<in> set ls. \<forall>m \<in> set_option l. 1 \<le> m)"

definition occurrences :: "rule_key \<Rightarrow> limits \<Rightarrow> int" where
  "occurrences k ls = int (length (filter (\<lambda>p. fst p = k) ls))"

section \<open>The contract\<close>

locale counter_store =
  fixes consume :: "'s \<Rightarrow> limits \<Rightarrow> bool \<times> 's"
    and count :: "'s \<Rightarrow> rule_key \<Rightarrow> int"
  assumes admits: "fst (consume s ls) \<Longrightarrow> (k, Some m) \<in> set ls \<Longrightarrow> 1 \<le> m \<Longrightarrow> count s k < m"
    and serves: "within_limits (count s) ls \<Longrightarrow> fst (consume s ls)"
    and counts: "fst (consume s ls) \<Longrightarrow> count (snd (consume s ls)) k = count s k + occurrences k ls"
    and refuses: "\<not> fst (consume s ls) \<Longrightarrow> count (snd (consume s ls)) k = count s k"
begin

lemma occurrences_nonneg: "0 \<le> occurrences k ls"
  by (simp add: occurrences_def)

lemma occurrences_pos: "(k, l) \<in> set ls \<Longrightarrow> 1 \<le> occurrences k ls"
proof -
  assume "(k, l) \<in> set ls"
  then have "filter (\<lambda>p. fst p = k) ls \<noteq> []" by (force simp: filter_empty_conv)
  then show ?thesis by (simp add: occurrences_def Suc_le_eq)
qed

lemma count_mono: "count s k \<le> count (snd (consume s ls)) k"
  using counts [of s ls k] refuses [of s ls k] occurrences_nonneg [of k ls] by (cases "fst (consume s ls)") auto

lemma count_strict: "fst (consume s ls) \<Longrightarrow> (k, l) \<in> set ls \<Longrightarrow> count s k + 1 \<le> count (snd (consume s ls)) k"
  using counts [of s ls k] occurrences_pos [of k l ls] by simp

end

text \<open>
  A client whose accepted requests consume the limits of the request, and whose rejected ones
  at most consume some.
\<close>

locale budget_client = counter_store consume count
  for consume :: "'c \<Rightarrow> limits \<Rightarrow> bool \<times> 'c" and count :: "'c \<Rightarrow> rule_key \<Rightarrow> int" +
  fixes present :: "'a \<times> 'c \<Rightarrow> 'r \<Rightarrow> 'x res \<times> 'a \<times> 'c"
    and limits_of :: "'r \<Rightarrow> limits"
  assumes accepted_consumes: "fst (present s r) = Inr x \<Longrightarrow> fst (consume (snd s) (limits_of r))
      \<and> snd (snd (present s r)) = snd (consume (snd s) (limits_of r))"
    and only_consumes: "snd (snd (present s r)) = snd s
      \<or> (\<exists>ls. snd (snd (present s r)) = snd (consume (snd s) ls))"
begin

definition charged :: "rule_key \<Rightarrow> int \<Rightarrow> 'r \<times> 'x res \<Rightarrow> bool" where
  "charged k m p \<longleftrightarrow> (k, Some m) \<in> set (limits_of (fst p)) \<and> (\<exists>x. snd p = Inr x)"

lemma present_mono: "count (snd s) k \<le> count (snd (snd (present s r))) k"
  using only_consumes [of s r] count_mono by (metis order_refl)

lemma budget_bounds_uses:
  assumes "1 \<le> m"
  shows "int (length (filter (charged k m) (run_all present s rs))) \<le> max 0 (m - count (snd s) k)"
proof (induction rs arbitrary: s)
  case (Cons r rs)
  note IH = Cons.IH [of "snd (present s r)"]
  show ?case
  proof (cases "charged k m (r, fst (present s r))")
    case True
    then obtain x where x: "(k, Some m) \<in> set (limits_of r)" "fst (present s r) = Inr x"
      by (auto simp: charged_def)
    have "count (snd s) k < m" using accepted_consumes [OF x(2)] admits x(1) assms by blast
    moreover have "count (snd s) k + 1 \<le> count (snd (snd (present s r))) k"
      using accepted_consumes [OF x(2)] count_strict x(1) by metis
    ultimately show ?thesis using IH True by simp
  next
    case False
    then show ?thesis using IH present_mono [of s k r] by simp
  qed
qed simp

end

section \<open>The providers\<close>

definition count_of :: "(rule_key \<times> int) list \<Rightarrow> rule_key \<Rightarrow> int" where
  "count_of d k = (case dget d k of None \<Rightarrow> 0 | Some n \<Rightarrow> n)"

definition increment :: "rule_key \<Rightarrow> (rule_key \<times> int) list \<Rightarrow> (rule_key \<times> int) list" where
  "increment k d = AList.update k (count_of d k + 1) d"

definition increment_all :: "limits \<Rightarrow> (rule_key \<times> int) list \<Rightarrow> (rule_key \<times> int) list" where
  "increment_all ls d = fold (\<lambda>(k, _). increment k) ls d"

text \<open>\<open>InMemoryPolicyUseCounterStore.consume\<close>.\<close>

definition mem_counter_consume :: "(rule_key \<times> int) list \<Rightarrow> limits \<Rightarrow> bool \<times> (rule_key \<times> int) list" where
  "mem_counter_consume d ls =
     (if list_ex (\<lambda>(k, l). case l of None \<Rightarrow> False | Some m \<Rightarrow> count_of d k \<ge> m) ls
      then (False, d) else (True, increment_all ls d))"

text \<open>
  \<open>SQLitePolicyUseCounterStore.consume\<close>: inside \<open>BEGIN IMMEDIATE\<close>, reads every row, rolls back
  at an exhausted one, else upserts every row with \<open>use_count + 1\<close>.
\<close>

fun sql_exhausted :: "(rule_key \<times> int) list \<Rightarrow> limits \<Rightarrow> bool" where
  "sql_exhausted rows [] = False"
| "sql_exhausted rows ((k, l) # ls) =
     (case (l, dget rows k) of
        (Some m, Some n) \<Rightarrow> if n \<ge> m then True else sql_exhausted rows ls
      | _ \<Rightarrow> sql_exhausted rows ls)"

fun sql_upsert :: "rule_key \<Rightarrow> (rule_key \<times> int) list \<Rightarrow> (rule_key \<times> int) list" where
  "sql_upsert k [] = [(k, 1)]"
| "sql_upsert k ((k', n) # rows) = (if k' = k then (k', n + 1) # rows else (k', n) # sql_upsert k rows)"

definition sql_counter_consume :: "(rule_key \<times> int) list \<Rightarrow> limits \<Rightarrow> bool \<times> (rule_key \<times> int) list" where
  "sql_counter_consume rows ls =
     (if sql_exhausted rows ls then (False, rows) else (True, fold (\<lambda>(k, _). sql_upsert k) ls rows))"

lemma count_increment: "count_of (increment k d) k' = count_of d k' + (if k' = k then 1 else 0)"
  by (simp add: increment_def count_of_def)

lemma count_increment_all: "count_of (increment_all ls d) k = count_of d k + occurrences k ls"
proof (induction ls arbitrary: d)
  case (Cons l ls)
  then show ?case by (cases l) (auto simp: increment_all_def count_increment occurrences_def)
qed (simp add: increment_all_def occurrences_def)

lemma sql_upsert_increment: "sql_upsert k rows = increment k rows"
proof (induction rows)
  case (Cons r rows)
  then show ?case by (cases r) (auto simp: increment_def count_of_def dget_Cons)
qed (simp add: increment_def count_of_def)

lemma sql_upsert_all: "fold (\<lambda>(k, _). sql_upsert k) ls rows = increment_all ls rows"
  unfolding increment_all_def by (rule fold_cong) (auto simp: sql_upsert_increment)

lemma sql_exhausted_iff:
  "sql_exhausted rows ls \<longleftrightarrow> (\<exists>(k, l) \<in> set ls. \<exists>m \<in> set_option l. \<exists>n. dget rows k = Some n \<and> m \<le> n)"
  by (induction rows ls rule: sql_exhausted.induct) (auto split: option.splits if_splits)

lemma mem_exhausted_iff:
  "list_ex (\<lambda>(k, l). case l of None \<Rightarrow> False | Some m \<Rightarrow> count_of d k \<ge> m) ls
    \<longleftrightarrow> \<not> within_limits (count_of d) ls"
proof -
  have "(case l of None \<Rightarrow> False | Some m \<Rightarrow> count_of d k \<ge> m) \<longleftrightarrow> \<not> (\<forall>m \<in> set_option l. count_of d k < m)"
    for k l by (cases l) auto
  then show ?thesis by (simp add: list_ex_iff within_limits_def split_def)
qed

lemma sql_exhausted_count:
  "limits_positive ls \<Longrightarrow> sql_exhausted rows ls \<longleftrightarrow> \<not> within_limits (count_of rows) ls"
  unfolding sql_exhausted_iff within_limits_def limits_positive_def count_of_def
  by (fastforce simp: not_less split: option.splits)

interpretation mem_counters: counter_store mem_counter_consume count_of
proof unfold_locales
  fix s ls k m
  show "fst (mem_counter_consume s ls) \<Longrightarrow> (k, Some m) \<in> set ls \<Longrightarrow> 1 \<le> m \<Longrightarrow> count_of s k < m"
    by (auto simp: mem_counter_consume_def mem_exhausted_iff within_limits_def split: if_splits)
qed (auto simp: mem_counter_consume_def mem_exhausted_iff count_increment_all)

interpretation sql_counters: counter_store sql_counter_consume count_of
proof unfold_locales
  fix s ls k m
  assume "fst (sql_counter_consume s ls)" "(k, Some m) \<in> set ls" "(1 :: int) \<le> m"
  then show "count_of s k < m"
    by (fastforce simp: sql_counter_consume_def sql_exhausted_iff count_of_def not_le split: if_splits option.splits)
next
  fix s ls
  assume "within_limits (count_of s) ls"
  then show "fst (sql_counter_consume s ls)"
    by (fastforce simp: sql_counter_consume_def sql_exhausted_iff within_limits_def count_of_def)
qed (auto simp: sql_counter_consume_def sql_upsert_all count_increment_all)

text \<open>The durable counter store behaves like the in-memory one: on the same counts and positive
  budgets it gives the same answer and leaves the same counts.\<close>

theorem counter_stores_agree:
  assumes "limits_positive ls"
  shows "sql_counter_consume rows ls = mem_counter_consume rows ls"
  using assms
  by (auto simp: sql_counter_consume_def mem_counter_consume_def mem_exhausted_iff sql_exhausted_count sql_upsert_all)

theorem counter_stores_agree_witness:
  "sql_counter_consume [] [((''c'', ''t'', ''read'', ''/''), Some 1)]
    = mem_counter_consume [] [((''c'', ''t'', ''read'', ''/''), Some 1)]"
  by (rule counter_stores_agree) (simp add: limits_positive_def)

end
