(* ===== verification/Policy.thy ===== *)
theory Policy
  imports Policy_Rules Approvals Counters
begin

text \<open>
  \<open>PolicyGate\<close> of \<open>src/vloop/policy.py\<close>: the reference monitor that turns an intent into a signed
  capability. Its state is the approval consumption store and the use-counter store, both
  given by their \<open>consume\<close> operations.
\<close>

section \<open>The gate\<close>

datatype approval = Development string | Signed approval_receipt

record gate =
  pg_contract :: task_contract
  pg_key :: string
  pg_ttl :: int
  pg_approvals :: "approval_verifier option"

text \<open>
  The times of one call: \<open>now\<close> is the argument (or the clock when it is absent), the approval
  verifier reads the clock itself. Capability id and nonce are \<open>uuid4\<close>.
\<close>

record gate_call =
  gc_intent :: action_intent
  gc_executor_id :: string
  gc_approvals :: "approval list"
  gc_graph_digest :: string
  gc_graph_node_id :: string
  gc_now :: int
  gc_clock :: int
  gc_capability_id :: string
  gc_nonce :: string

definition matching_rules :: "task_contract \<Rightarrow> action_intent \<Rightarrow> action_rule list" where
  "matching_rules c i = filter (\<lambda>r. rule_tool r = in_tool i \<and> rule_effect r = in_effect i
     \<and> target_matches (in_target i) (rule_target_prefix r)) (tc_allowed_actions c)"

text \<open>The checks before approvals: the matching rules, or the denial.\<close>

definition admission :: "task_contract \<Rightarrow> action_intent \<Rightarrow> int \<Rightarrow> action_rule list res" where
  "admission c i now =
     (if contract_is_expired c now then Inl (PolicyDenied, ''contract expired'')
      else if in_contract_id i \<noteq> tc_contract_id c \<or> in_contract_version i \<noteq> tc_version c
      then Inl (PolicyDenied, ''intent references a different contract version'')
      else if in_tool i \<in> set (tc_forbidden_actions c)
      then Inl (PolicyDenied, ''forbidden tool: '' @ in_tool i)
      else if tc_require_argument_provenance c \<and> \<not> has_complete_argument_provenance i
      then Inl (PolicyDenied, ''action needs a complete provenance DAG for every argument: ''
        @ py_sorted_strs (filter (\<lambda>a. a \<notin> set (dkeys (in_argument_provenance_graph i))) (dkeys (in_arguments i))))
      else if contains_inline_secret [] (PDict (in_arguments i))
      then Inl (PolicyDenied, ''inline secrets are forbidden; use an executor-owned credential boundary'')
      else let rules = matching_rules c i in
        if rules = [] then Inl (PolicyDenied, ''no action rule authorizes this tool/effect/target'')
        else bnd (validate_argument_rules i rules) (\<lambda>_. Inr rules))"

definition untrusted_provenance :: "provenance list \<Rightarrow> bool" where
  "untrusted_provenance ps \<longleftrightarrow> list_ex (\<lambda>p. p = UNTRUSTED_RETRIEVAL \<or> p = TOOL_OUTPUT) ps"

definition untrusted_arguments :: "action_intent \<Rightarrow> string list" where
  "untrusted_arguments i = filter (\<lambda>a. untrusted_provenance (provenance_for_argument i a)) (dkeys (in_arguments i))"

definition tainted_high_impact :: "action_intent \<Rightarrow> bool" where
  "tainted_high_impact i \<longleftrightarrow> (untrusted_provenance (in_provenance i) \<or> untrusted_arguments i \<noteq> [])
     \<and> in_effect i \<noteq> READ"

definition always_approval :: "action_intent \<Rightarrow> bool" where
  "always_approval i \<longleftrightarrow> in_effect i = DELETE \<or> in_effect i = PUBLISH"

definition requires_approval :: "action_intent \<Rightarrow> action_rule list \<Rightarrow> bool" where
  "requires_approval i rules \<longleftrightarrow> always_approval i \<or> tainted_high_impact i \<or> list_ex rule_approval_required rules"

text \<open>\<open>_is_approved\<close>: a rejected receipt is skipped, any other exception propagates.\<close>

fun is_approved :: "crypto \<Rightarrow> gate \<Rightarrow> ('a \<Rightarrow> approval_key \<Rightarrow> int \<Rightarrow> bool \<times> 'a) \<Rightarrow> action_intent \<Rightarrow> string \<Rightarrow> int
    \<Rightarrow> approval list \<Rightarrow> 'a \<Rightarrow> bool res \<times> 'a" where
  "is_approved cr g consume i ex clock [] s = (Inr False, s)"
| "is_approved cr g consume i ex clock (Development d # rest) s =
     (if pg_approvals g = None \<and> d = intent_digest cr i then (Inr True, s)
      else is_approved cr g consume i ex clock rest s)"
| "is_approved cr g consume i ex clock (Signed r # rest) s =
     (case pg_approvals g of
        None \<Rightarrow> is_approved cr g consume i ex clock rest s
      | Some v \<Rightarrow>
          (case approval_validate cr v consume s \<lparr>aq_receipt = r, aq_intent = i, aq_contract = pg_contract g,
                   aq_executor_id = ex, aq_now = clock\<rparr> of
             (Inr _, s') \<Rightarrow> (Inr True, s')
           | (Inl e, s') \<Rightarrow> if fst e = ApprovalRejected then is_approved cr g consume i ex clock rest s'
                             else (Inl e, s')))"

definition approval_denial :: "action_intent \<Rightarrow> action_rule list \<Rightarrow> (exc \<times> string) option" where
  "approval_denial i rules =
     (if tainted_high_impact i
      then Some (PolicyDenied, ''tainted high-impact action or argument requires explicit approval'')
      else if always_approval i
      then Some (PolicyDenied, effect_value (in_effect i) @ '' always requires explicit approval'')
      else if list_ex rule_approval_required rules
      then Some (PolicyDenied, ''this action requires explicit approval'') else None)"

definition rule_limits :: "string \<Rightarrow> action_rule list \<Rightarrow> limits" where
  "rule_limits cd rules =
     map (\<lambda>r. ((cd, rule_tool r, effect_value (rule_effect r), rule_target_prefix r), rule_max_uses r)) rules"

definition authorize :: "crypto \<Rightarrow> gate \<Rightarrow> ('a \<Rightarrow> approval_key \<Rightarrow> int \<Rightarrow> bool \<times> 'a) \<Rightarrow> ('c \<Rightarrow> limits \<Rightarrow> bool \<times> 'c)
    \<Rightarrow> 'a \<times> 'c \<Rightarrow> gate_call \<Rightarrow> capability res \<times> 'a \<times> 'c" where
  "authorize cr g aconsume cconsume s q =
     (let i = gc_intent q in
      case admission (pg_contract g) i (gc_now q) of
        Inl e \<Rightarrow> (Inl e, s)
      | Inr rules \<Rightarrow>
          (case (if requires_approval i rules
                 then is_approved cr g aconsume i (gc_executor_id q) (gc_clock q) (gc_approvals q) (fst s)
                 else (Inr False, fst s)) of
             (Inl e, sa) \<Rightarrow> (Inl e, sa, snd s)
           | (Inr approved, sa) \<Rightarrow>
               (case (if approved then None else approval_denial i rules) of
                  Some e \<Rightarrow> (Inl e, sa, snd s)
                | None \<Rightarrow>
                    (case contract_digest cr (pg_contract g) of
                       Inl e \<Rightarrow> (Inl e, sa, snd s)
                     | Inr cd \<Rightarrow>
                         (case cconsume (snd s) (rule_limits cd rules) of
                            (ok, sc) \<Rightarrow>
                              (if \<not> ok then Inl (PolicyDenied, ''action rule use budget exhausted'')
                               else capability_issue cr (pg_key g) i cd (gc_executor_id q) (utc (gc_now q))
                                 (utc (gc_now q + pg_ttl g)) (gc_graph_digest q) (gc_graph_node_id q)
                                 (gc_capability_id q) (gc_nonce q), sa, sc))))))"

text \<open>The compatibility helper \<open>PolicyGate.validate_and_consume\<close>, on the gate's own nonce store.\<close>

definition gate_validate_and_consume :: "crypto \<Rightarrow> gate \<Rightarrow> string set \<Rightarrow> capability \<Rightarrow> action_intent \<Rightarrow> int
    \<Rightarrow> unit res \<times> string set" where
  "gate_validate_and_consume cr g seen c i now =
     (case contract_digest cr (pg_contract g) of
        Inl e \<Rightarrow> (Inl e, seen)
      | Inr cd \<Rightarrow>
          if cap_contract_digest c \<noteq> cd
          then (Inl (PolicyDenied, ''capability belongs to another contract''), seen)
          else (case validate_and_consume cr (ed_public cr (pg_key g)) mem_nonce_consume seen
                  \<lparr>rq_capability = c, rq_intent = i, rq_executor_id = cap_executor_id c, rq_now = now\<rparr> of
             (Inl e, s') \<Rightarrow> (Inl (if is_permission_error (fst e) then (PolicyDenied, snd e) else e), s')
           | (Inr u, s') \<Rightarrow> (Inr u, s')))"

section \<open>What an issued capability implies\<close>

definition admitted :: "task_contract \<Rightarrow> action_intent \<Rightarrow> int \<Rightarrow> bool" where
  "admitted c i now \<longleftrightarrow>
     (\<forall>t \<in> set_option (tc_expires_at c). now < instant t)
     \<and> in_contract_id i = tc_contract_id c \<and> in_contract_version i = tc_version c
     \<and> in_tool i \<notin> set (tc_forbidden_actions c)
     \<and> (tc_require_argument_provenance c \<longrightarrow> has_complete_argument_provenance i)
     \<and> \<not> contains_inline_secret [] (PDict (in_arguments i))
     \<and> matching_rules c i \<noteq> []
     \<and> (\<forall>r \<in> set (matching_rules c i). arguments_ok r (in_arguments i))"

lemma admission_ok: "admission c i now = Inr rules \<longleftrightarrow> admitted c i now \<and> rules = matching_rules c i"
  unfolding admission_def admitted_def
  by (auto simp: Let_def bnd_eq_Inr validate_argument_rules_ok contract_is_expired_def not_le split: option.splits)

text \<open>An approval the gate would accept for this call.\<close>

definition acceptable_approval :: "crypto \<Rightarrow> gate \<Rightarrow> gate_call \<Rightarrow> approval \<Rightarrow> bool" where
  "acceptable_approval cr g q a \<longleftrightarrow>
     (case (a, pg_approvals g) of
        (Development d, None) \<Rightarrow> d = intent_digest cr (gc_intent q)
      | (Signed r, Some v) \<Rightarrow> approval_check cr v r (gc_intent q) (pg_contract g) (gc_executor_id q) (gc_clock q) = Inr ()
      | _ \<Rightarrow> False)"

lemma is_approved_acceptable:
  "fst (is_approved cr g consume (gc_intent q) (gc_executor_id q) (gc_clock q) as s) = Inr True
    \<Longrightarrow> \<exists>a \<in> set as. acceptable_approval cr g q a"
proof (induction as arbitrary: s)
  case (Cons a as)
  show ?case
  proof (cases a)
    case (Development d)
    then show ?thesis using Cons by (auto simp: acceptable_approval_def split: if_splits)
  next
    case (Signed r)
    show ?thesis
    proof (cases "pg_approvals g")
      case None
      then show ?thesis using Cons Signed by auto
    next
      case (Some v)
      then show ?thesis
        using Cons Signed
        by (auto simp: acceptable_approval_def approval_validate_def split: sum.splits prod.splits if_splits)
    qed
  qed
qed simp

lemma authorize_okD:
  assumes "fst (authorize cr g aconsume cconsume s q) = Inr c"
  shows "admitted (pg_contract g) (gc_intent q) (gc_now q)
    \<and> (requires_approval (gc_intent q) (matching_rules (pg_contract g) (gc_intent q)) \<longrightarrow>
         (\<exists>a \<in> set (gc_approvals q). acceptable_approval cr g q a))
    \<and> (\<exists>cd. contract_digest cr (pg_contract g) = Inr cd
        \<and> fst (cconsume (snd s) (rule_limits cd (matching_rules (pg_contract g) (gc_intent q))))
        \<and> snd (snd (authorize cr g aconsume cconsume s q))
            = snd (cconsume (snd s) (rule_limits cd (matching_rules (pg_contract g) (gc_intent q))))
        \<and> capability_issue cr (pg_key g) (gc_intent q) cd (gc_executor_id q) (utc (gc_now q))
            (utc (gc_now q + pg_ttl g)) (gc_graph_digest q) (gc_graph_node_id q)
            (gc_capability_id q) (gc_nonce q) = Inr c)"
proof -
  let ?i = "gc_intent q" and ?rules = "matching_rules (pg_contract g) (gc_intent q)"
  obtain rules where ad: "admission (pg_contract g) ?i (gc_now q) = Inr rules"
    using assms by (cases "admission (pg_contract g) ?i (gc_now q)") (auto simp: authorize_def Let_def)
  then have rules: "rules = ?rules" "admitted (pg_contract g) ?i (gc_now q)" by (simp_all add: admission_ok)
  define ap where "ap = (if requires_approval ?i rules
      then is_approved cr g aconsume ?i (gc_executor_id q) (gc_clock q) (gc_approvals q) (fst s) else (Inr False, fst s))"
  obtain b sa where b: "ap = (Inr b, sa)"
    using assms ad by (cases "fst ap"; cases ap) (auto simp: authorize_def Let_def ap_def [symmetric])
  have den: "(if b then None else approval_denial ?i rules) = None"
    using assms ad b by (auto simp: authorize_def Let_def ap_def [symmetric] split: option.splits)
  obtain cd where cd: "contract_digest cr (pg_contract g) = Inr cd"
    using assms ad b den
    by (cases "contract_digest cr (pg_contract g)") (auto simp: authorize_def Let_def ap_def [symmetric])
  obtain ok sc where sc: "cconsume (snd s) (rule_limits cd rules) = (ok, sc)" by fastforce
  have eq: "authorize cr g aconsume cconsume s q = (if \<not> ok then Inl (PolicyDenied, ''action rule use budget exhausted'')
      else capability_issue cr (pg_key g) ?i cd (gc_executor_id q) (utc (gc_now q)) (utc (gc_now q + pg_ttl g))
        (gc_graph_digest q) (gc_graph_node_id q) (gc_capability_id q) (gc_nonce q), sa, sc)"
    using ad b den cd sc by (simp add: authorize_def Let_def ap_def [symmetric])
  have "\<exists>a \<in> set (gc_approvals q). acceptable_approval cr g q a" if "requires_approval ?i rules"
  proof -
    have "approval_denial ?i rules \<noteq> None" using that by (auto simp: approval_denial_def requires_approval_def)
    then have "b" using den by (auto split: if_splits)
    then have "fst (is_approved cr g aconsume ?i (gc_executor_id q) (gc_clock q) (gc_approvals q) (fst s)) = Inr True"
      using b that rules(1) by (simp add: ap_def)
    then show ?thesis by (rule is_approved_acceptable)
  qed
  then show ?thesis using rules cd sc eq assms by (auto split: if_splits)
qed

text \<open>C13: default deny. Whenever the gate issues a capability, the contract is current and is the one
  the intent names, the tool is not forbidden, no inline secret is in the arguments, some rule
  allows the tool, effect and target, every such rule's argument constraints hold, and the
  capability is bound to this intent, contract, executor and lifetime and signed by the gate.\<close>

theorem authorize_sound:
  assumes "fst (authorize cr g aconsume cconsume s q) = Inr c"
  shows "admitted (pg_contract g) (gc_intent q) (gc_now q)
    \<and> contract_digest cr (pg_contract g) = Inr (cap_contract_digest c)
    \<and> cap_intent_digest c = intent_digest cr (gc_intent q) \<and> cap_executor_id c = gc_executor_id q
    \<and> cap_issued_at c = utc (gc_now q) \<and> cap_expires_at c = utc (gc_now q + pg_ttl g)
    \<and> cap_graph_digest c = gc_graph_digest q \<and> cap_graph_node_id c = gc_graph_node_id q
    \<and> cap_signature c = ed_sign cr (pg_key g) (capability_payload c)"
  using authorize_okD [OF assms] by (auto dest: capability_issueD)

text \<open>C14: deletions, publications, actions influenced by untrusted retrieval or tool output (through the
  intent or through any single argument) and actions whose rule says so get a capability only
  with an approval that is valid for this very intent and executor.\<close>

theorem authorize_needs_approval:
  assumes "fst (authorize cr g aconsume cconsume s q) = Inr c"
    and "in_effect (gc_intent q) \<in> {DELETE, PUBLISH}
      \<or> tainted_high_impact (gc_intent q)
      \<or> (\<exists>r \<in> set (matching_rules (pg_contract g) (gc_intent q)). rule_approval_required r)"
  shows "\<exists>a \<in> set (gc_approvals q). acceptable_approval cr g q a"
proof -
  have "requires_approval (gc_intent q) (matching_rules (pg_contract g) (gc_intent q))"
    using assms(2) by (auto simp: requires_approval_def always_approval_def list_ex_iff)
  then show ?thesis using authorize_okD [OF assms(1)] by blast
qed

text \<open>C16: a contract with an expiry date has no digest (the canonical encoder rejects dates), so the
  gate never issues a capability under one, expired or not.\<close>

theorem expiring_contract_never_authorizes:
  "case fst (authorize cr g aconsume cconsume s q) of
     Inr c \<Rightarrow> tc_expires_at (pg_contract g) = None
   | Inl e \<Rightarrow> True"
proof (cases "fst (authorize cr g aconsume cconsume s q)")
  case (Inr c)
  then obtain cd where "contract_digest cr (pg_contract g) = Inr cd" using authorize_okD by blast
  then show ?thesis
    using Inr by (auto simp: contract_digest_def task_contract_py_def split: option.splits)
qed simp

section \<open>Budgets\<close>

definition gate_limits :: "crypto \<Rightarrow> gate \<Rightarrow> gate_call \<Rightarrow> limits" where
  "gate_limits cr g q =
     (case contract_digest cr (pg_contract g) of
        Inl e \<Rightarrow> []
      | Inr cd \<Rightarrow> rule_limits cd (matching_rules (pg_contract g) (gc_intent q)))"

lemma authorize_consumes:
  assumes "fst (authorize cr g aconsume cconsume s q) = Inr c"
  shows "fst (cconsume (snd s) (gate_limits cr g q))
    \<and> snd (snd (authorize cr g aconsume cconsume s q)) = snd (cconsume (snd s) (gate_limits cr g q))"
  using authorize_okD [OF assms] by (auto simp: gate_limits_def)

lemma authorize_only_consumes:
  "snd (snd (authorize cr g aconsume cconsume s q)) = snd s
    \<or> (\<exists>ls. snd (snd (authorize cr g aconsume cconsume s q)) = snd (cconsume (snd s) ls))"
  unfolding authorize_def Let_def
  by (auto split: sum.splits prod.splits option.splits) (metis snd_conv)+

interpretation mem_budget: budget_client mem_counter_consume count_of
    "authorize cr g aconsume mem_counter_consume" "gate_limits cr g"
  for cr g and aconsume :: "'a \<Rightarrow> approval_key \<Rightarrow> int \<Rightarrow> bool \<times> 'a"
  by unfold_locales (rule authorize_consumes, assumption, rule authorize_only_consumes)

interpretation sql_budget: budget_client sql_counter_consume count_of
    "authorize cr g aconsume sql_counter_consume" "gate_limits cr g"
  for cr g and aconsume :: "'a \<Rightarrow> approval_key \<Rightarrow> int \<Rightarrow> bool \<times> 'a"
  by unfold_locales (rule authorize_consumes, assumption, rule authorize_only_consumes)

text \<open>The calls that were answered with a capability under a rule with key \<open>k\<close> and budget \<open>m\<close>.\<close>

definition granted :: "crypto \<Rightarrow> gate \<Rightarrow> rule_key \<Rightarrow> int \<Rightarrow> gate_call \<times> capability res \<Rightarrow> bool" where
  "granted cr g k m p \<longleftrightarrow> (k, Some m) \<in> set (gate_limits cr g (fst p)) \<and> (\<exists>c. snd p = Inr c)"

lemma granted_charged:
  "granted cr g = mem_budget.charged cr g" "granted cr g = sql_budget.charged cr g"
  by (simp_all add: fun_eq_iff granted_def mem_budget.charged_def sql_budget.charged_def)

text \<open>In any sequence of authorization calls, with any intents, approvals and clocks, the number of
  capabilities the gate issues under a rule with budget \<open>m\<close> is at most what is left of the budget,
  with the in-memory counters and with the SQLite ones, which may start from earlier runs.\<close>

theorem budget_bounds_capabilities:
  assumes "1 \<le> m"
  shows "int (length (filter (granted cr g k m)
           (run_all (authorize cr g aconsume mem_counter_consume) s qs))) \<le> max 0 (m - count_of (snd s) k)
    \<and> int (length (filter (granted cr g k m)
           (run_all (authorize cr g aconsume sql_counter_consume) s qs))) \<le> max 0 (m - count_of (snd s) k)"
  using mem_budget.budget_bounds_uses [OF assms] sql_budget.budget_bounds_uses [OF assms]
  unfolding granted_charged by blast

section \<open>A concrete gate\<close>

definition sample_rule :: action_rule where
  "sample_rule = \<lparr>rule_tool = ''write_file'', rule_effect = WRITE, rule_target_prefix = ''/work'',
     rule_approval_required = True, rule_max_uses = Some 1, rule_argument_rules = [], rule_allow_unlisted = False\<rparr>"

definition sample_contract :: task_contract where
  "sample_contract = \<lparr>tc_goal = ''g'', tc_success_conditions = [''s''], tc_allowed_actions = [sample_rule],
     tc_forbidden_actions = [''shell''], tc_required_verifiers = [], tc_success_condition_bindings = [],
     tc_action_safety_checks = [], tc_global_completion_guards = [], tc_require_argument_provenance = False,
     tc_task_kind = ''general'', tc_risk_class = ''medium'', tc_probe_policy_digest = [], tc_profile_version = [],
     tc_profile_digest = [], tc_maximum_iterations = 3, tc_maximum_tool_calls = 5, tc_expires_at = None,
     tc_contract_id = ''k'', tc_version = 1\<rparr>"

definition sample_gate :: gate where
  "sample_gate = \<lparr>pg_contract = sample_contract, pg_key = ''sk'', pg_ttl = minutes 5, pg_approvals = None\<rparr>"

definition sample_call :: gate_call where
  "sample_call = \<lparr>gc_intent = sample_intent, gc_executor_id = ''exec'',
     gc_approvals = [Development (intent_digest toy_crypto sample_intent)], gc_graph_digest = [], gc_graph_node_id = [],
     gc_now = 0, gc_clock = 0, gc_capability_id = ''id'', gc_nonce = ''n''\<rparr>"

text \<open>What the gate answers to it, whatever was asked before.\<close>

lemma sample_admitted: "admission sample_contract sample_intent 0 = Inr [sample_rule]"
  by code_simp

lemma sample_requires: "requires_approval sample_intent [sample_rule]"
  by code_simp

lemma sample_contract_digest: "\<exists>cd. contract_digest toy_crypto sample_contract = Inr cd"
  by (simp add: contract_digest_def task_contract_py_def sample_contract_def)

lemma sample_authorized:
  "\<exists>c. fst (authorize toy_crypto sample_gate mem_approval_consume mem_counter_consume ({}, []) sample_call) = Inr c"
proof -
  obtain cd where cd: "contract_digest toy_crypto sample_contract = Inr cd" using sample_contract_digest by blast
  have "fst (mem_counter_consume [] (rule_limits cd [sample_rule]))"
    by (simp add: mem_counter_consume_def rule_limits_def sample_rule_def count_of_def)
  then obtain sc where sc: "mem_counter_consume [] (rule_limits cd [sample_rule]) = (True, sc)"
    by (cases "mem_counter_consume [] (rule_limits cd [sample_rule])") auto
  show ?thesis
    by (simp add: authorize_def sample_gate_def sample_call_def sample_admitted sample_requires cd sc Let_def
      capability_issue_def capability_init_def blank_iff py_isspace_def utc_def minutes_def)
qed

theorem authorize_sound_witness: "admitted sample_contract sample_intent 0"
proof -
  obtain c where "fst (authorize toy_crypto sample_gate mem_approval_consume mem_counter_consume ({}, []) sample_call) = Inr c"
    using sample_authorized by blast
  from authorize_sound [OF this] show ?thesis by (simp add: sample_gate_def sample_call_def)
qed

theorem authorize_needs_approval_witness:
  "\<exists>a \<in> set (gc_approvals sample_call). acceptable_approval toy_crypto sample_gate sample_call a"
proof -
  obtain c where "fst (authorize toy_crypto sample_gate mem_approval_consume mem_counter_consume ({}, []) sample_call) = Inr c"
    using sample_authorized by blast
  moreover have "sample_rule \<in> set (matching_rules (pg_contract sample_gate) (gc_intent sample_call))"
    "rule_approval_required sample_rule"
    by code_simp+
  ultimately show ?thesis by (intro authorize_needs_approval) blast+
qed

theorem budget_bounds_capabilities_witness:
  "int (length (filter (granted toy_crypto sample_gate (replicate 64 (CHR ''0''), ''write_file'', ''write'', ''/work'') 1)
     (run_all (authorize toy_crypto sample_gate mem_approval_consume mem_counter_consume) ({}, [])
       [sample_call, sample_call\<lparr>gc_nonce := ''n2''\<rparr>]))) \<le> 1"
  using budget_bounds_capabilities [of 1 toy_crypto sample_gate
    "(replicate 64 (CHR ''0''), ''write_file'', ''write'', ''/work'')" mem_approval_consume "({}, [])"
    "[sample_call, sample_call\<lparr>gc_nonce := ''n2''\<rparr>]"]
  by (simp add: count_of_def)

end
