(* ===== verification/Idempotency.thy ===== *)
theory Idempotency
  imports Models
begin

text \<open>
  The idempotency stores of \<open>src/vloop/executor.py\<close>: a key \<open>(executor, contract, idempotency key)\<close>
  is reserved for one intent digest before its effect and completed, or marked indeterminate, after
  it. The contract of a store is a locale, with the in-memory and the SQLite store as providers.
\<close>

type_synonym op_key = "string \<times> string \<times> string"
type_synonym idem_key = "op_key \<times> string"

datatype idem_reply = Reserved | Pending | Conflict | Completed observation | Indeterminate "observation option"

section \<open>Observations as JSON\<close>

fun opt_int_of :: "pyval \<Rightarrow> int option res" where
  "opt_int_of PNone = Inr None"
| "opt_int_of (PInt i) = Inr (Some i)"
| "opt_int_of v = Inl (TypeError, ''expected an exit code'')"

definition encode_observation :: "observation \<Rightarrow> pyval" where
  "encode_observation x = json_norm (observation_py x)"

definition decode_observation :: "pyval option \<Rightarrow> observation res" where
  "decode_observation encoded =
     (case encoded of
        None \<Rightarrow> Inl (RuntimeError, ''completed idempotency record has no observation'')
      | Some v \<Rightarrow>
          bnd (dict_of v) (\<lambda>d.
          bnd (dreq d ''success'') (\<lambda>ok.
          bnd (bnd (dreq d ''exit_code'') opt_int_of) (\<lambda>code.
          bnd (dreq d ''stdout'') (\<lambda>out.
          bnd (dreq d ''stderr'') (\<lambda>err.
          bnd (bnd (dreq d ''artifact_digests'') str_dict_of) (\<lambda>arts.
          bnd (bnd (dreq d ''metadata'') dict_of) (\<lambda>meta.
          Inr \<lparr>ob_success = truthy ok, ob_exit_code = code, ob_stdout = py_str out, ob_stderr = py_str err,
               ob_artifact_digests = arts, ob_metadata = meta\<rparr>))))))))"

definition indeterminate_observation :: "string \<Rightarrow> observation" where
  "indeterminate_observation reason = \<lparr>ob_success = False, ob_exit_code = None, ob_stdout = [], ob_stderr = reason,
     ob_artifact_digests = [], ob_metadata = [(''idempotency_state'', PStr ''indeterminate'')]\<rparr>"

text \<open>What an observation is after it went through the store.\<close>

definition norm_observation :: "observation \<Rightarrow> observation" where
  "norm_observation x = x\<lparr>ob_artifact_digests := sort_dict (ob_artifact_digests x), ob_metadata := norm_dict (ob_metadata x)\<rparr>"

lemma norm_dict_strs: "norm_dict (map (\<lambda>(k, v). (k, PStr v)) d) = map (\<lambda>(k, v). (k, PStr v)) (sort_dict d)"
proof -
  have "map (\<lambda>(k, v). (k, json_norm v)) (map (\<lambda>(k, v). (k, PStr v)) d) = map (\<lambda>(k, v). (k, PStr v)) d"
    by (induction d) auto
  then show ?thesis by (simp only: norm_dict_def sort_dict_map)
qed

lemma opt_int_of_norm [simp]: "opt_int_of (json_norm (opt_int_py i)) = Inr i"
  by (cases i) (simp_all add: opt_int_py_def)

lemma decode_encode_observation [simp]:
  "decode_observation (Some (encode_observation x)) = Inr (norm_observation x)"
  unfolding encode_observation_def observation_py_def json_norm_PDict decode_observation_def
  by (simp add: dreq_def dget_norm_dict dget_Cons json_norm_PDict norm_dict_strs norm_observation_def
      del: json_norm.simps(3))

section \<open>The contract of a store\<close>

record 's idem_ops =
  do_reserve :: "'s \<Rightarrow> idem_key \<Rightarrow> string \<times> int \<Rightarrow> idem_reply res \<times> 's"
  do_complete :: "'s \<Rightarrow> idem_key \<Rightarrow> observation \<Rightarrow> int \<Rightarrow> unit res \<times> 's"
  do_mark :: "'s \<Rightarrow> idem_key \<Rightarrow> observation \<Rightarrow> int \<Rightarrow> unit res \<times> 's"

text \<open>
  \<open>bound\<close> gives the intent an operation is reserved for, \<open>unknown\<close> the operations whose outcome
  is indeterminate, \<open>stored\<close> what a store gives back of an observation.
\<close>

locale idem_store =
  fixes ops :: "'s idem_ops"
    and inv :: "'s \<Rightarrow> bool"
    and bound :: "'s \<Rightarrow> op_key \<Rightarrow> string option"
    and unknown :: "'s \<Rightarrow> idem_key \<Rightarrow> bool"
    and stored :: "observation \<Rightarrow> observation"
  assumes reserve_inv: "inv s \<Longrightarrow> inv (snd (do_reserve ops s k i))"
    and reserve_bound: "inv s \<Longrightarrow> bound (snd (do_reserve ops s k i)) p =
          (if p = fst k \<and> bound s p = None then Some (snd k) else bound s p)"
    and reserved_iff: "inv s \<Longrightarrow> fst (do_reserve ops s k i) = Inr Reserved \<longleftrightarrow> bound s (fst k) = None"
    and conflict: "inv s \<Longrightarrow> bound s (fst k) = Some d \<Longrightarrow> d \<noteq> snd k \<Longrightarrow> fst (do_reserve ops s k i) = Inr Conflict"
    and fresh_known: "inv s \<Longrightarrow> bound s (fst k) = None \<Longrightarrow> \<not> unknown s k"
    and reserve_known: "inv s \<Longrightarrow> fst (do_reserve ops s k i) = Inr Reserved \<Longrightarrow> \<not> unknown (snd (do_reserve ops s k i)) k"
    and complete_keeps: "inv s \<Longrightarrow> bound s (fst k) = Some (snd k) \<Longrightarrow>
          inv (snd (do_complete ops s k x t)) \<and> bound (snd (do_complete ops s k x t)) = bound s"
    and mark_keeps: "inv s \<Longrightarrow> bound s (fst k) = Some (snd k) \<Longrightarrow>
          inv (snd (do_mark ops s k x t)) \<and> bound (snd (do_mark ops s k x t)) = bound s"
    and recorded: "inv s \<Longrightarrow> bound s (fst k) = Some (snd k) \<Longrightarrow> \<not> unknown s k \<Longrightarrow>
          fst (do_complete ops s k x t) = Inr u \<Longrightarrow>
          fst (do_reserve ops (snd (do_complete ops s k x t)) k i) = Inr (Completed (stored x))"
    and completes: "inv s \<Longrightarrow> fst (do_reserve ops s k i) = Inr Reserved \<Longrightarrow>
          fst (do_complete ops (snd (do_reserve ops s k i)) k x t) = Inr ()"
    and marked: "inv s \<Longrightarrow> bound s (fst k) = Some (snd k) \<Longrightarrow> fst (do_mark ops s k x t) = Inr u \<Longrightarrow>
          fst (do_reserve ops (snd (do_mark ops s k x t)) k i) = Inr (Indeterminate (Some (stored x)))"
begin

lemma reserve_grows: "inv s \<Longrightarrow> bound s p = Some d \<Longrightarrow> bound (snd (do_reserve ops s k i)) p = Some d"
  by (simp add: reserve_bound)

lemma reserved_binds:
  "inv s \<Longrightarrow> fst (do_reserve ops s k i) = Inr Reserved \<Longrightarrow>
    bound s (fst k) = None \<and> bound (snd (do_reserve ops s k i)) (fst k) = Some (snd k)"
  by (simp add: reserve_bound reserved_iff)

end

section \<open>The in-memory store\<close>

record mem_idem =
  mi_records :: "(idem_key \<times> observation option) list"
  mi_intents :: "(op_key \<times> string) list"
  mi_unknown :: "idem_key set"

definition mem_reserve :: "mem_idem \<Rightarrow> idem_key \<Rightarrow> string \<times> int \<Rightarrow> idem_reply res \<times> mem_idem" where
  "mem_reserve s k i =
     (if (case dget (mi_intents s) (fst k) of None \<Rightarrow> False | Some d \<Rightarrow> d \<noteq> snd k) then (Inr Conflict, s)
      else case dget (mi_records s) k of
        None \<Rightarrow> (Inr Reserved, s\<lparr>mi_intents := AList.update (fst k) (snd k) (mi_intents s),
                               mi_records := AList.update k None (mi_records s)\<rparr>)
      | Some r \<Rightarrow>
          if k \<in> mi_unknown s then (Inr (Indeterminate r), s)
          else (case r of None \<Rightarrow> (Inr Pending, s) | Some x \<Rightarrow> (Inr (Completed x), s)))"

definition mem_complete :: "mem_idem \<Rightarrow> idem_key \<Rightarrow> observation \<Rightarrow> int \<Rightarrow> unit res \<times> mem_idem" where
  "mem_complete s k x t = (Inr (), s\<lparr>mi_records := AList.update k (Some x) (mi_records s)\<rparr>)"

definition mem_mark :: "mem_idem \<Rightarrow> idem_key \<Rightarrow> observation \<Rightarrow> int \<Rightarrow> unit res \<times> mem_idem" where
  "mem_mark s k x t = (Inr (), s\<lparr>mi_records := AList.update k (Some x) (mi_records s), mi_unknown := insert k (mi_unknown s)\<rparr>)"

definition mem_idem_ops :: "mem_idem idem_ops" where
  "mem_idem_ops = \<lparr>do_reserve = mem_reserve, do_complete = mem_complete, do_mark = mem_mark\<rparr>"

definition mem_inv :: "mem_idem \<Rightarrow> bool" where
  "mem_inv s \<longleftrightarrow> (\<forall>p d. dget (mi_records s) (p, d) \<noteq> None \<longleftrightarrow> dget (mi_intents s) p = Some d)
     \<and> (\<forall>p d. (p, d) \<in> mi_unknown s \<longrightarrow> dget (mi_intents s) p = Some d)"

lemma mem_idem_ops_simps [simp]:
  "do_reserve mem_idem_ops = mem_reserve" "do_complete mem_idem_ops = mem_complete" "do_mark mem_idem_ops = mem_mark"
  by (simp_all add: mem_idem_ops_def)

lemma mem_records_None:
  assumes "mem_inv s"
  shows "dget (mi_records s) (p, d) = None \<longleftrightarrow> dget (mi_intents s) p \<noteq> Some d"
proof -
  have "dget (mi_records s) (p, d) \<noteq> None \<longleftrightarrow> dget (mi_intents s) p = Some d"
    using assms unfolding mem_inv_def by blast
  then show ?thesis by blast
qed

lemma mem_reserve_cases:
  assumes "mem_inv s"
  obtains "dget (mi_intents s) (fst k) = None" "dget (mi_records s) k = None" "k \<notin> mi_unknown s"
  | d where "dget (mi_intents s) (fst k) = Some d" "d \<noteq> snd k"
  | r where "dget (mi_intents s) (fst k) = Some (snd k)" "dget (mi_records s) k = Some r"
proof (cases "dget (mi_intents s) (fst k)")
  case None
  then have "dget (mi_records s) k = None" using mem_records_None [OF assms, of "fst k" "snd k"] by simp
  moreover have "k \<notin> mi_unknown s" using assms None unfolding mem_inv_def by (metis option.distinct(1) prod.collapse)
  ultimately show ?thesis using None that(1) by blast
next
  case (Some d)
  show ?thesis
  proof (cases "d = snd k")
    case True
    then have "dget (mi_records s) k \<noteq> None" using mem_records_None [OF assms, of "fst k" "snd k"] Some by simp
    then show ?thesis using Some True that(3) by auto
  qed (use Some that(2) in blast)
qed

lemma mem_inv_reserved:
  assumes "mem_inv s" "dget (mi_intents s) (fst k) = None"
  shows "mem_inv (s\<lparr>mi_intents := AList.update (fst k) (snd k) (mi_intents s),
                    mi_records := AList.update k None (mi_records s)\<rparr>)"
  using assms unfolding mem_inv_def by (cases k) force

lemma mem_inv_recorded:
  assumes "mem_inv s" "dget (mi_intents s) (fst k) = Some (snd k)" "u = mi_unknown s \<or> u = insert k (mi_unknown s)"
  shows "mem_inv (s\<lparr>mi_records := AList.update k (Some x) (mi_records s), mi_unknown := u\<rparr>)"
  using assms unfolding mem_inv_def by (cases k) auto

interpretation mem_idem: idem_store mem_idem_ops mem_inv "\<lambda>s. dget (mi_intents s)" "\<lambda>s k. k \<in> mi_unknown s" "\<lambda>x. x"
proof unfold_locales
  fix s k i
  assume s: "mem_inv s"
  show "mem_inv (snd (do_reserve mem_idem_ops s k i))"
    using s by (rule mem_reserve_cases [of s k]) (auto simp: mem_reserve_def mem_inv_reserved s split: option.splits)
  show "fst (do_reserve mem_idem_ops s k i) = Inr Reserved \<longleftrightarrow> dget (mi_intents s) (fst k) = None"
    using s by (rule mem_reserve_cases [of s k]) (auto simp: mem_reserve_def split: option.splits)
  show "fst (do_reserve mem_idem_ops s k i) = Inr Reserved \<Longrightarrow> k \<notin> mi_unknown (snd (do_reserve mem_idem_ops s k i))"
    using s by (rule mem_reserve_cases [of s k]) (auto simp: mem_reserve_def split: option.splits if_splits)
  show "dget (mi_intents s) (fst k) = None \<Longrightarrow> k \<notin> mi_unknown s"
    using s by (rule mem_reserve_cases [of s k]) auto
  show "dget (mi_intents (snd (do_reserve mem_idem_ops s k i))) p =
      (if p = fst k \<and> dget (mi_intents s) p = None then Some (snd k) else dget (mi_intents s) p)" for p
    using s by (rule mem_reserve_cases [of s k]) (auto simp: mem_reserve_def split: option.splits)
next
  fix s :: mem_idem and k i and d :: string
  assume "dget (mi_intents s) (fst k) = Some d" "d \<noteq> snd k"
  then show "fst (do_reserve mem_idem_ops s k i) = Inr Conflict" by (simp add: mem_reserve_def)
next
  fix s :: mem_idem and k x t
  assume s: "mem_inv s" and k: "dget (mi_intents s) (fst k) = Some (snd k)"
  show "mem_inv (snd (do_complete mem_idem_ops s k x t)) \<and>
      dget (mi_intents (snd (do_complete mem_idem_ops s k x t))) = dget (mi_intents s)"
    using mem_inv_recorded [OF s k, of "mi_unknown s"] by (simp add: mem_complete_def)
  show "mem_inv (snd (do_mark mem_idem_ops s k x t)) \<and>
      dget (mi_intents (snd (do_mark mem_idem_ops s k x t))) = dget (mi_intents s)"
    using mem_inv_recorded [OF s k, of "insert k (mi_unknown s)"] by (simp add: mem_mark_def)
qed (simp_all add: mem_reserve_def mem_complete_def mem_mark_def)

section \<open>The SQLite store\<close>

text \<open>
  One row per operation (the primary key). Times are ISO texts, an empty lease is \<open>NULL\<close>, a row
  holds the observation as JSON. Each operation is one \<open>BEGIN IMMEDIATE\<close> transaction; an error
  rolls it back.
\<close>

record idem_row =
  ir_op :: op_key
  ir_intent :: string
  ir_state :: string
  ir_observation :: "pyval option"
  ir_owner :: "string option"
  ir_lease :: "string option"
  ir_attempts :: int
  ir_created_at :: string
  ir_updated_at :: string

definition sql_idem_init :: "int \<Rightarrow> idem_row list res" where
  "sql_idem_init lease = (if lease \<le> 0 then Inl (ValueError, ''idempotency lease duration must be positive'') else Inr [])"

definition idem_find :: "idem_row list \<Rightarrow> op_key \<Rightarrow> idem_row option" where
  "idem_find rows p = find (\<lambda>r. ir_op r = p) rows"

definition idem_update :: "(idem_row \<Rightarrow> bool) \<Rightarrow> (idem_row \<Rightarrow> idem_row) \<Rightarrow> idem_row list \<Rightarrow> idem_row list" where
  "idem_update sel f rows = map (\<lambda>r. if sel r then f r else r) rows"

definition of_key :: "idem_key \<Rightarrow> idem_row \<Rightarrow> bool" where
  "of_key k r \<longleftrightarrow> ir_op r = fst k \<and> ir_intent r = snd k"

definition lease_expired :: "string option \<Rightarrow> int \<Rightarrow> bool res" where
  "lease_expired lease now =
     (case lease of
        None \<Rightarrow> Inr True
      | Some l \<Rightarrow> if l = [] then Inr True else bnd (time_of (PStr l)) (\<lambda>t. Inr (instant t \<le> now)))"

text \<open>\<open>reserve\<close>: \<open>owner\<close> and \<open>now\<close> are the thread's identity and the clock.\<close>

definition sql_reserve :: "int \<Rightarrow> idem_row list \<Rightarrow> idem_key \<Rightarrow> string \<times> int \<Rightarrow> idem_reply res \<times> idem_row list" where
  "sql_reserve lease rows k i =
     (let now = isoformat (utc (snd i)) in
      case idem_find rows (fst k) of
        None \<Rightarrow> (Inr Reserved, rows @ [\<lparr>ir_op = fst k, ir_intent = snd k, ir_state = ''pending'', ir_observation = None,
            ir_owner = Some (fst i), ir_lease = Some (isoformat (utc (snd i + lease))), ir_attempts = 1,
            ir_created_at = now, ir_updated_at = now\<rparr>])
      | Some r \<Rightarrow>
          if ir_intent r \<noteq> snd k then (Inr Conflict, rows)
          else if ir_state r = ''completed''
          then (bnd (decode_observation (ir_observation r)) (\<lambda>x. Inr (Completed x)), rows)
          else if ir_state r = ''indeterminate''
          then ((case ir_observation r of
                   None \<Rightarrow> Inr (Indeterminate None)
                 | Some v \<Rightarrow> bnd (decode_observation (Some v)) (\<lambda>x. Inr (Indeterminate (Some x)))), rows)
          else if ir_state r \<noteq> ''pending''
          then (Inl (RuntimeError, ''unknown idempotency state: '' @ ir_state r), rows)
          else case lease_expired (ir_lease r) (snd i) of
            Inl e \<Rightarrow> (Inl e, rows)
          | Inr False \<Rightarrow> (Inr Pending, rows)
          | Inr True \<Rightarrow>
              (let x = indeterminate_observation ''prior executor lease expired; side effect outcome is unknown'' in
               (Inr (Indeterminate (Some x)),
                idem_update (of_key k) (\<lambda>r. r\<lparr>ir_state := ''indeterminate'',
                  ir_observation := Some (encode_observation x), ir_updated_at := now\<rparr>) rows)))"

text \<open>\<open>complete\<close> and \<open>mark_indeterminate\<close> update the pending row of the key, or fail.\<close>

definition sql_settle :: "string \<Rightarrow> string \<Rightarrow> idem_row list \<Rightarrow> idem_key \<Rightarrow> observation \<Rightarrow> int \<Rightarrow> unit res \<times> idem_row list" where
  "sql_settle state lost rows k x now =
     (let sel = (\<lambda>r. of_key k r \<and> ir_state r = ''pending'') in
      if length (filter sel rows) \<noteq> 1 then (Inl (RuntimeError, lost), rows)
      else (Inr (), idem_update sel (\<lambda>r. r\<lparr>ir_state := state, ir_observation := Some (encode_observation x),
              ir_owner := None, ir_lease := None, ir_updated_at := isoformat (utc now)\<rparr>) rows))"

definition sql_complete :: "idem_row list \<Rightarrow> idem_key \<Rightarrow> observation \<Rightarrow> int \<Rightarrow> unit res \<times> idem_row list" where
  "sql_complete = sql_settle ''completed'' ''idempotency reservation was lost before completion''"

definition sql_mark :: "idem_row list \<Rightarrow> idem_key \<Rightarrow> observation \<Rightarrow> int \<Rightarrow> unit res \<times> idem_row list" where
  "sql_mark = sql_settle ''indeterminate'' ''idempotency reservation was lost before indeterminate recovery''"

definition sql_idem_ops :: "int \<Rightarrow> idem_row list idem_ops" where
  "sql_idem_ops lease = \<lparr>do_reserve = sql_reserve lease, do_complete = sql_complete, do_mark = sql_mark\<rparr>"

lemma sql_idem_ops_simps [simp]:
  "do_reserve (sql_idem_ops lease) = sql_reserve lease" "do_complete (sql_idem_ops lease) = sql_complete"
  "do_mark (sql_idem_ops lease) = sql_mark"
  by (simp_all add: sql_idem_ops_def)

definition sql_bound :: "idem_row list \<Rightarrow> op_key \<Rightarrow> string option" where
  "sql_bound rows p = map_option ir_intent (idem_find rows p)"

definition sql_inv :: "idem_row list \<Rightarrow> bool" where
  "sql_inv rows \<longleftrightarrow> distinct (map ir_op rows)"

definition sql_unknown :: "idem_row list \<Rightarrow> idem_key \<Rightarrow> bool" where
  "sql_unknown rows k \<longleftrightarrow> (\<exists>r. idem_find rows (fst k) = Some r \<and> ir_state r = ''indeterminate'')"

text \<open>An update that keeps operations and intents, seen through the abstraction.\<close>

lemma idem_find_update:
  assumes "\<And>r. ir_op (f r) = ir_op r"
  shows "idem_find (idem_update sel f rows) p = map_option (\<lambda>r. if sel r then f r else r) (idem_find rows p)"
  unfolding idem_find_def idem_update_def by (induction rows) (auto simp: assms)

lemma idem_update_keeps:
  assumes "\<And>r. ir_op (f r) = ir_op r" "\<And>r. ir_intent (f r) = ir_intent r"
  shows "sql_bound (idem_update sel f rows) = sql_bound rows" "sql_inv (idem_update sel f rows) = sql_inv rows"
proof -
  show "sql_bound (idem_update sel f rows) = sql_bound rows"
    by (rule ext) (auto simp: sql_bound_def idem_find_update assms option.map_comp comp_def intro!: option.map_cong0)
  have "map ir_op (idem_update sel f rows) = map ir_op rows" by (induction rows) (auto simp: idem_update_def assms)
  then show "sql_inv (idem_update sel f rows) = sql_inv rows" by (simp add: sql_inv_def)
qed

lemma idem_find_append: "idem_find (rows @ [r]) p = (case idem_find rows p of None \<Rightarrow> if ir_op r = p then Some r else None | Some x \<Rightarrow> Some x)"
  unfolding idem_find_def by (induction rows) auto

lemma idem_find_Some: "idem_find rows p = Some r \<Longrightarrow> r \<in> set rows \<and> ir_op r = p"
  unfolding idem_find_def by (auto simp: find_Some_iff)

lemma idem_find_distinct: "sql_inv rows \<Longrightarrow> r \<in> set rows \<Longrightarrow> idem_find rows (ir_op r) = Some r"
  unfolding sql_inv_def idem_find_def by (induction rows) (auto simp: image_iff)

lemma sql_settle_keeps:
  "sql_inv rows \<Longrightarrow> sql_inv (snd (sql_settle st lost rows k x t)) \<and> sql_bound (snd (sql_settle st lost rows k x t)) = sql_bound rows"
  by (simp add: sql_settle_def Let_def idem_update_keeps)

lemma sql_settle_find:
  assumes "sql_inv rows" "fst (sql_settle st lost rows k x t) = Inr u"
  shows "\<exists>r. idem_find (snd (sql_settle st lost rows k x t)) (fst k) = Some r \<and> ir_intent r = snd k
    \<and> ir_state r = st \<and> ir_observation r = Some (encode_observation x)"
proof -
  let ?sel = "\<lambda>r. of_key k r \<and> ir_state r = ''pending''"
  from assms(2) have one: "length (filter ?sel rows) = 1" by (auto simp: sql_settle_def Let_def split: if_splits)
  then obtain r where "r \<in> set (filter ?sel rows)" by (cases "filter ?sel rows") auto
  then have r: "r \<in> set rows" "?sel r" by auto
  then have "idem_find rows (fst k) = Some r" using idem_find_distinct [OF assms(1) r(1)] by (simp add: of_key_def)
  then show ?thesis using one r by (auto simp: sql_settle_def Let_def idem_find_update of_key_def)
qed

lemma sql_reserve_existing:
  assumes "idem_find rows (fst k) = Some r"
  shows "sql_bound (snd (sql_reserve lease rows k i)) = sql_bound rows"
  using assms by (simp add: sql_reserve_def Let_def idem_update_keeps split: sum.splits bool.splits option.splits)

lemma sql_reserve_bound:
  "sql_bound (snd (sql_reserve lease rows k i)) p =
     (if p = fst k \<and> sql_bound rows p = None then Some (snd k) else sql_bound rows p)"
proof (cases "idem_find rows (fst k)")
  case None
  then show ?thesis by (auto simp: sql_reserve_def Let_def sql_bound_def idem_find_append split: option.splits)
next
  case (Some r)
  then show ?thesis by (simp only: sql_reserve_existing) (auto simp: sql_bound_def)
qed

lemma sql_reserve_inv: "sql_inv rows \<Longrightarrow> sql_inv (snd (sql_reserve lease rows k i))"
proof (cases "idem_find rows (fst k)")
  case None
  then have "fst k \<notin> set (map ir_op rows)" by (auto simp: idem_find_def find_None_iff)
  then show "sql_inv rows \<Longrightarrow> ?thesis" using None by (simp add: sql_reserve_def Let_def sql_inv_def)
qed (auto simp: sql_reserve_def Let_def idem_update_keeps split: sum.splits bool.splits)

lemma sql_reserved_iff: "fst (sql_reserve lease rows k i) = Inr Reserved \<longleftrightarrow> sql_bound rows (fst k) = None"
  by (auto simp: sql_reserve_def Let_def sql_bound_def bnd_eq_Inr split: option.splits sum.splits bool.splits)

lemma sql_reserved_completes:
  assumes "fst (sql_reserve lease rows k i) = Inr Reserved"
  shows "fst (sql_complete (snd (sql_reserve lease rows k i)) k x t) = Inr ()"
proof -
  have none: "idem_find rows (fst k) = None" using assms by (simp add: sql_reserved_iff sql_bound_def)
  then have "filter (\<lambda>r. of_key k r \<and> ir_state r = ''pending'') rows = []"
    by (auto simp: idem_find_def find_None_iff of_key_def filter_empty_conv)
  then show ?thesis using none by (simp add: sql_reserve_def Let_def sql_complete_def sql_settle_def of_key_def)
qed

interpretation sql_idem: idem_store "sql_idem_ops lease" sql_inv sql_bound sql_unknown norm_observation for lease
proof unfold_locales
  fix s :: "idem_row list" and k i
  show "sql_inv s \<Longrightarrow> sql_inv (snd (do_reserve (sql_idem_ops lease) s k i))" by (simp add: sql_reserve_inv)
  show "sql_bound (snd (do_reserve (sql_idem_ops lease) s k i)) p =
      (if p = fst k \<and> sql_bound s p = None then Some (snd k) else sql_bound s p)" for p
    by (simp add: sql_reserve_bound)
  show r: "fst (do_reserve (sql_idem_ops lease) s k i) = Inr Reserved \<longleftrightarrow> sql_bound s (fst k) = None"
    by (simp add: sql_reserved_iff)
  show "sql_bound s (fst k) = None \<Longrightarrow> \<not> sql_unknown s k" by (simp add: sql_bound_def sql_unknown_def)
  assume res: "fst (do_reserve (sql_idem_ops lease) s k i) = Inr Reserved"
  then show "fst (do_complete (sql_idem_ops lease) (snd (do_reserve (sql_idem_ops lease) s k i)) k x t) = Inr ()" for x t
    by (simp add: sql_reserved_completes)
  have "idem_find s (fst k) = None" using r res by (simp add: sql_bound_def)
  then show "\<not> sql_unknown (snd (do_reserve (sql_idem_ops lease) s k i)) k"
    by (simp add: sql_reserve_def Let_def sql_unknown_def idem_find_append)
next
  fix s :: "idem_row list" and k i d
  show "sql_bound s (fst k) = Some d \<Longrightarrow> d \<noteq> snd k \<Longrightarrow> fst (do_reserve (sql_idem_ops lease) s k i) = Inr Conflict"
    by (auto simp: sql_reserve_def Let_def sql_bound_def)
next
  fix s :: "idem_row list" and k x t i u
  assume s: "sql_inv s"
  show "sql_inv (snd (do_complete (sql_idem_ops lease) s k x t)) \<and> sql_bound (snd (do_complete (sql_idem_ops lease) s k x t)) = sql_bound s"
    "sql_inv (snd (do_mark (sql_idem_ops lease) s k x t)) \<and> sql_bound (snd (do_mark (sql_idem_ops lease) s k x t)) = sql_bound s"
    using s by (simp_all add: sql_complete_def sql_mark_def sql_settle_keeps)
  show "fst (do_complete (sql_idem_ops lease) s k x t) = Inr u \<Longrightarrow>
      fst (do_reserve (sql_idem_ops lease) (snd (do_complete (sql_idem_ops lease) s k x t)) k i) = Inr (Completed (norm_observation x))"
    using sql_settle_find [OF s, of "''completed''" _ k x t] by (fastforce simp: sql_complete_def sql_reserve_def Let_def)
  show "fst (do_mark (sql_idem_ops lease) s k x t) = Inr u \<Longrightarrow>
      fst (do_reserve (sql_idem_ops lease) (snd (do_mark (sql_idem_ops lease) s k x t)) k i) = Inr (Indeterminate (Some (norm_observation x)))"
    using sql_settle_find [OF s, of "''indeterminate''" _ k x t] by (fastforce simp: sql_mark_def sql_reserve_def Let_def)
qed

text \<open>
  What is settled in the SQLite store stays settled: no later reservation, completion or mark
  changes the row of a completed or indeterminate operation.
\<close>

definition settled :: "idem_row list \<Rightarrow> op_key \<Rightarrow> idem_row \<Rightarrow> bool" where
  "settled rows p r \<longleftrightarrow> idem_find rows p = Some r \<and> ir_state r \<in> {''completed'', ''indeterminate''}"

lemma settled_reserve: "settled rows p r \<Longrightarrow> settled (snd (sql_reserve lease rows k i)) p r"
  by (cases "p = fst k")
    (auto simp: settled_def sql_reserve_def Let_def idem_find_append idem_find_update of_key_def
      dest: idem_find_Some split: option.splits sum.splits bool.splits)

lemma settled_settle: "settled rows p r \<Longrightarrow> settled (snd (sql_settle st lost rows k x t)) p r"
  by (auto simp: settled_def sql_settle_def Let_def idem_find_update)

end
