(* ===== verification/Executor.thy ===== *)
theory Executor
  imports Idempotency Authorization
begin

text \<open>
  \<open>CapabilityEnforcingExecutor\<close> of \<open>src/vloop/executor.py\<close>, one atomic action at a time:
  validate and reserve, consume the nonce, invoke the raw executor, record the outcome. Calls of
  any number of threads and processes interleave between those actions, and a process may stop
  between any two of them. The raw executor is a parameter that acts on a world of its own.
\<close>

section \<open>One call\<close>

record enforcer =
  en_id :: string
  en_public_key :: string

record exec_call =
  xc_intent :: action_intent
  xc_capability :: capability
  xc_prepared :: "prepared_execution option"

text \<open>
  The shared state: the nonce store, the idempotency store, the world of the raw executor and
  the invocations of the raw executor so far (kept for the properties only).
\<close>

record ('n, 's, 'w) exec_sys =
  es_nonces :: 'n
  es_store :: 's
  es_world :: 'w
  es_calls :: "(idem_key \<times> exec_call) list"

record ('n, 's, 'w) exec_env =
  ee_consume :: "'n \<Rightarrow> string \<Rightarrow> dtime \<times> int \<Rightarrow> bool \<times> 'n"
  ee_ops :: "'s idem_ops"
  ee_raw :: "'w \<Rightarrow> action_intent \<Rightarrow> prepared_execution option \<Rightarrow> observation res \<times> 'w"

datatype exec_pc = Validate | Consume idem_key | Reject idem_key observation | Invoke idem_key
  | Raised idem_key observation | Finish idem_key observation | Lost idem_key observation
  | Returned "observation res"

definition authorization_failure :: "enforcer \<Rightarrow> string \<Rightarrow> observation" where
  "authorization_failure en reason = \<lparr>ob_success = False, ob_exit_code = None, ob_stdout = [], ob_stderr = reason,
     ob_artifact_digests = [],
     ob_metadata = [(''executor_id'', PStr (en_id en)), (''capability_verified'', PBool False)]\<rparr>"

definition verified_observation :: "enforcer \<Rightarrow> observation \<Rightarrow> observation" where
  "verified_observation en x = x\<lparr>ob_metadata := dmerge (ob_metadata x)
     [(''executor_id'', PStr (en_id en)), (''capability_verified'', PBool True)]\<rparr>"

definition replayed :: "enforcer \<Rightarrow> observation \<Rightarrow> observation" where
  "replayed en x = x\<lparr>ob_metadata := dmerge (ob_metadata x)
     [(''idempotency_replay'', PBool True), (''executor_id'', PStr (en_id en))]\<rparr>"

definition unknown_outcome :: "enforcer \<Rightarrow> observation option \<Rightarrow> observation" where
  "unknown_outcome en cached =
     (case cached of None \<Rightarrow> indeterminate_observation ''previous execution outcome is unknown'' | Some x \<Rightarrow> x)
       \<lparr>ob_metadata := dmerge (case cached of None \<Rightarrow> [] | Some x \<Rightarrow> ob_metadata x)
          [(''executor_id'', PStr (en_id en)), (''capability_verified'', PBool True),
           (''idempotency_state'', PStr ''indeterminate'')]\<rparr>"

definition exec_key :: "crypto \<Rightarrow> enforcer \<Rightarrow> exec_call \<Rightarrow> idem_key" where
  "exec_key cr en c = ((en_id en, cap_contract_digest (xc_capability c), in_idempotency_key (xc_intent c)),
     intent_digest cr (xc_intent c))"

definition cap_request_of :: "enforcer \<Rightarrow> exec_call \<Rightarrow> int \<Rightarrow> cap_request" where
  "cap_request_of en c now = \<lparr>rq_capability = xc_capability c, rq_intent = xc_intent c,
     rq_executor_id = en_id en, rq_now = now\<rparr>"

text \<open>\<open>except CapabilityRejected\<close>: any other exception propagates.\<close>

definition on_rejection :: "exc \<times> string \<Rightarrow> (string \<Rightarrow> exec_pc) \<Rightarrow> exec_pc" where
  "on_rejection e k = (if fst e = CapabilityRejected then k (snd e) else Returned (Inl e))"

definition step_validate :: "crypto \<Rightarrow> enforcer \<Rightarrow> ('n, 's, 'w) exec_env \<Rightarrow> exec_call \<Rightarrow> string \<times> int
    \<Rightarrow> ('n, 's, 'w) exec_sys \<Rightarrow> exec_pc \<times> ('n, 's, 'w) exec_sys" where
  "step_validate cr en env c i s =
     (case capability_validate cr (en_public_key en) (xc_capability c) (xc_intent c) (en_id en) (snd i) of
        Inl e \<Rightarrow> (on_rejection e (\<lambda>msg. Returned (Inr (authorization_failure en msg))), s)
      | Inr _ \<Rightarrow>
          (case do_reserve (ee_ops env) (es_store s) (exec_key cr en c) i of
             (reply, st) \<Rightarrow>
               ((case reply of
                   Inl e \<Rightarrow> Returned (Inl e)
                 | Inr (Completed x) \<Rightarrow> Returned (Inr (replayed en x))
                 | Inr Pending \<Rightarrow> Returned (Inr (authorization_failure en ''idempotency key is already executing''))
                 | Inr Conflict \<Rightarrow> Returned (Inr (authorization_failure en ''idempotency key was already bound to a different intent''))
                 | Inr (Indeterminate cached) \<Rightarrow> Returned (Inr (unknown_outcome en cached))
                 | Inr Reserved \<Rightarrow> Consume (exec_key cr en c)),
                s\<lparr>es_store := st\<rparr>)))"

definition step_consume :: "crypto \<Rightarrow> enforcer \<Rightarrow> ('n, 's, 'w) exec_env \<Rightarrow> exec_call \<Rightarrow> string \<times> int \<Rightarrow> idem_key
    \<Rightarrow> ('n, 's, 'w) exec_sys \<Rightarrow> exec_pc \<times> ('n, 's, 'w) exec_sys" where
  "step_consume cr en env c i k s =
     (case validate_and_consume cr (en_public_key en) (ee_consume env) (es_nonces s) (cap_request_of en c (snd i)) of
        (res, n) \<Rightarrow>
          ((case res of
              Inl e \<Rightarrow> on_rejection e (\<lambda>msg. Reject k (authorization_failure en msg))
            | Inr _ \<Rightarrow> Invoke k),
           s\<lparr>es_nonces := n\<rparr>))"

definition step_invoke :: "enforcer \<Rightarrow> ('n, 's, 'w) exec_env \<Rightarrow> exec_call \<Rightarrow> idem_key
    \<Rightarrow> ('n, 's, 'w) exec_sys \<Rightarrow> exec_pc \<times> ('n, 's, 'w) exec_sys" where
  "step_invoke en env c k s =
     (case ee_raw env (es_world s) (xc_intent c) (xc_prepared c) of
        (res, w) \<Rightarrow>
          ((case res of
              Inl e \<Rightarrow> Raised k (indeterminate_observation (''raw executor raised '' @ exc_name (fst e)
                 @ ''; side effect outcome is unknown''))
            | Inr x \<Rightarrow> Finish k (verified_observation en x)),
           s\<lparr>es_world := w, es_calls := es_calls s @ [(k, c)]\<rparr>))"

text \<open>The four ways an outcome is recorded.\<close>

definition store_settle :: "('s \<Rightarrow> unit res \<times> 's) \<Rightarrow> (unit res \<Rightarrow> exec_pc) \<Rightarrow> ('n, 's, 'w) exec_sys
    \<Rightarrow> exec_pc \<times> ('n, 's, 'w) exec_sys" where
  "store_settle op k s = (case op (es_store s) of (res, st) \<Rightarrow> (k res, s\<lparr>es_store := st\<rparr>))"

fun exec_step :: "crypto \<Rightarrow> enforcer \<Rightarrow> ('n, 's, 'w) exec_env \<Rightarrow> exec_call \<Rightarrow> string \<times> int \<Rightarrow> exec_pc
    \<Rightarrow> ('n, 's, 'w) exec_sys \<Rightarrow> exec_pc \<times> ('n, 's, 'w) exec_sys" where
  "exec_step cr en env c i Validate s = step_validate cr en env c i s"
| "exec_step cr en env c i (Consume k) s = step_consume cr en env c i k s"
| "exec_step cr en env c i (Reject k x) s =
     store_settle (\<lambda>st. do_complete (ee_ops env) st k x (snd i))
       (\<lambda>res. Returned (bnd res (\<lambda>_. Inr x))) s"
| "exec_step cr en env c i (Invoke k) s = step_invoke en env c k s"
| "exec_step cr en env c i (Raised k x) s =
     store_settle (\<lambda>st. do_mark (ee_ops env) st k x (snd i))
       (\<lambda>res. Returned (bnd res (\<lambda>_. Inr (verified_observation en x)))) s"
| "exec_step cr en env c i (Finish k x) s =
     store_settle (\<lambda>st. do_complete (ee_ops env) st k x (snd i))
       (\<lambda>res. case res of Inr _ \<Rightarrow> Returned (Inr x)
         | Inl e \<Rightarrow> Lost k (indeterminate_observation (''execution completed but durable receipt failed: '' @ exc_name (fst e)))) s"
| "exec_step cr en env c i (Lost k x) s =
     store_settle (\<lambda>st. do_mark (ee_ops env) st k x (snd i))
       (\<lambda>_. Returned (Inr (verified_observation en x))) s"
| "exec_step cr en env c i (Returned r) s = (Returned r, s)"

text \<open>\<open>_execute\<close> alone: the actions of one call, each with its thread identity and clock.\<close>

fun exec_run :: "crypto \<Rightarrow> enforcer \<Rightarrow> ('n, 's, 'w) exec_env \<Rightarrow> exec_call \<Rightarrow> (string \<times> int) list \<Rightarrow> exec_pc
    \<Rightarrow> ('n, 's, 'w) exec_sys \<Rightarrow> exec_pc \<times> ('n, 's, 'w) exec_sys" where
  "exec_run cr en env c [] pc s = (pc, s)"
| "exec_run cr en env c (i # is) pc s =
     (case exec_step cr en env c i pc s of (pc', s') \<Rightarrow> exec_run cr en env c is pc' s')"

text \<open>\<open>execute_prepared\<close> starts a call only for an operation prepared for this executor and intent.\<close>

definition execute_prepared_pc :: "crypto \<Rightarrow> enforcer \<Rightarrow> action_intent \<Rightarrow> prepared_execution \<Rightarrow> exec_pc" where
  "execute_prepared_pc cr en i p =
     (if pe_executor_id p \<noteq> en_id en \<or> pe_intent_digest p \<noteq> intent_digest cr i
      then Returned (Inr (authorization_failure en ''prepared execution is not bound to this executor and intent''))
      else Validate)"

section \<open>Preparing an operation\<close>

record prepare_args =
  pa_run_id :: string
  pa_contract_digest :: string
  pa_iteration :: int
  pa_operation_id :: string
  pa_graph_digest :: string
  pa_graph_node_id :: string

definition enforcer_init :: "enforcer \<Rightarrow> enforcer res" where
  "enforcer_init en = (if blank (en_id en) then Inl (ValueError, ''executor_id is required'') else Inr en)"

text \<open>The raw executor's own \<open>prepare_execution\<close>, when it has one, is the parameter.\<close>

definition prepare_execution :: "crypto \<Rightarrow> enforcer
    \<Rightarrow> (action_intent \<Rightarrow> prepare_args \<Rightarrow> string \<Rightarrow> prepared_execution res) option
    \<Rightarrow> action_intent \<Rightarrow> prepare_args \<Rightarrow> prepared_execution res" where
  "prepare_execution cr en raw_prepare i a =
     (case raw_prepare of
        Some prepare \<Rightarrow>
          bnd (prepare i a (en_id en)) (\<lambda>p.
          if pe_operation_id p \<noteq> pa_operation_id a \<or> pe_executor_id p \<noteq> en_id en
             \<or> pe_intent_digest p \<noteq> intent_digest cr i \<or> pe_graph_digest p \<noteq> pa_graph_digest a
             \<or> pe_graph_node_id p \<noteq> pa_graph_node_id a
          then Inl (ValueError, ''raw executor prepared another operation'') else Inr p)
      | None \<Rightarrow> prepared_execution_init \<lparr>pe_operation_id = pa_operation_id a, pe_executor_id = en_id en,
          pe_intent_digest = intent_digest cr i,
          pe_request_digest = digest cr (PDict [(''operation_id'', PStr (pa_operation_id a)),
            (''run_id'', PStr (pa_run_id a)), (''contract_digest'', PStr (pa_contract_digest a)),
            (''iteration'', PInt (pa_iteration a)), (''intent_digest'', PStr (intent_digest cr i)),
            (''idempotency_key'', PStr (in_idempotency_key i))]),
          pe_remote_job_id = pa_operation_id a, pe_graph_digest = pa_graph_digest a,
          pe_graph_node_id = pa_graph_node_id a\<rparr>)"
end
