(* ===== verification/Executor_Inv.thy ===== *)
theory Executor_Inv
  imports Executor
begin

text \<open>
  Concurrent calls of the enforcing executor: threads start, act and stop in any order on one
  nonce store and one idempotency store. Proved once for every pair of stores that keep their
  contracts, then interpreted on the in-memory and the SQLite stores.
\<close>

section \<open>Threads\<close>

record ('n, 's, 'w) exec_cfg =
  cf_sys :: "('n, 's, 'w) exec_sys"
  cf_threads :: "nat \<Rightarrow> (exec_call \<times> exec_pc) option"

definition start_pc :: "crypto \<Rightarrow> enforcer \<Rightarrow> exec_call \<Rightarrow> exec_pc" where
  "start_pc cr en c = (case xc_prepared c of None \<Rightarrow> Validate | Some p \<Rightarrow> execute_prepared_pc cr en (xc_intent c) p)"

inductive exec_trans :: "crypto \<Rightarrow> enforcer \<Rightarrow> ('n, 's, 'w) exec_env \<Rightarrow> ('n, 's, 'w) exec_cfg \<Rightarrow> ('n, 's, 'w) exec_cfg \<Rightarrow> bool"
  for cr en env where
  starts: "cf_threads cf t = None \<Longrightarrow>
    exec_trans cr en env cf (cf\<lparr>cf_threads := (cf_threads cf)(t \<mapsto> (c, start_pc cr en c))\<rparr>)"
| acts: "cf_threads cf t = Some (c, pc) \<Longrightarrow> exec_step cr en env c i pc (cf_sys cf) = (pc', s') \<Longrightarrow>
    exec_trans cr en env cf \<lparr>cf_sys = s', cf_threads = (cf_threads cf)(t \<mapsto> (c, pc'))\<rparr>"
| stops: "exec_trans cr en env cf (cf\<lparr>cf_threads := (cf_threads cf)(t := None)\<rparr>)"

definition idle :: "('n, 's, 'w) exec_sys \<Rightarrow> ('n, 's, 'w) exec_cfg" where
  "idle s = \<lparr>cf_sys = s, cf_threads = (\<lambda>_. None)\<rparr>"

inductive exec_reachable :: "crypto \<Rightarrow> enforcer \<Rightarrow> ('n, 's, 'w) exec_env \<Rightarrow> ('n, 's, 'w) exec_sys \<Rightarrow> ('n, 's, 'w) exec_cfg \<Rightarrow> bool"
  for cr en env s0 where
  init: "exec_reachable cr en env s0 (idle s0)"
| step: "exec_reachable cr en env s0 cf \<Longrightarrow> exec_trans cr en env cf cf' \<Longrightarrow> exec_reachable cr en env s0 cf'"

text \<open>The key a thread is still going to invoke the raw executor for, and the key it holds at all.\<close>

fun ready :: "exec_pc \<Rightarrow> idem_key option" where
  "ready (Consume k) = Some k"
| "ready (Invoke k) = Some k"
| "ready _ = None"

fun held :: "exec_pc \<Rightarrow> idem_key option" where
  "held Validate = None"
| "held (Returned r) = None"
| "held (Consume k) = Some k"
| "held (Reject k x) = Some k"
| "held (Invoke k) = Some k"
| "held (Raised k x) = Some k"
| "held (Finish k x) = Some k"
| "held (Lost k x) = Some k"

lemma ready_held: "ready pc = Some k \<Longrightarrow> held pc = Some k"
  by (cases pc) auto

lemma start_pc_free [simp]: "ready (start_pc cr en c) = None" "held (start_pc cr en c) = None"
    "start_pc cr en c \<noteq> Invoke k"
  by (auto simp: start_pc_def execute_prepared_pc_def split: option.splits)

section \<open>What one action does\<close>

abbreviation call_nonce :: "exec_call \<Rightarrow> string" where
  "call_nonce c \<equiv> cap_nonce (xc_capability c)"

definition call_valid :: "crypto \<Rightarrow> enforcer \<Rightarrow> exec_call \<Rightarrow> bool" where
  "call_valid cr en c \<longleftrightarrow> (\<exists>now. capability_validate cr (en_public_key en) (xc_capability c) (xc_intent c) (en_id en) now = Inr ())"

text \<open>
  \<open>b\<close> are the bound operations and \<open>u\<close> the used nonces of a shared state: an action reserves,
  consumes, invokes, or does none of these.
\<close>

inductive exec_effect :: "(('n, 's, 'w) exec_sys \<Rightarrow> op_key \<Rightarrow> string option) \<Rightarrow> (('n, 's, 'w) exec_sys \<Rightarrow> string set)
    \<Rightarrow> crypto \<Rightarrow> enforcer \<Rightarrow> exec_call \<Rightarrow> exec_pc \<Rightarrow> ('n, 's, 'w) exec_sys \<Rightarrow> exec_pc \<Rightarrow> ('n, 's, 'w) exec_sys \<Rightarrow> bool"
  for b u cr en c where
  reserves: "k = exec_key cr en c \<Longrightarrow> b s (fst k) = None \<Longrightarrow> b s' = (b s)(fst k \<mapsto> snd k) \<Longrightarrow> u s' = u s
    \<Longrightarrow> es_calls s' = es_calls s \<Longrightarrow> exec_effect b u cr en c Validate s (Consume k) s'"
| consumes: "call_nonce c \<notin> u s \<Longrightarrow> u s' = insert (call_nonce c) (u s) \<Longrightarrow> b s' = b s \<Longrightarrow> call_valid cr en c
    \<Longrightarrow> es_calls s' = es_calls s \<Longrightarrow> exec_effect b u cr en c (Consume k) s (Invoke k) s'"
| invokes: "es_calls s' = es_calls s @ [(k, c)] \<Longrightarrow> b s' = b s \<Longrightarrow> u s' = u s \<Longrightarrow> ready pc' = None
    \<Longrightarrow> held pc' = Some k \<Longrightarrow> exec_effect b u cr en c (Invoke k) s pc' s'"
| quiet: "es_calls s' = es_calls s \<Longrightarrow> b s \<subseteq>\<^sub>m b s' \<Longrightarrow> u s \<subseteq> u s' \<Longrightarrow> ready pc' = None
    \<Longrightarrow> held pc' = None \<or> held pc' = held pc \<Longrightarrow> exec_effect b u cr en c pc s pc' s'"

inductive_cases exec_effectE: "exec_effect b u cr en c pc s pc' s'"

locale exec_system = idem_store "ee_ops env" inv bound unknown stored + once_store "ee_consume env" used
  for env :: "('n, 's, 'w) exec_env" and inv :: "'s \<Rightarrow> bool" and bound :: "'s \<Rightarrow> op_key \<Rightarrow> string option"
    and unknown :: "'s \<Rightarrow> idem_key \<Rightarrow> bool" and stored :: "observation \<Rightarrow> observation" and used :: "'n \<Rightarrow> string set"
begin

definition sbound :: "('n, 's, 'w) exec_sys \<Rightarrow> op_key \<Rightarrow> string option" where
  "sbound s = bound (es_store s)"

definition sused :: "('n, 's, 'w) exec_sys \<Rightarrow> string set" where
  "sused s = used (es_nonces s)"

abbreviation does :: "crypto \<Rightarrow> enforcer \<Rightarrow> exec_call \<Rightarrow> exec_pc \<Rightarrow> ('n, 's, 'w) exec_sys \<Rightarrow> exec_pc \<Rightarrow> ('n, 's, 'w) exec_sys \<Rightarrow> bool" where
  "does \<equiv> exec_effect sbound sused"

lemma step_validate_effect:
  assumes "inv (es_store s)" "step_validate cr en env c i s = (pc', s')"
  shows "inv (es_store s') \<and> does cr en c Validate s pc' s'"
proof (cases "capability_validate cr (en_public_key en) (xc_capability c) (xc_intent c) (en_id en) (snd i)")
  case (Inl e)
  then show ?thesis using assms by (auto simp: step_validate_def on_rejection_def intro!: quiet)
next
  case (Inr u)
  let ?k = "exec_key cr en c"
  obtain reply st where r: "do_reserve (ee_ops env) (es_store s) ?k i = (reply, st)" by fastforce
  have i: "inv st" using reserve_inv [OF assms(1), of ?k i] r by simp
  have b: "bound st p = (if p = fst ?k \<and> bound (es_store s) p = None then Some (snd ?k) else bound (es_store s) p)" for p
    using reserve_bound [OF assms(1), of ?k i p] r by simp
  have s': "s' = s\<lparr>es_store := st\<rparr>" using assms(2) Inr r by (auto simp: step_validate_def)
  show ?thesis
  proof (cases "reply = Inr Reserved")
    case True
    then have "bound (es_store s) (fst ?k) = None" using reserved_iff [OF assms(1), of ?k i] r by simp
    moreover have "bound st = (bound (es_store s))(fst ?k \<mapsto> snd ?k)" using b calculation by (auto simp: fun_eq_iff)
    moreover have "pc' = Consume ?k" using assms(2) Inr r True by (simp add: step_validate_def)
    ultimately show ?thesis using i s' by (auto simp: sbound_def sused_def intro!: reserves)
  next
    case False
    then obtain res where "pc' = Returned res"
      using assms(2) Inr r by (auto simp: step_validate_def split: sum.splits idem_reply.splits)
    moreover have "bound (es_store s) \<subseteq>\<^sub>m bound st" using b by (auto simp: map_le_def)
    ultimately show ?thesis using i s' by (auto simp: sbound_def sused_def intro!: quiet)
  qed
qed

lemma step_consume_effect:
  assumes "step_consume cr en env c i k s = (pc', s')"
  shows "es_store s' = es_store s \<and> does cr en c (Consume k) s pc' s'"
proof -
  let ?r = "cap_request_of en c (snd i)"
  obtain res n where r: "validate_and_consume cr (en_public_key en) (ee_consume env) (es_nonces s) ?r = (res, n)" by fastforce
  have s': "s' = s\<lparr>es_nonces := n\<rparr>" using assms r by (auto simp: step_consume_def)
  show ?thesis
  proof (cases res)
    case (Inl e)
    have "used (es_nonces s) \<subseteq> used n"
    proof -
      consider "n = es_nonces s" | j where "n = snd (ee_consume env (es_nonces s) (request_nonce ?r) j)"
        using vac_rejected [of cr "en_public_key en" "ee_consume env" "es_nonces s" ?r] r by auto
      then show ?thesis by cases (simp_all add: used_mono)
    qed
    then show ?thesis
      using assms r Inl s' by (auto simp: step_consume_def on_rejection_def sbound_def sused_def intro!: quiet)
  next
    case (Inr u)
    then obtain j where j: "fst (ee_consume env (es_nonces s) (call_nonce c) j)" "n = snd (ee_consume env (es_nonces s) (call_nonce c) j)"
      using vac_accepted [of cr "en_public_key en" "ee_consume env" "es_nonces s" ?r u] r by (auto simp: cap_request_of_def)
    have "call_valid cr en c"
      using r Inr by (auto simp: validate_and_consume_def call_valid_def cap_request_of_def split: sum.splits prod.splits if_splits)
    moreover have "pc' = Invoke k" using assms r Inr by (simp add: step_consume_def)
    moreover have "call_nonce c \<notin> used (es_nonces s)" "used n = insert (call_nonce c) (used (es_nonces s))"
      using j by (simp_all add: accepts records)
    ultimately show ?thesis
      using s' by (auto simp: sbound_def sused_def intro!: consumes)
  qed
qed

lemma step_invoke_effect:
  assumes "step_invoke en env c k s = (pc', s')"
  shows "es_store s' = es_store s \<and> does cr en c (Invoke k) s pc' s'"
  using assms by (auto simp: step_invoke_def sbound_def sused_def intro!: invokes split: prod.splits sum.splits)

lemma settle_effect:
  assumes "store_settle op cont s = (pc', s')" "inv (snd (op (es_store s))) \<and> bound (snd (op (es_store s))) = bound (es_store s)"
    and "\<And>r. ready (cont r) = None \<and> (held (cont r) = None \<or> held (cont r) = held pc)"
  shows "inv (es_store s') \<and> does cr en c pc s pc' s'"
proof -
  have "s' = s\<lparr>es_store := snd (op (es_store s))\<rparr>" "pc' = cont (fst (op (es_store s)))"
    using assms(1) by (auto simp: store_settle_def split: prod.splits)
  then show ?thesis using assms(2,3) by (auto simp: sbound_def sused_def intro!: quiet)
qed

lemma exec_step_effect:
  assumes "inv (es_store s)" and "\<And>k. held pc = Some k \<Longrightarrow> sbound s (fst k) = Some (snd k)"
    and "exec_step cr en env c i pc s = (pc', s')"
  shows "inv (es_store s') \<and> does cr en c pc s pc' s'"
proof (cases pc)
  case Validate
  then show ?thesis using assms(1,3) step_validate_effect by simp
next
  case (Consume k)
  then show ?thesis using assms(1,3) step_consume_effect by fastforce
next
  case (Invoke k)
  then show ?thesis using assms(1,3) step_invoke_effect by fastforce
next
  case (Reject k x)
  have "sbound s (fst k) = Some (snd k)" using assms(2) Reject by simp
  then show ?thesis unfolding Reject
    by (intro settle_effect [OF assms(3) [unfolded Reject exec_step.simps]])
      (simp_all add: sbound_def complete_keeps assms(1) split: sum.splits)
next
  case (Raised k x)
  have "sbound s (fst k) = Some (snd k)" using assms(2) Raised by simp
  then show ?thesis unfolding Raised
    by (intro settle_effect [OF assms(3) [unfolded Raised exec_step.simps]])
      (simp_all add: sbound_def mark_keeps assms(1) split: sum.splits)
next
  case (Finish k x)
  have "sbound s (fst k) = Some (snd k)" using assms(2) Finish by simp
  then show ?thesis unfolding Finish
    by (intro settle_effect [OF assms(3) [unfolded Finish exec_step.simps]])
      (simp_all add: sbound_def complete_keeps assms(1) split: sum.splits)
next
  case (Lost k x)
  have "sbound s (fst k) = Some (snd k)" using assms(2) Lost by simp
  then show ?thesis unfolding Lost
    by (intro settle_effect [OF assms(3) [unfolded Lost exec_step.simps]])
      (simp_all add: sbound_def mark_keeps assms(1) split: sum.splits)
next
  case (Returned r)
  then show ?thesis using assms(1,3) by (auto intro!: quiet)
qed

section \<open>The invariant\<close>

definition thread_ok :: "crypto \<Rightarrow> enforcer \<Rightarrow> ('n, 's, 'w) exec_sys \<Rightarrow> exec_call \<Rightarrow> exec_pc \<Rightarrow> bool" where
  "thread_ok cr en s c pc \<longleftrightarrow>
     (\<forall>k. held pc = Some k \<longrightarrow> k = exec_key cr en c \<and> sbound s (fst k) = Some (snd k))
     \<and> (\<forall>k. ready pc = Some k \<longrightarrow> fst k \<notin> (fst \<circ> fst) ` set (es_calls s))
     \<and> (\<forall>k. pc = Invoke k \<longrightarrow> call_valid cr en c \<and> call_nonce c \<in> sused s
          \<and> call_nonce c \<notin> (call_nonce \<circ> snd) ` set (es_calls s))"

definition apart :: "exec_call \<times> exec_pc \<Rightarrow> exec_call \<times> exec_pc \<Rightarrow> bool" where
  "apart p q \<longleftrightarrow>
     (\<forall>k k'. ready (snd p) = Some k \<and> ready (snd q) = Some k' \<longrightarrow> fst k \<noteq> fst k')
     \<and> (\<forall>k k'. snd p = Invoke k \<and> snd q = Invoke k' \<longrightarrow> call_nonce (fst p) \<noteq> call_nonce (fst q))"

definition calls_ok :: "crypto \<Rightarrow> enforcer \<Rightarrow> ('n, 's, 'w) exec_sys \<Rightarrow> bool" where
  "calls_ok cr en s \<longleftrightarrow> distinct (map (fst \<circ> fst) (es_calls s)) \<and> distinct (map (call_nonce \<circ> snd) (es_calls s))
     \<and> (\<forall>(k, c) \<in> set (es_calls s). k = exec_key cr en c \<and> call_valid cr en c
          \<and> sbound s (fst k) = Some (snd k) \<and> call_nonce c \<in> sused s)"

definition exec_ok :: "crypto \<Rightarrow> enforcer \<Rightarrow> ('n, 's, 'w) exec_cfg \<Rightarrow> bool" where
  "exec_ok cr en cf \<longleftrightarrow> inv (es_store (cf_sys cf)) \<and> calls_ok cr en (cf_sys cf)
     \<and> (\<forall>t c pc. cf_threads cf t = Some (c, pc) \<longrightarrow> thread_ok cr en (cf_sys cf) c pc)
     \<and> (\<forall>t t' p q. t \<noteq> t' \<and> cf_threads cf t = Some p \<and> cf_threads cf t' = Some q \<longrightarrow> apart p q)"

lemma apart_sym: "apart p q \<Longrightarrow> apart q p"
  unfolding apart_def by metis

declare split_paired_All [simp del] split_paired_Ex [simp del]

lemma map_le_Some: "m \<subseteq>\<^sub>m m' \<Longrightarrow> m x = Some y \<Longrightarrow> m' x = Some y"
  by (metis domI map_le_def)

lemma thread_okI:
  assumes "\<And>k. held pc = Some k \<Longrightarrow> k = exec_key cr en c \<and> sbound s (fst k) = Some (snd k)"
    and "\<And>k. ready pc = Some k \<Longrightarrow> fst k \<notin> (fst \<circ> fst) ` set (es_calls s)"
    and "\<And>k. pc = Invoke k \<Longrightarrow> call_valid cr en c \<and> call_nonce c \<in> sused s
      \<and> call_nonce c \<notin> (call_nonce \<circ> snd) ` set (es_calls s)"
  shows "thread_ok cr en s c pc"
  unfolding thread_ok_def using assms by (iprover intro: conjI allI impI)

lemma thread_okD:
  assumes "thread_ok cr en s c pc"
  shows "held pc = Some k \<Longrightarrow> k = exec_key cr en c \<and> sbound s (fst k) = Some (snd k)"
    and "ready pc = Some k \<Longrightarrow> fst k \<notin> (fst \<circ> fst) ` set (es_calls s)"
    and "pc = Invoke k \<Longrightarrow> call_valid cr en c \<and> call_nonce c \<in> sused s
      \<and> call_nonce c \<notin> (call_nonce \<circ> snd) ` set (es_calls s)"
  using assms unfolding thread_ok_def by iprover+

lemma thread_ok_reserved:
  assumes "thread_ok cr en s c pc" "es_calls s' = es_calls s" "sused s \<subseteq> sused s'" "sbound s \<subseteq>\<^sub>m sbound s'"
  shows "thread_ok cr en s' c pc"
proof (rule thread_okI)
  show "k = exec_key cr en c \<and> sbound s' (fst k) = Some (snd k)" if "held pc = Some k" for k
    using thread_okD(1) [OF assms(1) that] map_le_Some [OF assms(4)] by blast
  show "fst k \<notin> (fst \<circ> fst) ` set (es_calls s')" if "ready pc = Some k" for k
    unfolding assms(2) by (rule thread_okD(2) [OF assms(1) that])
  show "call_valid cr en c \<and> call_nonce c \<in> sused s' \<and> call_nonce c \<notin> (call_nonce \<circ> snd) ` set (es_calls s')"
    if "pc = Invoke k" for k
    unfolding assms(2) using thread_okD(3) [OF assms(1) that] assms(3) by blast
qed

lemma calls_ok_mono:
  assumes "calls_ok cr en s" "es_calls s' = es_calls s" "sused s \<subseteq> sused s'" "sbound s \<subseteq>\<^sub>m sbound s'"
  shows "calls_ok cr en s'"
proof -
  have "sbound s' p = Some d" if "sbound s p = Some d" for p d using map_le_Some [OF assms(4) that] .
  then show ?thesis using assms(1,3) unfolding calls_ok_def assms(2) by blast
qed

text \<open>What an action keeps: of the calls, of its own thread, of another thread.\<close>

lemma effect_calls:
  assumes "does cr en c pc s pc' s'" "calls_ok cr en s" "thread_ok cr en s c pc"
  shows "calls_ok cr en s'"
  using assms(1)
proof cases
  case (reserves k)
  then show ?thesis using assms(2) by (intro calls_ok_mono [OF assms(2)]) (auto simp: map_le_def)
next
  case (consumes k)
  then show ?thesis by (intro calls_ok_mono [OF assms(2)]) auto
next
  case (invokes k)
  have "sbound s' = sbound s" "sused s' = sused s" using invokes by simp_all
  moreover have "k = exec_key cr en c" "sbound s (fst k) = Some (snd k)" "fst k \<notin> (fst \<circ> fst) ` set (es_calls s)"
    "call_valid cr en c" "call_nonce c \<in> sused s" "call_nonce c \<notin> (call_nonce \<circ> snd) ` set (es_calls s)"
    using assms(3) invokes(1) by (auto simp: thread_ok_def)
  ultimately show ?thesis using assms(2) invokes(2) unfolding calls_ok_def by auto
next
  case quiet
  then show ?thesis by (intro calls_ok_mono [OF assms(2)]) auto
qed

lemma effect_own:
  assumes "does cr en c pc s pc' s'" "calls_ok cr en s" "thread_ok cr en s c pc"
  shows "thread_ok cr en s' c pc'"
  using assms(1)
proof cases
  case (reserves k)
  have "fst k \<notin> (fst \<circ> fst) ` set (es_calls s)" using assms(2) reserves(4) by (force simp: calls_ok_def)
  then show ?thesis using reserves by (auto simp: thread_ok_def)
next
  case (consumes k)
  have "call_nonce c \<notin> (call_nonce \<circ> snd) ` set (es_calls s)" using assms(2) consumes(3) by (force simp: calls_ok_def)
  then show ?thesis using consumes assms(3) by (auto simp: thread_ok_def)
next
  case (invokes k)
  then show ?thesis using assms(3) by (auto simp: thread_ok_def)
next
  case quiet
  have "pc' \<noteq> Invoke k" for k using quiet(4) by (cases pc') auto
  moreover have "k = exec_key cr en c \<and> sbound s' (fst k) = Some (snd k)" if "held pc' = Some k" for k
    using quiet(5) that thread_okD(1) [OF assms(3)] map_le_Some [OF quiet(2)] by fastforce
  ultimately show ?thesis using quiet(4) by (intro thread_okI) (blast | simp)+
qed

lemma effect_other:
  assumes "does cr en c pc s pc' s'" "thread_ok cr en s c pc" "thread_ok cr en s d q" "apart (c, pc) (d, q)"
  shows "thread_ok cr en s' d q \<and> apart (c, pc') (d, q)"
  using assms(1)
proof cases
  case (reserves k)
  have "thread_ok cr en s' d q" using reserves by (intro thread_ok_reserved [OF assms(3)]) (auto simp: map_le_def)
  moreover have "fst k \<noteq> fst k'" if "ready q = Some k'" for k'
    using conjunct2 [OF thread_okD(1) [OF assms(3) ready_held [OF that]]] reserves(4) by (metis option.distinct(1))
  ultimately show ?thesis using reserves by (auto simp: apart_def)
next
  case (consumes k)
  have "thread_ok cr en s' d q" using consumes by (intro thread_ok_reserved [OF assms(3)]) auto
  moreover have "call_nonce c \<noteq> call_nonce d" if "q = Invoke k'" for k'
    using conjunct1 [OF conjunct2 [OF thread_okD(3) [OF assms(3) that]]] consumes(3) by metis
  ultimately show ?thesis using consumes assms(4) by (auto simp: apart_def)
next
  case (invokes k)
  have a: "fst k' \<noteq> fst k" if "ready q = Some k'" for k'
    using assms(4) invokes(1) that unfolding apart_def by (metis ready.simps(2) snd_conv)
  have b: "call_nonce d \<noteq> call_nonce c" if "q = Invoke k'" for k'
    using assms(4) invokes(1) that unfolding apart_def by (metis fst_conv snd_conv)
  have s: "sbound s' = sbound s" "sused s' = sused s" "set (es_calls s') = insert (k, c) (set (es_calls s))"
    using invokes by simp_all
  have "thread_ok cr en s' d q"
  proof (rule thread_okI)
    show "k' = exec_key cr en d \<and> sbound s' (fst k') = Some (snd k')" if "held q = Some k'" for k'
      unfolding s by (rule thread_okD(1) [OF assms(3) that])
    show "fst k' \<notin> (fst \<circ> fst) ` set (es_calls s')" if "ready q = Some k'" for k'
      using thread_okD(2) [OF assms(3) that] a [OF that] unfolding s by simp
    show "call_valid cr en d \<and> call_nonce d \<in> sused s' \<and> call_nonce d \<notin> (call_nonce \<circ> snd) ` set (es_calls s')"
      if "q = Invoke k'" for k'
      using thread_okD(3) [OF assms(3) that] b [OF that] unfolding s by simp
  qed
  moreover have "pc' \<noteq> Invoke k'" for k' using invokes(5) by (cases pc') auto
  ultimately show ?thesis using invokes by (auto simp: apart_def)
next
  case quiet
  have "thread_ok cr en s' d q" using quiet by (intro thread_ok_reserved [OF assms(3)]) auto
  moreover have "pc' \<noteq> Invoke k" for k using quiet(4) by (cases pc') auto
  ultimately show ?thesis using quiet by (auto simp: apart_def)
qed

lemma held_free: "held pc = None \<Longrightarrow> ready pc = None \<and> pc \<noteq> Invoke k"
  by (cases pc) auto

lemma thread_ok_free: "held pc = None \<Longrightarrow> thread_ok cr en s c pc"
  using held_free by (simp add: thread_ok_def)

lemma apart_free: "held (snd p) = None \<Longrightarrow> apart p q \<and> apart q p"
  using held_free by (simp add: apart_def)

lemma exec_ok_threads:
  assumes "exec_ok cr en cf" "cf_sys cf' = cf_sys cf"
    and "\<And>t p. cf_threads cf' t = Some p \<Longrightarrow> cf_threads cf t = Some p \<or> held (snd p) = None"
  shows "exec_ok cr en cf'"
proof -
  have "thread_ok cr en (cf_sys cf) c pc" if "cf_threads cf' t = Some (c, pc)" for t c pc
    using assms(3) [OF that]
  proof
    assume "cf_threads cf t = Some (c, pc)"
    then show ?thesis using assms(1) unfolding exec_ok_def by blast
  qed (simp add: thread_ok_free)
  moreover have "apart p q" if t: "t \<noteq> t'" "cf_threads cf' t = Some p" "cf_threads cf' t' = Some q" for t t' p q
  proof -
    consider "held (snd p) = None" | "held (snd q) = None" | "cf_threads cf t = Some p" "cf_threads cf t' = Some q"
      using assms(3) [OF t(2)] assms(3) [OF t(3)] by metis
    then show ?thesis
    proof cases
      case 3
      then show ?thesis using assms(1) t(1) unfolding exec_ok_def by blast
    qed (use apart_free in blast)+
  qed
  ultimately show ?thesis using assms(1) unfolding exec_ok_def assms(2) by blast
qed

lemma exec_ok_trans:
  assumes "exec_trans cr en env cf cf'" "exec_ok cr en cf"
  shows "exec_ok cr en cf'"
  using assms(1)
proof cases
  case (starts t c)
  then show ?thesis by (intro exec_ok_threads [OF assms(2)]) (auto split: if_splits)
next
  case (stops t)
  then show ?thesis by (intro exec_ok_threads [OF assms(2)]) (auto split: if_splits)
next
  case (acts t c pc i pc' s')
  have inv0: "inv (es_store (cf_sys cf))" and calls: "calls_ok cr en (cf_sys cf)" and own: "thread_ok cr en (cf_sys cf) c pc"
    using assms(2) acts(2) by (auto simp: exec_ok_def)
  have e: "inv (es_store s') \<and> does cr en c pc (cf_sys cf) pc' s'"
    using own by (intro exec_step_effect [OF inv0 _ acts(3)]) (simp add: thread_ok_def)
  have other: "thread_ok cr en s' (fst p) (snd p) \<and> apart (c, pc') p" if "t' \<noteq> t" "cf_threads cf t' = Some p" for t' p
  proof -
    have "thread_ok cr en (cf_sys cf) (fst p) (snd p)" "apart (c, pc) p"
      using assms(2) that acts(2) unfolding exec_ok_def by (metis prod.collapse)+
    then show ?thesis using effect_other [of cr en c pc "cf_sys cf" pc' s' "fst p" "snd p"] e own by simp
  qed
  have old: "apart p q" if "t1 \<noteq> t2" "cf_threads cf t1 = Some p" "cf_threads cf t2 = Some q" for t1 t2 p q
    using assms(2) that unfolding exec_ok_def by blast
  have "apart p q" if "t1 \<noteq> t2" "cf_threads cf' t1 = Some p" "cf_threads cf' t2 = Some q" for t1 t2 p q
    using that acts(1) other old apart_sym by (cases "t1 = t"; cases "t2 = t") (auto; blast)+
  moreover have "thread_ok cr en s' c' q" if "cf_threads cf' t' = Some (c', q)" for t' c' q
    using that acts(1) other [of t' "(c', q)"] effect_own e calls own by (cases "t' = t") auto
  moreover have "calls_ok cr en s'" using effect_calls [of cr en c pc "cf_sys cf" pc' s'] e calls own by blast
  moreover have "cf_sys cf' = s'" using acts(1) by simp
  ultimately show ?thesis using e unfolding exec_ok_def by blast
qed

lemma exec_ok_reachable:
  assumes "exec_reachable cr en env s0 cf" "inv (es_store s0)" "es_calls s0 = []"
  shows "exec_ok cr en cf"
  using assms(1)
proof induction
  case init
  then show ?case using assms(2,3) by (auto simp: idle_def exec_ok_def calls_ok_def)
next
  case (step cf cf')
  then show ?case using exec_ok_trans by blast
qed

section \<open>A call on its own\<close>

lemma run_append:
  "exec_run cr en e c (is @ js) pc s = (case exec_run cr en e c is pc s of (pc', s') \<Rightarrow> exec_run cr en e c js pc' s')"
  by (induction "is" arbitrary: pc s) (auto split: prod.splits)

lemma execute_fresh:
  assumes "inv (es_store s)" "bound (es_store s) (fst (exec_key cr en c)) = None" "call_nonce c \<notin> used (es_nonces s)"
    and "\<And>i. i \<in> {i1, i2} \<Longrightarrow>
      capability_validate cr (en_public_key en) (xc_capability c) (xc_intent c) (en_id en) (snd i) = Inr ()"
    and "ee_raw env (es_world s) (xc_intent c) (xc_prepared c) = (Inr x, w)"
  shows "\<exists>s'. exec_run cr en env c [i1, i2, i3, i4] Validate s = (Returned (Inr (verified_observation en x)), s')
    \<and> inv (es_store s') \<and> es_calls s' = es_calls s @ [(exec_key cr en c, c)]
    \<and> (\<forall>i. fst (do_reserve (ee_ops env) (es_store s') (exec_key cr en c) i)
          = Inr (Completed (stored (verified_observation en x))))"
proof -
  let ?k = "exec_key cr en c" and ?x = "verified_observation en x"
  have res: "fst (do_reserve (ee_ops env) (es_store s) ?k i1) = Inr Reserved"
    using reserved_iff [OF assms(1)] assms(2) by simp
  then obtain st where st: "do_reserve (ee_ops env) (es_store s) ?k i1 = (Inr Reserved, st)" by (metis prod.collapse)
  obtain n where n: "ee_consume env (es_nonces s) (call_nonce c) (cap_expires_at (xc_capability c), snd i2) = (True, n)"
    using accepts [of "es_nonces s" "call_nonce c"] assms(3) by (metis prod.collapse)
  have b: "inv st" "bound st (fst ?k) = Some (snd ?k)" "\<not> unknown st ?k"
    using reserve_inv [OF assms(1), of ?k i1] reserved_binds [OF assms(1) res] reserve_known [OF assms(1) res] st by simp_all
  have fin: "fst (do_complete (ee_ops env) st ?k ?x (snd i4)) = Inr ()"
    using completes [OF assms(1) res] st by simp
  then obtain st' where st': "do_complete (ee_ops env) st ?k ?x (snd i4) = (Inr (), st')" by (metis prod.collapse)
  have "inv st'" using complete_keeps [OF b(1,2), of ?x "snd i4"] st' by simp
  moreover have "fst (do_reserve (ee_ops env) st' ?k i) = Inr (Completed (stored ?x))" for i
    using recorded [OF b fin, of i] st' by simp
  moreover have "validate_and_consume cr (en_public_key en) (ee_consume env) (es_nonces s) (cap_request_of en c (snd i2)) = (Inr (), n)"
    using assms(4) [of i2] n by (simp add: validate_and_consume_def cap_request_of_def)
  ultimately show ?thesis
    using assms(4) [of i1] assms(5) st st'
    by (simp add: step_validate_def step_consume_def step_invoke_def store_settle_def)
qed

lemma execute_replay:
  assumes "fst (do_reserve (ee_ops env) (es_store s) (exec_key cr en c) i) = Inr (Completed x)"
    and "capability_validate cr (en_public_key en) (xc_capability c) (xc_intent c) (en_id en) (snd i) = Inr ()"
  shows "\<exists>s'. exec_run cr en env c [i] Validate s = (Returned (Inr (replayed en x)), s')
    \<and> es_calls s' = es_calls s \<and> es_world s' = es_world s \<and> es_nonces s' = es_nonces s"
  using assms by (cases "do_reserve (ee_ops env) (es_store s) (exec_key cr en c) i") (simp add: step_validate_def)

end

declare split_paired_All [simp] split_paired_Ex [simp]

section \<open>The stores of the program\<close>

definition mem_env :: "('w \<Rightarrow> action_intent \<Rightarrow> prepared_execution option \<Rightarrow> observation res \<times> 'w) \<Rightarrow> (string set, mem_idem, 'w) exec_env" where
  "mem_env raw = \<lparr>ee_consume = mem_nonce_consume, ee_ops = mem_idem_ops, ee_raw = raw\<rparr>"

definition sql_env :: "int \<Rightarrow> ('w \<Rightarrow> action_intent \<Rightarrow> prepared_execution option \<Rightarrow> observation res \<times> 'w)
    \<Rightarrow> (nonce_row list, idem_row list, 'w) exec_env" where
  "sql_env lease raw = \<lparr>ee_consume = sql_nonce_consume, ee_ops = sql_idem_ops lease, ee_raw = raw\<rparr>"

lemma env_simps [simp]:
  "ee_consume (mem_env raw) = mem_nonce_consume" "ee_ops (mem_env raw) = mem_idem_ops" "ee_raw (mem_env raw) = raw"
  "ee_consume (sql_env lease raw) = sql_nonce_consume" "ee_ops (sql_env lease raw) = sql_idem_ops lease"
  "ee_raw (sql_env lease raw) = raw"
  by (simp_all add: mem_env_def sql_env_def)

interpretation mem_exec: exec_system "mem_env raw" mem_inv "\<lambda>s. dget (mi_intents s)" "\<lambda>s k. k \<in> mi_unknown s" "\<lambda>x. x" "\<lambda>s. s" for raw
  unfolding exec_system_def env_simps by (intro conjI mem_idem.idem_store_axioms mem_nonces.once_store_axioms)

interpretation sql_exec: exec_system "sql_env lease raw" sql_inv sql_bound sql_unknown norm_observation "\<lambda>rows. set (map nr_nonce rows)"
  for lease raw
  unfolding exec_system_def env_simps by (intro conjI sql_idem.idem_store_axioms sql_nonces.once_store_axioms)

section \<open>Properties\<close>

text \<open>C17: with the SQLite stores, whatever threads and processes call the executor, retry, interleave and
  crash, the raw executor is invoked at most once per operation (executor, contract and
  idempotency key) and at most once per capability nonce, over any earlier contents of the stores.\<close>

theorem executor_single_effect:
  assumes "exec_reachable cr en (sql_env lease raw) s0 cf" "sql_inv (es_store s0)" "es_calls s0 = []"
  shows "distinct (map (fst \<circ> fst) (es_calls (cf_sys cf))) \<and> distinct (map (call_nonce \<circ> snd) (es_calls (cf_sys cf)))"
  using sql_exec.exec_ok_reachable [OF assms] unfolding sql_exec.exec_ok_def sql_exec.calls_ok_def by blast

lemma executor_single_effect_memory:
  assumes "exec_reachable cr en (mem_env raw) s0 cf" "mem_inv (es_store s0)" "es_calls s0 = []"
  shows "distinct (map (fst \<circ> fst) (es_calls (cf_sys cf))) \<and> distinct (map (call_nonce \<circ> snd) (es_calls (cf_sys cf)))"
  using mem_exec.exec_ok_reachable [OF assms] unfolding mem_exec.exec_ok_def mem_exec.calls_ok_def by blast

text \<open>Every invocation of the raw executor is of a call whose capability was valid for this executor
  and exactly this intent when its nonce was consumed.\<close>

theorem executor_only_authorized:
  assumes "exec_reachable cr en (sql_env lease raw) s0 cf" "sql_inv (es_store s0)" "es_calls s0 = []"
    and "(k, c) \<in> set (es_calls (cf_sys cf))"
  shows "\<exists>now. cap_executor_id (xc_capability c) = en_id en \<and> now < instant (cap_expires_at (xc_capability c))
    \<and> instant (cap_issued_at (xc_capability c)) \<le> now
    \<and> cap_intent_digest (xc_capability c) = intent_digest cr (xc_intent c)
    \<and> ed_verify cr (en_public_key en) (capability_payload (xc_capability c)) (cap_signature (xc_capability c))"
proof -
  have "call_valid cr en c"
    using sql_exec.exec_ok_reachable [OF assms(1-3)] assms(4)
    unfolding sql_exec.exec_ok_def sql_exec.calls_ok_def by blast
  then show ?thesis by (auto simp: call_valid_def capability_validate_def not_le not_less split: if_splits)
qed

fun exec_rank :: "exec_pc \<Rightarrow> nat" where
  "exec_rank Validate = 5" | "exec_rank (Consume k) = 4" | "exec_rank (Invoke k) = 3" | "exec_rank (Finish k x) = 2"
| "exec_rank (Reject k x) = 1" | "exec_rank (Raised k x) = 1" | "exec_rank (Lost k x) = 1" | "exec_rank (Returned r) = 0"

lemma exec_step_rank: "exec_rank (fst (exec_step cr en env c i pc s)) \<le> exec_rank pc - 1"
  by (cases pc) (auto simp: step_validate_def step_consume_def step_invoke_def store_settle_def on_rejection_def
      split: sum.splits prod.splits idem_reply.splits)

lemma exec_run_rank: "exec_rank (fst (exec_run cr en env c is pc s)) \<le> exec_rank pc - length is"
proof (induction "is" arbitrary: pc s)
  case (Cons i "is")
  obtain pc' s' where e: "exec_step cr en env c i pc s = (pc', s')" by fastforce
  then show ?case using Cons.IH [of pc' s'] exec_step_rank [of cr en env c i pc s] by simp
qed simp

text \<open>A call of the executor returns after at most five actions, with an observation or an
  exception, whatever the stores and the raw executor answer.\<close>

theorem executor_terminates:
  "\<exists>r s'. exec_run cr en env c [i1, i2, i3, i4, i5] Validate s = (Returned r, s')"
proof -
  obtain pc' s' where e: "exec_run cr en env c [i1, i2, i3, i4, i5] Validate s = (pc', s')" by fastforce
  then have "exec_rank pc' = 0" using exec_run_rank [of cr en env c "[i1, i2, i3, i4, i5]" Validate s] by simp
  then show ?thesis using e by (cases pc') auto
qed

text \<open>C18: a fresh authorized operation runs, and a retry of it with any valid capability returns the
  stored observation marked as a replay, without a second invocation and without using its nonce.\<close>

theorem executor_replays:
  assumes "sql_inv (es_store s)" "sql_bound (es_store s) (fst (exec_key cr en c)) = None"
    and "call_nonce c \<notin> set (map nr_nonce (es_nonces s))"
    and "\<And>i. i \<in> {i1, i2} \<Longrightarrow>
      capability_validate cr (en_public_key en) (xc_capability c) (xc_intent c) (en_id en) (snd i) = Inr ()"
    and "raw (es_world s) (xc_intent c) (xc_prepared c) = (Inr x, w)"
    and "exec_key cr en d = exec_key cr en c"
    and "capability_validate cr (en_public_key en) (xc_capability d) (xc_intent d) (en_id en) (snd i5) = Inr ()"
  shows "\<exists>s1 s2. exec_run cr en (sql_env lease raw) c [i1, i2, i3, i4] Validate s = (Returned (Inr (verified_observation en x)), s1)
    \<and> exec_run cr en (sql_env lease raw) d [i5] Validate s1
        = (Returned (Inr (replayed en (norm_observation (verified_observation en x)))), s2)
    \<and> es_calls s2 = es_calls s @ [(exec_key cr en c, c)] \<and> es_nonces s2 = es_nonces s1"
proof -
  obtain s1 where s1: "exec_run cr en (sql_env lease raw) c [i1, i2, i3, i4] Validate s = (Returned (Inr (verified_observation en x)), s1)"
    "es_calls s1 = es_calls s @ [(exec_key cr en c, c)]"
    "\<forall>i. fst (do_reserve (sql_idem_ops lease) (es_store s1) (exec_key cr en c) i)
       = Inr (Completed (norm_observation (verified_observation en x)))"
    using sql_exec.execute_fresh [where lease = lease and raw = raw and s = s and cr = cr and en = en and c = c
      and ?i1.0 = i1 and ?i2.0 = i2 and ?i3.0 = i3 and ?i4.0 = i4 and x = x and w = w] assms(1-5) by auto
  have "fst (do_reserve (ee_ops (sql_env lease raw)) (es_store s1) (exec_key cr en d) i5)
      = Inr (Completed (norm_observation (verified_observation en x)))"
    using s1(3) assms(6) by simp
  from sql_exec.execute_replay [OF this assms(7)] s1 show ?thesis by metis
qed

lemma exec_step_settled:
  assumes "settled (es_store s) p r" "exec_step cr en (sql_env lease raw) c i pc s = (pc', s')"
  shows "settled (es_store s') p r"
proof (cases pc)
  case Validate
  then show ?thesis
    using assms settled_reserve [OF assms(1), of lease "exec_key cr en c" i]
    by (auto simp: step_validate_def split: sum.splits prod.splits)
next
  case (Consume k)
  then show ?thesis using assms by (auto simp: step_consume_def split: prod.splits)
next
  case (Invoke k)
  then show ?thesis using assms by (auto simp: step_invoke_def split: prod.splits)
qed (use assms settled_settle [OF assms(1)] in
      \<open>auto simp: store_settle_def sql_complete_def sql_mark_def split: prod.splits\<close>; metis snd_conv)+

text \<open>In the SQLite store a completed or indeterminate operation is never changed again: no retry,
  late completion or expired lease of any thread turns an unknown outcome into a known one or back.\<close>

theorem executor_outcome_final:
  assumes "exec_reachable cr en (sql_env lease raw) s0 cf" "settled (es_store s0) p r"
  shows "settled (es_store (cf_sys cf)) p r"
  using assms(1)
proof induction
  case init
  then show ?case using assms(2) by (simp add: idle_def)
next
  case (step cf cf')
  from step.hyps(2) step.IH show ?case by cases (auto dest: exec_step_settled)
qed

section \<open>A concrete executor\<close>

definition unsigned_cap :: capability where
  "unsigned_cap = \<lparr>cap_capability_id = ''id'', cap_nonce = ''n'', cap_intent_digest = intent_digest toy_crypto sample_intent,
     cap_contract_digest = ''contract'', cap_executor_id = ''exec'', cap_issued_at = utc 0, cap_expires_at = utc 10,
     cap_signature = [], cap_graph_digest = [], cap_graph_node_id = []\<rparr>"

definition sample_exec :: exec_call where
  "sample_exec = \<lparr>xc_intent = sample_intent,
     xc_capability = unsigned_cap\<lparr>cap_signature := ''pk'' @ capability_payload unsigned_cap\<rparr>, xc_prepared = None\<rparr>"

definition sample_enforcer :: enforcer where
  "sample_enforcer = \<lparr>en_id = ''exec'', en_public_key = ''pk''\<rparr>"

definition sample_sys :: "(nonce_row list, idem_row list, nat) exec_sys" where
  "sample_sys = \<lparr>es_nonces = [], es_store = [], es_world = 0, es_calls = []\<rparr>"

definition sample_raw :: "nat \<Rightarrow> action_intent \<Rightarrow> prepared_execution option \<Rightarrow> observation res \<times> nat" where
  "sample_raw n i p = (Inr (indeterminate_observation ''ran''), n + 1)"

lemma unsigned_cap_simps:
  "cap_executor_id unsigned_cap = ''exec''" "cap_issued_at unsigned_cap = utc 0" "cap_expires_at unsigned_cap = utc 10"
  "cap_intent_digest unsigned_cap = intent_digest toy_crypto sample_intent"
  by (simp_all add: unsigned_cap_def)

lemma toy_verify: "ed_verify toy_crypto pk m s \<longleftrightarrow> s = pk @ m"
  by (simp add: toy_crypto_def)

lemma sample_valid: "0 \<le> now \<Longrightarrow> now < 10 \<Longrightarrow>
    capability_validate toy_crypto ''pk'' (xc_capability sample_exec) (xc_intent sample_exec) ''exec'' now = Inr ()"
  by (simp add: sample_exec_def capability_validate_def unsigned_cap_simps utc_def toy_verify)

lemma run_reachable:
  assumes "exec_reachable cr en env s0 cf" "cf_threads cf t = Some (c, pc)" "exec_run cr en env c is pc (cf_sys cf) = (pc', s')"
  shows "\<exists>cf'. exec_reachable cr en env s0 cf' \<and> cf_sys cf' = s'"
  using assms
proof (induction "is" arbitrary: cf pc)
  case Nil
  then show ?case by auto
next
  case (Cons i "is")
  obtain pc1 s1 where e: "exec_step cr en env c i pc (cf_sys cf) = (pc1, s1)" by fastforce
  let ?cf = "\<lparr>cf_sys = s1, cf_threads = (cf_threads cf)(t \<mapsto> (c, pc1))\<rparr>"
  have "exec_reachable cr en env s0 ?cf" using Cons.prems(1) acts [OF Cons.prems(2) e] by (rule exec_reachable.step)
  then show ?case using Cons.IH [of ?cf pc1] Cons.prems(3) e by simp
qed

lemma sample_reachable:
  obtains cf where "exec_reachable toy_crypto sample_enforcer (sql_env 60 sample_raw) sample_sys cf"
    "es_calls (cf_sys cf) = [(exec_key toy_crypto sample_enforcer sample_exec, sample_exec)]"
proof -
  let ?r = "exec_reachable toy_crypto sample_enforcer (sql_env 60 sample_raw) sample_sys"
  let ?cf = "(idle sample_sys)\<lparr>cf_threads := (cf_threads (idle sample_sys))(0 \<mapsto> (sample_exec, start_pc toy_crypto sample_enforcer sample_exec))\<rparr>"
  have pc: "start_pc toy_crypto sample_enforcer sample_exec = Validate" by (simp add: start_pc_def sample_exec_def)
  have r: "?r ?cf" by (rule exec_reachable.step [OF exec_reachable.init]) (rule starts, simp add: idle_def)
  obtain s' where s': "exec_run toy_crypto sample_enforcer (sql_env 60 sample_raw) sample_exec
      [([], 1), ([], 2), ([], 3), ([], 4)] Validate sample_sys
        = (Returned (Inr (verified_observation sample_enforcer (indeterminate_observation ''ran''))), s')"
    "es_calls s' = [(exec_key toy_crypto sample_enforcer sample_exec, sample_exec)]"
    using sql_exec.execute_fresh [where lease = 60 and raw = sample_raw and s = sample_sys and cr = toy_crypto
        and en = sample_enforcer and c = sample_exec and ?i1.0 = "([], 1)" and ?i2.0 = "([], 2)"]
      sample_valid
    by (force simp: sample_sys_def sample_raw_def sql_inv_def sql_bound_def idem_find_def sample_enforcer_def)
  have t: "cf_threads ?cf 0 = Some (sample_exec, Validate)" "cf_sys ?cf = sample_sys" using pc by (simp_all add: idle_def)
  from run_reachable [OF r t(1), unfolded t(2), OF s'(1)] obtain cf where "?r cf" "cf_sys cf = s'" by blast
  then show thesis using that s'(2) by blast
qed

theorem executor_single_effect_witness:
  "\<exists>cf. exec_reachable toy_crypto sample_enforcer (sql_env 60 sample_raw) sample_sys cf
    \<and> length (es_calls (cf_sys cf)) = 1 \<and> distinct (map (fst \<circ> fst) (es_calls (cf_sys cf)))"
proof (rule sample_reachable)
  fix cf assume cf: "exec_reachable toy_crypto sample_enforcer (sql_env 60 sample_raw) sample_sys cf"
    "es_calls (cf_sys cf) = [(exec_key toy_crypto sample_enforcer sample_exec, sample_exec)]"
  have "distinct (map (fst \<circ> fst) (es_calls (cf_sys cf)))"
    using executor_single_effect [OF cf(1)] by (simp add: sample_sys_def sql_inv_def)
  then show ?thesis using cf by auto
qed

theorem executor_only_authorized_witness:
  "cap_executor_id (xc_capability sample_exec) = ''exec''"
proof (rule sample_reachable)
  fix cf assume cf: "exec_reachable toy_crypto sample_enforcer (sql_env 60 sample_raw) sample_sys cf"
    "es_calls (cf_sys cf) = [(exec_key toy_crypto sample_enforcer sample_exec, sample_exec)]"
  show ?thesis
    using executor_only_authorized [OF cf(1), of "exec_key toy_crypto sample_enforcer sample_exec" sample_exec] cf(2)
    by (auto simp: sample_sys_def sql_inv_def sample_enforcer_def)
qed

theorem executor_replays_witness:
  "\<exists>s2. es_calls s2 = [(exec_key toy_crypto sample_enforcer sample_exec, sample_exec)]
    \<and> (\<exists>s1. exec_run toy_crypto sample_enforcer (sql_env 60 sample_raw) sample_exec [([], 5)] Validate s1
      = (Returned (Inr (replayed sample_enforcer (norm_observation (verified_observation sample_enforcer
          (indeterminate_observation ''ran''))))), s2))"
  using executor_replays [of sample_sys toy_crypto sample_enforcer sample_exec "([], 1)" "([], 2)" sample_raw
      "indeterminate_observation ''ran''" 1 sample_exec "([], 5)" 60 "([], 3)" "([], 4)"] sample_valid
  by (force simp: sample_sys_def sample_raw_def sql_inv_def sql_bound_def idem_find_def sample_enforcer_def)

definition sample_row :: idem_row where
  "sample_row = \<lparr>ir_op = (''exec'', ''contract'', ''i''), ir_intent = ''d'', ir_state = ''indeterminate'', ir_observation = None,
     ir_owner = None, ir_lease = None, ir_attempts = 1, ir_created_at = [], ir_updated_at = []\<rparr>"

theorem executor_outcome_final_witness:
  "settled (es_store (cf_sys (idle (sample_sys\<lparr>es_store := [sample_row]\<rparr>)))) (ir_op sample_row) sample_row"
  by (rule executor_outcome_final [OF exec_reachable.init [of toy_crypto sample_enforcer "sql_env 60 sample_raw"]])
    (simp add: settled_def idem_find_def sample_row_def)

end
