(* ===== verification/Completion.thy ===== *)
theory Completion
  imports Models
begin

text \<open>
  \<open>src/vloop/completion.py\<close>: the evidence of a run's actions, the action safety report and the
  final verifier that binds success conditions to protected checks.
\<close>

section \<open>Evidence\<close>

record action_evidence =
  ae_sequence :: int
  ae_intent_digest :: string
  ae_artifact_digests :: "(string \<times> string) list"
  ae_source_state_digest :: "string option"
  ae_report :: verification_report

record evidence_snapshot =
  es_run_id :: string
  es_actions :: "action_evidence list"

definition final_source_state_digest :: "evidence_snapshot \<Rightarrow> string option" where
  "final_source_state_digest e = (if es_actions e = [] then None else ae_source_state_digest (last (es_actions e)))"

text \<open>The accumulator's state is the run and the list of actions, like a snapshot.\<close>

definition check_source :: "check_result \<Rightarrow> string option" where
  "check_source c =
     (if dget (cr_evidence c) ''signed_receipt'' \<noteq> Some (PBool True) then None
      else case dget (cr_evidence c) ''workspace_snapshot_digest'' of
        Some (PStr v) \<Rightarrow> if v = [] then None else Some v
      | _ \<Rightarrow> None)"

definition signed_source_digests :: "verification_report \<Rightarrow> string list" where
  "signed_source_digests r = remdups (List.map_filter check_source (vr_checks r))"

definition source_digest :: "verification_report \<Rightarrow> string option" where
  "source_digest r = (case signed_source_digests r of [d] \<Rightarrow> Some d | _ \<Rightarrow> None)"

definition accumulator_append :: "crypto \<Rightarrow> evidence_snapshot \<Rightarrow> action_intent \<Rightarrow> observation \<Rightarrow> verification_report
    \<Rightarrow> evidence_snapshot" where
  "accumulator_append cr e i x r = e\<lparr>es_actions := es_actions e @
     [\<lparr>ae_sequence = int (length (es_actions e)) + 1, ae_intent_digest = intent_digest cr i,
       ae_artifact_digests = ob_artifact_digests x, ae_source_state_digest = source_digest r, ae_report = r\<rparr>]\<rparr>"

section \<open>Reports\<close>

record action_safety_report =
  sr_required_checks :: "string list"
  sr_statuses :: "(string \<times> check_status) list"

definition safety_accepted :: "action_safety_report \<Rightarrow> bool" where
  "safety_accepted s \<longleftrightarrow> sr_required_checks s \<noteq> []
     \<and> list_all (\<lambda>n. dget (sr_statuses s) n = Some PASS) (sr_required_checks s)"

fun fold_statuses :: "check_result list \<Rightarrow> (string \<times> check_status) list \<Rightarrow> (string \<times> check_status) list" where
  "fold_statuses [] d = d"
| "fold_statuses (c # cs) d = fold_statuses cs (AList.update (cr_name c)
     (case dget d (cr_name c) of
        None \<Rightarrow> cr_status c
      | Some prior \<Rightarrow> if prior \<noteq> cr_status c then INCONCLUSIVE else cr_status c) d)"

definition safety_from_report :: "task_contract \<Rightarrow> verification_report \<Rightarrow> action_safety_report" where
  "safety_from_report c r =
     \<lparr>sr_required_checks = tc_action_safety_checks c, sr_statuses = fold_statuses (vr_checks r) []\<rparr>"

record task_completion_report =
  tr_action_reports :: "verification_report list"
  tr_final_check :: check_result
  tr_final_workspace_digest :: "string option"

definition completion_accepted :: "task_completion_report \<Rightarrow> bool" where
  "completion_accepted t \<longleftrightarrow> cr_status (tr_final_check t) = PASS"

section \<open>The freshest status of a check\<close>

type_synonym candidate = "int \<times> string \<times> check_status"

definition receipt_time :: "check_result \<Rightarrow> string" where
  "receipt_time c = (case dget (cr_evidence c) ''issued_at'' of Some (PStr t) \<Rightarrow> t | _ \<Rightarrow> [])"

definition relevant_actions :: "evidence_snapshot \<Rightarrow> action_evidence list" where
  "relevant_actions e =
     (case final_source_state_digest e of
        None \<Rightarrow> [last (es_actions e)]
      | Some d \<Rightarrow> filter (\<lambda>a. ae_source_state_digest a = Some d) (es_actions e))"

definition action_candidates :: "action_evidence \<Rightarrow> (string \<times> candidate) list" where
  "action_candidates a = map (\<lambda>c. (cr_name c, (ae_sequence a, receipt_time c, cr_status c))) (vr_checks (ae_report a))"

definition all_candidates :: "evidence_snapshot \<Rightarrow> (string \<times> candidate) list" where
  "all_candidates e = concat (map action_candidates (relevant_actions e))"

definition candidates_for :: "evidence_snapshot \<Rightarrow> string \<Rightarrow> candidate list" where
  "candidates_for e name = map snd (filter (\<lambda>p. fst p = name) (all_candidates e))"

text \<open>The order of \<open>max\<close>: receipt time (as text), then sequence; the first maximum wins.\<close>

definition later :: "candidate \<Rightarrow> candidate \<Rightarrow> bool" where
  "later a b \<longleftrightarrow> (case a of (sa, ta, _) \<Rightarrow> case b of (sb, tb, _) \<Rightarrow> tb < ta \<or> tb = ta \<and> sb < sa)"

fun max_candidate :: "candidate \<Rightarrow> candidate list \<Rightarrow> candidate" where
  "max_candidate m [] = m"
| "max_candidate m (c # cs) = max_candidate (if later c m then c else m) cs"

definition same_instant :: "candidate \<Rightarrow> candidate \<Rightarrow> bool" where
  "same_instant a b \<longleftrightarrow> fst a = fst b \<and> fst (snd a) = fst (snd b)"

definition fresh_of :: "candidate list \<Rightarrow> check_status option" where
  "fresh_of cs =
     (case cs of
        [] \<Rightarrow> None
      | c # rest \<Rightarrow>
          let latest = max_candidate c rest; tied = filter (same_instant latest) cs in
          Some (if list_ex (\<lambda>x. snd (snd x) \<noteq> snd (snd latest)) tied then INCONCLUSIVE else snd (snd latest)))"

definition fresh_check_statuses :: "evidence_snapshot \<Rightarrow> (string \<times> check_status) list" where
  "fresh_check_statuses e =
     (if es_actions e = [] then []
      else List.map_filter (\<lambda>n. map_option (Pair n) (fresh_of (candidates_for e n))) (remdups (map fst (all_candidates e))))"

section \<open>The final verifier\<close>

record final_verifier =
  fv_required_checks :: "(string \<times> string list) list"
  fv_global_guards :: "string list"

definition final_from_contract :: "task_contract \<Rightarrow> final_verifier res" where
  "final_from_contract c =
     (if tc_success_condition_bindings c = []
      then Inl (ValueError, ''contract has no immutable success-condition bindings'')
      else Inr \<lparr>fv_required_checks = tc_success_condition_bindings c, fv_global_guards = tc_global_completion_guards c\<rparr>)"

definition status_or_inconclusive :: "(string \<times> check_status) list \<Rightarrow> string \<Rightarrow> check_status" where
  "status_or_inconclusive d n = (case dget d n of None \<Rightarrow> INCONCLUSIVE | Some s \<Rightarrow> s)"

definition names_for :: "final_verifier \<Rightarrow> string \<Rightarrow> string list" where
  "names_for v c = (case dget (fv_required_checks v) c of None \<Rightarrow> [] | Some ns \<Rightarrow> ns)"

definition statuses_py :: "(string \<times> check_status) list \<Rightarrow> pyval" where
  "statuses_py d = PDict (map (\<lambda>(n, s). (n, PStr (check_status_value s))) d)"

definition name_statuses :: "(string \<times> check_status) list \<Rightarrow> string list \<Rightarrow> (string \<times> check_status) list" where
  "name_statuses d ns = fold (\<lambda>n. AList.update n (status_or_inconclusive d n)) ns []"

definition final_verify :: "crypto \<Rightarrow> final_verifier \<Rightarrow> task_contract \<Rightarrow> evidence_snapshot \<Rightarrow> check_result res" where
  "final_verify cr v contract e =
     (let d = fresh_check_statuses e;
          missing = filter (\<lambda>c. names_for v c = []) (tc_success_conditions contract);
          unknown = sort (remdups (filter (\<lambda>c. c \<notin> set (tc_success_conditions contract)) (dkeys (fv_required_checks v))));
          failed = fold (\<lambda>c. if list_ex (\<lambda>p. snd p \<noteq> PASS) (name_statuses d (names_for v c))
                     then AList.update c (name_statuses d (names_for v c)) else id) (tc_success_conditions contract) [];
          guards = name_statuses d (fv_global_guards v);
          failed_guards = filter (\<lambda>p. snd p \<noteq> PASS) guards in
      bnd (contract_digest cr contract) (\<lambda>cd.
      let payload = [(''contract_digest'', PStr cd),
            (''required_checks'', PDict (map (\<lambda>(c, ns). (c, PTuple (map PStr ns))) (fv_required_checks v))),
            (''missing_bindings'', PTuple (map PStr missing)), (''unknown_conditions'', PTuple (map PStr unknown)),
            (''condition_statuses'', PDict (map (\<lambda>(c, ss). (c, statuses_py ss)) failed)),
            (''global_guard_statuses'', statuses_py guards)] in
      if missing \<noteq> [] \<or> unknown \<noteq> []
      then Inr \<lparr>cr_name = ''final-goal'', cr_status = INCONCLUSIVE, cr_evidence = payload,
                cr_message = ''each success condition needs an explicit protected check binding''\<rparr>
      else if es_actions e = [] \<or> failed \<noteq> [] \<or> failed_guards \<noteq> []
      then Inr \<lparr>cr_name = ''final-goal'', cr_status = FAIL, cr_evidence = payload,
                cr_message = ''a bound final check or global completion guard did not pass''\<rparr>
      else Inr \<lparr>cr_name = ''final-goal'', cr_status = PASS, cr_evidence = payload, cr_message = []\<rparr>))"

text \<open>\<open>CallableFinalVerifier\<close>: the deployment's evaluator is a parameter.\<close>

definition callable_final_verify :: "('a \<Rightarrow> check_result) \<Rightarrow> 'a \<Rightarrow> check_result res" where
  "callable_final_verify check x =
     (if cr_name (check x) \<noteq> ''final-goal''
      then Inl (ValueError, ''final verifier must return a final-goal check'') else Inr (check x))"

section \<open>What a pass means\<close>

text \<open>A check is passing when it has a receipt and every latest receipt of it passed.\<close>

definition passing :: "evidence_snapshot \<Rightarrow> string \<Rightarrow> bool" where
  "passing e n \<longleftrightarrow> candidates_for e n \<noteq> []
     \<and> (\<forall>c \<in> set (candidates_for e n). (\<forall>d \<in> set (candidates_for e n). \<not> later d c) \<longrightarrow> snd (snd c) = PASS)"

lemma later_total: "\<not> later a b \<Longrightarrow> \<not> later b a \<Longrightarrow> same_instant a b"
  by (auto simp: later_def same_instant_def split: prod.splits)

lemma same_instant_later: "same_instant a b \<Longrightarrow> later c a = later c b"
  by (auto simp: later_def same_instant_def split: prod.splits)

lemma max_candidate_in: "max_candidate m cs \<in> insert m (set cs)"
  by (induction cs arbitrary: m) (force split: if_splits)+

lemma max_candidate_ge: "c \<in> insert m (set cs) \<Longrightarrow> \<not> later c (max_candidate m cs)"
proof (induction cs arbitrary: m c)
  case Nil
  then show ?case by (auto simp: later_def)
next
  case (Cons x cs)
  let ?m = "if later x m then x else m"
  have le: "\<not> later ?m (max_candidate ?m cs)" by (rule Cons.IH) simp
  show ?case
  proof (cases "c \<in> insert ?m (set cs)")
    case True
    then show ?thesis using Cons.IH [OF True] by simp
  next
    case False
    then have "c = x \<or> c = m" "\<not> later c ?m" using Cons.prems by (auto simp: later_def split: if_splits prod.splits)
    then have "\<not> later c (max_candidate ?m cs)"
      using le by (auto simp: later_def split: prod.splits if_splits)
    then show ?thesis by simp
  qed
qed

lemma list_ex_filter: "list_ex P (filter S cs) \<longleftrightarrow> (\<exists>c \<in> set cs. S c \<and> P c)"
  by (induction cs) auto

lemma fresh_of_PASS:
  "fresh_of cs = Some PASS \<longleftrightarrow> cs \<noteq> [] \<and> (\<forall>c \<in> set cs. (\<forall>d \<in> set cs. \<not> later d c) \<longrightarrow> snd (snd c) = PASS)"
proof (cases cs)
  case (Cons x rest)
  let ?m = "max_candidate x rest"
  have m: "?m \<in> set cs" "\<forall>d \<in> set cs. \<not> later d ?m"
    using max_candidate_in [of x rest] max_candidate_ge [of _ x rest] Cons by auto
  have latest: "(\<forall>d \<in> set cs. \<not> later d c) \<longleftrightarrow> same_instant ?m c" if "c \<in> set cs" for c
  proof
    assume "\<forall>d \<in> set cs. \<not> later d c"
    then show "same_instant ?m c" using m that by (intro later_total) auto
  next
    assume "same_instant ?m c"
    then show "\<forall>d \<in> set cs. \<not> later d c" using m same_instant_later by blast
  qed
  have refl: "same_instant ?m ?m" by (simp add: same_instant_def)
  have tied: "m \<in> A \<Longrightarrow> S m \<Longrightarrow> (\<forall>c \<in> A. S c \<longrightarrow> f c = v) \<longleftrightarrow> f m = v \<and> (\<forall>c \<in> A. S c \<longrightarrow> f c = f m)"
    for m :: candidate and A S v and f :: "candidate \<Rightarrow> check_status" by metis
  have "(\<forall>c \<in> set cs. same_instant ?m c \<longrightarrow> snd (snd c) = PASS)
      \<longleftrightarrow> snd (snd ?m) = PASS \<and> \<not> list_ex (\<lambda>c. snd (snd c) \<noteq> snd (snd ?m)) (filter (same_instant ?m) cs)"
    using tied [OF m(1), of "same_instant ?m" "\<lambda>c. snd (snd c)" PASS] refl by (simp add: list_ex_filter)
  moreover have "fresh_of cs = Some PASS \<longleftrightarrow>
      snd (snd ?m) = PASS \<and> \<not> list_ex (\<lambda>c. snd (snd c) \<noteq> snd (snd ?m)) (filter (same_instant ?m) cs)"
    unfolding Cons fresh_of_def Let_def by simp
  moreover have "(\<forall>c \<in> set cs. (\<forall>d \<in> set cs. \<not> later d c) \<longrightarrow> snd (snd c) = PASS)
      \<longleftrightarrow> (\<forall>c \<in> set cs. same_instant ?m c \<longrightarrow> snd (snd c) = PASS)" using latest by blast
  ultimately show ?thesis using Cons by simp
qed (simp add: fresh_of_def)

lemma fresh_status_PASS:
  "status_or_inconclusive (fresh_check_statuses e) n = PASS \<longleftrightarrow> es_actions e \<noteq> [] \<and> passing e n"
proof -
  have d: "dget (List.map_filter (\<lambda>n. map_option (Pair n) (f n)) ns) m = (if m \<in> set ns then f m else None)"
    for f :: "string \<Rightarrow> check_status option" and ns m
    by (induction ns) (auto simp: dget_def List.map_filter_simps split: option.splits)
  have none: "fresh_of (candidates_for e n) = None" if "n \<notin> set (map fst (all_candidates e))"
  proof -
    have "candidates_for e n = []" using that by (force simp: candidates_for_def filter_empty_conv)
    then show ?thesis by (simp add: fresh_of_def)
  qed
  have "dget (fresh_check_statuses e) n = (if es_actions e = [] then None else fresh_of (candidates_for e n))"
    using none by (auto simp: fresh_check_statuses_def d)
  moreover have "fresh_of (candidates_for e n) = Some PASS \<longleftrightarrow> passing e n"
    unfolding passing_def by (rule fresh_of_PASS)
  ultimately show ?thesis by (auto simp: status_or_inconclusive_def split: option.splits if_splits)
qed

lemma name_statuses_all:
  "(\<forall>p \<in> set (name_statuses d ns). snd p = PASS) \<longleftrightarrow> (\<forall>n \<in> set ns. status_or_inconclusive d n = PASS)"
proof -
  have "set (fold (\<lambda>n. AList.update n (f n)) ns acc) \<subseteq> set acc \<union> (\<lambda>n. (n, f n)) ` set ns"
    for f :: "string \<Rightarrow> check_status" and acc
  proof (induction ns arbitrary: acc)
    case (Cons m ns)
    have "set (AList.update m (f m) acc) \<subseteq> insert (m, f m) (set acc)"
      by (induction acc) (auto split: if_splits)
    then show ?case using Cons.IH [of "AList.update m (f m) acc"] by auto
  qed simp
  moreover have "dget (fold (\<lambda>n. AList.update n (f n)) ns acc) m = (if m \<in> set ns then Some (f m) else dget acc m)"
    for f :: "string \<Rightarrow> check_status" and acc m
    by (induction ns arbitrary: acc) auto
  ultimately have "set (name_statuses d ns) \<subseteq> (\<lambda>n. (n, status_or_inconclusive d n)) ` set ns"
    and "dget (name_statuses d ns) m = (if m \<in> set ns then Some (status_or_inconclusive d m) else None)" for m
    unfolding name_statuses_def by fastforce+
  then have "(n, status_or_inconclusive d n) \<in> set (name_statuses d ns)" if "n \<in> set ns" for n
    using that map_of_SomeD [of "name_statuses d ns" n] by (simp add: dget_def)
  then show ?thesis using \<open>set (name_statuses d ns) \<subseteq> _\<close> by fastforce
qed

lemma failed_conditions_Nil:
  "fold (\<lambda>c. if P c then AList.update c (f c) else id) cs acc = [] \<longleftrightarrow> acc = [] \<and> (\<forall>c \<in> set cs. \<not> P c)"
proof (induction cs arbitrary: acc)
  case (Cons c cs)
  have "AList.update c (f c) acc \<noteq> []" by (cases acc) auto
  then show ?case using Cons.IH by auto
qed simp

lemma final_verify_PASS:
  "(\<exists>x. final_verify cr v contract e = Inr x \<and> cr_status x = PASS) \<longleftrightarrow>
     (\<exists>cd. contract_digest cr contract = Inr cd)
     \<and> set (dkeys (fv_required_checks v)) \<subseteq> set (tc_success_conditions contract) \<and> es_actions e \<noteq> []
     \<and> (\<forall>c \<in> set (tc_success_conditions contract). names_for v c \<noteq> [] \<and> (\<forall>n \<in> set (names_for v c). passing e n))
     \<and> (\<forall>n \<in> set (fv_global_guards v). passing e n)"
proof -
  let ?d = "fresh_check_statuses e"
  have failed: "\<not> list_ex (\<lambda>p. snd p \<noteq> PASS) (name_statuses ?d ns) \<longleftrightarrow> (\<forall>n \<in> set ns. es_actions e \<noteq> [] \<and> passing e n)" for ns
    by (simp add: list_ex_iff name_statuses_all fresh_status_PASS)
  have guards: "filter (\<lambda>p. snd p \<noteq> PASS) (name_statuses ?d ns) = [] \<longleftrightarrow> (\<forall>n \<in> set ns. es_actions e \<noteq> [] \<and> passing e n)" for ns
    by (simp add: filter_empty_conv name_statuses_all fresh_status_PASS)
  have unknown: "sort (remdups (filter (\<lambda>c. c \<notin> A) ks)) = [] \<longleftrightarrow> set ks \<subseteq> A" for A :: "string set" and ks
  proof -
    have "sort xs = [] \<longleftrightarrow> xs = []" for xs :: "string list" by (metis length_0_conv length_sort)
    then show ?thesis by (auto simp: filter_empty_conv)
  qed
  have missing: "filter (\<lambda>c. names_for v c = []) cs = [] \<longleftrightarrow> (\<forall>c \<in> set cs. names_for v c \<noteq> [])" for cs
    by (simp add: filter_empty_conv)
  show ?thesis
    unfolding final_verify_def Let_def bnd_eq_Inr
    by (cases "contract_digest cr contract")
      (auto simp: failed_conditions_Nil failed guards unknown missing)
qed

text \<open>The instant a receipt time denotes, and the order of instants: no receipt time comes before every other.\<close>

definition moment :: "string \<Rightarrow> int option" where
  "moment t = map_option instant (fromisoformat t)"

fun moment_less :: "int option \<Rightarrow> int option \<Rightarrow> bool" where
  "moment_less None y = (y \<noteq> None)"
| "moment_less (Some a) y = (case y of None \<Rightarrow> False | Some b \<Rightarrow> a < b)"

definition overtakes :: "candidate \<Rightarrow> candidate \<Rightarrow> bool" where
  "overtakes a b \<longleftrightarrow> (case a of (sa, ta, _) \<Rightarrow> case b of (sb, tb, _) \<Rightarrow>
     moment_less (moment tb) (moment ta) \<or> moment tb = moment ta \<and> sb < sa)"

text \<open>The receipt times of each check sort as texts the way their instants do, as times of one UTC offset do.\<close>

definition chronological :: "evidence_snapshot \<Rightarrow> bool" where
  "chronological e \<longleftrightarrow> (\<forall>n \<in> set (map fst (all_candidates e)). \<forall>c \<in> set (candidates_for e n). \<forall>d \<in> set (candidates_for e n).
     (fst (snd c) < fst (snd d)) = moment_less (moment (fst (snd c))) (moment (fst (snd d))))"

text \<open>A check is passed when it has receipts and no receipt that none overtakes has another status.\<close>

definition check_passed :: "evidence_snapshot \<Rightarrow> string \<Rightarrow> bool" where
  "check_passed e n \<longleftrightarrow> candidates_for e n \<noteq> []
     \<and> (\<forall>c \<in> set (candidates_for e n). (\<forall>d \<in> set (candidates_for e n). \<not> overtakes d c) \<longrightarrow> snd (snd c) = PASS)"

lemma moment_less_linear: "moment_less a b \<or> a = b \<or> moment_less b a"
  by (cases a; cases b) auto

lemma moment_less_irrefl: "\<not> moment_less a a"
  by (cases a) auto

lemma candidates_named: "c \<in> set (candidates_for e n) \<Longrightarrow> n \<in> set (map fst (all_candidates e))"
  by (auto simp: candidates_for_def)

lemma overtakes_later:
  assumes "chronological e" "c \<in> set (candidates_for e n)" "d \<in> set (candidates_for e n)"
  shows "overtakes d c \<longleftrightarrow> later d c"
proof -
  obtain sc tc xc sd td xd where cd: "c = (sc, tc, xc)" "d = (sd, td, xd)" by (metis prod_cases3)
  have less: "tc < td \<longleftrightarrow> moment_less (moment tc) (moment td)" "td < tc \<longleftrightarrow> moment_less (moment td) (moment tc)"
    using assms candidates_named cd unfolding chronological_def by fastforce+
  have "tc = td \<longleftrightarrow> moment tc = moment td" using less moment_less_linear moment_less_irrefl by (metis neqE)
  then show ?thesis using less(1) cd by (simp add: overtakes_def later_def)
qed

lemma check_passed_passing: "chronological e \<Longrightarrow> check_passed e n \<longleftrightarrow> passing e n"
  unfolding check_passed_def passing_def using overtakes_later by blast

text \<open>C19: for evidence whose receipt times sort as their instants do, the final verifier passes exactly when every
  success condition of the contract is bound to at least one check, nothing else is bound, there is at least one
  action, and every bound check and every global guard has a receipt for the final workspace state and no other
  status than a pass among the receipts that no later one overtakes, later in time, or later in the run at the same
  time. Without that hypothesis the claim fails: the code compares texts (\<open>stale_pass_wins\<close> below).\<close>

theorem final_verify_pass_iff:
  assumes "chronological e"
  shows "(\<exists>x. final_verify cr v contract e = Inr x \<and> cr_status x = PASS) \<longleftrightarrow>
     (\<exists>cd. contract_digest cr contract = Inr cd)
     \<and> set (dkeys (fv_required_checks v)) \<subseteq> set (tc_success_conditions contract) \<and> es_actions e \<noteq> []
     \<and> (\<forall>c \<in> set (tc_success_conditions contract). names_for v c \<noteq> [] \<and> (\<forall>n \<in> set (names_for v c). check_passed e n))
     \<and> (\<forall>n \<in> set (fv_global_guards v). check_passed e n)"
  using final_verify_PASS check_passed_passing [OF assms] by simp

definition done_contract :: task_contract where
  "done_contract = \<lparr>tc_goal = ''g'', tc_success_conditions = [''s''], tc_allowed_actions = [],
     tc_forbidden_actions = [], tc_required_verifiers = [], tc_success_condition_bindings = [(''s'', [''tests''])],
     tc_action_safety_checks = [], tc_global_completion_guards = [''policy''], tc_require_argument_provenance = False,
     tc_task_kind = ''general'', tc_risk_class = ''medium'', tc_probe_policy_digest = [], tc_profile_version = [],
     tc_profile_digest = [], tc_maximum_iterations = 3, tc_maximum_tool_calls = 5, tc_expires_at = None,
     tc_contract_id = ''k'', tc_version = 1\<rparr>"

definition done_verifier :: final_verifier where
  "done_verifier = \<lparr>fv_required_checks = [(''s'', [''tests''])], fv_global_guards = [''policy'']\<rparr>"

text \<open>The tests failed first and passed at a later instant of the same offset.\<close>

definition timed_check :: "string \<Rightarrow> check_status \<Rightarrow> string \<Rightarrow> check_result" where
  "timed_check n s t = \<lparr>cr_name = n, cr_status = s, cr_evidence = [(''issued_at'', PStr t)], cr_message = []\<rparr>"

definition done_action :: "int \<Rightarrow> check_result list \<Rightarrow> action_evidence" where
  "done_action k cs = \<lparr>ae_sequence = k, ae_intent_digest = ''i'', ae_artifact_digests = [], ae_source_state_digest = Some ''w'',
     ae_report = \<lparr>vr_correctness = PASS, vr_policy = PASS, vr_evidence = PASS, vr_quality = PASS, vr_checks = cs\<rparr>\<rparr>"

definition done_evidence :: evidence_snapshot where
  "done_evidence = \<lparr>es_run_id = ''r'', es_actions =
     [done_action 1 [timed_check ''tests'' FAIL ''2024-01-01T10:00:00+00:00''],
      done_action 2 [timed_check ''tests'' PASS ''2024-01-01T10:00:00.500000+00:00'', timed_check ''policy'' PASS ''2024-01-01T10:00:01+00:00'']]\<rparr>"

theorem final_verify_pass_iff_witness:
  "\<exists>x. final_verify toy_crypto done_verifier done_contract done_evidence = Inr x \<and> cr_status x = PASS"
proof -
  have "\<exists>cd. contract_digest toy_crypto done_contract = Inr cd"
    by (simp add: contract_digest_def task_contract_py_def done_contract_def)
  moreover have "set (dkeys (fv_required_checks done_verifier)) \<subseteq> set (tc_success_conditions done_contract)"
    "es_actions done_evidence \<noteq> []"
    "\<forall>c \<in> set (tc_success_conditions done_contract). names_for done_verifier c \<noteq> []
      \<and> (\<forall>n \<in> set (names_for done_verifier c). check_passed done_evidence n)"
    "\<forall>n \<in> set (fv_global_guards done_verifier). check_passed done_evidence n"
    by code_simp+
  moreover have "chronological done_evidence" by code_simp
  ultimately show ?thesis by (subst final_verify_pass_iff) blast+
qed

text \<open>
  Receipt times are compared as texts. Two receipts of one check, issued in different zones: the
  later one failed, the final status is a pass.
\<close>

definition zoned_check :: "check_status \<Rightarrow> string \<Rightarrow> check_result" where
  "zoned_check s t = \<lparr>cr_name = ''tests'', cr_status = s,
     cr_evidence = [(''issued_at'', PStr t), (''signed_receipt'', PBool True), (''workspace_snapshot_digest'', PStr ''w'')],
     cr_message = []\<rparr>"

definition zoned_evidence :: evidence_snapshot where
  "zoned_evidence = \<lparr>es_run_id = ''r'', es_actions =
     [\<lparr>ae_sequence = 1, ae_intent_digest = ''i'', ae_artifact_digests = [], ae_source_state_digest = Some ''w'',
       ae_report = \<lparr>vr_correctness = PASS, vr_policy = PASS, vr_evidence = PASS, vr_quality = PASS,
         vr_checks = [zoned_check PASS ''2024-01-01T10:00:00+05:00'', zoned_check FAIL ''2024-01-01T06:00:00+00:00'']\<rparr>\<rparr>]\<rparr>"

text \<open>An earlier passing receipt wins over a later failing one when its zone makes its text greater.\<close>

theorem stale_pass_wins:
  "\<not> chronological zoned_evidence \<and> dget (fresh_check_statuses zoned_evidence) ''tests'' = Some PASS
   \<and> (case (fromisoformat ''2024-01-01T10:00:00+05:00'', fromisoformat ''2024-01-01T06:00:00+00:00'') of
         (Some passed, Some failed) \<Rightarrow> instant passed < instant failed | _ \<Rightarrow> False)"
  by code_simp

end
