(* ===== verification/Ledger.thy ===== *)
theory Ledger
  imports Canonical
begin

text \<open>
  \<open>src/vloop/ledger.py\<close>: the append-only evidence ledger with its hash chain, and the outbox
  that publishes its heads to an external anchor. The tables are lists of rows, a JSON column
  holds its value, clocks are arguments.
\<close>

section \<open>Tables\<close>

record ledger_row =
  lr_sequence :: int
  lr_event_type :: string
  lr_occurred_at :: string
  lr_payload :: pyval
  lr_parent_hash :: string
  lr_event_hash :: string

record outbox_row =
  ob_event_hash :: string
  ob_sequence :: int
  ob_occurred_at :: string
  ob_state :: string
  ob_attempts :: int
  ob_lease_owner :: "string option"
  ob_lease_expires_at :: "string option"
  ob_last_error :: "string option"
  ob_updated_at :: string

text \<open>\<open>lg_last\<close> is the last value of the \<open>AUTOINCREMENT\<close> key.\<close>

record ledger =
  lg_events :: "ledger_row list"
  lg_outbox :: "outbox_row list"
  lg_head :: "string option"
  lg_last :: int

definition zero_hash :: string where
  "zero_hash = replicate 64 (CHR ''0'')"

text \<open>\<open>SELECT ... FROM ledger_events ORDER BY sequence\<close>.\<close>

definition ledger_events :: "ledger \<Rightarrow> ledger_row list" where
  "ledger_events db = sort_key lr_sequence (lg_events db)"

text \<open>\<open>__init__\<close> on an existing database: the head is inserted if it is missing.\<close>

definition ledger_open :: "ledger \<Rightarrow> ledger" where
  "ledger_open db = db\<lparr>lg_head := (case lg_head db of
     Some h \<Rightarrow> Some h
   | None \<Rightarrow> Some (if ledger_events db = [] then zero_hash else lr_event_hash (last (ledger_events db))))\<rparr>"

definition empty_ledger :: ledger where
  "empty_ledger = \<lparr>lg_events = [], lg_outbox = [], lg_head = None, lg_last = 0\<rparr>"

section \<open>Appending\<close>

definition event_body :: "string \<Rightarrow> string \<Rightarrow> pyval \<Rightarrow> string \<Rightarrow> pyval" where
  "event_body ty at payload parent = PDict [(''event_type'', PStr ty), (''occurred_at'', PStr at),
     (''payload'', payload), (''parent_hash'', PStr parent)]"

definition ledger_append :: "crypto \<Rightarrow> string \<Rightarrow> pydict \<Rightarrow> int \<Rightarrow> ledger \<Rightarrow> string res \<times> ledger" where
  "ledger_append cr ty payload now db =
     (let at = isoformat (utc now); stored = json_norm (PDict payload) in
      case lg_head db of
        None \<Rightarrow> (Inl (RuntimeError, ''ledger head is missing''), db)
      | Some parent \<Rightarrow>
          let h = digest cr (event_body ty at stored parent) in
          if h \<in> set (map lr_event_hash (lg_events db))
          then (Inl (IntegrityError, ''UNIQUE constraint failed: ledger_events.event_hash''), db)
          else (Inr h, db\<lparr>lg_events := lg_events db @ [\<lparr>lr_sequence = lg_last db + 1, lr_event_type = ty,
                   lr_occurred_at = at, lr_payload = stored, lr_parent_hash = parent, lr_event_hash = h\<rparr>],
                 lg_last := lg_last db + 1, lg_head := Some h,
                 lg_outbox := (if h \<in> set (map ob_event_hash (lg_outbox db)) then lg_outbox db
                   else lg_outbox db @ [\<lparr>ob_event_hash = h, ob_sequence = lg_last db + 1, ob_occurred_at = at,
                     ob_state = ''pending'', ob_attempts = 0, ob_lease_owner = None, ob_lease_expires_at = None,
                     ob_last_error = None, ob_updated_at = at\<rparr>])\<rparr>))"

section \<open>Reading\<close>

fun chain_from :: "crypto \<Rightarrow> string \<Rightarrow> ledger_row list \<Rightarrow> string option" where
  "chain_from cr parent [] = Some parent"
| "chain_from cr parent (e # es) =
     (if lr_parent_hash e \<noteq> parent then None
      else if lr_event_hash e \<noteq> digest cr (event_body (lr_event_type e) (lr_occurred_at e) (lr_payload e) parent)
      then None else chain_from cr (lr_event_hash e) es)"

definition verify_chain :: "crypto \<Rightarrow> ledger \<Rightarrow> bool" where
  "verify_chain cr db =
     (case chain_from cr zero_hash (ledger_events db) of
        None \<Rightarrow> False
      | Some parent \<Rightarrow> lg_head db = Some parent)"

definition contains_event_hashes :: "ledger \<Rightarrow> string set \<Rightarrow> bool" where
  "contains_event_hashes db hs =
     (if hs = {} then False else length (filter (\<lambda>e. lr_event_hash e \<in> hs) (lg_events db)) = card hs)"

definition events_for_hashes :: "ledger \<Rightarrow> string set \<Rightarrow> (string \<times> ledger_row) list" where
  "events_for_hashes db hs = map (\<lambda>e. (lr_event_hash e, e)) (filter (\<lambda>e. lr_event_hash e \<in> hs) (lg_events db))"

definition payload_run :: "ledger_row \<Rightarrow> pyval option" where
  "payload_run e = (case lr_payload e of PDict d \<Rightarrow> dget d ''run_id'' | _ \<Rightarrow> None)"

definition event_hashes_for_run :: "ledger \<Rightarrow> string \<Rightarrow> string list res" where
  "event_hashes_for_run db run =
     (if blank run then Inl (ValueError, ''run id is required'')
      else Inr (map lr_event_hash (filter (\<lambda>e. payload_run e = Some (PStr run)) (ledger_events db))))"

section \<open>The anchor outbox\<close>

record anchor_record =
  an_event_hash :: string
  an_sequence :: int
  an_occurred_at :: dtime
  an_attempts :: int

definition claimable :: "string \<Rightarrow> outbox_row \<Rightarrow> bool" where
  "claimable now o' \<longleftrightarrow> ob_state o' = ''pending''
     \<or> ob_state o' = ''leased'' \<and> (case ob_lease_expires_at o' of None \<Rightarrow> False | Some t \<Rightarrow> t \<le> now)"

definition claim_rows :: "string \<Rightarrow> nat \<Rightarrow> outbox_row list \<Rightarrow> outbox_row list" where
  "claim_rows now limit rows = take limit (sort_key ob_sequence (filter (claimable now) rows))"

definition outbox_update :: "(outbox_row \<Rightarrow> bool) \<Rightarrow> (outbox_row \<Rightarrow> outbox_row) \<Rightarrow> ledger \<Rightarrow> ledger" where
  "outbox_update sel f db = db\<lparr>lg_outbox := map (\<lambda>r. if sel r then f r else r) (lg_outbox db)\<rparr>"

definition anchor_record_of :: "outbox_row \<Rightarrow> anchor_record res" where
  "anchor_record_of r = bnd (time_of (PStr (ob_occurred_at r))) (\<lambda>t.
     Inr \<lparr>an_event_hash = ob_event_hash r, an_sequence = ob_sequence r, an_occurred_at = t, an_attempts = ob_attempts r + 1\<rparr>)"

text \<open>The leases are committed before the records are built.\<close>

definition claim_anchor_operations :: "string \<Rightarrow> int \<Rightarrow> int \<Rightarrow> int \<Rightarrow> ledger \<Rightarrow> anchor_record list res \<times> ledger" where
  "claim_anchor_operations worker limit lease now db =
     (if blank worker \<or> limit < 1 \<or> lease < 1 then (Inl (ValueError, ''invalid ledger anchor lease request''), db)
      else let t = isoformat (utc now); rows = claim_rows t (nat limit) (lg_outbox db) in
        (map_res anchor_record_of rows,
         outbox_update (\<lambda>r. ob_event_hash r \<in> set (map ob_event_hash rows))
           (\<lambda>r. r\<lparr>ob_state := ''leased'', ob_attempts := ob_attempts r + 1, ob_lease_owner := Some worker,
             ob_lease_expires_at := Some (isoformat (utc (now + seconds lease))), ob_updated_at := t\<rparr>) db))"

definition leased_by :: "string \<Rightarrow> string \<Rightarrow> outbox_row \<Rightarrow> bool" where
  "leased_by h worker r \<longleftrightarrow> ob_event_hash r = h \<and> ob_state r = ''leased'' \<and> ob_lease_owner r = Some worker"

definition complete_anchor_operation :: "string \<Rightarrow> string \<Rightarrow> int \<Rightarrow> ledger \<Rightarrow> unit res \<times> ledger" where
  "complete_anchor_operation h worker now db =
     (if length (filter (leased_by h worker) (lg_outbox db)) \<noteq> 1
      then Inl (RuntimeError, ''ledger anchor outbox lease was lost'') else Inr (),
      outbox_update (leased_by h worker) (\<lambda>r. r\<lparr>ob_state := ''delivered'', ob_lease_owner := None,
        ob_lease_expires_at := None, ob_last_error := None, ob_updated_at := isoformat (utc now)\<rparr>) db)"

definition release_anchor_operation :: "string \<Rightarrow> string \<Rightarrow> string \<Rightarrow> int \<Rightarrow> ledger \<Rightarrow> ledger" where
  "release_anchor_operation h worker err now db =
     outbox_update (leased_by h worker) (\<lambda>r. r\<lparr>ob_state := ''pending'', ob_lease_owner := None,
        ob_lease_expires_at := None, ob_last_error := Some err, ob_updated_at := isoformat (utc now)\<rparr>) db"

text \<open>
  \<open>LedgerAnchorWorker.drain\<close>: \<open>anchor\<close> is the external service, acting on its own state; an
  exception of the service or of the completion releases the operation.
\<close>

fun drain_records :: "('w \<Rightarrow> anchor_record \<Rightarrow> (string + unit) \<times> 'w) \<Rightarrow> string \<Rightarrow> int \<Rightarrow> anchor_record list
    \<Rightarrow> nat \<Rightarrow> 'w \<times> ledger \<Rightarrow> nat \<times> 'w \<times> ledger" where
  "drain_records anchor worker now [] n s = (n, s)"
| "drain_records anchor worker now (r # rs) n (w, db) =
     (case anchor w r of
        (Inl err, w') \<Rightarrow>
          drain_records anchor worker now rs n (w', release_anchor_operation (an_event_hash r) worker err now db)
      | (Inr _, w') \<Rightarrow>
          (case complete_anchor_operation (an_event_hash r) worker now db of
             (Inl e, db') \<Rightarrow> drain_records anchor worker now rs n
               (w', release_anchor_operation (an_event_hash r) worker ''RuntimeError'' now db')
           | (Inr _, db') \<Rightarrow> drain_records anchor worker now rs (n + 1) (w', db')))"

definition drain :: "('w \<Rightarrow> anchor_record \<Rightarrow> (string + unit) \<times> 'w) \<Rightarrow> string \<Rightarrow> int \<Rightarrow> int \<Rightarrow> 'w \<times> ledger
    \<Rightarrow> nat res \<times> 'w \<times> ledger" where
  "drain anchor worker limit now s =
     (case claim_anchor_operations worker limit 120 now (snd s) of
        (Inl e, db) \<Rightarrow> (Inl e, fst s, db)
      | (Inr rs, db) \<Rightarrow> (case drain_records anchor worker now rs 0 (fst s, db) of (n, s') \<Rightarrow> (Inr n, s')))"

section \<open>The invariant of the ledger\<close>

definition ledger_ok :: "crypto \<Rightarrow> ledger \<Rightarrow> bool" where
  "ledger_ok cr db \<longleftrightarrow> verify_chain cr db \<and> sorted (map lr_sequence (lg_events db))
     \<and> (\<forall>e \<in> set (lg_events db). lr_sequence e \<le> lg_last db \<and> json_norm (lr_payload e) = lr_payload e)
     \<and> distinct (map lr_event_hash (lg_events db))
     \<and> set (map lr_event_hash (lg_events db)) \<subseteq> set (map ob_event_hash (lg_outbox db))"

lemma chain_from_append:
  "chain_from cr p (xs @ ys) = (case chain_from cr p xs of None \<Rightarrow> None | Some q \<Rightarrow> chain_from cr q ys)"
  by (induction xs arbitrary: p) auto

lemma ledger_events_sorted: "sorted (map lr_sequence (lg_events db)) \<Longrightarrow> ledger_events db = lg_events db"
  by (simp add: ledger_events_def sort_key_id_if_sorted)

lemma ledger_append_ok:
  assumes "ledger_ok cr db"
  shows "ledger_ok cr (snd (ledger_append cr ty payload now db))"
proof (cases "fst (ledger_append cr ty payload now db)")
  case (Inl e)
  then have "snd (ledger_append cr ty payload now db) = db"
    by (auto simp: ledger_append_def Let_def split: option.splits if_splits)
  then show ?thesis using assms by simp
next
  case (Inr h)
  then obtain parent where p: "lg_head db = Some parent"
    by (cases "lg_head db") (auto simp: ledger_append_def Let_def)
  let ?e = "\<lparr>lr_sequence = lg_last db + 1, lr_event_type = ty, lr_occurred_at = isoformat (utc now),
     lr_payload = json_norm (PDict payload), lr_parent_hash = parent, lr_event_hash = h\<rparr>"
  let ?db = "snd (ledger_append cr ty payload now db)"
  have h: "h = digest cr (event_body ty (isoformat (utc now)) (json_norm (PDict payload)) parent)"
    "h \<notin> set (map lr_event_hash (lg_events db))"
    using Inr p by (auto simp: ledger_append_def Let_def split: if_splits)
  then have db: "lg_events ?db = lg_events db @ [?e]" "lg_head ?db = Some h" "lg_last ?db = lg_last db + 1"
    "ob_event_hash ` set (lg_outbox ?db) = insert h (ob_event_hash ` set (lg_outbox db))"
    using p by (auto simp: ledger_append_def Let_def)
  have sorted: "sorted (map lr_sequence (lg_events ?db))"
    using assms by (fastforce simp: db ledger_ok_def sorted_append)
  have "chain_from cr zero_hash (lg_events db) = Some parent"
    using assms p ledger_events_sorted [of db]
    by (auto simp: ledger_ok_def verify_chain_def split: option.splits)
  then have "verify_chain cr ?db"
    by (simp add: verify_chain_def ledger_events_sorted [OF sorted] db chain_from_append h(1))
  then show ?thesis
    using assms sorted h(2) by (auto simp: ledger_ok_def db(1,3,4) simp del: json_norm.simps)
qed

lemma outbox_update_ok:
  assumes "\<And>r. ob_event_hash (f r) = ob_event_hash r"
  shows "ledger_ok cr (outbox_update sel f db) = ledger_ok cr db"
proof -
  have "set (map ob_event_hash (map (\<lambda>r. if sel r then f r else r) rows)) = set (map ob_event_hash rows)" for rows
    by (induction rows) (simp_all add: assms)
  moreover have "verify_chain cr (outbox_update sel f db) = verify_chain cr db"
    by (simp add: verify_chain_def ledger_events_def outbox_update_def split: option.split)
  ultimately show ?thesis unfolding ledger_ok_def by (simp add: outbox_update_def del: set_map)
qed

lemma claim_ok: "ledger_ok cr (snd (claim_anchor_operations worker limit lease now db)) = ledger_ok cr db"
  by (simp add: claim_anchor_operations_def Let_def outbox_update_ok)

lemma complete_ok: "ledger_ok cr (snd (complete_anchor_operation h worker now db)) = ledger_ok cr db"
  by (simp add: complete_anchor_operation_def outbox_update_ok)

lemma release_ok: "ledger_ok cr (release_anchor_operation h worker err now db) = ledger_ok cr db"
  by (simp add: release_anchor_operation_def outbox_update_ok)

lemma drain_records_ok: "ledger_ok cr (snd (snd (drain_records anchor worker now rs n s))) = ledger_ok cr (snd s)"
proof (induction anchor worker now rs n s rule: drain_records.induct)
  case (2 anchor worker now r rs n w db)
  obtain res w' where a: "anchor w r = (res, w')" by fastforce
  obtain c db' where c: "complete_anchor_operation (an_event_hash r) worker now db = (c, db')" by fastforce
  then have "ledger_ok cr db' = ledger_ok cr db" using complete_ok [of cr "an_event_hash r" worker now db] by simp
  then show ?case using 2 a c release_ok by (cases res; cases c) auto
qed simp

inductive ledger_reachable :: "crypto \<Rightarrow> ledger \<Rightarrow> bool" for cr where
  created: "ledger_reachable cr (ledger_open empty_ledger)"
| reopened: "ledger_reachable cr db \<Longrightarrow> ledger_reachable cr (ledger_open db)"
| appended: "ledger_reachable cr db \<Longrightarrow> ledger_reachable cr (snd (ledger_append cr ty payload now db))"
| claimed: "ledger_reachable cr db \<Longrightarrow> ledger_reachable cr (snd (claim_anchor_operations worker limit lease now db))"
| completed: "ledger_reachable cr db \<Longrightarrow> ledger_reachable cr (snd (complete_anchor_operation h worker now db))"
| released: "ledger_reachable cr db \<Longrightarrow> ledger_reachable cr (release_anchor_operation h worker err now db)"

lemma ledger_open_ok: "ledger_ok cr db \<Longrightarrow> ledger_open db = db"
  by (auto simp: ledger_ok_def verify_chain_def ledger_open_def split: option.splits)

lemma ledger_ok_reachable: "ledger_reachable cr db \<Longrightarrow> ledger_ok cr db"
proof (induction rule: ledger_reachable.induct)
  case created
  then show ?case by (simp add: ledger_ok_def verify_chain_def ledger_events_def ledger_open_def empty_ledger_def)
next
  case (reopened db)
  then show ?case using ledger_open_ok by simp
qed (simp_all add: ledger_append_ok claim_ok complete_ok release_ok)

section \<open>Tamper evidence\<close>

text \<open>What an event says, and two stored events that have the same hash and say different things.\<close>

definition row_content :: "ledger_row \<Rightarrow> string \<times> string \<times> pyval" where
  "row_content e = (lr_event_type e, lr_occurred_at e, lr_payload e)"

definition row_text :: "ledger_row \<Rightarrow> string" where
  "row_text e = canonical_json (event_body (lr_event_type e) (lr_occurred_at e) (lr_payload e) (lr_parent_hash e))"

definition stored_json :: "ledger_row \<Rightarrow> bool" where
  "stored_json e \<longleftrightarrow> wf_json (lr_payload e) \<and> json_norm (lr_payload e) = lr_payload e"

definition broken_hash :: "crypto \<Rightarrow> ledger_row list \<Rightarrow> ledger_row list \<Rightarrow> bool" where
  "broken_hash cr es es' \<longleftrightarrow>
     (\<exists>e \<in> set es. \<exists>e' \<in> set es'. collision cr (row_text e) (row_text e'))
     \<or> (\<exists>e \<in> set es \<union> set es'. sha256_hex cr (row_text e) = zero_hash)"

lemma row_hash:
  "digest cr (event_body (lr_event_type e) (lr_occurred_at e) (lr_payload e) (lr_parent_hash e)) = sha256_hex cr (row_text e)"
  by (simp only: digest_def row_text_def)

lemma chain_from_Cons:
  "chain_from cr p (e # es) =
     (if lr_parent_hash e = p \<and> lr_event_hash e = sha256_hex cr (row_text e) then chain_from cr (lr_event_hash e) es else None)"
  using row_hash [of cr e] by (cases "lr_parent_hash e = p") auto

lemma chain_from_hash:
  "chain_from cr p es = Some q \<Longrightarrow> es \<noteq> [] \<Longrightarrow>
    sha256_hex cr (row_text (last es)) = q \<and> chain_from cr p (butlast es) = Some (lr_parent_hash (last es))"
proof -
  assume a: "chain_from cr p es = Some q" "es \<noteq> []"
  then have "chain_from cr p (butlast es @ [last es]) = Some q" by simp
  then show ?thesis
    by (simp add: chain_from_append chain_from_Cons del: append_butlast_last_id chain_from.simps(2) split: option.splits if_splits)
qed

lemma norm_field:
  assumes "json_norm (PDict d) = json_norm (PDict d')"
  shows "map_option json_norm (dget d k) = map_option json_norm (dget d' k)"
proof -
  have "norm_dict d = norm_dict d'" using assms unfolding json_norm_PDict by blast
  then show ?thesis using dget_norm_dict by metis
qed

lemma event_body_norm:
  assumes "json_norm (event_body ty at pl p) = json_norm (event_body ty' at' pl' p')"
  shows "ty = ty' \<and> at = at' \<and> json_norm pl = json_norm pl' \<and> p = p'"
proof -
  note f = norm_field [OF assms [unfolded event_body_def]]
  have "ty = ty'" using f [of "''event_type''"] by (simp add: dget_Cons)
  moreover have "at = at'" using f [of "''occurred_at''"] by (simp add: dget_Cons)
  moreover have "json_norm pl = json_norm pl'" using f [of "''payload''"] by (simp add: dget_Cons)
  moreover have "p = p'" using f [of "''parent_hash''"] by (simp add: dget_Cons)
  ultimately show ?thesis by blast
qed

lemma row_text_inj:
  assumes "stored_json e" "stored_json e'" "row_text e = row_text e'"
  shows "row_content e = row_content e' \<and> lr_parent_hash e = lr_parent_hash e'"
proof -
  have "wf_json (event_body (lr_event_type x) (lr_occurred_at x) (lr_payload x) (lr_parent_hash x))" if "stored_json x" for x
    using that by (simp add: event_body_def stored_json_def)
  then have "json_norm (event_body (lr_event_type e) (lr_occurred_at e) (lr_payload e) (lr_parent_hash e))
      = json_norm (event_body (lr_event_type e') (lr_occurred_at e') (lr_payload e') (lr_parent_hash e'))"
    using assms canonical_json_inj unfolding row_text_def by blast
  from event_body_norm [OF this] show ?thesis using assms(1,2) by (simp add: row_content_def stored_json_def)
qed

lemma same_head_same_events:
  assumes "chain_from cr zero_hash es = Some q" "chain_from cr zero_hash es' = Some q"
    and "list_all stored_json es" "list_all stored_json es'" "\<not> broken_hash cr es es'"
  shows "map row_content es = map row_content es'"
  using assms
proof (induction es arbitrary: es' q rule: rev_induct)
  case Nil
  then have q: "q = zero_hash" by simp
  show ?case
  proof (cases es' rule: rev_cases)
    case (snoc ys y)
    then show ?thesis using chain_from_hash [OF Nil(2)] Nil(5) q by (auto simp: broken_hash_def)
  qed simp
next
  case (snoc x xs)
  have hx: "sha256_hex cr (row_text x) = q" "chain_from cr zero_hash xs = Some (lr_parent_hash x)"
    using chain_from_hash [OF snoc.prems(1)] by simp_all
  show ?case
  proof (cases es' rule: rev_cases)
    case Nil
    then show ?thesis using snoc.prems(2,5) hx by (auto simp: broken_hash_def)
  next
    case (snoc ys y)
    have hy: "sha256_hex cr (row_text y) = q" "chain_from cr zero_hash ys = Some (lr_parent_hash y)"
      using chain_from_hash [OF snoc.prems(2)] snoc by simp_all
    have "row_text x = row_text y"
      using snoc.prems(5) hx(1) hy(1) snoc by (auto simp: broken_hash_def collision_def)
    then have e: "row_content x = row_content y" "lr_parent_hash x = lr_parent_hash y"
      using row_text_inj [of x y] snoc.prems(3,4) snoc by simp_all
    have "\<not> broken_hash cr xs ys" using snoc.prems(5) snoc by (auto simp: broken_hash_def)
    then have "map row_content xs = map row_content ys"
      using snoc.IH [OF hx(2), of ys] hy(2) e(2) snoc.prems(3,4) snoc by simp
    then show ?thesis using e(1) snoc by simp
  qed
qed

section \<open>The outbox\<close>

definition delivered :: "ledger \<Rightarrow> string set" where
  "delivered db = ob_event_hash ` {r \<in> set (lg_outbox db). ob_state r = ''delivered''}"

text \<open>The service with a log of the heads it accepted.\<close>

definition logged :: "('w \<Rightarrow> anchor_record \<Rightarrow> (string + unit) \<times> 'w) \<Rightarrow> 'w \<times> string list \<Rightarrow> anchor_record
    \<Rightarrow> (string + unit) \<times> 'w \<times> string list" where
  "logged anchor s r = (case anchor (fst s) r of
     (Inl e, w) \<Rightarrow> (Inl e, w, snd s) | (Inr u, w) \<Rightarrow> (Inr u, w, snd s @ [an_event_hash r]))"

lemma delivered_update:
  assumes "\<And>r. ob_event_hash (f r) = ob_event_hash r" "\<And>r. sel r \<Longrightarrow> ob_state (f r) = ''delivered'' \<Longrightarrow> ob_event_hash r \<in> X"
  shows "delivered (outbox_update sel f db) \<subseteq> delivered db \<union> X"
  using assms by (fastforce simp: delivered_def outbox_update_def split: if_splits)

lemma delivered_claim: "delivered (snd (claim_anchor_operations worker limit lease now db)) \<subseteq> delivered db"
proof -
  have "delivered (outbox_update sel (\<lambda>r. r\<lparr>ob_state := ''leased'', ob_attempts := ob_attempts r + 1, ob_lease_owner := a,
      ob_lease_expires_at := b, ob_updated_at := c\<rparr>) db) \<subseteq> delivered db \<union> {}" for sel a b c
    by (rule delivered_update) simp_all
  then show ?thesis by (simp add: claim_anchor_operations_def Let_def)
qed

lemma delivered_release: "delivered (release_anchor_operation h worker err now db) \<subseteq> delivered db"
proof -
  have "delivered (release_anchor_operation h worker err now db) \<subseteq> delivered db \<union> {}"
    unfolding release_anchor_operation_def by (rule delivered_update) simp_all
  then show ?thesis by simp
qed

lemma delivered_complete: "delivered (snd (complete_anchor_operation h worker now db)) \<subseteq> delivered db \<union> {h}"
  unfolding complete_anchor_operation_def snd_conv by (rule delivered_update) (simp_all add: leased_by_def)

lemma delivered_grows:
  assumes "\<And>r. ob_event_hash (f r) = ob_event_hash r" "\<And>r. ob_state (f r) = ''delivered''"
  shows "delivered db \<union> ob_event_hash ` {r \<in> set (lg_outbox db). sel r} \<subseteq> delivered (outbox_update sel f db)"
proof -
  have "h \<in> delivered (outbox_update sel f db)" if r: "r \<in> set (lg_outbox db)" "h = ob_event_hash r"
      "sel r \<or> ob_state r = ''delivered''" for h r
  proof -
    let ?r = "if sel r then f r else r"
    have "?r \<in> set (lg_outbox (outbox_update sel f db))" using r(1) by (simp add: outbox_update_def)
    moreover have "ob_event_hash ?r = h" "ob_state ?r = ''delivered''" using r assms by auto
    ultimately show ?thesis unfolding delivered_def by (intro image_eqI [of h ob_event_hash ?r]) simp_all
  qed
  then show ?thesis unfolding delivered_def [of db] by blast
qed

lemma drain_records_delivered:
  assumes "drain_records (logged anchor) worker now rs n ((w, log), db) = (n', (w', log'), db')"
  shows "set log \<subseteq> set log' \<and> delivered db' \<subseteq> delivered db \<union> set log'"
  using assms
proof (induction rs arbitrary: n w log db)
  case (Cons r rs)
  let ?h = "an_event_hash r"
  show ?case
  proof (cases "fst (anchor w r)")
    case (Inl e)
    then obtain w1 where "logged anchor (w, log) r = (Inl e, w1, log)"
      by (cases "anchor w r") (simp add: logged_def)
    then show ?thesis
      using Cons.prems Cons.IH [of n w1 log "release_anchor_operation ?h worker e now db"] delivered_release by fastforce
  next
    case (Inr u)
    then obtain w1 where a: "logged anchor (w, log) r = (Inr u, w1, log @ [?h])"
      by (cases "anchor w r") (simp add: logged_def)
    obtain c db1 where c: "complete_anchor_operation ?h worker now db = (c, db1)" by fastforce
    then have d: "delivered db1 \<subseteq> delivered db \<union> {?h}" using delivered_complete [of ?h worker now db] by simp
    show ?thesis
    proof (cases c)
      case (Inl e)
      then have "set (log @ [?h]) \<subseteq> set log' \<and>
          delivered db' \<subseteq> delivered (release_anchor_operation ?h worker ''RuntimeError'' now db1) \<union> set log'"
        using Cons.prems a c Cons.IH [of n w1 "log @ [?h]"] by (cases e) simp
      then show ?thesis using d delivered_release by fastforce
    next
      case (Inr v)
      then have "set (log @ [?h]) \<subseteq> set log' \<and> delivered db' \<subseteq> delivered db1 \<union> set log'"
        using Cons.prems a c Cons.IH [of "n + 1" w1 "log @ [?h]"] by simp
      then show ?thesis using d by auto
    qed
  qed
qed auto

text \<open>With a service that accepts everything, every claimed operation is delivered.\<close>

lemma complete_leased:
  assumes "distinct (map ob_event_hash (lg_outbox db))" "r \<in> set (lg_outbox db)" "leased_by (ob_event_hash r) worker r"
  shows "fst (complete_anchor_operation (ob_event_hash r) worker now db) = Inr ()"
proof -
  have "filter (leased_by (ob_event_hash r) worker) rows = (if r \<in> set rows then [r] else [])"
    if "distinct (map ob_event_hash rows)" "set rows \<subseteq> set (lg_outbox db)" for rows
    using that
  proof (induction rows)
    case (Cons x rows)
    have "leased_by (ob_event_hash r) worker x \<longleftrightarrow> x = r"
      using Cons.prems(2) assms by (auto simp: leased_by_def distinct_map inj_on_def)
    then show ?case using Cons by (auto simp: image_iff)
  qed simp
  then show ?thesis using assms by (simp add: complete_anchor_operation_def)
qed

lemma drain_records_all:
  assumes "distinct (map ob_event_hash (lg_outbox db))" "\<And>w r. r \<in> set rs \<Longrightarrow> \<exists>w'. anchor w r = (Inr (), w')"
    and "distinct (map an_event_hash rs)"
    and "\<And>r. r \<in> set rs \<Longrightarrow> \<exists>o' \<in> set (lg_outbox db). leased_by (an_event_hash r) worker o'"
  shows "\<exists>w' db'. drain_records anchor worker now rs n (w, db) = (n + length rs, w', db')
    \<and> delivered db \<union> an_event_hash ` set rs \<subseteq> delivered db'"
  using assms
proof (induction rs arbitrary: n w db)
  case (Cons r rs)
  let ?h = "an_event_hash r"
  obtain w1 where w1: "anchor w r = (Inr (), w1)" using Cons.prems(2) by force
  obtain x where x: "x \<in> set (lg_outbox db)" "leased_by ?h worker x" using Cons.prems(4) by force
  then have h: "ob_event_hash x = ?h" by (simp add: leased_by_def)
  obtain c db1 where c: "complete_anchor_operation ?h worker now db = (c, db1)" by fastforce
  then have ok: "c = Inr ()" using complete_leased [OF Cons.prems(1) x(1), of worker now] x(2) h by simp
  let ?f = "\<lambda>r. if leased_by ?h worker r then r\<lparr>ob_state := ''delivered'', ob_lease_owner := None,
        ob_lease_expires_at := None, ob_last_error := None, ob_updated_at := isoformat (utc now)\<rparr> else r"
  have db1: "lg_outbox db1 = map ?f (lg_outbox db)"
    using c by (auto simp: complete_anchor_operation_def outbox_update_def)
  have hashes: "map ob_event_hash (lg_outbox db1) = map ob_event_hash (lg_outbox db)" unfolding db1 by auto
  have "db1 = outbox_update (leased_by ?h worker) (\<lambda>r. r\<lparr>ob_state := ''delivered'', ob_lease_owner := None,
        ob_lease_expires_at := None, ob_last_error := None, ob_updated_at := isoformat (utc now)\<rparr>) db"
    using c by (auto simp: complete_anchor_operation_def)
  then have "delivered db \<union> ob_event_hash ` {r \<in> set (lg_outbox db). leased_by ?h worker r} \<subseteq> delivered db1"
    by (simp only:) (rule delivered_grows, simp_all)
  then have "?h \<in> delivered db1" "delivered db \<subseteq> delivered db1" using x h by auto
  moreover have "\<exists>o' \<in> set (lg_outbox db1). leased_by (an_event_hash r') worker o'" if "r' \<in> set rs" for r'
  proof -
    obtain o' where o': "o' \<in> set (lg_outbox db)" "leased_by (an_event_hash r') worker o'" using Cons.prems(4) \<open>r' \<in> set rs\<close> by force
    have "an_event_hash r' \<in> an_event_hash ` set rs" using \<open>r' \<in> set rs\<close> by (rule imageI)
    then have "an_event_hash r' \<noteq> ?h" using Cons.prems(3) by (metis distinct.simps(2) list.simps(9) set_map)
    then have "?f o' = o'" using o'(2) by (auto simp: leased_by_def)
    then have "o' \<in> ?f ` set (lg_outbox db)" using o'(1) by (intro image_eqI [of o' ?f o']) simp_all
    then show ?thesis using o'(2) unfolding db1 set_map by (rule bexI [rotated])
  qed
  ultimately show ?case
    using Cons.IH [of db1 "n + 1" w1] Cons.prems(1-3) w1 c ok hashes by fastforce
qed simp

lemma claim_rows_set: "set (claim_rows now n rows) \<subseteq> {r \<in> set rows. claimable now r}"
  unfolding claim_rows_def using set_take_subset by fastforce

lemma claim_rows_distinct: "distinct (map ob_event_hash rows) \<Longrightarrow> distinct (map ob_event_hash (claim_rows now n rows))"
  by (auto simp: claim_rows_def distinct_map inj_on_def intro!: distinct_take dest!: in_set_takeD)

lemma anchor_records:
  assumes "\<forall>r \<in> set rows. \<exists>t. time_of (PStr (ob_occurred_at r)) = Inr t"
  shows "\<exists>recs. map_res anchor_record_of rows = Inr recs \<and> map an_event_hash recs = map ob_event_hash rows"
  using assms
proof (induction rows)
  case (Cons r rows)
  obtain t where "time_of (PStr (ob_occurred_at r)) = Inr t" using Cons.prems by auto
  then have "\<exists>x. anchor_record_of r = Inr x \<and> an_event_hash x = ob_event_hash r" by (simp add: anchor_record_of_def)
  then show ?case using Cons by auto
qed simp

lemma claimed_delivered:
  assumes "distinct (map ob_event_hash (lg_outbox db))" "set rows \<subseteq> {r \<in> set (lg_outbox db). claimable now r}"
  shows "delivered db \<subseteq> delivered (outbox_update (\<lambda>r. ob_event_hash r \<in> set (map ob_event_hash rows)) f db)"
proof
  fix h assume "h \<in> delivered db"
  then obtain r where r: "r \<in> set (lg_outbox db)" "h = ob_event_hash r" "ob_state r = ''delivered''"
    by (auto simp: delivered_def)
  let ?sel = "\<lambda>r. ob_event_hash r \<in> set (map ob_event_hash rows)"
  have "\<not> ?sel r"
  proof
    assume "?sel r"
    then obtain x where "x \<in> set rows" "ob_event_hash x = ob_event_hash r" by auto
    then have "r = x" "claimable now x" using assms r(1) by (auto simp: distinct_map inj_on_def)
    then show False using r(3) by (simp add: claimable_def)
  qed
  then have "r \<in> set (lg_outbox (outbox_update ?sel f db))"
    using r(1) by (simp add: outbox_update_def)
  then show "h \<in> delivered (outbox_update ?sel f db)" using r by (auto simp: delivered_def)
qed

section \<open>Properties\<close>

text \<open>C20: whatever sequence of appends, reopenings and outbox operations a ledger goes through, its hash
  chain verifies up to the recorded head, no two events share a hash, and every event has an entry in
  the outbox.\<close>

theorem ledger_chain_valid:
  assumes "ledger_reachable cr db"
  shows "verify_chain cr db \<and> distinct (map lr_event_hash (lg_events db))
    \<and> set (map lr_event_hash (lg_events db)) \<subseteq> set (map ob_event_hash (lg_outbox db))"
  using ledger_ok_reachable [OF assms] by (simp add: ledger_ok_def)

definition sample_ledger :: ledger where
  "sample_ledger = snd (ledger_append toy_crypto ''run.started'' [(''run_id'', PStr ''r'')] 0 (ledger_open empty_ledger))"

theorem ledger_chain_valid_witness: "verify_chain toy_crypto sample_ledger"
proof -
  have "ledger_reachable toy_crypto sample_ledger" unfolding sample_ledger_def by (intro appended created)
  from ledger_chain_valid [OF this] show ?thesis by blast
qed

text \<open>C21: tamper evidence. Two ledgers that verify and have the same head, for instance an anchored one,
  hold the same events in the same order, unless two of their stored events are a hash collision or
  one of them hashes to the all-zero digest. No event can be changed, dropped, inserted or reordered.\<close>

theorem ledger_tamper_evident:
  assumes "verify_chain cr db" "verify_chain cr db'" "lg_head db = lg_head db'"
    and "list_all stored_json (ledger_events db)" "list_all stored_json (ledger_events db')"
  shows "map row_content (ledger_events db) = map row_content (ledger_events db')
    \<or> broken_hash cr (ledger_events db) (ledger_events db')"
  using same_head_same_events [of cr "ledger_events db" _ "ledger_events db'"] assms
  by (auto simp: verify_chain_def split: option.splits)

theorem ledger_tamper_evident_witness:
  "map row_content (ledger_events sample_ledger) = map row_content (ledger_events (ledger_open sample_ledger))
    \<or> broken_hash toy_crypto (ledger_events sample_ledger) (ledger_events (ledger_open sample_ledger))"
proof -
  have r: "ledger_reachable toy_crypto sample_ledger" unfolding sample_ledger_def by (intro appended created)
  then have ok: "ledger_ok toy_crypto sample_ledger" by (rule ledger_ok_reachable)
  then have same: "ledger_open sample_ledger = sample_ledger" by (rule ledger_open_ok)
  have "list_all stored_json (ledger_events sample_ledger)" by code_simp
  then show ?thesis
    using ok by (intro ledger_tamper_evident) (simp_all add: same ledger_ok_def)
qed

text \<open>The outbox marks a head delivered only after the external service accepted it, whatever the
  service answers and whatever was leased before.\<close>

theorem delivered_was_anchored:
  "case drain (logged anchor) worker limit now ((w, log), db) of
     (_, (w', log'), db') \<Rightarrow> delivered db' \<subseteq> delivered db \<union> set log'"
proof -
  obtain rs db1 where c: "claim_anchor_operations worker limit 120 now db = (rs, db1)" by fastforce
  then have d: "delivered db1 \<subseteq> delivered db" using delivered_claim [of worker limit 120 now db] by simp
  show ?thesis
  proof (cases rs)
    case (Inl e)
    then show ?thesis using c d by (cases e) (auto simp: drain_def)
  next
    case (Inr recs)
    obtain n w' log' db' where r: "drain_records (logged anchor) worker now recs 0 ((w, log), db1) = (n, (w', log'), db')"
      by (metis prod.collapse)
    then show ?thesis using c d Inr drain_records_delivered [OF r] by (auto simp: drain_def)
  qed
qed

text \<open>C22: with a service that accepts every record, one drain delivers the oldest claimable operations,
  as many as its limit allows, and keeps what was delivered before.\<close>

theorem drain_delivers:
  assumes "distinct (map ob_event_hash (lg_outbox db))" "\<not> blank worker" "1 \<le> limit"
    and "\<forall>r \<in> set (lg_outbox db). \<exists>t. time_of (PStr (ob_occurred_at r)) = Inr t"
    and "\<And>w r. \<exists>w'. anchor w r = (Inr (), w')"
  shows "\<exists>w' db'. drain anchor worker limit now (w, db)
      = (Inr (length (claim_rows (isoformat (utc now)) (nat limit) (lg_outbox db))), w', db')
    \<and> delivered db \<union> ob_event_hash ` set (claim_rows (isoformat (utc now)) (nat limit) (lg_outbox db)) \<subseteq> delivered db'"
proof -
  let ?rows = "claim_rows (isoformat (utc now)) (nat limit) (lg_outbox db)"
  have rows: "set ?rows \<subseteq> {r \<in> set (lg_outbox db). claimable (isoformat (utc now)) r}" by (rule claim_rows_set)
  have "\<forall>r \<in> set ?rows. \<exists>t. time_of (PStr (ob_occurred_at r)) = Inr t" using rows assms(4) by blast
  then obtain recs where recs: "map_res anchor_record_of ?rows = Inr recs" "map an_event_hash recs = map ob_event_hash ?rows"
    using anchor_records by blast
  obtain db1 where c: "claim_anchor_operations worker limit 120 now db = (Inr recs, db1)"
    using assms(2,3) recs(1) by (simp add: claim_anchor_operations_def Let_def)
  let ?f = "\<lambda>r. r\<lparr>ob_state := ''leased'', ob_attempts := ob_attempts r + 1, ob_lease_owner := Some worker,
             ob_lease_expires_at := Some (isoformat (utc (now + seconds 120))), ob_updated_at := isoformat (utc now)\<rparr>"
  let ?sel = "\<lambda>r. ob_event_hash r \<in> set (map ob_event_hash ?rows)"
  have db1: "db1 = outbox_update ?sel ?f db"
    using c assms(2,3) by (simp add: claim_anchor_operations_def Let_def)
  have hashes: "map ob_event_hash (lg_outbox db1) = map ob_event_hash (lg_outbox db)"
    unfolding db1 outbox_update_def by auto
  have leased: "\<exists>x \<in> set (lg_outbox db1). leased_by (an_event_hash r) worker x" if "r \<in> set recs" for r
  proof -
    have "an_event_hash r \<in> set (map an_event_hash recs)" using that by simp
    then obtain y where y: "y \<in> set ?rows" "ob_event_hash y = an_event_hash r" unfolding recs(2) by auto
    have "?f y \<in> set (lg_outbox db1)"
      using y(1) rows unfolding db1 outbox_update_def by (auto intro!: image_eqI [of _ _ y])
    moreover have "leased_by (an_event_hash r) worker (?f y)" using y(2) by (simp add: leased_by_def)
    ultimately show ?thesis by blast
  qed
  have dist: "distinct (map an_event_hash recs)" unfolding recs(2) using claim_rows_distinct [OF assms(1)] .
  have "distinct (map ob_event_hash (lg_outbox db1))" unfolding hashes by (rule assms(1))
  from drain_records_all [where anchor = anchor and rs = recs and now = now and n = 0 and w = w, OF this assms(5) dist leased]
  obtain w' db' where d: "drain_records anchor worker now recs 0 (w, db1) = (length recs, w', db')"
    "delivered db1 \<union> an_event_hash ` set recs \<subseteq> delivered db'" by auto
  have "an_event_hash ` set recs = ob_event_hash ` set ?rows" using recs(2) by (metis set_map)
  moreover have "delivered db \<subseteq> delivered db1" unfolding db1 by (rule claimed_delivered [OF assms(1) rows])
  moreover have "length recs = length ?rows" using recs(2) map_eq_imp_length_eq by blast
  ultimately show ?thesis using c d by (auto simp: drain_def)
qed

theorem drain_delivers_witness:
  "\<exists>w' db'. drain (\<lambda>w r. (Inr (), w + 1)) ''w'' 1 0 (0 :: nat, sample_ledger) = (Inr 1, w', db')
    \<and> ob_event_hash ` set (lg_outbox sample_ledger) \<subseteq> delivered db'"
proof -
  let ?rows = "claim_rows (isoformat (utc 0)) (nat 1) (lg_outbox sample_ledger)"
  have rows: "?rows = lg_outbox sample_ledger" "length (lg_outbox sample_ledger) = 1"
    "distinct (map ob_event_hash (lg_outbox sample_ledger))" "\<not> blank ''w''"
    "list_all (\<lambda>r. case time_of (PStr (ob_occurred_at r)) of Inr t \<Rightarrow> True | Inl e \<Rightarrow> False) (lg_outbox sample_ledger)"
    by code_simp+
  have "\<forall>r \<in> set (lg_outbox sample_ledger). \<exists>t. time_of (PStr (ob_occurred_at r)) = Inr t"
  proof
    fix r assume "r \<in> set (lg_outbox sample_ledger)"
    then show "\<exists>t. time_of (PStr (ob_occurred_at r)) = Inr t"
      using rows(5) by (cases "time_of (PStr (ob_occurred_at r))") (auto simp: list_all_iff)
  qed
  from drain_delivers [OF rows(3,4) _ this, of 1 "\<lambda>w r. (Inr (), w + 1)" 0 "0 :: nat"] show ?thesis
    using rows(1,2) by auto
qed

end
