(* ===== verification/Codec.thy ===== *)
theory Codec
  imports Completion Idempotency
begin

text \<open>
  The JSON encodings of \<open>src/vloop/run_state.py\<close>: intents, reports, observations, prepared
  executions and evidence, as written to and read from a checkpoint. A text column holds the
  value its text parses to, so writing is \<open>json_norm\<close>. Reading raises where the constructors do;
  a field of another JSON type than the encoder writes is a \<open>TypeError\<close>.
\<close>

section \<open>Readers\<close>

definition fld :: "pydict \<Rightarrow> string \<Rightarrow> (pyval \<Rightarrow> 'a res) \<Rightarrow> 'a res" where
  "fld d k f = bnd (dreq d k) f"

definition fld_or :: "pydict \<Rightarrow> string \<Rightarrow> pyval \<Rightarrow> (pyval \<Rightarrow> 'a res) \<Rightarrow> 'a res" where
  "fld_or d k v f = f (ddef d k v)"

definition enum_of :: "('e \<Rightarrow> string) \<Rightarrow> 'e list \<Rightarrow> pyval \<Rightarrow> 'e res" where
  "enum_of value es v =
     (case v of
        PStr s \<Rightarrow> (case find (\<lambda>e. value e = s) es of
            None \<Rightarrow> Inl (ValueError, repr_str s @ '' is not a valid member'') | Some e \<Rightarrow> Inr e)
      | _ \<Rightarrow> Inl (ValueError, ''not a valid member''))"

definition effect_of :: "pyval \<Rightarrow> effect res" where
  "effect_of = enum_of effect_value [READ, WRITE, EXECUTE, NETWORK, DELETE, PUBLISH]"

definition provenance_of :: "pyval \<Rightarrow> provenance res" where
  "provenance_of = enum_of provenance_value [USER, TRUSTED_REPOSITORY, UNTRUSTED_RETRIEVAL, TOOL_OUTPUT, VERIFIED_MEMORY]"

definition check_status_of :: "pyval \<Rightarrow> check_status res" where
  "check_status_of = enum_of check_status_value [PASS, FAIL, INCONCLUSIVE]"

fun opt_str_of :: "pyval \<Rightarrow> string option res" where
  "opt_str_of PNone = Inr None"
| "opt_str_of (PStr s) = Inr (Some s)"
| "opt_str_of v = Inl (TypeError, ''expected a string or None'')"

definition list_dec :: "(pyval \<Rightarrow> 'a res) \<Rightarrow> pyval \<Rightarrow> 'a list res" where
  "list_dec f v = bnd (list_of v) (map_res f)"

definition dict_dec :: "(pyval \<Rightarrow> 'a res) \<Rightarrow> pyval \<Rightarrow> (string \<times> 'a) list res" where
  "dict_dec f v = bnd (dict_of v) (map_res (\<lambda>(k, x). bnd (f x) (\<lambda>y. Inr (k, y))))"

lemma enum_effect [simp]: "effect_of (PStr (effect_value e)) = Inr e"
  by (cases e) (simp_all add: effect_of_def enum_of_def)

lemma enum_provenance [simp]: "provenance_of (PStr (provenance_value p)) = Inr p"
  by (cases p) (simp_all add: provenance_of_def enum_of_def)

lemma enum_check_status [simp]: "check_status_of (PStr (check_status_value c)) = Inr c"
  by (cases c) (simp_all add: check_status_of_def enum_of_def)

lemma map_res_map: "(\<And>x. x \<in> set xs \<Longrightarrow> f (g x) = Inr (h x)) \<Longrightarrow> map_res f (map g xs) = Inr (map h xs)"
  by (induction xs) auto

lemma list_dec_norm:
  assumes "\<And>x. x \<in> set xs \<Longrightarrow> f (json_norm (enc x)) = Inr (h x)"
  shows "list_dec f (json_norm (PList (map enc xs))) = Inr (map h xs)"
  using map_res_map [of xs f "json_norm \<circ> enc" h] assms by (simp add: list_dec_def comp_def)

lemma norm_dict_map: "norm_dict (map (\<lambda>(k, x). (k, f x)) d) = map (\<lambda>(k, x). (k, json_norm (f x))) (sort_dict d)"
proof -
  have "map (\<lambda>(k, v). (k, json_norm v)) (map (\<lambda>(k, x). (k, f x)) d) = map (\<lambda>(k, x). (k, json_norm (f x))) d"
    by (induction d) auto
  then show ?thesis by (simp only: norm_dict_def sort_dict_map)
qed

lemma set_sort_dict [simp]: "set (sort_dict d) = set d"
  by (simp add: sort_dict_def)

lemma dict_dec_norm:
  assumes "\<And>k x. (k, x) \<in> set d \<Longrightarrow> f (json_norm (enc x)) = Inr (h x)"
  shows "dict_dec f (json_norm (PDict (map (\<lambda>(k, x). (k, enc x)) d))) = Inr (map (\<lambda>(k, x). (k, h x)) (sort_dict d))"
proof -
  have "map_res (\<lambda>(k, x). bnd (f x) (\<lambda>y. Inr (k, y))) (map (\<lambda>(k, x). (k, json_norm (enc x))) (sort_dict d))
      = Inr (map (\<lambda>(k, x). (k, h x)) (sort_dict d))"
    using assms by (intro map_res_map) auto
  then show ?thesis unfolding dict_dec_def json_norm_PDict norm_dict_map by simp
qed

text \<open>Reading a field of an encoded dictionary.\<close>

lemma fld_norm [simp]: "fld (norm_dict d) k f = (case dget d k of None \<Rightarrow> Inl (KeyError, repr_str k) | Some v \<Rightarrow> f (json_norm v))"
  by (simp add: fld_def dreq_def dget_norm_dict split: option.splits)

lemma fld_or_norm [simp]: "fld_or (norm_dict d) k v f = f (case dget d k of None \<Rightarrow> v | Some x \<Rightarrow> json_norm x)"
  by (simp add: fld_or_def ddef_def dget_norm_dict split: option.splits)

section \<open>Intents\<close>

definition encode_node :: "prov_node \<Rightarrow> pyval" where
  "encode_node n = PDict [(''node_id'', PStr (pn_node_id n)), (''provenance'', PStr (provenance_value (pn_provenance n))),
     (''source_id'', PStr (pn_source_id n)), (''content_digest'', PStr (pn_content_digest n)),
     (''parent_ids'', PList (map PStr (pn_parent_ids n)))]"

definition encode_graph :: "argument_provenance \<Rightarrow> pyval" where
  "encode_graph g = PDict [(''value_digest'', PStr (ap_value_digest g)), (''nodes'', PList (map encode_node (ap_nodes g)))]"

definition encode_provenances :: "provenance list \<Rightarrow> pyval" where
  "encode_provenances ps = PList (map (PStr \<circ> provenance_value) ps)"

definition encode_intent :: "action_intent \<Rightarrow> pyval" where
  "encode_intent i = PDict
     [(''tool'', PStr (in_tool i)), (''effect'', PStr (effect_value (in_effect i))), (''target'', PStr (in_target i)),
      (''arguments'', PDict (in_arguments i)), (''provenance'', encode_provenances (in_provenance i)),
      (''explanation'', PStr (in_explanation i)), (''contract_id'', PStr (in_contract_id i)),
      (''contract_version'', PInt (in_contract_version i)), (''idempotency_key'', PStr (in_idempotency_key i)),
      (''argument_provenance'', PDict (map (\<lambda>(k, ps). (k, encode_provenances ps)) (in_argument_provenance i))),
      (''argument_provenance_graph'', PDict (map (\<lambda>(k, g). (k, encode_graph g)) (in_argument_provenance_graph i)))]"

definition decode_node :: "pyval \<Rightarrow> prov_node res" where
  "decode_node v = bnd (dict_of v) (\<lambda>d.
     bnd (fld d ''node_id'' str_of) (\<lambda>nid. bnd (fld d ''provenance'' provenance_of) (\<lambda>p.
     bnd (fld d ''source_id'' str_of) (\<lambda>src. bnd (fld d ''content_digest'' str_of) (\<lambda>dig.
     bnd (fld_or d ''parent_ids'' (PTuple []) strs_of) (\<lambda>ps.
     prov_node_init \<lparr>pn_node_id = nid, pn_provenance = p, pn_source_id = src, pn_content_digest = dig, pn_parent_ids = ps\<rparr>))))))"

definition decode_graph :: "pyval \<Rightarrow> argument_provenance res" where
  "decode_graph v = bnd (dict_of v) (\<lambda>d.
     bnd (fld d ''value_digest'' str_of) (\<lambda>dig. bnd (fld d ''nodes'' (list_dec decode_node)) (\<lambda>ns.
     argument_provenance_init \<lparr>ap_value_digest = dig, ap_nodes = ns\<rparr>)))"

definition decode_provenances :: "pyval \<Rightarrow> provenance list res" where
  "decode_provenances = list_dec provenance_of"

definition decode_intent :: "crypto \<Rightarrow> pyval \<Rightarrow> action_intent res" where
  "decode_intent cr v = bnd (dict_of v) (\<lambda>d.
     bnd (fld_or d ''argument_provenance_graph'' (PDict []) (dict_dec decode_graph)) (\<lambda>graphs.
     bnd (fld d ''tool'' str_of) (\<lambda>tool. bnd (fld d ''effect'' effect_of) (\<lambda>eff.
     bnd (fld d ''target'' str_of) (\<lambda>target. bnd (fld d ''arguments'' dict_of) (\<lambda>args.
     bnd (fld d ''provenance'' decode_provenances) (\<lambda>prov. bnd (fld d ''explanation'' str_of) (\<lambda>expl.
     bnd (fld d ''contract_id'' str_of) (\<lambda>cid. bnd (fld d ''contract_version'' int_of) (\<lambda>ver.
     bnd (fld d ''idempotency_key'' str_of) (\<lambda>key.
     bnd (fld_or d ''argument_provenance'' (PDict []) (dict_dec decode_provenances)) (\<lambda>aprov.
     action_intent_init cr \<lparr>in_tool = tool, in_effect = eff, in_target = target, in_arguments = args, in_provenance = prov,
       in_explanation = expl, in_contract_id = cid, in_contract_version = ver, in_idempotency_key = key,
       in_argument_provenance = aprov, in_argument_provenance_graph = graphs\<rparr>))))))))))))"

text \<open>What an intent is when it comes back: its dictionaries are sorted, its arguments normalised.\<close>

definition norm_intent :: "action_intent \<Rightarrow> action_intent" where
  "norm_intent i = i\<lparr>in_arguments := norm_dict (in_arguments i), in_argument_provenance := sort_dict (in_argument_provenance i),
     in_argument_provenance_graph := sort_dict (in_argument_provenance_graph i)\<rparr>"

text \<open>An intent that was built by the constructors.\<close>

definition built_intent :: "crypto \<Rightarrow> action_intent \<Rightarrow> bool" where
  "built_intent cr i \<longleftrightarrow> intent_ok cr i
     \<and> (\<forall>(k, g) \<in> set (in_argument_provenance_graph i). argument_provenance_init g = Inr g
          \<and> list_all (\<lambda>n. prov_node_init n = Inr n) (ap_nodes g))"

lemma decode_node_encode: "prov_node_init n = Inr n \<Longrightarrow> decode_node (json_norm (encode_node n)) = Inr n"
  unfolding encode_node_def json_norm_PDict decode_node_def
  by (cases n) (simp add: dget_Cons comp_def)

lemma decode_graph_encode:
  assumes "argument_provenance_init g = Inr g" "list_all (\<lambda>n. prov_node_init n = Inr n) (ap_nodes g)"
  shows "decode_graph (json_norm (encode_graph g)) = Inr g"
proof -
  have "list_dec decode_node (json_norm (PList (map encode_node (ap_nodes g)))) = Inr (map (\<lambda>n. n) (ap_nodes g))"
    using assms(2) by (intro list_dec_norm decode_node_encode) (simp add: list_all_iff)
  then show ?thesis
    using assms(1) unfolding encode_graph_def json_norm_PDict decode_graph_def
    by (cases g) (simp add: dget_Cons del: json_norm.simps(1))
qed

lemma decode_provenances_encode [simp]: "decode_provenances (json_norm (encode_provenances ps)) = Inr ps"
  unfolding encode_provenances_def decode_provenances_def
  using list_dec_norm [of ps provenance_of "PStr \<circ> provenance_value" "\<lambda>p. p"] by simp

lemma intent_ok_norm: "intent_ok cr i \<Longrightarrow> intent_ok cr (norm_intent i)"
  by (fastforce simp: intent_ok_def norm_intent_def dget_norm_dict digest_norm)

lemma decode_intent_encode:
  assumes "built_intent cr i"
  shows "decode_intent cr (json_norm (encode_intent i)) = Inr (norm_intent i)"
proof -
  have ok: "action_intent_init cr (norm_intent i) = Inr (norm_intent i)"
    using assms intent_ok_norm by (simp add: action_intent_init_iff built_intent_def)
  have graphs: "dict_dec decode_graph (json_norm (PDict (map (\<lambda>(k, g). (k, encode_graph g)) (in_argument_provenance_graph i))))
      = Inr (map (\<lambda>(k, g). (k, g)) (sort_dict (in_argument_provenance_graph i)))"
    using assms by (intro dict_dec_norm decode_graph_encode) (auto simp: built_intent_def)
  have provs: "dict_dec decode_provenances (json_norm (PDict (map (\<lambda>(k, ps). (k, encode_provenances ps)) (in_argument_provenance i))))
      = Inr (map (\<lambda>(k, ps). (k, ps)) (sort_dict (in_argument_provenance i)))"
    by (intro dict_dec_norm) simp
  have args: "json_norm (PDict (in_arguments i)) = PDict (norm_dict (in_arguments i))" by (rule json_norm_PDict)
  have eta: "norm_intent i = \<lparr>in_tool = in_tool i, in_effect = in_effect i, in_target = in_target i,
      in_arguments = norm_dict (in_arguments i), in_provenance = in_provenance i, in_explanation = in_explanation i,
      in_contract_id = in_contract_id i, in_contract_version = in_contract_version i, in_idempotency_key = in_idempotency_key i,
      in_argument_provenance = sort_dict (in_argument_provenance i),
      in_argument_provenance_graph = sort_dict (in_argument_provenance_graph i)\<rparr>"
    by (cases i) (simp add: norm_intent_def)
  show ?thesis
    using ok unfolding encode_intent_def decode_intent_def json_norm_PDict [of "(''tool'', _) # _"] eta
    by (simp add: dget_Cons graphs provs args del: json_norm.simps(1,3))
qed

text \<open>The digest of an intent does not change on the way.\<close>

lemma json_norm_PDict_cong:
  "list_all2 (\<lambda>p q. fst p = fst q \<and> json_norm (snd p) = json_norm (snd q)) d d' \<Longrightarrow> json_norm (PDict d) = json_norm (PDict d')"
proof -
  assume "list_all2 (\<lambda>p q. fst p = fst q \<and> json_norm (snd p) = json_norm (snd q)) d d'"
  then have "map (\<lambda>(k, v). (k, json_norm v)) d = map (\<lambda>(k, v). (k, json_norm v)) d'"
    by (induction rule: list_all2_induct) auto
  then show ?thesis unfolding json_norm_PDict norm_dict_def by simp
qed

lemma norm_dict_sorted_map:
  "json_norm (PDict (map (\<lambda>(k, x). (k, f x)) (sort_dict d))) = json_norm (PDict (map (\<lambda>(k, x). (k, f x)) d))"
  unfolding json_norm_PDict norm_dict_map by simp

lemma intent_digest_norm [simp]: "intent_digest cr (norm_intent i) = intent_digest cr i"
proof -
  have "json_norm (action_intent_py (norm_intent i)) = json_norm (action_intent_py i)"
    unfolding action_intent_py_def
    by (rule json_norm_PDict_cong)
      (simp add: norm_intent_def norm_dict_sorted_map json_norm_PDict [of "in_arguments i"]
        json_norm_PDict [of "norm_dict (in_arguments i)"] del: json_norm.simps(3))
  then show ?thesis unfolding intent_digest_def by (metis digest_norm)
qed

section \<open>Reports, prepared executions and evidence\<close>

definition encode_check :: "check_result \<Rightarrow> pyval" where
  "encode_check c = PDict [(''name'', PStr (cr_name c)), (''status'', PStr (check_status_value (cr_status c))),
     (''evidence'', PDict (cr_evidence c)), (''message'', PStr (cr_message c))]"

definition encode_report :: "verification_report \<Rightarrow> pyval" where
  "encode_report r = PDict [(''correctness'', PStr (check_status_value (vr_correctness r))),
     (''policy'', PStr (check_status_value (vr_policy r))), (''evidence'', PStr (check_status_value (vr_evidence r))),
     (''quality'', PStr (check_status_value (vr_quality r))), (''checks'', PList (map encode_check (vr_checks r)))]"

definition text_of :: "pyval \<Rightarrow> string res" where
  "text_of v = Inr (py_str v)"

definition decode_check :: "pyval \<Rightarrow> check_result res" where
  "decode_check v = bnd (dict_of v) (\<lambda>d.
     bnd (fld d ''name'' text_of) (\<lambda>n. bnd (fld d ''status'' check_status_of) (\<lambda>st.
     bnd (fld d ''evidence'' dict_of) (\<lambda>ev. bnd (fld_or d ''message'' (PStr []) text_of) (\<lambda>msg.
     Inr \<lparr>cr_name = n, cr_status = st, cr_evidence = ev, cr_message = msg\<rparr>)))))"

definition decode_report :: "pyval \<Rightarrow> verification_report res" where
  "decode_report v = bnd (dict_of v) (\<lambda>d.
     bnd (fld d ''correctness'' check_status_of) (\<lambda>c. bnd (fld d ''policy'' check_status_of) (\<lambda>p.
     bnd (fld d ''evidence'' check_status_of) (\<lambda>e. bnd (fld d ''quality'' check_status_of) (\<lambda>q.
     bnd (fld d ''checks'' (list_dec decode_check)) (\<lambda>cs.
     Inr \<lparr>vr_correctness = c, vr_policy = p, vr_evidence = e, vr_quality = q, vr_checks = cs\<rparr>))))))"

definition encode_prepared :: "prepared_execution \<Rightarrow> pyval" where
  "encode_prepared p = PDict [(''operation_id'', PStr (pe_operation_id p)), (''executor_id'', PStr (pe_executor_id p)),
     (''intent_digest'', PStr (pe_intent_digest p)), (''request_digest'', PStr (pe_request_digest p)),
     (''remote_job_id'', PStr (pe_remote_job_id p)), (''graph_digest'', PStr (pe_graph_digest p)),
     (''graph_node_id'', PStr (pe_graph_node_id p))]"

definition decode_prepared :: "pyval \<Rightarrow> prepared_execution res" where
  "decode_prepared v = bnd (dict_of v) (\<lambda>d.
     bnd (fld d ''operation_id'' text_of) (\<lambda>a. bnd (fld d ''executor_id'' text_of) (\<lambda>b.
     bnd (fld d ''intent_digest'' text_of) (\<lambda>c. bnd (fld d ''request_digest'' text_of) (\<lambda>r.
     bnd (fld d ''remote_job_id'' text_of) (\<lambda>j. bnd (fld_or d ''graph_digest'' (PStr []) text_of) (\<lambda>g.
     bnd (fld_or d ''graph_node_id'' (PStr []) text_of) (\<lambda>n.
     prepared_execution_init \<lparr>pe_operation_id = a, pe_executor_id = b, pe_intent_digest = c, pe_request_digest = r,
       pe_remote_job_id = j, pe_graph_digest = g, pe_graph_node_id = n\<rparr>))))))))"

definition opt_str_py :: "string option \<Rightarrow> pyval" where
  "opt_str_py x = (case x of None \<Rightarrow> PNone | Some s \<Rightarrow> PStr s)"

definition encode_action :: "action_evidence \<Rightarrow> pyval" where
  "encode_action a = PDict [(''sequence'', PInt (ae_sequence a)), (''intent_digest'', PStr (ae_intent_digest a)),
     (''artifact_digests'', PDict (map (\<lambda>(k, v). (k, PStr v)) (ae_artifact_digests a))),
     (''source_state_digest'', opt_str_py (ae_source_state_digest a)), (''report'', encode_report (ae_report a))]"

definition encode_evidence :: "evidence_snapshot \<Rightarrow> pyval" where
  "encode_evidence e = PList (map encode_action (es_actions e))"

definition decode_action :: "pyval \<Rightarrow> action_evidence res" where
  "decode_action v = bnd (dict_of v) (\<lambda>d.
     bnd (fld d ''sequence'' int_of) (\<lambda>n. bnd (fld d ''intent_digest'' text_of) (\<lambda>i.
     bnd (fld d ''artifact_digests'' str_dict_of) (\<lambda>arts. bnd (fld_or d ''source_state_digest'' PNone opt_str_of) (\<lambda>src.
     bnd (fld d ''report'' decode_report) (\<lambda>r.
     Inr \<lparr>ae_sequence = n, ae_intent_digest = i, ae_artifact_digests = arts, ae_source_state_digest = src, ae_report = r\<rparr>))))))"

definition decode_evidence :: "string \<Rightarrow> pyval \<Rightarrow> evidence_snapshot res" where
  "decode_evidence run v = bnd (list_dec decode_action v) (\<lambda>acts. Inr \<lparr>es_run_id = run, es_actions = acts\<rparr>)"

definition norm_check :: "check_result \<Rightarrow> check_result" where
  "norm_check c = c\<lparr>cr_evidence := norm_dict (cr_evidence c)\<rparr>"

definition norm_report :: "verification_report \<Rightarrow> verification_report" where
  "norm_report r = r\<lparr>vr_checks := map norm_check (vr_checks r)\<rparr>"

definition norm_action :: "action_evidence \<Rightarrow> action_evidence" where
  "norm_action a = a\<lparr>ae_artifact_digests := sort_dict (ae_artifact_digests a), ae_report := norm_report (ae_report a)\<rparr>"

definition norm_evidence :: "evidence_snapshot \<Rightarrow> evidence_snapshot" where
  "norm_evidence e = e\<lparr>es_actions := map norm_action (es_actions e)\<rparr>"

lemma text_of_PStr [simp]: "text_of (PStr s) = Inr s"
  by (simp add: text_of_def)

lemma decode_check_encode: "decode_check (json_norm (encode_check c)) = Inr (norm_check c)"
  unfolding encode_check_def json_norm_PDict decode_check_def
  by (cases c) (simp add: dget_Cons norm_check_def json_norm_PDict del: json_norm.simps(3))

lemma decode_report_encode: "decode_report (json_norm (encode_report r)) = Inr (norm_report r)"
  using list_dec_norm [of "vr_checks r" decode_check encode_check norm_check, OF decode_check_encode]
  unfolding encode_report_def json_norm_PDict decode_report_def
  by (cases r) (simp add: dget_Cons norm_report_def del: json_norm.simps(1))

lemma decode_prepared_encode:
  "prepared_execution_init p = Inr p \<Longrightarrow> decode_prepared (json_norm (encode_prepared p)) = Inr p"
  unfolding encode_prepared_def json_norm_PDict decode_prepared_def by (cases p) (simp add: dget_Cons)

lemma opt_str_of_norm [simp]: "opt_str_of (json_norm (opt_str_py x)) = Inr x"
  by (cases x) (simp_all add: opt_str_py_def)

lemma decode_action_encode: "decode_action (json_norm (encode_action a)) = Inr (norm_action a)"
  unfolding encode_action_def json_norm_PDict decode_action_def
  by (cases a) (simp add: dget_Cons norm_action_def decode_report_encode json_norm_PDict norm_dict_strs del: json_norm.simps(3))

lemma decode_evidence_encode: "decode_evidence (es_run_id e) (json_norm (encode_evidence e)) = Inr (norm_evidence e)"
  using list_dec_norm [of "es_actions e" decode_action encode_action norm_action, OF decode_action_encode]
  unfolding encode_evidence_def decode_evidence_def by (cases e) (simp add: norm_evidence_def)
end
