(* ===== verification/Run_State.thy ===== *)
theory Run_State
  imports Codec Once_Store
begin

text \<open>
  \<open>src/vloop/run_state.py\<close>: controller checkpoints and their optimistically versioned SQLite
  store. The table is an association list from run ids to rows; a row's columns are nullable as in
  the schema, its JSON columns hold values.
\<close>

section \<open>Checkpoints\<close>

datatype run_phase = READY | PENDING_AUTHORIZATION | PENDING_EFFECT | AWAITING_APPROVAL
  | RECONCILIATION_REQUIRED | RECONCILED_EFFECT | TERMINAL

primrec run_phase_value :: "run_phase \<Rightarrow> string" where
  "run_phase_value READY = ''ready''"
| "run_phase_value PENDING_AUTHORIZATION = ''pending-authorization''"
| "run_phase_value PENDING_EFFECT = ''pending-effect''"
| "run_phase_value AWAITING_APPROVAL = ''awaiting-approval''"
| "run_phase_value RECONCILIATION_REQUIRED = ''reconciliation-required''"
| "run_phase_value RECONCILED_EFFECT = ''reconciled-effect''"
| "run_phase_value TERMINAL = ''terminal''"

definition run_phase_of :: "pyval \<Rightarrow> run_phase res" where
  "run_phase_of = enum_of run_phase_value [READY, PENDING_AUTHORIZATION, PENDING_EFFECT, AWAITING_APPROVAL,
     RECONCILIATION_REQUIRED, RECONCILED_EFFECT, TERMINAL]"

lemma enum_run_phase [simp]: "run_phase_of (PStr (run_phase_value p)) = Inr p"
  by (cases p) (simp_all add: run_phase_of_def enum_of_def)

record checkpoint =
  ck_run_id :: string
  ck_contract_digest :: string
  ck_phase :: run_phase
  ck_next_iteration :: int
  ck_tool_calls :: int
  ck_history :: "pydict list"
  ck_seen_failures :: "(string \<times> string) list"
  ck_evidence :: evidence_snapshot
  ck_graph_digest :: string
  ck_pending_intent :: "action_intent option"
  ck_executor_id :: string
  ck_prepared :: "prepared_execution option"
  ck_reconciled :: "observation option"
  ck_terminal_decision :: "string option"
  ck_terminal_reason :: "string option"
  ck_revision :: int
  ck_updated_at :: dtime

definition pending_phase :: "run_phase \<Rightarrow> bool" where
  "pending_phase p \<longleftrightarrow> p \<in> {PENDING_AUTHORIZATION, PENDING_EFFECT, AWAITING_APPROVAL, RECONCILIATION_REQUIRED, RECONCILED_EFFECT}"

definition effect_phase :: "run_phase \<Rightarrow> bool" where
  "effect_phase p \<longleftrightarrow> p \<in> {PENDING_EFFECT, RECONCILIATION_REQUIRED, RECONCILED_EFFECT}"

definition empty_text :: "string option \<Rightarrow> bool" where
  "empty_text t \<longleftrightarrow> t = None \<or> t = Some []"

definition prepared_error :: "crypto \<Rightarrow> checkpoint \<Rightarrow> (exc \<times> string) option" where
  "prepared_error cr c =
     (if effect_phase (ck_phase c) then
        (case ck_prepared c of
           None \<Rightarrow> Some (ValueError, ''effect checkpoints need a prepared operation'')
         | Some p \<Rightarrow>
             if pe_executor_id p \<noteq> ck_executor_id c
             then Some (ValueError, ''prepared execution belongs to another executor'')
             else if (case ck_pending_intent c of None \<Rightarrow> False | Some i \<Rightarrow> pe_intent_digest p \<noteq> intent_digest cr i)
             then Some (ValueError, ''prepared execution belongs to another intent'')
             else if ck_graph_digest c \<noteq> [] \<and>
               (pe_graph_digest p \<noteq> ck_graph_digest c \<or> pe_graph_node_id p \<noteq> ''operation.prepared'')
             then Some (ValueError, ''prepared execution is not bound to this checkpoint graph'') else None)
      else if ck_prepared c \<noteq> None then Some (ValueError, ''only effect checkpoints may retain a prepared operation'')
      else None)"

definition terminal_error :: "checkpoint \<Rightarrow> (exc \<times> string) option" where
  "terminal_error c =
     (if ck_phase c = TERMINAL then
        (if empty_text (ck_terminal_decision c) \<or> empty_text (ck_terminal_reason c)
         then Some (ValueError, ''terminal checkpoints need a decision and reason'') else None)
      else if ck_terminal_decision c \<noteq> None \<or> ck_terminal_reason c \<noteq> None
      then Some (ValueError, ''non-terminal checkpoint cannot have a terminal result'') else None)"

definition checkpoint_init :: "crypto \<Rightarrow> checkpoint \<Rightarrow> checkpoint res" where
  "checkpoint_init cr c =
     (if blank (ck_run_id c) \<or> blank (ck_contract_digest c)
      then Inl (ValueError, ''run checkpoints need a run and contract identity'')
      else if ck_graph_digest c \<noteq> [] \<and> \<not> sha256_shape (ck_graph_digest c)
      then Inl (ValueError, ''run checkpoint graph digest must be SHA-256 hex'')
      else if ck_next_iteration c < 1 \<or> ck_tool_calls c < 0 \<or> ck_revision c < 0
      then Inl (ValueError, ''run checkpoint counters are invalid'')
      else if es_run_id (ck_evidence c) \<noteq> ck_run_id c
      then Inl (ValueError, ''run checkpoint evidence belongs to another run'')
      else if pending_phase (ck_phase c) \<and> ck_pending_intent c = None
      then Inl (ValueError, ''pending run checkpoints need their exact intent'')
      else if pending_phase (ck_phase c) \<and> blank (ck_executor_id c)
      then Inl (ValueError, ''pending run checkpoints need their intended executor'')
      else case prepared_error cr c of Some e \<Rightarrow> Inl e
      | None \<Rightarrow>
        if \<not> pending_phase (ck_phase c) \<and> (ck_pending_intent c \<noteq> None \<or> ck_executor_id c \<noteq> [])
        then Inl (ValueError, ''only a pending checkpoint may retain an intent'')
        else if ck_phase c = RECONCILED_EFFECT \<and> ck_reconciled c = None
        then Inl (ValueError, ''reconciled effects need an attested observation'')
        else if ck_phase c \<noteq> RECONCILED_EFFECT \<and> ck_reconciled c \<noteq> None
        then Inl (ValueError, ''only reconciled effects may retain an observation'')
        else case terminal_error c of Some e \<Rightarrow> Inl e | None \<Rightarrow> Inr c)"

section \<open>The store\<close>

record checkpoint_row =
  kr_contract_digest :: string
  kr_graph_digest :: "string option"
  kr_phase :: string
  kr_next_iteration :: int
  kr_tool_calls :: int
  kr_history :: pyval
  kr_seen_failures :: pyval
  kr_evidence :: pyval
  kr_pending_intent :: "pyval option"
  kr_executor_id :: "string option"
  kr_prepared :: "pyval option"
  kr_reconciled :: "pyval option"
  kr_terminal_decision :: "string option"
  kr_terminal_reason :: "string option"
  kr_revision :: int
  kr_updated_at :: string

type_synonym run_db = "(string \<times> checkpoint_row) list"

definition some_text :: "string \<Rightarrow> string option" where
  "some_text s = (if s = [] then None else Some s)"

definition text_or_empty :: "string option \<Rightarrow> string" where
  "text_or_empty t = (case t of None \<Rightarrow> [] | Some s \<Rightarrow> s)"

definition row_of :: "checkpoint \<Rightarrow> int \<Rightarrow> int \<Rightarrow> checkpoint_row" where
  "row_of c revision now = \<lparr>kr_contract_digest = ck_contract_digest c, kr_graph_digest = some_text (ck_graph_digest c),
     kr_phase = run_phase_value (ck_phase c), kr_next_iteration = ck_next_iteration c, kr_tool_calls = ck_tool_calls c,
     kr_history = json_norm (PTuple (map PDict (ck_history c))),
     kr_seen_failures = json_norm (PTuple (map (\<lambda>(a, b). PTuple [PStr a, PStr b]) (ck_seen_failures c))),
     kr_evidence = json_norm (encode_evidence (ck_evidence c)),
     kr_pending_intent = map_option (json_norm \<circ> encode_intent) (ck_pending_intent c),
     kr_executor_id = some_text (ck_executor_id c),
     kr_prepared = map_option (json_norm \<circ> encode_prepared) (ck_prepared c),
     kr_reconciled = map_option encode_observation (ck_reconciled c),
     kr_terminal_decision = ck_terminal_decision c, kr_terminal_reason = ck_terminal_reason c,
     kr_revision = revision, kr_updated_at = isoformat (utc now)\<rparr>"

definition run_save :: "crypto \<Rightarrow> run_db \<Rightarrow> checkpoint \<times> int \<Rightarrow> checkpoint res \<times> run_db" where
  "run_save cr db q =
     (case q of (c, now) \<Rightarrow>
      case dget db (ck_run_id c) of
        None \<Rightarrow>
          if ck_revision c \<noteq> 0 then (Inl (RunStateConflict, ''run checkpoint was deleted or replaced''), db)
          else (checkpoint_init cr (c\<lparr>ck_revision := 1, ck_updated_at := utc now\<rparr>), db @ [(ck_run_id c, row_of c 1 now)])
      | Some r \<Rightarrow>
          if kr_revision r \<noteq> ck_revision c then (Inl (RunStateConflict, ''run checkpoint has a newer revision''), db)
          else (checkpoint_init cr (c\<lparr>ck_revision := ck_revision c + 1, ck_updated_at := utc now\<rparr>),
                AList.update (ck_run_id c) (row_of c (ck_revision c + 1) now) db))"

text \<open>A seen failure is read as a pair; the encoder writes no other tuples.\<close>

definition pair_of :: "pyval \<Rightarrow> (string \<times> string) res" where
  "pair_of v = bnd (strs_of v) (\<lambda>xs. case xs of [a, b] \<Rightarrow> Inr (a, b) | _ \<Rightarrow> Inl (TypeError, ''expected a pair''))"

definition opt_dec :: "(pyval \<Rightarrow> 'a res) \<Rightarrow> pyval option \<Rightarrow> 'a option res" where
  "opt_dec f v = (case v of None \<Rightarrow> Inr None | Some x \<Rightarrow> bnd (f x) (\<lambda>y. Inr (Some y)))"

definition decode_stored_observation :: "pyval \<Rightarrow> observation res" where
  "decode_stored_observation v = decode_observation (Some v)"

definition run_load :: "crypto \<Rightarrow> run_db \<Rightarrow> string \<Rightarrow> checkpoint option res" where
  "run_load cr db run =
     (case dget db run of
        None \<Rightarrow> Inr None
      | Some r \<Rightarrow>
          bnd (run_phase_of (PStr (kr_phase r))) (\<lambda>phase.
          bnd (list_dec dict_of (kr_history r)) (\<lambda>history.
          bnd (list_dec pair_of (kr_seen_failures r)) (\<lambda>failures.
          bnd (decode_evidence run (kr_evidence r)) (\<lambda>evidence.
          bnd (opt_dec (decode_intent cr) (kr_pending_intent r)) (\<lambda>intent.
          bnd (opt_dec decode_prepared (kr_prepared r)) (\<lambda>prepared.
          bnd (opt_dec decode_stored_observation (kr_reconciled r)) (\<lambda>reconciled.
          bnd (time_of (PStr (kr_updated_at r))) (\<lambda>updated.
          bnd (checkpoint_init cr \<lparr>ck_run_id = run, ck_contract_digest = kr_contract_digest r, ck_phase = phase,
             ck_next_iteration = kr_next_iteration r, ck_tool_calls = kr_tool_calls r, ck_history = history,
             ck_seen_failures = failures, ck_evidence = evidence, ck_graph_digest = text_or_empty (kr_graph_digest r),
             ck_pending_intent = intent, ck_executor_id = text_or_empty (kr_executor_id r), ck_prepared = prepared,
             ck_reconciled = reconciled, ck_terminal_decision = kr_terminal_decision r,
             ck_terminal_reason = kr_terminal_reason r, ck_revision = kr_revision r, ck_updated_at = updated\<rparr>)
            (\<lambda>c. Inr (Some c)))))))))))"

section \<open>Well-formed checkpoints\<close>

definition prepared_wf :: "crypto \<Rightarrow> checkpoint \<Rightarrow> bool" where
  "prepared_wf cr c \<longleftrightarrow> (if effect_phase (ck_phase c)
        then \<exists>p i. ck_prepared c = Some p \<and> ck_pending_intent c = Some i \<and> pe_executor_id p = ck_executor_id c
          \<and> pe_intent_digest p = intent_digest cr i
          \<and> (ck_graph_digest c = [] \<or> pe_graph_digest p = ck_graph_digest c \<and> pe_graph_node_id p = ''operation.prepared'')
        else ck_prepared c = None)"

definition terminal_wf :: "checkpoint \<Rightarrow> bool" where
  "terminal_wf c \<longleftrightarrow> (if ck_phase c = TERMINAL then \<not> empty_text (ck_terminal_decision c) \<and> \<not> empty_text (ck_terminal_reason c)
        else ck_terminal_decision c = None \<and> ck_terminal_reason c = None)"

definition checkpoint_wf :: "crypto \<Rightarrow> checkpoint \<Rightarrow> bool" where
  "checkpoint_wf cr c \<longleftrightarrow>
     \<not> blank (ck_run_id c) \<and> \<not> blank (ck_contract_digest c)
     \<and> (ck_graph_digest c = [] \<or> sha256_shape (ck_graph_digest c))
     \<and> 1 \<le> ck_next_iteration c \<and> 0 \<le> ck_tool_calls c \<and> 0 \<le> ck_revision c
     \<and> es_run_id (ck_evidence c) = ck_run_id c
     \<and> (if pending_phase (ck_phase c) then (\<exists>i. ck_pending_intent c = Some i) \<and> \<not> blank (ck_executor_id c)
        else ck_pending_intent c = None \<and> ck_executor_id c = [])
     \<and> prepared_wf cr c
     \<and> (ck_phase c = RECONCILED_EFFECT \<longleftrightarrow> ck_reconciled c \<noteq> None)
     \<and> terminal_wf c"

lemma effect_pending: "effect_phase p \<Longrightarrow> pending_phase p"
  by (auto simp: effect_phase_def pending_phase_def)

lemma prepared_error_None:
  assumes "effect_phase (ck_phase c) \<Longrightarrow> \<exists>i. ck_pending_intent c = Some i"
  shows "prepared_error cr c = None \<longleftrightarrow>
    prepared_wf cr c"
  using assms by (auto simp: prepared_error_def prepared_wf_def split: option.splits)

lemma terminal_error_None:
  "terminal_error c = None \<longleftrightarrow>
    terminal_wf c"
  by (simp add: terminal_error_def terminal_wf_def)

lemma checkpoint_init_ok: "checkpoint_init cr c = Inr d \<longleftrightarrow> d = c \<and> checkpoint_wf cr c"
proof (cases "effect_phase (ck_phase c) \<and> ck_pending_intent c = None")
  case True
  then have "pending_phase (ck_phase c)" "ck_pending_intent c = None" using effect_pending by auto
  then show ?thesis by (simp add: checkpoint_init_def checkpoint_wf_def)
next
  case False
  then have p: "effect_phase (ck_phase c) \<Longrightarrow> \<exists>i. ck_pending_intent c = Some i" by auto
  have "prepared_error cr c = None \<and> prepared_wf cr c \<or> (\<exists>e. prepared_error cr c = Some e \<and> \<not> prepared_wf cr c)"
    using prepared_error_None [OF p, of cr] by (cases "prepared_error cr c") auto
  moreover have "terminal_error c = None \<and> terminal_wf c \<or> (\<exists>e. terminal_error c = Some e \<and> \<not> terminal_wf c)"
    using terminal_error_None [of c] by (cases "terminal_error c") auto
  ultimately show ?thesis
    unfolding checkpoint_init_def checkpoint_wf_def by (elim disjE exE conjE) (auto simp: not_less not_le)
qed

section \<open>What comes back\<close>

definition norm_checkpoint :: "checkpoint \<Rightarrow> checkpoint" where
  "norm_checkpoint c = c\<lparr>ck_history := map norm_dict (ck_history c), ck_evidence := norm_evidence (ck_evidence c),
     ck_pending_intent := map_option norm_intent (ck_pending_intent c),
     ck_reconciled := map_option norm_observation (ck_reconciled c)\<rparr>"

text \<open>A checkpoint whose parts were built by their constructors.\<close>

definition built_checkpoint :: "crypto \<Rightarrow> checkpoint \<Rightarrow> bool" where
  "built_checkpoint cr c \<longleftrightarrow> checkpoint_wf cr c
     \<and> (\<forall>i \<in> set_option (ck_pending_intent c). built_intent cr i)
     \<and> (\<forall>p \<in> set_option (ck_prepared c). prepared_execution_init p = Inr p)"

lemma text_or_empty_some [simp]: "text_or_empty (some_text s) = s"
  by (simp add: text_or_empty_def some_text_def)

lemma opt_dec_map: "(\<And>x. x \<in> set_option v \<Longrightarrow> f (g x) = Inr (h x)) \<Longrightarrow> opt_dec f (map_option g v) = Inr (map_option h v)"
  by (cases v) (simp_all add: opt_dec_def)

lemma checkpoint_wf_norm: "checkpoint_wf cr (norm_checkpoint c) = checkpoint_wf cr c"
proof -
  have "prepared_wf cr (norm_checkpoint c) = prepared_wf cr c"
    by (auto simp: prepared_wf_def norm_checkpoint_def)
  moreover have "terminal_wf (norm_checkpoint c) = terminal_wf c" by (simp add: terminal_wf_def norm_checkpoint_def)
  ultimately show ?thesis by (auto simp: checkpoint_wf_def norm_checkpoint_def norm_evidence_def)
qed

lemma pair_of_norm: "pair_of (json_norm (PTuple [PStr a, PStr b])) = Inr (a, b)"
  by (simp add: pair_of_def strs_of_def)

lemma run_load_row:
  assumes "dget db (ck_run_id c) = Some (row_of c revn now)" "built_checkpoint cr c" "0 \<le> revn" "iso_ok (utc now)"
  shows "run_load cr db (ck_run_id c) = Inr (Some (norm_checkpoint (c\<lparr>ck_revision := revn, ck_updated_at := utc now\<rparr>)))"
proof -
  let ?c = "norm_checkpoint (c\<lparr>ck_revision := revn, ck_updated_at := utc now\<rparr>)"
  have "checkpoint_wf cr (c\<lparr>ck_revision := revn, ck_updated_at := utc now\<rparr>)"
    using assms(2,3) by (auto simp: built_checkpoint_def checkpoint_wf_def prepared_wf_def terminal_wf_def)
  then have ok: "checkpoint_init cr ?c = Inr ?c" by (simp add: checkpoint_init_ok checkpoint_wf_norm)
  have run: "es_run_id (ck_evidence c) = ck_run_id c" using assms(2) by (simp add: built_checkpoint_def checkpoint_wf_def)
  have hist: "list_dec dict_of (json_norm (PTuple (map PDict (ck_history c)))) = Inr (map norm_dict (ck_history c))"
    using list_dec_norm [of "ck_history c" dict_of PDict norm_dict] json_norm_PDict by simp
  have seen: "list_dec pair_of (json_norm (PTuple (map (\<lambda>(a, b). PTuple [PStr a, PStr b]) (ck_seen_failures c)))) = Inr (ck_seen_failures c)"
  proof -
    have "list_dec pair_of (json_norm (PList (map (\<lambda>(a, b). PTuple [PStr a, PStr b]) (ck_seen_failures c)))) = Inr (map (\<lambda>p. p) (ck_seen_failures c))"
      by (rule list_dec_norm) (auto simp: pair_of_norm simp del: json_norm.simps)
    then show ?thesis by simp
  qed
  have ev: "decode_evidence (ck_run_id c) (json_norm (encode_evidence (ck_evidence c))) = Inr (norm_evidence (ck_evidence c))"
    using decode_evidence_encode [of "ck_evidence c"] run by simp
  have intent: "opt_dec (decode_intent cr) (map_option (json_norm \<circ> encode_intent) (ck_pending_intent c))
      = Inr (map_option norm_intent (ck_pending_intent c))"
    using assms(2) by (intro opt_dec_map) (simp add: built_checkpoint_def decode_intent_encode)
  have prep: "opt_dec decode_prepared (map_option (json_norm \<circ> encode_prepared) (ck_prepared c)) = Inr (map_option (\<lambda>p. p) (ck_prepared c))"
    using assms(2) by (intro opt_dec_map) (simp add: built_checkpoint_def decode_prepared_encode)
  have obs: "opt_dec decode_stored_observation (map_option encode_observation (ck_reconciled c)) = Inr (map_option norm_observation (ck_reconciled c))"
    by (intro opt_dec_map) (simp add: decode_stored_observation_def)
  have eta: "?c = \<lparr>ck_run_id = ck_run_id c, ck_contract_digest = ck_contract_digest c, ck_phase = ck_phase c,
      ck_next_iteration = ck_next_iteration c, ck_tool_calls = ck_tool_calls c, ck_history = map norm_dict (ck_history c),
      ck_seen_failures = ck_seen_failures c, ck_evidence = norm_evidence (ck_evidence c), ck_graph_digest = ck_graph_digest c,
      ck_pending_intent = map_option norm_intent (ck_pending_intent c), ck_executor_id = ck_executor_id c,
      ck_prepared = ck_prepared c, ck_reconciled = map_option norm_observation (ck_reconciled c),
      ck_terminal_decision = ck_terminal_decision c, ck_terminal_reason = ck_terminal_reason c,
      ck_revision = revn, ck_updated_at = utc now\<rparr>"
    by (cases c) (simp add: norm_checkpoint_def)
  have row: "kr_updated_at (row_of c revn now) = isoformat (utc now)" by (simp add: row_of_def)
  show ?thesis
    unfolding run_load_def assms(1)
    using hist seen ev intent prep obs ok assms(4)
    by (simp add: row_of_def eta option.map_ident del: json_norm.simps)
qed

lemma dget_snoc: "dget (d @ [(k, v)]) k' = (case dget d k' of None \<Rightarrow> if k' = k then Some v else None | Some x \<Rightarrow> Some x)"
  by (induction d) (auto simp: dget_def)

text \<open>A save answers with a checkpoint exactly when it changed the table.\<close>

lemma run_save_cases:
  assumes "checkpoint_wf cr c"
  obtains c' where "run_save cr db (c, now) = (Inr c', snd (run_save cr db (c, now)))"
      "c' = c\<lparr>ck_revision := ck_revision c + 1, ck_updated_at := utc now\<rparr>" "checkpoint_wf cr c'"
      "\<And>run. dget (snd (run_save cr db (c, now))) run
         = (if run = ck_run_id c then Some (row_of c (ck_revision c + 1) now) else dget db run)"
      "case dget db (ck_run_id c) of None \<Rightarrow> ck_revision c = 0 | Some r \<Rightarrow> kr_revision r = ck_revision c"
  | e where "run_save cr db (c, now) = (Inl (RunStateConflict, e), db)"
      "case dget db (ck_run_id c) of None \<Rightarrow> ck_revision c \<noteq> 0 | Some r \<Rightarrow> kr_revision r \<noteq> ck_revision c"
proof -
  let ?c = "c\<lparr>ck_revision := ck_revision c + 1, ck_updated_at := utc now\<rparr>"
  have wf: "checkpoint_wf cr ?c" using assms by (auto simp: checkpoint_wf_def prepared_wf_def terminal_wf_def)
  then have init: "checkpoint_init cr ?c = Inr ?c" by (simp add: checkpoint_init_ok)
  show thesis
  proof (cases "dget db (ck_run_id c)")
    case None
    show thesis
    proof (cases "ck_revision c = 0")
      case True
      have *: "run_save cr db (c, now) = (Inr ?c, db @ [(ck_run_id c, row_of c 1 now)])"
        using None True init by (simp add: run_save_def)
      show thesis by (rule that(1) [of ?c]) (use * wf None True in \<open>auto simp: dget_snoc split: option.splits\<close>)
    next
      case False
      then show thesis using None that(2) by (simp add: run_save_def)
    qed
  next
    case (Some r)
    show thesis
    proof (cases "kr_revision r = ck_revision c")
      case True
      have *: "run_save cr db (c, now) = (Inr ?c, AList.update (ck_run_id c) (row_of c (ck_revision c + 1) now) db)"
        using Some True init by (simp add: run_save_def)
      show thesis by (rule that(1) [of ?c]) (use * wf Some True in auto)
    next
      case False
      then show thesis using Some that(2) by (simp add: run_save_def)
    qed
  qed
qed

section \<open>The store is a compare-and-swap register per run\<close>

definition revision_of :: "run_db \<Rightarrow> string \<Rightarrow> int" where
  "revision_of db run = (case dget db run of None \<Rightarrow> 0 | Some r \<Rightarrow> kr_revision r)"

definition cas :: "(string \<Rightarrow> int) \<Rightarrow> string \<Rightarrow> int \<Rightarrow> bool \<times> (string \<Rightarrow> int)" where
  "cas m run expected = (if m run = expected then (True, m(run := expected + 1)) else (False, m))"

lemma run_save_cas:
  assumes "checkpoint_wf cr c"
  shows "(\<exists>c'. fst (run_save cr db (c, now)) = Inr c' \<and> ck_revision c' = ck_revision c + 1 \<and> ck_run_id c' = ck_run_id c)
      = fst (cas (revision_of db) (ck_run_id c) (ck_revision c))
    \<and> (\<not> fst (cas (revision_of db) (ck_run_id c) (ck_revision c))
        \<longrightarrow> (\<exists>e. fst (run_save cr db (c, now)) = Inl (RunStateConflict, e)))
    \<and> revision_of (snd (run_save cr db (c, now))) = snd (cas (revision_of db) (ck_run_id c) (ck_revision c))"
proof (cases rule: run_save_cases [OF assms, of db now])
  case (1 c')
  have "revision_of db (ck_run_id c) = ck_revision c" using 1(5) by (simp add: revision_of_def split: option.splits)
  moreover have "revision_of (snd (run_save cr db (c, now))) = (revision_of db)(ck_run_id c := ck_revision c + 1)"
    by (auto simp: fun_eq_iff revision_of_def 1(4) row_of_def)
  moreover have "fst (run_save cr db (c, now)) = Inr c'" using 1(1) by (metis fst_conv)
  ultimately show ?thesis using 1(2) by (simp add: cas_def)
next
  case (2 e)
  have "revision_of db (ck_run_id c) \<noteq> ck_revision c" using 2(2) by (simp add: revision_of_def split: option.splits)
  then show ?thesis using 2(1) by (simp add: cas_def)
qed

definition accepted_revisions :: "crypto \<Rightarrow> string \<Rightarrow> run_db \<Rightarrow> (checkpoint \<times> int) list \<Rightarrow> int list" where
  "accepted_revisions cr run db qs =
     List.map_filter (\<lambda>(q, r). case r of Inr c \<Rightarrow> if ck_run_id c = run then Some (ck_revision c) else None | Inl e \<Rightarrow> None)
       (run_all (run_save cr) db qs)"

lemma accepted_consecutive:
  assumes "\<forall>(c, now) \<in> set qs. checkpoint_wf cr c"
  shows "accepted_revisions cr run db qs
    = map (\<lambda>k. revision_of db run + 1 + int k) [0..<length (accepted_revisions cr run db qs)]"
  using assms
proof (induction qs arbitrary: db)
  case Nil
  then show ?case by (simp add: accepted_revisions_def List.map_filter_simps)
next
  case (Cons q qs)
  obtain c now where q: "q = (c, now)" by fastforce
  let ?db = "snd (run_save cr db q)"
  have wf: "checkpoint_wf cr c" using Cons.prems q by simp
  note IH = Cons.IH [of ?db]
  have tail: "\<forall>(c, now) \<in> set qs. checkpoint_wf cr c" using Cons.prems by simp
  show ?case
  proof (cases rule: run_save_cases [OF wf, of db now])
    case (1 c')
    have res: "fst (run_save cr db q) = Inr c'" using 1(1) q by (metis fst_conv)
    have new: "revision_of ?db run = (if run = ck_run_id c then ck_revision c + 1 else revision_of db run)"
      using 1(4) [of run] q by (simp add: revision_of_def row_of_def)
    have old: "revision_of db (ck_run_id c) = ck_revision c" using 1(5) by (simp add: revision_of_def split: option.splits)
    have hd: "accepted_revisions cr run db (q # qs)
        = (if ck_run_id c = run then [ck_revision c + 1] else []) @ accepted_revisions cr run ?db qs"
      using res 1(2) by (simp add: accepted_revisions_def List.map_filter_simps)
    show ?thesis
    proof (cases "ck_run_id c = run")
      case True
      let ?n = "length (accepted_revisions cr run ?db qs)"
      have "map (\<lambda>k. revision_of db run + 1 + int k) [0..<Suc ?n]
          = (revision_of db run + 1) # map (\<lambda>k. revision_of db run + 2 + int k) [0..<?n]"
        by (simp add: upt_conv_Cons map_Suc_upt [symmetric] comp_def del: upt_Suc)
      also have "map (\<lambda>k. revision_of db run + 2 + int k) [0..<?n] = accepted_revisions cr run ?db qs"
        using IH tail new old True by (simp add: add.commute)
      finally show ?thesis using hd True old by simp
    next
      case False
      then show ?thesis using hd IH tail new by simp
    qed
  next
    case (2 e)
    have "fst (run_save cr db q) = Inl (RunStateConflict, e)" "?db = db" using 2(1) q by simp_all
    then show ?thesis using IH tail by (simp add: accepted_revisions_def List.map_filter_simps)
  qed
qed

section \<open>Properties\<close>

text \<open>C24: a checkpoint that is saved and loaded again, by this or a restarted process, is the same
  checkpoint up to the order of JSON keys: same phase, counters, failures, evidence, prepared
  operation and observation, and a pending intent with the same digest.\<close>

theorem checkpoint_roundtrip:
  assumes "built_checkpoint cr c" "iso_ok (utc now)" "run_save cr db (c, now) = (Inr c', db')"
  shows "run_load cr db' (ck_run_id c) = Inr (Some (norm_checkpoint c')) \<and> ck_revision c' = ck_revision c + 1
    \<and> map_option (intent_digest cr) (ck_pending_intent (norm_checkpoint c')) = map_option (intent_digest cr) (ck_pending_intent c)"
proof -
  have wf: "checkpoint_wf cr c" "0 \<le> ck_revision c + 1"
    using assms(1) by (auto simp: built_checkpoint_def checkpoint_wf_def)
  show ?thesis
  proof (cases rule: run_save_cases [OF wf(1), of db now])
    case (1 c1)
    then have "c' = c\<lparr>ck_revision := ck_revision c + 1, ck_updated_at := utc now\<rparr>" using assms(3) by simp
    moreover have "dget db' (ck_run_id c) = Some (row_of c (ck_revision c + 1) now)" using 1(4) [of "ck_run_id c"] assms(3) by simp
    from run_load_row [OF this assms(1) wf(2) assms(2)]
    have "run_load cr db' (ck_run_id c) = Inr (Some (norm_checkpoint (c\<lparr>ck_revision := ck_revision c + 1, ck_updated_at := utc now\<rparr>)))" .
    ultimately show ?thesis by (simp add: norm_checkpoint_def option.map_comp comp_def)
  next
    case (2 e)
    then show ?thesis using assms(3) by simp
  qed
qed

text \<open>C25: whatever a table holds, what is loaded from it is well formed: a pending phase has its intent and
  executor, an effect phase a prepared operation bound to that executor, intent and graph, only a
  reconciled effect an observation and only a terminal run a decision.\<close>

theorem loaded_checkpoint_wf:
  "case run_load cr db run of Inr (Some c) \<Rightarrow> checkpoint_wf cr c \<and> ck_run_id c = run | _ \<Rightarrow> True"
proof (cases "run_load cr db run")
  case (Inr x)
  then show ?thesis
    by (cases x) (auto simp: run_load_def bnd_eq_Inr checkpoint_init_ok split: option.splits)
qed simp

text \<open>C23: saving refines a compare-and-swap register per run: it succeeds exactly when the caller holds the
  stored revision, then increments it, and otherwise reports a conflict and changes nothing.\<close>

theorem run_save_refines_cas:
  assumes "checkpoint_wf cr c"
  shows "(\<exists>c'. fst (run_save cr db (c, now)) = Inr c' \<and> ck_revision c' = ck_revision c + 1 \<and> ck_run_id c' = ck_run_id c)
      = fst (cas (revision_of db) (ck_run_id c) (ck_revision c))
    \<and> (\<not> fst (cas (revision_of db) (ck_run_id c) (ck_revision c))
        \<longrightarrow> (\<exists>e. fst (run_save cr db (c, now)) = Inl (RunStateConflict, e)))
    \<and> revision_of (snd (run_save cr db (c, now))) = snd (cas (revision_of db) (ck_run_id c) (ck_revision c))"
  using assms by (rule run_save_cas)

text \<open>Whatever sequence of saves several controllers issue for any runs, the accepted revisions of a
  run are consecutive: no two controllers advance a run from the same revision and none is skipped.\<close>

theorem run_revisions_consecutive:
  assumes "\<forall>(c, now) \<in> set qs. checkpoint_wf cr c"
  shows "accepted_revisions cr run db qs
    = map (\<lambda>k. revision_of db run + 1 + int k) [0..<length (accepted_revisions cr run db qs)]"
  using assms by (rule accepted_consecutive)

definition sample_checkpoint :: checkpoint where
  "sample_checkpoint = \<lparr>ck_run_id = ''r'', ck_contract_digest = ''c'', ck_phase = READY, ck_next_iteration = 1,
     ck_tool_calls = 0, ck_history = [[(''decision'', PStr ''accept'')]], ck_seen_failures = [(''a'', ''b'')],
     ck_evidence = \<lparr>es_run_id = ''r'', es_actions = []\<rparr>, ck_graph_digest = [], ck_pending_intent = None,
     ck_executor_id = [], ck_prepared = None, ck_reconciled = None, ck_terminal_decision = None,
     ck_terminal_reason = None, ck_revision = 0, ck_updated_at = utc 0\<rparr>"

lemma sample_checkpoint_wf: "checkpoint_wf cr sample_checkpoint"
  by (simp add: checkpoint_wf_def sample_checkpoint_def blank_iff py_isspace_def pending_phase_def prepared_wf_def
      effect_phase_def terminal_wf_def)

lemma sample_save: "fst (run_save cr [] (sample_checkpoint, 0)) = Inr (sample_checkpoint\<lparr>ck_revision := 1\<rparr>)"
proof -
  have e: "sample_checkpoint\<lparr>ck_revision := 1, ck_updated_at := utc 0\<rparr> = sample_checkpoint\<lparr>ck_revision := 1\<rparr>"
    "ck_revision sample_checkpoint = 0"
    by (simp_all add: sample_checkpoint_def)
  have "checkpoint_wf cr (sample_checkpoint\<lparr>ck_revision := 1\<rparr>)"
    by (simp add: checkpoint_wf_def sample_checkpoint_def blank_iff py_isspace_def pending_phase_def prepared_wf_def
      effect_phase_def terminal_wf_def)
  then have "checkpoint_init cr (sample_checkpoint\<lparr>ck_revision := 1\<rparr>) = Inr (sample_checkpoint\<lparr>ck_revision := 1\<rparr>)"
    by (simp add: checkpoint_init_ok)
  then show ?thesis by (simp add: run_save_def e)
qed

theorem checkpoint_roundtrip_witness:
  "run_load toy_crypto (snd (run_save toy_crypto [] (sample_checkpoint, 0))) ''r''
    = Inr (Some (norm_checkpoint (sample_checkpoint\<lparr>ck_revision := 1\<rparr>)))"
proof -
  have "run_save toy_crypto [] (sample_checkpoint, 0)
      = (Inr (sample_checkpoint\<lparr>ck_revision := 1\<rparr>), snd (run_save toy_crypto [] (sample_checkpoint, 0)))"
    using sample_save by (metis prod.collapse)
  moreover have "built_checkpoint toy_crypto sample_checkpoint"
    using sample_checkpoint_wf by (simp add: built_checkpoint_def) (simp add: sample_checkpoint_def)
  ultimately have "run_load toy_crypto (snd (run_save toy_crypto [] (sample_checkpoint, 0))) (ck_run_id sample_checkpoint)
      = Inr (Some (norm_checkpoint (sample_checkpoint\<lparr>ck_revision := 1\<rparr>)))"
    using checkpoint_roundtrip iso_ok_epoch by blast
  then show ?thesis by (simp add: sample_checkpoint_def)
qed

theorem run_save_refines_cas_witness:
  "\<exists>c'. fst (run_save toy_crypto [] (sample_checkpoint, 0)) = Inr c' \<and> ck_revision c' = 1"
  using run_save_refines_cas [OF sample_checkpoint_wf, of toy_crypto "[]" 0]
  by (auto simp: cas_def revision_of_def sample_checkpoint_def)

theorem run_revisions_consecutive_witness:
  "accepted_revisions toy_crypto ''r'' [] [(sample_checkpoint, 0), (sample_checkpoint, 1)]
    = map (\<lambda>k. 1 + int k) [0..<length (accepted_revisions toy_crypto ''r'' [] [(sample_checkpoint, 0), (sample_checkpoint, 1)])]"
  using run_revisions_consecutive [of "[(sample_checkpoint, 0), (sample_checkpoint, 1)]" toy_crypto "''r''" "[]"]
    sample_checkpoint_wf
  by (simp add: revision_of_def)

end
