(* ===== verification/Receipts.thy ===== *)
theory Receipts
  imports Codec
begin

text \<open>
  \<open>src/vloop/receipts.py\<close>: signed receipts of the protected evaluators. A receipt is bound to the
  run, the intent, the contract, the whole artifact manifest and an evaluator policy; the verifier
  checks the signature under a key it owns, that key's trust entry, the policy and every binding.
  The nonce (\<open>uuid4\<close>) and the clock are arguments; a frozenset is a finite set of texts.
\<close>

section \<open>Artifact manifests and evaluator policies\<close>

definition artifacts_py :: "(string \<times> string) list \<Rightarrow> pyval" where
  "artifacts_py arts = PDict (map (\<lambda>(k, v). (k, PStr v)) arts)"

definition artifact_manifest_digest :: "crypto \<Rightarrow> (string \<times> string) list \<Rightarrow> string res" where
  "artifact_manifest_digest cr arts =
     (if arts = [] \<or> list_ex (\<lambda>(name, v). name = [] \<or> v = []) arts
      then Inl (ValueError, ''artifact manifest must contain non-empty string names and digests'')
      else Inr (digest cr (artifacts_py arts)))"

record receipt_policy =
  rp_receipt_type :: string
  rp_allowed_key_ids :: "string set"
  rp_allowed_evaluator_images :: "string set"
  rp_allowed_test_suites :: "string set"
  rp_minimum_schema_version :: int
  rp_minimum_revocation_epoch :: int
  rp_required_contract_digest :: "string option"
  rp_workspace_snapshot_schema :: "string option"
  rp_exclusion_policy_digests :: "string set"

definition allowed_check :: "string set \<Rightarrow> string \<Rightarrow> unit res" where
  "allowed_check values label =
     (if values = {} \<or> Bex values blank
      then Inl (ValueError, ''receipt policy needs non-empty allowed '' @ label) else Inr ())"

definition receipt_policy_init :: "receipt_policy \<Rightarrow> receipt_policy res" where
  "receipt_policy_init p =
     (if blank (rp_receipt_type p) then Inl (ValueError, ''receipt policy needs a receipt type'')
      else if rp_minimum_schema_version p < 2
      then Inl (ValueError, ''production receipt policies require schema v2 or newer'')
      else if rp_minimum_revocation_epoch p < 0
      then Inl (ValueError, ''revocation epoch cannot be negative'')
      else if (case rp_workspace_snapshot_schema p of None \<Rightarrow> False | Some s \<Rightarrow> blank s)
      then Inl (ValueError, ''workspace snapshot schema cannot be blank'')
      else if Bex (rp_exclusion_policy_digests p) blank
      then Inl (ValueError, ''workspace exclusion-policy digests cannot be blank'')
      else bnd (allowed_check (rp_allowed_key_ids p) ''key ids'') (\<lambda>_.
           bnd (allowed_check (rp_allowed_evaluator_images p) ''evaluator images'') (\<lambda>_.
           bnd (allowed_check (rp_allowed_test_suites p) ''test suites'') (\<lambda>_. Inr p))))"

definition strset_py :: "string set \<Rightarrow> pyval" where
  "strset_py s = PList (map PStr (sorted_list_of_set s))"

definition receipt_policy_digest :: "crypto \<Rightarrow> receipt_policy \<Rightarrow> string" where
  "receipt_policy_digest cr p = digest cr (PDict
     [(''receipt_type'', PStr (rp_receipt_type p)), (''allowed_key_ids'', strset_py (rp_allowed_key_ids p)),
      (''allowed_evaluator_images'', strset_py (rp_allowed_evaluator_images p)),
      (''allowed_test_suites'', strset_py (rp_allowed_test_suites p)),
      (''minimum_schema_version'', PInt (rp_minimum_schema_version p)),
      (''minimum_revocation_epoch'', PInt (rp_minimum_revocation_epoch p)),
      (''required_contract_digest'', opt_str_py (rp_required_contract_digest p)),
      (''workspace_snapshot_schema'', opt_str_py (rp_workspace_snapshot_schema p)),
      (''workspace_exclusion_policy_digests'', strset_py (rp_exclusion_policy_digests p))])"

text \<open>Verifier-owned lifecycle and scope of one evaluator key.\<close>

record receipt_trust =
  rt_key_id :: string
  rt_valid_from :: dtime
  rt_valid_until :: dtime
  rt_receipt_types :: "string set"
  rt_evaluator_images :: "string set"
  rt_revoked_at :: "dtime option"

definition receipt_trust_init :: "receipt_trust \<Rightarrow> receipt_trust res" where
  "receipt_trust_init t =
     (if blank (rt_key_id t) \<or> rt_receipt_types t = {} \<or> rt_evaluator_images t = {}
      then Inl (ValueError, ''receipt key trust needs key id, receipt types, and evaluator images'')
      else if \<not> aware (rt_valid_from t) \<or> \<not> aware (rt_valid_until t)
        \<or> instant (rt_valid_until t) \<le> instant (rt_valid_from t)
      then Inl (ValueError, ''receipt key trust interval is invalid'')
      else if (case rt_revoked_at t of None \<Rightarrow> False | Some r \<Rightarrow> \<not> aware r)
      then Inl (ValueError, ''receipt revocation time must be timezone-aware'')
      else Inr t)"

section \<open>Receipts\<close>

record receipt =
  rc_receipt_type :: string
  rc_run_id :: string
  rc_intent_digest :: string
  rc_candidate_artifact_digest :: string
  rc_evaluator_image_digest :: string
  rc_test_suite_digest :: string
  rc_result :: string
  rc_nonce :: string
  rc_issued_at :: dtime
  rc_expires_at :: dtime
  rc_claims :: pydict
  rc_schema_version :: int
  rc_key_id :: string
  rc_contract_digest :: string
  rc_artifact_manifest_digest :: string
  rc_primary_artifact_name :: string
  rc_primary_artifact_digest :: string
  rc_workspace_snapshot_digest :: string
  rc_dependency_lock_digest :: string
  rc_toolchain_digest :: string
  rc_environment_digest :: string
  rc_verifier_policy_digest :: string
  rc_revocation_epoch :: int
  rc_signature :: string

definition receipt_required :: "receipt \<Rightarrow> string list" where
  "receipt_required r = [rc_receipt_type r, rc_run_id r, rc_intent_digest r, rc_candidate_artifact_digest r,
     rc_evaluator_image_digest r, rc_test_suite_digest r, rc_nonce r, rc_key_id r]"

definition receipt_bindings :: "receipt \<Rightarrow> string list" where
  "receipt_bindings r = [rc_contract_digest r, rc_artifact_manifest_digest r, rc_primary_artifact_name r,
     rc_primary_artifact_digest r, rc_workspace_snapshot_digest r, rc_dependency_lock_digest r,
     rc_toolchain_digest r, rc_environment_digest r, rc_verifier_policy_digest r]"

definition receipt_error :: "receipt \<Rightarrow> (exc \<times> string) option" where
  "receipt_error r =
     (if rc_schema_version r \<noteq> 1 \<and> rc_schema_version r \<noteq> 2 then Some (ValueError, ''unsupported receipt schema'')
      else if rc_result r \<notin> {''pass'', ''fail'', ''inconclusive''} then Some (ValueError, ''invalid receipt result'')
      else if list_ex blank (receipt_required r) then Some (ValueError, ''receipt has a required blank field'')
      else if \<not> aware (rc_issued_at r) \<or> \<not> aware (rc_expires_at r)
      then Some (ValueError, ''receipt timestamps must be timezone-aware'')
      else if rc_schema_version r \<ge> 2 \<and> list_ex blank (receipt_bindings r)
      then Some (ValueError, ''schema v2 receipt has a required blank binding'')
      else if rc_schema_version r \<ge> 2 \<and> rc_primary_artifact_digest r \<noteq> rc_candidate_artifact_digest r
      then Some (ValueError, ''candidate digest must be the primary artifact digest'')
      else if rc_revocation_epoch r < 0 then Some (ValueError, ''revocation epoch cannot be negative'')
      else None)"

definition receipt_init :: "receipt \<Rightarrow> receipt res" where
  "receipt_init r = (case receipt_error r of Some e \<Rightarrow> Inl e | None \<Rightarrow> Inr r)"

lemma receipt_init_Inr: "receipt_init r = Inr s \<longleftrightarrow> s = r \<and> receipt_error r = None"
  by (auto simp: receipt_init_def split: option.splits)

text \<open>The signed fields, and the mapping with the signature that is exchanged.\<close>

definition receipt_fields :: "receipt \<Rightarrow> pydict" where
  "receipt_fields r =
     [(''schema_version'', PInt (rc_schema_version r)), (''receipt_type'', PStr (rc_receipt_type r)),
      (''run_id'', PStr (rc_run_id r)), (''intent_digest'', PStr (rc_intent_digest r)),
      (''candidate_artifact_digest'', PStr (rc_candidate_artifact_digest r)),
      (''evaluator_image_digest'', PStr (rc_evaluator_image_digest r)),
      (''test_suite_digest'', PStr (rc_test_suite_digest r)), (''result'', PStr (rc_result r)),
      (''nonce'', PStr (rc_nonce r)), (''issued_at'', PStr (isoformat (rc_issued_at r))),
      (''expires_at'', PStr (isoformat (rc_expires_at r))), (''claims'', PDict (rc_claims r)),
      (''key_id'', PStr (rc_key_id r)), (''contract_digest'', PStr (rc_contract_digest r)),
      (''artifact_manifest_digest'', PStr (rc_artifact_manifest_digest r)),
      (''primary_artifact_name'', PStr (rc_primary_artifact_name r)),
      (''primary_artifact_digest'', PStr (rc_primary_artifact_digest r)),
      (''workspace_snapshot_digest'', PStr (rc_workspace_snapshot_digest r)),
      (''dependency_lock_digest'', PStr (rc_dependency_lock_digest r)),
      (''toolchain_digest'', PStr (rc_toolchain_digest r)), (''environment_digest'', PStr (rc_environment_digest r)),
      (''verifier_policy_digest'', PStr (rc_verifier_policy_digest r)),
      (''revocation_epoch'', PInt (rc_revocation_epoch r))]"

definition receipt_payload :: "receipt \<Rightarrow> string" where
  "receipt_payload r = canonical_json (PDict (receipt_fields r))"

definition receipt_mapping :: "receipt \<Rightarrow> pydict" where
  "receipt_mapping r = receipt_fields r @ [(''signature'', PStr (rc_signature r))]"

text \<open>
  \<open>dict(value)\<close> for the claims: a mapping, or an iterable of pairs. A key that is no text is
  rejected here as a \<open>TypeError\<close>.
\<close>

definition claim_pair_of :: "pyval \<Rightarrow> (string \<times> pyval) res" where
  "claim_pair_of v = bnd (list_of v) (\<lambda>xs. case xs of
     [PStr k, x] \<Rightarrow> Inr (k, x)
   | [_, _] \<Rightarrow> Inl (TypeError, ''claim names are texts'')
   | _ \<Rightarrow> Inl (ValueError, ''dictionary update sequence element has another length than 2''))"

fun claims_of :: "pyval \<Rightarrow> pydict res" where
  "claims_of (PDict d) = Inr d"
| "claims_of v = bnd (list_of v) (\<lambda>xs. bnd (map_res claim_pair_of xs) (\<lambda>ps. Inr (dmerge [] ps)))"

definition receipt_from_mapping :: "pydict \<Rightarrow> receipt res" where
  "receipt_from_mapping d =
     bnd (fld d ''receipt_type'' text_of) (\<lambda>typ. bnd (fld d ''run_id'' text_of) (\<lambda>run.
     bnd (fld d ''intent_digest'' text_of) (\<lambda>intent. bnd (fld d ''candidate_artifact_digest'' text_of) (\<lambda>cand.
     bnd (fld d ''evaluator_image_digest'' text_of) (\<lambda>img. bnd (fld d ''test_suite_digest'' text_of) (\<lambda>suite.
     bnd (fld d ''result'' text_of) (\<lambda>result. bnd (fld d ''nonce'' text_of) (\<lambda>nonce.
     bnd (fld d ''issued_at'' (\<lambda>v. time_of (PStr (py_str v)))) (\<lambda>issued.
     bnd (fld d ''expires_at'' (\<lambda>v. time_of (PStr (py_str v)))) (\<lambda>expires.
     bnd (fld_or d ''claims'' (PDict []) claims_of) (\<lambda>claims. bnd (fld_or d ''schema_version'' (PInt 1) int_of) (\<lambda>ver.
     bnd (fld_or d ''key_id'' (PStr ''default'') text_of) (\<lambda>key.
     bnd (fld_or d ''contract_digest'' (PStr []) text_of) (\<lambda>contract.
     bnd (fld_or d ''artifact_manifest_digest'' (PStr []) text_of) (\<lambda>manifest.
     bnd (fld_or d ''primary_artifact_name'' (PStr []) text_of) (\<lambda>pname.
     bnd (fld_or d ''primary_artifact_digest'' (PStr []) text_of) (\<lambda>pdig.
     bnd (fld_or d ''workspace_snapshot_digest'' (PStr []) text_of) (\<lambda>ws.
     bnd (fld_or d ''dependency_lock_digest'' (PStr []) text_of) (\<lambda>locks.
     bnd (fld_or d ''toolchain_digest'' (PStr []) text_of) (\<lambda>tools.
     bnd (fld_or d ''environment_digest'' (PStr []) text_of) (\<lambda>env.
     bnd (fld_or d ''verifier_policy_digest'' (PStr []) text_of) (\<lambda>policy.
     bnd (fld_or d ''revocation_epoch'' (PInt 0) int_of) (\<lambda>epoch. bnd (fld d ''signature'' text_of) (\<lambda>sig.
     receipt_init \<lparr>rc_receipt_type = typ, rc_run_id = run, rc_intent_digest = intent,
       rc_candidate_artifact_digest = cand, rc_evaluator_image_digest = img, rc_test_suite_digest = suite,
       rc_result = result, rc_nonce = nonce, rc_issued_at = issued, rc_expires_at = expires, rc_claims = claims,
       rc_schema_version = ver, rc_key_id = key, rc_contract_digest = contract,
       rc_artifact_manifest_digest = manifest, rc_primary_artifact_name = pname, rc_primary_artifact_digest = pdig,
       rc_workspace_snapshot_digest = ws, rc_dependency_lock_digest = locks, rc_toolchain_digest = tools,
       rc_environment_digest = env, rc_verifier_policy_digest = policy, rc_revocation_epoch = epoch,
       rc_signature = sig\<rparr>))))))))))))))))))))))))"

section \<open>Issuing\<close>

text \<open>
  The attributes \<open>issue\<close> reads from a workspace snapshot (\<open>WorkspaceSnapshot\<close> of
  \<open>snapshot.py\<close>, whose attributes are texts), and the keyword arguments of \<open>issue\<close>.
\<close>

record workspace_snapshot =
  ws_schema_version :: string
  ws_snapshot_digest :: string
  ws_dependency_lock_digest :: string
  ws_toolchain_digest :: string
  ws_environment_digest :: string
  ws_exclusion_policy_digest :: string

record receipt_request =
  iq_receipt_type :: string
  iq_run_id :: string
  iq_intent_digest :: string
  iq_candidate_artifact_digest :: string
  iq_evaluator_image_digest :: string
  iq_test_suite_digest :: string
  iq_result :: string
  iq_contract_digest :: string
  iq_artifact_digests :: "(string \<times> string) list option"
  iq_primary_artifact_name :: string
  iq_workspace_snapshot_digest :: string
  iq_dependency_lock_digest :: string
  iq_toolchain_digest :: string
  iq_environment_digest :: string
  iq_verifier_policy_digest :: string
  iq_workspace_snapshot :: "workspace_snapshot option"
  iq_revocation_epoch :: int
  iq_claims :: pydict
  iq_graph_digest :: string
  iq_graph_node_id :: string
  iq_graph_node_instance_id :: string
  iq_ttl :: int
  iq_schema_version :: int

record receipt_signer =
  sg_key_id :: string
  sg_key :: string

definition receipt_signer_init :: "receipt_signer \<Rightarrow> receipt_signer res" where
  "receipt_signer_init s =
     (if blank (sg_key_id s) then Inl (ValueError, ''receipt signer needs a key id'') else Inr s)"

definition signer_public_key :: "crypto \<Rightarrow> receipt_signer \<Rightarrow> string" where
  "signer_public_key cr s = ed_public cr (sg_key s)"

text \<open>One graph claim: a present, different value is a conflict; \<open>None\<close> counts as absent.\<close>

definition bind_claim :: "string \<Rightarrow> string \<Rightarrow> pydict \<Rightarrow> pydict res" where
  "bind_claim name v claims =
     (if (case dget claims name of None \<Rightarrow> False | Some x \<Rightarrow> x \<noteq> PNone \<and> x \<noteq> PStr v)
      then Inl (ValueError, ''receipt claim '' @ name @ '' conflicts with graph binding'')
      else Inr (AList.update name (PStr v) claims))"

definition graph_claims :: "receipt_request \<Rightarrow> pydict res" where
  "graph_claims q =
     (if (iq_graph_digest q \<noteq> []) \<noteq> (iq_graph_node_id q \<noteq> [])
      then Inl (ValueError, ''receipt graph digest and node must be supplied together'')
      else if iq_graph_node_instance_id q \<noteq> [] \<and> iq_graph_digest q = []
      then Inl (ValueError, ''receipt graph node instance needs a graph binding'')
      else if iq_graph_digest q = [] then Inr (iq_claims q)
      else if \<not> sha256_shape (iq_graph_digest q)
      then Inl (ValueError, ''receipt graph digest must be SHA-256 hex'')
      else bnd (bind_claim ''graph_digest'' (iq_graph_digest q) (iq_claims q)) (\<lambda>c.
           bnd (bind_claim ''graph_node_id'' (iq_graph_node_id q) c) (\<lambda>c.
           if iq_graph_node_instance_id q = [] then Inr c
           else bind_claim ''graph_node_instance_id'' (iq_graph_node_instance_id q) c)))"

text \<open>The snapshot replaces the four environment digests and adds two claims.\<close>

definition apply_snapshot :: "receipt_request \<Rightarrow> pydict \<Rightarrow> (receipt_request \<times> pydict) res" where
  "apply_snapshot q claims =
     (case iq_workspace_snapshot q of
        None \<Rightarrow> Inr (q, claims)
      | Some ws \<Rightarrow>
          if ws_schema_version ws = [] \<or> ws_snapshot_digest ws = [] \<or> ws_dependency_lock_digest ws = []
            \<or> ws_toolchain_digest ws = [] \<or> ws_environment_digest ws = []
          then Inl (ValueError, ''workspace snapshot is not canonical snapshot data'')
          else if iq_workspace_snapshot_digest q \<noteq> [] \<and> iq_workspace_snapshot_digest q \<noteq> ws_snapshot_digest ws
          then Inl (ValueError, ''workspace snapshot digest conflicts with canonical snapshot'')
          else Inr (q\<lparr>iq_workspace_snapshot_digest := ws_snapshot_digest ws,
                      iq_dependency_lock_digest := ws_dependency_lock_digest ws,
                      iq_toolchain_digest := ws_toolchain_digest ws,
                      iq_environment_digest := ws_environment_digest ws\<rparr>,
                    AList.update ''workspace_snapshot_exclusion_policy_digest'' (PStr (ws_exclusion_policy_digest ws))
                      (AList.update ''workspace_snapshot_schema'' (PStr (ws_schema_version ws)) claims)))"

text \<open>The manifest digest and the digest of the primary artifact; blank for schema 1.\<close>

definition primary_binding :: "crypto \<Rightarrow> receipt_request \<Rightarrow> (string \<times> string) res" where
  "primary_binding cr q =
     (if iq_schema_version q < 2 then Inr ([], [])
      else case iq_artifact_digests q of
        None \<Rightarrow> Inl (ValueError, ''schema v2 issuance needs artifact_digests and a primary artifact name'')
      | Some arts \<Rightarrow>
          if iq_primary_artifact_name q = []
          then Inl (ValueError, ''schema v2 issuance needs artifact_digests and a primary artifact name'')
          else bnd (artifact_manifest_digest cr arts) (\<lambda>manifest.
            case dget arts (iq_primary_artifact_name q) of
              None \<Rightarrow> Inl (ValueError, ''primary artifact is absent from the artifact manifest'')
            | Some primary \<Rightarrow>
                if primary \<noteq> iq_candidate_artifact_digest q
                then Inl (ValueError, ''candidate digest must match the declared primary artifact'')
                else Inr (manifest, primary)))"

definition unsigned_receipt :: "receipt_signer \<Rightarrow> receipt_request \<Rightarrow> pydict \<Rightarrow> string \<times> string \<Rightarrow> dtime \<Rightarrow> string \<Rightarrow> receipt" where
  "unsigned_receipt s q claims mp issued nonce =
     \<lparr>rc_receipt_type = iq_receipt_type q, rc_run_id = iq_run_id q, rc_intent_digest = iq_intent_digest q,
      rc_candidate_artifact_digest = iq_candidate_artifact_digest q,
      rc_evaluator_image_digest = iq_evaluator_image_digest q, rc_test_suite_digest = iq_test_suite_digest q,
      rc_result = iq_result q, rc_nonce = nonce, rc_issued_at = issued, rc_expires_at = dt_add issued (iq_ttl q),
      rc_claims = claims, rc_schema_version = iq_schema_version q, rc_key_id = sg_key_id s,
      rc_contract_digest = iq_contract_digest q, rc_artifact_manifest_digest = fst mp,
      rc_primary_artifact_name = iq_primary_artifact_name q, rc_primary_artifact_digest = snd mp,
      rc_workspace_snapshot_digest = iq_workspace_snapshot_digest q,
      rc_dependency_lock_digest = iq_dependency_lock_digest q, rc_toolchain_digest = iq_toolchain_digest q,
      rc_environment_digest = iq_environment_digest q, rc_verifier_policy_digest = iq_verifier_policy_digest q,
      rc_revocation_epoch = iq_revocation_epoch q, rc_signature = []\<rparr>"

definition receipt_issue :: "crypto \<Rightarrow> receipt_signer \<Rightarrow> receipt_request \<Rightarrow> dtime \<Rightarrow> string \<Rightarrow> receipt res" where
  "receipt_issue cr s q now nonce =
     bnd (graph_claims q) (\<lambda>claims. bnd (apply_snapshot q claims) (\<lambda>(q, claims).
     bnd (primary_binding cr q) (\<lambda>mp.
     bnd (receipt_init (unsigned_receipt s q claims mp now nonce)) (\<lambda>unsigned.
     receipt_init (unsigned\<lparr>rc_signature := ed_sign cr (sg_key s) (receipt_payload unsigned)\<rparr>)))))"

section \<open>Verifying\<close>

record receipt_verifier =
  rv_keys :: "(string \<times> string) list"
  rv_policy :: "receipt_policy option"
  rv_trust_entries :: "(string \<times> receipt_trust) list"
  rv_maximum_ttl :: int
  rv_maximum_age :: int
  rv_clock_skew :: int

definition receipt_verifier_init :: "receipt_verifier \<Rightarrow> receipt_verifier res" where
  "receipt_verifier_init v =
     (if rv_keys v = [] \<or> list_ex blank (dkeys (rv_keys v))
      then Inl (ValueError, ''receipt verifier needs keyed public verification material'')
      else if rv_trust_entries v \<noteq> [] \<and> set (dkeys (rv_trust_entries v)) \<noteq> set (dkeys (rv_keys v))
      then Inl (ValueError, ''receipt trust entries must cover exactly the configured keys'')
      else if (case rv_policy v of None \<Rightarrow> False | Some p \<Rightarrow> \<not> rp_allowed_key_ids p \<subseteq> set (dkeys (rv_keys v)))
      then Inl (ValueError, ''receipt policy names keys unavailable to this verifier'')
      else Inr v)"

definition has_verifier_owned_trust :: "receipt_verifier \<Rightarrow> bool" where
  "has_verifier_owned_trust v \<longleftrightarrow> rv_trust_entries v \<noteq> []"

text \<open>The binding a caller of \<open>validate\<close> expects.\<close>

record expected_receipt =
  xr_receipt_type :: string
  xr_run_id :: string
  xr_intent_digest :: string
  xr_artifact_digests :: "(string \<times> string) list"
  xr_contract_digest :: "string option"
  xr_graph_digest :: "string option"
  xr_graph_node_id :: "string option"
  xr_graph_node_instance_id :: "string option"

definition given :: "string option \<Rightarrow> bool" where
  "given x \<longleftrightarrow> x \<noteq> None \<and> x \<noteq> Some []"

definition claim_is :: "receipt \<Rightarrow> string \<Rightarrow> string option \<Rightarrow> bool" where
  "claim_is r name x \<longleftrightarrow> str_opt (dget (rc_claims r) name) = opt_str_py x"

definition check_binding :: "receipt_verifier \<Rightarrow> receipt \<Rightarrow> expected_receipt \<Rightarrow> int \<Rightarrow> (exc \<times> string) option" where
  "check_binding v r x now =
     (if rc_receipt_type r \<noteq> xr_receipt_type x then Some (ReceiptRejected, ''receipt type does not match verifier'')
      else if rc_run_id r \<noteq> xr_run_id x \<or> rc_intent_digest r \<noteq> xr_intent_digest x
      then Some (ReceiptRejected, ''receipt is not bound to this run and intent'')
      else if given (xr_graph_digest x) \<noteq> given (xr_graph_node_id x)
      then Some (ValueError, ''expected receipt graph digest and node must be supplied together'')
      else if xr_graph_node_instance_id x \<noteq> None \<and> xr_graph_digest x = None
      then Some (ValueError, ''expected node instance needs an expected graph binding'')
      else if given (xr_graph_digest x) \<and> (\<not> claim_is r ''graph_digest'' (xr_graph_digest x)
        \<or> \<not> claim_is r ''graph_node_id'' (xr_graph_node_id x))
      then Some (ReceiptRejected, ''receipt is not bound to the expected graph node'')
      else if xr_graph_node_instance_id x \<noteq> None
        \<and> \<not> claim_is r ''graph_node_instance_id'' (xr_graph_node_instance_id x)
      then Some (ReceiptRejected, ''receipt is not bound to the expected graph node instance'')
      else if instant (rc_expires_at r) \<le> now \<or> instant (rc_issued_at r) > now + rv_clock_skew v
        \<or> now - instant (rc_issued_at r) > rv_maximum_age v
        \<or> instant (rc_expires_at r) - instant (rc_issued_at r) > rv_maximum_ttl v
      then Some (ReceiptRejected, ''receipt is expired or not yet valid'')
      else None)"

definition check_signature :: "crypto \<Rightarrow> receipt_verifier \<Rightarrow> receipt \<Rightarrow> (exc \<times> string) option" where
  "check_signature cr v r =
     (case dget (rv_keys v) (rc_key_id r) of
        None \<Rightarrow> Some (ReceiptRejected, ''receipt key is not trusted'')
      | Some key \<Rightarrow> if \<not> ed_verify cr key (receipt_payload r) (rc_signature r)
          then Some (ReceiptRejected, ''invalid receipt signature'') else None)"

definition trust_active :: "receipt_trust \<Rightarrow> int \<Rightarrow> bool" where
  "trust_active t now \<longleftrightarrow> instant (rt_valid_from t) \<le> now \<and> now < instant (rt_valid_until t)
     \<and> (case rt_revoked_at t of None \<Rightarrow> True | Some off \<Rightarrow> now < instant off)"

definition check_trust :: "receipt_verifier \<Rightarrow> receipt \<Rightarrow> int \<Rightarrow> (exc \<times> string) option" where
  "check_trust v r now =
     (case dget (rv_trust_entries v) (rc_key_id r) of
        None \<Rightarrow> None
      | Some t \<Rightarrow>
          if \<not> trust_active t now
          then Some (ReceiptRejected, ''receipt signing key is not currently trusted'')
          else if rc_receipt_type r \<notin> rt_receipt_types t
          then Some (ReceiptRejected, ''receipt type is not authorized for this signing key'')
          else if rc_evaluator_image_digest r \<notin> rt_evaluator_images t
          then Some (ReceiptRejected, ''evaluator identity is not authorized for this signing key'')
          else None)"

definition check_policy :: "crypto \<Rightarrow> receipt_verifier \<Rightarrow> receipt \<Rightarrow> (exc \<times> string) option" where
  "check_policy cr v r =
     (case rv_policy v of
        None \<Rightarrow> None
      | Some p \<Rightarrow>
          if rc_receipt_type r \<noteq> rp_receipt_type p
          then Some (ReceiptRejected, ''receipt does not match its evaluator policy'')
          else if rc_schema_version r < rp_minimum_schema_version p
          then Some (ReceiptRejected, ''receipt schema is below the policy minimum'')
          else if rc_key_id r \<notin> rp_allowed_key_ids p
          then Some (ReceiptRejected, ''receipt signer is not allowed by policy'')
          else if rc_evaluator_image_digest r \<notin> rp_allowed_evaluator_images p
          then Some (ReceiptRejected, ''evaluator image is not allowed by policy'')
          else if rc_test_suite_digest r \<notin> rp_allowed_test_suites p
          then Some (ReceiptRejected, ''test suite is not allowed by policy'')
          else if rc_verifier_policy_digest r \<noteq> receipt_policy_digest cr p
          then Some (ReceiptRejected, ''receipt is bound to a different evaluator policy'')
          else if rp_workspace_snapshot_schema p \<noteq> None
            \<and> \<not> claim_is r ''workspace_snapshot_schema'' (rp_workspace_snapshot_schema p)
          then Some (ReceiptRejected, ''receipt was not generated by the required canonical snapshot service'')
          else if rp_exclusion_policy_digests p \<noteq> {}
            \<and> \<not> hashable (str_opt (dget (rc_claims r) ''workspace_snapshot_exclusion_policy_digest''))
          then Some (TypeError, ''unhashable type'')
          else if rp_exclusion_policy_digests p \<noteq> {}
            \<and> \<not> (\<exists>d \<in> rp_exclusion_policy_digests p. claim_is r ''workspace_snapshot_exclusion_policy_digest'' (Some d))
          then Some (ReceiptRejected, ''receipt used an unapproved workspace exclusion policy'')
          else None)"

text \<open>\<open>contract_digest or (policy.required_contract_digest if policy else None)\<close>\<close>

definition expected_contract :: "receipt_verifier \<Rightarrow> expected_receipt \<Rightarrow> string option" where
  "expected_contract v x =
     (if given (xr_contract_digest x) then xr_contract_digest x
      else case rv_policy v of None \<Rightarrow> None | Some p \<Rightarrow> rp_required_contract_digest p)"

definition check_contract :: "receipt_verifier \<Rightarrow> receipt \<Rightarrow> expected_receipt \<Rightarrow> (exc \<times> string) option" where
  "check_contract v r x =
     (if (case expected_contract v x of None \<Rightarrow> False | Some c \<Rightarrow> rc_contract_digest r \<noteq> c)
      then Some (ReceiptRejected, ''receipt is not bound to this contract'')
      else if (case rv_policy v of None \<Rightarrow> False | Some p \<Rightarrow> given (rp_required_contract_digest p)
        \<and> rp_required_contract_digest p \<noteq> Some (rc_contract_digest r))
      then Some (ReceiptRejected, ''receipt is not bound to the policy contract'')
      else None)"

definition check_artifacts :: "crypto \<Rightarrow> receipt \<Rightarrow> (string \<times> string) list \<Rightarrow> unit res" where
  "check_artifacts cr r arts =
     (if rc_schema_version r \<ge> 2
      then bnd (artifact_manifest_digest cr arts) (\<lambda>manifest.
        if rc_artifact_manifest_digest r \<noteq> manifest
        then Inl (ReceiptRejected, ''receipt artifact manifest does not match executor artifacts'')
        else if dget arts (rc_primary_artifact_name r) \<noteq> Some (rc_primary_artifact_digest r)
        then Inl (ReceiptRejected, ''receipt primary artifact does not match executor artifacts'')
        else if rc_primary_artifact_digest r \<noteq> rc_candidate_artifact_digest r
        then Inl (ReceiptRejected, ''receipt candidate is not the authoritative primary artifact'')
        else Inr ())
      else if rc_candidate_artifact_digest r \<notin> set (map snd arts)
      then Inl (ReceiptRejected, ''development receipt candidate digest is not an executor artifact'')
      else Inr ())"

fun first_error :: "(exc \<times> string) option list \<Rightarrow> unit res" where
  "first_error [] = Inr ()"
| "first_error (None # es) = first_error es"
| "first_error (Some e # es) = Inl e"

definition receipt_validate :: "crypto \<Rightarrow> receipt_verifier \<Rightarrow> receipt \<Rightarrow> expected_receipt \<Rightarrow> int \<Rightarrow> unit res" where
  "receipt_validate cr v r x now =
     bnd (first_error [check_binding v r x now, check_signature cr v r, check_trust v r now,
                       check_policy cr v r, check_contract v r x])
       (\<lambda>_. check_artifacts cr r (xr_artifact_digests x))"

section \<open>What acceptance establishes\<close>

lemma first_error_Inr: "first_error es = Inr u \<longleftrightarrow> (\<forall>e \<in> set es. e = None)"
  by (induction es rule: first_error.induct) auto

lemma receipt_validate_ok:
  "receipt_validate cr v r x now = Inr u \<longleftrightarrow> check_binding v r x now = None \<and> check_signature cr v r = None
     \<and> check_trust v r now = None \<and> check_policy cr v r = None \<and> check_contract v r x = None
     \<and> check_artifacts cr r (xr_artifact_digests x) = Inr ()"
  by (auto simp: receipt_validate_def bnd_eq_Inr first_error_Inr)

lemma if_Some_eq_None [simp]: "((if b then Some e else k) = None) \<longleftrightarrow> \<not> b \<and> k = None"
  by simp

lemma check_bindingD:
  assumes "check_binding v r x now = None"
  shows "rc_receipt_type r = xr_receipt_type x" "rc_run_id r = xr_run_id x" "rc_intent_digest r = xr_intent_digest x"
    and "given (xr_graph_digest x) \<Longrightarrow> claim_is r ''graph_digest'' (xr_graph_digest x) \<and> claim_is r ''graph_node_id'' (xr_graph_node_id x)"
    and "now < instant (rc_expires_at r)" "now - instant (rc_issued_at r) \<le> rv_maximum_age v"
  using assms unfolding check_binding_def if_Some_eq_None by (simp_all add: not_le)

lemma check_signatureD:
  "check_signature cr v r = None \<Longrightarrow>
     \<exists>key. dget (rv_keys v) (rc_key_id r) = Some key \<and> ed_verify cr key (receipt_payload r) (rc_signature r)"
  by (simp add: check_signature_def split: option.splits if_splits)

lemma check_trustD:
  "check_trust v r now = None \<Longrightarrow> dget (rv_trust_entries v) (rc_key_id r) = Some t \<Longrightarrow>
     trust_active t now \<and> rc_receipt_type r \<in> rt_receipt_types t \<and> rc_evaluator_image_digest r \<in> rt_evaluator_images t"
  by (simp add: check_trust_def split: if_splits)

lemma check_policyD:
  assumes "check_policy cr v r = None" "rv_policy v = Some p"
  shows "rc_schema_version r \<ge> rp_minimum_schema_version p" "rc_key_id r \<in> rp_allowed_key_ids p"
    and "rc_evaluator_image_digest r \<in> rp_allowed_evaluator_images p" "rc_test_suite_digest r \<in> rp_allowed_test_suites p"
    and "rc_verifier_policy_digest r = receipt_policy_digest cr p"
  using assms(1) unfolding check_policy_def assms(2) option.case if_Some_eq_None by simp_all

lemma check_contractD:
  assumes "check_contract v r x = None" "xr_contract_digest x = Some c" "c \<noteq> []"
  shows "rc_contract_digest r = c"
  using assms unfolding check_contract_def if_Some_eq_None by (simp add: expected_contract_def given_def)

lemma trust_covers_keys:
  assumes "receipt_verifier_init v = Inr v" "has_verifier_owned_trust v" "dget (rv_keys v) k = Some key"
  shows "\<exists>t. dget (rv_trust_entries v) k = Some t"
proof -
  have "set (dkeys (rv_trust_entries v)) = set (dkeys (rv_keys v))"
    using assms(1,2) unfolding receipt_verifier_init_def has_verifier_owned_trust_def if_Inl_eq_Inr by blast
  then show ?thesis using dget_Some_key [OF assms(3)] dget_None_iff [of "rv_trust_entries v" k]
    by (cases "dget (rv_trust_entries v) k") auto
qed

text \<open>An accepted receipt is signed under a key the verifier owns, for exactly the expected
  type, run, intent, contract and graph node, is neither expired nor too old, its key is covered by
  an active, unrevoked trust entry whatever the receipt says about revocation, and the policy
  pinned by the deployment admits its key, evaluator and test suite.\<close>

theorem receipt_validate_sound:
  assumes "receipt_validate cr v r x now = Inr ()" "receipt_verifier_init v = Inr v" "has_verifier_owned_trust v"
    and "rv_policy v = Some p" "xr_contract_digest x = Some c" "c \<noteq> []" "xr_graph_digest x = Some g" "g \<noteq> []"
  shows "rc_receipt_type r = xr_receipt_type x \<and> rc_run_id r = xr_run_id x \<and> rc_intent_digest r = xr_intent_digest x
     \<and> rc_contract_digest r = c \<and> dget (rc_claims r) ''graph_digest'' = Some (PStr g)
     \<and> now < instant (rc_expires_at r) \<and> now - instant (rc_issued_at r) \<le> rv_maximum_age v
     \<and> (\<exists>key. dget (rv_keys v) (rc_key_id r) = Some key \<and> ed_verify cr key (receipt_payload r) (rc_signature r))
     \<and> (\<exists>t. dget (rv_trust_entries v) (rc_key_id r) = Some t \<and> trust_active t now
          \<and> rc_receipt_type r \<in> rt_receipt_types t \<and> rc_evaluator_image_digest r \<in> rt_evaluator_images t)
     \<and> rc_key_id r \<in> rp_allowed_key_ids p \<and> rc_evaluator_image_digest r \<in> rp_allowed_evaluator_images p
     \<and> rc_test_suite_digest r \<in> rp_allowed_test_suites p
     \<and> rc_verifier_policy_digest r = receipt_policy_digest cr p"
proof -
  note ok = assms(1) [unfolded receipt_validate_ok]
  note b = check_bindingD [OF conjunct1 [OF ok]]
  obtain key where key: "dget (rv_keys v) (rc_key_id r) = Some key" "ed_verify cr key (receipt_payload r) (rc_signature r)"
    using check_signatureD ok by blast
  obtain t where t: "dget (rv_trust_entries v) (rc_key_id r) = Some t"
    using trust_covers_keys [OF assms(2,3) key(1)] by blast
  have "claim_is r ''graph_digest'' (Some g)" using b(4) assms(7,8) by (simp add: given_def)
  then have "dget (rc_claims r) ''graph_digest'' = Some (PStr g)"
    by (auto simp: claim_is_def opt_str_py_def str_opt_def split: option.splits)
  moreover have "rc_contract_digest r = c" using check_contractD [OF _ assms(5,6)] ok by blast
  moreover note check_trustD [OF _ t] and check_policyD [OF _ assms(4)]
  ultimately show ?thesis using b key t ok by blast
qed

section \<open>The signature covers every field\<close>

lemma dkeys_receipt_fields: "distinct (dkeys (receipt_fields r))"
  unfolding receipt_fields_def dkeys_def by simp

lemma wf_receipt_fields: "wf_json (PDict (rc_claims r)) \<Longrightarrow> wf_json (PDict (receipt_fields r))"
  using dkeys_receipt_fields [of r] by (simp add: receipt_fields_def dkeys_def)

lemma dget_receipt_fields:
  shows "dget (receipt_fields r) ''receipt_type'' = Some (PStr (rc_receipt_type r))"
    and "dget (receipt_fields r) ''run_id'' = Some (PStr (rc_run_id r))"
    and "dget (receipt_fields r) ''intent_digest'' = Some (PStr (rc_intent_digest r))"
    and "dget (receipt_fields r) ''candidate_artifact_digest'' = Some (PStr (rc_candidate_artifact_digest r))"
    and "dget (receipt_fields r) ''evaluator_image_digest'' = Some (PStr (rc_evaluator_image_digest r))"
    and "dget (receipt_fields r) ''test_suite_digest'' = Some (PStr (rc_test_suite_digest r))"
    and "dget (receipt_fields r) ''result'' = Some (PStr (rc_result r))"
    and "dget (receipt_fields r) ''nonce'' = Some (PStr (rc_nonce r))"
    and "dget (receipt_fields r) ''key_id'' = Some (PStr (rc_key_id r))"
    and "dget (receipt_fields r) ''contract_digest'' = Some (PStr (rc_contract_digest r))"
    and "dget (receipt_fields r) ''artifact_manifest_digest'' = Some (PStr (rc_artifact_manifest_digest r))"
    and "dget (receipt_fields r) ''primary_artifact_name'' = Some (PStr (rc_primary_artifact_name r))"
    and "dget (receipt_fields r) ''primary_artifact_digest'' = Some (PStr (rc_primary_artifact_digest r))"
    and "dget (receipt_fields r) ''workspace_snapshot_digest'' = Some (PStr (rc_workspace_snapshot_digest r))"
    and "dget (receipt_fields r) ''dependency_lock_digest'' = Some (PStr (rc_dependency_lock_digest r))"
    and "dget (receipt_fields r) ''toolchain_digest'' = Some (PStr (rc_toolchain_digest r))"
    and "dget (receipt_fields r) ''environment_digest'' = Some (PStr (rc_environment_digest r))"
    and "dget (receipt_fields r) ''verifier_policy_digest'' = Some (PStr (rc_verifier_policy_digest r))"
    and "dget (receipt_fields r) ''schema_version'' = Some (PInt (rc_schema_version r))"
    and "dget (receipt_fields r) ''revocation_epoch'' = Some (PInt (rc_revocation_epoch r))"
    and "dget (receipt_fields r) ''issued_at'' = Some (PStr (isoformat (rc_issued_at r)))"
    and "dget (receipt_fields r) ''expires_at'' = Some (PStr (isoformat (rc_expires_at r)))"
    and "dget (receipt_fields r) ''claims'' = Some (PDict (rc_claims r))"
  by (simp_all add: receipt_fields_def dget_Cons)

lemma receipt_fields_norm:
  assumes "norm_dict (receipt_fields r) = norm_dict (receipt_fields s)"
  shows "map_option json_norm (dget (receipt_fields r) k) = map_option json_norm (dget (receipt_fields s) k)"
  using arg_cong [OF assms, of "\<lambda>d. dget d k"] by (simp add: dget_norm_dict)

lemma receipt_fields_str:
  assumes "norm_dict (receipt_fields r) = norm_dict (receipt_fields s)"
  shows "rc_receipt_type r = rc_receipt_type s" "rc_run_id r = rc_run_id s" "rc_intent_digest r = rc_intent_digest s" "rc_candidate_artifact_digest r = rc_candidate_artifact_digest s" "rc_evaluator_image_digest r = rc_evaluator_image_digest s" "rc_test_suite_digest r = rc_test_suite_digest s" "rc_result r = rc_result s" "rc_nonce r = rc_nonce s" "rc_key_id r = rc_key_id s" "rc_contract_digest r = rc_contract_digest s" "rc_artifact_manifest_digest r = rc_artifact_manifest_digest s" "rc_primary_artifact_name r = rc_primary_artifact_name s" "rc_primary_artifact_digest r = rc_primary_artifact_digest s" "rc_workspace_snapshot_digest r = rc_workspace_snapshot_digest s" "rc_dependency_lock_digest r = rc_dependency_lock_digest s" "rc_toolchain_digest r = rc_toolchain_digest s" "rc_environment_digest r = rc_environment_digest s" "rc_verifier_policy_digest r = rc_verifier_policy_digest s"
    and "rc_schema_version r = rc_schema_version s" "rc_revocation_epoch r = rc_revocation_epoch s"
    and "isoformat (rc_issued_at r) = isoformat (rc_issued_at s)" "isoformat (rc_expires_at r) = isoformat (rc_expires_at s)"
    and "norm_dict (rc_claims r) = norm_dict (rc_claims s)"
  using receipt_fields_norm [OF assms, of "''receipt_type''"]
    receipt_fields_norm [OF assms, of "''run_id''"]
    receipt_fields_norm [OF assms, of "''intent_digest''"]
    receipt_fields_norm [OF assms, of "''candidate_artifact_digest''"]
    receipt_fields_norm [OF assms, of "''evaluator_image_digest''"]
    receipt_fields_norm [OF assms, of "''test_suite_digest''"]
    receipt_fields_norm [OF assms, of "''result''"]
    receipt_fields_norm [OF assms, of "''nonce''"]
    receipt_fields_norm [OF assms, of "''key_id''"]
    receipt_fields_norm [OF assms, of "''contract_digest''"]
    receipt_fields_norm [OF assms, of "''artifact_manifest_digest''"]
    receipt_fields_norm [OF assms, of "''primary_artifact_name''"]
    receipt_fields_norm [OF assms, of "''primary_artifact_digest''"]
    receipt_fields_norm [OF assms, of "''workspace_snapshot_digest''"]
    receipt_fields_norm [OF assms, of "''dependency_lock_digest''"]
    receipt_fields_norm [OF assms, of "''toolchain_digest''"]
    receipt_fields_norm [OF assms, of "''environment_digest''"]
    receipt_fields_norm [OF assms, of "''verifier_policy_digest''"]
    receipt_fields_norm [OF assms, of "''schema_version''"]
    receipt_fields_norm [OF assms, of "''revocation_epoch''"]
    receipt_fields_norm [OF assms, of "''issued_at''"]
    receipt_fields_norm [OF assms, of "''expires_at''"]
    receipt_fields_norm [OF assms, of "''claims''"]
  unfolding dget_receipt_fields option.map option.inject json_norm_PDict by simp_all

text \<open>The signature covers every field: two receipts with the same signed payload agree on all
  fields but the signature, their claims being equal as JSON values.\<close>

theorem receipt_payload_binds:
  assumes "wf_json (PDict (rc_claims r))" "wf_json (PDict (rc_claims s))"
    and "iso_ok (rc_issued_at r)" "iso_ok (rc_issued_at s)" "iso_ok (rc_expires_at r)" "iso_ok (rc_expires_at s)"
    and "receipt_payload r = receipt_payload s"
  shows "s\<lparr>rc_claims := norm_dict (rc_claims s), rc_signature := []\<rparr> = r\<lparr>rc_claims := norm_dict (rc_claims r), rc_signature := []\<rparr>"
proof -
  have n: "norm_dict (receipt_fields r) = norm_dict (receipt_fields s)"
    using canonical_json_inj [OF wf_receipt_fields [OF assms(1)] wf_receipt_fields [OF assms(2)]] assms(7)
    unfolding receipt_payload_def json_norm_PDict by simp
  note f = receipt_fields_str [OF n]
  have "rc_issued_at r = rc_issued_at s" "rc_expires_at r = rc_expires_at s"
    using f(21,22) assms(3-6) unfolding iso_ok_def by (metis option.inject)+
  then show ?thesis using f(1-20,23) by (cases r; cases s) simp
qed

section \<open>Round trips\<close>

lemma receipt_mapping_lookup:
  "k \<noteq> ''signature'' \<Longrightarrow> dget (receipt_mapping r) k = dget (receipt_fields r) k"
  "dget (receipt_mapping r) ''signature'' = Some (PStr (rc_signature r))"
  by (simp_all add: receipt_mapping_def receipt_fields_def dget_def map_add_def)

lemma receipt_error_claims [simp]: "receipt_error (r\<lparr>rc_claims := d\<rparr>) = receipt_error r"
  by (simp add: receipt_error_def receipt_required_def receipt_bindings_def)

lemma receipt_error_signature [simp]: "receipt_error (r\<lparr>rc_signature := d\<rparr>) = receipt_error r"
  by (simp add: receipt_error_def receipt_required_def receipt_bindings_def)

lemma receipt_payload_signature [simp]: "receipt_payload (r\<lparr>rc_signature := d\<rparr>) = receipt_payload r"
  by (simp add: receipt_payload_def receipt_fields_def)

lemma receipt_payload_norm_claims [simp]: "receipt_payload (r\<lparr>rc_claims := norm_dict (rc_claims r)\<rparr>) = receipt_payload r"
proof -
  have "json_norm (PDict (receipt_fields (r\<lparr>rc_claims := norm_dict (rc_claims r)\<rparr>))) = json_norm (PDict (receipt_fields r))"
    by (rule json_norm_PDict_cong)
      (simp add: receipt_fields_def json_norm_PDict [of "rc_claims r"] json_norm_PDict [of "norm_dict (rc_claims r)"]
        del: json_norm.simps(3))
  then show ?thesis unfolding receipt_payload_def by (metis canonical_json_norm)
qed

lemma receipt_from_own_mapping:
  assumes "receipt_init r = Inr r" "iso_ok (rc_issued_at r)" "iso_ok (rc_expires_at r)"
  shows "receipt_from_mapping (receipt_mapping r) = Inr r"
  using assms unfolding receipt_from_mapping_def fld_def fld_or_def dreq_def ddef_def
  by (cases r) (simp add: receipt_mapping_lookup dget_receipt_fields)

text \<open>A receipt sent as a JSON mapping and read back is the same receipt, its claims normalised,
  and its signed payload is unchanged, so a signature still verifies.\<close>

theorem receipt_roundtrip:
  assumes "receipt_init r = Inr r" "iso_ok (rc_issued_at r)" "iso_ok (rc_expires_at r)"
  shows "\<exists>s. receipt_from_mapping (norm_dict (receipt_mapping r)) = Inr s
     \<and> s = r\<lparr>rc_claims := norm_dict (rc_claims r)\<rparr> \<and> receipt_payload s = receipt_payload r"
proof -
  have "receipt_init (r\<lparr>rc_claims := norm_dict (rc_claims r)\<rparr>) = Inr (r\<lparr>rc_claims := norm_dict (rc_claims r)\<rparr>)"
    using assms(1) by (simp add: receipt_init_Inr)
  then have "receipt_from_mapping (norm_dict (receipt_mapping r)) = Inr (r\<lparr>rc_claims := norm_dict (rc_claims r)\<rparr>)"
    using assms(2,3) unfolding receipt_from_mapping_def fld_norm fld_or_norm
    by (cases r) (simp add: receipt_mapping_lookup dget_receipt_fields json_norm_PDict del: json_norm.simps(3))
  then show ?thesis by simp
qed

text \<open>What a verifier expects of a receipt issued for \<open>q\<close>, and what its policy asks of \<open>q\<close>.\<close>

definition expected_of :: "receipt_request \<Rightarrow> (string \<times> string) list \<Rightarrow> expected_receipt" where
  "expected_of q arts = \<lparr>xr_receipt_type = iq_receipt_type q, xr_run_id = iq_run_id q,
     xr_intent_digest = iq_intent_digest q, xr_artifact_digests = arts, xr_contract_digest = Some (iq_contract_digest q),
     xr_graph_digest = Some (iq_graph_digest q), xr_graph_node_id = Some (iq_graph_node_id q),
     xr_graph_node_instance_id = (if iq_graph_node_instance_id q = [] then None else Some (iq_graph_node_instance_id q))\<rparr>"

definition policy_admits :: "crypto \<Rightarrow> receipt_policy \<Rightarrow> receipt_signer \<Rightarrow> receipt_request \<Rightarrow> bool" where
  "policy_admits cr p s q \<longleftrightarrow> iq_receipt_type q = rp_receipt_type p \<and> rp_minimum_schema_version p \<le> iq_schema_version q
     \<and> sg_key_id s \<in> rp_allowed_key_ids p \<and> iq_evaluator_image_digest q \<in> rp_allowed_evaluator_images p
     \<and> iq_test_suite_digest q \<in> rp_allowed_test_suites p \<and> iq_verifier_policy_digest q = receipt_policy_digest cr p
     \<and> rp_required_contract_digest p \<in> {None, Some (iq_contract_digest q)}
     \<and> rp_workspace_snapshot_schema p = map_option ws_schema_version (iq_workspace_snapshot q)
     \<and> (case iq_workspace_snapshot q of None \<Rightarrow> rp_exclusion_policy_digests p = {}
          | Some ws \<Rightarrow> rp_exclusion_policy_digests p \<in> {{}, {ws_exclusion_policy_digest ws}})"

lemma bind_claim_dget:
  "bind_claim k v c = Inr d \<Longrightarrow> dget d = (dget c)(k \<mapsto> PStr v)"
  by (auto simp: bind_claim_def split: if_splits)

lemma graph_claims_dget:
  assumes "graph_claims q = Inr c"
  shows "iq_graph_digest q \<noteq> [] \<Longrightarrow> dget c ''graph_digest'' = Some (PStr (iq_graph_digest q))"
    and "iq_graph_digest q \<noteq> [] \<Longrightarrow> dget c ''graph_node_id'' = Some (PStr (iq_graph_node_id q))"
    and "iq_graph_node_instance_id q \<noteq> [] \<Longrightarrow> dget c ''graph_node_instance_id'' = Some (PStr (iq_graph_node_instance_id q))"
    and "(iq_graph_digest q \<noteq> []) = (iq_graph_node_id q \<noteq> [])"
    and "iq_graph_digest q = [] \<Longrightarrow> iq_graph_node_instance_id q = []"
  using assms unfolding graph_claims_def
  by (auto simp: bnd_eq_Inr dest!: bind_claim_dget split: if_splits)

lemma apply_snapshot_Inr:
  assumes "apply_snapshot q c = Inr (q', c')"
  shows "q' = q\<lparr>iq_workspace_snapshot_digest := iq_workspace_snapshot_digest q', iq_dependency_lock_digest := iq_dependency_lock_digest q',
      iq_toolchain_digest := iq_toolchain_digest q', iq_environment_digest := iq_environment_digest q'\<rparr>"
    and "k \<noteq> ''workspace_snapshot_schema'' \<Longrightarrow> k \<noteq> ''workspace_snapshot_exclusion_policy_digest'' \<Longrightarrow> dget c' k = dget c k"
    and "iq_workspace_snapshot q = Some ws \<Longrightarrow> dget c' ''workspace_snapshot_schema'' = Some (PStr (ws_schema_version ws))
      \<and> dget c' ''workspace_snapshot_exclusion_policy_digest'' = Some (PStr (ws_exclusion_policy_digest ws))"
  using assms by (auto simp: apply_snapshot_def split: option.splits if_splits)

lemma receipt_issue_Inr:
  assumes "receipt_issue cr s q now nonce = Inr r"
  obtains c q' c' mp where "graph_claims q = Inr c" "apply_snapshot q c = Inr (q', c')"
    "primary_binding cr q' = Inr mp" "receipt_error (unsigned_receipt s q' c' mp now nonce) = None"
    "r = (unsigned_receipt s q' c' mp now nonce)\<lparr>rc_signature := ed_sign cr (sg_key s) (receipt_payload (unsigned_receipt s q' c' mp now nonce))\<rparr>"
  using assms unfolding receipt_issue_def bnd_eq_Inr
  by (auto simp: bnd_eq_Inr receipt_init_Inr split: prod.splits)

lemma primary_binding_Inr:
  assumes "primary_binding cr q = Inr mp" "2 \<le> iq_schema_version q"
  shows "\<exists>arts. iq_artifact_digests q = Some arts \<and> artifact_manifest_digest cr arts = Inr (fst mp)
    \<and> dget arts (iq_primary_artifact_name q) = Some (snd mp) \<and> snd mp = iq_candidate_artifact_digest q"
  using assms by (auto simp: primary_binding_def bnd_eq_Inr split: option.splits if_splits)

lemma claim_isI: "dget (rc_claims r) k = Some (PStr x) \<Longrightarrow> claim_is r k (Some x)"
  by (simp add: claim_is_def opt_str_py_def str_opt_def)

lemma check_policy_admitted:
  assumes "rv_policy v = Some p" "policy_admits cr p s q"
    and "rc_receipt_type r = iq_receipt_type q" "rc_schema_version r = iq_schema_version q" "rc_key_id r = sg_key_id s"
    and "rc_evaluator_image_digest r = iq_evaluator_image_digest q" "rc_test_suite_digest r = iq_test_suite_digest q"
    and "rc_verifier_policy_digest r = iq_verifier_policy_digest q"
    and "\<And>ws. iq_workspace_snapshot q = Some ws \<Longrightarrow> claim_is r ''workspace_snapshot_schema'' (Some (ws_schema_version ws))"
    and "\<And>ws. iq_workspace_snapshot q = Some ws \<Longrightarrow>
      claim_is r ''workspace_snapshot_exclusion_policy_digest'' (Some (ws_exclusion_policy_digest ws))"
    and "\<And>ws. iq_workspace_snapshot q = Some ws \<Longrightarrow>
      dget (rc_claims r) ''workspace_snapshot_exclusion_policy_digest'' = Some (PStr (ws_exclusion_policy_digest ws))"
  shows "check_policy cr v r = None"
proof -
  note adm = assms(2) [unfolded policy_admits_def]
  have schema: "rp_workspace_snapshot_schema p = None \<or> claim_is r ''workspace_snapshot_schema'' (rp_workspace_snapshot_schema p)"
    using adm assms(9) by (cases "iq_workspace_snapshot q") simp_all
  have excl: "rp_exclusion_policy_digests p = {} \<or>
      hashable (str_opt (dget (rc_claims r) ''workspace_snapshot_exclusion_policy_digest''))
      \<and> (\<exists>d \<in> rp_exclusion_policy_digests p. claim_is r ''workspace_snapshot_exclusion_policy_digest'' (Some d))"
    using adm assms(10,11) by (cases "iq_workspace_snapshot q") (auto simp: str_opt_def)
  show ?thesis
    using schema excl adm assms(3-8) unfolding check_policy_def assms(1) option.case if_Some_eq_None by simp blast
qed

text \<open>What an evaluator issues (schema 2), a verifier that owns the evaluator's public key, whose
  trust entry for it is active and whose policy admits the request, accepts until the receipt expires.\<close>

theorem receipt_issue_validates:
  assumes "ed25519_spec cr" "receipt_issue cr s q (utc t) nonce = Inr r" "iq_schema_version q = 2"
    and "iq_artifact_digests q = Some arts" "dget (rv_keys v) (sg_key_id s) = Some (signer_public_key cr s)"
    and "t \<le> now" "now < t + iq_ttl q" "iq_ttl q \<le> rv_maximum_ttl v" "now - t \<le> rv_maximum_age v" "0 \<le> rv_clock_skew v"
    and "\<And>e. dget (rv_trust_entries v) (sg_key_id s) = Some e \<Longrightarrow> trust_active e now
      \<and> iq_receipt_type q \<in> rt_receipt_types e \<and> iq_evaluator_image_digest q \<in> rt_evaluator_images e"
    and "\<And>p. rv_policy v = Some p \<Longrightarrow> policy_admits cr p s q"
  shows "receipt_validate cr v r (expected_of q arts) now = Inr ()"
proof -
  obtain c q' c' mp where i: "graph_claims q = Inr c" "apply_snapshot q c = Inr (q', c')" "primary_binding cr q' = Inr mp"
    and r: "r = (unsigned_receipt s q' c' mp (utc t) nonce)\<lparr>rc_signature := ed_sign cr (sg_key s)
        (receipt_payload (unsigned_receipt s q' c' mp (utc t) nonce))\<rparr>"
    using receipt_issue_Inr [OF assms(2)] by metis
  note q' = apply_snapshot_Inr(1) [OF i(2)]
  have same: "iq_receipt_type q' = iq_receipt_type q" "iq_run_id q' = iq_run_id q" "iq_intent_digest q' = iq_intent_digest q"
    "iq_evaluator_image_digest q' = iq_evaluator_image_digest q" "iq_test_suite_digest q' = iq_test_suite_digest q"
    "iq_contract_digest q' = iq_contract_digest q" "iq_artifact_digests q' = Some arts" "iq_ttl q' = iq_ttl q"
    "iq_verifier_policy_digest q' = iq_verifier_policy_digest q" "iq_schema_version q' = 2"
    "iq_candidate_artifact_digest q' = iq_candidate_artifact_digest q"
    using assms(3,4) by (subst q', simp)+
  have f: "rc_receipt_type r = iq_receipt_type q" "rc_run_id r = iq_run_id q" "rc_intent_digest r = iq_intent_digest q"
    "rc_evaluator_image_digest r = iq_evaluator_image_digest q" "rc_test_suite_digest r = iq_test_suite_digest q"
    "rc_contract_digest r = iq_contract_digest q" "rc_schema_version r = 2" "rc_key_id r = sg_key_id s" "rc_claims r = c'"
    "rc_verifier_policy_digest r = iq_verifier_policy_digest q" "instant (rc_issued_at r) = t"
    "instant (rc_expires_at r) = t + iq_ttl q" "rc_artifact_manifest_digest r = fst mp"
    "rc_primary_artifact_name r = iq_primary_artifact_name q'" "rc_primary_artifact_digest r = snd mp"
    "rc_candidate_artifact_digest r = iq_candidate_artifact_digest q"
    using same by (simp_all add: r unsigned_receipt_def utc_def dt_add_def)
  have claims: "iq_graph_digest q \<noteq> [] \<Longrightarrow> claim_is r ''graph_digest'' (Some (iq_graph_digest q))"
    "iq_graph_digest q \<noteq> [] \<Longrightarrow> claim_is r ''graph_node_id'' (Some (iq_graph_node_id q))"
    "iq_graph_node_instance_id q \<noteq> [] \<Longrightarrow> claim_is r ''graph_node_instance_id'' (Some (iq_graph_node_instance_id q))"
    using graph_claims_dget(1-3) [OF i(1)] apply_snapshot_Inr(2) [OF i(2)] f(9) by (simp_all add: claim_isI)
  have "check_binding v r (expected_of q arts) now = None"
    using claims graph_claims_dget(4,5) [OF i(1)] assms(6-10)
    unfolding check_binding_def if_Some_eq_None by (auto simp: f expected_of_def given_def)
  moreover have "check_signature cr v r = None"
  proof -
    have "rc_signature r = ed_sign cr (sg_key s) (receipt_payload r)" by (simp add: r)
    then show ?thesis using assms(1,5) by (simp add: check_signature_def f(8) ed25519_spec_def signer_public_key_def)
  qed
  moreover have "check_trust v r now = None"
    using assms(11) by (auto simp: check_trust_def f split: option.splits)
  moreover have "check_policy cr v r = None"
  proof (cases "rv_policy v")
    case (Some p)
    have sn: "claim_is r ''workspace_snapshot_schema'' (Some (ws_schema_version ws))"
      "claim_is r ''workspace_snapshot_exclusion_policy_digest'' (Some (ws_exclusion_policy_digest ws))"
      "dget (rc_claims r) ''workspace_snapshot_exclusion_policy_digest'' = Some (PStr (ws_exclusion_policy_digest ws))"
      if "iq_workspace_snapshot q = Some ws" for ws
      using apply_snapshot_Inr(3) [OF i(2) that] f(9) by (simp_all add: claim_isI)
    show ?thesis
      by (rule check_policy_admitted [OF Some assms(12) [OF Some] f(1) _ f(8,4,5,10) sn]) (simp_all add: f(7) assms(3))
  qed (simp add: check_policy_def)
  moreover have "check_contract v r (expected_of q arts) = None"
    using assms(12) unfolding check_contract_def if_Some_eq_None
    by (cases "rv_policy v") (auto simp: expected_contract_def given_def expected_of_def f policy_admits_def)
  moreover have "check_artifacts cr r (xr_artifact_digests (expected_of q arts)) = Inr ()"
    using primary_binding_Inr [OF i(3)] same by (auto simp: check_artifacts_def f expected_of_def)
  ultimately show ?thesis unfolding receipt_validate_ok by blast
qed

text \<open>An accepted receipt speaks of exactly the artifacts the executor reported: whatever artifact
  set the evaluator hashed into its manifest is, as a map, the set the verifier was given, unless two
  different texts with one hash are exhibited; and the judged candidate is one of them.\<close>

theorem receipt_binds_artifacts:
  assumes "receipt_validate cr v r x now = Inr ()" "rc_schema_version r = 2"
    and "rc_artifact_manifest_digest r = digest cr (artifacts_py judged)" "distinct (dkeys judged)"
    and "distinct (dkeys (xr_artifact_digests x))"
  shows "(dget judged = dget (xr_artifact_digests x)
       \<and> dget judged (rc_primary_artifact_name r) = Some (rc_candidate_artifact_digest r))
     \<or> collision cr (canonical_json (artifacts_py judged)) (canonical_json (artifacts_py (xr_artifact_digests x)))"
proof -
  have a: "check_artifacts cr r (xr_artifact_digests x) = Inr ()" using assms(1) receipt_validate_ok by blast
  then have m: "artifact_manifest_digest cr (xr_artifact_digests x) = Inr (rc_artifact_manifest_digest r)"
    and p: "dget (xr_artifact_digests x) (rc_primary_artifact_name r) = Some (rc_candidate_artifact_digest r)"
    using assms(2) by (auto simp: check_artifacts_def bnd_eq_Inr)
  have wf: "wf_json (artifacts_py d)" if "distinct (dkeys d)" for d
    using that dkeys_map_value [of PStr d] by (auto simp: artifacts_py_def dkeys_def list_all_iff comp_def case_prod_unfold)
  have d: "digest cr (artifacts_py judged) = digest cr (artifacts_py (xr_artifact_digests x))"
    using m assms(3) by (auto simp: artifact_manifest_digest_def split: if_splits)
  show ?thesis
  proof (cases rule: digest_eq_cases [OF wf [OF assms(4)] wf [OF assms(5)] d])
    case 1
    then have n: "norm_dict (map (\<lambda>(k, v). (k, PStr v)) judged) = norm_dict (map (\<lambda>(k, v). (k, PStr v)) (xr_artifact_digests x))"
      unfolding artifacts_py_def json_norm_PDict by simp
    have "dget judged k = dget (xr_artifact_digests x) k" for k
      using arg_cong [OF n, of "\<lambda>d. dget d k"]
      by (cases "dget judged k"; cases "dget (xr_artifact_digests x) k") (simp_all add: dget_norm_dict dget_map_value)
    then have "dget judged = dget (xr_artifact_digests x)" by blast
    with p show ?thesis by simp
  qed blast
qed

section \<open>A concrete receipt\<close>

definition sample_policy :: receipt_policy where
  "sample_policy = \<lparr>rp_receipt_type = ''tests'', rp_allowed_key_ids = {''k''}, rp_allowed_evaluator_images = {''img''},
     rp_allowed_test_suites = {''suite''}, rp_minimum_schema_version = 2, rp_minimum_revocation_epoch = 0,
     rp_required_contract_digest = None, rp_workspace_snapshot_schema = None, rp_exclusion_policy_digests = {}\<rparr>"

definition sample_trust :: receipt_trust where
  "sample_trust = \<lparr>rt_key_id = ''k'', rt_valid_from = utc 0, rt_valid_until = utc (minutes 60), rt_receipt_types = {''tests''},
     rt_evaluator_images = {''img''}, rt_revoked_at = None\<rparr>"

definition sample_verifier :: receipt_verifier where
  "sample_verifier = \<lparr>rv_keys = [(''k'', ''sk'')], rv_policy = Some sample_policy, rv_trust_entries = [(''k'', sample_trust)],
     rv_maximum_ttl = minutes 15, rv_maximum_age = minutes 15, rv_clock_skew = seconds 30\<rparr>"

definition sample_signer :: receipt_signer where
  "sample_signer = \<lparr>sg_key_id = ''k'', sg_key = ''sk''\<rparr>"

definition sample_receipt_request :: receipt_request where
  "sample_receipt_request = \<lparr>iq_receipt_type = ''tests'', iq_run_id = ''run'', iq_intent_digest = replicate 64 (CHR ''0''),
     iq_candidate_artifact_digest = ''d'', iq_evaluator_image_digest = ''img'', iq_test_suite_digest = ''suite'',
     iq_result = ''pass'', iq_contract_digest = replicate 64 (CHR ''0''), iq_artifact_digests = Some [(''out'', ''d'')],
     iq_primary_artifact_name = ''out'', iq_workspace_snapshot_digest = ''w'', iq_dependency_lock_digest = ''l'',
     iq_toolchain_digest = ''t'', iq_environment_digest = ''e'', iq_verifier_policy_digest = replicate 64 (CHR ''0''),
     iq_workspace_snapshot = None, iq_revocation_epoch = 0, iq_claims = [],
     iq_graph_digest = replicate 64 (CHR ''a''), iq_graph_node_id = ''n'', iq_graph_node_instance_id = ''inst'',
     iq_ttl = minutes 10, iq_schema_version = 2\<rparr>"

definition sample_claims :: pydict where
  "sample_claims = [(''graph_digest'', PStr (replicate 64 (CHR ''a''))), (''graph_node_id'', PStr ''n''),
     (''graph_node_instance_id'', PStr ''inst'')]"

definition sample_unsigned :: receipt where
  "sample_unsigned = unsigned_receipt sample_signer sample_receipt_request sample_claims (replicate 64 (CHR ''0''), ''d'') (utc 0) ''nonce''"

definition sample_receipt :: receipt where
  "sample_receipt = sample_unsigned\<lparr>rc_signature := ed_sign toy_crypto ''sk'' (receipt_payload sample_unsigned)\<rparr>"

lemma sample_receipt_issued:
  "receipt_issue toy_crypto sample_signer sample_receipt_request (utc 0) ''nonce'' = Inr sample_receipt"
proof -
  have g: "graph_claims sample_receipt_request = Inr sample_claims" by code_simp
  have a: "apply_snapshot sample_receipt_request sample_claims = Inr (sample_receipt_request, sample_claims)"
    by (simp add: apply_snapshot_def sample_receipt_request_def)
  have p: "primary_binding toy_crypto sample_receipt_request = Inr (replicate 64 (CHR ''0''), ''d'')"
    by (simp add: primary_binding_def sample_receipt_request_def artifact_manifest_digest_def digest_def toy_crypto_def dget_def)
  have e: "receipt_error sample_unsigned = None" by code_simp
  show ?thesis
    using e unfolding receipt_issue_def g bnd_simps a prod.case p
    by (simp add: sample_unsigned_def [symmetric] sample_receipt_def receipt_init_Inr)
      (simp add: receipt_init_def sample_signer_def)
qed

lemma sample_policy_admits: "policy_admits toy_crypto sample_policy sample_signer sample_receipt_request"
  by (simp add: policy_admits_def sample_policy_def sample_signer_def sample_receipt_request_def receipt_policy_digest_def
      digest_def toy_crypto_def)

theorem receipt_issue_validates_witness:
  "receipt_validate toy_crypto sample_verifier sample_receipt (expected_of sample_receipt_request [(''out'', ''d'')]) 1 = Inr ()"
proof -
  have q: "iq_schema_version sample_receipt_request = 2" "iq_artifact_digests sample_receipt_request = Some [(''out'', ''d'')]"
    "iq_ttl sample_receipt_request = minutes 10" "iq_receipt_type sample_receipt_request = ''tests''"
    "iq_evaluator_image_digest sample_receipt_request = ''img''"
    by (simp_all add: sample_receipt_request_def)
  show ?thesis
    by (rule receipt_issue_validates [OF toy_crypto_spec(2) sample_receipt_issued q(1,2)])
      (auto simp: q sample_verifier_def sample_signer_def signer_public_key_def toy_crypto_def minutes_def seconds_def
        dget_def sample_trust_def trust_active_def utc_def sample_policy_admits [unfolded toy_crypto_def sample_signer_def]
        split: if_splits)
qed

definition sample_expected :: expected_receipt where
  "sample_expected = expected_of sample_receipt_request [(''out'', ''d'')]"

lemma sample_receipt_accepted: "receipt_validate toy_crypto sample_verifier sample_receipt sample_expected 1 = Inr ()"
proof -
  have er: "rc_claims sample_receipt = sample_claims" "rc_key_id sample_receipt = ''k''" "rc_schema_version sample_receipt = 2"
    by (simp_all add: sample_receipt_def sample_unsigned_def unsigned_receipt_def sample_signer_def sample_receipt_request_def)
  have "check_binding sample_verifier sample_receipt sample_expected 1 = None"
    by (simp add: check_binding_def claim_is_def er)
      (simp add: sample_receipt_def sample_unsigned_def unsigned_receipt_def sample_expected_def expected_of_def
        sample_receipt_request_def given_def sample_claims_def dget_def opt_str_py_def str_opt_def sample_verifier_def
        utc_def dt_add_def minutes_def seconds_def)
  moreover have "check_signature toy_crypto sample_verifier sample_receipt = None"
    by (simp add: check_signature_def er sample_verifier_def dget_def) (simp add: sample_receipt_def toy_crypto_def)
  moreover have "check_trust sample_verifier sample_receipt 1 = None"
    by (simp add: check_trust_def er sample_verifier_def dget_def sample_trust_def trust_active_def utc_def minutes_def)
      (simp add: sample_receipt_def sample_unsigned_def unsigned_receipt_def sample_receipt_request_def)
  moreover have "check_policy toy_crypto sample_verifier sample_receipt = None"
    by (simp add: check_policy_def er sample_verifier_def sample_policy_def receipt_policy_digest_def digest_def toy_crypto_def)
      (simp add: sample_receipt_def sample_unsigned_def unsigned_receipt_def sample_receipt_request_def)
  moreover have "check_contract sample_verifier sample_receipt sample_expected = None"
    by (simp add: check_contract_def expected_contract_def sample_verifier_def sample_policy_def sample_expected_def expected_of_def
        sample_receipt_request_def given_def sample_receipt_def sample_unsigned_def unsigned_receipt_def)
  moreover have "check_artifacts toy_crypto sample_receipt (xr_artifact_digests sample_expected) = Inr ()"
    by (simp add: check_artifacts_def er sample_expected_def expected_of_def artifact_manifest_digest_def digest_def toy_crypto_def dget_def)
      (simp add: sample_receipt_def sample_unsigned_def unsigned_receipt_def sample_receipt_request_def)
  ultimately show ?thesis unfolding receipt_validate_ok by blast
qed

lemma sample_verifier_ok: "receipt_verifier_init sample_verifier = Inr sample_verifier" "has_verifier_owned_trust sample_verifier"
  by code_simp+

theorem receipt_validate_sound_witness:
  "rc_contract_digest sample_receipt = replicate 64 (CHR ''0'') \<and> rc_verifier_policy_digest sample_receipt = receipt_policy_digest toy_crypto sample_policy"
proof -
  have "rv_policy sample_verifier = Some sample_policy" by (simp add: sample_verifier_def)
  moreover have "xr_contract_digest sample_expected = Some (replicate 64 (CHR ''0''))" "xr_graph_digest sample_expected = Some (replicate 64 (CHR ''a''))"
    by (simp_all add: sample_expected_def expected_of_def sample_receipt_request_def)
  ultimately show ?thesis
    using receipt_validate_sound [OF sample_receipt_accepted sample_verifier_ok, of sample_policy "replicate 64 (CHR ''0'')" "replicate 64 (CHR ''a'')"]
    by simp
qed

theorem receipt_binds_artifacts_witness:
  "(dget [(''out'', ''d'')] = dget (xr_artifact_digests sample_expected)
      \<and> dget [(''out'', ''d'')] (rc_primary_artifact_name sample_receipt) = Some (rc_candidate_artifact_digest sample_receipt))
    \<or> collision toy_crypto (canonical_json (artifacts_py [(''out'', ''d'')])) (canonical_json (artifacts_py (xr_artifact_digests sample_expected)))"
  by (rule receipt_binds_artifacts [OF sample_receipt_accepted])
    (simp_all add: sample_receipt_def sample_unsigned_def unsigned_receipt_def sample_receipt_request_def digest_def
      toy_crypto_def dkeys_def sample_expected_def expected_of_def)

lemma sample_times: "iso_ok (utc 0)" "iso_ok (dt_add (utc 0) (minutes 10))"
  by (rule iso_ok_epoch) code_simp

theorem receipt_roundtrip_witness:
  "\<exists>s. receipt_from_mapping (norm_dict (receipt_mapping sample_unsigned)) = Inr s
     \<and> s = sample_unsigned\<lparr>rc_claims := norm_dict (rc_claims sample_unsigned)\<rparr> \<and> receipt_payload s = receipt_payload sample_unsigned"
proof (rule receipt_roundtrip)
  show "receipt_init sample_unsigned = Inr sample_unsigned" by code_simp
qed (use sample_times in \<open>simp_all add: sample_unsigned_def unsigned_receipt_def sample_receipt_request_def\<close>)

theorem receipt_payload_binds_witness:
  "sample_receipt\<lparr>rc_claims := norm_dict sample_claims, rc_signature := []\<rparr> = sample_unsigned\<lparr>rc_claims := norm_dict sample_claims, rc_signature := []\<rparr>"
proof -
  have c: "rc_claims sample_receipt = sample_claims" "rc_claims sample_unsigned = sample_claims"
    by (simp_all add: sample_receipt_def sample_unsigned_def unsigned_receipt_def)
  have t: "iso_ok (rc_issued_at sample_unsigned)" "iso_ok (rc_issued_at sample_receipt)"
    "iso_ok (rc_expires_at sample_unsigned)" "iso_ok (rc_expires_at sample_receipt)"
    using sample_times by (simp_all add: sample_receipt_def sample_unsigned_def unsigned_receipt_def sample_receipt_request_def)
  have "wf_json (PDict sample_claims)" by (simp add: sample_claims_def)
  then show ?thesis
    using receipt_payload_binds [of sample_unsigned sample_receipt, OF _ _ t] unfolding c by (simp add: sample_receipt_def)
qed

end
