(* ===== verification/Verifiers.thy ===== *)
theory Verifiers
  imports Receipts Policy "HOL-Library.Multiset"
begin

text \<open>
  \<open>src/vloop/verifiers.py\<close>: the hard verifiers and their deterministic composition. A verifier is
  an external object with a name, a category, a phase and a method that returns a check result or
  raises; the ones the repository defines are definitions below. Metadata is a dynamically typed
  dictionary. \<open>DevelopmentBenchmarkVerifier\<close> computes with floats and is not modelled.
\<close>

section \<open>Single verifiers\<close>

definition str_dict :: "(string \<times> string) list \<Rightarrow> pyval" where
  "str_dict d = PDict (map (\<lambda>(k, v). (k, PStr v)) d)"

text \<open>The observation record is typed, so its structural check holds by construction.\<close>

definition structural_verify :: "task_contract \<Rightarrow> observation \<Rightarrow> check_result" where
  "structural_verify c x = \<lparr>cr_name = ''structural'', cr_status = PASS,
     cr_evidence = [(''has_mapping_artifacts'', PBool True), (''has_mapping_metadata'', PBool True)], cr_message = []\<rparr>"

definition execution_verify :: "task_contract \<Rightarrow> observation \<Rightarrow> check_result" where
  "execution_verify c x = \<lparr>cr_name = ''execution'', cr_status = (if ob_success x then PASS else FAIL),
     cr_evidence = [(''exit_code'', opt_int_py (ob_exit_code x)), (''artifacts'', str_dict (ob_artifact_digests x))],
     cr_message = drop (length (ob_stderr x) - 500) (ob_stderr x)\<rparr>"

text \<open>Python's \<open>==\<close> between a metadata value and a text or a truth value: \<open>1 == True\<close>.\<close>

fun py_eq :: "pyval \<Rightarrow> pyval \<Rightarrow> bool" where
  "py_eq v (PBool b) = (v = PBool b \<or> v = PInt (if b then 1 else 0)
     \<or> (if b then v = PFloat ''1.0'' else v \<in> {PFloat ''0.0'', PFloat ''-0.0''}))"
| "py_eq v w = (v = w)"

definition isolation_required :: pydict where
  "isolation_required = [(''executor'', PStr ''firecracker''), (''isolation'', PStr ''microvm''),
     (''rootfs_read_only'', PBool True), (''network_enabled'', PBool False)]"

definition isolation_violations :: "pydict \<Rightarrow> pydict" where
  "isolation_violations m =
     map (\<lambda>(k, e). (k, PDict [(''expected'', e), (''actual'', str_opt (dget m k))]))
       (filter (\<lambda>(k, e). \<not> py_eq (str_opt (dget m k)) e) isolation_required)
     @ map (\<lambda>k. (k, PDict [(''expected'', PStr ''present''), (''actual'', str_opt (dget m k))]))
       (filter (\<lambda>k. \<not> truthy (str_opt (dget m k))) [''config_digest'', ''guest_manifest_digest'', ''guest_result_path''])"

definition isolation_verify :: "task_contract \<Rightarrow> observation \<Rightarrow> check_result" where
  "isolation_verify c x = (let bad = isolation_violations (ob_metadata x) in
     \<lparr>cr_name = ''firecracker-isolation'', cr_status = (if bad = [] then PASS else FAIL),
      cr_evidence = [(''metadata'', PDict (ob_metadata x)), (''violations'', PDict bad)],
      cr_message = (if bad = [] then [] else ''microVM isolation evidence missing or inconsistent'')\<rparr>)"

fun nonempty_str :: "pyval option \<Rightarrow> bool" where
  "nonempty_str (Some (PStr s)) = (s \<noteq> [])"
| "nonempty_str v = False"

fun is_bool :: "pyval option \<Rightarrow> bool" where
  "is_bool (Some (PBool b)) = True"
| "is_bool v = False"

definition differential_verify :: "task_contract \<Rightarrow> observation \<Rightarrow> check_result" where
  "differential_verify c x =
     (case dget (ob_metadata x) ''differential'' of
        Some (PDict d) \<Rightarrow>
          if \<not> (nonempty_str (dget d ''reference_digest'') \<and> nonempty_str (dget d ''candidate_digest'') \<and> is_bool (dget d ''passed''))
          then \<lparr>cr_name = ''differential'', cr_status = FAIL, cr_evidence = [(''receipt'', PDict d)],
                cr_message = ''invalid differential receipt''\<rparr>
          else if dget d ''passed'' = Some (PBool True)
          then \<lparr>cr_name = ''differential'', cr_status = PASS, cr_evidence = [(''receipt'', PDict d)], cr_message = []\<rparr>
          else \<lparr>cr_name = ''differential'', cr_status = FAIL, cr_evidence = [(''receipt'', PDict d)],
                cr_message = ''reference comparison failed''\<rparr>
      | _ \<Rightarrow> \<lparr>cr_name = ''differential'', cr_status = INCONCLUSIVE, cr_evidence = [],
             cr_message = ''missing differential receipt''\<rparr>)"

fun relation_valid :: "pyval \<Rightarrow> bool" where
  "relation_valid (PDict d) = (nonempty_str (dget d ''name'') \<and> nonempty_str (dget d ''evidence_digest'') \<and> is_bool (dget d ''passed''))"
| "relation_valid v = False"

fun relation_passed :: "pyval \<Rightarrow> bool" where
  "relation_passed (PDict d) = (dget d ''passed'' = Some (PBool True))"
| "relation_passed v = False"

definition metamorphic_verify :: "task_contract \<Rightarrow> observation \<Rightarrow> check_result" where
  "metamorphic_verify c x =
     (let missing = \<lparr>cr_name = ''metamorphic'', cr_status = INCONCLUSIVE, cr_evidence = [], cr_message = ''missing metamorphic receipt''\<rparr> in
      case dget (ob_metadata x) ''metamorphic'' of
        Some (PDict d) \<Rightarrow> (case dget d ''relations'' of
          Some (PList rs) \<Rightarrow>
            if rs = [] \<or> \<not> list_all relation_valid rs
            then \<lparr>cr_name = ''metamorphic'', cr_status = FAIL, cr_evidence = [(''receipt'', PDict d)],
                  cr_message = ''invalid metamorphic receipt''\<rparr>
            else if list_all relation_passed rs
            then \<lparr>cr_name = ''metamorphic'', cr_status = PASS, cr_evidence = [(''receipt'', PDict d)], cr_message = []\<rparr>
            else \<lparr>cr_name = ''metamorphic'', cr_status = FAIL, cr_evidence = [(''receipt'', PDict d)],
                  cr_message = ''a transformation invariant failed''\<rparr>
        | _ \<Rightarrow> missing)
      | _ \<Rightarrow> missing)"

section \<open>Signed receipts\<close>

record signed_verifier =
  sv_name :: string
  sv_category :: string
  sv_receipt_type :: string
  sv_receipt_verifier :: receipt_verifier

definition signed_verifier_init :: "signed_verifier \<Rightarrow> signed_verifier res" where
  "signed_verifier_init s = (if \<not> List.member verifier_categories (sv_category s)
     then Inl (ValueError, ''invalid receipt verifier category'') else Inr s)"

text \<open>\<open>d.get(k, {})\<close> when \<open>d\<close> is a mapping, else an empty one; then a text field of it.\<close>

definition sub_dict :: "pyval option \<Rightarrow> string \<Rightarrow> pydict" where
  "sub_dict v k = (case v of
     Some (PDict d) \<Rightarrow> (case dget d k of Some (PDict e) \<Rightarrow> e | _ \<Rightarrow> []) | _ \<Rightarrow> [])"

definition binding_text :: "pydict \<Rightarrow> string \<Rightarrow> string" where
  "binding_text b k = py_str (ddef b k (PStr []))"

definition receipt_raw :: "signed_verifier \<Rightarrow> observation \<Rightarrow> pydict option" where
  "receipt_raw s x = (case dget (ob_metadata x) ''evaluator_receipts'' of
     Some (PDict d) \<Rightarrow> (case dget d (sv_receipt_type s) of Some (PDict raw) \<Rightarrow> Some raw | _ \<Rightarrow> None) | _ \<Rightarrow> None)"

definition receipt_binding :: "signed_verifier \<Rightarrow> observation \<Rightarrow> pydict" where
  "receipt_binding s x = sub_dict (dget (ob_metadata x) ''receipt_graph_bindings'') (sv_receipt_type s)"

definition authenticate :: "crypto \<Rightarrow> signed_verifier \<Rightarrow> task_contract \<Rightarrow> observation \<Rightarrow> string \<Rightarrow> action_intent
    \<Rightarrow> int \<Rightarrow> pydict \<Rightarrow> receipt res" where
  "authenticate cr s c x run i now raw =
     bnd (receipt_from_mapping raw) (\<lambda>r.
     let b = receipt_binding s x; g = binding_text b ''graph_digest''; n = binding_text b ''graph_node_id'';
         inst = binding_text b ''graph_node_instance_id'' in
     if g = [] \<or> n = [] \<or> inst = []
     then Inl (ReceiptRejected, ''receipt lacks a concrete evaluator graph-node binding'')
     else bnd (contract_digest cr c) (\<lambda>cd.
          bnd (receipt_validate cr (sv_receipt_verifier s) r
            \<lparr>xr_receipt_type = sv_receipt_type s, xr_run_id = run, xr_intent_digest = intent_digest cr i,
             xr_artifact_digests = ob_artifact_digests x, xr_contract_digest = Some cd, xr_graph_digest = Some g,
             xr_graph_node_id = Some n, xr_graph_node_instance_id = Some inst\<rparr> now) (\<lambda>_. Inr r)))"

definition result_status :: "string \<Rightarrow> check_status res" where
  "result_status t = (if t = ''pass'' then Inr PASS else if t = ''fail'' then Inr FAIL
     else if t = ''inconclusive'' then Inr INCONCLUSIVE else Inl (KeyError, repr_str t))"

definition receipt_evidence :: "receipt \<Rightarrow> pydict" where
  "receipt_evidence r =
     [(''receipt_type'', PStr (rc_receipt_type r)), (''candidate_artifact_digest'', PStr (rc_candidate_artifact_digest r)),
      (''evaluator_image_digest'', PStr (rc_evaluator_image_digest r)), (''test_suite_digest'', PStr (rc_test_suite_digest r)),
      (''workspace_snapshot_digest'', PStr (rc_workspace_snapshot_digest r)),
      (''dependency_lock_digest'', PStr (rc_dependency_lock_digest r)), (''toolchain_digest'', PStr (rc_toolchain_digest r)),
      (''environment_digest'', PStr (rc_environment_digest r)),
      (''artifact_manifest_digest'', PStr (rc_artifact_manifest_digest r)),
      (''primary_artifact_name'', PStr (rc_primary_artifact_name r)),
      (''primary_artifact_digest'', PStr (rc_primary_artifact_digest r)),
      (''schema_version'', PInt (rc_schema_version r)), (''signed_receipt'', PBool True),
      (''issued_at'', PStr (isoformat (rc_issued_at r))), (''nonce'', PStr (rc_nonce r))]"

text \<open>Every exception of the authentication is one of the classes the source catches.\<close>

definition signed_verify :: "crypto \<Rightarrow> int \<Rightarrow> signed_verifier \<Rightarrow> task_contract \<Rightarrow> observation \<Rightarrow> string option
    \<Rightarrow> action_intent option \<Rightarrow> check_result res" where
  "signed_verify cr now s c x run intent =
     (case (run, intent) of
        (Some rid, Some i) \<Rightarrow> (case receipt_raw s x of
            None \<Rightarrow> Inr \<lparr>cr_name = sv_name s, cr_status = INCONCLUSIVE, cr_evidence = [],
                         cr_message = ''missing signed evaluator receipt''\<rparr>
          | Some raw \<Rightarrow> (case authenticate cr s c x rid i now raw of
              Inl (e, _) \<Rightarrow> Inr \<lparr>cr_name = sv_name s, cr_status = FAIL,
                cr_evidence = [(''receipt_type'', PStr (sv_receipt_type s)), (''error_type'', PStr (exc_name e))],
                cr_message = ''signed evaluator receipt was rejected''\<rparr>
            | Inr r \<Rightarrow> bnd (result_status (rc_result r)) (\<lambda>st.
                Inr \<lparr>cr_name = sv_name s, cr_status = st, cr_evidence = receipt_evidence r,
                     cr_message = (if st = FAIL then ''protected evaluator reported a failure'' else [])\<rparr>)))
      | _ \<Rightarrow> Inr \<lparr>cr_name = sv_name s, cr_status = INCONCLUSIVE, cr_evidence = [],
                  cr_message = ''missing verification binding''\<rparr>)"

section \<open>Adapters\<close>

text \<open>A registered verifier: what \<open>HybridVerifier\<close> reads of it, and its method.\<close>

record verifier =
  vf_name :: string
  vf_category :: string
  vf_phase :: int
  vf_run :: "task_contract \<Rightarrow> observation \<Rightarrow> string option \<Rightarrow> action_intent option \<Rightarrow> check_result res"

definition signed_as_verifier :: "crypto \<Rightarrow> int \<Rightarrow> signed_verifier \<Rightarrow> verifier" where
  "signed_as_verifier cr now s = \<lparr>vf_name = sv_name s, vf_category = sv_category s, vf_phase = 1,
     vf_run = signed_verify cr now s\<rparr>"

definition callable_verifier :: "string \<Rightarrow> string \<Rightarrow> (task_contract \<Rightarrow> observation \<Rightarrow> check_result res) \<Rightarrow> verifier res" where
  "callable_verifier name category check =
     (if \<not> List.member verifier_categories category then Inl (ValueError, ''invalid verifier category'')
      else Inr \<lparr>vf_name = name, vf_category = category,
        vf_phase = (if List.member [''correctness'', ''policy'', ''evidence''] category then 2 else 3),
        vf_run = (\<lambda>c x run intent. bnd (check c x) (\<lambda>r.
          if cr_name r \<noteq> name then Inl (ValueError, ''verifier result name does not match registered verifier'')
          else Inr r))\<rparr>)"

section \<open>The hybrid verifier\<close>

type_synonym category_map = "(string \<times> check_status list) list"

definition category_add :: "string \<Rightarrow> check_status \<Rightarrow> category_map \<Rightarrow> category_map res" where
  "category_add k st m = (case dget m k of
     None \<Rightarrow> Inl (KeyError, repr_str k) | Some sts \<Rightarrow> Inr (AList.update k (sts @ [st]) m))"

definition run_check :: "verifier \<Rightarrow> task_contract \<Rightarrow> observation \<Rightarrow> string option \<Rightarrow> action_intent option \<Rightarrow> check_result" where
  "run_check v c x run intent = (case vf_run v c x run intent of
     Inr r \<Rightarrow> r
   | Inl (e, _) \<Rightarrow> \<lparr>cr_name = vf_name v, cr_status = INCONCLUSIVE, cr_evidence = [(''error_type'', PStr (exc_name e))],
                  cr_message = ''verifier raised an exception''\<rparr>)"

fun run_checks :: "verifier list \<Rightarrow> task_contract \<Rightarrow> observation \<Rightarrow> string option \<Rightarrow> action_intent option
    \<Rightarrow> check_result list \<Rightarrow> category_map \<Rightarrow> (check_result list \<times> category_map) res" where
  "run_checks [] c x run intent results cats = Inr (results, cats)"
| "run_checks (v # vs) c x run intent results cats =
     (let r = run_check v c x run intent in
      if cr_name r \<in> set (map cr_name results)
      then Inl (ValueError, ''duplicate verifier result name: '' @ cr_name r)
      else bnd (category_add (vf_category v) (cr_status r) cats) (\<lambda>cats'.
        if vf_phase v \<le> 1 \<and> cr_status r \<noteq> PASS then Inr (results @ [r], cats')
        else run_checks vs c x run intent (results @ [r]) cats'))"

fun require_names :: "crypto \<Rightarrow> task_contract \<Rightarrow> string \<Rightarrow> string list \<Rightarrow> string list
    \<Rightarrow> check_result list \<times> category_map \<Rightarrow> (check_result list \<times> category_map) res" where
  "require_names cr c category observed [] st = Inr st"
| "require_names cr c category observed (n # ns) (results, cats) =
     (if n \<in> set observed then require_names cr c category observed ns (results, cats)
      else bnd (contract_digest cr c) (\<lambda>cd. bnd (category_add category INCONCLUSIVE cats) (\<lambda>cats'.
        require_names cr c category observed ns
          (results @ [\<lparr>cr_name = n, cr_status = INCONCLUSIVE,
             cr_evidence = [(''required_by_contract'', PStr cd), (''category'', PStr category)],
             cr_message = ''required verifier did not run''\<rparr>], cats'))))"

definition require_all :: "crypto \<Rightarrow> task_contract \<Rightarrow> check_result list \<times> category_map
    \<Rightarrow> (check_result list \<times> category_map) res" where
  "require_all cr c = fold_res (\<lambda>(category, names) st.
     require_names cr c category (map cr_name (fst st)) names st) (tc_required_verifiers c)"

definition reduce_statuses :: "check_status list \<Rightarrow> check_status" where
  "reduce_statuses sts = (if sts = [] then INCONCLUSIVE else if FAIL \<in> set sts then FAIL
     else if INCONCLUSIVE \<in> set sts then INCONCLUSIVE else PASS)"

definition category_status :: "category_map \<Rightarrow> string \<Rightarrow> check_status" where
  "category_status m k = (case dget m k of None \<Rightarrow> PASS | Some sts \<Rightarrow> if sts = [] then PASS else reduce_statuses sts)"

definition hybrid_verify :: "crypto \<Rightarrow> verifier list \<Rightarrow> task_contract \<Rightarrow> observation \<Rightarrow> string option \<Rightarrow> action_intent option
    \<Rightarrow> verification_report res" where
  "hybrid_verify cr checks c x run intent =
     bnd (run_checks (sort_key vf_phase checks) c x run intent [] (map (\<lambda>k. (k, [])) verifier_categories)) (\<lambda>st.
     bnd (require_all cr c st) (\<lambda>(results, cats).
     Inr \<lparr>vr_correctness = reduce_statuses (case dget cats ''correctness'' of None \<Rightarrow> [] | Some sts \<Rightarrow> sts),
          vr_policy = category_status cats ''policy'', vr_evidence = category_status cats ''evidence'',
          vr_quality = category_status cats ''quality'', vr_checks = results\<rparr>))"

section \<open>When a report is accepted\<close>

definition all_pass :: "category_map \<Rightarrow> bool" where
  "all_pass m \<longleftrightarrow> (\<forall>k sts. dget m k = Some sts \<longrightarrow> set sts \<subseteq> {PASS})"

definition four_categories :: "category_map \<Rightarrow> bool" where
  "four_categories m \<longleftrightarrow> set (dkeys m) = set verifier_categories"

definition category_log :: "category_map \<Rightarrow> string \<Rightarrow> check_status list" where
  "category_log m k = (case dget m k of None \<Rightarrow> [] | Some sts \<Rightarrow> sts)"

lemma reduce_PASS: "reduce_statuses sts = PASS \<longleftrightarrow> sts \<noteq> [] \<and> set sts \<subseteq> {PASS}"
proof -
  have "x = PASS" if "FAIL \<notin> set sts" "INCONCLUSIVE \<notin> set sts" "x \<in> set sts" for x
    using that by (cases x) auto
  then show ?thesis by (auto simp: reduce_statuses_def)
qed

lemma category_addD:
  assumes "category_add k st m = Inr m'"
  shows "set (dkeys m') = set (dkeys m)" "k \<in> set (dkeys m)" "all_pass m' \<longleftrightarrow> all_pass m \<and> st = PASS"
    and "category_log m' j = category_log m j @ (if j = k then [st] else [])"
proof -
  obtain sts where s: "dget m k = Some sts" "m' = AList.update k (sts @ [st]) m"
    using assms by (auto simp: category_add_def split: option.splits)
  then show "set (dkeys m') = set (dkeys m)" "k \<in> set (dkeys m)" by (auto dest: dget_Some_key)
  show "all_pass m' \<longleftrightarrow> all_pass m \<and> st = PASS"
  proof -
    have "all_pass m' \<longleftrightarrow> set (sts @ [st]) \<subseteq> {PASS} \<and> (\<forall>j sts'. j \<noteq> k \<longrightarrow> dget m j = Some sts' \<longrightarrow> set sts' \<subseteq> {PASS})"
      by (auto simp: s(2) all_pass_def)
    moreover have "all_pass m \<longleftrightarrow> set sts \<subseteq> {PASS} \<and> (\<forall>j sts'. j \<noteq> k \<longrightarrow> dget m j = Some sts' \<longrightarrow> set sts' \<subseteq> {PASS})"
      using s(1) unfolding all_pass_def by (metis option.inject)
    ultimately show ?thesis by auto
  qed
  show "category_log m' j = category_log m j @ (if j = k then [st] else [])"
    using s by (simp add: category_log_def)
qed

lemma category_add_total: "k \<in> set (dkeys m) \<Longrightarrow> \<exists>m'. category_add k st m = Inr m'"
  using dget_None_iff [of m k] by (cases "dget m k") (auto simp: category_add_def)

lemma run_checks_pass:
  assumes "run_checks vs c x run intent results cats = Inr (out, cats')" "all_pass cats'" "four_categories cats"
    and "distinct (map cr_name results)"
  shows "out = results @ map (\<lambda>v. run_check v c x run intent) vs \<and> all_pass cats \<and> four_categories cats'
    \<and> distinct (map cr_name out)
    \<and> (\<forall>v \<in> set vs. vf_category v \<in> set verifier_categories \<and> cr_status (run_check v c x run intent) = PASS)
    \<and> (\<forall>k. category_log cats' k = category_log cats k @ map (\<lambda>v. PASS) (filter (\<lambda>v. vf_category v = k) vs))"
  using assms
proof (induction vs arbitrary: results cats)
  case (Cons v vs)
  let ?r = "run_check v c x run intent"
  obtain m where m: "category_add (vf_category v) (cr_status ?r) cats = Inr m" and new: "cr_name ?r \<notin> set (map cr_name results)"
    and rest: "(if vf_phase v \<le> 1 \<and> cr_status ?r \<noteq> PASS then Inr (results @ [?r], m)
        else run_checks vs c x run intent (results @ [?r]) m) = Inr (out, cats')"
    using Cons.prems(1) by (auto simp: Let_def bnd_eq_Inr)
  note a = category_addD [OF m]
  have four: "four_categories m" using Cons.prems(3) a(1) by (simp add: four_categories_def)
  show ?case
  proof (cases "vf_phase v \<le> 1 \<and> cr_status ?r \<noteq> PASS")
    case True
    then show ?thesis using rest Cons.prems(2) a(3) by auto
  next
    case False
    then have r: "run_checks vs c x run intent (results @ [?r]) m = Inr (out, cats')"
      using rest by (simp only: if_False)
    have "distinct (map cr_name (results @ [?r]))" using Cons.prems(4) new by simp
    note ih = Cons.IH [OF r Cons.prems(2) four this]
    then have "cr_status ?r = PASS" "all_pass cats" using a(3) by blast+
    moreover have "four_categories cats'" "distinct (map cr_name out)" "out = (results @ [?r]) @ map (\<lambda>v. run_check v c x run intent) vs"
      using ih by blast+
    ultimately show ?thesis
      using ih a(2,4) Cons.prems(3) by (intro conjI) (simp_all add: four_categories_def del: map_append)
  qed
qed (simp add: four_categories_def)

lemma run_checks_total:
  assumes "\<forall>v \<in> set vs. vf_category v \<in> set verifier_categories \<and> cr_status (run_check v c x run intent) = PASS"
    and "distinct (map cr_name results @ map (\<lambda>v. cr_name (run_check v c x run intent)) vs)"
    and "four_categories cats" "all_pass cats"
  shows "\<exists>cats'. run_checks vs c x run intent results cats
      = Inr (results @ map (\<lambda>v. run_check v c x run intent) vs, cats') \<and> all_pass cats'"
  using assms
proof (induction vs arbitrary: results cats)
  case (Cons v vs)
  let ?r = "run_check v c x run intent"
  obtain m where m: "category_add (vf_category v) (cr_status ?r) cats = Inr m"
    using category_add_total [of "vf_category v" cats "cr_status ?r"] Cons.prems(1,3) by (auto simp: four_categories_def)
  note a = category_addD [OF m]
  have "\<exists>cats'. run_checks vs c x run intent (results @ [?r]) m
      = Inr ((results @ [?r]) @ map (\<lambda>v. run_check v c x run intent) vs, cats') \<and> all_pass cats'"
    using Cons.prems a(1,3) by (intro Cons.IH) (auto simp: four_categories_def)
  then show ?case using m Cons.prems(1,2) by (auto simp: Let_def)
qed simp

lemma require_names_pass:
  "require_names cr c k obs ns st = Inr st' \<Longrightarrow> all_pass (snd st') \<Longrightarrow> st' = st \<and> set ns \<subseteq> set obs"
proof (induction ns arbitrary: st)
  case (Cons n ns)
  obtain results cats where st: "st = (results, cats)" by (cases st)
  show ?case
  proof (cases "n \<in> set obs")
    case False
    then obtain cd m where m: "category_add k INCONCLUSIVE cats = Inr m"
      and rest: "require_names cr c k obs ns (results @ [\<lparr>cr_name = n, cr_status = INCONCLUSIVE,
             cr_evidence = [(''required_by_contract'', PStr cd), (''category'', PStr k)],
             cr_message = ''required verifier did not run''\<rparr>], m) = Inr st'"
      using Cons.prems(1) by (auto simp: st bnd_eq_Inr)
    have "all_pass m" using Cons.IH [OF rest Cons.prems(2)] Cons.prems(2) by (metis snd_conv)
    then show ?thesis using category_addD(3) [OF m] by simp
  qed (use Cons in \<open>auto simp: st\<close>)
qed simp

lemma require_names_present: "set ns \<subseteq> set obs \<Longrightarrow> require_names cr c k obs ns st = Inr st"
  by (induction ns; cases st) auto

definition required_present :: "task_contract \<Rightarrow> string set \<Rightarrow> bool" where
  "required_present c present \<longleftrightarrow> (\<forall>(k, ns) \<in> set (tc_required_verifiers c). set ns \<subseteq> present)"

lemma require_all_pass:
  "require_all cr c st = Inr st' \<and> all_pass (snd st') \<longleftrightarrow>
    st' = st \<and> all_pass (snd st) \<and> required_present c (set (map cr_name (fst st)))"
proof -
  have "fold_res (\<lambda>(category, names) st. require_names cr c category (map cr_name (fst st)) names st) reqs st = Inr st' \<and> all_pass (snd st')
      \<longleftrightarrow> st' = st \<and> all_pass (snd st) \<and> (\<forall>(k, ns) \<in> set reqs. set ns \<subseteq> set (map cr_name (fst st)))" for reqs
  proof (induction reqs arbitrary: st)
    case (Cons q reqs)
    obtain k ns where q: "q = (k, ns)" by (cases q)
    show ?case
    proof
      assume l: "fold_res (\<lambda>(category, names) st. require_names cr c category (map cr_name (fst st)) names st) (q # reqs) st = Inr st' \<and> all_pass (snd st')"
      then obtain u where u: "require_names cr c k (map cr_name (fst st)) ns st = Inr u"
        and rest: "fold_res (\<lambda>(category, names) st. require_names cr c category (map cr_name (fst st)) names st) reqs u = Inr st'"
        by (auto simp: q bnd_eq_Inr)
      have w: "st' = u" "all_pass (snd u)" "\<forall>(k, ns) \<in> set reqs. set ns \<subseteq> set (map cr_name (fst u))"
        using Cons.IH [of u] rest l by blast+
      then show "st' = st \<and> all_pass (snd st) \<and> (\<forall>(k, ns) \<in> set (q # reqs). set ns \<subseteq> set (map cr_name (fst st)))"
        using require_names_pass [OF u] by (auto simp: q)
    next
      assume "st' = st \<and> all_pass (snd st) \<and> (\<forall>(k, ns) \<in> set (q # reqs). set ns \<subseteq> set (map cr_name (fst st)))"
      then show "fold_res (\<lambda>(category, names) st. require_names cr c category (map cr_name (fst st)) names st) (q # reqs) st = Inr st' \<and> all_pass (snd st')"
        using Cons.IH [of st] by (simp add: q require_names_present)
    qed
  qed auto
  then show ?thesis unfolding require_all_def required_present_def .
qed

lemma four_categories_init: "four_categories (map (\<lambda>k. (k, [])) verifier_categories)"
  by (simp add: four_categories_def dkeys_def verifier_categories_def)

lemma all_pass_init: "all_pass (map (\<lambda>k. (k, [])) verifier_categories)"
  by (auto simp: all_pass_def verifier_categories_def dget_Cons split: if_splits)

lemma category_log_init: "category_log (map (\<lambda>k. (k, [])) verifier_categories) k = []"
  by (simp add: category_log_def verifier_categories_def dget_Cons)

lemma category_status_PASS: "category_status m k = PASS \<longleftrightarrow> set (category_log m k) \<subseteq> {PASS}"
  by (auto simp: category_status_def category_log_def reduce_PASS split: option.splits)

lemma report_accepted_cats:
  assumes "four_categories cats"
  shows "report_accepted \<lparr>vr_correctness = reduce_statuses (case dget cats ''correctness'' of None \<Rightarrow> [] | Some sts \<Rightarrow> sts),
          vr_policy = category_status cats ''policy'', vr_evidence = category_status cats ''evidence'',
          vr_quality = category_status cats ''quality'', vr_checks = results\<rparr>
    \<longleftrightarrow> all_pass cats \<and> category_log cats ''correctness'' \<noteq> []"
proof -
  have "all_pass cats \<longleftrightarrow> (\<forall>k \<in> set verifier_categories. set (category_log cats k) \<subseteq> {PASS})"
    using assms dget_Some_key [of cats] unfolding all_pass_def four_categories_def category_log_def
    by (metis (no_types, lifting) dget_None_iff option.case(2) option.exhaust)
  then show ?thesis
    unfolding report_accepted_def category_log_def [symmetric]
    by (auto simp: reduce_PASS category_status_PASS verifier_categories_def)
qed

lemma distinct_sort_map: "distinct (map f (sort_key g xs)) \<longleftrightarrow> distinct (map f xs)"
  by (rule mset_eq_imp_distinct_iff) (simp add: mset_map)

lemma run_check_PASS: "cr_status (run_check v c x run intent) = PASS \<Longrightarrow> vf_run v c x run intent = Inr (run_check v c x run intent)"
  by (auto simp: run_check_def split: sum.splits)

text \<open>The specification: every registered check ran and passed, under distinct names and in a known
  category, at least one of them judges correctness, and all names the contract requires are there.\<close>

definition all_checks_pass :: "verifier list \<Rightarrow> task_contract \<Rightarrow> observation \<Rightarrow> string option \<Rightarrow> action_intent option \<Rightarrow> bool" where
  "all_checks_pass checks c x run intent \<longleftrightarrow>
     (\<forall>v \<in> set checks. vf_category v \<in> set verifier_categories
        \<and> (\<exists>r. vf_run v c x run intent = Inr r \<and> cr_status r = PASS))
     \<and> distinct (map (\<lambda>v. cr_name (run_check v c x run intent)) checks)
     \<and> (\<exists>v \<in> set checks. vf_category v = ''correctness'')
     \<and> required_present c ((\<lambda>v. cr_name (run_check v c x run intent)) ` set checks)"

lemma run_checks_four:
  "run_checks vs c x run intent results cats = Inr (out, cats') \<Longrightarrow> four_categories cats \<Longrightarrow> four_categories cats'"
  by (induction vs arbitrary: results cats)
    (auto simp: Let_def bnd_eq_Inr four_categories_def dest!: category_addD(1) split: if_splits)

lemma require_names_four:
  "require_names cr c k obs ns st = Inr st' \<Longrightarrow> four_categories (snd st) \<Longrightarrow> four_categories (snd st')"
proof (induction ns arbitrary: st)
  case (Cons n ns)
  then show ?case
    by (cases st) (fastforce simp: bnd_eq_Inr four_categories_def dest: category_addD(1) split: if_splits)
qed simp

lemma require_all_four:
  "require_all cr c st = Inr st' \<Longrightarrow> four_categories (snd st) \<Longrightarrow> four_categories (snd st')"
  unfolding require_all_def
  by (erule fold_res_invariant [where P = "\<lambda>st. four_categories (snd st)"]) (auto dest: require_names_four)

lemma hybrid_accepts:
  "(\<exists>rep. hybrid_verify cr checks c x run intent = Inr rep \<and> report_accepted rep) \<longleftrightarrow> all_checks_pass checks c x run intent"
proof
  let ?R = "\<lambda>v. run_check v c x run intent" and ?init = "map (\<lambda>k. (k, [])) verifier_categories"
  assume "\<exists>rep. hybrid_verify cr checks c x run intent = Inr rep \<and> report_accepted rep"
  then obtain out cats st' where runs: "run_checks (sort_key vf_phase checks) c x run intent [] ?init = Inr (out, cats)"
    and req: "require_all cr c (out, cats) = Inr st'"
    and acc: "report_accepted \<lparr>vr_correctness = reduce_statuses (case dget (snd st') ''correctness'' of None \<Rightarrow> [] | Some sts \<Rightarrow> sts),
          vr_policy = category_status (snd st') ''policy'', vr_evidence = category_status (snd st') ''evidence'',
          vr_quality = category_status (snd st') ''quality'', vr_checks = fst st'\<rparr>"
    by (auto simp: hybrid_verify_def bnd_eq_Inr split: prod.splits)
  have four: "four_categories (snd st')"
    using require_all_four [OF req] run_checks_four [OF runs four_categories_init] by simp
  have pass: "all_pass (snd st')" "category_log (snd st') ''correctness'' \<noteq> []"
    using acc report_accepted_cats [OF four] by simp_all
  then have st: "st' = (out, cats)" "required_present c (set (map cr_name out))"
    using require_all_pass [of cr c "(out, cats)" st'] req by simp_all
  have none: "distinct (map cr_name ([] :: check_result list))" by simp
  note r = run_checks_pass [OF runs _ four_categories_init none]
  have "all_pass cats" using pass st by simp
  then have "distinct (map cr_name out)" "out = map ?R (sort_key vf_phase checks)"
    using r by (blast, simp)
  moreover from \<open>all_pass cats\<close> have "\<forall>v \<in> set checks. vf_category v \<in> set verifier_categories \<and> cr_status (?R v) = PASS"
    "category_log cats ''correctness'' = map (\<lambda>v. PASS) (filter (\<lambda>v. vf_category v = ''correctness'') (sort_key vf_phase checks))"
    using r by (simp_all add: category_log_init)
  ultimately have out: "out = map ?R (sort_key vf_phase checks)" "distinct (map cr_name out)"
    "\<forall>v \<in> set checks. vf_category v \<in> set verifier_categories \<and> cr_status (?R v) = PASS"
    "category_log cats ''correctness'' = map (\<lambda>v. PASS) (filter (\<lambda>v. vf_category v = ''correctness'') (sort_key vf_phase checks))" by blast+
  have "distinct (map (\<lambda>v. cr_name (?R v)) checks)"
    using out(2) unfolding out(1) map_map comp_def distinct_sort_map .
  moreover have "\<exists>v \<in> set checks. vf_category v = ''correctness''"
    using pass(2) unfolding st(1) snd_conv out(4) by (auto simp: filter_empty_conv)
  moreover have "required_present c ((\<lambda>v. cr_name (?R v)) ` set checks)"
    using st(2) unfolding out(1) by (simp add: image_image)
  ultimately show "all_checks_pass checks c x run intent"
    using out(3) run_check_PASS unfolding all_checks_pass_def by blast
next
  let ?R = "\<lambda>v. run_check v c x run intent" and ?init = "map (\<lambda>k. (k, [])) verifier_categories"
  let ?vs = "sort_key vf_phase checks"
  assume ok: "all_checks_pass checks c x run intent"
  then have each: "\<forall>v \<in> set ?vs. vf_category v \<in> set verifier_categories \<and> cr_status (?R v) = PASS"
    by (auto simp: all_checks_pass_def run_check_def)
  have "distinct (map (\<lambda>v. cr_name (?R v)) ?vs)" using ok unfolding distinct_sort_map all_checks_pass_def by blast
  then obtain cats where runs: "run_checks ?vs c x run intent [] ?init = Inr (map ?R ?vs, cats)" "all_pass cats"
    using run_checks_total [OF each, of "[]" ?init] four_categories_init all_pass_init by auto
  have four: "four_categories cats" by (rule run_checks_four [OF runs(1) four_categories_init])
  have log: "category_log cats ''correctness'' \<noteq> []"
    using run_checks_pass [OF runs four_categories_init] ok unfolding all_checks_pass_def
    by (auto simp: filter_empty_conv)
  have "required_present c (set (map cr_name (map ?R ?vs)))"
    using ok by (simp add: all_checks_pass_def image_image)
  then have "require_all cr c (map ?R ?vs, cats) = Inr (map ?R ?vs, cats)"
    using require_all_pass [of cr c "(map ?R ?vs, cats)" "(map ?R ?vs, cats)"] runs(2) by simp
  then show "\<exists>rep. hybrid_verify cr checks c x run intent = Inr rep \<and> report_accepted rep"
    using runs(1) report_accepted_cats [OF four] runs(2) log by (simp add: hybrid_verify_def)
qed

text \<open>The hybrid verifier accepts an observation exactly when every registered check ran without
  an exception and passed (no phase was cut short, no name is reported twice), one of them is a
  correctness check, and every check the contract requires is among them.\<close>

theorem hybrid_accepts_iff:
  "(\<exists>rep. hybrid_verify cr checks c x run intent = Inr rep \<and> report_accepted rep) \<longleftrightarrow> all_checks_pass checks c x run intent"
  by (rule hybrid_accepts)

section \<open>What a passing signed check attests\<close>

text \<open>A signed-receipt check passes only on a receipt whose result is \<open>pass\<close> and that its verifier
  accepted for this run, this intent, this contract, the observation's artifacts and the graph node
  the observation names.\<close>

lemma signed_pass_is_validated:
  assumes "signed_verify cr now s c x run intent = Inr res" "cr_status res = PASS"
  shows "\<exists>rid i raw r cd. run = Some rid \<and> intent = Some i \<and> receipt_raw s x = Some raw
     \<and> receipt_from_mapping raw = Inr r \<and> rc_result r = ''pass'' \<and> contract_digest cr c = Inr cd
     \<and> receipt_validate cr (sv_receipt_verifier s) r
          \<lparr>xr_receipt_type = sv_receipt_type s, xr_run_id = rid, xr_intent_digest = intent_digest cr i,
           xr_artifact_digests = ob_artifact_digests x, xr_contract_digest = Some cd,
           xr_graph_digest = Some (binding_text (receipt_binding s x) ''graph_digest''),
           xr_graph_node_id = Some (binding_text (receipt_binding s x) ''graph_node_id''),
           xr_graph_node_instance_id = Some (binding_text (receipt_binding s x) ''graph_node_instance_id'')\<rparr> now = Inr ()"
proof -
  obtain rid i where ri: "run = Some rid" "intent = Some i"
    using assms by (auto simp: signed_verify_def split: option.splits)
  obtain raw where raw: "receipt_raw s x = Some raw"
    using assms by (auto simp: signed_verify_def ri split: option.splits)
  obtain r where r: "authenticate cr s c x rid i now raw = Inr r"
    using assms by (auto simp: signed_verify_def ri raw split: sum.splits)
  have "rc_result r = ''pass''"
    using assms by (auto simp: signed_verify_def ri raw r bnd_eq_Inr result_status_def split: if_splits)
  with r ri raw show ?thesis unfolding authenticate_def by (auto simp: bnd_eq_Inr Let_def)
qed

text \<open>End to end: when the hybrid verifier of a deployment accepts an observation, every signed
  receipt check registered in it has a receipt for this run, intent, contract and artifact set that
  reports \<open>pass\<close> and whose signature verifies under a key of that check's own verifier.\<close>

theorem hybrid_accept_authentic:
  assumes "sha256_spec cr" "hybrid_verify cr checks c x (Some rid) (Some i) = Inr rep" "report_accepted rep"
    and "signed_as_verifier cr now s \<in> set checks"
  shows "\<exists>raw r key. receipt_raw s x = Some raw \<and> receipt_from_mapping raw = Inr r \<and> rc_result r = ''pass''
     \<and> rc_run_id r = rid \<and> rc_intent_digest r = intent_digest cr i \<and> contract_digest cr c = Inr (rc_contract_digest r)
     \<and> check_artifacts cr r (ob_artifact_digests x) = Inr () \<and> now < instant (rc_expires_at r)
     \<and> dget (rv_keys (sv_receipt_verifier s)) (rc_key_id r) = Some key \<and> ed_verify cr key (receipt_payload r) (rc_signature r)"
proof -
  have "all_checks_pass checks c x (Some rid) (Some i)" using hybrid_accepts assms(2,3) by blast
  then obtain res where "vf_run (signed_as_verifier cr now s) c x (Some rid) (Some i) = Inr res" "cr_status res = PASS"
    using assms(4) unfolding all_checks_pass_def by blast
  then have "signed_verify cr now s c x (Some rid) (Some i) = Inr res" "cr_status res = PASS"
    by (simp_all add: signed_as_verifier_def)
  then obtain raw r cd where r: "receipt_raw s x = Some raw" "receipt_from_mapping raw = Inr r" "rc_result r = ''pass''"
      "contract_digest cr c = Inr cd"
    and ok: "receipt_validate cr (sv_receipt_verifier s) r
          \<lparr>xr_receipt_type = sv_receipt_type s, xr_run_id = rid, xr_intent_digest = intent_digest cr i,
           xr_artifact_digests = ob_artifact_digests x, xr_contract_digest = Some cd,
           xr_graph_digest = Some (binding_text (receipt_binding s x) ''graph_digest''),
           xr_graph_node_id = Some (binding_text (receipt_binding s x) ''graph_node_id''),
           xr_graph_node_instance_id = Some (binding_text (receipt_binding s x) ''graph_node_instance_id'')\<rparr> now = Inr ()"
    using signed_pass_is_validated by blast
  have "cd \<noteq> []"
    using r(4) assms(1) by (auto simp: contract_digest_def bnd_eq_Inr digest_def sha256_spec_def sha256_shape_def) (metis list.size(3) zero_neq_numeral)
  note ok = ok [unfolded receipt_validate_ok]
  obtain key where "dget (rv_keys (sv_receipt_verifier s)) (rc_key_id r) = Some key" "ed_verify cr key (receipt_payload r) (rc_signature r)"
    using check_signatureD ok by blast
  moreover have "rc_contract_digest r = cd"
    using check_contractD [OF _ _ \<open>cd \<noteq> []\<close>] ok by fastforce
  ultimately show ?thesis
    using r ok check_bindingD(2,3,5) [OF conjunct1 [OF ok]] by auto
qed

section \<open>A concrete deployment\<close>

definition sample_signed :: signed_verifier where
  "sample_signed = \<lparr>sv_name = ''signed'', sv_category = ''correctness'', sv_receipt_type = ''tests'',
     sv_receipt_verifier = sample_verifier\<rparr>"

definition sample_observation :: observation where
  "sample_observation = \<lparr>ob_success = True, ob_exit_code = Some 0, ob_stdout = [], ob_stderr = [],
     ob_artifact_digests = [(''out'', ''d'')],
     ob_metadata = [(''evaluator_receipts'', PDict [(''tests'', PDict (receipt_mapping sample_receipt))]),
       (''receipt_graph_bindings'', PDict [(''tests'', PDict sample_claims)])]\<rparr>"

lemma sample_signed_pass:
  "\<exists>r. signed_verify toy_crypto 1 sample_signed sample_contract sample_observation (Some ''run'') (Some sample_intent) = Inr r
     \<and> cr_status r = PASS"
proof -
  have raw: "receipt_raw sample_signed sample_observation = Some (receipt_mapping sample_receipt)"
    by (simp add: receipt_raw_def sample_signed_def sample_observation_def dget_def)
  have b: "receipt_binding sample_signed sample_observation = sample_claims"
    by (simp add: receipt_binding_def sample_signed_def sample_observation_def dget_def sub_dict_def)
  have i: "receipt_init sample_receipt = Inr sample_receipt" "iso_ok (rc_issued_at sample_receipt)" "iso_ok (rc_expires_at sample_receipt)"
  proof -
    have "receipt_error sample_unsigned = None" by code_simp
    then show "receipt_init sample_receipt = Inr sample_receipt" by (simp add: receipt_init_Inr sample_receipt_def)
  qed (use sample_times in \<open>simp_all add: sample_receipt_def sample_unsigned_def unsigned_receipt_def sample_receipt_request_def\<close>)
  have cd: "contract_digest toy_crypto sample_contract = Inr (replicate 64 (CHR ''0''))"
    by (simp add: contract_digest_def task_contract_py_def sample_contract_def digest_def toy_crypto_def)
  have x: "\<lparr>xr_receipt_type = ''tests'', xr_run_id = ''run'', xr_intent_digest = intent_digest toy_crypto sample_intent,
      xr_artifact_digests = [(''out'', ''d'')], xr_contract_digest = Some (replicate 64 (CHR ''0'')),
      xr_graph_digest = Some (replicate 64 (CHR ''a'')), xr_graph_node_id = Some ''n'', xr_graph_node_instance_id = Some ''inst''\<rparr>
      = sample_expected"
    by (simp add: sample_expected_def expected_of_def sample_receipt_request_def intent_digest_def digest_def toy_crypto_def)
  have bt: "binding_text sample_claims ''graph_digest'' = replicate 64 (CHR ''a'')" "binding_text sample_claims ''graph_node_id'' = ''n''"
    "binding_text sample_claims ''graph_node_instance_id'' = ''inst''"
    by code_simp+
  have "sv_receipt_verifier sample_signed = sample_verifier" "sv_receipt_type sample_signed = ''tests''"
    "ob_artifact_digests sample_observation = [(''out'', ''d'')]"
    by (simp_all add: sample_signed_def sample_observation_def)
  then have "authenticate toy_crypto sample_signed sample_contract sample_observation ''run'' sample_intent 1 (receipt_mapping sample_receipt)
      = Inr sample_receipt"
    unfolding authenticate_def receipt_from_own_mapping [OF i] b bnd_simps Let_def bt cd
    by (simp only: x sample_receipt_accepted bnd_simps) simp
  moreover have "rc_result sample_receipt = ''pass''"
    by (simp add: sample_receipt_def sample_unsigned_def unsigned_receipt_def sample_receipt_request_def)
  ultimately show ?thesis by (simp add: signed_verify_def raw result_status_def)
qed

theorem hybrid_accept_authentic_witness:
  "\<exists>raw r key. receipt_raw sample_signed sample_observation = Some raw \<and> receipt_from_mapping raw = Inr r \<and> rc_result r = ''pass''
     \<and> rc_run_id r = ''run'' \<and> dget (rv_keys sample_verifier) (rc_key_id r) = Some key"
proof -
  let ?v = "signed_as_verifier toy_crypto 1 sample_signed"
  have "all_checks_pass [?v] sample_contract sample_observation (Some ''run'') (Some sample_intent)"
    using sample_signed_pass
    by (auto simp: all_checks_pass_def signed_as_verifier_def sample_signed_def verifier_categories_def required_present_def sample_contract_def)
  then obtain rep where "hybrid_verify toy_crypto [?v] sample_contract sample_observation (Some ''run'') (Some sample_intent) = Inr rep"
    "report_accepted rep"
    using hybrid_accepts by blast
  from hybrid_accept_authentic [OF toy_crypto_spec(1) this, of 1 sample_signed]
  show ?thesis by (auto simp: sample_signed_def)
qed

end
