(* ===== verification/Probes.thy ===== *)
theory Probes
  imports Verifiers
begin

text \<open>
  \<open>src/vloop/probes.py\<close> and \<open>src/vloop/repair.py\<close>: probes registered by the verifier deployment and
  run on hard verifier outcomes, and the deterministic repair directive. A probe is an external
  object: its definition and a method that returns a check result or raises.
\<close>

section \<open>Probe definitions\<close>

datatype probe_kind = EDGE_CASE | MUTATION | COUNTEREXAMPLE | CONSISTENCY

primrec probe_kind_value :: "probe_kind \<Rightarrow> string" where
  "probe_kind_value EDGE_CASE = ''edge-case''"
| "probe_kind_value MUTATION = ''mutation''"
| "probe_kind_value COUNTEREXAMPLE = ''counterexample''"
| "probe_kind_value CONSISTENCY = ''consistency''"

record probe_definition =
  pd_probe_id :: string
  pd_kind :: probe_kind
  pd_description :: string
  pd_trigger_categories :: "string list"
  pd_implementation_image_digest :: string
  pd_test_suite_digest :: string
  pd_resource_profile_digest :: string

definition probe_definition_init :: "probe_definition \<Rightarrow> probe_definition res" where
  "probe_definition_init p =
     (if blank (pd_probe_id p) \<or> blank (pd_description p)
      then Inl (ValueError, ''probe needs an id and description'')
      else if pd_trigger_categories p = [] \<or> list_ex (\<lambda>c. \<not> List.member verifier_categories c) (pd_trigger_categories p)
      then Inl (ValueError, ''probe has an invalid trigger category'')
      else Inr p)"

definition probe_manifest :: "probe_definition \<Rightarrow> pyval" where
  "probe_manifest p = PDict
     [(''probe_id'', PStr (pd_probe_id p)), (''kind'', PStr (probe_kind_value (pd_kind p))),
      (''trigger_categories'', pstrs (sort (pd_trigger_categories p))),
      (''implementation_image_digest'', PStr (pd_implementation_image_digest p)),
      (''test_suite_digest'', PStr (pd_test_suite_digest p)),
      (''resource_profile_digest'', PStr (pd_resource_profile_digest p))]"

definition probe_production_ready :: "probe_definition \<Rightarrow> bool" where
  "probe_production_ready p \<longleftrightarrow> list_all (\<lambda>v. \<not> blank v \<and> sha256_shape v)
     [pd_implementation_image_digest p, pd_test_suite_digest p, pd_resource_profile_digest p]"

definition probe_policy_py :: "string \<Rightarrow> probe_definition list \<Rightarrow> pyval" where
  "probe_policy_py policy ds = PDict [(''probe_policy_id'', PStr policy),
     (''probes'', PList (map probe_manifest (sort_key pd_probe_id ds)))]"

definition probe_policy_digest :: "crypto \<Rightarrow> string \<Rightarrow> probe_definition list \<Rightarrow> string" where
  "probe_policy_digest cr policy ds = digest cr (probe_policy_py policy ds)"

section \<open>The runner\<close>

record probe =
  pb_definition :: probe_definition
  pb_run :: "task_contract \<Rightarrow> action_intent \<Rightarrow> observation \<Rightarrow> verification_report \<Rightarrow> check_result res"

definition probe_name :: "probe_definition \<Rightarrow> string" where
  "probe_name d = ''probe:'' @ pd_probe_id d"

definition callable_probe :: "probe_definition
    \<Rightarrow> (task_contract \<Rightarrow> action_intent \<Rightarrow> observation \<Rightarrow> verification_report \<Rightarrow> check_result res) \<Rightarrow> probe" where
  "callable_probe d check = \<lparr>pb_definition = d, pb_run = (\<lambda>c i x rep. bnd (check c i x rep) (\<lambda>r.
     if cr_name r \<noteq> probe_name d then Inl (ValueError, ''probe result name does not match registered probe'') else Inr r))\<rparr>"

record probe_runner =
  pr_probes :: "probe list"
  pr_policy_id :: string

definition probe_runner_init :: "probe_runner \<Rightarrow> probe_runner res" where
  "probe_runner_init r =
     (if \<not> distinct (map (pd_probe_id \<circ> pb_definition) (pr_probes r)) then Inl (ValueError, ''probe ids must be unique'')
      else if pr_policy_id r \<noteq> [] \<and> blank (pr_policy_id r)
      then Inl (ValueError, ''probe policy id must be non-empty when supplied'')
      else Inr r)"

definition runner_definitions :: "probe_runner \<Rightarrow> probe_definition list" where
  "runner_definitions r = map pb_definition (pr_probes r)"

definition runner_policy_digest :: "crypto \<Rightarrow> probe_runner \<Rightarrow> string" where
  "runner_policy_digest cr r = (if pr_policy_id r = [] then [] else probe_policy_digest cr (pr_policy_id r) (runner_definitions r))"

definition runner_production_ready :: "probe_runner \<Rightarrow> bool" where
  "runner_production_ready r \<longleftrightarrow> pr_policy_id r \<noteq> [] \<and> pr_probes r \<noteq> []
     \<and> list_all (\<lambda>p. probe_production_ready (pb_definition p)) (pr_probes r)"

definition report_category :: "verification_report \<Rightarrow> string \<Rightarrow> check_status res" where
  "report_category rep k =
     (case dget [(''correctness'', vr_correctness rep), (''policy'', vr_policy rep), (''evidence'', vr_evidence rep),
                 (''quality'', vr_quality rep)] k of None \<Rightarrow> Inl (KeyError, repr_str k) | Some st \<Rightarrow> Inr st)"

definition probe_selected :: "verification_report \<Rightarrow> bool \<Rightarrow> probe \<Rightarrow> bool res" where
  "probe_selected rep force p =
     (if force then Inr True
      else any_res (\<lambda>k. bnd (report_category rep k) (\<lambda>st. Inr (st \<noteq> PASS))) (pd_trigger_categories (pb_definition p)))"

definition probe_result :: "task_contract \<Rightarrow> action_intent \<Rightarrow> observation \<Rightarrow> verification_report \<Rightarrow> probe \<Rightarrow> check_result" where
  "probe_result c i x rep p = (case pb_run p c i x rep of
     Inr r \<Rightarrow> r
   | Inl (e, _) \<Rightarrow> \<lparr>cr_name = probe_name (pb_definition p), cr_status = INCONCLUSIVE,
       cr_evidence = [(''probe_kind'', PStr (probe_kind_value (pd_kind (pb_definition p)))), (''error_type'', PStr (exc_name e))],
       cr_message = ''protected probe did not complete''\<rparr>)"

definition probe_verdict :: "check_result list \<Rightarrow> check_status" where
  "probe_verdict rs =
     (if rs = [] then INCONCLUSIVE
      else if list_ex (\<lambda>r. cr_status r = FAIL) rs then FAIL
      else if list_ex (\<lambda>r. cr_status r = INCONCLUSIVE) rs then INCONCLUSIVE else PASS)"

definition run_probes :: "probe_runner \<Rightarrow> task_contract \<Rightarrow> action_intent \<Rightarrow> observation \<Rightarrow> verification_report \<Rightarrow> bool
    \<Rightarrow> (check_status \<times> check_result list) res" where
  "run_probes r c i x rep force =
     bnd (filter_res (probe_selected rep force) (pr_probes r)) (\<lambda>selected.
       let results = map (probe_result c i x rep) selected in Inr (probe_verdict results, results))"

section \<open>What the runner guarantees\<close>

definition triggered :: "verification_report \<Rightarrow> bool \<Rightarrow> probe \<Rightarrow> bool" where
  "triggered rep force p \<longleftrightarrow> force \<or> (\<exists>k \<in> set (pd_trigger_categories (pb_definition p)). report_category rep k \<noteq> Inr PASS)"

lemma probe_selected_ok:
  assumes "probe_definition_init (pb_definition p) = Inr d"
  shows "\<exists>b. probe_selected rep force p = Inr b" "probe_selected rep force p = Inr True \<longleftrightarrow> triggered rep force p"
proof -
  have cat: "k \<in> set (pd_trigger_categories (pb_definition p)) \<Longrightarrow> \<exists>st. report_category rep k = Inr st" for k
    using assms by (auto simp: probe_definition_init_def list_ex_iff List.member_iff verifier_categories_def
        report_category_def dget_Cons split: if_splits)
  have "\<exists>b. any_res (\<lambda>k. bnd (report_category rep k) (\<lambda>st. Inr (st \<noteq> PASS))) ks = Inr b
      \<and> (b \<longleftrightarrow> (\<exists>k \<in> set ks. report_category rep k \<noteq> Inr PASS))"
    if "\<forall>k \<in> set ks. \<exists>st. report_category rep k = Inr st" for ks
    using that by (induction ks) auto
  from this [of "pd_trigger_categories (pb_definition p)"] cat
  show "\<exists>b. probe_selected rep force p = Inr b" "probe_selected rep force p = Inr True \<longleftrightarrow> triggered rep force p"
    by (auto simp: probe_selected_def triggered_def)
qed

lemma probe_verdict_PASS: "probe_verdict rs = PASS \<longleftrightarrow> rs \<noteq> [] \<and> (\<forall>r \<in> set rs. cr_status r = PASS)"
proof -
  have "cr_status r = PASS \<longleftrightarrow> cr_status r \<noteq> FAIL \<and> cr_status r \<noteq> INCONCLUSIVE" for r :: check_result
    by (cases "cr_status r") auto
  then show ?thesis unfolding probe_verdict_def list_ex_iff by (auto split: if_splits)
qed

lemma probe_result_PASS: "cr_status (probe_result c i x rep p) = PASS \<Longrightarrow> pb_run p c i x rep = Inr (probe_result c i x rep p)"
  by (auto simp: probe_result_def split: sum.splits)

text \<open>On registered probes the runner always returns, an exception of a probe never escapes it, and
  it reports \<open>pass\<close> exactly when some probe was triggered and every triggered probe completed and
  passed: a probe that raises or is not triggered can never turn into a pass.\<close>

theorem run_probes_pass_iff:
  assumes "\<forall>p \<in> set (pr_probes r). \<exists>d. probe_definition_init (pb_definition p) = Inr d"
  shows "\<exists>st results. run_probes r c i x rep force = Inr (st, results)
     \<and> (st = PASS \<longleftrightarrow> (\<exists>p \<in> set (pr_probes r). triggered rep force p)
          \<and> (\<forall>p \<in> set (pr_probes r). triggered rep force p \<longrightarrow> (\<exists>res. pb_run p c i x rep = Inr res \<and> cr_status res = PASS)))"
proof -
  have "\<exists>ys. filter_res (probe_selected rep force) ps = Inr ys" if "set ps \<subseteq> set (pr_probes r)" for ps
    using that assms probe_selected_ok(1) [where rep = rep and force = force] by (induction ps) fastforce+
  then obtain sel where sel: "filter_res (probe_selected rep force) (pr_probes r) = Inr sel" by blast
  have set_sel: "set sel = {p \<in> set (pr_probes r). triggered rep force p}"
    using filter_res_set [OF sel] assms probe_selected_ok(2) [where rep = rep and force = force] by blast
  have "(\<forall>p \<in> set sel. cr_status (probe_result c i x rep p) = PASS)
      \<longleftrightarrow> (\<forall>p \<in> set sel. \<exists>res. pb_run p c i x rep = Inr res \<and> cr_status res = PASS)"
    using probe_result_PASS by (metis (no_types, lifting) probe_result_def sum.simps(6))
  moreover have "sel \<noteq> [] \<longleftrightarrow> set sel \<noteq> {}" by simp
  ultimately have "probe_verdict (map (probe_result c i x rep) sel) = PASS \<longleftrightarrow>
      (\<exists>p \<in> set (pr_probes r). triggered rep force p)
      \<and> (\<forall>p \<in> set (pr_probes r). triggered rep force p \<longrightarrow> (\<exists>res. pb_run p c i x rep = Inr res \<and> cr_status res = PASS))"
    unfolding probe_verdict_PASS using set_sel by simp blast
  then show ?thesis using sel by (simp add: run_probes_def Let_def)
qed

definition sample_probe :: probe where
  "sample_probe = callable_probe \<lparr>pd_probe_id = ''edge'', pd_kind = EDGE_CASE, pd_description = ''d'',
     pd_trigger_categories = [''evidence''], pd_implementation_image_digest = [], pd_test_suite_digest = [],
     pd_resource_profile_digest = []\<rparr>
     (\<lambda>c i x rep. Inr \<lparr>cr_name = ''probe:edge'', cr_status = PASS, cr_evidence = [], cr_message = []\<rparr>)"

definition sample_report :: verification_report where
  "sample_report = \<lparr>vr_correctness = PASS, vr_policy = PASS, vr_evidence = INCONCLUSIVE, vr_quality = PASS, vr_checks = []\<rparr>"

theorem run_probes_pass_iff_witness:
  "\<exists>results. run_probes \<lparr>pr_probes = [sample_probe], pr_policy_id = []\<rparr> sample_contract sample_intent sample_observation sample_report False
     = Inr (PASS, results)"
proof -
  have "probe_definition_init (pb_definition sample_probe) = Inr (pb_definition sample_probe)" by code_simp
  moreover have "\<exists>res. pb_run sample_probe sample_contract sample_intent sample_observation sample_report = Inr res \<and> cr_status res = PASS"
    by (simp add: sample_probe_def callable_probe_def probe_name_def)
  moreover have "triggered sample_report False sample_probe"
    by (simp add: triggered_def report_category_def sample_report_def dget_def sample_probe_def callable_probe_def)
  ultimately show ?thesis
    using run_probes_pass_iff [of "\<lparr>pr_probes = [sample_probe], pr_policy_id = []\<rparr>" sample_contract sample_intent
        sample_observation sample_report False] by auto
qed

section \<open>Repair directives\<close>

text \<open>The two fields of a neural diagnostic the repair controller reads.\<close>

record neural_diagnostic =
  nd_suggested_stage :: string
  nd_evidence_gaps :: "string list"

record repair_directive =
  rd_decision :: loop_decision
  rd_stage :: string
  rd_reason :: string
  rd_advisory_stage :: "string option"
  rd_evidence_gaps :: "string list"

definition repair_stages :: "string list" where
  "repair_stages = [''local-repair'', ''replan'', ''probe'', ''escalate'']"

definition repair_direct :: "verification_report \<Rightarrow> neural_diagnostic option \<Rightarrow> repair_directive" where
  "repair_direct rep diag =
     (let advisory = (case diag of None \<Rightarrow> None
            | Some d \<Rightarrow> if List.member repair_stages (nd_suggested_stage d) then Some (nd_suggested_stage d) else None);
          gaps = (case diag of None \<Rightarrow> [] | Some d \<Rightarrow> nd_evidence_gaps d);
          dir = (\<lambda>decision stage reason. \<lparr>rd_decision = decision, rd_stage = stage, rd_reason = reason,
            rd_advisory_stage = advisory, rd_evidence_gaps = gaps\<rparr>)
      in if vr_policy rep = FAIL then dir ESCALATE ''escalate'' ''hard policy failure''
         else if vr_correctness rep = FAIL then dir REPAIR ''local-repair'' ''hard correctness failure''
         else if vr_evidence rep \<noteq> PASS then dir REPLAN ''probe'' ''evidence is missing or conflicting''
         else if vr_quality rep \<noteq> PASS then dir REPAIR ''local-repair'' ''quality target was not met''
         else dir REPLAN ''replan'' ''inconclusive verification'')"

text \<open>Neural advice is advisory: it changes neither the decision nor the stage, and no directive
  accepts or stops a run; a policy failure always escalates.\<close>

lemma repair_direct_advisory:
  "rd_decision (repair_direct rep d) = rd_decision (repair_direct rep None)"
  "rd_stage (repair_direct rep d) = rd_stage (repair_direct rep None)"
  "rd_decision (repair_direct rep d) \<in> {ESCALATE, REPAIR, REPLAN}"
  "rd_decision (repair_direct rep d) = ESCALATE \<longleftrightarrow> vr_policy rep = FAIL"
  by (simp_all add: repair_direct_def Let_def)

end
