(* ===== verification/Contract_Compiler.thy ===== *)
theory Contract_Compiler
  imports Probes
begin

text \<open>
  \<open>src/vloop/contract_compiler.py\<close>: requested actions are intersected with a server-owned catalog of
  authorities into an immutable task contract. The contract id (\<open>uuid4\<close>) is an argument.
\<close>

section \<open>Requests, authorities and profiles\<close>

record requested_action =
  ra_tool :: string
  ra_effect :: effect
  ra_target_prefix :: string

record contract_request =
  cq_goal :: string
  cq_success_conditions :: "string list"
  cq_requested_actions :: "requested_action list"
  cq_maximum_iterations :: int
  cq_maximum_tool_calls :: int

record tool_authority =
  ta_tool :: string
  ta_effect :: effect
  ta_permitted_prefixes :: "string list"
  ta_approval_required :: bool
  ta_max_uses :: "int option"
  ta_argument_rules :: "argument_rule list"
  ta_allow_unlisted :: bool

record task_profile =
  tp_task_kind :: string
  tp_tool_authorities :: "tool_authority list"
  tp_required_verifiers :: "(string \<times> string list) list"
  tp_success_condition_bindings :: "(string \<times> string list) list"
  tp_probe_policy_id :: string
  tp_risk_class :: string
  tp_require_argument_provenance :: bool
  tp_action_safety_checks :: "string list"
  tp_global_completion_guards :: "string list"
  tp_profile_version :: string
  tp_probe_manifest :: "probe_definition list"

definition profile_checks_error :: "string \<Rightarrow> string list \<Rightarrow> unit res" where
  "profile_checks_error label checks =
     (if checks = [] \<or> \<not> distinct checks \<or> list_ex blank checks
      then Inl (ValueError, ''task profile '' @ label @ '' must be unique and non-empty'') else Inr ())"

definition task_profile_init :: "task_profile \<Rightarrow> task_profile res" where
  "task_profile_init p =
     (if tp_task_kind p = [] \<or> tp_probe_policy_id p = [] \<or> tp_risk_class p = []
      then Inl (ValueError, ''task profile needs kind, probe policy, and risk class'')
      else if tp_tool_authorities p = [] \<or> tp_required_verifiers p = [] \<or> tp_success_condition_bindings p = []
      then Inl (ValueError, ''task profile needs authorities, verifier requirements, and success bindings'')
      else if blank (tp_profile_version p) then Inl (ValueError, ''task profile version is required'')
      else bnd (profile_checks_error ''action safety checks'' (tp_action_safety_checks p)) (\<lambda>_.
           bnd (profile_checks_error ''global completion guards'' (tp_global_completion_guards p)) (\<lambda>_.
           if \<not> set (tp_action_safety_checks p) \<subseteq> set (tp_global_completion_guards p)
           then Inl (ValueError, ''task profile action safety checks must be global completion guards'')
           else Inr p)))"

text \<open>\<open>digest(self)\<close>: \<open>asdict\<close> of the profile, its authorities and its probes.\<close>

definition tool_authority_py :: "tool_authority \<Rightarrow> pyval" where
  "tool_authority_py a = PDict
     [(''tool'', PStr (ta_tool a)), (''effect'', PStr (effect_value (ta_effect a))),
      (''permitted_prefixes'', pstrs (ta_permitted_prefixes a)), (''approval_required'', PBool (ta_approval_required a)),
      (''max_uses'', opt_int_py (ta_max_uses a)),
      (''argument_rules'', PTuple (map argument_rule_py (ta_argument_rules a))),
      (''allow_unlisted_arguments'', PBool (ta_allow_unlisted a))]"

definition probe_definition_py :: "probe_definition \<Rightarrow> pyval" where
  "probe_definition_py p = PDict
     [(''probe_id'', PStr (pd_probe_id p)), (''kind'', PStr (probe_kind_value (pd_kind p))),
      (''description'', PStr (pd_description p)), (''trigger_categories'', pstrs (pd_trigger_categories p)),
      (''implementation_image_digest'', PStr (pd_implementation_image_digest p)),
      (''test_suite_digest'', PStr (pd_test_suite_digest p)),
      (''resource_profile_digest'', PStr (pd_resource_profile_digest p))]"

definition task_profile_py :: "task_profile \<Rightarrow> pyval" where
  "task_profile_py p = PDict
     [(''task_kind'', PStr (tp_task_kind p)), (''tool_authorities'', PTuple (map tool_authority_py (tp_tool_authorities p))),
      (''required_verifiers'', str_map_py (tp_required_verifiers p)),
      (''success_condition_bindings'', str_map_py (tp_success_condition_bindings p)),
      (''probe_policy_id'', PStr (tp_probe_policy_id p)), (''risk_class'', PStr (tp_risk_class p)),
      (''require_argument_provenance'', PBool (tp_require_argument_provenance p)),
      (''action_safety_checks'', pstrs (tp_action_safety_checks p)),
      (''global_completion_guards'', pstrs (tp_global_completion_guards p)),
      (''profile_version'', PStr (tp_profile_version p)),
      (''probe_manifest'', PTuple (map probe_definition_py (tp_probe_manifest p)))]"

definition profile_probe_policy_digest :: "crypto \<Rightarrow> task_profile \<Rightarrow> string" where
  "profile_probe_policy_digest cr p = probe_policy_digest cr (tp_probe_policy_id p) (tp_probe_manifest p)"

definition profile_digest :: "crypto \<Rightarrow> task_profile \<Rightarrow> string" where
  "profile_digest cr p = digest cr (task_profile_py p)"

section \<open>The compiler\<close>

record compiler =
  co_catalog :: "tool_authority list"
  co_profile :: "task_profile option"

definition compiler_init :: "tool_authority list \<Rightarrow> task_profile option \<Rightarrow> compiler res" where
  "compiler_init catalog profile =
     (if profile \<noteq> None \<and> catalog \<noteq> [] then Inl (ValueError, ''provide a catalog or a task profile, not both'')
      else let cat = (case profile of None \<Rightarrow> catalog | Some p \<Rightarrow> tp_tool_authorities p) in
        if cat = [] then Inl (ValueError, ''contract compiler needs a server-owned authority catalog'')
        else Inr \<lparr>co_catalog = cat, co_profile = profile\<rparr>)"

definition strip_prefix_slash :: "string \<Rightarrow> string" where
  "strip_prefix_slash p = (let s = rstrip_chr (CHR ''/'') p in if s = [] then ''/'' else s)"

definition is_within :: "string \<Rightarrow> string \<Rightarrow> bool" where
  "is_within requested_prefix permitted_prefix =
     (let permitted = strip_prefix_slash permitted_prefix; requested = strip_prefix_slash requested_prefix
      in permitted = ''/'' \<or> requested = permitted \<or> startswith requested (permitted @ ''/''))"

definition resolve_all :: "compiler \<Rightarrow> requested_action \<Rightarrow> tool_authority list res" where
  "resolve_all co a =
     (let ms = filter (\<lambda>t. ta_tool t = ra_tool a \<and> ta_effect t = ra_effect a
          \<and> list_ex (is_within (ra_target_prefix a)) (ta_permitted_prefixes t)) (co_catalog co)
      in if ms = [] then Inl (ContractCompilationError,
           ''requested action is outside server authority: '' @ ra_tool a @ '' '' @ effect_value (ra_effect a))
         else Inr ms)"

definition minimum_max_uses :: "tool_authority list \<Rightarrow> int option" where
  "minimum_max_uses ts = (let ls = List.map_filter ta_max_uses ts in if ls = [] then None else Some (Min (set ls)))"

text \<open>The names that every authority without free arguments lists; \<open>None\<close> when all are open.\<close>

definition closed_names :: "tool_authority list \<Rightarrow> string set option" where
  "closed_names ts =
     (case filter (\<lambda>t. \<not> ta_allow_unlisted t) ts of
        [] \<Rightarrow> None
      | c # cs \<Rightarrow> Some (fold (\<lambda>t s. s \<inter> arg_name ` set (ta_argument_rules t)) cs (arg_name ` set (ta_argument_rules c))))"

definition kept_rules :: "tool_authority list \<Rightarrow> argument_rule list" where
  "kept_rules ts = filter (\<lambda>r. case closed_names ts of None \<Rightarrow> True | Some s \<Rightarrow> arg_name r \<in> s)
     (concat (map ta_argument_rules ts))"

definition min_opt :: "int option list \<Rightarrow> int option" where
  "min_opt xs = (let ys = List.map_filter id xs in if ys = [] then None else Some (Min (set ys)))"

definition max_opt :: "int option list \<Rightarrow> int option" where
  "max_opt xs = (let ys = List.map_filter id xs in if ys = [] then None else Some (Max (set ys)))"

text \<open>One argument name, with the rules of every authority for it (the first one leads).\<close>

definition combine_rules :: "string \<Rightarrow> argument_rule list \<Rightarrow> argument_rule res" where
  "combine_rules name rules =
     (let first = hd rules in
      if list_ex (\<lambda>r. arg_kind r \<noteq> arg_kind first) (tl rules)
      then Inl (ContractCompilationError, ''conflicting argument kinds for '' @ repr_str name)
      else let allowed = fold (\<lambda>r s. s \<inter> set (arg_allowed_values r)) (tl rules) (set (arg_allowed_values first)) in
        if arg_kind first = K_ENUM \<and> allowed = {}
        then Inl (ContractCompilationError, ''overlapping authority has no common values for '' @ repr_str name)
        else argument_rule_init \<lparr>arg_name = name, arg_kind = arg_kind first, arg_required = list_ex arg_required rules,
          arg_allowed_values = (if arg_kind first = K_ENUM then sorted_list_of_set allowed else []),
          arg_maximum_length = min_opt (map arg_maximum_length rules), arg_minimum = max_opt (map arg_minimum rules),
          arg_maximum = min_opt (map arg_maximum rules)\<rparr>)"

definition intersect_argument_rules :: "tool_authority list \<Rightarrow> argument_rule list res" where
  "intersect_argument_rules ts =
     (let kept = kept_rules ts in
      map_res (\<lambda>name. combine_rules name (filter (\<lambda>r. arg_name r = name) kept)) (sort (remdups (map arg_name kept))))"

definition compile_action :: "compiler \<Rightarrow> requested_action \<Rightarrow> action_rule res" where
  "compile_action co a =
     bnd (resolve_all co a) (\<lambda>ts. bnd (intersect_argument_rules ts) (\<lambda>args.
     action_rule_init \<lparr>rule_tool = ra_tool a, rule_effect = ra_effect a, rule_target_prefix = ra_target_prefix a,
       rule_approval_required = list_ex ta_approval_required ts, rule_max_uses = minimum_max_uses ts,
       rule_argument_rules = args, rule_allow_unlisted = list_all ta_allow_unlisted ts\<rparr>))"

definition server_forbidden :: "string list" where
  "server_forbidden = [''policy.update'', ''evaluator.modify'', ''memory.policy.write'']"

text \<open>\<open>{condition: bindings[condition] for condition in conditions}\<close>\<close>

definition select_bindings :: "(string \<times> string list) list \<Rightarrow> string list \<Rightarrow> (string \<times> string list) list res" where
  "select_bindings bindings conds = fold_res (\<lambda>c d. case dget bindings c of
     None \<Rightarrow> Inl (KeyError, repr_str c) | Some names \<Rightarrow> Inr (AList.update c names d)) conds []"

definition compile_contract :: "crypto \<Rightarrow> compiler \<Rightarrow> contract_request \<Rightarrow> string \<Rightarrow> task_contract res" where
  "compile_contract cr co q contract_id =
     (if blank (cq_goal q) then Inl (ContractCompilationError, ''goal is required'')
      else if cq_success_conditions q = []
      then Inl (ContractCompilationError, ''at least one success condition is required'')
      else if (case co_profile co of None \<Rightarrow> False
        | Some p \<Rightarrow> \<not> set (cq_success_conditions q) \<subseteq> set (dkeys (tp_success_condition_bindings p)))
      then Inl (ContractCompilationError, ''requested success condition is outside the reviewed task profile'')
      else bnd (map_res (compile_action co) (cq_requested_actions q)) (\<lambda>rules.
        if rules = [] then Inl (ContractCompilationError, ''at least one permitted action is required'')
        else bnd (case co_profile co of None \<Rightarrow> Inr []
            | Some p \<Rightarrow> select_bindings (tp_success_condition_bindings p) (cq_success_conditions q)) (\<lambda>bindings.
        let base = \<lparr>tc_goal = cq_goal q, tc_success_conditions = cq_success_conditions q, tc_allowed_actions = rules,
              tc_forbidden_actions = server_forbidden, tc_required_verifiers = [],
              tc_success_condition_bindings = bindings, tc_action_safety_checks = [], tc_global_completion_guards = [],
              tc_require_argument_provenance = False, tc_task_kind = [], tc_risk_class = [], tc_probe_policy_digest = [],
              tc_profile_version = [], tc_profile_digest = [], tc_maximum_iterations = cq_maximum_iterations q,
              tc_maximum_tool_calls = cq_maximum_tool_calls q, tc_expires_at = None, tc_contract_id = contract_id,
              tc_version = 1\<rparr>
        in task_contract_init (case co_profile co of None \<Rightarrow> base
          | Some p \<Rightarrow> base\<lparr>tc_required_verifiers := tp_required_verifiers p,
              tc_action_safety_checks := tp_action_safety_checks p, tc_global_completion_guards := tp_global_completion_guards p,
              tc_require_argument_provenance := tp_require_argument_provenance p, tc_task_kind := tp_task_kind p,
              tc_risk_class := tp_risk_class p, tc_probe_policy_digest := profile_probe_policy_digest cr p,
              tc_profile_version := tp_profile_version p, tc_profile_digest := profile_digest cr p\<rparr>))))"

section \<open>Combined constraints are at least as strict\<close>

lemma closed_names_None: "closed_names ts = None \<longleftrightarrow> list_all ta_allow_unlisted ts"
proof -
  have "filter (\<lambda>t. \<not> ta_allow_unlisted t) ts = [] \<longleftrightarrow> list_all ta_allow_unlisted ts"
    by (simp add: list_all_iff filter_empty_conv)
  then show ?thesis by (auto simp: closed_names_def split: list.splits)
qed

lemma fold_inter: "fold (\<lambda>t s. s \<inter> f t) ts s = s \<inter> (\<Inter>t \<in> set ts. f t)"
  by (induction ts arbitrary: s) auto

lemma closed_names_subset:
  assumes "t \<in> set ts" "\<not> ta_allow_unlisted t" "closed_names ts = Some s"
  shows "s \<subseteq> arg_name ` set (ta_argument_rules t)"
proof -
  obtain c cs where cs: "filter (\<lambda>t. \<not> ta_allow_unlisted t) ts = c # cs"
    "s = (arg_name ` set (ta_argument_rules c)) \<inter> (\<Inter>t \<in> set cs. arg_name ` set (ta_argument_rules t))"
    using assms(3) by (auto simp: closed_names_def fold_inter split: list.splits)
  have "t \<in> set (c # cs)" unfolding cs(1) [symmetric] using assms(1,2) by simp
  then show ?thesis using cs(2) by auto
qed

lemma min_opt_le: "Some m \<in> set xs \<Longrightarrow> \<exists>k. min_opt xs = Some k \<and> k \<le> m"
proof -
  assume "Some m \<in> set xs"
  then have "m \<in> set (List.map_filter id xs)" by (force simp: map_filter_def)
  then show ?thesis by (auto simp: min_opt_def Let_def intro!: Min_le)
qed

lemma max_opt_ge: "Some m \<in> set xs \<Longrightarrow> \<exists>k. max_opt xs = Some k \<and> m \<le> k"
proof -
  assume "Some m \<in> set xs"
  then have "m \<in> set (List.map_filter id xs)" by (force simp: map_filter_def)
  then show ?thesis by (auto simp: max_opt_def Let_def intro!: Max_ge)
qed

lemma within_combined:
  assumes "within (max_opt los) i (min_opt his)" "lo \<in> set los" "hi \<in> set his"
  shows "within lo i hi"
proof (cases lo)
  case (Some m)
  then show ?thesis
    using assms max_opt_ge [of m los] min_opt_le [of _ his] by (cases hi) (fastforce simp: within_def)+
qed (use assms min_opt_le [of _ his] in \<open>cases hi; fastforce simp: within_def\<close>)

lemma combine_rulesD:
  assumes "combine_rules name rules = Inr c"
  shows "arg_name c = name" "arg_required c = list_ex arg_required rules"
    and "arg_maximum_length c = min_opt (map arg_maximum_length rules)" "arg_minimum c = max_opt (map arg_minimum rules)"
    and "arg_maximum c = min_opt (map arg_maximum rules)"
    and "r \<in> set rules \<Longrightarrow> arg_kind r = arg_kind c"
    and "r \<in> set rules \<Longrightarrow> arg_kind c = K_ENUM \<Longrightarrow> set (arg_allowed_values c) \<subseteq> set (arg_allowed_values r)"
proof -
  let ?same = "\<not> list_ex (\<lambda>r. arg_kind r \<noteq> arg_kind (hd rules)) (tl rules)"
  let ?allowed = "fold (\<lambda>r s. s \<inter> set (arg_allowed_values r)) (tl rules) (set (arg_allowed_values (hd rules)))"
  have c: "?same" "c = \<lparr>arg_name = name, arg_kind = arg_kind (hd rules), arg_required = list_ex arg_required rules,
          arg_allowed_values = (if arg_kind (hd rules) = K_ENUM then sorted_list_of_set ?allowed else []),
          arg_maximum_length = min_opt (map arg_maximum_length rules), arg_minimum = max_opt (map arg_minimum rules),
          arg_maximum = min_opt (map arg_maximum rules)\<rparr>"
    using assms by (auto simp: combine_rules_def Let_def argument_rule_init_def split: if_splits)
  then show "arg_name c = name" "arg_required c = list_ex arg_required rules"
    "arg_maximum_length c = min_opt (map arg_maximum_length rules)" "arg_minimum c = max_opt (map arg_minimum rules)"
    "arg_maximum c = min_opt (map arg_maximum rules)" by simp_all
  have split: "r = hd rules \<or> r \<in> set (tl rules)" if "r \<in> set rules" for r
    using that by (cases rules) auto
  show "arg_kind r = arg_kind c" if "r \<in> set rules"
    using split [OF that] c by (auto simp: list_ex_iff)
  have fin: "finite ?allowed" unfolding fold_inter by simp
  show "set (arg_allowed_values c) \<subseteq> set (arg_allowed_values r)" if "r \<in> set rules" "arg_kind c = K_ENUM"
  proof -
    have "set (arg_allowed_values c) = ?allowed" using fin that(2) by (simp add: c(2))
    then show ?thesis using split [OF that(1)] unfolding fold_inter by auto
  qed
qed

lemma combined_stricter:
  assumes "combine_rules name rules = Inr c" "r \<in> set rules" "argument_ok c v"
  shows "argument_ok r v"
proof -
  note d = combine_rulesD [OF assms(1)]
  have kind: "arg_kind r = arg_kind c" by (rule d(6) [OF assms(2)])
  have len: "within None i (arg_maximum_length c) \<Longrightarrow> within None i (arg_maximum_length r)" for i
    using within_combined [of "[None]" i "map arg_maximum_length rules" None "arg_maximum_length r"] assms(2)
    unfolding d(3) by (simp add: max_opt_def map_filter_def)
  have rng: "within (arg_minimum c) i (arg_maximum c) \<Longrightarrow> within (arg_minimum r) i (arg_maximum r)" for i
    using within_combined [of "map arg_minimum rules" i "map arg_maximum rules"] assms(2) unfolding d(4,5) by simp
  show ?thesis
    using assms(3) len rng d(7) [OF assms(2)] by (cases v) (auto simp: kind)
qed

text \<open>What an authority grants: the target lies under a permitted prefix and every argument that is
  present satisfies the authority's constraint for it; without free arguments, only listed ones.\<close>

definition authority_covers :: "tool_authority \<Rightarrow> action_intent \<Rightarrow> bool" where
  "authority_covers t i \<longleftrightarrow> ta_tool t = in_tool i \<and> ta_effect t = in_effect i
     \<and> (\<exists>p \<in> set (ta_permitted_prefixes t). target_matches (in_target i) p)
     \<and> (\<forall>r \<in> set (ta_argument_rules t). \<forall>v. dget (in_arguments i) (arg_name r) = Some v \<longrightarrow> argument_ok r v)
     \<and> (ta_allow_unlisted t \<or> set (dkeys (in_arguments i)) \<subseteq> arg_name ` set (ta_argument_rules t))"

lemma closed_names_member:
  assumes "closed_names ts = Some s" "\<forall>t \<in> set ts. \<not> ta_allow_unlisted t \<longrightarrow> n \<in> arg_name ` set (ta_argument_rules t)"
  shows "n \<in> s"
proof -
  obtain c cs where cs: "filter (\<lambda>t. \<not> ta_allow_unlisted t) ts = c # cs"
    "s = (arg_name ` set (ta_argument_rules c)) \<inter> (\<Inter>t \<in> set cs. arg_name ` set (ta_argument_rules t))"
    using assms(1) by (auto simp: closed_names_def fold_inter split: list.splits)
  have "set (c # cs) \<subseteq> {t \<in> set ts. \<not> ta_allow_unlisted t}" unfolding cs(1) [symmetric] by auto
  then show ?thesis using assms(2) cs(2) by auto
qed

lemma intersect_combined:
  assumes "intersect_argument_rules ts = Inr rules" "n \<in> arg_name ` set (kept_rules ts)"
  shows "\<exists>c \<in> set rules. combine_rules n (filter (\<lambda>r. arg_name r = n) (kept_rules ts)) = Inr c"
proof -
  let ?names = "sort (remdups (map arg_name (kept_rules ts)))"
  have all2: "list_all2 (\<lambda>n c. combine_rules n (filter (\<lambda>r. arg_name r = n) (kept_rules ts)) = Inr c) ?names rules"
    using assms(1) by (simp add: intersect_argument_rules_def Let_def map_res_all)
  have "n \<in> set ?names" using assms(2) by simp
  then obtain j where j: "j < length ?names" "?names ! j = n" by (metis in_set_conv_nth)
  then have "rules ! j \<in> set rules" using list_all2_lengthD [OF all2] by simp
  then show ?thesis using list_all2_nthD [OF all2 j(1)] j(2) by metis
qed

text \<open>A required argument stays required when every authority without free arguments lists it.\<close>

lemma intersect_required:
  assumes "intersect_argument_rules ts = Inr rules" "rule_argument_rules ar = rules" "arguments_ok ar args"
    and "t \<in> set ts" "a \<in> set (ta_argument_rules t)" "arg_required a"
    and "\<forall>u \<in> set ts. \<not> ta_allow_unlisted u \<longrightarrow> arg_name a \<in> arg_name ` set (ta_argument_rules u)"
  shows "arg_name a \<in> set (dkeys args)"
proof -
  have kept: "a \<in> set (kept_rules ts)"
    using assms(4,5) closed_names_member [OF _ assms(7)] by (auto simp: kept_rules_def split: option.splits)
  then obtain c where c: "c \<in> set rules" "combine_rules (arg_name a) (filter (\<lambda>r. arg_name r = arg_name a) (kept_rules ts)) = Inr c"
    using intersect_combined [OF assms(1), of "arg_name a"] by blast
  have "arg_required c" "arg_name c = arg_name a" using combine_rulesD(1,2) [OF c(2)] kept assms(6) by (auto simp: list_ex_iff)
  then have "dget args (arg_name a) \<noteq> None" using assms(2,3) c(1) by (fastforce simp: arguments_ok_def split: option.splits)
  then show ?thesis using dget_Some_key by fastforce
qed

lemma intersect_arguments_sound:
  assumes "intersect_argument_rules ts = Inr rules" "t \<in> set ts" "rule_argument_rules ar = rules"
    and "rule_allow_unlisted ar = list_all ta_allow_unlisted ts" "arguments_ok ar args"
  shows "(\<forall>r \<in> set (ta_argument_rules t). \<forall>v. dget args (arg_name r) = Some v \<longrightarrow> argument_ok r v)
    \<and> (ta_allow_unlisted t \<or> set (dkeys args) \<subseteq> arg_name ` set (ta_argument_rules t))"
proof -
  let ?names = "sort (remdups (map arg_name (kept_rules ts)))"
  have all2: "list_all2 (\<lambda>n c. combine_rules n (filter (\<lambda>r. arg_name r = n) (kept_rules ts)) = Inr c) ?names rules"
    using assms(1) by (simp add: intersect_argument_rules_def Let_def map_res_all)
  note combined = intersect_combined [OF assms(1)]
  have names: "arg_name ` set rules \<subseteq> arg_name ` set (kept_rules ts)"
  proof
    fix n assume "n \<in> arg_name ` set rules"
    then obtain j where j: "j < length rules" "arg_name (rules ! j) = n" by (auto simp: in_set_conv_nth)
    have "?names ! j \<in> set ?names" using j(1) list_all2_lengthD [OF all2] by (metis nth_mem)
    moreover have "arg_name (rules ! j) = ?names ! j"
      using list_all2_nthD2 [OF all2 j(1)] by (rule combine_rulesD(1))
    ultimately show "n \<in> arg_name ` set (kept_rules ts)" using j(2) by simp
  qed
  have listed: "list_all ta_allow_unlisted ts \<or> set (dkeys args) \<subseteq> arg_name ` set rules"
    using assms(3-5) by (auto simp: arguments_ok_def)
  have kept: "r \<in> set (kept_rules ts)" if "r \<in> set (ta_argument_rules t)" "arg_name r \<in> set (dkeys args)" for r
  proof (cases "closed_names ts")
    case None
    then show ?thesis using that assms(2) by (auto simp: kept_rules_def)
  next
    case (Some s)
    then have "\<not> list_all ta_allow_unlisted ts" using closed_names_None [of ts] by simp
    then have "arg_name r \<in> arg_name ` set (kept_rules ts)" using listed names that(2) by blast
    then have "arg_name r \<in> s" using Some by (auto simp: kept_rules_def)
    then show ?thesis using that(1) assms(2) Some by (auto simp: kept_rules_def)
  qed
  have "argument_ok r v" if r: "r \<in> set (ta_argument_rules t)" "dget args (arg_name r) = Some v" for r v
  proof -
    have k: "r \<in> set (kept_rules ts)" by (rule kept [OF r(1) dget_Some_key [OF r(2)]])
    then obtain c where c: "c \<in> set rules" "combine_rules (arg_name r) (filter (\<lambda>q. arg_name q = arg_name r) (kept_rules ts)) = Inr c"
      using combined [of "arg_name r"] by auto
    have "argument_ok c v"
      using assms(3,5) c(1) combine_rulesD(1) [OF c(2)] r(2)
      by (fastforce simp: arguments_ok_def argument_validate_iff)
    then show ?thesis using combined_stricter [OF c(2)] k by simp
  qed
  moreover have "set (dkeys args) \<subseteq> arg_name ` set (ta_argument_rules t)" if "\<not> ta_allow_unlisted t"
  proof -
    have "\<not> list_all ta_allow_unlisted ts" using that assms(2) by (auto simp: list_all_iff)
    then obtain s where s: "closed_names ts = Some s" using closed_names_None by fastforce
    have "arg_name ` set (kept_rules ts) \<subseteq> s" using s by (auto simp: kept_rules_def)
    moreover have "set (dkeys args) \<subseteq> arg_name ` set rules" using listed \<open>\<not> list_all ta_allow_unlisted ts\<close> by metis
    ultimately show ?thesis using names closed_names_subset [OF assms(2) that s] by (meson subset_trans)
  qed
  ultimately show ?thesis by blast
qed

lemma strip_prefix_slash_matches: "target_matches t (strip_prefix_slash p) \<longleftrightarrow> target_matches t p"
  by (auto simp: strip_prefix_slash_def target_matches_def Let_def rstrip_idem) (auto simp: rstrip_chr_def)

lemma is_within_matches:
  assumes "is_within r p" "target_matches t r" "startswith t ''/''" "startswith r ''/''"
  shows "target_matches t p"
proof -
  have "target_matches (strip_prefix_slash r) p"
    using assms(1) by (simp add: is_within_def target_matches_def strip_prefix_slash_def Let_def)
  moreover have "startswith (strip_prefix_slash r) ''/''"
  proof (cases "rstrip_chr (CHR ''/'') r = []")
    case False
    obtain u where u: "r = [CHR ''/''] @ u" using assms(4) by (auto simp: startswith_iff)
    have "rstrip_chr (CHR ''/'') r = CHR ''/'' # rstrip_chr (CHR ''/'') u"
      using False rstrip_append [of "CHR ''/''" "[CHR ''/'']" u] unfolding u by (auto simp: rstrip_chr_def split: if_splits)
    then show ?thesis by (auto simp: strip_prefix_slash_def startswith_iff)
  qed (simp add: strip_prefix_slash_def startswith_def)
  ultimately show ?thesis
    using target_matches_trans [of t "strip_prefix_slash r" p] assms(2,3) by (simp add: strip_prefix_slash_matches)
qed

lemma minimum_max_uses_le: "t \<in> set ts \<Longrightarrow> ta_max_uses t = Some m \<Longrightarrow> \<exists>k. minimum_max_uses ts = Some k \<and> k \<le> m"
proof -
  assume "t \<in> set ts" "ta_max_uses t = Some m"
  then have "m \<in> set (List.map_filter ta_max_uses ts)" by (force simp: map_filter_def)
  then show ?thesis by (auto simp: minimum_max_uses_def Let_def intro!: Min_le)
qed

lemma compile_actionD:
  assumes "compile_action co a = Inr r"
  obtains ts where "resolve_all co a = Inr ts" "rule_tool r = ra_tool a" "rule_effect r = ra_effect a"
    "rule_target_prefix r = ra_target_prefix a" "startswith (rule_target_prefix r) ''/''"
    "rule_approval_required r = list_ex ta_approval_required ts" "rule_max_uses r = minimum_max_uses ts"
    "intersect_argument_rules ts = Inr (rule_argument_rules r)" "rule_allow_unlisted r = list_all ta_allow_unlisted ts"
  using assms by (auto simp: compile_action_def bnd_eq_Inr action_rule_init_def)

lemma resolve_allD:
  assumes "resolve_all co a = Inr ts"
  shows "ts \<noteq> []" "set ts = {t \<in> set (co_catalog co). ta_tool t = ra_tool a \<and> ta_effect t = ra_effect a
    \<and> (\<exists>p \<in> set (ta_permitted_prefixes t). is_within (ra_target_prefix a) p)}"
  using assms by (auto simp: resolve_all_def Let_def list_ex_iff split: if_splits)

lemma compile_contract_rules:
  assumes "compile_contract cr co q cid = Inr c"
  shows "map_res (compile_action co) (cq_requested_actions q) = Inr (tc_allowed_actions c)"
proof -
  have id: "task_contract_init d = Inr e \<Longrightarrow> e = d" for d e
    by (auto simp: task_contract_init_def Let_def bnd_eq_Inr)
  show ?thesis
    using assms by (auto simp: compile_contract_def bnd_eq_Inr Let_def dest!: id split: option.splits)
qed

lemma compiled_rule:
  assumes "compile_contract cr co q cid = Inr c" "r \<in> set (tc_allowed_actions c)"
  shows "\<exists>a \<in> set (cq_requested_actions q). compile_action co a = Inr r"
proof -
  have all2: "list_all2 (\<lambda>a r. compile_action co a = Inr r) (cq_requested_actions q) (tc_allowed_actions c)"
    using compile_contract_rules [OF assms(1)] by (simp add: map_res_all)
  obtain j where "j < length (tc_allowed_actions c)" "tc_allowed_actions c ! j = r" using assms(2) by (auto simp: in_set_conv_nth)
  then show ?thesis using list_all2_nthD2 [OF all2] list_all2_lengthD [OF all2] by (metis nth_mem)
qed

text \<open>The authorities an admitting rule was compiled from.\<close>

definition governs :: "compiler \<Rightarrow> tool_authority \<Rightarrow> action_rule \<Rightarrow> bool" where
  "governs co t r \<longleftrightarrow> t \<in> set (co_catalog co) \<and> ta_tool t = rule_tool r \<and> ta_effect t = rule_effect r
     \<and> (\<exists>p \<in> set (ta_permitted_prefixes t). is_within (rule_target_prefix r) p)"

text \<open>Every constraint of an authority on a call: coverage, approval, uses, and the required arguments that no
  governing authority without free arguments leaves out.\<close>

definition within_authority :: "compiler \<Rightarrow> tool_authority \<Rightarrow> action_rule \<Rightarrow> action_rule list \<Rightarrow> action_intent \<Rightarrow> bool" where
  "within_authority co t r rules i \<longleftrightarrow> authority_covers t i \<and> (ta_approval_required t \<longrightarrow> requires_approval i rules)
     \<and> (case ta_max_uses t of None \<Rightarrow> True | Some m \<Rightarrow> (case rule_max_uses r of None \<Rightarrow> False | Some k \<Rightarrow> k \<le> m))
     \<and> (\<forall>a \<in> set (ta_argument_rules t). arg_required a
          \<and> (\<forall>u. governs co u r \<and> \<not> ta_allow_unlisted u \<longrightarrow> arg_name a \<in> arg_name ` set (ta_argument_rules u))
          \<longrightarrow> arg_name a \<in> set (dkeys (in_arguments i)))"

text \<open>C28: whatever a request asks for, an action the gate admits under the compiled contract is governed by a
  server-owned authority, and every authority that governs an admitting rule constrains the call: tool, effect,
  target, argument constraints and the ban on unlisted arguments hold, its approval requirement is in force, its
  use budget bounds the rule's, and its required arguments are present, those excepted that another governing
  authority without free arguments does not list: the compiler drops them with their rule
  (\<open>required_dropped\<close> below).\<close>

theorem compiled_within_authority:
  assumes "compile_contract cr co q cid = Inr c" "admission c i now = Inr rules" "startswith (in_target i) ''/''"
  shows "rules \<noteq> [] \<and> (\<forall>r \<in> set rules. (\<exists>t. governs co t r) \<and> (\<forall>t. governs co t r \<longrightarrow> within_authority co t r rules i))"
proof (intro conjI ballI allI impI)
  have ad: "rules = matching_rules c i" "rules \<noteq> []" "\<forall>r \<in> set rules. arguments_ok r (in_arguments i)"
    using assms(2) admission_ok [of c i now rules] by (auto simp: admitted_def)
  then show "rules \<noteq> []" by simp
  fix r assume r: "r \<in> set rules"
  have m: "r \<in> set (tc_allowed_actions c)" "rule_tool r = in_tool i" "rule_effect r = in_effect i"
    "target_matches (in_target i) (rule_target_prefix r)"
    using r ad(1) by (auto simp: matching_rules_def)
  obtain a ts where ts: "resolve_all co a = Inr ts" "rule_tool r = ra_tool a" "rule_effect r = ra_effect a"
    "rule_target_prefix r = ra_target_prefix a" "startswith (rule_target_prefix r) ''/''"
    "rule_approval_required r = list_ex ta_approval_required ts" "rule_max_uses r = minimum_max_uses ts"
    "intersect_argument_rules ts = Inr (rule_argument_rules r)" "rule_allow_unlisted r = list_all ta_allow_unlisted ts"
    using compiled_rule [OF assms(1) m(1)] by (metis compile_actionD)
  have gov: "governs co t r \<longleftrightarrow> t \<in> set ts" for t
    unfolding resolve_allD(2) [OF ts(1)] by (auto simp: governs_def ts(2-4))
  have "hd ts \<in> set ts" using resolve_allD(1) [OF ts(1)] by simp
  then show "\<exists>t. governs co t r" using gov by blast
  fix t assume g: "governs co t r"
  then obtain p where p: "p \<in> set (ta_permitted_prefixes t)" "is_within (rule_target_prefix r) p" by (auto simp: governs_def)
  note args = ad(3) [rule_format, OF r]
  have "authority_covers t i"
    using intersect_arguments_sound [OF ts(8) gov [THEN iffD1, OF g] refl ts(9) args] is_within_matches [OF p(2) m(4) assms(3) ts(5)]
      p(1) g m(2,3) unfolding authority_covers_def governs_def by metis
  moreover have "ta_approval_required t \<longrightarrow> requires_approval i rules"
    using g gov r ts(6) by (auto simp: requires_approval_def list_ex_iff)
  moreover have "case ta_max_uses t of None \<Rightarrow> True | Some m \<Rightarrow> (case rule_max_uses r of None \<Rightarrow> False | Some k \<Rightarrow> k \<le> m)"
    using minimum_max_uses_le [OF gov [THEN iffD1, OF g]] ts(7) by (fastforce split: option.splits)
  moreover have "arg_name b \<in> set (dkeys (in_arguments i))"
    if "b \<in> set (ta_argument_rules t)" "arg_required b"
      "\<forall>u. governs co u r \<and> \<not> ta_allow_unlisted u \<longrightarrow> arg_name b \<in> arg_name ` set (ta_argument_rules u)" for b
    using intersect_required [OF ts(8) refl args gov [THEN iffD1, OF g] that(1,2)] that(3) gov by blast
  ultimately show "within_authority co t r rules i" unfolding within_authority_def by blast
qed

section \<open>A concrete compilation\<close>

definition sample_authority :: tool_authority where
  "sample_authority = \<lparr>ta_tool = ''write_file'', ta_effect = WRITE, ta_permitted_prefixes = [''/work''],
     ta_approval_required = True, ta_max_uses = Some 3, ta_argument_rules = [], ta_allow_unlisted = False\<rparr>"

definition sample_contract_request :: contract_request where
  "sample_contract_request = \<lparr>cq_goal = ''g'', cq_success_conditions = [''s''],
     cq_requested_actions = [\<lparr>ra_tool = ''write_file'', ra_effect = WRITE, ra_target_prefix = ''/work/a''\<rparr>],
     cq_maximum_iterations = 3, cq_maximum_tool_calls = 5\<rparr>"

definition sample_compiler :: compiler where
  "sample_compiler = \<lparr>co_catalog = [sample_authority], co_profile = None\<rparr>"

theorem compiled_within_authority_witness:
  "\<exists>c rules. compile_contract toy_crypto sample_compiler sample_contract_request ''k'' = Inr c
     \<and> admission c sample_intent 0 = Inr rules \<and> authority_covers sample_authority sample_intent
     \<and> requires_approval sample_intent rules"
proof -
  have "case compile_contract toy_crypto sample_compiler sample_contract_request ''k'' of
      Inl e \<Rightarrow> False | Inr c \<Rightarrow> (case admission c sample_intent 0 of Inl e \<Rightarrow> False | Inr rules \<Rightarrow> True)" by code_simp
  then obtain c rules where c: "compile_contract toy_crypto sample_compiler sample_contract_request ''k'' = Inr c"
    "admission c sample_intent 0 = Inr rules"
    by (auto split: sum.splits)
  have "startswith (in_target sample_intent) ''/''" by code_simp
  from compiled_within_authority [OF c this] obtain r t where "governs sample_compiler t r"
    "within_authority sample_compiler t r rules sample_intent" by (cases rules) auto
  then have "authority_covers sample_authority sample_intent \<and> requires_approval sample_intent rules"
    by (auto simp: governs_def within_authority_def sample_compiler_def sample_authority_def)
  with c show ?thesis by blast
qed

text \<open>Two authorities without free arguments: the one requires an argument that the other does not list, and the
  compiled rule admits a call without it.\<close>

definition requiring_authority :: tool_authority where
  "requiring_authority = sample_authority\<lparr>ta_argument_rules := [\<lparr>arg_name = ''ticket'', arg_kind = K_STRING, arg_required = True,
     arg_allowed_values = [], arg_maximum_length = None, arg_minimum = None, arg_maximum = None\<rparr>]\<rparr>"

lemma required_dropped:
  "case compile_contract toy_crypto \<lparr>co_catalog = [sample_authority, requiring_authority], co_profile = None\<rparr> sample_contract_request ''k'' of
     Inl e \<Rightarrow> False
   | Inr c \<Rightarrow> map (rule_argument_rules) (tc_allowed_actions c) = [[]] \<and> (case admission c sample_intent 0 of Inl e \<Rightarrow> False | Inr rules \<Rightarrow> True)"
  by code_simp

end
