(* ===== verification/Effects.thy ===== *)
theory Effects
  imports Values
begin

text \<open>
  Code that mutates a state and may raise: a function from the state to a result and the state
  it leaves, which an exception keeps. A triple relates the states before and after, on return
  and on an exception; the rules below are applied along the structure of the code.
\<close>

section \<open>Stateful code\<close>

type_synonym ('s, 'a) act = "'s \<Rightarrow> 'a res \<times> 's"

definition ret :: "'a \<Rightarrow> ('s, 'a) act" where
  "ret x s = (Inr x, s)"

definition raise :: "exc \<Rightarrow> string \<Rightarrow> ('s, 'a) act" where
  "raise e msg s = (Inl (e, msg), s)"

definition andthen :: "('s, 'a) act \<Rightarrow> ('a \<Rightarrow> ('s, 'b) act) \<Rightarrow> ('s, 'b) act" where
  "andthen m k s = (case m s of (Inl e, s') \<Rightarrow> (Inl e, s') | (Inr x, s') \<Rightarrow> k x s')"

definition gets :: "('s \<Rightarrow> 'a) \<Rightarrow> ('s, 'a) act" where
  "gets f s = (Inr (f s), s)"

definition modify :: "('s \<Rightarrow> 's) \<Rightarrow> ('s, unit) act" where
  "modify f s = (Inr (), f s)"

text \<open>A pure computation that may raise, a query that may, and an operation on one part of the state.\<close>

definition asks :: "('s \<Rightarrow> 'a res) \<Rightarrow> ('s, 'a) act" where
  "asks f s = (f s, s)"

definition liftr :: "'a res \<Rightarrow> ('s, 'a) act" where
  "liftr r s = (r, s)"

definition zoom :: "('s \<Rightarrow> 't) \<Rightarrow> ('t \<Rightarrow> 's \<Rightarrow> 's) \<Rightarrow> ('t \<Rightarrow> 'a res \<times> 't) \<Rightarrow> ('s, 'a) act" where
  "zoom get put op s = (case op (get s) of (r, t) \<Rightarrow> (r, put t s))"

text \<open>\<open>try: ... except\<close> for every exception: the state reached so far is kept.\<close>

definition catch :: "('s, 'a) act \<Rightarrow> (exc \<times> string \<Rightarrow> ('s, 'a) act) \<Rightarrow> ('s, 'a) act" where
  "catch m h s = (case m s of (Inl e, s') \<Rightarrow> h e s' | (Inr x, s') \<Rightarrow> (Inr x, s'))"

definition whenever :: "bool \<Rightarrow> ('s, unit) act \<Rightarrow> ('s, unit) act" where
  "whenever b m = (if b then m else ret ())"

fun for_each :: "('a \<Rightarrow> ('s, unit) act) \<Rightarrow> 'a list \<Rightarrow> ('s, unit) act" where
  "for_each f [] = ret ()"
| "for_each f (x # xs) = andthen (f x) (\<lambda>_. for_each f xs)"

text \<open>A loop that threads a value.\<close>

fun fold_act :: "('a \<Rightarrow> 'b \<Rightarrow> ('s, 'b) act) \<Rightarrow> 'a list \<Rightarrow> 'b \<Rightarrow> ('s, 'b) act" where
  "fold_act f [] b = ret b"
| "fold_act f (x # xs) b = andthen (f x b) (fold_act f xs)"

section \<open>Code that returned\<close>

lemma andthen_Inr: "andthen m k s = (Inr x, s') \<longleftrightarrow> (\<exists>y t. m s = (Inr y, t) \<and> k y t = (Inr x, s'))"
  by (cases "m s"; cases "fst (m s)") (auto simp: andthen_def)

lemma zoom_Inr: "zoom get put op s = (Inr x, s') \<longleftrightarrow> (\<exists>t. op (get s) = (Inr x, t) \<and> s' = put t s)"
  by (cases "op (get s)") (auto simp: zoom_def)

lemma ret_Inr: "ret y s = (Inr x, s') \<longleftrightarrow> x = y \<and> s' = s"
  by (auto simp: ret_def)

lemma raise_Inr: "raise e msg s \<noteq> (Inr x, s')"
  by (simp add: raise_def)

lemma gets_Inr: "gets f s = (Inr x, s') \<longleftrightarrow> x = f s \<and> s' = s"
  by (auto simp: gets_def)

lemmas act_Inr = andthen_Inr zoom_Inr ret_Inr raise_Inr gets_Inr

section \<open>Stepping through a run\<close>

lemma andthen_step: "m s = (Inr x, t) \<Longrightarrow> andthen m k s = k x t"
  by (simp add: andthen_def)

lemma andthen_fails: "m s = (Inl e, t) \<Longrightarrow> andthen m k s = (Inl e, t)"
  by (simp add: andthen_def)

lemma andthen_gets: "andthen (gets f) k s = k (f s) s"
  by (simp add: andthen_def gets_def)

lemma andthen_asks: "f s = Inr x \<Longrightarrow> andthen (asks f) k s = k x s"
  by (simp add: andthen_def asks_def)

lemma andthen_modify: "andthen (modify f) k s = k () (f s)"
  by (simp add: andthen_def modify_def)

lemma andthen_ret: "andthen (ret x) k s = k x s"
  by (simp add: andthen_def ret_def)

lemma andthen_liftr: "andthen (liftr (Inr x)) k s = k x s"
  by (simp add: andthen_def liftr_def)

lemma andthen_andthen: "andthen (andthen m k) l s = andthen m (\<lambda>x. andthen (k x) l) s"
  by (cases "m s"; cases "fst (m s)") (auto simp: andthen_def)

lemma catch_returns: "m s = (Inr x, t) \<Longrightarrow> catch m h s = (Inr x, t)"
  by (simp add: catch_def)

lemmas stepping = andthen_gets andthen_modify andthen_ret andthen_liftr andthen_andthen

section \<open>Triples\<close>

definition triple :: "('s \<Rightarrow> bool) \<Rightarrow> ('s, 'a) act \<Rightarrow> ('a \<Rightarrow> 's \<Rightarrow> bool) \<Rightarrow> ('s \<Rightarrow> bool) \<Rightarrow> bool" where
  "triple P m Q E \<longleftrightarrow> (\<forall>s. P s \<longrightarrow> (case m s of (Inr x, s') \<Rightarrow> Q x s' | (Inl e, s') \<Rightarrow> E s'))"

lemma tripleI: "(\<And>s. P s \<Longrightarrow> case m s of (Inr x, s') \<Rightarrow> Q x s' | (Inl e, s') \<Rightarrow> E s') \<Longrightarrow> triple P m Q E"
  by (simp add: triple_def)

lemma tripleD: "triple P m Q E \<Longrightarrow> P s \<Longrightarrow> m s = (Inr x, s') \<Longrightarrow> Q x s'"
  by (fastforce simp: triple_def)

lemma tripleE: "triple P m Q E \<Longrightarrow> P s \<Longrightarrow> m s = (Inl e, s') \<Longrightarrow> E s'"
  by (fastforce simp: triple_def)

lemma triple_conseq:
  "triple P m Q E \<Longrightarrow> (\<And>s. P' s \<Longrightarrow> P s) \<Longrightarrow> (\<And>x s. Q x s \<Longrightarrow> Q' x s) \<Longrightarrow> (\<And>s. E s \<Longrightarrow> E' s) \<Longrightarrow> triple P' m Q' E'"
  unfolding triple_def by (fastforce split: prod.splits sum.splits)

lemma triple_pre: "triple P m Q E \<Longrightarrow> (\<And>s. P' s \<Longrightarrow> P s) \<Longrightarrow> triple P' m Q E"
  by (rule triple_conseq)

lemma triple_post: "triple P m Q E \<Longrightarrow> (\<And>x s. Q x s \<Longrightarrow> Q' x s) \<Longrightarrow> triple P m Q' E"
  by (rule triple_conseq)

lemma triple_ret: "(\<And>s. P s \<Longrightarrow> Q x s) \<Longrightarrow> triple P (ret x) Q E"
  by (simp add: triple_def ret_def)

lemma triple_raise: "(\<And>s. P s \<Longrightarrow> E s) \<Longrightarrow> triple P (raise e msg) Q E"
  by (simp add: triple_def raise_def)

lemma triple_andthen:
  "triple P m R E \<Longrightarrow> (\<And>x. triple (R x) (k x) Q E) \<Longrightarrow> triple P (andthen m k) Q E"
  unfolding triple_def andthen_def by (fastforce split: prod.splits sum.splits)

lemma triple_gets: "(\<And>s. P s \<Longrightarrow> Q (f s) s) \<Longrightarrow> triple P (gets f) Q E"
  by (simp add: triple_def gets_def)

lemma triple_modify: "(\<And>s. P s \<Longrightarrow> Q () (f s)) \<Longrightarrow> triple P (modify f) Q E"
  by (simp add: triple_def modify_def)

lemma triple_liftr:
  "(\<And>s x. P s \<Longrightarrow> r = Inr x \<Longrightarrow> Q x s) \<Longrightarrow> (\<And>s. P s \<Longrightarrow> E s) \<Longrightarrow> triple P (liftr r) Q E"
  by (cases r) (auto simp: triple_def liftr_def)

lemma triple_asks:
  "(\<And>s x. P s \<Longrightarrow> f s = Inr x \<Longrightarrow> Q x s) \<Longrightarrow> (\<And>s. P s \<Longrightarrow> E s) \<Longrightarrow> triple P (asks f) Q E"
  by (auto simp: triple_def asks_def split: sum.splits)

lemma triple_zoom:
  "(\<And>s x t. P s \<Longrightarrow> op (get s) = (Inr x, t) \<Longrightarrow> Q x (put t s))
    \<Longrightarrow> (\<And>s e t. P s \<Longrightarrow> op (get s) = (Inl e, t) \<Longrightarrow> E (put t s)) \<Longrightarrow> triple P (zoom get put op) Q E"
  unfolding triple_def zoom_def by (auto split: prod.splits sum.splits)

lemma triple_catch:
  "triple P m Q R \<Longrightarrow> (\<And>e. triple R (h e) Q E) \<Longrightarrow> triple P (catch m h) Q E"
  unfolding triple_def catch_def by (fastforce split: prod.splits sum.splits)

lemma triple_if:
  "(b \<Longrightarrow> triple P m Q E) \<Longrightarrow> (\<not> b \<Longrightarrow> triple P n Q E) \<Longrightarrow> triple P (if b then m else n) Q E"
  by simp

lemma triple_whenever:
  "(b \<Longrightarrow> triple P m (\<lambda>_. Q ()) E) \<Longrightarrow> (\<And>s. \<not> b \<Longrightarrow> P s \<Longrightarrow> Q () s) \<Longrightarrow> triple P (whenever b m) Q E"
  by (simp add: whenever_def triple_def ret_def)

lemma triple_option:
  "(x = None \<Longrightarrow> triple P m Q E) \<Longrightarrow> (\<And>y. x = Some y \<Longrightarrow> triple P (n y) Q E)
    \<Longrightarrow> triple P (case x of None \<Rightarrow> m | Some y \<Rightarrow> n y) Q E"
  by (cases x) simp_all

lemma triple_for_each:
  "(\<And>x. x \<in> set xs \<Longrightarrow> triple P (f x) (\<lambda>_. P) E) \<Longrightarrow> triple P (for_each f xs) (\<lambda>_. P) E"
proof (induction xs)
  case (Cons x xs)
  then show ?case by (auto intro!: triple_andthen)
qed (simp add: triple_ret)

lemma triple_fold_act:
  "(\<And>x b. x \<in> set xs \<Longrightarrow> triple P (f x b) (\<lambda>_. P) E) \<Longrightarrow> triple P (fold_act f xs b) (\<lambda>_. P) E"
proof (induction xs arbitrary: b)
  case (Cons x xs)
  then show ?case by (auto intro!: triple_andthen)
qed (simp add: triple_ret)

text \<open>An assertion that code keeps on every way out.\<close>

definition keeps :: "('s \<Rightarrow> bool) \<Rightarrow> ('s, 'a) act \<Rightarrow> bool" where
  "keeps P m \<longleftrightarrow> triple P m (\<lambda>_. P) P"

named_theorems keeps_intros \<open>code that keeps an assertion\<close>

lemma keeps_ret [keeps_intros]: "keeps P (ret x)"
  by (simp add: keeps_def triple_ret)

lemma keeps_raise [keeps_intros]: "keeps P (raise e msg)"
  by (simp add: keeps_def triple_raise)

lemma keeps_andthen [keeps_intros]: "keeps P m \<Longrightarrow> (\<And>x. keeps P (k x)) \<Longrightarrow> keeps P (andthen m k)"
  unfolding keeps_def by (rule triple_andthen)

lemma keeps_gets [keeps_intros]: "keeps P (gets f)"
  by (simp add: keeps_def triple_gets)

lemma keeps_liftr [keeps_intros]: "keeps P (liftr r)"
  by (simp add: keeps_def triple_liftr)

lemma keeps_asks [keeps_intros]: "keeps P (asks f)"
  by (simp add: keeps_def triple_asks)

lemma keeps_catch [keeps_intros]: "keeps P m \<Longrightarrow> (\<And>e. keeps P (h e)) \<Longrightarrow> keeps P (catch m h)"
  unfolding keeps_def by (rule triple_catch)

lemma keeps_if [keeps_intros]: "(b \<Longrightarrow> keeps P m) \<Longrightarrow> (\<not> b \<Longrightarrow> keeps P n) \<Longrightarrow> keeps P (if b then m else n)"
  by simp

lemma keeps_option [keeps_intros]:
  "(x = None \<Longrightarrow> keeps P m) \<Longrightarrow> (\<And>y. x = Some y \<Longrightarrow> keeps P (n y)) \<Longrightarrow> keeps P (case x of None \<Rightarrow> m | Some y \<Rightarrow> n y)"
  by (cases x) simp_all

lemma keeps_sum [keeps_intros]:
  "(\<And>e. x = Inl e \<Longrightarrow> keeps P (m e)) \<Longrightarrow> (\<And>y. x = Inr y \<Longrightarrow> keeps P (n y)) \<Longrightarrow> keeps P (case x of Inl e \<Rightarrow> m e | Inr y \<Rightarrow> n y)"
  by (cases x) simp_all

lemma keeps_prod [keeps_intros]: "(\<And>a b. x = (a, b) \<Longrightarrow> keeps P (m a b)) \<Longrightarrow> keeps P (case x of (a, b) \<Rightarrow> m a b)"
  by (cases x) simp

lemma keeps_Let [keeps_intros]: "(\<And>y. y = x \<Longrightarrow> keeps P (m y)) \<Longrightarrow> keeps P (let y = x in m y)"
  by simp

lemma keeps_whenever [keeps_intros]: "(b \<Longrightarrow> keeps P m) \<Longrightarrow> keeps P (whenever b m)"
  by (simp add: whenever_def keeps_ret)

lemma keeps_for_each [keeps_intros]: "(\<And>x. keeps P (f x)) \<Longrightarrow> keeps P (for_each f xs)"
  unfolding keeps_def by (rule triple_for_each)

lemma keeps_fold_act [keeps_intros]: "(\<And>x b. keeps P (f x b)) \<Longrightarrow> keeps P (fold_act f xs b)"
  unfolding keeps_def by (rule triple_fold_act)

lemma keeps_modify: "(\<And>s. P s \<Longrightarrow> P (f s)) \<Longrightarrow> keeps P (modify f)"
  by (simp add: keeps_def triple_modify)

lemma keeps_zoom: "(\<And>s t. P s \<Longrightarrow> P (put t s)) \<Longrightarrow> keeps P (zoom get put op)"
  unfolding keeps_def by (rule triple_zoom) auto

end
