(* ===== verification/Graph_Compile.thy ===== *)
theory Graph_Compile
  imports Graph_Valid Monitor
begin

text \<open>
  The graph compiler of \<open>src/vloop/graph.py\<close> (\<open>GraphCompiler\<close>, \<open>_compile_control_graph\<close>): from a
  task contract to the control graph whose nodes, owners, ports and joins the scheduler enforces.
\<close>

section \<open>Names and ports\<close>

text \<open>\<open>str.isalnum\<close> of a character below 256.\<close>

definition py_isalnum :: "char \<Rightarrow> bool" where
  "py_isalnum c \<longleftrightarrow> (let n = of_char c :: nat in
     48 \<le> n \<and> n \<le> 57 \<or> 65 \<le> n \<and> n \<le> 90 \<or> 97 \<le> n \<and> n \<le> 122
     \<or> List.member [170, 178, 179, 181, 185, 186, 188, 189, 190] n \<or> 192 \<le> n \<and> n \<noteq> 215 \<and> n \<noteq> 247)"

definition or_unnamed :: "string \<Rightarrow> string" where
  "or_unnamed s = (if s = [] then ''unnamed'' else s)"

definition node_token :: "string \<Rightarrow> string" where
  "node_token v = or_unnamed (strip_chr (CHR ''-'') (map (\<lambda>c. if py_isalnum c then c else CHR ''-'') v))"

text \<open>The schema names of the compiler are constants, so \<open>schema_digest\<close> does not raise on them.\<close>

definition schema_of :: "crypto \<Rightarrow> string \<Rightarrow> string" where
  "schema_of cr s = (case schema_digest cr s of Inr d \<Rightarrow> d | Inl _ \<Rightarrow> [])"

definition inp :: "(string \<Rightarrow> string) \<Rightarrow> string \<Rightarrow> string \<Rightarrow> node_port" where
  "inp sd name schema = \<lparr>port_name = name, port_direction = INPUT, port_schema_digest = sd schema, port_required = True\<rparr>"

definition outp :: "(string \<Rightarrow> string) \<Rightarrow> string \<Rightarrow> string \<Rightarrow> node_port" where
  "outp sd name schema = \<lparr>port_name = name, port_direction = OUTPUT, port_schema_digest = sd schema, port_required = True\<rparr>"

definition owned :: "string \<Rightarrow> metadata \<Rightarrow> metadata" where
  "owned role md = (''producer_role'', role) # md"

definition ported :: "graph_node \<Rightarrow> node_port list \<Rightarrow> node_port list \<Rightarrow> metadata \<Rightarrow> graph_node" where
  "ported n ins outs md = n\<lparr>nd_input_ports := ins, nd_output_ports := outs, nd_metadata := md\<rparr>"

definition idx :: "string \<Rightarrow> nat \<Rightarrow> string" where
  "idx prefix k = prefix @ dec_nat k"

abbreviation enum :: "'a list \<Rightarrow> (nat \<times> 'a) list" where
  "enum xs \<equiv> List.enumerate 0 xs"

section \<open>Evaluators, receipts and guards\<close>

definition contract_guards :: "task_contract \<Rightarrow> string list" where
  "contract_guards c = (if tc_global_completion_guards c = [] then tc_success_conditions c else tc_global_completion_guards c)"

text \<open>\<open>dict.fromkeys\<close> keeps the first occurrence of each name.\<close>

definition fromkeys :: "string list \<Rightarrow> string list" where
  "fromkeys xs = rev (remdups (rev xs))"

definition verifier_names :: "task_contract \<Rightarrow> string list" where
  "verifier_names c = fromkeys (concat (map snd (tc_required_verifiers c)))"

fun add_receipts :: "(string \<times> string) list \<Rightarrow> (string \<times> string) list \<Rightarrow> (string \<times> string) list res" where
  "add_receipts [] specs = Inr specs"
| "add_receipts ((check, receipt) # rest) specs =
     (if blank check \<or> blank receipt
      then Inl (ValueError, ''evaluator receipt mappings need non-empty check and receipt identities'')
      else add_receipts rest (if check \<in> fst ` set specs then specs else specs @ [(check, receipt)]))"

definition evaluator_specs :: "task_contract \<Rightarrow> (string \<times> string) list \<Rightarrow> (string \<times> string) list res" where
  "evaluator_specs c receipts = add_receipts receipts (map (\<lambda>n. (n, n)) (verifier_names c @ contract_guards c))"

definition receipt_names :: "task_contract \<Rightarrow> (string \<times> string) list \<Rightarrow> string list" where
  "receipt_names c specs = fromkeys (map snd specs @ contract_guards c)"

section \<open>Nodes\<close>

definition action_rule_node :: "(string \<Rightarrow> string) \<Rightarrow> nat \<times> action_rule \<Rightarrow> graph_node" where
  "action_rule_node sd = (\<lambda>(i, r). ported (graph_node (idx ''action.rule.'' i) N_ACTION)
     [inp sd ''intent'' ''ActionIntent.v1''] [outp sd ''matched_intent'' ''ActionIntent.v1'']
     (owned ''policy'' [(''rule_index'', dec_nat i), (''tool'', rule_tool r), (''effect'', effect_value (rule_effect r)),
        (''target_prefix'', rule_target_prefix r)]))"

definition approval_node :: "(string \<Rightarrow> string) \<Rightarrow> nat \<times> action_rule \<Rightarrow> graph_node" where
  "approval_node sd = (\<lambda>(i, _). ported ((graph_node (idx ''approval.rule.'' i) N_APPROVAL)\<lparr>nd_authority := ''human-review''\<rparr>)
     [inp sd ''decision'' ''PolicyDecision.v1''] [outp sd ''approved_intent'' ''ActionIntent.v1'']
     (owned ''approval-verifier'' [(''rule_index'', dec_nat i), (''dynamic'', ''true'')]))"

definition rule_join_node :: "(string \<Rightarrow> string) \<Rightarrow> nat \<Rightarrow> graph_node" where
  "rule_join_node sd n = ported (graph_node ''join.action.rule.any'' N_JOIN)
     (map (\<lambda>i. inp sd (idx ''intent.'' i) ''ActionIntent.v1'') [0..<n]) [outp sd ''matched_intent'' ''ActionIntent.v1''] (owned ''scheduler'' [])"

definition authority_join_node :: "(string \<Rightarrow> string) \<Rightarrow> nat \<Rightarrow> graph_node" where
  "authority_join_node sd n = ported (graph_node ''join.action.authority.any'' N_JOIN)
     (map (\<lambda>i. inp sd (idx ''authority.'' i) ''ActionIntent.v1'') [0..<n]) [outp sd ''authorised_intent'' ''ActionIntent.v1'']
     (owned ''scheduler'' [])"

definition evaluator_id :: "string \<Rightarrow> string" where
  "evaluator_id name = ''evaluator.'' @ node_token name"

definition evaluator_node :: "(string \<Rightarrow> string) \<Rightarrow> string \<times> string \<Rightarrow> graph_node" where
  "evaluator_node sd = (\<lambda>(name, _). ported (graph_node (evaluator_id name) N_EVALUATOR)
     [inp sd ''artifact'' ''ArtifactManifest.v2'', inp sd ''snapshot'' ''WorkspaceSnapshot.v1'']
     [outp sd ''receipt'' ''SignedEvaluationReceipt.v2'']
     (owned (''evaluator/'' @ node_token name) [(''check_name'', name)]))"

definition receipt_node :: "(string \<Rightarrow> string) \<Rightarrow> string \<Rightarrow> graph_node" where
  "receipt_node sd name = ported (graph_node (''receipt.'' @ node_token name) N_RECEIPT)
     [inp sd ''receipt'' ''SignedEvaluationReceipt.v2''] [outp sd ''verified'' ''SignedEvaluationReceipt.v2'']
     (owned ''receipt-verifier'' [(''receipt_type'', name), (''terminal'', ''true'')])"

text \<open>The checks a guard is bound to; without a binding, the guard's own name.\<close>

definition guard_checks :: "task_contract \<Rightarrow> string \<Rightarrow> string list" where
  "guard_checks c guard = (case dget (tc_success_condition_bindings c) guard of None \<Rightarrow> [guard] | Some ns \<Rightarrow> ns)"

definition criterion_node :: "(string \<Rightarrow> string) \<Rightarrow> task_contract \<Rightarrow> nat \<times> string \<Rightarrow> graph_node" where
  "criterion_node sd c = (\<lambda>(i, guard). ported (graph_node (idx ''criterion.'' i) N_CRITERION)
     [inp sd ''receipt'' ''SignedEvaluationReceipt.v2''] [outp sd ''guard'' ''VerifiedGuard.v1'']
     (owned ''criterion-verifier'' [(''guard'', guard), (''required_checks'', join '','' (guard_checks c guard))]))"

definition guard_join_node :: "(string \<Rightarrow> string) \<Rightarrow> nat \<Rightarrow> graph_node" where
  "guard_join_node sd n = ported (graph_node ''join.guards.all'' N_JOIN)
     (map (\<lambda>i. inp sd (idx ''guard.'' i) ''VerifiedGuard.v1'') [0..<n]) [outp sd ''barrier'' ''AllGuardsBarrier.v1''] (owned ''scheduler'' [])"

definition entry_nodes :: "(string \<Rightarrow> string) \<Rightarrow> graph_node list" where
  "entry_nodes sd = [
     ported (graph_node ''task.contract'' N_TASK) [] [outp sd ''contract'' ''TaskContract.v1''] (owned ''controller'' []),
     ported ((graph_node ''principal.contract'' N_PRINCIPAL)\<lparr>nd_authority := ''1''\<rparr>) [inp sd ''contract'' ''TaskContract.v1'']
       [outp sd ''authority'' ''PrincipalAuthority.v1''] (owned ''policy'' []),
     ported (graph_node ''action.intent'' N_ACTION) [inp sd ''contract'' ''TaskContract.v1'']
       [outp sd ''intent'' ''ActionIntent.v1''] (owned ''controller'' [])]"

definition policy_node :: "(string \<Rightarrow> string) \<Rightarrow> graph_node" where
  "policy_node sd = ported ((graph_node ''policy.decision'' N_CAPABILITY)\<lparr>nd_authority := ''policy-gate''\<rparr>)
     [inp sd ''intent'' ''ActionIntent.v1''] [outp sd ''decision'' ''PolicyDecision.v1'', outp sd ''direct_intent'' ''ActionIntent.v1'']
     (owned ''policy'' [])"

definition effect_nodes :: "(string \<Rightarrow> string) \<Rightarrow> graph_node list" where
  "effect_nodes sd = [
     ported ((graph_node ''capability.execute'' N_CAPABILITY)\<lparr>nd_authority := ''policy-gate''\<rparr>)
       [inp sd ''intent'' ''ActionIntent.v1'', inp sd ''authority'' ''PrincipalAuthority.v1''] [outp sd ''capability'' ''Capability.v1''] (owned ''policy'' []),
     ported (graph_node ''operation.prepared'' N_OPERATION) [inp sd ''capability'' ''Capability.v1'']
       [outp sd ''operation'' ''PreparedOperation.v1''] (owned ''executor-supervisor'' []),
     ported ((graph_node ''executor.dispatch'' N_EXECUTOR)\<lparr>nd_effect := ''side-effect'', nd_authority := ''capability.execute''\<rparr>)
       [inp sd ''operation'' ''PreparedOperation.v1''] [outp sd ''dispatch'' ''PreparedOperation.v1''] (owned ''controller'' []),
     ported (graph_node ''executor.result'' N_EXECUTOR) [inp sd ''dispatch'' ''PreparedOperation.v1'']
       [outp sd ''result'' ''SupervisorResult.v1''] (owned ''executor-supervisor'' []),
     (graph_node ''operation.reconcile'' N_OPERATION)\<lparr>nd_metadata := owned ''executor-supervisor'' [(''recovery'', ''true'')]\<rparr>,
     ported (graph_node ''snapshot.request'' N_SNAPSHOT) [inp sd ''contract'' ''TaskContract.v1'']
       [outp sd ''request'' ''TaskContract.v1''] (owned ''controller'' []),
     ported (graph_node ''snapshot.materialized'' N_SNAPSHOT) [inp sd ''request'' ''TaskContract.v1'']
       [outp sd ''snapshot'' ''WorkspaceSnapshot.v1''] (owned ''snapshot-service'' []),
     ported (graph_node ''artifact.manifest'' N_ARTIFACT) [inp sd ''result'' ''SupervisorResult.v1'']
       [outp sd ''manifest'' ''ArtifactManifest.v2''] (owned ''artifact-validator'' [])]"

definition decision_nodes :: "(string \<Rightarrow> string) \<Rightarrow> string list \<Rightarrow> graph_node list" where
  "decision_nodes sd guards = [
     (graph_node ''decision.accept'' N_DECISION)\<lparr>nd_effect := ''terminal'', nd_required_guards := guards,
       nd_input_ports := [inp sd ''barrier'' ''AllGuardsBarrier.v1''], nd_metadata := owned ''execution-validator'' []\<rparr>,
     (graph_node ''decision.escalate'' N_DECISION)\<lparr>nd_effect := ''terminal'', nd_metadata := owned ''controller'' []\<rparr>]"

definition control_nodes :: "(string \<Rightarrow> string) \<Rightarrow> task_contract \<Rightarrow> (string \<times> string) list \<Rightarrow> graph_node list" where
  "control_nodes sd c specs =
     (let rules = enum (tc_allowed_actions c); guards = contract_guards c in
      entry_nodes sd @ map (action_rule_node sd) rules @ [rule_join_node sd (length rules), policy_node sd]
      @ map (approval_node sd) rules @ [authority_join_node sd (length rules + 1)] @ effect_nodes sd
      @ map (evaluator_node sd) specs @ map (receipt_node sd) (receipt_names c specs)
      @ map (criterion_node sd c) (enum guards) @ [guard_join_node sd (length guards)] @ decision_nodes sd guards)"

section \<open>Edges and joins\<close>

definition wired :: "graph_edge \<Rightarrow> string \<Rightarrow> string \<Rightarrow> graph_edge" where
  "wired e sp tp = e\<lparr>ed_source_port := sp, ed_target_port := tp\<rparr>"

definition entry_edges :: "graph_edge list" where
  "entry_edges = map (\<lambda>t. wired (graph_edge ''task.contract'' t DEPENDS_ON) ''contract'' ''contract'')
     [''principal.contract'', ''action.intent'', ''snapshot.request'']"

definition rule_edges :: "nat \<Rightarrow> graph_edge list" where
  "rule_edges n =
     map (\<lambda>i. (wired (graph_edge ''action.intent'' (idx ''action.rule.'' i) DEPENDS_ON) ''intent'' ''intent'')
        \<lparr>ed_predicate := field_equals ''rule_index'' (dec_nat i)\<rparr>) [0..<n]
     @ map (\<lambda>i. wired (graph_edge (idx ''action.rule.'' i) ''join.action.rule.any'' SATISFIES) ''matched_intent'' (idx ''intent.'' i)) [0..<n]
     @ [wired (graph_edge ''join.action.rule.any'' ''policy.decision'' DEPENDS_ON) ''matched_intent'' ''intent'']"

definition authority_edges :: "nat \<Rightarrow> graph_edge list" where
  "authority_edges n =
     map (\<lambda>i. (wired (graph_edge ''policy.decision'' (idx ''approval.rule.'' i) AUTHORISED_BY) ''decision'' ''decision'')
        \<lparr>ed_predicate := field_equals ''approval_required'' ''true''\<rparr>) [0..<n]
     @ [(wired (graph_edge ''policy.decision'' ''join.action.authority.any'' SATISFIES) ''direct_intent'' ''authority.0'')
        \<lparr>ed_predicate := field_equals ''approval_required'' ''false''\<rparr>]
     @ map (\<lambda>i. wired (graph_edge (idx ''approval.rule.'' i) ''join.action.authority.any'' SATISFIES)
         ''approved_intent'' (idx ''authority.'' (i + 1))) [0..<n]"

definition effect_edges :: "graph_edge list" where
  "effect_edges = [
     wired (graph_edge ''principal.contract'' ''capability.execute'' AUTHORISED_BY) ''authority'' ''authority'',
     wired (graph_edge ''join.action.authority.any'' ''capability.execute'' SATISFIES) ''authorised_intent'' ''intent'',
     wired (graph_edge ''capability.execute'' ''operation.prepared'' AUTHORISED_BY) ''capability'' ''capability'',
     wired (graph_edge ''operation.prepared'' ''executor.dispatch'' DISPATCHED_TO) ''operation'' ''operation'',
     wired (graph_edge ''executor.dispatch'' ''executor.result'' PRODUCED) ''dispatch'' ''dispatch'',
     (wired (graph_edge ''executor.result'' ''artifact.manifest'' PRODUCED) ''result'' ''result'')\<lparr>ed_condition := ''execution.success''\<rparr>,
     (graph_edge ''executor.result'' ''operation.reconcile'' RECONCILES)\<lparr>ed_condition := ''outcome-unknown-or-failed''\<rparr>,
     graph_edge ''operation.reconcile'' ''decision.escalate'' ESCALATES_TO,
     wired (graph_edge ''snapshot.request'' ''snapshot.materialized'' DEPENDS_ON) ''request'' ''request'']"

definition evidence_edges :: "(string \<times> string) list \<Rightarrow> graph_edge list" where
  "evidence_edges specs =
     map (\<lambda>s. (wired (graph_edge ''artifact.manifest'' (evaluator_id (fst s)) VERIFIED_BY) ''manifest'' ''artifact'')
        \<lparr>ed_condition := ''execution.success''\<rparr>) specs
     @ map (\<lambda>s. wired (graph_edge ''snapshot.materialized'' (evaluator_id (fst s)) REQUIRES) ''snapshot'' ''snapshot'') specs
     @ map (\<lambda>s. wired (graph_edge (evaluator_id (fst s)) (''receipt.'' @ node_token (snd s)) PRODUCED) ''receipt'' ''receipt'') specs"

definition guard_edges :: "string list \<Rightarrow> graph_edge list" where
  "guard_edges guards =
     map (\<lambda>(i, guard). wired (graph_edge (''receipt.'' @ node_token guard) (idx ''criterion.'' i) VERIFIED_BY) ''verified'' ''receipt'') (enum guards)
     @ map (\<lambda>(i, guard). (wired (graph_edge (idx ''criterion.'' i) ''join.guards.all'' SATISFIES) ''guard'' (idx ''guard.'' i))
        \<lparr>ed_condition := ''guard-pass''\<rparr>) (enum guards)
     @ [wired (graph_edge ''join.guards.all'' ''decision.accept'' SATISFIES) ''barrier'' ''barrier'']"

definition control_edges :: "task_contract \<Rightarrow> (string \<times> string) list \<Rightarrow> graph_edge list" where
  "control_edges c specs =
     (let n = length (tc_allowed_actions c) in
      entry_edges @ rule_edges n @ authority_edges n @ effect_edges @ evidence_edges specs @ guard_edges (contract_guards c))"

definition control_joins :: "task_contract \<Rightarrow> graph_join list" where
  "control_joins c =
     (let n = length (tc_allowed_actions c) in
      [\<lparr>join_node_id = ''join.action.rule.any'', join_predecessors = map (idx ''action.rule.'') [0..<n],
        join_policy = ANY_J, join_threshold = None\<rparr>,
       \<lparr>join_node_id = ''join.action.authority.any'', join_predecessors = ''policy.decision'' # map (idx ''approval.rule.'') [0..<n],
        join_policy = ANY_J, join_threshold = None\<rparr>,
       \<lparr>join_node_id = ''join.guards.all'', join_predecessors = map (idx ''criterion.'') [0..<length (contract_guards c)],
        join_policy = ALL_J, join_threshold = None\<rparr>])"

section \<open>The compiler\<close>

definition control_graph :: "crypto \<Rightarrow> task_contract \<Rightarrow> string \<Rightarrow> (string \<times> string) list \<Rightarrow> graph_manifest" where
  "control_graph cr c cd specs = \<lparr>gm_graph_id = ''vloop-control'', gm_schema_version = 2, gm_contract_digest = cd,
     gm_profile_digest = (if tc_profile_digest c = [] then replicate 64 (CHR ''0'') else tc_profile_digest c),
     gm_nodes = control_nodes (schema_of cr) c specs, gm_edges = control_edges c specs, gm_compiler_version = ''vloop.graph.v1'',
     gm_metadata = [(''completion_protocol'', ''vloop.attestation.v1'')], gm_joins = control_joins c\<rparr>"

definition compile_control_graph :: "crypto \<Rightarrow> task_contract \<Rightarrow> (string \<times> string) list \<Rightarrow> graph_manifest res" where
  "compile_control_graph cr c receipts =
     bnd (evaluator_specs c receipts) (\<lambda>specs.
     bnd (map_res graph_node_init (control_nodes (schema_of cr) c specs)) (\<lambda>_.
     bnd (map_res graph_edge_init (control_edges c specs)) (\<lambda>_.
     bnd (contract_digest cr c) (\<lambda>cd.
     bnd (map_res graph_join_init (control_joins c)) (\<lambda>_.
     bnd (graph_manifest_init (control_graph cr c cd specs)) (\<lambda>g.
     bnd (require_valid g) (\<lambda>_. Inr g)))))))"

text \<open>\<open>GraphCompiler.compile\<close>: \<open>replace\<close> only the compiler version, the constructor checks pass again.\<close>

definition graph_compile :: "crypto \<Rightarrow> task_contract \<Rightarrow> (string \<times> string) list \<Rightarrow> graph_manifest res" where
  "graph_compile cr c receipts =
     bnd (compile_control_graph cr c receipts) (\<lambda>g. graph_manifest_init (g\<lparr>gm_compiler_version := ''vloop.graph.v2''\<rparr>))"


section \<open>What a compiled graph is\<close>

text \<open>What the compiler returns, when the constructors and the static check accept it.\<close>

definition control_manifest :: "crypto \<Rightarrow> task_contract \<Rightarrow> string \<Rightarrow> (string \<times> string) list \<Rightarrow> graph_manifest" where
  "control_manifest cr c cd specs = (control_graph cr c cd specs)\<lparr>gm_compiler_version := ''vloop.graph.v2''\<rparr>"

lemma graph_manifest_init_id: "graph_manifest_init m = Inr m' \<Longrightarrow> m' = m"
  by (auto simp: graph_manifest_init_def split: if_splits)

lemma graph_compileD:
  assumes "graph_compile cr c receipts = Inr g"
  obtains specs cd where "evaluator_specs c receipts = Inr specs" "contract_digest cr c = Inr cd"
    "g = control_manifest cr c cd specs" "require_valid (control_graph cr c cd specs) = Inr ()"
  using assms
  by (auto simp: graph_compile_def compile_control_graph_def bnd_eq_Inr control_manifest_def dest!: graph_manifest_init_id)

definition control_monitor :: "crypto \<Rightarrow> task_contract \<Rightarrow> string \<Rightarrow> (string \<times> string) list \<Rightarrow> monitor" where
  "control_monitor cr c cd specs = \<lparr>mon_manifest = control_manifest cr c cd specs, mon_joins = control_joins c\<rparr>"

lemma control_monitor_simps [simp]:
  "gm_edges (mon_manifest (control_monitor cr c cd specs)) = control_edges c specs"
  "mon_joins (control_monitor cr c cd specs) = control_joins c"
  by (simp_all add: control_monitor_def control_manifest_def control_graph_def)

lemma idx_inject [simp]: "idx p i = idx p j \<longleftrightarrow> i = j"
  by (simp add: idx_def dec_nat_inj)

lemma control_joins_distinct: "joins_distinct (control_monitor cr c cd specs)"
  by (auto simp: joins_distinct_def control_joins_def Let_def distinct_map inj_on_def) (auto simp: idx_def)

text \<open>The barriers the monitor enforces at each node of a compiled graph.\<close>

lemma control_mon_join:
  "mon_join (control_monitor cr c cd specs) n =
    (if n = ''join.action.rule.any'' then Some (control_joins c ! 0)
     else if n = ''join.action.authority.any'' then Some (control_joins c ! 1)
     else if n = ''join.guards.all'' then Some (control_joins c ! 2) else None)"
  by (simp add: mon_join_def dget_def control_joins_def Let_def)

lemma compiled_predecessor:
  assumes "mon_inv (control_monitor cr c cd specs) st"
    and "n \<in> ts_completed st \<union> set (dkeys (ts_started st))" "mon_join (control_monitor cr c cd specs) n = None"
    and "e \<in> set (control_edges c specs)" "ed_target e = n"
  shows "edge_holds st e"
proof -
  have "justified (control_monitor cr c cd specs) st n" using assms(1,2) by (auto simp: mon_inv_def)
  then show ?thesis using assms(3-5) by (auto simp: justified_def mon_incoming_def)
qed

lemma compiled_join_predecessors:
  assumes "mon_inv (control_monitor cr c cd specs) st"
    and "n \<in> ts_completed st \<union> set (dkeys (ts_started st))" "mon_join (control_monitor cr c cd specs) n = Some j"
  shows "satisfied_by j {ed_source e | e. e \<in> set (control_edges c specs) \<and> ed_target e = n \<and> edge_holds st e}"
proof -
  have "justified (control_monitor cr c cd specs) st n" using assms(1,2) by (auto simp: mon_inv_def)
  then show ?thesis using assms(3) by (simp add: justified_def mon_incoming_def conj_assoc)
qed

lemma edge_holds_source: "edge_holds st e \<Longrightarrow> ed_source e \<in> ts_completed st"
  by (simp add: edge_holds_def)

text \<open>What a completed node's recorded event says in one field, and an edge that holds.\<close>

definition recorded :: "transition_state \<Rightarrow> string \<Rightarrow> string \<Rightarrow> string option" where
  "recorded st n f = map_option (\<lambda>p. py_str (str_opt (dget p f))) (dget (ts_events st) n)"

lemma edge_holds_event:
  assumes "edge_holds st e" "mon_inv m st"
  obtains p where "dget (ts_events st) (ed_source e) = Some p" "condition_matches e (ts_events st) [] = Inr True"
  using assms dget_None_iff [of "ts_events st" "ed_source e"] by (auto simp: edge_holds_def mon_inv_def)

lemma edge_holds_guard:
  assumes "edge_holds st e" "mon_inv m st" "ed_condition e = ''guard-pass''"
  shows "\<exists>p. dget (ts_events st) (ed_source e) = Some p \<and> dget p ''passed'' = Some (PBool True)"
  using edge_holds_event [OF assms(1,2)] assms(3) by (auto simp: condition_matches_def)

lemma edge_holds_field:
  assumes "edge_holds st e" "mon_inv m st" "ed_predicate e = field_equals f v"
  shows "recorded st (ed_source e) f = Some v"
  using edge_holds_event [OF assms(1,2)] assms(3)
  by (auto simp: recorded_def condition_matches_def bnd_eq_Inr pred_evaluate_def field_equals_def)

section \<open>No effect without authority, no acceptance without every guard\<close>

abbreviation active :: "transition_state \<Rightarrow> string set" where
  "active st \<equiv> ts_completed st \<union> set (dkeys (ts_started st))"

lemmas control_edge_defs = control_edges_def entry_edges_def rule_edges_def authority_edges_def effect_edges_def
  evidence_edges_def guard_edges_def wired_def graph_edge_def evaluator_id_def

lemma node_id_simps [simp]:
  "nd_id (ported n ins outs md) = nd_id n" "nd_id (graph_node i ty) = i"
  by (simp_all add: ported_def graph_node_def)

lemma any_join_source:
  assumes "satisfied_by j A" "join_policy j = ANY_J"
  shows "\<exists>p \<in> A. p \<in> set (join_predecessors j)"
proof -
  have "filter (\<lambda>p. p \<in> A) (remdups (join_predecessors j)) \<noteq> []"
    using assms by (auto simp: satisfied_by_def Let_def)
  then show ?thesis by (auto simp: filter_empty_conv)
qed

lemma effect_chain_edges:
  "e \<in> set effect_edges \<Longrightarrow> e \<in> set (control_edges c specs)"
  by (simp add: control_edges_def Let_def)

lemma authority_join_edges:
  assumes "e \<in> set (control_edges c specs)" "ed_target e = ''join.action.authority.any''"
  shows "ed_source e = ''policy.decision'' \<and> ed_predicate e = field_equals ''approval_required'' ''false''
    \<or> (\<exists>i < length (tc_allowed_actions c). ed_source e = idx ''approval.rule.'' i)"
  using assms by (auto simp: control_edge_defs Let_def idx_def)

lemma rule_join_edges:
  assumes "e \<in> set (control_edges c specs)" "ed_target e = ''join.action.rule.any''"
  shows "\<exists>i < length (tc_allowed_actions c). ed_source e = idx ''action.rule.'' i"
  using assms by (auto simp: control_edge_defs Let_def idx_def)

lemma guard_join_edges:
  assumes "e \<in> set (control_edges c specs)" "ed_target e = ''join.guards.all''"
  shows "ed_condition e = ''guard-pass''"
  using assms by (auto simp: control_edge_defs Let_def idx_def)

text \<open>A node of the control graph that started has its edges satisfied.\<close>

lemma control_edge_source:
  assumes "mon_inv (control_monitor cr c cd specs) st" "ed_target e \<in> active st"
    and "mon_join (control_monitor cr c cd specs) (ed_target e) = None" "e \<in> set (control_edges c specs)"
  shows "edge_holds st e \<and> ed_source e \<in> ts_completed st"
  using compiled_predecessor [OF assms(1-4) refl] edge_holds_source by blast

definition effect_chain :: "string list" where
  "effect_chain = [''principal.contract'', ''join.action.authority.any'', ''capability.execute'', ''operation.prepared'', ''executor.dispatch'']"

lemma effect_chain_completed:
  assumes inv: "mon_inv (control_monitor cr c cd specs) st" and d: "''executor.dispatch'' \<in> active st"
  shows "set (butlast effect_chain) \<subseteq> ts_completed st"
proof -
  have step: "ed_source e \<in> ts_completed st" if "e \<in> set effect_edges" "ed_target e \<in> active st"
    "ed_target e \<notin> {''join.action.rule.any'', ''join.action.authority.any'', ''join.guards.all''}" for e
    using control_edge_source [OF inv that(2) _ effect_chain_edges [OF that(1)]] that(3) by (simp add: control_mon_join)
  have "''operation.prepared'' \<in> ts_completed st"
    using step [of "effect_edges ! 3"] d by (simp add: effect_edges_def wired_def graph_edge_def)
  moreover from this have "''capability.execute'' \<in> ts_completed st"
    using step [of "effect_edges ! 2"] by (simp add: effect_edges_def wired_def graph_edge_def)
  moreover from this have "''principal.contract'' \<in> ts_completed st" "''join.action.authority.any'' \<in> ts_completed st"
    using step [of "effect_edges ! 0"] step [of "effect_edges ! 1"] by (simp_all add: effect_edges_def wired_def graph_edge_def)
  ultimately show ?thesis by (simp add: effect_chain_def)
qed

text \<open>The authority join: a decision without approval, or a decision with one and a completed approval.\<close>

definition authority_decided :: "transition_state \<Rightarrow> nat \<Rightarrow> bool" where
  "authority_decided st n \<longleftrightarrow> ''policy.decision'' \<in> ts_completed st
     \<and> (recorded st ''policy.decision'' ''approval_required'' = Some ''false''
        \<or> recorded st ''policy.decision'' ''approval_required'' = Some ''true'' \<and> (\<exists>i < n. idx ''approval.rule.'' i \<in> ts_completed st))"

lemma approval_recorded:
  assumes inv: "mon_inv (control_monitor cr c cd specs) st" and i: "idx ''approval.rule.'' i \<in> ts_completed st" "i < length (tc_allowed_actions c)"
  shows "recorded st ''policy.decision'' ''approval_required'' = Some ''true'' \<and> ''policy.decision'' \<in> ts_completed st"
proof -
  let ?e = "(wired (graph_edge ''policy.decision'' (idx ''approval.rule.'' i) AUTHORISED_BY) ''decision'' ''decision'')
        \<lparr>ed_predicate := field_equals ''approval_required'' ''true''\<rparr>"
  have "?e \<in> set (control_edges c specs)" using i(2) by (auto simp: control_edges_def authority_edges_def Let_def)
  then have "edge_holds st ?e \<and> ed_source ?e \<in> ts_completed st"
    using control_edge_source [OF inv, of ?e] i(1) by (simp add: wired_def graph_edge_def control_mon_join idx_def)
  then show ?thesis using edge_holds_field [OF _ inv, of ?e] by (simp add: wired_def graph_edge_def)
qed

lemma authority_join_decided:
  assumes inv: "mon_inv (control_monitor cr c cd specs) st" and j: "''join.action.authority.any'' \<in> active st"
  shows "authority_decided st (length (tc_allowed_actions c))"
proof -
  obtain e where e: "e \<in> set (control_edges c specs)" "ed_target e = ''join.action.authority.any''" "edge_holds st e"
    using any_join_source [OF compiled_join_predecessors [OF inv j]] by (auto simp: control_mon_join control_joins_def Let_def)
  show ?thesis
    using authority_join_edges [OF e(1,2)] edge_holds_field [OF e(3) inv] edge_holds_source [OF e(3)] approval_recorded [OF inv]
    unfolding authority_decided_def by fastforce
qed

text \<open>The rule join: the node of the rule that the recorded intent names.\<close>

lemma rule_join_selected:
  assumes inv: "mon_inv (control_monitor cr c cd specs) st" and p: "''policy.decision'' \<in> active st"
  shows "\<exists>i < length (tc_allowed_actions c). idx ''action.rule.'' i \<in> ts_completed st
     \<and> recorded st ''action.intent'' ''rule_index'' = Some (dec_nat i)"
proof -
  let ?d = "wired (graph_edge ''join.action.rule.any'' ''policy.decision'' DEPENDS_ON) ''matched_intent'' ''intent''"
  have "?d \<in> set (control_edges c specs)" by (auto simp: control_edges_def rule_edges_def Let_def)
  then have j: "''join.action.rule.any'' \<in> active st"
    using control_edge_source [OF inv, of ?d] p by (simp add: wired_def graph_edge_def control_mon_join)
  obtain e where e: "e \<in> set (control_edges c specs)" "ed_target e = ''join.action.rule.any''" "edge_holds st e"
    using any_join_source [OF compiled_join_predecessors [OF inv j]] by (auto simp: control_mon_join control_joins_def Let_def)
  then obtain i where i: "i < length (tc_allowed_actions c)" "idx ''action.rule.'' i \<in> ts_completed st"
    using rule_join_edges edge_holds_source by metis
  let ?r = "(wired (graph_edge ''action.intent'' (idx ''action.rule.'' i) DEPENDS_ON) ''intent'' ''intent'')
        \<lparr>ed_predicate := field_equals ''rule_index'' (dec_nat i)\<rparr>"
  have "?r \<in> set (control_edges c specs)" using i(1) by (auto simp: control_edges_def rule_edges_def Let_def)
  then have "edge_holds st ?r"
    using control_edge_source [OF inv, of ?r] i(2) by (simp add: wired_def graph_edge_def control_mon_join idx_def)
  with i show ?thesis using edge_holds_field [OF _ inv, of ?r] by (auto simp: wired_def graph_edge_def)
qed

lemma dispatched_authority:
  assumes inv: "mon_inv (control_monitor cr c cd specs) st" and d: "''executor.dispatch'' \<in> active st"
  shows "{''principal.contract'', ''capability.execute'', ''operation.prepared''} \<subseteq> ts_completed st
    \<and> (\<exists>i < length (tc_allowed_actions c). idx ''action.rule.'' i \<in> ts_completed st
         \<and> recorded st ''action.intent'' ''rule_index'' = Some (dec_nat i))
    \<and> authority_decided st (length (tc_allowed_actions c))"
proof -
  have chain: "set (butlast effect_chain) \<subseteq> ts_completed st" by (rule effect_chain_completed [OF inv d])
  then have "authority_decided st (length (tc_allowed_actions c))"
    using authority_join_decided [OF inv] by (simp add: effect_chain_def)
  with chain rule_join_selected [OF inv] show ?thesis by (simp add: effect_chain_def authority_decided_def)
qed

text \<open>Over a compiled graph, \<open>executor.dispatch\<close> starts only after the operation was prepared under an
  executed capability of the principal, for the rule the recorded intent names, and with a policy
  decision that recorded that no approval is required or that one is and an approval completed.\<close>

theorem dispatch_authorized:
  assumes "mon_reachable cr (control_monitor cr c cd specs) st" "''executor.dispatch'' \<in> active st"
  shows "{''principal.contract'', ''capability.execute'', ''operation.prepared''} \<subseteq> ts_completed st
    \<and> (\<exists>i < length (tc_allowed_actions c). idx ''action.rule.'' i \<in> ts_completed st
         \<and> recorded st ''action.intent'' ''rule_index'' = Some (dec_nat i))
    \<and> authority_decided st (length (tc_allowed_actions c))"
  by (rule dispatched_authority [OF mon_reachable_inv [OF assms(1) control_joins_distinct] assms(2)])

lemma accepted_guard:
  assumes inv: "mon_inv (control_monitor cr c cd specs) st" and "''decision.accept'' \<in> active st" "i < length (contract_guards c)"
  shows "(\<exists>p. dget (ts_events st) (idx ''criterion.'' i) = Some p \<and> dget p ''passed'' = Some (PBool True))
    \<and> ''receipt.'' @ node_token (contract_guards c ! i) \<in> ts_completed st"
proof
  let ?d = "wired (graph_edge ''join.guards.all'' ''decision.accept'' SATISFIES) ''barrier'' ''barrier''"
  have "?d \<in> set (control_edges c specs)" by (auto simp: control_edges_def guard_edges_def Let_def)
  then have j: "''join.guards.all'' \<in> active st"
    using control_edge_source [OF inv, of ?d] assms(2) by (simp add: wired_def graph_edge_def control_mon_join)
  have "satisfied_by (control_joins c ! 2) {ed_source e | e. e \<in> set (control_edges c specs) \<and> ed_target e = ''join.guards.all'' \<and> edge_holds st e}"
    by (rule compiled_join_predecessors [OF inv j]) (simp add: control_mon_join)
  moreover have "distinct (join_predecessors (control_joins c ! 2))" "join_policy (control_joins c ! 2) = ALL_J"
    using control_joins_distinct [of cr c cd specs] by (simp_all add: joins_distinct_def control_joins_def Let_def)
  ultimately have "set (join_predecessors (control_joins c ! 2)) \<subseteq> {ed_source e | e. e \<in> set (control_edges c specs) \<and> ed_target e = ''join.guards.all'' \<and> edge_holds st e}"
    by (simp add: satisfied_by_all)
  moreover have "idx ''criterion.'' i \<in> set (join_predecessors (control_joins c ! 2))"
    using assms(3) by (simp add: control_joins_def Let_def)
  ultimately have "idx ''criterion.'' i \<in> {ed_source e | e. e \<in> set (control_edges c specs) \<and> ed_target e = ''join.guards.all'' \<and> edge_holds st e}"
    by (rule subsetD)
  then obtain e where e: "e \<in> set (control_edges c specs)" "ed_target e = ''join.guards.all''" "edge_holds st e" "ed_source e = idx ''criterion.'' i"
    by auto
  from edge_holds_guard [OF e(3) inv guard_join_edges [OF e(1,2)]] e(4)
  show "\<exists>p. dget (ts_events st) (idx ''criterion.'' i) = Some p \<and> dget p ''passed'' = Some (PBool True)" by simp
  let ?r = "wired (graph_edge (''receipt.'' @ node_token (contract_guards c ! i)) (idx ''criterion.'' i) VERIFIED_BY) ''verified'' ''receipt''"
  have "?r \<in> set (control_edges c specs)"
    using assms(3) by (force simp: control_edges_def guard_edges_def Let_def in_set_enumerate_eq)
  then show "''receipt.'' @ node_token (contract_guards c ! i) \<in> ts_completed st"
    using control_edge_source [OF inv, of ?r] edge_holds_source [OF e(3)] e(4)
    by (simp add: wired_def graph_edge_def control_mon_join idx_def)
qed

text \<open>Over a compiled graph, \<open>decision.accept\<close> starts only when the criterion node of every guard of the
  contract completed with a recorded \<open>passed\<close>, and the guard's receipt node completed before it.\<close>

theorem acceptance_needs_every_guard:
  assumes "mon_reachable cr (control_monitor cr c cd specs) st" "''decision.accept'' \<in> active st" "i < length (contract_guards c)"
  shows "(\<exists>p. dget (ts_events st) (idx ''criterion.'' i) = Some p \<and> dget p ''passed'' = Some (PBool True))
    \<and> ''receipt.'' @ node_token (contract_guards c ! i) \<in> ts_completed st"
  by (rule accepted_guard [OF mon_reachable_inv [OF assms(1) control_joins_distinct] assms(2,3)])

section \<open>Names that cannot be shared\<close>

lemma add_receipts_prefix: "add_receipts rs specs = Inr specs' \<Longrightarrow> \<exists>more. specs' = specs @ more"
proof (induction rs specs rule: add_receipts.induct)
  case (2 check receipt rest specs)
  then have "add_receipts rest (if check \<in> fst ` set specs then specs else specs @ [(check, receipt)]) = Inr specs'"
    by (auto split: if_splits)
  with 2 show ?case by (fastforce split: if_splits)
qed simp

lemma require_valid_distinct: "require_valid g = Inr () \<Longrightarrow> distinct (map nd_id (gm_nodes g))"
  by (auto simp: require_valid_def validate_def bnd_eq_Inr split: if_splits)

text \<open>C26: the compiler makes one evaluator node per required verifier and one per guard without removing
  duplicates, so a contract that names one of its required verifiers as a completion guard, which
  the contract's constructor admits, never compiles.\<close>

theorem shared_guard_never_compiles:
  assumes "n \<in> set (verifier_names c)" "n \<in> set (contract_guards c)"
  shows "\<exists>e. graph_compile cr c receipts = Inl e"
proof (rule ccontr)
  assume "\<not> ?thesis"
  then obtain g where "graph_compile cr c receipts = Inr g" by (cases "graph_compile cr c receipts") auto
  then obtain specs cd where specs: "evaluator_specs c receipts = Inr specs" and valid: "require_valid (control_graph cr c cd specs) = Inr ()"
    by (rule graph_compileD)
  have "distinct (map nd_id (map (evaluator_node (schema_of cr)) specs))"
    using require_valid_distinct [OF valid] by (simp add: control_graph_def control_nodes_def Let_def)
  then have "distinct (map evaluator_id (map fst specs))"
    by (simp add: comp_def evaluator_node_def case_prod_beta)
  then have "distinct (map fst specs)" by (simp only: distinct_map)
  moreover obtain more where "specs = map (\<lambda>n. (n, n)) (verifier_names c @ contract_guards c) @ more"
    using specs add_receipts_prefix unfolding evaluator_specs_def by blast
  ultimately have "distinct (verifier_names c @ contract_guards c)" by (auto simp: comp_def)
  with assms show False by auto
qed

section \<open>A concrete graph\<close>

definition shared_contract :: task_contract where
  "shared_contract = \<lparr>tc_goal = ''g'', tc_success_conditions = [''s''], tc_allowed_actions =
     [\<lparr>rule_tool = ''edit'', rule_effect = WRITE, rule_target_prefix = ''/r'', rule_approval_required = False, rule_max_uses = None,
       rule_argument_rules = [], rule_allow_unlisted = True\<rparr>],
     tc_forbidden_actions = [], tc_required_verifiers = [(''correctness'', [''s''])], tc_success_condition_bindings = [],
     tc_action_safety_checks = [], tc_global_completion_guards = [], tc_require_argument_provenance = False,
     tc_task_kind = [], tc_risk_class = [], tc_probe_policy_digest = [], tc_profile_version = [],
     tc_profile_digest = [], tc_maximum_iterations = 3, tc_maximum_tool_calls = 5, tc_expires_at = None,
     tc_contract_id = ''k'', tc_version = 1\<rparr>"

theorem shared_guard_never_compiles_witness:
  "task_contract_init shared_contract = Inr shared_contract \<and> (\<exists>e. graph_compile toy_crypto shared_contract [] = Inl e)"
proof
  show "task_contract_init shared_contract = Inr shared_contract" by code_simp
  show "\<exists>e. graph_compile toy_crypto shared_contract [] = Inl e"
    by (rule shared_guard_never_compiles [of "''s''"]) (simp_all add: verifier_names_def fromkeys_def contract_guards_def shared_contract_def)
qed

definition sample_control :: monitor where
  "sample_control = control_monitor toy_crypto shared_contract [] [(''s'', ''s'')]"

text \<open>The monitor of the sample graph with empty schema digests: its moves are the same.\<close>

definition sample_light :: monitor where
  "sample_light = \<lparr>mon_manifest = (mon_manifest sample_control)\<lparr>gm_nodes := control_nodes (\<lambda>_. []) shared_contract [(''s'', ''s'')]\<rparr>,
     mon_joins = control_joins shared_contract\<rparr>"

definition sample_steps :: "(string \<times> pydict) list" where
  "sample_steps = [(''task.contract'', []), (''principal.contract'', []), (''snapshot.request'', []),
     (''action.intent'', [(''rule_index'', PStr ''0'')]), (''action.rule.0'', []), (''join.action.rule.any'', []),
     (''policy.decision'', [(''approval_required'', PStr ''false'')]), (''join.action.authority.any'', []),
     (''capability.execute'', []), (''operation.prepared'', []), (''executor.dispatch'', []),
     (''executor.result'', [(''success'', PBool True)]), (''artifact.manifest'', [(''success'', PBool True)]),
     (''snapshot.materialized'', []), (''evaluator.s'', []), (''receipt.s'', []), (''criterion.0'', [(''passed'', PBool True)]),
     (''join.guards.all'', []), (''decision.accept'', [])]"

lemma light_run:
  "case fold_res (\<lambda>(n, payload) st. mon_advance toy_crypto sample_light st n payload) sample_steps
     \<lparr>ts_iteration = 1, ts_completed = {}, ts_events = [], ts_started = []\<rparr> of
   Inr st \<Rightarrow> ts_completed st = set (map fst sample_steps) | Inl _ \<Rightarrow> False"
  by code_simp

lemma light_ids: "mon_nodes sample_light = mon_nodes sample_control"
  by (simp add: mon_nodes_def sample_light_def sample_control_def control_monitor_def control_manifest_def control_graph_def
      control_nodes_def Let_def entry_nodes_def policy_node_def effect_nodes_def decision_nodes_def rule_join_node_def
      authority_join_node_def guard_join_node_def action_rule_node_def approval_node_def evaluator_node_def receipt_node_def
      criterion_node_def comp_def case_prod_beta)

lemma light_advance:
  "mon_advance cr sample_light st n p = Inr st' \<Longrightarrow> mon_advance cr sample_control st n p = Inr st'"
proof -
  have "mon_join sample_light n = mon_join sample_control n" "mon_incoming sample_light n = mon_incoming sample_control n"
    by (simp_all add: mon_join_def mon_incoming_def sample_light_def sample_control_def control_monitor_def)
  then have "enabled sample_light st n p = enabled sample_control st n p" by (simp add: enabled_def light_ids split: option.split)
  then show "mon_advance cr sample_light st n p = Inr st' \<Longrightarrow> mon_advance cr sample_control st n p = Inr st'"
    by (auto simp: mon_advance_def bnd_eq_Inr split: if_splits)
qed

lemma sample_control_run:
  obtains st where "mon_reachable toy_crypto sample_control st" "ts_completed st = set (map fst sample_steps)"
proof -
  let ?st = "\<lparr>ts_iteration = 1, ts_completed = {}, ts_events = [], ts_started = []\<rparr> :: transition_state"
  obtain st where st: "fold_res (\<lambda>(n, payload) st. mon_advance toy_crypto sample_light st n payload) sample_steps ?st = Inr st"
    "ts_completed st = set (map fst sample_steps)"
    using light_run by (auto split: sum.splits)
  have "mon_reachable toy_crypto sample_control ?st"
    by (rule mon_reachable.init [of 1]) (simp add: initial_state_def)
  with st(1) have "mon_reachable toy_crypto sample_control st"
    by (elim fold_res_invariant [where P = "mon_reachable toy_crypto sample_control"])
      (auto intro: mon_reachable.step mon_step.advance light_advance)
  with st(2) that show thesis by blast
qed

theorem dispatch_authorized_witness:
  "\<exists>st :: transition_state. ''operation.prepared'' \<in> ts_completed st \<and> authority_decided st 1"
proof (rule sample_control_run)
  fix st assume st: "mon_reachable toy_crypto sample_control st" "ts_completed st = set (map fst sample_steps)"
  have "''executor.dispatch'' \<in> active st" by (simp add: st(2) sample_steps_def)
  from dispatch_authorized [OF st(1) [unfolded sample_control_def] this] show ?thesis
    by (auto simp: shared_contract_def)
qed

theorem acceptance_needs_every_guard_witness:
  "\<exists>(st :: transition_state) p. dget (ts_events st) ''criterion.0'' = Some p \<and> dget p ''passed'' = Some (PBool True)"
proof (rule sample_control_run)
  fix st assume st: "mon_reachable toy_crypto sample_control st" "ts_completed st = set (map fst sample_steps)"
  have acc: "''decision.accept'' \<in> active st" by (simp add: st(2) sample_steps_def)
  have "0 < length (contract_guards shared_contract)" "idx ''criterion.'' 0 = ''criterion.0''" by code_simp+
  with acceptance_needs_every_guard [OF st(1) [unfolded sample_control_def] acc, of 0]
  have "\<exists>p. dget (ts_events st) ''criterion.0'' = Some p \<and> dget p ''passed'' = Some (PBool True)" by simp
  then show ?thesis by blast
qed

end
