(* ===== verification/Tarjan_Sound.thy ===== *)
theory Tarjan_Sound
  imports Tarjan
begin

text \<open>
  What the search for cyclic components (\<open>GraphManifest._cyclic_components\<close>, \<open>src/vloop/graph.py\<close>) finds:
  when it reports none, the successor relation is acyclic. The invariant follows the stack: nodes that left
  it have all their successors off the stack, and a rank that decreases along every edge from them.
\<close>

section \<open>The invariant\<close>

definition successors :: "(string \<times> string list) list \<Rightarrow> (string \<times> string) set" where
  "successors out = {(u, v). \<exists>ts. dget out u = Some ts \<and> v \<in> set ts}"

abbreviation known :: "tarjan \<Rightarrow> string set" where
  "known st \<equiv> set (dkeys (tj_indices st))"

abbreviation idx_of :: "tarjan \<Rightarrow> string \<Rightarrow> nat" where
  "idx_of st x \<equiv> num_at (tj_indices st) x"

abbreviation low_of :: "tarjan \<Rightarrow> string \<Rightarrow> nat" where
  "low_of st x \<equiv> num_at (tj_lowlinks st) x"

definition emitted :: "tarjan \<Rightarrow> string set" where
  "emitted st = known st - set (tj_stack st)"

definition ranked :: "(string \<times> string list) list \<Rightarrow> string set \<Rightarrow> bool" where
  "ranked out E \<longleftrightarrow> (\<exists>f :: string \<Rightarrow> nat. \<forall>u \<in> E. \<forall>v. (u, v) \<in> successors out \<longrightarrow> v \<in> E \<and> f v < f u)"

text \<open>\<open>b\<close> bounds the numbers on the stack from below.\<close>

definition tj_good :: "(string \<times> string list) list \<Rightarrow> nat \<Rightarrow> tarjan \<Rightarrow> bool" where
  "tj_good out b st \<longleftrightarrow> distinct (tj_stack st) \<and> set (tj_on_stack st) = set (tj_stack st) \<and> set (tj_stack st) \<subseteq> known st
     \<and> (\<forall>x \<in> known st. idx_of st x < tj_index st) \<and> sorted_wrt (\<lambda>x y. idx_of st y < idx_of st x) (tj_stack st)
     \<and> (\<forall>x \<in> set (tj_stack st). b \<le> idx_of st x) \<and> b \<le> tj_index st \<and> ranked out (emitted st)"

definition tj_grows :: "tarjan \<Rightarrow> tarjan \<Rightarrow> bool" where
  "tj_grows st st' \<longleftrightarrow> known st \<subseteq> known st' \<and> emitted st \<subseteq> emitted st'
     \<and> (\<forall>x \<in> known st. idx_of st' x = idx_of st x \<and> low_of st' x = low_of st x)"

lemma tj_grows_refl: "tj_grows st st"
  by (simp add: tj_grows_def)

lemma tj_grows_trans: "tj_grows a b \<Longrightarrow> tj_grows b c \<Longrightarrow> tj_grows a c"
  unfolding tj_grows_def by (metis subset_iff subset_trans)

lemma num_at_update [simp]: "num_at (AList.update k v d) x = (if x = k then v else num_at d x)"
  by (simp add: num_at_def)

lemma ranked_insert:
  assumes "ranked out E" "n \<notin> E" "dget out n = Some ts" "set ts \<subseteq> E"
  shows "ranked out (insert n E)"
proof -
  obtain f :: "string \<Rightarrow> nat" where f: "\<forall>u \<in> E. \<forall>v. (u, v) \<in> successors out \<longrightarrow> v \<in> E \<and> f v < f u"
    using assms(1) by (auto simp: ranked_def)
  obtain m where m: "\<forall>x \<in> f ` set ts. x < m" using finite_nat_set_iff_bounded [of "f ` set ts"] by auto
  let ?g = "f(n := m)"
  have "v \<in> insert n E \<and> ?g v < ?g u" if "u \<in> insert n E" "(u, v) \<in> successors out" for u v
  proof (cases "u = n")
    case True
    then have v: "v \<in> set ts" using that assms(3) by (auto simp: successors_def)
    then show ?thesis using True m assms(2,4) by auto
  next
    case False
    then show ?thesis using that f assms(2) by auto
  qed
  then show ?thesis unfolding ranked_def by blast
qed

lemma ranked_acyclic:
  assumes "ranked out E" "set (dkeys out) \<subseteq> E"
  shows "acyclic (successors out)"
proof -
  obtain f :: "string \<Rightarrow> nat" where f: "\<forall>u \<in> E. \<forall>v. (u, v) \<in> successors out \<longrightarrow> v \<in> E \<and> f v < f u"
    using assms(1) by (auto simp: ranked_def)
  have "u \<in> E" if "(u, v) \<in> successors out" for u v
    using that assms(2) dget_Some_key [of out u] by (auto simp: successors_def)
  then have "(successors out)\<inverse> \<subseteq> measure f" using f by auto
  then have "acyclic ((successors out)\<inverse>)" using wf_acyclic [OF wf_measure] acyclic_subset by blast
  then show ?thesis by simp
qed

section \<open>Entering, numbering and leaving a node\<close>

lemma components_keep [simp]:
  "tj_components (lower n i st) = tj_components st" "tj_components (tj_enter n st) = tj_components st"
  "tj_stack (lower n i st) = tj_stack st" "tj_on_stack (lower n i st) = tj_on_stack st" "tj_index (lower n i st) = tj_index st"
  "emitted (lower n i st) = emitted st" "low_of (lower n i st) x = (if x = n then min (low_of st n) i else low_of st x)"
  by (simp_all add: lower_def tj_enter_def emitted_def)

lemma lower_good: "tj_good out b (lower n i st) = tj_good out b st"
  by (simp add: tj_good_def)

lemma enter_good:
  assumes "tj_good out b st" "n \<notin> known st"
  shows "tj_good out b (tj_enter n st)" "tj_grows st (tj_enter n st)" "tj_stack (tj_enter n st) = n # tj_stack st"
    "idx_of (tj_enter n st) n = tj_index st" "low_of (tj_enter n st) n = tj_index st" "known (tj_enter n st) = insert n (known st)"
proof -
  have e: "emitted (tj_enter n st) = emitted st" using assms(2) by (auto simp: emitted_def tj_enter_def)
  have "x \<noteq> n" if "x \<in> set (tj_stack st)" for x using assms that by (auto simp: tj_good_def)
  then have s: "sorted_wrt (\<lambda>x y. num_at (AList.update n (tj_index st) (tj_indices st)) y < num_at (AList.update n (tj_index st) (tj_indices st)) x) (tj_stack st)"
    using assms(1) by (auto simp: tj_good_def elim!: sorted_wrt_mono_rel [rotated])
  show "tj_good out b (tj_enter n st)"
    using assms s e by (auto simp: tj_good_def tj_enter_def less_Suc_eq)
  show "tj_grows st (tj_enter n st)" using assms(2) e by (auto simp: tj_grows_def tj_enter_def)
qed (simp_all add: tj_enter_def)

lemma leave_components: "tj_components (tj_leave n ts st) = [] \<Longrightarrow> tj_components st = []"
  by (auto simp: tj_leave_def Let_def split: if_splits)

definition visit_target :: "nat \<Rightarrow> (string \<times> string list) list \<Rightarrow> string \<Rightarrow> string \<Rightarrow> tarjan \<Rightarrow> tarjan res" where
  "visit_target d out n t st =
     (if t \<notin> known st then bnd (tj_visit d out t st) (\<lambda>st'. Inr (lower n (low_of st' t) st'))
      else if t \<in> set (tj_on_stack st) then Inr (lower n (idx_of st t) st) else Inr st)"

lemma visit_cases:
  assumes "tj_visit d out n st = Inr st'"
  obtains d' ts st1 where "d = Suc d'" "dget out n = Some ts" "fold_res (visit_target d' out n) ts (tj_enter n st) = Inr st1"
    "st' = tj_leave n ts st1"
proof -
  obtain d' where "d = Suc d'" using assms by (cases d) auto
  then show thesis using assms that by (auto simp: bnd_eq_Inr visit_target_def [abs_def] split: option.splits)
qed

lemma visit_components: "tj_visit d out n st = Inr st' \<Longrightarrow> tj_components st' = [] \<Longrightarrow> tj_components st = []"
proof (induction d arbitrary: n st st')
  case (Suc d)
  obtain ts st1 where v: "fold_res (visit_target d out n) ts (tj_enter n st) = Inr st1" "st' = tj_leave n ts st1"
    by (rule visit_cases [OF Suc.prems(1)]) auto
  have target: "tj_components u = []" if "visit_target d out n t u = Inr u'" "tj_components u' = []" for t u u'
    using that Suc.IH by (auto simp: visit_target_def bnd_eq_Inr split: if_splits)
  have "tj_components u' = [] \<Longrightarrow> tj_components u = []" if "fold_res (visit_target d out n) xs u = Inr u'" for xs u u'
    using that by (induction xs arbitrary: u) (auto simp: bnd_eq_Inr dest: target)
  from this [OF v(1)] show ?case using Suc.prems(2) v(2) leave_components by auto
qed simp

section \<open>Visiting a node\<close>

text \<open>While the successors of \<open>n\<close> are followed: those done are off the stack, above \<open>n\<close>, or account for its low link.\<close>

definition visiting :: "(string \<times> string list) list \<Rightarrow> nat \<Rightarrow> string \<Rightarrow> tarjan \<Rightarrow> string set \<Rightarrow> tarjan \<Rightarrow> bool" where
  "visiting out b n st0 P st \<longleftrightarrow> tj_good out b st \<and> tj_grows st0 st \<and> n \<in> known st \<and> idx_of st n = tj_index st0
     \<and> b \<le> low_of st n \<and> low_of st n \<le> idx_of st n
     \<and> (\<exists>xs. tj_stack st = xs @ n # tj_stack st0
          \<and> (\<forall>t \<in> P. t \<in> known st \<and> (t \<in> set (tj_stack st0) \<longrightarrow> low_of st n \<le> idx_of st t)))"

lemma grows_lower: "tj_grows s u \<Longrightarrow> n \<notin> known s \<Longrightarrow> tj_grows s (lower n i u)"
  by (auto simp: tj_grows_def)

text \<open>Following one successor, given what its visit does.\<close>

definition visited_well :: "(string \<times> string list) list \<Rightarrow> nat \<Rightarrow> string \<Rightarrow> tarjan \<Rightarrow> tarjan \<Rightarrow> bool" where
  "visited_well out b n st st' \<longleftrightarrow> tj_good out b st' \<and> tj_grows st st' \<and> n \<in> known st' \<and> b \<le> low_of st' n
     \<and> (\<exists>xs. tj_stack st' = xs @ tj_stack st) \<and> (b = tj_index st \<longrightarrow> tj_stack st' = tj_stack st)"

lemma visiting_child:
  assumes "visiting out b n st P u" "t \<notin> known u" "visited_well out b t u w" "n \<notin> known st" "set (tj_stack st) \<subseteq> known st"
  shows "visiting out b n st (insert t P) (lower n (low_of w t) w)"
proof -
  obtain xs ys where xs: "tj_stack u = xs @ n # tj_stack st"
    "\<forall>t \<in> P. t \<in> known u \<and> (t \<in> set (tj_stack st) \<longrightarrow> low_of u n \<le> idx_of u t)" and ys: "tj_stack w = ys @ tj_stack u"
    using assms(1,3) by (auto simp: visiting_def visited_well_def)
  have u: "tj_grows st u" "n \<in> known u" "idx_of u n = tj_index st" "b \<le> low_of u n" "low_of u n \<le> idx_of u n"
    using assms(1) by (auto simp: visiting_def)
  have w: "tj_good out b w" "tj_grows u w" "t \<in> known w" "b \<le> low_of w t" using assms(3) by (auto simp: visited_well_def)
  have n: "idx_of w n = idx_of u n" "low_of w n = low_of u n" "n \<in> known w" using w(2) u(2) by (auto simp: tj_grows_def)
  have t: "t \<notin> set (tj_stack st)" using assms(2,5) u(1) by (auto simp: tj_grows_def)
  have "\<forall>x \<in> insert t P. x \<in> known w \<and> (x \<in> set (tj_stack st) \<longrightarrow> min (low_of w n) (low_of w t) \<le> idx_of w x)"
    using xs(2) t w(2,3) n(2) by (fastforce simp: tj_grows_def)
  then show ?thesis
    using lower_good [of out b n "low_of w t" w] w(1,4) grows_lower [OF tj_grows_trans [OF u(1) w(2)] assms(4)] n u xs(1) ys
    unfolding visiting_def by auto
qed

lemma visiting_back:
  assumes "visiting out b n st P u" "t \<in> known u" "t \<in> set (tj_on_stack u)" "n \<notin> known st"
  shows "visiting out b n st (insert t P) (lower n (idx_of u t) u)"
proof -
  have g: "tj_good out b u" "tj_grows st u" using assms(1) by (auto simp: visiting_def)
  have "b \<le> idx_of u t" using g(1) assms(3) by (auto simp: tj_good_def)
  then show ?thesis
    using assms(1,2) lower_good [of out b n "idx_of u t" u] grows_lower [OF g(2) assms(4)] unfolding visiting_def
    by (auto simp: min_le_iff_disj)
qed

lemma visiting_done:
  assumes "visiting out b n st P u" "t \<in> known u" "t \<notin> set (tj_on_stack u)"
  shows "visiting out b n st (insert t P) u"
  using assms by (auto simp: visiting_def tj_good_def)

lemma visiting_enter:
  assumes "tj_good out b st" "n \<notin> known st"
  shows "visiting out b n st {} (tj_enter n st)"
  using enter_good [OF assms] assms(1) by (auto simp: visiting_def tj_good_def)

lemma visiting_leave:
  assumes "visiting out b n st (set ts) u" "dget out n = Some ts" "tj_components (tj_leave n ts u) = []"
    "n \<notin> known st" "set (tj_stack st) \<subseteq> known st" "\<forall>x \<in> known st. idx_of st x < tj_index st"
  shows "visited_well out b n st (tj_leave n ts u)"
proof (cases "low_of u n = idx_of u n")
  case True
  obtain xs where xs: "tj_stack u = xs @ n # tj_stack st"
    "\<forall>t \<in> set ts. t \<in> known u \<and> (t \<in> set (tj_stack st) \<longrightarrow> low_of u n \<le> idx_of u t)"
    using assms(1) by (auto simp: visiting_def)
  have g: "tj_good out b u" "tj_grows st u" "n \<in> known u" "idx_of u n = tj_index st" "b \<le> low_of u n"
    using assms(1) by (auto simp: visiting_def)
  have small: "takeWhile (\<lambda>x. x \<noteq> n) (tj_stack u) = []" "n \<notin> set ts"
    using assms(3) True by (auto simp: tj_leave_def Let_def split: if_splits)
  then have nil: "xs = []" using xs(1) g(1) by (cases xs) (auto simp: tj_good_def)
  then have leave: "tj_leave n ts u = u\<lparr>tj_stack := tj_stack st, tj_on_stack := filter (\<lambda>x. x \<noteq> n) (tj_on_stack u),
      tj_components := tj_components u\<rparr>"
    using True xs(1) small(2) by (simp add: tj_leave_def Let_def)
  have d: "n \<notin> set (tj_stack st)" "distinct (tj_stack st)" using g(1) xs(1) nil by (auto simp: tj_good_def)
  have "set ts \<subseteq> emitted u"
  proof
    fix t assume t: "t \<in> set ts"
    have "t \<notin> set (tj_stack st)"
    proof
      assume ts: "t \<in> set (tj_stack st)"
      then have "idx_of u t = idx_of st t" "idx_of st t < tj_index st" using assms(5,6) g(2) by (auto simp: tj_grows_def)
      then show False using xs(2) t ts True g(4) by force
    qed
    then show "t \<in> emitted u" using t xs small(2) nil by (auto simp: emitted_def)
  qed
  moreover have "n \<notin> emitted u" using xs(1) by (simp add: emitted_def)
  ultimately have rank: "ranked out (insert n (emitted u))" using ranked_insert [OF _ _ assms(2)] g(1) by (auto simp: tj_good_def)
  have e: "emitted (tj_leave n ts u) = insert n (emitted u)" using leave xs(1) nil g(3) d(1) by (auto simp: emitted_def)
  have "tj_good out b (tj_leave n ts u)" using g(1) rank e d xs(1) nil leave by (auto simp: tj_good_def)
  moreover have "tj_grows st (tj_leave n ts u)" using g(2) e leave by (auto simp: tj_grows_def)
  ultimately show ?thesis using g leave by (auto simp: visited_well_def)
next
  case False
  then show ?thesis using assms(1) by (auto simp: visiting_def visited_well_def tj_leave_def)
qed

lemma visit_good:
  assumes "tj_visit d out n st = Inr st'" "tj_components st' = []" "tj_good out b st" "n \<notin> known st"
  shows "visited_well out b n st st'"
  using assms
proof (induction d arbitrary: n st st')
  case (Suc d)
  obtain ts st1 where v: "dget out n = Some ts" "fold_res (visit_target d out n) ts (tj_enter n st) = Inr st1" "st' = tj_leave n ts st1"
    by (rule visit_cases [OF Suc.prems(1)]) auto
  have base: "set (tj_stack st) \<subseteq> known st" "\<forall>x \<in> known st. idx_of st x < tj_index st"
    using Suc.prems(3) by (auto simp: tj_good_def)
  have step: "visiting out b n st (insert t P) u'"
    if t: "visit_target d out n t u = Inr u'" "tj_components u' = []" "visiting out b n st P u" for t u u' P
  proof (cases "t \<in> known u")
    case True
    then show ?thesis using t(1) visiting_back [OF t(3) True _ Suc.prems(4)] visiting_done [OF t(3) True]
      by (auto simp: visit_target_def split: if_splits)
  next
    case False
    then obtain w where w: "tj_visit d out t u = Inr w" "u' = lower n (low_of w t) w"
      using t(1) by (auto simp: visit_target_def bnd_eq_Inr)
    have "visited_well out b t u w" using Suc.IH [OF w(1)] w(2) t(2,3) False by (auto simp: visiting_def)
    then show ?thesis using visiting_child [OF t(3) False _ Suc.prems(4) base(1)] w(2) by simp
  qed
  have components: "tj_components u = []" if "visit_target d out n t u = Inr u'" "tj_components u' = []" for t u u'
    using that visit_components by (auto simp: visit_target_def bnd_eq_Inr split: if_splits)
  have loop: "tj_components u = [] \<and> (visiting out b n st P u \<longrightarrow> visiting out b n st (P \<union> set xs) u')"
    if "fold_res (visit_target d out n) xs u = Inr u'" "tj_components u' = []" for xs u u' P
    using that
  proof (induction xs arbitrary: u P)
    case (Cons t xs)
    then obtain w where w: "visit_target d out n t u = Inr w" "fold_res (visit_target d out n) xs w = Inr u'"
      by (auto simp: bnd_eq_Inr)
    then show ?case using Cons.IH [OF w(2) Cons.prems(2), of "insert t P"] step [OF w(1)] components [OF w(1)] by auto
  qed simp
  have "tj_components st1 = []" using leave_components v(3) Suc.prems(2) by auto
  then have "visiting out b n st (set ts) st1" using loop [OF v(2), of "{}"] visiting_enter [OF Suc.prems(3,4)] by auto
  then show ?case using visiting_leave [OF _ v(1) _ Suc.prems(4) base] Suc.prems(2) v(3) by simp
qed simp

section \<open>No component reported\<close>

text \<open>Between two roots the stack is empty.\<close>

lemma roots_ranked:
  assumes "fold_res (\<lambda>n st. if n \<notin> known st then tj_visit d out n st else Inr st) ns st = Inr st'" "tj_components st' = []"
    "tj_stack st = []" "tj_good out (tj_index st) st"
  shows "tj_stack st' = [] \<and> ranked out (known st') \<and> known st \<union> set ns \<subseteq> known st'"
  using assms
proof (induction ns arbitrary: st)
  case Nil
  then show ?case by (auto simp: tj_good_def emitted_def)
next
  case (Cons n ns)
  have keep: "tj_components u = []"
    if "fold_res (\<lambda>n st. if n \<notin> known st then tj_visit d out n st else Inr st) ns u = Inr st'" for u
    using that Cons.prems(2) by (induction ns arbitrary: u) (auto simp: bnd_eq_Inr dest: visit_components split: if_splits)
  show ?case
  proof (cases "n \<in> known st")
    case True
    then show ?thesis using Cons.IH [of st] Cons.prems by (auto simp: subset_iff)
  next
    case False
    then obtain u where u: "tj_visit d out n st = Inr u"
      "fold_res (\<lambda>n st. if n \<notin> known st then tj_visit d out n st else Inr st) ns u = Inr st'"
      using Cons.prems(1) by (auto simp: bnd_eq_Inr)
    have w: "visited_well out (tj_index st) n st u" by (rule visit_good [OF u(1) keep [OF u(2)] Cons.prems(4) False])
    then have "tj_stack u = []" "n \<in> known u" "known st \<subseteq> known u" using Cons.prems(3) by (auto simp: visited_well_def tj_grows_def)
    moreover have "tj_good out (tj_index u) u" using w calculation(1) by (simp add: visited_well_def tj_good_def)
    ultimately show ?thesis using Cons.IH [OF u(2) Cons.prems(2)] by auto
  qed
qed

text \<open>On a graph for which the search reports no cyclic component no node reaches itself.\<close>

lemma no_component_acyclic:
  assumes "cyclic_components out = Inr []"
  shows "acyclic (successors out)"
proof -
  obtain st where st: "fold_res (\<lambda>n st. if n \<notin> known st then tj_visit (Suc (length out)) out n st else Inr st) (dkeys out) tj_start = Inr st"
    "tj_components st = []"
    using assms by (auto simp: cyclic_components_def bnd_eq_Inr)
  have start: "tj_good out (tj_index tj_start) tj_start" by (simp add: tj_good_def tj_start_def ranked_def emitted_def dkeys_def)
  have r: "ranked out (known st)" "set (dkeys out) \<subseteq> known st" using roots_ranked [OF st _ start] by (auto simp: tj_start_def)
  then show ?thesis by (rule ranked_acyclic)
qed

end
