(* ===== verification/Dynamic_Graph.thy ===== *)
theory Dynamic_Graph
  imports Graph_Compile Ledger Tarjan_Sound Graph_Valid
begin

text \<open>
  The rest of \<open>src/vloop/graph.py\<close> and \<open>ReadOnlyDynamicExecutor\<close> of \<open>src/vloop/graph_runtime.py\<close>: the graph
  view of a run's ledger events, and the server-owned ceiling for graphs that a planner proposes.
\<close>

section \<open>The evidence graph of a run\<close>

record evidence_graph =
  eg_run_id :: string
  eg_graph_digest :: string
  eg_nodes :: "graph_node list"
  eg_edges :: "graph_edge list"

definition evidence_node :: "ledger_row \<Rightarrow> graph_node" where
  "evidence_node e = (graph_node (lr_event_hash e) N_RECEIPT)\<lparr>nd_metadata :=
     [(''event_type'', lr_event_type e), (''sequence'', dec_int (lr_sequence e)), (''occurred_at'', lr_occurred_at e)]\<rparr>"

definition build_evidence_graph :: "crypto \<Rightarrow> ledger_row list \<Rightarrow> string \<Rightarrow> evidence_graph res" where
  "build_evidence_graph cr events run =
     (let selected = filter (\<lambda>e. payload_run e = Some (PStr run)) events in
      if blank run \<or> selected = [] then Inl (ValueError, ''evidence graph needs a run with ledger events'')
      else bnd (map_res graph_node_init (map evidence_node selected)) (\<lambda>nodes.
        let hashes = set (map nd_id nodes) in
        bnd (map_res graph_edge_init (map (\<lambda>e. graph_edge (lr_parent_hash e) (lr_event_hash e) DEPENDS_ON)
              (filter (\<lambda>e. lr_parent_hash e \<in> hashes) selected))) (\<lambda>edges.
        Inr \<lparr>eg_run_id = run,
          eg_graph_digest = digest cr (PDict [(''run_id'', PStr run),
            (''events'', PList (map (PStr \<circ> lr_event_hash) selected)),
            (''edges'', PList (map (\<lambda>e. PTuple [PStr (ed_source e), PStr (ed_target e)]) edges))]),
          eg_nodes = nodes, eg_edges = edges\<rparr>)))"

definition evidence_to_dot :: "evidence_graph \<Rightarrow> string" where
  "evidence_to_dot g = join [CHR 0x0A]
     ([''digraph vloop_evidence {'']
      @ map (\<lambda>n. ''  '' @ [CHR 0x22] @ nd_id n @ [CHR 0x22] @ '' [label='' @ [CHR 0x22]
          @ map (\<lambda>c. if c = CHR 0x22 then CHR 0x27 else c)
              (case dget (nd_metadata n) ''event_type'' of Some t \<Rightarrow> t | None \<Rightarrow> node_type_value (nd_type n))
          @ [CHR 0x22] @ ''];'') (eg_nodes g)
      @ map (\<lambda>e. ''  '' @ [CHR 0x22] @ ed_source e @ [CHR 0x22] @ '' -> '' @ [CHR 0x22] @ ed_target e @ [CHR 0x22]
          @ '' [label='' @ [CHR 0x22] @ edge_type_value (ed_type e) @ [CHR 0x22] @ ''];'') (eg_edges g)
      @ [''}''])"

section \<open>The ceiling for proposed graphs\<close>

record dynamic_policy =
  dp_allowed_node_types :: "node_type list"
  dp_allowed_edge_types :: "edge_type list"
  dp_maximum_nodes :: int
  dp_maximum_edges :: int
  dp_maximum_total_tokens :: int
  dp_maximum_parallelism :: int
  dp_implementations :: "(string \<times> node_implementation) list"

definition dynamic_policy_default :: "(string \<times> node_implementation) list \<Rightarrow> dynamic_policy" where
  "dynamic_policy_default impls = \<lparr>dp_allowed_node_types = [N_TASK, N_CONTEXT, N_ACTION, N_ARTIFACT, N_CRITERION],
     dp_allowed_edge_types = [DEPENDS_ON, DERIVED_FROM, REQUIRES, PRODUCED, VERIFIED_BY],
     dp_maximum_nodes = 24, dp_maximum_edges = 48, dp_maximum_total_tokens = 32000, dp_maximum_parallelism = 4,
     dp_implementations = impls\<rparr>"

definition dynamic_policy_init :: "dynamic_policy \<Rightarrow> dynamic_policy res" where
  "dynamic_policy_init p =
     (if min (dp_maximum_nodes p) (min (dp_maximum_total_tokens p) (dp_maximum_parallelism p)) < 1 \<or> dp_maximum_edges p < 0
      then Inl (ValueError, ''dynamic graph limits are invalid'') else Inr p)"

definition denied :: "graph_node \<Rightarrow> string \<Rightarrow> 'a res" where
  "denied n msg = Inl (PermissionError, ''dynamic node '' @ repr_str (nd_id n) @ '' '' @ msg)"

definition metadata_or :: "metadata \<Rightarrow> string \<Rightarrow> string \<Rightarrow> string" where
  "metadata_or m k d = (case dget m k of None \<Rightarrow> d | Some v \<Rightarrow> v)"

text \<open>The checks of one node, its token budget or the denial; a task node costs nothing.\<close>

definition admit_node :: "crypto \<Rightarrow> dynamic_policy \<Rightarrow> graph_node \<Rightarrow> int res" where
  "admit_node cr p n =
     (if nd_type n \<notin> set (dp_allowed_node_types p) \<or> nd_effect n \<noteq> ''read-only'' \<or> nd_authority n \<noteq> []
      then Inl (PermissionError, ''dynamic graph node '' @ repr_str (nd_id n) @ '' exceeds read-only authority'')
      else if nd_type n = N_TASK then Inr 0
      else case dget (dp_implementations p) (metadata_or (nd_metadata n) ''implementation_id'' []) of
        None \<Rightarrow> denied n ''lacks an approved implementation digest''
      | Some impl \<Rightarrow>
          if dget (nd_metadata n) ''implementation_digest'' \<noteq> Some (implementation_digest cr impl)
          then denied n ''lacks an approved implementation digest''
          else case (nd_budget n, nd_timeout_seconds n) of
            (Some budget, Some timeout) \<Rightarrow>
              (case py_int (metadata_or (nd_metadata n) ''maximum_tokens'' ''0'') of
                 None \<Rightarrow> denied n ''has an invalid token budget''
               | Some tokens \<Rightarrow>
                   if tokens < 1 \<or> ni_maximum_tokens impl < tokens \<or> ni_maximum_calls impl < budget \<or> ni_timeout_seconds impl < timeout
                   then denied n ''exceeds its implementation budget''
                   else if list_ex (\<lambda>k. k \<in> set (dkeys (nd_metadata n))) [''credential'', ''secret'', ''network''] \<or> ni_network_allowed impl
                   then denied n ''requests credentials or network access''
                   else if nd_input_ports n = [] \<and> nd_output_ports n = [] then denied n ''lacks typed ports''
                   else if \<not> set (map port_schema_digest (nd_input_ports n @ nd_output_ports n))
                     \<subseteq> set (ni_input_schema_digests impl @ ni_output_schema_digests impl)
                   then denied n ''uses schemas outside its implementation''
                   else Inr tokens)
          | _ \<Rightarrow> denied n ''lacks call or timeout budget'')"

definition total_tokens :: "crypto \<Rightarrow> dynamic_policy \<Rightarrow> graph_node list \<Rightarrow> int res" where
  "total_tokens cr p ns = fold_res (\<lambda>n acc. bnd (admit_node cr p n) (\<lambda>t. Inr (acc + t))) ns 0"

text \<open>The successors by node id, over the edges as they are declared.\<close>

definition raw_targets :: "graph_manifest \<Rightarrow> (string \<times> string list) list" where
  "raw_targets g = fold (\<lambda>n d. AList.update (nd_id n) (map ed_target (filter (\<lambda>e. ed_source e = nd_id n) (gm_edges g))) d)
     (gm_nodes g) []"

definition admit :: "crypto \<Rightarrow> dynamic_policy \<Rightarrow> graph_manifest \<Rightarrow> task_contract \<Rightarrow> graph_manifest res" where
  "admit cr p g c =
     bnd (contract_digest cr c) (\<lambda>cd.
     if gm_contract_digest g \<noteq> cd
        \<or> gm_profile_digest g \<noteq> (if tc_profile_digest c = [] then replicate 64 (CHR ''0'') else tc_profile_digest c)
     then Inl (PermissionError, ''dynamic graph belongs to another task contract or profile'')
     else if dp_maximum_nodes p < int (length (gm_nodes g)) \<or> dp_maximum_edges p < int (length (gm_edges g))
     then Inl (PermissionError, ''dynamic graph exceeds server-owned size limits'')
     else if dget (gm_metadata g) ''mode'' \<noteq> Some ''read-only-reasoning''
     then Inl (PermissionError, ''dynamic graph is not labelled read-only reasoning'')
     else case py_int (metadata_or (gm_metadata g) ''maximum_parallelism'' ''1'') of
       None \<Rightarrow> Inl (PermissionError, ''dynamic graph has an invalid parallelism limit'')
     | Some k \<Rightarrow>
         if k < 1 \<or> dp_maximum_parallelism p < k
         then Inl (PermissionError, ''dynamic graph exceeds server-owned parallelism limit'')
         else bnd (total_tokens cr p (gm_nodes g)) (\<lambda>total.
           if dp_maximum_total_tokens p < total
           then Inl (PermissionError, ''dynamic graph exceeds server-owned total token budget'')
           else if list_ex (\<lambda>e. ed_type e \<notin> set (dp_allowed_edge_types p)) (gm_edges g)
           then Inl (PermissionError, ''dynamic graph contains a non-approved edge type'')
           else bnd (cyclic_components (raw_targets g)) (\<lambda>components.
             if components \<noteq> [] then Inl (PermissionError, ''dynamic reasoning graphs must be acyclic'')
             else bnd (require_valid g) (\<lambda>_. Inr g))))"

section \<open>Running an admitted node\<close>

record dynamic_result =
  dr_output_artifacts :: "(string \<times> string) list"
  dr_tokens_used :: int
  dr_calls_used :: int

text \<open>A runner of the deployment, on the outside state \<open>'w\<close>.\<close>

type_synonym 'w runner = "node_implementation \<Rightarrow> graph_node \<Rightarrow> (string \<times> string) list \<Rightarrow> 'w \<Rightarrow> dynamic_result res \<times> 'w"

definition check_result_budget :: "graph_node \<Rightarrow> dynamic_result \<Rightarrow> dynamic_result res" where
  "check_result_budget n r =
     (if dr_tokens_used r < 0 \<or> dr_calls_used r < 0
      then Inl (GraphBudgetExceeded, ''dynamic runner reported an invalid resource count'')
      else case dget (nd_metadata n) ''maximum_tokens'' of
        None \<Rightarrow> Inl (KeyError, repr_str ''maximum_tokens'')
      | Some t \<Rightarrow> (case py_int t of
          None \<Rightarrow> Inl (ValueError, ''invalid literal for int()'')
        | Some tokens \<Rightarrow>
            if tokens < dr_tokens_used r \<or> (case nd_budget n of None \<Rightarrow> 0 | Some b \<Rightarrow> b) < dr_calls_used r
            then Inl (GraphBudgetExceeded, ''dynamic node exceeded its admitted token or call budget'')
            else Inr r))"

definition execute_node :: "crypto \<Rightarrow> dynamic_policy \<Rightarrow> (string \<times> 'w runner) list \<Rightarrow> graph_manifest \<Rightarrow> string \<Rightarrow> task_contract
    \<Rightarrow> (string \<times> string) list \<Rightarrow> 'w \<Rightarrow> dynamic_result res \<times> 'w" where
  "execute_node cr p runners g i c inputs w =
     (case admit cr p g c of
        Inl e \<Rightarrow> (Inl e, w)
      | Inr a \<Rightarrow>
          (case List.find (\<lambda>n. nd_id n = i) (gm_nodes a) of
             None \<Rightarrow> (Inl (PermissionError, ''dynamic execution needs an admitted non-task node''), w)
           | Some n \<Rightarrow>
               if nd_type n = N_TASK then (Inl (PermissionError, ''dynamic execution needs an admitted non-task node''), w)
               else (case dget (nd_metadata n) ''implementation_id'' of
                  None \<Rightarrow> (Inl (KeyError, repr_str ''implementation_id''), w)
                | Some iid \<Rightarrow>
                   (case dget (dp_implementations p) iid of
                      None \<Rightarrow> (Inl (KeyError, repr_str iid), w)
                    | Some impl \<Rightarrow>
                       (case dget runners (ni_implementation_id impl) of
                          None \<Rightarrow> (Inl (PermissionError, ''no deployment runner is registered for this dynamic implementation''), w)
                        | Some run \<Rightarrow>
                           (case run impl n inputs w of
                              (Inl e, w') \<Rightarrow> (Inl e, w')
                            | (Inr r, w') \<Rightarrow> (check_result_budget n r, w')))))))"

section \<open>What admission guarantees\<close>

text \<open>A node within the authority and the budget of an implementation of the policy.\<close>

definition node_within :: "crypto \<Rightarrow> dynamic_policy \<Rightarrow> graph_node \<Rightarrow> int \<Rightarrow> bool" where
  "node_within cr p n tokens \<longleftrightarrow> nd_effect n = ''read-only'' \<and> nd_authority n = [] \<and> nd_type n \<in> set (dp_allowed_node_types p)
     \<and> (nd_type n = N_TASK \<and> tokens = 0
        \<or> (\<exists>impl budget timeout. dget (dp_implementations p) (metadata_or (nd_metadata n) ''implementation_id'' []) = Some impl
             \<and> dget (nd_metadata n) ''implementation_digest'' = Some (implementation_digest cr impl)
             \<and> nd_budget n = Some budget \<and> budget \<le> ni_maximum_calls impl
             \<and> nd_timeout_seconds n = Some timeout \<and> timeout \<le> ni_timeout_seconds impl
             \<and> 1 \<le> tokens \<and> tokens \<le> ni_maximum_tokens impl \<and> \<not> ni_network_allowed impl
             \<and> ''credential'' \<notin> set (dkeys (nd_metadata n)) \<and> ''secret'' \<notin> set (dkeys (nd_metadata n))))"

lemma admit_node_within: "admit_node cr p n = Inr tokens \<Longrightarrow> node_within cr p n tokens \<and> 0 \<le> tokens"
  by (auto simp: admit_node_def node_within_def denied_def split: if_splits option.splits)

lemma total_tokens_split:
  "fold_res (\<lambda>n acc. bnd (admit_node cr p n) (\<lambda>t. Inr (acc + t))) ns a = Inr amount
    \<Longrightarrow> \<exists>ts. length ts = length ns \<and> amount = a + sum_list ts \<and> (\<forall>(n, t) \<in> set (zip ns ts). admit_node cr p n = Inr t)"
proof (induction ns arbitrary: a)
  case (Cons n ns)
  then obtain t where t: "admit_node cr p n = Inr t" "fold_res (\<lambda>n acc. bnd (admit_node cr p n) (\<lambda>t. Inr (acc + t))) ns (a + t) = Inr amount"
    by (auto simp: bnd_eq_Inr)
  from Cons.IH [OF t(2)] obtain ts where "length ts = length ns" "amount = a + t + sum_list ts"
    "\<forall>(n, t) \<in> set (zip ns ts). admit_node cr p n = Inr t" by blast
  with t(1) show ?case by (intro exI [of _ "t # ts"]) auto
qed simp

lemma dget_raw_targets:
  "dget (raw_targets g) n = (if n \<in> set (node_ids g)
     then Some (map ed_target (filter (\<lambda>e. ed_source e = n) (gm_edges g))) else None)"
proof -
  have "dget (fold (\<lambda>n d. AList.update (nd_id n) (f (nd_id n)) d) ns d) k = (if k \<in> nd_id ` set ns then Some (f k) else dget d k)"
    for f :: "string \<Rightarrow> string list" and ns :: "graph_node list" and d k by (induction ns arbitrary: d) auto
  from this [of "\<lambda>i. map ed_target (filter (\<lambda>e. ed_source e = i) (gm_edges g))"]
  show ?thesis by (simp add: raw_targets_def node_ids_def)
qed

text \<open>The declared edges as a relation.\<close>

definition declared_edges :: "graph_manifest \<Rightarrow> (string \<times> string) set" where
  "declared_edges g = (\<lambda>e. (ed_source e, ed_target e)) ` set (gm_edges g)"

lemma edges_acyclic:
  assumes "require_valid g = Inr ()" "cyclic_components (raw_targets g) = Inr []"
  shows "acyclic (declared_edges g)"
proof -
  have "valid_graph g" using assms(1) by (auto simp: valid_graph_def require_valid_def bnd_eq_Inr split: if_splits)
  then have "\<forall>e \<in> set (gm_edges g). ed_source e \<in> set (node_ids g)" using valid_graph_inside by (auto simp: edges_inside_def)
  then have "declared_edges g \<subseteq> successors (raw_targets g)" by (auto simp: declared_edges_def successors_def dget_raw_targets)
  then show ?thesis using no_component_acyclic [OF assms(2)] acyclic_subset by blast
qed

text \<open>C27: a graph that is admitted is bound to the digests of the contract and its profile, labelled as read-only
  reasoning and statically valid; no node reaches itself along its declared edges, whatever their type; it
  is within the policy's limits on nodes, edges, edge types and parallelism; and every node is read-only, without
  authority and within an approved implementation, with token budgets that sum to at most the policy's total.\<close>

theorem admit_sound:
  assumes "admit cr p g c = Inr g'"
  shows "g' = g \<and> contract_digest cr c = Inr (gm_contract_digest g) \<and> require_valid g = Inr () \<and> acyclic (declared_edges g)
    \<and> dget (gm_metadata g) ''mode'' = Some ''read-only-reasoning''
    \<and> int (length (gm_nodes g)) \<le> dp_maximum_nodes p \<and> int (length (gm_edges g)) \<le> dp_maximum_edges p
    \<and> (\<exists>k. py_int (metadata_or (gm_metadata g) ''maximum_parallelism'' ''1'') = Some k \<and> 1 \<le> k \<and> k \<le> dp_maximum_parallelism p)
    \<and> (\<forall>e \<in> set (gm_edges g). ed_type e \<in> set (dp_allowed_edge_types p))
    \<and> (\<exists>ts. length ts = length (gm_nodes g) \<and> sum_list ts \<le> dp_maximum_total_tokens p
         \<and> (\<forall>(n, t) \<in> set (zip (gm_nodes g) ts). node_within cr p n t))"
proof -
  from assms obtain amount k where a: "g' = g" "require_valid g = Inr ()" "cyclic_components (raw_targets g) = Inr []"
    "contract_digest cr c = Inr (gm_contract_digest g)" "dget (gm_metadata g) ''mode'' = Some ''read-only-reasoning''"
    "int (length (gm_nodes g)) \<le> dp_maximum_nodes p" "int (length (gm_edges g)) \<le> dp_maximum_edges p"
    "py_int (metadata_or (gm_metadata g) ''maximum_parallelism'' ''1'') = Some k" "1 \<le> k" "k \<le> dp_maximum_parallelism p"
    "\<forall>e \<in> set (gm_edges g). ed_type e \<in> set (dp_allowed_edge_types p)"
    and total: "total_tokens cr p (gm_nodes g) = Inr amount" "amount \<le> dp_maximum_total_tokens p"
    by (auto simp: admit_def bnd_eq_Inr list_ex_iff not_less split: if_splits option.splits)
  moreover have "\<exists>ts. length ts = length (gm_nodes g) \<and> sum_list ts \<le> dp_maximum_total_tokens p
         \<and> (\<forall>(n, t) \<in> set (zip (gm_nodes g) ts). node_within cr p n t)"
    using total total_tokens_split [of cr p "gm_nodes g" 0 amount] admit_node_within unfolding total_tokens_def by fastforce
  ultimately show ?thesis using edges_acyclic [OF a(2,3)] by blast
qed

text \<open>An admitted node returns within its declared budget, whatever the runner does.\<close>

lemma execute_node_budget:
  assumes "execute_node cr p runners g i c inputs w = (Inr r, w')"
  shows "\<exists>n tokens budget. n \<in> set (gm_nodes g) \<and> nd_id n = i \<and> admit cr p g c = Inr g
    \<and> dget (nd_metadata n) ''maximum_tokens'' = Some tokens \<and> (\<exists>t. py_int tokens = Some t \<and> dr_tokens_used r \<le> t)
    \<and> nd_budget n = budget \<and> dr_calls_used r \<le> (case budget of None \<Rightarrow> 0 | Some b \<Rightarrow> b)
    \<and> 0 \<le> dr_tokens_used r \<and> 0 \<le> dr_calls_used r"
proof -
  have "admit cr p g c = Inr a \<Longrightarrow> a = g" for a
    by (auto simp: admit_def bnd_eq_Inr split: if_splits option.splits)
  then show ?thesis
    using assms by (fastforce simp: execute_node_def check_result_budget_def find_Some_iff not_less
        split: sum.splits option.splits if_splits prod.splits dest: nth_mem)
qed

definition zeros :: string where
  "zeros = replicate 64 (CHR ''0'')"

definition sample_impl :: node_implementation where
  "sample_impl = \<lparr>ni_implementation_id = ''summarise'', ni_image_digest = zeros, ni_input_schema_digests = [zeros],
     ni_output_schema_digests = [], ni_maximum_tokens = 100, ni_maximum_calls = 2, ni_timeout_seconds = 10, ni_network_allowed = False\<rparr>"

definition reasoning_policy :: dynamic_policy where
  "reasoning_policy = dynamic_policy_default [(''summarise'', sample_impl)]"

definition sample_reasoning :: graph_manifest where
  "sample_reasoning = \<lparr>gm_graph_id = ''g'', gm_schema_version = 1, gm_contract_digest = zeros, gm_profile_digest = zeros,
     gm_nodes = [graph_node ''t'' N_TASK,
       (graph_node ''a'' N_ACTION)\<lparr>nd_budget := Some 1, nd_timeout_seconds := Some 5,
         nd_input_ports := [\<lparr>port_name = ''in'', port_direction = INPUT, port_schema_digest = zeros, port_required = True\<rparr>],
         nd_metadata := [(''implementation_id'', ''summarise''), (''implementation_digest'', zeros),
           (''maximum_tokens'', ''50''), (''terminal'', ''true'')]\<rparr>],
     gm_edges = [graph_edge ''t'' ''a'' DEPENDS_ON], gm_compiler_version = ''v'',
     gm_metadata = [(''mode'', ''read-only-reasoning'')], gm_joins = []\<rparr>"

lemma sample_reasoning_admitted: "admit toy_crypto reasoning_policy sample_reasoning shared_contract = Inr sample_reasoning"
  by code_simp

theorem admit_sound_witness:
  "acyclic (declared_edges sample_reasoning) \<and> declared_edges sample_reasoning \<noteq> {}
    \<and> (\<exists>ts. length ts = length (gm_nodes sample_reasoning) \<and> sum_list ts \<le> (32000 :: int))"
  using admit_sound [OF sample_reasoning_admitted]
  by (auto simp: reasoning_policy_def dynamic_policy_default_def declared_edges_def sample_reasoning_def)

end
