(* ===== verification/Context.thy ===== *)
theory Context
  imports Models
begin

text \<open>
  \<open>src/vloop/context.py\<close>: labelled context items, the bounded package built for one iteration, and
  the conservative provenance it gives to a proposed action; with \<open>WorkingState\<close> of
  \<open>src/vloop/memory.py\<close>, which a package carries.
\<close>

section \<open>Items and packages\<close>

datatype context_trust = USER_TRUST | TRUSTED_SYSTEM_TRUST | TRUSTED_REPOSITORY_TRUST | VERIFIED_MEMORY_TRUST | UNTRUSTED_TRUST

primrec context_trust_value :: "context_trust \<Rightarrow> string" where
  "context_trust_value USER_TRUST = ''user''"
| "context_trust_value TRUSTED_SYSTEM_TRUST = ''trusted-system''"
| "context_trust_value TRUSTED_REPOSITORY_TRUST = ''trusted-repository''"
| "context_trust_value VERIFIED_MEMORY_TRUST = ''verified-memory''"
| "context_trust_value UNTRUSTED_TRUST = ''untrusted''"

record context_item =
  ci_source_id :: string
  ci_kind :: string
  ci_content :: string
  ci_trust :: context_trust
  ci_metadata :: "(string \<times> string) list"
  ci_captured_at :: dtime

definition content_digest :: "crypto \<Rightarrow> context_item \<Rightarrow> string" where
  "content_digest cr item = digest cr (PDict [(''source_id'', PStr (ci_source_id item)), (''kind'', PStr (ci_kind item)),
     (''content'', PStr (ci_content item))])"

definition environment_digest :: "crypto \<Rightarrow> (string \<times> string) list \<Rightarrow> string" where
  "environment_digest cr facts = digest cr (PDict (map (\<lambda>(k, v). (k, PStr v)) facts))"

record working_state =
  ws_task_id :: string
  ws_project_scope :: string
  ws_current_step :: string
  ws_hypotheses :: "string list"
  ws_observations :: "string list"
  ws_updated_at :: dtime

record context_package =
  cp_contract_digest :: string
  cp_environment_digest :: string
  cp_trusted_items :: "context_item list"
  cp_untrusted_items :: "context_item list"
  cp_working_state :: "working_state option"
  cp_truncated_source_ids :: "string list"

text \<open>The label that a source of this trust gives to what is derived from it.\<close>

primrec trust_provenance :: "context_trust \<Rightarrow> provenance" where
  "trust_provenance USER_TRUST = USER"
| "trust_provenance TRUSTED_REPOSITORY_TRUST = TRUSTED_REPOSITORY"
| "trust_provenance VERIFIED_MEMORY_TRUST = VERIFIED_MEMORY"
| "trust_provenance UNTRUSTED_TRUST = UNTRUSTED_RETRIEVAL"
| "trust_provenance TRUSTED_SYSTEM_TRUST = TOOL_OUTPUT"

definition package_items :: "context_package \<Rightarrow> context_item list" where
  "package_items p = cp_trusted_items p @ cp_untrusted_items p"

definition package_provenance :: "context_package \<Rightarrow> provenance list" where
  "package_provenance p = sort (remdups (map (trust_provenance \<circ> ci_trust) (package_items p)))"

section \<open>The engine\<close>

record context_engine =
  cx_maximum_chars :: int
  cx_items :: "context_item list"

definition context_engine_init :: "int \<Rightarrow> context_engine res" where
  "context_engine_init n = (if n < 1 then Inl (ValueError, ''maximum_chars must be positive'')
     else Inr \<lparr>cx_maximum_chars = n, cx_items = []\<rparr>)"

definition context_add :: "context_engine \<Rightarrow> context_item \<Rightarrow> context_engine res" where
  "context_add x item = (if blank (ci_source_id item) \<or> blank (ci_kind item)
     then Inl (ValueError, ''context item needs source_id and kind'') else Inr (x\<lparr>cx_items := cx_items x @ [item]\<rparr>))"

definition to_lower :: "string \<Rightarrow> string" where
  "to_lower s = map (\<lambda>c. let n = (of_char c :: nat) in if 65 \<le> n \<and> n \<le> 90 then char_of (n + 32) else c) s"

text \<open>\<open>text.lower().split()\<close>: the words between runs of white space.\<close>

fun split_words :: "string \<Rightarrow> string \<Rightarrow> string list" where
  "split_words acc [] = (if acc = [] then [] else [rev acc])"
| "split_words acc (c # s) = (if py_isspace c then (if acc = [] then [] else [rev acc]) @ split_words [] s
     else split_words (c # acc) s)"

definition words_of :: "string \<Rightarrow> string list" where
  "words_of s = remdups (split_words [] (to_lower s))"

definition relevance :: "task_contract \<Rightarrow> context_item \<Rightarrow> nat" where
  "relevance c item = length (filter (\<lambda>w. w \<in> set (words_of (ci_content item))) (words_of (tc_goal c)))"

text \<open>The sort key: trusted first, then by overlap with the goal, then the newest, then the source.\<close>

definition before :: "task_contract \<Rightarrow> context_item \<Rightarrow> context_item \<Rightarrow> bool" where
  "before c a b \<longleftrightarrow>
     (let ua = (ci_trust a = UNTRUSTED_TRUST); ub = (ci_trust b = UNTRUSTED_TRUST);
          ra = relevance c a; rb = relevance c b; ta = instant (ci_captured_at a); tb = instant (ci_captured_at b) in
      (\<not> ua \<and> ub) \<or> ua = ub \<and> (rb < ra \<or> ra = rb \<and> (tb < ta \<or> ta = tb \<and> ci_source_id a < ci_source_id b)))"

fun insert_item :: "task_contract \<Rightarrow> context_item \<Rightarrow> context_item list \<Rightarrow> context_item list" where
  "insert_item c x [] = [x]"
| "insert_item c x (y # ys) = (if before c y x then y # insert_item c x ys else x # y # ys)"

definition ordered_items :: "task_contract \<Rightarrow> context_item list \<Rightarrow> context_item list" where
  "ordered_items c items = foldr (insert_item c) items []"

definition item_cost :: "context_item \<Rightarrow> int" where
  "item_cost item = int (length (ci_content item)) + sum_list (map (\<lambda>(k, v). int (length k + length v)) (ci_metadata item))"

text \<open>The loop: what fits is kept, what does not is listed, and the rest is still tried.\<close>

fun pack :: "context_item list \<Rightarrow> int \<Rightarrow> context_item list \<times> context_item list \<times> string list \<Rightarrow> context_item list \<times> context_item list \<times> string list" where
  "pack [] remaining acc = acc"
| "pack (item # rest) remaining (trusted, untrusted, truncated) =
     (if remaining < item_cost item then pack rest remaining (trusted, untrusted, truncated @ [ci_source_id item])
      else pack rest (remaining - item_cost item)
        (if ci_trust item = UNTRUSTED_TRUST then (trusted, untrusted @ [item], truncated)
         else (trusted @ [item], untrusted, truncated)))"

definition context_package_of :: "crypto \<Rightarrow> context_engine \<Rightarrow> task_contract \<Rightarrow> (string \<times> string) list \<Rightarrow> working_state option
    \<Rightarrow> context_package res" where
  "context_package_of cr x c environment working =
     (case pack (ordered_items c (cx_items x)) (cx_maximum_chars x) ([], [], []) of (trusted, untrusted, truncated) \<Rightarrow>
      bnd (contract_digest cr c) (\<lambda>cd.
      Inr \<lparr>cp_contract_digest = cd, cp_environment_digest = environment_digest cr environment, cp_trusted_items = trusted,
        cp_untrusted_items = untrusted, cp_working_state = working, cp_truncated_source_ids = truncated\<rparr>))"

section \<open>What a package guarantees\<close>

definition total_cost :: "context_item list \<Rightarrow> int" where
  "total_cost items = sum_list (map item_cost items)"

lemma insert_item_set [simp]: "set (insert_item c x ys) = insert x (set ys)"
  by (induction ys) auto

lemma ordered_items_set [simp]: "set (ordered_items c items) = set items"
  unfolding ordered_items_def by (induction items) simp_all

lemma item_cost_nonneg: "0 \<le> item_cost item"
  unfolding item_cost_def by (intro add_nonneg_nonneg sum_list_nonneg) auto

text \<open>What the loop adds to its three lists, and what it spends.\<close>

lemma pack_result:
  assumes "pack items n (tru, untr, cuts) = (tru', untr', cuts')"
  shows "total_cost (tru' @ untr') \<le> max n 0 + total_cost (tru @ untr)
    \<and> (\<forall>x \<in> set tru'. x \<in> set tru \<or> x \<in> set items \<and> ci_trust x \<noteq> UNTRUSTED_TRUST)
    \<and> (\<forall>x \<in> set untr'. x \<in> set untr \<or> x \<in> set items \<and> ci_trust x = UNTRUSTED_TRUST)
    \<and> (\<forall>x \<in> set items. x \<in> set tru' \<or> x \<in> set untr' \<or> ci_source_id x \<in> set cuts')
    \<and> set tru \<subseteq> set tru' \<and> set untr \<subseteq> set untr' \<and> set cuts \<subseteq> set cuts'"
  using assms
proof (induction items arbitrary: n tru untr cuts)
  case (Cons item rest)
  show ?case
  proof (cases "n < item_cost item")
    case True
    with Cons.prems have "pack rest n (tru, untr, cuts @ [ci_source_id item]) = (tru', untr', cuts')" by simp
    from Cons.IH [OF this] show ?thesis by auto
  next
    case fits: False
    show ?thesis
    proof (cases "ci_trust item = UNTRUSTED_TRUST")
      case True
      with fits Cons.prems have "pack rest (n - item_cost item) (tru, untr @ [item], cuts) = (tru', untr', cuts')" by simp
      from Cons.IH [OF this] fits True item_cost_nonneg [of item] show ?thesis by (auto simp: total_cost_def)
    next
      case False
      with fits Cons.prems have "pack rest (n - item_cost item) (tru @ [item], untr, cuts) = (tru', untr', cuts')" by simp
      from Cons.IH [OF this] fits False item_cost_nonneg [of item] show ?thesis by (auto simp: total_cost_def)
    qed
  qed
qed simp

lemma trust_untrusted: "trust_provenance t = UNTRUSTED_RETRIEVAL \<longleftrightarrow> t = UNTRUSTED_TRUST"
  by (cases t) simp_all

lemma package_provenance_set: "set (package_provenance p) = (trust_provenance \<circ> ci_trust) ` set (package_items p)"
  by (simp add: package_provenance_def)

text \<open>A package keeps within the engine's character budget, never mixes labels between its two
  parts, drops an item only with its source listed, and its provenance names every label in scope:
  untrusted retrieval exactly when an untrusted item is in it.\<close>

theorem package_sound:
  assumes "context_package_of cr x c environment working = Inr p" "1 \<le> cx_maximum_chars x"
  shows "total_cost (package_items p) \<le> cx_maximum_chars x
    \<and> (\<forall>i \<in> set (cp_trusted_items p). i \<in> set (cx_items x) \<and> ci_trust i \<noteq> UNTRUSTED_TRUST)
    \<and> (\<forall>i \<in> set (cp_untrusted_items p). i \<in> set (cx_items x) \<and> ci_trust i = UNTRUSTED_TRUST)
    \<and> (\<forall>i \<in> set (cx_items x). i \<in> set (package_items p) \<or> ci_source_id i \<in> set (cp_truncated_source_ids p))
    \<and> set (package_provenance p) = (trust_provenance \<circ> ci_trust) ` set (package_items p)
    \<and> (UNTRUSTED_RETRIEVAL \<in> set (package_provenance p) \<longleftrightarrow> cp_untrusted_items p \<noteq> [])"
proof -
  obtain trusted untrusted truncated where r: "pack (ordered_items c (cx_items x)) (cx_maximum_chars x) ([], [], []) = (trusted, untrusted, truncated)"
    by (metis prod_cases3)
  with assms(1) have p: "cp_trusted_items p = trusted" "cp_untrusted_items p = untrusted" "cp_truncated_source_ids p = truncated"
    by (auto simp: context_package_of_def bnd_eq_Inr)
  note pr = pack_result [OF r, simplified]
  then have tr: "\<forall>i \<in> set trusted. i \<in> set (cx_items x) \<and> ci_trust i \<noteq> UNTRUSTED_TRUST"
    and un: "\<forall>i \<in> set untrusted. i \<in> set (cx_items x) \<and> ci_trust i = UNTRUSTED_TRUST" by auto
  have "UNTRUSTED_RETRIEVAL \<in> set (package_provenance p) \<longleftrightarrow> (\<exists>i \<in> set (package_items p). ci_trust i = UNTRUSTED_TRUST)"
    unfolding package_provenance_set image_iff comp_apply trust_untrusted [symmetric] by (simp only: eq_commute)
  also have "\<dots> \<longleftrightarrow> untrusted \<noteq> []"
    using tr un unfolding package_items_def p by (cases untrusted) auto
  finally have unt: "UNTRUSTED_RETRIEVAL \<in> set (package_provenance p) \<longleftrightarrow> untrusted \<noteq> []" .
  have "total_cost (package_items p) \<le> cx_maximum_chars x"
    using pr assms(2) unfolding package_items_def p by (simp add: total_cost_def)
  moreover have "\<forall>i \<in> set (cx_items x). i \<in> set (package_items p) \<or> ci_source_id i \<in> set truncated"
    using pr unfolding package_items_def p by auto
  ultimately show ?thesis
    using tr un unt package_provenance_set [of p] unfolding p by blast
qed

definition sample_item :: "string \<Rightarrow> context_trust \<Rightarrow> context_item" where
  "sample_item s t = \<lparr>ci_source_id = s, ci_kind = ''doc'', ci_content = ''abc'', ci_trust = t, ci_metadata = [], ci_captured_at = utc 0\<rparr>"

definition sample_engine :: context_engine where
  "sample_engine = \<lparr>cx_maximum_chars = 7, cx_items = [sample_item ''web'' UNTRUSTED_TRUST, sample_item ''repo'' TRUSTED_REPOSITORY_TRUST,
     sample_item ''mail'' USER_TRUST]\<rparr>"

definition sample_goal :: task_contract where
  "sample_goal = \<lparr>tc_goal = ''Edit abc'', tc_success_conditions = [''s''], tc_allowed_actions = [],
     tc_forbidden_actions = [], tc_required_verifiers = [], tc_success_condition_bindings = [],
     tc_action_safety_checks = [], tc_global_completion_guards = [], tc_require_argument_provenance = False,
     tc_task_kind = [], tc_risk_class = [], tc_probe_policy_digest = [], tc_profile_version = [],
     tc_profile_digest = [], tc_maximum_iterations = 3, tc_maximum_tool_calls = 5, tc_expires_at = None,
     tc_contract_id = ''k'', tc_version = 1\<rparr>"

theorem package_sound_witness:
  "\<exists>p. context_package_of toy_crypto sample_engine sample_goal [] None = Inr p \<and> cp_truncated_source_ids p = [''web'']
     \<and> total_cost (package_items p) \<le> 7"
proof -
  have "case context_package_of toy_crypto sample_engine sample_goal [] None of Inr p \<Rightarrow> cp_truncated_source_ids p = [''web''] | Inl _ \<Rightarrow> False"
    by code_simp
  then obtain p where p: "context_package_of toy_crypto sample_engine sample_goal [] None = Inr p" "cp_truncated_source_ids p = [''web'']"
    by (auto split: sum.splits)
  from package_sound [OF p(1)] have "total_cost (package_items p) \<le> 7" by (simp add: sample_engine_def)
  with p show ?thesis by blast
qed

end
