(* ===== verification/Loop_State.thy ===== *)
theory Loop_State
  imports Effects Context Probes Completion Policy Run_State Ledger Scheduler Graph_Compile
begin

text \<open>
  The controller \<open>VerifiedLoop\<close> of \<open>src/vloop/controller.py\<close>, first part: the collaborators it is
  built from, the state it mutates, and its accesses to the ledger, the graph scheduler and the
  checkpoint store. Collaborators outside \<open>src/\<close> are functions on a world of type \<open>'w\<close>; \<open>'a\<close> and
  \<open>'c\<close> are the gate's stores, \<open>'m\<close> the memory candidates of the deployment's producer.
\<close>

section \<open>Collaborators\<close>

record workspace_snapshot_ref =
  wr_schema_version :: string
  wr_workspace_snapshot_digest :: string
  wr_exclusion_policy_digest :: string

record evaluator_plan =
  ep_check_name :: string
  ep_receipt_type :: string
  ep_evaluator_image_digest :: string
  ep_test_suite_digest :: string

record evaluation_call =
  ev_run_id :: string
  ev_contract_digest :: string
  ev_intent_digest :: string
  ev_receipt_type :: string
  ev_artifact_digests :: "(string \<times> string) list"
  ev_workspace_snapshot_digest :: string
  ev_evaluator_image_digest :: string
  ev_test_suite_digest :: string
  ev_graph_digest :: string
  ev_graph_node_id :: string
  ev_graph_node_instance_id :: string

text \<open>A protected evaluator answers with a mapping.\<close>

record 'w orchestrator =
  or_plans :: "evaluator_plan list"
  or_snapshot :: "task_contract \<Rightarrow> action_intent \<Rightarrow> observation \<Rightarrow> 'w \<Rightarrow> workspace_snapshot_ref res \<times> 'w"
  or_evaluate :: "evaluator_plan \<Rightarrow> evaluation_call \<Rightarrow> 'w \<Rightarrow> pydict res \<times> 'w"

record prepare_call =
  pq_run_id :: string
  pq_contract_digest :: string
  pq_iteration :: int
  pq_operation_id :: string
  pq_graph_digest :: string
  pq_graph_node_id :: string

text \<open>
  \<open>getattr\<close>-optional methods of the executor and of the planner are options. The hybrid verifier is
  its list of checks at a time, the final verifier a function of what the controller passes.
\<close>

record ('a, 'c, 'w, 'm) loop =
  lp_contract :: task_contract
  lp_contract_digest :: string
  lp_run_id :: string
  lp_manifest :: graph_manifest
  lp_scheduler :: scheduler
  lp_complete :: "node_completion \<Rightarrow> 'w \<Rightarrow> node_completion res \<times> 'w"
  lp_unsafe :: bool
  lp_clock :: "'w \<Rightarrow> int \<times> 'w"
  lp_fresh :: "'w \<Rightarrow> string \<times> 'w"
  lp_propose :: "task_contract \<Rightarrow> pydict list \<Rightarrow> 'w \<Rightarrow> action_intent res \<times> 'w"
  lp_propose_with_context :: "(task_contract \<Rightarrow> pydict list \<Rightarrow> context_package \<Rightarrow> 'w \<Rightarrow> action_intent res \<times> 'w) option"
  lp_context :: "(task_contract \<Rightarrow> pydict list \<Rightarrow> 'w \<Rightarrow> context_package res \<times> 'w) option"
  lp_gate :: gate
  lp_approval_consume :: "'a \<Rightarrow> approval_key \<Rightarrow> int \<Rightarrow> bool \<times> 'a"
  lp_counter_consume :: "'c \<Rightarrow> limits \<Rightarrow> bool \<times> 'c"
  lp_executor_id :: string
  lp_bind_run :: "(string \<Rightarrow> string \<Rightarrow> 'w \<Rightarrow> unit res \<times> 'w) option"
  lp_prepare :: "(action_intent \<Rightarrow> prepare_call \<Rightarrow> 'w \<Rightarrow> prepared_execution res \<times> 'w) option"
  lp_execute :: "action_intent \<Rightarrow> capability \<Rightarrow> 'w \<Rightarrow> observation res \<times> 'w"
  lp_execute_prepared :: "(action_intent \<Rightarrow> capability \<Rightarrow> prepared_execution \<Rightarrow> 'w \<Rightarrow> observation res \<times> 'w) option"
  lp_checks :: "int \<Rightarrow> verifier list"
  lp_final :: "(task_contract \<Rightarrow> verification_report \<Rightarrow> pydict list \<Rightarrow> evidence_snapshot \<Rightarrow> check_result res) option"
  lp_probes :: "probe_runner option"
  lp_shadow :: "(task_contract \<Rightarrow> action_intent \<Rightarrow> observation \<Rightarrow> verification_report \<Rightarrow> 'w \<Rightarrow> (neural_diagnostic \<times> pydict) res \<times> 'w) option"
  lp_producer :: "(task_contract \<Rightarrow> pydict list \<Rightarrow> task_completion_report \<Rightarrow> check_result \<Rightarrow> string list \<Rightarrow> 'w \<Rightarrow> 'm option res \<times> 'w) option"
  lp_committer :: "('m \<Rightarrow> task_completion_report \<Rightarrow> check_result \<Rightarrow> string \<Rightarrow> string list \<Rightarrow> ledger \<times> 'w \<Rightarrow> (string \<times> string) res \<times> ledger \<times> 'w) option"
  lp_store :: bool
  lp_reconciler :: "(string \<Rightarrow> task_contract \<Rightarrow> action_intent \<Rightarrow> string \<Rightarrow> prepared_execution \<Rightarrow> 'w \<Rightarrow> observation res \<times> 'w) option"
  lp_evaluation :: "'w orchestrator option"

definition loop_graph_digest :: "crypto \<Rightarrow> ('a, 'c, 'w, 'm) loop \<Rightarrow> string" where
  "loop_graph_digest cr lp = graph_digest cr (lp_manifest lp)"

section \<open>State\<close>

text \<open>
  The attributes of the object (checkpoint, counters, history, failures, evidence) and the stores
  behind its collaborators. \<open>ls_effects\<close> is a ghost: each call of the executor with its iteration and
  the checkpoint table and graph database at that moment.
\<close>

record effect_call =
  fc_iteration :: int
  fc_intent :: action_intent
  fc_capability :: capability
  fc_prepared :: prepared_execution
  fc_runs :: run_db
  fc_sched :: sched_db

record ('a, 'c, 'w) loop_state =
  ls_checkpoint :: "checkpoint option"
  ls_tool_calls :: int
  ls_history :: "pydict list"
  ls_seen :: "(string \<times> string) list"
  ls_evidence :: evidence_snapshot
  ls_runs :: run_db
  ls_ledger :: ledger
  ls_sched :: sched_db
  ls_gate :: "'a \<times> 'c"
  ls_world :: 'w
  ls_effects :: "effect_call list"

type_synonym ('a, 'c, 'w, 'x) loop_act = "(('a, 'c, 'w) loop_state, 'x) act"

section \<open>Construction\<close>

text \<open>\<open>VerifiedLoop.__init__\<close>: the graph is compiled from the contract with the orchestrator's receipts;
  completions come from a fabric in the explicit development mode only.\<close>

definition planned_receipts :: "('a, 'c, 'w, 'm) loop \<Rightarrow> (string \<times> string) list" where
  "planned_receipts lp = (case lp_evaluation lp of None \<Rightarrow> []
     | Some x \<Rightarrow> fold (\<lambda>p. AList.update (ep_check_name p) (ep_receipt_type p)) (or_plans x) [])"

definition manifest_roles :: "graph_manifest \<Rightarrow> (string \<times> string) list" where
  "manifest_roles g = fold (\<lambda>n. AList.update (nd_id n)
     (case dget (nd_metadata n) ''producer_role'' of None \<Rightarrow> ''controller'' | Some r \<Rightarrow> r)) (gm_nodes g) []"

definition fabric_client :: "crypto \<Rightarrow> ('w \<Rightarrow> int \<times> 'w) \<Rightarrow> ('w \<Rightarrow> string \<times> 'w) \<Rightarrow> fabric
    \<Rightarrow> node_completion \<Rightarrow> 'w \<Rightarrow> node_completion res \<times> 'w" where
  "fabric_client cr clock fresh fb req w =
     (case clock w of (now, w1) \<Rightarrow> case fresh w1 of (nonce, w2) \<Rightarrow> (fabric_complete cr fb req now (minutes 5) nonce, w2))"

definition loop_init :: "crypto \<Rightarrow> ('a, 'c, 'w, 'm) loop \<Rightarrow> scheduler option
    \<Rightarrow> (node_completion \<Rightarrow> 'w \<Rightarrow> node_completion res \<times> 'w) option \<Rightarrow> completion_verifier option
    \<Rightarrow> int \<Rightarrow> (string \<Rightarrow> string) \<Rightarrow> ('a, 'c, 'w, 'm) loop res" where
  "loop_init cr lp sched client verifier issued keygen =
     bnd (graph_compile cr (lp_contract lp) (planned_receipts lp)) (\<lambda>g.
     bnd (contract_digest cr (lp_contract lp)) (\<lambda>cd.
     bnd (if lp_unsafe lp
          then if \<not> Option.is_none client \<or> \<not> Option.is_none verifier
            then Inl (ValueError, ''development completion mode cannot be combined with external completion trust'')
            else bnd (fabric_init cr (graph_digest cr g) (manifest_roles g) issued keygen) (\<lambda>fb.
              Inr (Some (fabric_client cr (lp_clock lp) (lp_fresh lp) fb), Some (fb_verifier fb)))
          else Inr (client, verifier)) (\<lambda>(client, verifier).
     bnd (case sched of Some sc \<Rightarrow> Inr sc
          | None \<Rightarrow> if Option.is_none client \<or> Option.is_none verifier
              then Inl (RuntimeError, ''evidence-native execution requires an external completion client and verifier; '' @
                ''local tests must explicitly opt in to unsafe development completions'')
              else scheduler_init g [] verifier) (\<lambda>sc.
     case client of None \<Rightarrow> Inl (RuntimeError, ''graph scheduler requires an external node-completion client'')
     | Some k \<Rightarrow> Inr (lp\<lparr>lp_contract_digest := cd, lp_manifest := g, lp_scheduler := sc, lp_complete := k\<rparr>)))))"

definition loop_start :: "('a, 'c, 'w, 'm) loop \<Rightarrow> run_db \<Rightarrow> ledger \<Rightarrow> sched_db \<Rightarrow> 'a \<times> 'c \<Rightarrow> 'w \<Rightarrow> ('a, 'c, 'w) loop_state" where
  "loop_start lp runs led sched stores w = \<lparr>ls_checkpoint = None, ls_tool_calls = 0, ls_history = [], ls_seen = [],
     ls_evidence = \<lparr>es_run_id = lp_run_id lp, es_actions = []\<rparr>, ls_runs = runs, ls_ledger = led, ls_sched = sched,
     ls_gate = stores, ls_world = w, ls_effects = []\<rparr>"

section \<open>Accesses\<close>

definition on_world :: "('w \<Rightarrow> 'x res \<times> 'w) \<Rightarrow> ('a, 'c, 'w, 'x) loop_act" where
  "on_world op = zoom ls_world (\<lambda>w s. s\<lparr>ls_world := w\<rparr>) op"

definition tick :: "('a, 'c, 'w, 'm) loop \<Rightarrow> ('a, 'c, 'w, int) loop_act" where
  "tick lp = on_world (\<lambda>w. case lp_clock lp w of (t, w') \<Rightarrow> (Inr t, w'))"

definition fresh_id :: "('a, 'c, 'w, 'm) loop \<Rightarrow> ('a, 'c, 'w, string) loop_act" where
  "fresh_id lp = on_world (\<lambda>w. case lp_fresh lp w of (i, w') \<Rightarrow> (Inr i, w'))"

definition log_event :: "crypto \<Rightarrow> ('a, 'c, 'w, 'm) loop \<Rightarrow> string \<Rightarrow> pydict \<Rightarrow> ('a, 'c, 'w, string) loop_act" where
  "log_event cr lp ty payload = andthen (tick lp) (\<lambda>now.
     zoom ls_ledger (\<lambda>l s. s\<lparr>ls_ledger := l\<rparr>) (ledger_append cr ty ((''run_id'', PStr (lp_run_id lp)) # payload) now))"

definition graph_state :: "crypto \<Rightarrow> ('a, 'c, 'w, 'm) loop \<Rightarrow> int \<Rightarrow> ('a, 'c, 'w, transition_state) loop_act" where
  "graph_state cr lp i = asks (\<lambda>s. load_state cr (lp_scheduler lp) (ls_sched s) (lp_run_id lp) i)"

definition run_events :: "('a, 'c, 'w, 'm) loop \<Rightarrow> ('a, 'c, 'w, causal_event list) loop_act" where
  "run_events lp = asks (\<lambda>s. store_events (db_events (ls_sched s)) (lp_run_id lp))"

text \<open>An operation of the scheduler, with a fresh event id and the time.\<close>

definition on_sched :: "('a, 'c, 'w, 'm) loop \<Rightarrow> (string \<Rightarrow> int \<Rightarrow> 'x tx) \<Rightarrow> ('a, 'c, 'w, 'x) loop_act" where
  "on_sched lp op = andthen (fresh_id lp) (\<lambda>eid. andthen (tick lp) (\<lambda>now.
     zoom ls_sched (\<lambda>d s. s\<lparr>ls_sched := d\<rparr>) (op eid now)))"

section \<open>Checkpoints\<close>

text \<open>\<open>_save_checkpoint\<close>, its keyword arguments as a record; \<open>sorted\<close> of pairs is by both components.\<close>

record save_args =
  va_phase :: run_phase
  va_next_iteration :: int
  va_pending_intent :: "action_intent option"
  va_executor_id :: string
  va_prepared :: "prepared_execution option"
  va_reconciled :: "observation option"
  va_terminal_decision :: "loop_decision option"
  va_terminal_reason :: "string option"

definition save_args_of :: "run_phase \<Rightarrow> int \<Rightarrow> save_args" where
  "save_args_of phase next_iteration = \<lparr>va_phase = phase, va_next_iteration = next_iteration, va_pending_intent = None,
     va_executor_id = [], va_prepared = None, va_reconciled = None, va_terminal_decision = None, va_terminal_reason = None\<rparr>"

definition sorted_pairs :: "(string \<times> string) list \<Rightarrow> (string \<times> string) list" where
  "sorted_pairs ps = sort_key fst (sort_key snd ps)"

definition checkpoint_of :: "crypto \<Rightarrow> ('a, 'c, 'w, 'm) loop \<Rightarrow> save_args \<Rightarrow> checkpoint \<Rightarrow> ('a, 'c, 'w) loop_state \<Rightarrow> checkpoint" where
  "checkpoint_of cr lp a old s = \<lparr>ck_run_id = lp_run_id lp, ck_contract_digest = lp_contract_digest lp, ck_phase = va_phase a,
     ck_next_iteration = va_next_iteration a, ck_tool_calls = ls_tool_calls s, ck_history = ls_history s,
     ck_seen_failures = sorted_pairs (ls_seen s), ck_evidence = ls_evidence s, ck_graph_digest = loop_graph_digest cr lp,
     ck_pending_intent = va_pending_intent a, ck_executor_id = va_executor_id a, ck_prepared = va_prepared a,
     ck_reconciled = va_reconciled a, ck_terminal_decision = map_option loop_decision_value (va_terminal_decision a),
     ck_terminal_reason = va_terminal_reason a, ck_revision = ck_revision old, ck_updated_at = utc 0\<rparr>"

definition save_to_store :: "crypto \<Rightarrow> ('a, 'c, 'w, 'm) loop \<Rightarrow> checkpoint \<Rightarrow> ('a, 'c, 'w, unit) loop_act" where
  "save_to_store cr lp c = andthen (liftr (checkpoint_init cr c)) (\<lambda>c. andthen (tick lp) (\<lambda>now.
     andthen (zoom ls_runs (\<lambda>d s. s\<lparr>ls_runs := d\<rparr>) (\<lambda>d. run_save cr d (c, now))) (\<lambda>saved.
     modify (\<lambda>s. s\<lparr>ls_checkpoint := Some saved\<rparr>))))"

definition save_checkpoint :: "crypto \<Rightarrow> ('a, 'c, 'w, 'm) loop \<Rightarrow> save_args \<Rightarrow> ('a, 'c, 'w, unit) loop_act" where
  "save_checkpoint cr lp a =
     (if \<not> lp_store lp then ret ()
      else andthen (gets ls_checkpoint) (\<lambda>old. case old of
          None \<Rightarrow> raise RuntimeError ''run checkpoint was not initialized''
        | Some c \<Rightarrow> andthen (gets (checkpoint_of cr lp a c)) (save_to_store cr lp)))"

definition checkpoint_pending_authorization :: "crypto \<Rightarrow> ('a, 'c, 'w, 'm) loop \<Rightarrow> int \<Rightarrow> action_intent \<Rightarrow> ('a, 'c, 'w, unit) loop_act" where
  "checkpoint_pending_authorization cr lp i intent = save_checkpoint cr lp
     ((save_args_of PENDING_AUTHORIZATION i)\<lparr>va_pending_intent := Some intent, va_executor_id := lp_executor_id lp\<rparr>)"

definition checkpoint_pending_effect :: "crypto \<Rightarrow> ('a, 'c, 'w, 'm) loop \<Rightarrow> int \<Rightarrow> action_intent \<Rightarrow> prepared_execution
    \<Rightarrow> ('a, 'c, 'w, unit) loop_act" where
  "checkpoint_pending_effect cr lp i intent p = save_checkpoint cr lp
     ((save_args_of PENDING_EFFECT i)\<lparr>va_pending_intent := Some intent, va_executor_id := lp_executor_id lp, va_prepared := Some p\<rparr>)"

definition checkpoint_ready :: "crypto \<Rightarrow> ('a, 'c, 'w, 'm) loop \<Rightarrow> int \<Rightarrow> ('a, 'c, 'w, unit) loop_act" where
  "checkpoint_ready cr lp i = save_checkpoint cr lp (save_args_of READY i)"

definition terminal :: "crypto \<Rightarrow> ('a, 'c, 'w, 'm) loop \<Rightarrow> loop_decision \<Rightarrow> string \<Rightarrow> ('a, 'c, 'w, loop_decision) loop_act" where
  "terminal cr lp decision reason =
     andthen (gets (\<lambda>s. case ls_checkpoint s of None \<Rightarrow> 1 | Some c \<Rightarrow> ck_next_iteration c)) (\<lambda>k.
     andthen (save_checkpoint cr lp ((save_args_of TERMINAL k)\<lparr>va_terminal_decision := Some decision, va_terminal_reason := Some reason\<rparr>)) (\<lambda>_.
     andthen (gets ls_tool_calls) (\<lambda>calls. andthen (tick lp) (\<lambda>now.
     andthen (log_event cr lp ''run.terminal'' [(''decision'', PStr (loop_decision_value decision)), (''reason'', PStr reason),
       (''tool_calls'', PInt calls), (''occurred_at'', PStr (isoformat (utc now)))]) (\<lambda>_. ret decision)))))"

definition await_approval :: "crypto \<Rightarrow> ('a, 'c, 'w, 'm) loop \<Rightarrow> int \<Rightarrow> action_intent \<Rightarrow> string \<Rightarrow> ('a, 'c, 'w, loop_decision) loop_act" where
  "await_approval cr lp i intent reason =
     andthen (save_checkpoint cr lp ((save_args_of AWAITING_APPROVAL i)\<lparr>va_pending_intent := Some intent,
       va_executor_id := lp_executor_id lp\<rparr>)) (\<lambda>_.
     andthen (log_event cr lp ''run.awaiting-approval'' [(''iteration'', PInt i), (''intent_digest'', PStr (intent_digest cr intent)),
       (''executor_id'', PStr (lp_executor_id lp)), (''reason'', PStr reason)]) (\<lambda>_. ret WAITING))"

text \<open>\<open>self._checkpoint = checkpoint\<close> and the attributes read from it.\<close>

definition restore_from :: "checkpoint \<Rightarrow> ('a, 'c, 'w, unit) loop_act" where
  "restore_from c = modify (\<lambda>s. s\<lparr>ls_checkpoint := Some c, ls_tool_calls := ck_tool_calls c, ls_history := ck_history c,
     ls_seen := remdups (ck_seen_failures c), ls_evidence := ck_evidence c\<rparr>)"

definition load_checkpoint :: "crypto \<Rightarrow> ('a, 'c, 'w, 'm) loop \<Rightarrow> ('a, 'c, 'w, checkpoint option) loop_act" where
  "load_checkpoint cr lp = asks (\<lambda>s. run_load cr (ls_runs s) (lp_run_id lp))"

definition pending_digest :: "crypto \<Rightarrow> checkpoint \<Rightarrow> string" where
  "pending_digest cr c = (case ck_pending_intent c of None \<Rightarrow> [] | Some i \<Rightarrow> intent_digest cr i)"

definition log_started :: "crypto \<Rightarrow> ('a, 'c, 'w, 'm) loop \<Rightarrow> ('a, 'c, 'w, unit) loop_act" where
  "log_started cr lp = andthen (log_event cr lp ''run.started'' [(''contract_digest'', PStr (lp_contract_digest lp)),
     (''graph_digest'', PStr (loop_graph_digest cr lp))]) (\<lambda>_. ret ())"

definition log_blocked :: "crypto \<Rightarrow> ('a, 'c, 'w, 'm) loop \<Rightarrow> string \<Rightarrow> checkpoint \<Rightarrow> ('a, 'c, 'w, loop_decision option) loop_act" where
  "log_blocked cr lp reason c = andthen (log_event cr lp ''run.resume.blocked'' [(''reason'', PStr reason),
     (''intent_digest'', PStr (pending_digest cr c))]) (\<lambda>_. ret (Some WAITING))"

definition loop_decision_of :: "string \<Rightarrow> loop_decision res" where
  "loop_decision_of v = (case List.find (\<lambda>d. loop_decision_value d = v) [ACCEPT, REPAIR, REPLAN, ESCALATE, WAITING, STOP] of
     None \<Rightarrow> Inl (ValueError, ''persisted terminal decision is invalid'') | Some d \<Rightarrow> Inr d)"

definition first_checkpoint :: "crypto \<Rightarrow> ('a, 'c, 'w, 'm) loop \<Rightarrow> ('a, 'c, 'w, unit) loop_act" where
  "first_checkpoint cr lp = andthen (gets (\<lambda>s. \<lparr>ck_run_id = lp_run_id lp, ck_contract_digest = lp_contract_digest lp, ck_phase = READY,
     ck_next_iteration = 1, ck_tool_calls = 0, ck_history = [], ck_seen_failures = [], ck_evidence = ls_evidence s,
     ck_graph_digest = loop_graph_digest cr lp, ck_pending_intent = None, ck_executor_id = [], ck_prepared = None,
     ck_reconciled = None, ck_terminal_decision = None, ck_terminal_reason = None, ck_revision = 0, ck_updated_at = utc 0\<rparr>))
     (save_to_store cr lp)"

text \<open>\<open>_restore_or_start\<close> once the checkpoint was found: by its phase.\<close>

definition resume_checkpoint :: "crypto \<Rightarrow> ('a, 'c, 'w, 'm) loop \<Rightarrow> checkpoint \<Rightarrow> ('a, 'c, 'w, loop_decision option) loop_act" where
  "resume_checkpoint cr lp c =
     (if ck_phase c = TERMINAL
      then andthen (liftr (loop_decision_of (text_or_empty (ck_terminal_decision c)))) (\<lambda>d. ret (Some d))
      else if ck_phase c = PENDING_EFFECT
      then andthen (save_checkpoint cr lp ((save_args_of RECONCILIATION_REQUIRED (ck_next_iteration c))
             \<lparr>va_pending_intent := ck_pending_intent c, va_executor_id := ck_executor_id c, va_prepared := ck_prepared c\<rparr>)) (\<lambda>_.
           log_blocked cr lp ''pending-effect-requires-reconciliation'' c)
      else if ck_phase c = RECONCILIATION_REQUIRED then log_blocked cr lp ''reconciliation-required'' c
      else andthen (log_event cr lp ''run.resumed'' [(''next_iteration'', PInt (ck_next_iteration c)),
             (''phase'', PStr (run_phase_value (ck_phase c)))]) (\<lambda>_. ret None))"

definition restore_or_start :: "crypto \<Rightarrow> ('a, 'c, 'w, 'm) loop \<Rightarrow> ('a, 'c, 'w, loop_decision option) loop_act" where
  "restore_or_start cr lp =
     (if \<not> lp_store lp then andthen (log_started cr lp) (\<lambda>_. ret None)
      else andthen (load_checkpoint cr lp) (\<lambda>found. case found of
        None \<Rightarrow> andthen (first_checkpoint cr lp) (\<lambda>_. andthen (log_started cr lp) (\<lambda>_. ret None))
      | Some c \<Rightarrow>
          if ck_contract_digest c \<noteq> lp_contract_digest lp
          then raise ValueError ''persisted run state belongs to a different task contract''
          else if ck_graph_digest c \<noteq> [] \<and> ck_graph_digest c \<noteq> loop_graph_digest cr lp
          then raise ValueError ''persisted run state belongs to a different control graph''
          else if tc_maximum_iterations (lp_contract lp) + 1 < ck_next_iteration c
          then raise ValueError ''persisted run state exceeds the contract iteration budget''
          else andthen (restore_from c) (\<lambda>_. resume_checkpoint cr lp c)))"

end
