(* ===== verification/Loop_Graph.thy ===== *)
theory Loop_Graph
  imports Loop_State
begin

text \<open>
  The controller's use of the control graph (\<open>src/vloop/controller.py\<close>): each step of an iteration
  is a node that the scheduler must enable, completed by a proof of its owner. A step whose node is
  already complete is skipped.
\<close>

section \<open>Advancing, reserving and completing nodes\<close>

definition last_event :: "(causal_event \<Rightarrow> bool) \<Rightarrow> causal_event list \<Rightarrow> causal_event option" where
  "last_event P es = List.find P (rev es)"

definition last_parent :: "causal_event list \<Rightarrow> string list" where
  "last_parent es = (if es = [] then [] else [ce_event_id (last es)])"

definition step_args :: "('a, 'c, 'w, 'm) loop \<Rightarrow> int \<Rightarrow> string \<Rightarrow> string \<Rightarrow> pydict \<Rightarrow> string list \<Rightarrow> sched_args" where
  "step_args lp i node ty payload parents = \<lparr>sa_run_id = lp_run_id lp, sa_iteration = i, sa_node = node, sa_event_type = ty,
     sa_payload = payload, sa_causal_parents = parents, sa_input_artifacts = [], sa_output_artifacts = [],
     sa_authorization_ref = [], sa_receipt_refs = []\<rparr>"

definition graph_advance :: "crypto \<Rightarrow> ('a, 'c, 'w, 'm) loop \<Rightarrow> int \<Rightarrow> string \<Rightarrow> string \<Rightarrow> pydict \<Rightarrow> string
    \<Rightarrow> ('a, 'c, 'w, causal_event option) loop_act" where
  "graph_advance cr lp i node ty payload authorization =
     andthen (graph_state cr lp i) (\<lambda>st.
       if node \<in> ts_completed st
       then andthen (run_events lp) (\<lambda>es. ret (last_event (\<lambda>e. ce_template_node_id e = node
              \<and> ce_node_instance_id e \<noteq> [] \<and> ce_run_id e = lp_run_id lp) es))
       else andthen (run_events lp) (\<lambda>es.
         andthen (on_sched lp (sched_advance cr (lp_scheduler lp)
             ((step_args lp i node ty payload (last_parent es))\<lparr>sa_authorization_ref := authorization\<rparr>) None))
           (\<lambda>(e, _). ret (Some e))))"

definition graph_reserve :: "crypto \<Rightarrow> ('a, 'c, 'w, 'm) loop \<Rightarrow> int \<Rightarrow> string
    \<Rightarrow> ('a, 'c, 'w, causal_event \<times> string \<times> transition_state) loop_act" where
  "graph_reserve cr lp i node = andthen (run_events lp) (\<lambda>es.
     on_sched lp (sched_reserve cr (lp_scheduler lp) (step_args lp i node ''node.started'' [] (last_parent es))))"

definition as_digest :: "crypto \<Rightarrow> string \<Rightarrow> string" where
  "as_digest cr v = (if sha256_shape v then v else digest cr (PDict [(''artifact_reference'', PStr v)]))"

text \<open>The keyword arguments of \<open>_graph_complete\<close>.\<close>

record complete_args =
  ca_artifact_digest :: string
  ca_result :: completion_result
  ca_facts :: "(string \<times> string) list"
  ca_input_artifacts :: "(string \<times> string) list"
  ca_authority_refs :: "string list"
  ca_evidence_refs :: "string list"

definition completing :: "string \<Rightarrow> (string \<times> string) list \<Rightarrow> complete_args" where
  "completing artifact facts = \<lparr>ca_artifact_digest = artifact, ca_result = SUCCEEDED, ca_facts = facts, ca_input_artifacts = [],
     ca_authority_refs = [], ca_evidence_refs = []\<rparr>"

text \<open>What the client is asked to attest; the producer's fields are its own.\<close>

definition completion_request :: "crypto \<Rightarrow> ('a, 'c, 'w, 'm) loop \<Rightarrow> string \<Rightarrow> string \<Rightarrow> string \<Rightarrow> complete_args \<Rightarrow> node_completion" where
  "completion_request cr lp policy node inst a = \<lparr>nc_graph_digest = loop_graph_digest cr lp,
     nc_contract_digest = lp_contract_digest lp, nc_run_id = lp_run_id lp, nc_template_node_id = node,
     nc_node_instance_id = inst, nc_producer_identity = [], nc_producer_role = [],
     nc_artifact_digest = as_digest cr (ca_artifact_digest a), nc_validator_policy_digest = policy,
     nc_result = ca_result a, nc_issued_at = utc 0, nc_expires_at = utc 0, nc_nonce = [],
     nc_input_artifact_digests = map (\<lambda>(k, v). (k, as_digest cr v)) (ca_input_artifacts a),
     nc_facts = ca_facts a, nc_authority_refs = ca_authority_refs a, nc_evidence_refs = ca_evidence_refs a,
     nc_transparency_log_proof = [], nc_signature = []\<rparr>"

definition complete_reserved :: "crypto \<Rightarrow> ('a, 'c, 'w, 'm) loop \<Rightarrow> int \<Rightarrow> string \<Rightarrow> complete_args
    \<Rightarrow> causal_event \<times> string \<times> transition_state \<Rightarrow> ('a, 'c, 'w, causal_event option) loop_act" where
  "complete_reserved cr lp i node a = (\<lambda>(reserved, inst, _).
     case sc_verifier (lp_scheduler lp) of
       None \<Rightarrow> raise RuntimeError ''evidence-native scheduler has no completion verifier''
     | Some v \<Rightarrow> andthen (on_world (lp_complete lp (completion_request cr lp (op_policy_digest (cv_ownership v)) node inst a))) (\<lambda>c.
         andthen (on_sched lp (sched_complete cr (lp_scheduler lp)
             (step_args lp i node ''node.completed'' [] [ce_event_id reserved]) c)) (\<lambda>(e, _). ret (Some e))))"

definition graph_complete :: "crypto \<Rightarrow> ('a, 'c, 'w, 'm) loop \<Rightarrow> int \<Rightarrow> string \<Rightarrow> complete_args
    \<Rightarrow> (causal_event \<times> string \<times> transition_state) option \<Rightarrow> ('a, 'c, 'w, causal_event option) loop_act" where
  "graph_complete cr lp i node a reservation =
     andthen (graph_state cr lp i) (\<lambda>st.
       if node \<in> ts_completed st
       then andthen (run_events lp) (\<lambda>es. ret (last_event (\<lambda>e. ce_template_node_id e = node \<and> ce_iteration e = i) es))
       else andthen (case reservation of Some r \<Rightarrow> ret r | None \<Rightarrow> graph_reserve cr lp i node)
              (complete_reserved cr lp i node a))"

definition graph_node_token :: "string \<Rightarrow> string" where
  "graph_node_token v = node_token v"

text \<open>\<open>str(event.payload.get("completion_digest", ""))\<close>.\<close>

definition completion_ref :: "causal_event \<Rightarrow> string" where
  "completion_ref e = py_str (ddef (ce_payload e) ''completion_digest'' (PStr []))"

section \<open>The start of an iteration and the authority of an action\<close>

definition graph_begin_iteration :: "crypto \<Rightarrow> ('a, 'c, 'w, 'm) loop \<Rightarrow> int \<Rightarrow> ('a, 'c, 'w, unit) loop_act" where
  "graph_begin_iteration cr lp i =
     andthen (graph_state cr lp i) (\<lambda>st.
       whenever (ts_completed st = {}) (
         andthen (graph_advance cr lp i ''task.contract'' ''task.bound'' [(''contract_digest'', PStr (lp_contract_digest lp))] []) (\<lambda>_.
         andthen (graph_complete cr lp i ''principal.contract'' (completing (lp_contract_digest lp) [(''bound'', ''true'')]) None) (\<lambda>_.
         andthen (graph_advance cr lp i ''snapshot.request'' ''snapshot.requested'' [] []) (\<lambda>_. ret ())))))"

definition rule_matches :: "action_intent \<Rightarrow> action_rule \<Rightarrow> bool" where
  "rule_matches intent rule \<longleftrightarrow>
     (let prefix = (case rstrip_chr (CHR ''/'') (rule_target_prefix rule) of [] \<Rightarrow> ''/'' | p \<Rightarrow> p) in
      rule_tool rule = in_tool intent \<and> rule_effect rule = in_effect intent
      \<and> (prefix = ''/'' \<or> in_target intent = prefix \<or> startswith (in_target intent) (prefix @ ''/'')))"

fun first_match :: "action_intent \<Rightarrow> action_rule list \<Rightarrow> nat \<Rightarrow> nat res" where
  "first_match intent [] k = Inl (PolicyDenied, ''no action rule matches the proposed intent'')"
| "first_match intent (r # rs) k = (if rule_matches intent r then Inr k else first_match intent rs (k + 1))"

definition matching_action_rule_index :: "task_contract \<Rightarrow> action_intent \<Rightarrow> nat res" where
  "matching_action_rule_index c intent = first_match intent (tc_allowed_actions c) 0"

definition dynamic_approval_required :: "action_intent \<Rightarrow> action_rule \<Rightarrow> bool" where
  "dynamic_approval_required intent rule \<longleftrightarrow> rule_approval_required rule
     \<or> effect_value (in_effect intent) \<in> {''delete'', ''publish''}
     \<or> list_ex (\<lambda>v. v \<in> {UNTRUSTED_RETRIEVAL, TOOL_OUTPUT}) (in_provenance intent)
       \<and> effect_value (in_effect intent) \<in> {''write'', ''execute'', ''network'', ''delete'', ''publish''}"

definition graph_authorise_action_rule :: "crypto \<Rightarrow> ('a, 'c, 'w, 'm) loop \<Rightarrow> int \<Rightarrow> action_intent \<Rightarrow> ('a, 'c, 'w, unit) loop_act" where
  "graph_authorise_action_rule cr lp i intent =
     andthen (liftr (matching_action_rule_index (lp_contract lp) intent)) (\<lambda>k.
     let d = intent_digest cr intent; need = dynamic_approval_required intent (tc_allowed_actions (lp_contract lp) ! k) in
     andthen (graph_complete cr lp i (idx ''action.rule.'' k) (completing d [(''rule_index'', dec_nat k)]) None) (\<lambda>_.
     andthen (graph_advance cr lp i ''join.action.rule.any'' ''action.rule.joined'' [] []) (\<lambda>_.
     andthen (graph_complete cr lp i ''policy.decision''
        ((completing (digest cr (PDict [(''intent'', PStr d), (''approval_required'', PBool need)]))
           [(''approval_required'', str_bool_lower need)])\<lparr>ca_authority_refs := [d]\<rparr>) None) (\<lambda>_.
     andthen (whenever need (andthen (graph_complete cr lp i (idx ''approval.rule.'' k)
        ((completing (digest cr (PDict [(''intent'', PStr d), (''approval'', PStr ''consumed'')]))
           [(''approved'', ''true''), (''rule_index'', dec_nat k)])\<lparr>ca_authority_refs := [d]\<rparr>) None) (\<lambda>_. ret ()))) (\<lambda>_.
     andthen (graph_advance cr lp i ''join.action.authority.any'' ''action.authority.joined'' [] []) (\<lambda>_. ret ()))))))"

section \<open>Acceptance\<close>

text \<open>The last passing result of each check over the accumulated actions, else its first.\<close>

definition note_check :: "check_result \<Rightarrow> (string \<times> check_result) list \<Rightarrow> (string \<times> check_result) list" where
  "note_check c d = (if cr_status c = PASS \<or> cr_name c \<notin> set (dkeys d) then AList.update (cr_name c) c d else d)"

definition report_checks :: "evidence_snapshot \<Rightarrow> (string \<times> check_result) list" where
  "report_checks e = fold note_check (concat (map (vr_checks \<circ> ae_report) (es_actions e))) []"

definition check_passes :: "(string \<times> check_result) list \<Rightarrow> string \<Rightarrow> bool" where
  "check_passes checks n \<longleftrightarrow> (case dget checks n of None \<Rightarrow> False | Some c \<Rightarrow> cr_status c = PASS)"

text \<open>The names a node requires; a legacy contract without bindings falls back to the execution check.\<close>

definition split_names :: "string \<Rightarrow> string list" where
  "split_names s = filter (\<lambda>n. n \<noteq> []) (split_chr (CHR '','') s)"

definition required_names :: "('a, 'c, 'w, 'm) loop \<Rightarrow> (string \<times> check_result) list \<Rightarrow> string \<Rightarrow> string list \<Rightarrow> string list" where
  "required_names lp checks guard names =
     (if lp_unsafe lp \<and> guard \<notin> set (dkeys (tc_success_condition_bindings (lp_contract lp))) \<and> check_passes checks ''execution''
      then [''execution''] else names)"

definition checks_py :: "(string \<times> check_result) list \<Rightarrow> string list \<Rightarrow> pyval" where
  "checks_py checks names = PList (map (\<lambda>c. PTuple [PStr (cr_name c), PDict (cr_evidence c)]) (List.map_filter (dget checks) names))"

definition nodes_of_type :: "('a, 'c, 'w, 'm) loop \<Rightarrow> node_type \<Rightarrow> graph_node list" where
  "nodes_of_type lp ty = filter (\<lambda>n. nd_type n = ty) (gm_nodes (lp_manifest lp))"

definition admit_snapshot :: "crypto \<Rightarrow> ('a, 'c, 'w, 'm) loop \<Rightarrow> int \<Rightarrow> observation \<Rightarrow> ('a, 'c, 'w, unit) loop_act" where
  "admit_snapshot cr lp i x = andthen (graph_state cr lp i) (\<lambda>st.
     whenever (''snapshot.materialized'' \<notin> ts_completed st) (
       andthen (graph_complete cr lp i ''snapshot.materialized'' (completing
           (digest cr (PDict [(''development'', PStr ''snapshot''), (''artifacts'', str_dict_py (ob_artifact_digests x))]))
           [(''success'', ''true''), (''workspace_generation'', ''0'')]) None) (\<lambda>_. ret ())))"

definition admit_evaluator :: "crypto \<Rightarrow> ('a, 'c, 'w, 'm) loop \<Rightarrow> int \<Rightarrow> observation \<Rightarrow> graph_node \<Rightarrow> ('a, 'c, 'w, unit) loop_act" where
  "admit_evaluator cr lp i x n =
     (let check = meta (nd_metadata n) ''check_name'' in
      andthen (graph_complete cr lp i (nd_id n) ((completing
          (digest cr (PDict [(''development'', PStr ''evaluator''), (''check'', PStr check)])) [(''check_name'', check)])
          \<lparr>ca_input_artifacts := ob_artifact_digests x\<rparr>) None) (\<lambda>_. ret ()))"

definition admit_receipt :: "crypto \<Rightarrow> ('a, 'c, 'w, 'm) loop \<Rightarrow> int \<Rightarrow> (string \<times> check_result) list \<Rightarrow> graph_node \<Rightarrow> ('a, 'c, 'w, unit) loop_act" where
  "admit_receipt cr lp i checks n =
     (let ty = meta (nd_metadata n) ''receipt_type'';
          declared = (case List.find (\<lambda>k. dget (nd_metadata k) ''guard'' = Some ty) (nodes_of_type lp N_CRITERION) of
             None \<Rightarrow> ty | Some k \<Rightarrow> (case dget (nd_metadata k) ''required_checks'' of None \<Rightarrow> ty | Some t \<Rightarrow> t));
          names = (if ty \<notin> set (dkeys (tc_success_condition_bindings (lp_contract lp))) \<and> check_passes checks ''execution''
             then [''execution''] else split_names declared) in
      whenever (names \<noteq> [] \<and> list_all (check_passes checks) names) (
        andthen (graph_complete cr lp i (nd_id n) (completing
            (digest cr (PDict [(''development'', PStr ''receipt''), (''receipt_type'', PStr ty), (''checks'', checks_py checks names)]))
            [(''receipt_type'', ty), (''passed'', ''true'')]) None) (\<lambda>_. ret ())))"

definition admit_development_evidence :: "crypto \<Rightarrow> ('a, 'c, 'w, 'm) loop \<Rightarrow> int \<Rightarrow> observation \<Rightarrow> (string \<times> check_result) list
    \<Rightarrow> ('a, 'c, 'w, unit) loop_act" where
  "admit_development_evidence cr lp i x checks =
     andthen (admit_snapshot cr lp i x) (\<lambda>_.
     andthen (for_each (admit_evaluator cr lp i x) (nodes_of_type lp N_EVALUATOR)) (\<lambda>_.
     for_each (admit_receipt cr lp i checks) (nodes_of_type lp N_RECEIPT)))"

definition accept_criterion :: "crypto \<Rightarrow> ('a, 'c, 'w, 'm) loop \<Rightarrow> int \<Rightarrow> (string \<times> check_result) list \<Rightarrow> graph_node \<Rightarrow> ('a, 'c, 'w, unit) loop_act" where
  "accept_criterion cr lp i checks n =
     (let guard = meta (nd_metadata n) ''guard'';
          names = required_names lp checks guard
            (split_names (case dget (nd_metadata n) ''required_checks'' of None \<Rightarrow> guard | Some t \<Rightarrow> t)) in
      if names = [] \<or> \<not> list_all (check_passes checks) names
      then raise PermissionError (''no passing criterion evidence exists for guard '' @ repr_str guard)
      else andthen (run_events lp) (\<lambda>es.
        case last_event (\<lambda>e. ce_template_node_id e = ''receipt.'' @ graph_node_token guard) es of
          None \<Rightarrow> raise PermissionError (''criterion '' @ repr_str guard @ '' has no admitted receipt evidence'')
        | Some receipt \<Rightarrow>
            andthen (graph_complete cr lp i (nd_id n) ((completing
                (digest cr (PDict [(''guard'', PStr guard), (''checks'', checks_py checks names)]))
                [(''passed'', ''true''), (''guard'', guard)])\<lparr>ca_evidence_refs := [completion_ref receipt]\<rparr>) None) (\<lambda>_. ret ())))"

definition graph_accept :: "crypto \<Rightarrow> ('a, 'c, 'w, 'm) loop \<Rightarrow> int \<Rightarrow> check_result \<Rightarrow> observation \<Rightarrow> ('a, 'c, 'w, unit) loop_act" where
  "graph_accept cr lp i final x =
     andthen (gets (report_checks \<circ> ls_evidence)) (\<lambda>checks.
     andthen (whenever (lp_unsafe lp) (admit_development_evidence cr lp i x checks)) (\<lambda>_.
     andthen (for_each (accept_criterion cr lp i checks) (nodes_of_type lp N_CRITERION)) (\<lambda>_.
     andthen (graph_advance cr lp i ''join.guards.all'' ''guards.joined'' [] []) (\<lambda>_.
     andthen (run_events lp) (\<lambda>es.
     andthen (graph_complete cr lp i ''decision.accept''
        ((completing (digest cr (PDict [(''final_check'', PStr (cr_name final)), (''evidence'', PDict (cr_evidence final))]))
           [(''decision'', ''accept'')])
         \<lparr>ca_evidence_refs := map completion_ref
            (filter (\<lambda>e. startswith (ce_template_node_id e) ''criterion.'' \<and> ce_iteration e = i) es)\<rparr>) None) (\<lambda>_. ret ()))))))"

end
