(* ===== verification/Loop_Run.thy ===== *)
theory Loop_Run
  imports Loop_Graph
begin

text \<open>
  The small-step loop of \<open>src/vloop/controller.py\<close>: proposing, authorising, preparing and executing an
  action, gathering protected evidence, verifying it and deciding. Every method is one definition
  over the state of \<open>Loop_State\<close>; \<open>run\<close> recurses over the iterations left.
\<close>

section \<open>Proposals\<close>

definition context_nodes :: "crypto \<Rightarrow> context_package \<Rightarrow> prov_node list" where
  "context_nodes cr p = map (\<lambda>(k, item). \<lparr>
       pn_node_id = ''context:'' @ dec_nat k @ '':'' @ take 16 (content_digest cr item),
       pn_provenance = trust_provenance (ci_trust item), pn_source_id = ci_source_id item,
       pn_content_digest = content_digest cr item, pn_parent_ids = []\<rparr>) (enum (package_items p))"

definition value_py :: "string \<Rightarrow> pyval \<Rightarrow> pyval" where
  "value_py name v = PDict [(''argument'', PStr name), (''value'', v)]"

definition root_node :: "crypto \<Rightarrow> string \<Rightarrow> provenance \<Rightarrow> string \<Rightarrow> string \<Rightarrow> pyval \<Rightarrow> prov_node" where
  "root_node cr i prov source name v = \<lparr>pn_node_id = i, pn_provenance = prov, pn_source_id = source,
     pn_content_digest = digest cr (value_py name v), pn_parent_ids = []\<rparr>"

text \<open>The sources of one argument: the context, a declared taint, else the planner itself.\<close>

definition argument_roots :: "crypto \<Rightarrow> action_intent \<Rightarrow> prov_node list \<Rightarrow> string \<Rightarrow> pyval \<Rightarrow> prov_node list" where
  "argument_roots cr intent nodes name v =
     (let declared = (case dget (in_argument_provenance intent) name of None \<Rightarrow> [] | Some ps \<Rightarrow> ps);
          nodes = nodes @ (if UNTRUSTED_RETRIEVAL \<in> set (in_provenance intent) \<or> UNTRUSTED_RETRIEVAL \<in> set declared
            then [root_node cr ''declared-untrusted-input'' UNTRUSTED_RETRIEVAL ''untrusted-planner-declaration'' name v] else [])
      in if nodes = [] then [root_node cr ''planner-output-root'' TOOL_OUTPUT ''planner-output'' name v] else nodes)"

definition argument_graph :: "crypto \<Rightarrow> action_intent \<Rightarrow> prov_node list \<Rightarrow> string \<times> pyval \<Rightarrow> (string \<times> argument_provenance) res" where
  "argument_graph cr intent nodes = (\<lambda>(name, v).
     let roots = argument_roots cr intent nodes name v;
         parents = concat (map pn_parent_ids roots);
         terminals = sort (filter (\<lambda>n. n \<notin> set parents) (map pn_node_id roots));
         derived = \<lparr>pn_node_id = ''controller-derived:'' @ take 16 (digest cr (value_py name v)), pn_provenance = TOOL_OUTPUT,
           pn_source_id = ''controller-planner-boundary'', pn_content_digest = digest cr v, pn_parent_ids = terminals\<rparr>
     in bnd (map_res prov_node_init (roots @ [derived])) (\<lambda>ns.
        bnd (argument_provenance_init \<lparr>ap_value_digest = digest cr v, ap_nodes = ns\<rparr>) (\<lambda>g. Inr (name, g))))"

definition bind_argument_provenance :: "crypto \<Rightarrow> action_intent \<Rightarrow> context_package option \<Rightarrow> action_intent res" where
  "bind_argument_provenance cr intent package =
     (let nodes = (case package of None \<Rightarrow> [] | Some p \<Rightarrow> context_nodes cr p) in
      bnd (map_res (argument_graph cr intent nodes) (in_arguments intent)) (\<lambda>graphs.
      action_intent_init cr (intent\<lparr>in_argument_provenance_graph := graphs\<rparr>)))"

text \<open>Every label of a context package is added to the intent and to each of its arguments.\<close>

definition join_provenance :: "provenance list \<Rightarrow> provenance list \<Rightarrow> provenance list" where
  "join_provenance a b = sort (remdups (a @ b))"

definition taint_intent :: "crypto \<Rightarrow> context_package \<Rightarrow> action_intent \<Rightarrow> action_intent res" where
  "taint_intent cr p intent = action_intent_init cr (intent\<lparr>
     in_provenance := join_provenance (in_provenance intent) (package_provenance p),
     in_argument_provenance := map (\<lambda>(name, _). (name, join_provenance (provenance_for_argument intent name) (package_provenance p)))
       (in_arguments intent)\<rparr>)"

definition build_context :: "crypto \<Rightarrow> ('a, 'c, 'w, 'm) loop \<Rightarrow> pydict list \<Rightarrow> ('a, 'c, 'w, context_package option) loop_act" where
  "build_context cr lp history = (case lp_context lp of None \<Rightarrow> ret None
     | Some build \<Rightarrow> andthen (on_world (build (lp_contract lp) history)) (\<lambda>p.
         if cp_contract_digest p \<noteq> lp_contract_digest lp
         then raise ValueError ''context package belongs to a different task contract''
         else andthen (log_event cr lp ''context.packaged'' [(''contract_digest'', PStr (cp_contract_digest p)),
             (''environment_digest'', PStr (cp_environment_digest p)),
             (''trusted_sources'', PList (map (PStr \<circ> ci_source_id) (cp_trusted_items p))),
             (''untrusted_sources'', PList (map (PStr \<circ> ci_source_id) (cp_untrusted_items p))),
             (''truncated_sources'', pstrs (cp_truncated_source_ids p))]) (\<lambda>_. ret (Some p))))"

definition ask_planner :: "('a, 'c, 'w, 'm) loop \<Rightarrow> pydict list \<Rightarrow> context_package option \<Rightarrow> ('a, 'c, 'w, action_intent) loop_act" where
  "ask_planner lp history package = (case (package, lp_propose_with_context lp) of
       (Some p, Some contextual) \<Rightarrow> on_world (contextual (lp_contract lp) history p)
     | _ \<Rightarrow> on_world (lp_propose lp (lp_contract lp) history))"

definition propose :: "crypto \<Rightarrow> ('a, 'c, 'w, 'm) loop \<Rightarrow> ('a, 'c, 'w, action_intent) loop_act" where
  "propose cr lp = andthen (gets ls_history) (\<lambda>history.
     andthen (build_context cr lp history) (\<lambda>package.
     andthen (ask_planner lp history package) (\<lambda>intent.
     andthen (liftr (case package of None \<Rightarrow> Inr intent | Some p \<Rightarrow> taint_intent cr p intent)) (\<lambda>intent.
     if tc_require_argument_provenance (lp_contract lp) then liftr (bind_argument_provenance cr intent package) else ret intent))))"

section \<open>Preparing an operation\<close>

definition operation_id :: "crypto \<Rightarrow> ('a, 'c, 'w, 'm) loop \<Rightarrow> int \<Rightarrow> action_intent \<Rightarrow> string" where
  "operation_id cr lp i intent = digest cr (PDict [(''run_id'', PStr (lp_run_id lp)), (''iteration'', PInt i),
     (''intent_digest'', PStr (intent_digest cr intent)), (''idempotency_key'', PStr (in_idempotency_key intent)),
     (''executor_id'', PStr (lp_executor_id lp))])"

definition default_prepared :: "crypto \<Rightarrow> ('a, 'c, 'w, 'm) loop \<Rightarrow> int \<Rightarrow> action_intent \<Rightarrow> prepared_execution" where
  "default_prepared cr lp i intent = (let op = operation_id cr lp i intent in
     \<lparr>pe_operation_id = op, pe_executor_id = lp_executor_id lp, pe_intent_digest = intent_digest cr intent,
      pe_request_digest = digest cr (PDict [(''operation_id'', PStr op), (''run_id'', PStr (lp_run_id lp)),
        (''contract_digest'', PStr (lp_contract_digest lp)), (''iteration'', PInt i),
        (''intent_digest'', PStr (intent_digest cr intent)), (''graph_digest'', PStr (loop_graph_digest cr lp)),
        (''graph_node_id'', PStr ''operation.prepared'')]),
      pe_remote_job_id = op, pe_graph_digest = loop_graph_digest cr lp, pe_graph_node_id = ''operation.prepared''\<rparr>)"

definition prepared_binds :: "crypto \<Rightarrow> ('a, 'c, 'w, 'm) loop \<Rightarrow> int \<Rightarrow> action_intent \<Rightarrow> prepared_execution \<Rightarrow> bool" where
  "prepared_binds cr lp i intent p \<longleftrightarrow> pe_operation_id p = operation_id cr lp i intent \<and> pe_executor_id p = lp_executor_id lp
     \<and> pe_intent_digest p = intent_digest cr intent \<and> pe_graph_digest p = loop_graph_digest cr lp
     \<and> pe_graph_node_id p = ''operation.prepared''"

definition loop_prepare_execution :: "crypto \<Rightarrow> ('a, 'c, 'w, 'm) loop \<Rightarrow> int \<Rightarrow> action_intent \<Rightarrow> ('a, 'c, 'w, prepared_execution) loop_act" where
  "loop_prepare_execution cr lp i intent =
     andthen (case lp_prepare lp of
         Some prepare \<Rightarrow> on_world (prepare intent \<lparr>pq_run_id = lp_run_id lp, pq_contract_digest = lp_contract_digest lp,
           pq_iteration = i, pq_operation_id = operation_id cr lp i intent, pq_graph_digest = loop_graph_digest cr lp,
           pq_graph_node_id = ''operation.prepared''\<rparr>)
       | None \<Rightarrow> liftr (prepared_execution_init (default_prepared cr lp i intent))) (\<lambda>p.
     if prepared_binds cr lp i intent p then ret p
     else raise ValueError ''prepared execution does not bind this operation'')"

section \<open>The effect\<close>

definition authorize_intent :: "crypto \<Rightarrow> ('a, 'c, 'w, 'm) loop \<Rightarrow> action_intent \<Rightarrow> approval list \<Rightarrow> ('a, 'c, 'w, capability res) loop_act" where
  "authorize_intent cr lp intent approvals =
     andthen (tick lp) (\<lambda>now. andthen (tick lp) (\<lambda>clock. andthen (fresh_id lp) (\<lambda>cid. andthen (fresh_id lp) (\<lambda>nonce.
     zoom ls_gate (\<lambda>g s. s\<lparr>ls_gate := g\<rparr>) (\<lambda>g.
       case authorize cr (lp_gate lp) (lp_approval_consume lp) (lp_counter_consume lp) g
         \<lparr>gc_intent = intent, gc_executor_id = lp_executor_id lp, gc_approvals = approvals, gc_graph_digest = loop_graph_digest cr lp,
           gc_graph_node_id = ''capability.execute'', gc_now = now, gc_clock = clock, gc_capability_id = cid, gc_nonce = nonce\<rparr> of
         (r, g') \<Rightarrow> (case r of Inl e \<Rightarrow> (if fst e = PolicyDenied then (Inr (Inl e), g') else (Inl e, g')) | Inr c \<Rightarrow> (Inr (Inr c), g')))))))"

text \<open>\<open>except PolicyDenied\<close>: wait for a reviewer, or escalate.\<close>

definition has_text :: "string \<Rightarrow> string \<Rightarrow> bool" where
  "has_text p s \<longleftrightarrow> has_infix p s"

definition deny_intent :: "crypto \<Rightarrow> ('a, 'c, 'w, 'm) loop \<Rightarrow> int \<Rightarrow> action_intent \<Rightarrow> string \<Rightarrow> ('a, 'c, 'w, loop_decision) loop_act" where
  "deny_intent cr lp i intent reason =
     andthen (modify (\<lambda>s. s\<lparr>ls_history := ls_history s @ [[(''intent'', PStr (intent_digest cr intent)), (''failure'', PStr reason)]]\<rparr>)) (\<lambda>_.
     andthen (log_event cr lp ''intent.denied'' [(''intent_digest'', PStr (intent_digest cr intent)), (''reason'', PStr reason)]) (\<lambda>_.
     if has_text ''requires explicit approval'' reason \<or> has_text ''this action requires explicit approval'' reason
     then await_approval cr lp i intent reason
     else terminal cr lp ESCALATE ''policy-denied''))"

text \<open>The call of the executor, the one place where an effect happens.\<close>

definition run_effect :: "('a, 'c, 'w, 'm) loop \<Rightarrow> int \<Rightarrow> action_intent \<Rightarrow> capability \<Rightarrow> prepared_execution \<Rightarrow> ('a, 'c, 'w, observation) loop_act" where
  "run_effect lp i intent c p =
     andthen (modify (\<lambda>s. s\<lparr>ls_effects := ls_effects s @ 
       [\<lparr>fc_iteration = i, fc_intent = intent, fc_capability = c, fc_prepared = p, fc_runs = ls_runs s, fc_sched = ls_sched s\<rparr>]\<rparr>)) (\<lambda>_.
     on_world (case lp_execute_prepared lp of Some f \<Rightarrow> f intent c p | None \<Rightarrow> lp_execute lp intent c))"

definition artifacts_digest :: "crypto \<Rightarrow> observation \<Rightarrow> string" where
  "artifacts_digest cr x = digest cr (str_dict_py (ob_artifact_digests x))"

definition prepared_fields :: "prepared_execution \<Rightarrow> pydict" where
  "prepared_fields p = [(''operation_id'', PStr (pe_operation_id p)), (''request_digest'', PStr (pe_request_digest p)),
     (''graph_digest'', PStr (pe_graph_digest p)), (''graph_node_id'', PStr (pe_graph_node_id p))]"

definition prepare_effect :: "crypto \<Rightarrow> ('a, 'c, 'w, 'm) loop \<Rightarrow> int \<Rightarrow> action_intent \<Rightarrow> capability \<Rightarrow> ('a, 'c, 'w, prepared_execution) loop_act" where
  "prepare_effect cr lp i intent c =
     andthen (graph_authorise_action_rule cr lp i intent) (\<lambda>_.
     andthen (graph_complete cr lp i ''capability.execute''
        ((completing (digest cr (PDict [(''capability_id'', PStr (cap_capability_id c)), (''intent_digest'', PStr (intent_digest cr intent))]))
           [(''capability_id'', cap_capability_id c), (''intent_digest'', intent_digest cr intent)])\<lparr>ca_authority_refs := [cap_capability_id c]\<rparr>) None) (\<lambda>_.
     andthen (modify (\<lambda>s. s\<lparr>ls_tool_calls := ls_tool_calls s + 1\<rparr>)) (\<lambda>_.
     andthen (loop_prepare_execution cr lp i intent) (\<lambda>p.
     andthen (graph_complete cr lp i ''operation.prepared''
        ((completing (pe_request_digest p) [(''operation_id'', pe_operation_id p)])\<lparr>ca_authority_refs := [cap_capability_id c]\<rparr>) None) (\<lambda>_.
     andthen (checkpoint_pending_effect cr lp i intent p) (\<lambda>_.
     andthen (log_event cr lp ''execution.started'' ([(''iteration'', PInt i), (''intent_digest'', PStr (intent_digest cr intent)),
        (''remote_job_id'', PStr (pe_remote_job_id p))] @ prepared_fields p)) (\<lambda>_. ret p)))))))"

definition dispatch_effect :: "crypto \<Rightarrow> ('a, 'c, 'w, 'm) loop \<Rightarrow> int \<Rightarrow> action_intent \<Rightarrow> capability \<Rightarrow> prepared_execution
    \<Rightarrow> ('a, 'c, 'w, observation) loop_act" where
  "dispatch_effect cr lp i intent c p =
     andthen (case lp_bind_run lp of None \<Rightarrow> ret () | Some b \<Rightarrow> on_world (b (lp_run_id lp) (lp_contract_digest lp))) (\<lambda>_.
     andthen (graph_advance cr lp i ''executor.dispatch'' ''execution.dispatched'' [(''operation_id'', PStr (pe_operation_id p))] (cap_capability_id c)) (\<lambda>_.
     run_effect lp i intent c p))"

definition record_result :: "crypto \<Rightarrow> ('a, 'c, 'w, 'm) loop \<Rightarrow> int \<Rightarrow> capability \<Rightarrow> prepared_execution \<Rightarrow> observation \<Rightarrow> ('a, 'c, 'w, unit) loop_act" where
  "record_result cr lp i c p x =
     andthen (graph_complete cr lp i ''executor.result''
        ((completing (artifacts_digest cr x) [(''success'', str_bool_lower (ob_success x)), (''operation_id'', pe_operation_id p)])
         \<lparr>ca_result := if ob_success x then SUCCEEDED else FAILED, ca_input_artifacts := ob_artifact_digests x,
           ca_authority_refs := [cap_capability_id c]\<rparr>) None) (\<lambda>_.
     whenever (ob_success x) (andthen (graph_complete cr lp i ''artifact.manifest''
        ((completing (artifacts_digest cr x) [(''success'', ''true'')])\<lparr>ca_input_artifacts := ob_artifact_digests x,
           ca_authority_refs := [cap_capability_id c]\<rparr>) None) (\<lambda>_. ret ())))"

definition execute_effect :: "crypto \<Rightarrow> ('a, 'c, 'w, 'm) loop \<Rightarrow> int \<Rightarrow> action_intent \<Rightarrow> capability \<Rightarrow> ('a, 'c, 'w, observation \<times> string) loop_act" where
  "execute_effect cr lp i intent c =
     andthen (prepare_effect cr lp i intent c) (\<lambda>p.
     andthen (dispatch_effect cr lp i intent c p) (\<lambda>x.
     andthen (record_result cr lp i c p x) (\<lambda>_.
     andthen (log_event cr lp ''execution.observed'' [(''intent_digest'', PStr (intent_digest cr intent)),
        (''capability_id'', PStr (cap_capability_id c)), (''executor_id'', PStr (cap_executor_id c)),
        (''graph_digest'', PStr (cap_graph_digest c)), (''graph_node_id'', PStr (cap_graph_node_id c)),
        (''operation_id'', PStr (pe_operation_id p)), (''request_digest'', PStr (pe_request_digest p)),
        (''prepared_graph_digest'', PStr (pe_graph_digest p)), (''prepared_graph_node_id'', PStr (pe_graph_node_id p)),
        (''success'', PBool (ob_success x)), (''exit_code'', opt_int_py (ob_exit_code x)),
        (''artifact_digests'', str_dict_py (ob_artifact_digests x)), (''metadata'', PDict (ob_metadata x))]) (\<lambda>h. ret (x, h)))))"

section \<open>The intent of an iteration\<close>

text \<open>What an iteration has in hand before verification, or the decision it ends with.\<close>

type_synonym acquired = "loop_decision + action_intent \<times> observation \<times> string"

definition propose_intent :: "crypto \<Rightarrow> ('a, 'c, 'w, 'm) loop \<Rightarrow> int \<Rightarrow> ('a, 'c, 'w, action_intent) loop_act" where
  "propose_intent cr lp i =
     andthen (propose cr lp) (\<lambda>intent.
     andthen (liftr (matching_action_rule_index (lp_contract lp) intent)) (\<lambda>k.
     andthen (graph_advance cr lp i ''action.intent'' ''intent.proposed''
        [(''intent_digest'', PStr (intent_digest cr intent)), (''rule_index'', PStr (dec_nat k))] []) (\<lambda>_.
     andthen (log_event cr lp ''intent.proposed'' [(''iteration'', PInt i), (''intent_digest'', PStr (intent_digest cr intent)),
        (''tool'', PStr (in_tool intent)), (''effect'', PStr (effect_value (in_effect intent))), (''target'', PStr (in_target intent)),
        (''provenance'', PList (map (PStr \<circ> provenance_value) (in_provenance intent)))]) (\<lambda>_.
     andthen (checkpoint_pending_authorization cr lp i intent) (\<lambda>_. ret intent)))))"

definition resume_intent :: "crypto \<Rightarrow> ('a, 'c, 'w, 'm) loop \<Rightarrow> int \<Rightarrow> checkpoint \<Rightarrow> ('a, 'c, 'w, action_intent) loop_act" where
  "resume_intent cr lp i c = (case ck_pending_intent c of
       None \<Rightarrow> raise AssertionError []
     | Some intent \<Rightarrow> andthen (log_event cr lp ''intent.resumed'' [(''iteration'', PInt i),
         (''intent_digest'', PStr (intent_digest cr intent))]) (\<lambda>_. ret intent))"

definition authorize_and_execute :: "crypto \<Rightarrow> ('a, 'c, 'w, 'm) loop \<Rightarrow> approval list \<Rightarrow> int \<Rightarrow> action_intent \<Rightarrow> ('a, 'c, 'w, acquired) loop_act" where
  "authorize_and_execute cr lp approvals i intent =
     andthen (authorize_intent cr lp intent approvals) (\<lambda>r. case r of
       Inl (_, reason) \<Rightarrow> andthen (deny_intent cr lp i intent reason) (\<lambda>d. ret (Inl d))
     | Inr c \<Rightarrow> andthen (execute_effect cr lp i intent c) (\<lambda>(x, h). ret (Inr (intent, x, h))))"

definition take_reconciled :: "crypto \<Rightarrow> ('a, 'c, 'w, 'm) loop \<Rightarrow> int \<Rightarrow> checkpoint \<Rightarrow> ('a, 'c, 'w, acquired) loop_act" where
  "take_reconciled cr lp i c = (case (ck_pending_intent c, ck_reconciled c, ck_prepared c) of
       (Some intent, Some x, Some p) \<Rightarrow>
         andthen (log_event cr lp ''execution.reconciled'' ([(''iteration'', PInt i), (''intent_digest'', PStr (intent_digest cr intent)),
            (''executor_id'', PStr (ck_executor_id c))] @ prepared_fields p @ [(''success'', PBool (ob_success x)),
            (''exit_code'', opt_int_py (ob_exit_code x)), (''artifact_digests'', str_dict_py (ob_artifact_digests x))])) (\<lambda>h.
         andthen (whenever (ob_success x) (
           andthen (graph_complete cr lp i ''executor.result'' ((completing (artifacts_digest cr x)
               [(''success'', ''true''), (''reconciled'', ''true''), (''operation_id'', pe_operation_id p)])
               \<lparr>ca_input_artifacts := ob_artifact_digests x\<rparr>) None) (\<lambda>_.
           andthen (graph_complete cr lp i ''artifact.manifest'' ((completing (artifacts_digest cr x)
               [(''success'', ''true''), (''reconciled'', ''true'')])\<lparr>ca_input_artifacts := ob_artifact_digests x\<rparr>) None) (\<lambda>_. ret ())))) (\<lambda>_.
         ret (Inr (intent, x, h))))
     | _ \<Rightarrow> raise AssertionError [])"

definition acquire :: "crypto \<Rightarrow> ('a, 'c, 'w, 'm) loop \<Rightarrow> approval list \<Rightarrow> int \<Rightarrow> ('a, 'c, 'w, acquired) loop_act" where
  "acquire cr lp approvals i =
     andthen (gets ls_checkpoint) (\<lambda>found. case found of
       None \<Rightarrow> andthen (propose_intent cr lp i) (authorize_and_execute cr lp approvals i)
     | Some c \<Rightarrow>
         if ck_phase c = RECONCILED_EFFECT then take_reconciled cr lp i c
         else if ck_phase c = PENDING_AUTHORIZATION \<or> ck_phase c = AWAITING_APPROVAL
         then andthen (resume_intent cr lp i c) (authorize_and_execute cr lp approvals i)
         else andthen (propose_intent cr lp i) (authorize_and_execute cr lp approvals i))"

end
