(* ===== verification/Loop_Decide.thy ===== *)
theory Loop_Decide
  imports Loop_Run
begin

text \<open>
  The rest of the loop of \<open>src/vloop/controller.py\<close>: evidence from protected evaluators
  (\<open>src/vloop/evaluation.py\<close>), verification, probes, the decision of an iteration, and the entry
  points \<open>run\<close>, \<open>resume_with_approval\<close>, \<open>reconcile_effect\<close> and \<open>cancel_run\<close>.
\<close>

section \<open>Protected evaluation\<close>

definition evaluator_plan_init :: "evaluator_plan \<Rightarrow> evaluator_plan res" where
  "evaluator_plan_init p =
     (if blank (ep_check_name p) \<or> blank (ep_receipt_type p) \<or> blank (ep_evaluator_image_digest p) \<or> blank (ep_test_suite_digest p)
      then Inl (ValueError, ''protected evaluator plans need complete immutable identities'') else Inr p)"

definition orchestrator_init :: "'w orchestrator \<Rightarrow> 'w orchestrator res" where
  "orchestrator_init x =
     (if or_plans x = [] then Inl (ValueError, ''protected evaluation needs at least one evaluator plan'')
      else if \<not> distinct (map ep_check_name (or_plans x)) \<or> \<not> distinct (map ep_receipt_type (or_plans x))
      then Inl (ValueError, ''protected evaluator plans need unique check and receipt names'') else Inr x)"

definition evaluate_plan :: "('w orchestrator) \<Rightarrow> evaluator_plan \<Rightarrow> evaluation_call \<Rightarrow> 'w \<Rightarrow> pydict res \<times> 'w" where
  "evaluate_plan x p q w =
     (if ev_graph_digest q = [] \<or> ev_graph_node_id q = [] \<or> ev_graph_node_instance_id q = []
      then (Inl (ValueError, ''each protected evaluator call needs a concrete graph node instance''), w)
      else or_evaluate x p q w)"

text \<open>\<open>evaluate\<close>: the snapshot, then every plan at the caller's graph node.\<close>

fun evaluate_plans :: "'w orchestrator \<Rightarrow> evaluation_call \<Rightarrow> evaluator_plan list \<Rightarrow> 'w
    \<Rightarrow> (string \<times> pydict) list res \<times> 'w" where
  "evaluate_plans x q [] w = (Inr [], w)"
| "evaluate_plans x q (p # ps) w = (case evaluate_plan x p (q\<lparr>ev_receipt_type := ep_receipt_type p,
       ev_evaluator_image_digest := ep_evaluator_image_digest p, ev_test_suite_digest := ep_test_suite_digest p\<rparr>) w of
     (Inl e, w) \<Rightarrow> (Inl e, w)
   | (Inr raw, w) \<Rightarrow> (case evaluate_plans x q ps w of
       (Inl e, w) \<Rightarrow> (Inl e, w)
     | (Inr rs, w) \<Rightarrow> (Inr ((ep_receipt_type p, raw) # rs), w)))"

definition evaluate_bundle :: "'w orchestrator \<Rightarrow> task_contract \<Rightarrow> action_intent \<Rightarrow> observation \<Rightarrow> evaluation_call \<Rightarrow> 'w
    \<Rightarrow> (workspace_snapshot_ref \<times> (string \<times> pydict) list) res \<times> 'w" where
  "evaluate_bundle x c intent obs q w = (case or_snapshot x c intent obs w of
     (Inl e, w) \<Rightarrow> (Inl e, w)
   | (Inr snap, w) \<Rightarrow> (case evaluate_plans x (q\<lparr>ev_artifact_digests := ob_artifact_digests obs,
         ev_workspace_snapshot_digest := wr_workspace_snapshot_digest snap\<rparr>) (or_plans x) w of
       (Inl e, w) \<Rightarrow> (Inl e, w)
     | (Inr rs, w) \<Rightarrow> (Inr (snap, rs), w)))"

text \<open>The evaluators' receipts so far and the node instance each is bound to, by receipt type.\<close>

type_synonym gathered = "(string \<times> pydict) list \<times> (string \<times> string \<times> string) list"

definition evaluation_call_of :: "crypto \<Rightarrow> ('a, 'c, 'w, 'm) loop \<Rightarrow> evaluator_plan \<Rightarrow> action_intent \<Rightarrow> observation
    \<Rightarrow> workspace_snapshot_ref \<Rightarrow> string \<Rightarrow> string \<Rightarrow> evaluation_call" where
  "evaluation_call_of cr lp p intent x snap node inst = \<lparr>ev_run_id = lp_run_id lp, ev_contract_digest = lp_contract_digest lp,
     ev_intent_digest = intent_digest cr intent, ev_receipt_type = ep_receipt_type p,
     ev_artifact_digests = ob_artifact_digests x, ev_workspace_snapshot_digest = wr_workspace_snapshot_digest snap,
     ev_evaluator_image_digest = ep_evaluator_image_digest p, ev_test_suite_digest = ep_test_suite_digest p,
     ev_graph_digest = loop_graph_digest cr lp, ev_graph_node_id = node, ev_graph_node_instance_id = inst\<rparr>"

definition run_plan :: "crypto \<Rightarrow> ('a, 'c, 'w, 'm) loop \<Rightarrow> 'w orchestrator \<Rightarrow> int \<Rightarrow> action_intent \<Rightarrow> observation
    \<Rightarrow> workspace_snapshot_ref \<Rightarrow> evaluator_plan \<Rightarrow> gathered \<Rightarrow> ('a, 'c, 'w, gathered) loop_act" where
  "run_plan cr lp orch i intent x snap p = (\<lambda>(receipts, bindings).
     let evaluator = ''evaluator.'' @ graph_node_token (ep_check_name p); receipt = ''receipt.'' @ graph_node_token (ep_receipt_type p) in
     andthen (graph_reserve cr lp i evaluator) (\<lambda>(ev, inst, st).
     andthen (on_world (evaluate_plan orch p (evaluation_call_of cr lp p intent x snap evaluator inst))) (\<lambda>raw.
     andthen (graph_complete cr lp i evaluator ((completing (digest cr (PDict raw)) [(''receipt_type'', ep_receipt_type p)])
        \<lparr>ca_input_artifacts := ob_artifact_digests x\<rparr>) (Some (ev, inst, st))) (\<lambda>done_event.
     andthen (graph_complete cr lp i receipt ((completing (digest cr (PDict raw)) [(''receipt_type'', ep_receipt_type p)])
        \<lparr>ca_evidence_refs := [case done_event of None \<Rightarrow> [] | Some e \<Rightarrow> completion_ref e]\<rparr>) None) (\<lambda>_.
     ret (AList.update (ep_receipt_type p) raw receipts, AList.update (ep_receipt_type p) (evaluator, inst) bindings))))))"

definition receipts_py :: "(string \<times> pydict) list \<Rightarrow> pydict" where
  "receipts_py rs = map (\<lambda>(k, d). (k, PDict d)) rs"

definition bindings_py :: "string \<Rightarrow> (string \<times> string \<times> string) list \<Rightarrow> pydict" where
  "bindings_py g bs = map (\<lambda>(k, node, inst). (k, PDict [(''graph_digest'', PStr g), (''graph_node_id'', PStr node),
     (''graph_node_instance_id'', PStr inst)])) bs"

text \<open>The observation handed to the verifiers: its metadata with the protected receipts merged in.\<close>

definition with_receipts :: "string \<Rightarrow> observation \<Rightarrow> workspace_snapshot_ref \<Rightarrow> gathered \<Rightarrow> observation" where
  "with_receipts g x snap = (\<lambda>(receipts, bindings).
     let existing = (case dget (ob_metadata x) ''evaluator_receipts'' of Some (PDict d) \<Rightarrow> d | _ \<Rightarrow> []) in
     x\<lparr>ob_metadata := dmerge (ob_metadata x) [(''evaluator_receipts'', PDict (dmerge existing (receipts_py receipts))),
       (''workspace_snapshot_digest'', PStr (wr_workspace_snapshot_digest snap)),
       (''workspace_snapshot_schema'', PStr (wr_schema_version snap)),
       (''workspace_exclusion_policy_digest'', PStr (wr_exclusion_policy_digest snap)),
       (''receipt_graph_bindings'', PDict (bindings_py g bindings))]\<rparr>)"

definition gather_receipts :: "crypto \<Rightarrow> ('a, 'c, 'w, 'm) loop \<Rightarrow> 'w orchestrator \<Rightarrow> int \<Rightarrow> action_intent \<Rightarrow> observation
    \<Rightarrow> ('a, 'c, 'w, observation \<times> workspace_snapshot_ref \<times> gathered) loop_act" where
  "gather_receipts cr lp orch i intent x =
     (if \<not> ob_success x then raise ValueError ''failed execution has no evaluator-admissible artifact''
      else andthen (on_world (or_snapshot orch (lp_contract lp) intent x)) (\<lambda>snap.
        andthen (graph_complete cr lp i ''snapshot.materialized'' ((completing (wr_workspace_snapshot_digest snap)
            [(''success'', ''true''), (''workspace_generation'', ''0'')])
            \<lparr>ca_input_artifacts := [(''snapshot'', wr_workspace_snapshot_digest snap)]\<rparr>) None) (\<lambda>_.
        andthen (fold_act (run_plan cr lp orch i intent x snap) (or_plans orch) ([], [])) (\<lambda>g.
        ret (with_receipts (loop_graph_digest cr lp) x snap g, snap, g)))))"

definition log_unavailable :: "crypto \<Rightarrow> ('a, 'c, 'w, 'm) loop \<Rightarrow> action_intent \<Rightarrow> exc \<times> string \<Rightarrow> ('a, 'c, 'w, unit) loop_act" where
  "log_unavailable cr lp intent e = andthen (log_event cr lp ''evaluation.unavailable''
     [(''intent_digest'', PStr (intent_digest cr intent)), (''error_type'', PStr (exc_name (fst e)))]) (\<lambda>_. ret ())"

text \<open>The \<open>try\<close> block: a failure is logged; the observation is the merged one once it was built.\<close>

definition evaluate_protected :: "crypto \<Rightarrow> ('a, 'c, 'w, 'm) loop \<Rightarrow> int \<Rightarrow> action_intent \<Rightarrow> observation \<Rightarrow> ('a, 'c, 'w, observation) loop_act" where
  "evaluate_protected cr lp i intent x = (case lp_evaluation lp of
       None \<Rightarrow> ret x
     | Some orch \<Rightarrow>
         andthen (catch (andthen (gather_receipts cr lp orch i intent x) (\<lambda>r. ret (Inr r))) (\<lambda>e. ret (Inl e))) (\<lambda>r. case r of
           Inl e \<Rightarrow> andthen (log_unavailable cr lp intent e) (\<lambda>_. ret x)
         | Inr (x', snap, receipts, bindings) \<Rightarrow>
             andthen (catch (andthen (log_event cr lp ''evaluation.completed'' [(''intent_digest'', PStr (intent_digest cr intent)),
                 (''workspace_snapshot_digest'', PStr (wr_workspace_snapshot_digest snap)),
                 (''receipt_types'', PList (map PStr (sort (dkeys receipts)))), (''graph_digest'', PStr (loop_graph_digest cr lp)),
                 (''graph_node_ids'', PList (map PStr (sort (map (fst \<circ> snd) bindings))))]) (\<lambda>_. ret ()))
               (log_unavailable cr lp intent)) (\<lambda>_. ret x')))"

section \<open>Verification and probes\<close>

definition failed_closed :: "exc \<times> string \<Rightarrow> verification_report" where
  "failed_closed e = \<lparr>vr_correctness = INCONCLUSIVE, vr_policy = INCONCLUSIVE, vr_evidence = INCONCLUSIVE,
     vr_quality = INCONCLUSIVE, vr_checks = [\<lparr>cr_name = ''verification-runtime'', cr_status = INCONCLUSIVE,
       cr_evidence = [(''error_type'', PStr (exc_name (fst e)))], cr_message = ''verification runtime failed closed''\<rparr>]\<rparr>"

definition verify_observation :: "crypto \<Rightarrow> ('a, 'c, 'w, 'm) loop \<Rightarrow> action_intent \<Rightarrow> observation \<Rightarrow> ('a, 'c, 'w, verification_report) loop_act" where
  "verify_observation cr lp intent x = andthen (tick lp) (\<lambda>now.
     ret (case hybrid_verify cr (lp_checks lp now) (lp_contract lp) x (Some (lp_run_id lp)) (Some intent) of
        Inr r \<Rightarrow> r | Inl e \<Rightarrow> failed_closed e))"

definition safe_for_criterion_progress :: "('a, 'c, 'w, 'm) loop \<Rightarrow> observation \<Rightarrow> verification_report \<Rightarrow> bool" where
  "safe_for_criterion_progress lp x r =
     (if \<not> ob_success x then False
      else if tc_action_safety_checks (lp_contract lp) \<noteq> [] then safety_accepted (safety_from_report (lp_contract lp) r)
      else \<not> list_ex (\<lambda>c. cr_status c = FAIL) (vr_checks r)
        \<and> (case List.find (\<lambda>c. cr_name c = ''structural'') (vr_checks r) of None \<Rightarrow> True | Some c \<Rightarrow> cr_status c = PASS))"

definition loop_run_probes :: "crypto \<Rightarrow> ('a, 'c, 'w, 'm) loop \<Rightarrow> action_intent \<Rightarrow> observation \<Rightarrow> verification_report \<Rightarrow> string \<Rightarrow> bool
    \<Rightarrow> ('a, 'c, 'w, (check_status \<times> check_result list) option) loop_act" where
  "loop_run_probes cr lp intent x r stage force = (case lp_probes lp of
       None \<Rightarrow> ret None
     | Some runner \<Rightarrow>
         if stage \<noteq> ''probe'' \<and> stage \<noteq> ''pre-accept'' then ret None
         else andthen (liftr (run_probes runner (lp_contract lp) intent x r force)) (\<lambda>(status, results).
           andthen (log_event cr lp ''probe.completed'' [(''intent_digest'', PStr (intent_digest cr intent)),
             (''status'', PStr (check_status_value status)),
             (''checks'', PList (map (\<lambda>c. PDict [(''name'', PStr (cr_name c)), (''status'', PStr (check_status_value (cr_status c))),
                (''evidence'', PDict (cr_evidence c))]) results))]) (\<lambda>_. ret (Some (status, results)))))"

definition merge_probe_report :: "verification_report \<Rightarrow> check_status \<times> check_result list \<Rightarrow> verification_report" where
  "merge_probe_report r = (\<lambda>(status, results). r\<lparr>
     vr_evidence := (if status = FAIL then FAIL
       else if status = INCONCLUSIVE \<and> vr_evidence r = PASS then INCONCLUSIVE else vr_evidence r),
     vr_checks := vr_checks r @ results\<rparr>)"

definition probe_before_accept :: "crypto \<Rightarrow> ('a, 'c, 'w, 'm) loop \<Rightarrow> action_intent \<Rightarrow> observation \<Rightarrow> verification_report
    \<Rightarrow> ('a, 'c, 'w, verification_report) loop_act" where
  "probe_before_accept cr lp intent x r =
     (if ob_success x \<and> (report_accepted r \<or> safe_for_criterion_progress lp x r) \<and> \<not> Option.is_none (lp_probes lp)
      then andthen (loop_run_probes cr lp intent x r ''pre-accept'' True) (\<lambda>p. ret (case p of None \<Rightarrow> r | Some p \<Rightarrow> merge_probe_report r p))
      else ret r)"

definition check_py :: "check_result \<Rightarrow> pyval" where
  "check_py c = PDict [(''name'', PStr (cr_name c)), (''status'', PStr (check_status_value (cr_status c))),
     (''evidence'', PDict (cr_evidence c)), (''message'', PStr (cr_message c))]"

definition record_verification :: "crypto \<Rightarrow> ('a, 'c, 'w, 'm) loop \<Rightarrow> action_intent \<Rightarrow> observation \<Rightarrow> verification_report \<Rightarrow> ('a, 'c, 'w, string) loop_act" where
  "record_verification cr lp intent x r =
     andthen (whenever (ob_success x) (modify (\<lambda>s. s\<lparr>ls_evidence := accumulator_append cr (ls_evidence s) intent x r\<rparr>))) (\<lambda>_.
     log_event cr lp ''verification.completed'' [(''intent_digest'', PStr (intent_digest cr intent)),
        (''accepted'', PBool (report_accepted r)), (''correctness'', PStr (check_status_value (vr_correctness r))),
        (''policy'', PStr (check_status_value (vr_policy r))), (''evidence'', PStr (check_status_value (vr_evidence r))),
        (''quality'', PStr (check_status_value (vr_quality r))), (''checks'', PList (map check_py (vr_checks r)))])"

definition record_shadow_diagnostic :: "crypto \<Rightarrow> ('a, 'c, 'w, 'm) loop \<Rightarrow> action_intent \<Rightarrow> observation \<Rightarrow> verification_report
    \<Rightarrow> ('a, 'c, 'w, neural_diagnostic option) loop_act" where
  "record_shadow_diagnostic cr lp intent x r = (case lp_shadow lp of
       None \<Rightarrow> ret None
     | Some diagnose \<Rightarrow>
         catch (andthen (on_world (diagnose (lp_contract lp) intent x r)) (\<lambda>(d, payload).
             andthen (log_event cr lp ''neural.shadow.completed'' [(''intent_digest'', PStr (intent_digest cr intent)),
               (''diagnostic'', PDict payload)]) (\<lambda>_. ret (Some d))))
           (\<lambda>e. andthen (log_event cr lp ''neural.shadow.unavailable'' [(''intent_digest'', PStr (intent_digest cr intent)),
               (''error_type'', PStr (exc_name (fst e)))]) (\<lambda>_. ret None)))"

section \<open>The final goal and memory\<close>

definition final_inconclusive :: "string \<Rightarrow> string \<Rightarrow> check_result" where
  "final_inconclusive error message = \<lparr>cr_name = ''final-goal'', cr_status = INCONCLUSIVE,
     cr_evidence = [(''error_type'', PStr error)], cr_message = message\<rparr>"

definition final_result :: "('a, 'c, 'w, 'm) loop \<Rightarrow> verification_report \<Rightarrow> pydict list \<Rightarrow> evidence_snapshot \<Rightarrow> check_result" where
  "final_result lp r history evidence =
     (let result = (case lp_final lp of
          None \<Rightarrow> final_inconclusive ''MissingFinalVerifier'' ''an explicit final verifier is required before acceptance''
        | Some verify \<Rightarrow> (case verify (lp_contract lp) r history evidence of
              Inr c \<Rightarrow> c
            | Inl e \<Rightarrow> final_inconclusive (exc_name (fst e)) ''final verifier was unavailable''))
      in if cr_name result \<noteq> ''final-goal''
         then final_inconclusive ''InvalidFinalCheckName'' ''final verifier returned an invalid check'' else result)"

definition verify_final_goal :: "crypto \<Rightarrow> ('a, 'c, 'w, 'm) loop \<Rightarrow> verification_report \<Rightarrow> ('a, 'c, 'w, check_result \<times> string) loop_act" where
  "verify_final_goal cr lp r =
     andthen (gets (\<lambda>s. final_result lp r (ls_history s) (ls_evidence s))) (\<lambda>result.
     andthen (log_event cr lp ''final-goal.completed'' [(''status'', PStr (check_status_value (cr_status result))),
        (''evidence'', PDict (cr_evidence result)), (''message'', PStr (take 500 (cr_message result)))]) (\<lambda>h. ret (result, h)))"

definition completion_report :: "evidence_snapshot \<Rightarrow> check_result \<Rightarrow> task_completion_report" where
  "completion_report e final = \<lparr>tr_action_reports = map ae_report (es_actions e), tr_final_check = final,
     tr_final_workspace_digest = final_source_state_digest e\<rparr>"

definition propose_and_commit :: "crypto \<Rightarrow> ('a, 'c, 'w, 'm) loop
    \<Rightarrow> (task_contract \<Rightarrow> pydict list \<Rightarrow> task_completion_report \<Rightarrow> check_result \<Rightarrow> string list \<Rightarrow> 'w \<Rightarrow> 'm option res \<times> 'w)
    \<Rightarrow> ('m \<Rightarrow> task_completion_report \<Rightarrow> check_result \<Rightarrow> string \<Rightarrow> string list \<Rightarrow> ledger \<times> 'w \<Rightarrow> (string \<times> string) res \<times> ledger \<times> 'w)
    \<Rightarrow> check_result \<Rightarrow> string list \<Rightarrow> ('a, 'c, 'w, unit) loop_act" where
  "propose_and_commit cr lp produce commit final refs =
     andthen (gets (\<lambda>s. completion_report (ls_evidence s) final)) (\<lambda>report.
     andthen (asks (\<lambda>s. event_hashes_for_run (ls_ledger s) (lp_run_id lp))) (\<lambda>hashes.
     let all_refs = fromkeys (hashes @ refs) in
     andthen (gets ls_history) (\<lambda>history.
     andthen (on_world (produce (lp_contract lp) history report final all_refs)) (\<lambda>candidate. case candidate of
       None \<Rightarrow> andthen (log_event cr lp ''memory.commit.skipped'' [(''reason'', PStr ''no-memory-candidate'')]) (\<lambda>_. ret ())
     | Some m \<Rightarrow>
         andthen (zoom (\<lambda>s. (ls_ledger s, ls_world s)) (\<lambda>(l, w) s. s\<lparr>ls_ledger := l, ls_world := w\<rparr>)
           (commit m report final (lp_run_id lp) all_refs)) (\<lambda>(memory_id, h).
         andthen (log_event cr lp ''memory.committed'' [(''memory_id'', PStr memory_id), (''memory_ledger_event_hash'', PStr h)])
           (\<lambda>_. ret ()))))))"

definition commit_verified_memory :: "crypto \<Rightarrow> ('a, 'c, 'w, 'm) loop \<Rightarrow> check_result \<Rightarrow> string list \<Rightarrow> ('a, 'c, 'w, unit) loop_act" where
  "commit_verified_memory cr lp final refs = (case (lp_producer lp, lp_committer lp) of
       (None, None) \<Rightarrow> ret ()
     | (Some produce, Some commit) \<Rightarrow>
         catch (propose_and_commit cr lp produce commit final refs)
           (\<lambda>e. andthen (log_event cr lp ''memory.commit.rejected'' [(''error_type'', PStr (exc_name (fst e)))]) (\<lambda>_. ret ()))
     | _ \<Rightarrow> andthen (log_event cr lp ''memory.commit.skipped'' [(''reason'', PStr ''memory-committer-not-fully-configured'')]) (\<lambda>_. ret ()))"

section \<open>The decision of an iteration\<close>

text \<open>\<open>Some d\<close>: the run returns \<open>d\<close>; \<open>None\<close>: the next iteration.\<close>

definition push_history :: "pydict \<Rightarrow> ('a, 'c, 'w, unit) loop_act" where
  "push_history h = modify (\<lambda>s. s\<lparr>ls_history := ls_history s @ [h]\<rparr>)"

definition accept_run :: "crypto \<Rightarrow> ('a, 'c, 'w, 'm) loop \<Rightarrow> int \<Rightarrow> check_result \<Rightarrow> observation \<Rightarrow> string list \<Rightarrow> ('a, 'c, 'w, loop_decision option) loop_act" where
  "accept_run cr lp i final x refs =
     andthen (graph_accept cr lp i final x) (\<lambda>_.
     andthen (commit_verified_memory cr lp final refs) (\<lambda>_.
     andthen (terminal cr lp ACCEPT ''verified-success'') (\<lambda>d. ret (Some d))))"

text \<open>\<open>dict(...)\<close> of a value that is not a mapping: empty sequences give an empty dictionary, the rest
  raises (a sequence of pairs is not modelled).\<close>

definition condition_statuses :: "check_result \<Rightarrow> pyval res" where
  "condition_statuses c = (case dget (cr_evidence c) ''condition_statuses'' of
       None \<Rightarrow> Inr (PDict [])
     | Some (PDict d) \<Rightarrow> Inr (PDict d)
     | Some v \<Rightarrow> if v \<in> {PStr [], PList [], PTuple []} then Inr (PDict [])
         else Inl (TypeError, ''cannot convert dictionary update sequence''))"

definition progress_criterion :: "crypto \<Rightarrow> ('a, 'c, 'w, 'm) loop \<Rightarrow> int \<Rightarrow> action_intent \<Rightarrow> observation \<Rightarrow> verification_report
    \<Rightarrow> string list \<Rightarrow> ('a, 'c, 'w, loop_decision option) loop_act" where
  "progress_criterion cr lp i intent x r refs =
     andthen (verify_final_goal cr lp r) (\<lambda>(final, h).
     if cr_status final = PASS then accept_run cr lp i final x (refs @ [h])
     else andthen (liftr (condition_statuses final)) (\<lambda>statuses.
          andthen (push_history [(''intent'', PStr (intent_digest cr intent)), (''task_progress'', PBool True),
            (''final_status'', PStr (check_status_value (cr_status final))), (''criterion_statuses'', statuses)]) (\<lambda>_.
          andthen (log_event cr lp ''criterion.progressed'' [(''intent_digest'', PStr (intent_digest cr intent)),
            (''final_status'', PStr (check_status_value (cr_status final)))]) (\<lambda>_.
          andthen (checkpoint_ready cr lp (i + 1)) (\<lambda>_. ret None)))))"

definition log_directive :: "crypto \<Rightarrow> ('a, 'c, 'w, 'm) loop \<Rightarrow> action_intent \<Rightarrow> repair_directive \<Rightarrow> ('a, 'c, 'w, unit) loop_act" where
  "log_directive cr lp intent d = andthen (log_event cr lp ''repair.directive'' [(''intent_digest'', PStr (intent_digest cr intent)),
     (''decision'', PStr (loop_decision_value (rd_decision d))), (''stage'', PStr (rd_stage d)), (''reason'', PStr (rd_reason d)),
     (''advisory_stage'', str_opt (map_option PStr (rd_advisory_stage d))), (''evidence_gaps'', pstrs (rd_evidence_gaps d))]) (\<lambda>_. ret ())"

definition replan_final_goal :: repair_directive where
  "replan_final_goal = \<lparr>rd_decision = REPLAN, rd_stage = ''replan'', rd_reason = ''final-goal-not-satisfied'',
     rd_advisory_stage = None, rd_evidence_gaps = []\<rparr>"

text \<open>A failure seen before escalates, a new one is remembered and \<open>k\<close> continues.\<close>

definition remember_failure :: "crypto \<Rightarrow> ('a, 'c, 'w, 'm) loop \<Rightarrow> string \<times> string \<Rightarrow> string \<Rightarrow> ('a, 'c, 'w, loop_decision option) loop_act
    \<Rightarrow> ('a, 'c, 'w, loop_decision option) loop_act" where
  "remember_failure cr lp key reason k =
     andthen (gets ls_seen) (\<lambda>seen.
     if key \<in> set seen then andthen (terminal cr lp ESCALATE reason) (\<lambda>d. ret (Some d))
     else andthen (modify (\<lambda>s. s\<lparr>ls_seen := ls_seen s @ [key]\<rparr>)) (\<lambda>_. k))"

definition conclude_accepted :: "crypto \<Rightarrow> ('a, 'c, 'w, 'm) loop \<Rightarrow> int \<Rightarrow> action_intent \<Rightarrow> observation \<Rightarrow> verification_report
    \<Rightarrow> string list \<Rightarrow> ('a, 'c, 'w, loop_decision option) loop_act" where
  "conclude_accepted cr lp i intent x r refs =
     andthen (verify_final_goal cr lp r) (\<lambda>(final, h).
     if cr_status final = PASS then accept_run cr lp i final x (refs @ [h])
     else andthen (log_directive cr lp intent replan_final_goal) (\<lambda>_.
       remember_failure cr lp (''final-goal'', check_status_value (cr_status final)) ''repeated-final-goal-failure''
         (andthen (push_history [(''intent'', PStr (intent_digest cr intent)),
             (''final_goal'', PStr (check_status_value (cr_status final))), (''final_goal_message'', PStr (take 240 (cr_message final)))]) (\<lambda>_.
          andthen (checkpoint_ready cr lp (i + 1)) (\<lambda>_. ret None)))))"

definition failure_signature :: "crypto \<Rightarrow> action_intent \<Rightarrow> string" where
  "failure_signature cr intent = digest cr (PDict [(''tool'', PStr (in_tool intent)), (''effect'', PStr (effect_value (in_effect intent))),
     (''target'', PStr (in_target intent)), (''arguments'', PDict (in_arguments intent)),
     (''provenance'', PList (map (PStr \<circ> provenance_value) (in_provenance intent))),
     (''contract_id'', PStr (in_contract_id intent)), (''contract_version'', PInt (in_contract_version intent))])"

definition check_pairs :: "check_result list \<Rightarrow> pyval" where
  "check_pairs cs = PList (map (\<lambda>c. PTuple [PStr (cr_name c), PStr (check_status_value (cr_status c))]) cs)"

definition repair_action :: "crypto \<Rightarrow> ('a, 'c, 'w, 'm) loop \<Rightarrow> int \<Rightarrow> action_intent \<Rightarrow> observation \<Rightarrow> verification_report
    \<Rightarrow> neural_diagnostic option \<Rightarrow> ('a, 'c, 'w, loop_decision option) loop_act" where
  "repair_action cr lp i intent x r diagnostic =
     (let d = repair_direct r diagnostic in
      andthen (log_directive cr lp intent d) (\<lambda>_.
      if rd_decision d = ESCALATE then andthen (terminal cr lp ESCALATE (rd_reason d)) (\<lambda>d. ret (Some d))
      else andthen (loop_run_probes cr lp intent x r (rd_stage d) False) (\<lambda>probes.
        remember_failure cr lp (failure_signature cr intent, rd_stage d) ''repeated-identical-failure''
          (andthen (push_history [(''intent'', PStr (intent_digest cr intent)), (''repair_stage'', PStr (rd_stage d)),
              (''repair_reason'', PStr (rd_reason d)), (''advisory_stage'', str_opt (map_option PStr (rd_advisory_stage d))),
              (''evidence_gaps'', pstrs (rd_evidence_gaps d)), (''checks'', check_pairs (vr_checks r)),
              (''probes'', check_pairs (case probes of None \<Rightarrow> [] | Some (_, cs) \<Rightarrow> cs))]) (\<lambda>_.
           andthen (checkpoint_ready cr lp (i + 1)) (\<lambda>_. ret None))))))"

definition decide :: "crypto \<Rightarrow> ('a, 'c, 'w, 'm) loop \<Rightarrow> int \<Rightarrow> action_intent \<Rightarrow> observation \<Rightarrow> verification_report
    \<Rightarrow> neural_diagnostic option \<Rightarrow> string list \<Rightarrow> ('a, 'c, 'w, loop_decision option) loop_act" where
  "decide cr lp i intent x r diagnostic refs =
     (if \<not> report_accepted r \<and> \<not> Option.is_none (lp_final lp) \<and> safe_for_criterion_progress lp x r
      then progress_criterion cr lp i intent x r refs
      else if report_accepted r \<and> ob_success x then conclude_accepted cr lp i intent x r refs
      else repair_action cr lp i intent x r diagnostic)"

definition conclude :: "crypto \<Rightarrow> ('a, 'c, 'w, 'm) loop \<Rightarrow> int \<Rightarrow> action_intent \<Rightarrow> observation \<Rightarrow> string \<Rightarrow> ('a, 'c, 'w, loop_decision option) loop_act" where
  "conclude cr lp i intent x h =
     andthen (evaluate_protected cr lp i intent x) (\<lambda>x.
     andthen (verify_observation cr lp intent x) (\<lambda>r.
     andthen (probe_before_accept cr lp intent x r) (\<lambda>r.
     andthen (record_verification cr lp intent x r) (\<lambda>vh.
     andthen (record_shadow_diagnostic cr lp intent x r) (\<lambda>diagnostic.
     decide cr lp i intent x r diagnostic [h, vh])))))"

section \<open>Runs\<close>

definition run_iteration :: "crypto \<Rightarrow> ('a, 'c, 'w, 'm) loop \<Rightarrow> approval list \<Rightarrow> int \<Rightarrow> ('a, 'c, 'w, loop_decision option) loop_act" where
  "run_iteration cr lp approvals i =
     andthen (graph_begin_iteration cr lp i) (\<lambda>_.
     andthen (gets ls_tool_calls) (\<lambda>calls.
     if tc_maximum_tool_calls (lp_contract lp) \<le> calls
     then andthen (terminal cr lp STOP ''tool-call-budget-exhausted'') (\<lambda>d. ret (Some d))
     else andthen (acquire cr lp approvals i) (\<lambda>r. case r of
         Inl d \<Rightarrow> ret (Some d)
       | Inr (intent, x, h) \<Rightarrow> conclude cr lp i intent x h)))"

fun iterate :: "(int \<Rightarrow> ('a, 'c, 'w, loop_decision option) loop_act) \<Rightarrow> int list \<Rightarrow> ('a, 'c, 'w, loop_decision option) loop_act" where
  "iterate body [] = ret None"
| "iterate body (i # is) = andthen (body i) (\<lambda>r. case r of Some d \<Rightarrow> ret (Some d) | None \<Rightarrow> iterate body is)"

definition run_loop :: "crypto \<Rightarrow> ('a, 'c, 'w, 'm) loop \<Rightarrow> approval list \<Rightarrow> ('a, 'c, 'w, loop_decision) loop_act" where
  "run_loop cr lp approvals =
     andthen (restore_or_start cr lp) (\<lambda>resumed. case resumed of
       Some d \<Rightarrow> ret d
     | None \<Rightarrow>
         andthen (gets (\<lambda>s. case ls_checkpoint s of None \<Rightarrow> 1 | Some c \<Rightarrow> ck_next_iteration c)) (\<lambda>k.
         andthen (iterate (run_iteration cr lp approvals) [k..tc_maximum_iterations (lp_contract lp)]) (\<lambda>r. case r of
           Some d \<Rightarrow> ret d
         | None \<Rightarrow> terminal cr lp STOP ''iteration-budget-exhausted'')))"

definition resume_with_approval :: "crypto \<Rightarrow> ('a, 'c, 'w, 'm) loop \<Rightarrow> approval \<Rightarrow> ('a, 'c, 'w, loop_decision) loop_act" where
  "resume_with_approval cr lp approval =
     (if \<not> lp_store lp then raise RuntimeError ''approval resume requires a durable run-state store''
      else andthen (load_checkpoint cr lp) (\<lambda>found.
        case found of
          None \<Rightarrow> raise RuntimeError ''run is not awaiting approval''
        | Some c \<Rightarrow> if ck_phase c \<noteq> AWAITING_APPROVAL then raise RuntimeError ''run is not awaiting approval''
            else run_loop cr lp [approval]))"

definition reconciliation_bound :: "observation \<Rightarrow> prepared_execution \<Rightarrow> bool" where
  "reconciliation_bound x p \<longleftrightarrow> (\<forall>(k, v) \<in> set (prepared_fields p). dget (ob_metadata x) k = Some v)"

text \<open>The part of \<open>reconcile_effect\<close> before it runs on: only the checkpoint is taken from the store,
  the other attributes stay what they are in this process.\<close>

definition record_reconciled :: "crypto \<Rightarrow> ('a, 'c, 'w, 'm) loop \<Rightarrow> checkpoint \<Rightarrow> action_intent \<Rightarrow> prepared_execution
    \<Rightarrow> observation \<Rightarrow> ('a, 'c, 'w, unit) loop_act" where
  "record_reconciled cr lp c intent p x =
     (if \<not> reconciliation_bound x p
      then raise PermissionError ''reconciliation observation is not bound to the prepared operation''
      else andthen (modify (\<lambda>s. s\<lparr>ls_checkpoint := Some c\<rparr>)) (\<lambda>_.
        andthen (save_checkpoint cr lp ((save_args_of RECONCILED_EFFECT (ck_next_iteration c))\<lparr>va_pending_intent := Some intent,
          va_executor_id := ck_executor_id c, va_prepared := Some p, va_reconciled := Some x\<rparr>)) (\<lambda>_.
        andthen (log_event cr lp ''effect.reconciled'' [(''intent_digest'', PStr (intent_digest cr intent)),
          (''executor_id'', PStr (ck_executor_id c)), (''operation_id'', PStr (pe_operation_id p)),
          (''request_digest'', PStr (pe_request_digest p)), (''success'', PBool (ob_success x)),
          (''exit_code'', opt_int_py (ob_exit_code x))]) (\<lambda>_. ret ()))))"

definition reconcile_effect :: "crypto \<Rightarrow> ('a, 'c, 'w, 'm) loop \<Rightarrow> ('a, 'c, 'w, loop_decision) loop_act" where
  "reconcile_effect cr lp = (case (lp_store lp, lp_reconciler lp) of
       (True, Some reconcile) \<Rightarrow>
         andthen (load_checkpoint cr lp) (\<lambda>found.
         case found of
           None \<Rightarrow> raise RuntimeError ''run does not require effect reconciliation''
         | Some c \<Rightarrow>
           if ck_phase c \<noteq> RECONCILIATION_REQUIRED then raise RuntimeError ''run does not require effect reconciliation''
           else (case (ck_pending_intent c, ck_prepared c) of
               (Some intent, Some p) \<Rightarrow>
                 andthen (on_world (reconcile (lp_run_id lp) (lp_contract lp) intent (ck_executor_id c) p)) (\<lambda>x.
                 andthen (record_reconciled cr lp c intent p x) (\<lambda>_. run_loop cr lp []))
             | _ \<Rightarrow> raise AssertionError []))
     | _ \<Rightarrow> raise RuntimeError ''effect reconciliation requires durable state and a trusted reconciler'')"

definition cancel_run :: "crypto \<Rightarrow> ('a, 'c, 'w, 'm) loop \<Rightarrow> string \<Rightarrow> ('a, 'c, 'w, loop_decision) loop_act" where
  "cancel_run cr lp reason =
     andthen (if \<not> lp_store lp then ret ()
              else andthen (load_checkpoint cr lp) (\<lambda>found. case found of None \<Rightarrow> ret () | Some c \<Rightarrow> restore_from c)) (\<lambda>_.
     terminal cr lp STOP reason)"

end
