(* ===== verification/Loop_Frame.thy ===== *)
theory Loop_Frame
  imports Loop_Decide Scheduler_Inv
begin

text \<open>
  Which methods of the controller leave its durable core alone. The core is the checkpoint, its
  table, the tool-call counter and the trace of effects; planning, logging, graph steps, evidence
  gathering, verification and memory never touch it, and change the graph database by operations of
  the scheduler only. The locale \<open>frame_rel\<close> composes such facts for any preorder on states.
\<close>

section \<open>Code that moves within a relation\<close>

definition moves_in :: "('s \<Rightarrow> 's \<Rightarrow> bool) \<Rightarrow> ('s, 'x) act \<Rightarrow> bool" where
  "moves_in R m \<longleftrightarrow> (\<forall>s. R s (snd (m s)))"

locale frame_rel =
  fixes R :: "'s \<Rightarrow> 's \<Rightarrow> bool"
  assumes refl: "R s s" and trans: "R s t \<Longrightarrow> R t u \<Longrightarrow> R s u"
begin

lemma within_ret: "moves_in R (ret x)"
  by (simp add: moves_in_def ret_def refl)

lemma within_raise: "moves_in R (raise e msg)"
  by (simp add: moves_in_def raise_def refl)

lemma within_gets: "moves_in R (gets f)"
  by (simp add: moves_in_def gets_def refl)

lemma within_liftr: "moves_in R (liftr r)"
  by (simp add: moves_in_def liftr_def refl)

lemma within_asks: "moves_in R (asks f)"
  by (simp add: moves_in_def asks_def refl)

lemma within_andthen:
  assumes "moves_in R m" "\<And>x. moves_in R (k x)"
  shows "moves_in R (andthen m k)"
  unfolding moves_in_def
proof
  fix s
  obtain r t where m: "m s = (r, t)" by fastforce
  have "R s t" using assms(1) m unfolding moves_in_def by (metis snd_conv)
  then show "R s (snd (andthen m k s))"
    using assms(2) by (cases r) (auto simp: andthen_def m moves_in_def intro: trans)
qed

lemma within_catch:
  assumes "moves_in R m" "\<And>e. moves_in R (h e)"
  shows "moves_in R (catch m h)"
  unfolding moves_in_def
proof
  fix s
  obtain r t where m: "m s = (r, t)" by fastforce
  have "R s t" using assms(1) m unfolding moves_in_def by (metis snd_conv)
  then show "R s (snd (catch m h s))"
    using assms(2) by (cases r) (auto simp: catch_def m moves_in_def intro: trans)
qed

lemma within_if: "(b \<Longrightarrow> moves_in R m) \<Longrightarrow> (\<not> b \<Longrightarrow> moves_in R n) \<Longrightarrow> moves_in R (if b then m else n)"
  by simp

lemma within_option:
  "(x = None \<Longrightarrow> moves_in R m) \<Longrightarrow> (\<And>y. x = Some y \<Longrightarrow> moves_in R (n y)) \<Longrightarrow> moves_in R (case x of None \<Rightarrow> m | Some y \<Rightarrow> n y)"
  by (cases x) simp_all

lemma within_sum:
  "(\<And>e. x = Inl e \<Longrightarrow> moves_in R (m e)) \<Longrightarrow> (\<And>y. x = Inr y \<Longrightarrow> moves_in R (n y)) \<Longrightarrow> moves_in R (case x of Inl e \<Rightarrow> m e | Inr y \<Rightarrow> n y)"
  by (cases x) simp_all

lemma within_prod: "(\<And>a b. x = (a, b) \<Longrightarrow> moves_in R (m a b)) \<Longrightarrow> moves_in R (case x of (a, b) \<Rightarrow> m a b)"
  by (cases x) simp

lemma within_Let: "(\<And>y. y = x \<Longrightarrow> moves_in R (m y)) \<Longrightarrow> moves_in R (let y = x in m y)"
  by simp

lemma within_whenever: "(b \<Longrightarrow> moves_in R m) \<Longrightarrow> moves_in R (whenever b m)"
  by (simp add: whenever_def within_ret)

lemma within_for_each: "(\<And>x. moves_in R (f x)) \<Longrightarrow> moves_in R (for_each f xs)"
  by (induction xs) (simp_all add: within_ret within_andthen)

lemma within_fold_act: "(\<And>x b. moves_in R (f x b)) \<Longrightarrow> moves_in R (fold_act f xs b)"
  by (induction xs arbitrary: b) (simp_all add: within_ret within_andthen)

lemma within_modify: "(\<And>s. R s (f s)) \<Longrightarrow> moves_in R (modify f)"
  by (simp add: moves_in_def modify_def)

lemma within_zoom: "(\<And>s. R s (put (snd (op (get s))) s)) \<Longrightarrow> moves_in R (zoom get put op)"
  by (simp add: moves_in_def zoom_def split: prod.split) (metis snd_conv)

lemmas within_intros = within_ret within_raise within_gets within_liftr within_asks within_andthen within_catch within_if
  within_option within_sum within_prod within_Let within_whenever within_for_each within_fold_act within_modify within_zoom

text \<open>Assertions that are stable under the relation survive.\<close>

lemma triple_within:
  assumes "moves_in R m" "\<And>s t. R s t \<Longrightarrow> P s \<Longrightarrow> P t"
  shows "triple P m (\<lambda>_. P) P"
proof (rule tripleI)
  fix s assume "P s"
  obtain r t where m: "m s = (r, t)" by fastforce
  have "R s t" using assms(1) m unfolding moves_in_def by (metis snd_conv)
  then have "P t" using assms(2) \<open>P s\<close> by blast
  then show "case m s of (Inr x, s') \<Rightarrow> P s' | (Inl e, s') \<Rightarrow> P s'" by (cases r) (simp_all add: m)
qed

end

section \<open>Quiet methods\<close>

definition core :: "('a, 'c, 'w) loop_state \<Rightarrow> checkpoint option \<times> int \<times> run_db \<times> effect_call list" where
  "core s = (ls_checkpoint s, ls_tool_calls s, ls_runs s, ls_effects s)"

lemma core_update [simp]:
  "core (s\<lparr>ls_world := w\<rparr>) = core s" "core (s\<lparr>ls_ledger := l\<rparr>) = core s" "core (s\<lparr>ls_sched := d\<rparr>) = core s"
  "core (s\<lparr>ls_gate := g\<rparr>) = core s" "core (s\<lparr>ls_history := h\<rparr>) = core s" "core (s\<lparr>ls_seen := x\<rparr>) = core s"
  "core (s\<lparr>ls_evidence := e\<rparr>) = core s"
  by (simp_all add: core_def)

text \<open>The graph database changes by operations of the scheduler only, and the trace of effects only
  grows, each effect at a database in between.\<close>

definition graph_moves :: "crypto \<Rightarrow> ('a, 'c, 'w, 'm) loop \<Rightarrow> ('a, 'c, 'w) loop_state \<Rightarrow> ('a, 'c, 'w) loop_state \<Rightarrow> bool" where
  "graph_moves cr lp s t \<longleftrightarrow> (sched_step cr (lp_scheduler lp))\<^sup>*\<^sup>* (ls_sched s) (ls_sched t)
     \<and> (\<exists>fs. ls_effects t = ls_effects s @ fs \<and> (\<forall>f \<in> set fs. (sched_step cr (lp_scheduler lp))\<^sup>*\<^sup>* (ls_sched s) (fc_sched f)))"

definition quietly :: "crypto \<Rightarrow> ('a, 'c, 'w, 'm) loop \<Rightarrow> ('a, 'c, 'w) loop_state \<Rightarrow> ('a, 'c, 'w) loop_state \<Rightarrow> bool" where
  "quietly cr lp s t \<longleftrightarrow> core s = core t \<and> graph_moves cr lp s t"

lemma graph_moves_trans:
  assumes "graph_moves cr lp s t" "graph_moves cr lp t u"
  shows "graph_moves cr lp s u"
  using assms unfolding graph_moves_def
  by (elim conjE exE) (auto intro: rtranclp_trans)

interpretation graph: frame_rel "graph_moves cr lp" for cr and lp :: "('a, 'c, 'w, 'm) loop"
  by unfold_locales (auto simp: graph_moves_def [of _ _ s s for s] intro: graph_moves_trans)

interpretation quiet: frame_rel "quietly cr lp" for cr and lp :: "('a, 'c, 'w, 'm) loop"
  by unfold_locales (auto simp: quietly_def intro: graph.refl graph_moves_trans)

lemma quietlyI: "core s = core t \<Longrightarrow> ls_sched t = ls_sched s \<Longrightarrow> quietly cr lp s t"
  by (simp add: quietly_def graph_moves_def core_def)

lemma quietly_graph: "moves_in (quietly cr lp) m \<Longrightarrow> moves_in (graph_moves cr lp) m"
  by (auto simp: moves_in_def quietly_def)

named_theorems quiet_intros \<open>methods that leave the core alone\<close>

section \<open>Accesses, graph steps\<close>

lemma quiet_world [quiet_intros]: "moves_in (quietly cr lp) (on_world op)"
  unfolding on_world_def by (intro quiet.within_zoom quietlyI) simp_all

lemma quiet_accesses [quiet_intros]:
  "moves_in (quietly cr lp) (tick lp)" "moves_in (quietly cr lp) (fresh_id lp)"
  "moves_in (quietly cr lp) (graph_state cr lp i)" "moves_in (quietly cr lp) (run_events lp)"
  "moves_in (quietly cr lp) (load_checkpoint cr lp)"
  unfolding tick_def fresh_id_def graph_state_def run_events_def load_checkpoint_def
  by (intro quiet.within_intros quiet_intros)+

lemma quiet_log [quiet_intros]: "moves_in (quietly cr lp) (log_event cr lp ty payload)"
  unfolding log_event_def by (intro quiet.within_andthen quiet_accesses quiet.within_zoom quietlyI) simp_all

lemma quiet_sched:
  fixes lp :: "('a, 'c, 'w, 'm) loop"
  assumes "\<And>eid now db. sched_step cr (lp_scheduler lp) db (snd (op eid now db))"
  shows "moves_in (quietly cr lp) (on_sched lp op)"
  unfolding on_sched_def
proof (intro quiet.within_andthen quiet_accesses quiet.within_zoom)
  fix eid now and s :: "('a, 'c, 'w) loop_state"
  show "quietly cr lp s (s\<lparr>ls_sched := snd (op eid now (ls_sched s))\<rparr>)"
    using assms [of "ls_sched s" eid now] by (auto simp: quietly_def graph_moves_def)
qed

lemma quiet_sched_ops [quiet_intros]:
  "moves_in (quietly cr lp) (on_sched lp (sched_advance cr (lp_scheduler lp) a c))"
  "moves_in (quietly cr lp) (on_sched lp (sched_reserve cr (lp_scheduler lp) a))"
  "moves_in (quietly cr lp) (on_sched lp (sched_complete cr (lp_scheduler lp) a k))"
  by (rule quiet_sched, metis sched_step.intros surjective_pairing)+

lemma quiet_graph_steps [quiet_intros]:
  "moves_in (quietly cr lp) (graph_advance cr lp i node ty payload authorization)" "moves_in (quietly cr lp) (graph_reserve cr lp i node)"
  "moves_in (quietly cr lp) (complete_reserved cr lp i node a r)"
  unfolding graph_advance_def graph_reserve_def complete_reserved_def by (intro quiet.within_intros quiet_intros)+

lemma quiet_graph_complete [quiet_intros]: "moves_in (quietly cr lp) (graph_complete cr lp i node a r)"
  unfolding graph_complete_def by (intro quiet.within_intros quiet_intros)

lemma quiet_graph_begin [quiet_intros]: "moves_in (quietly cr lp) (graph_begin_iteration cr lp i)"
  unfolding graph_begin_iteration_def by (intro quiet.within_intros quiet_intros)

lemma quiet_graph_authorise [quiet_intros]: "moves_in (quietly cr lp) (graph_authorise_action_rule cr lp i intent)"
  unfolding graph_authorise_action_rule_def by (intro quiet.within_intros quiet_intros)

lemma quiet_admit [quiet_intros]:
  "moves_in (quietly cr lp) (admit_snapshot cr lp i x)" "moves_in (quietly cr lp) (admit_evaluator cr lp i x n)" "moves_in (quietly cr lp) (admit_receipt cr lp i checks n)"
  "moves_in (quietly cr lp) (accept_criterion cr lp i checks n)"
  unfolding admit_snapshot_def admit_evaluator_def admit_receipt_def accept_criterion_def by (intro quiet.within_intros quiet_intros)+

lemma quiet_graph_accept [quiet_intros]: "moves_in (quietly cr lp) (graph_accept cr lp i final x)"
  unfolding graph_accept_def admit_development_evidence_def by (intro quiet.within_intros quiet_intros)

section \<open>Planning, evidence, verification and memory\<close>

lemma quiet_propose [quiet_intros]: "moves_in (quietly cr lp) (propose cr lp)"
  unfolding propose_def build_context_def ask_planner_def by (intro quiet.within_intros quiet_intros)

lemma quiet_prepare [quiet_intros]: "moves_in (quietly cr lp) (loop_prepare_execution cr lp i intent)"
  unfolding loop_prepare_execution_def by (intro quiet.within_intros quiet_intros)

lemma quiet_authorize [quiet_intros]: "moves_in (quietly cr lp) (authorize_intent cr lp intent approvals)"
  unfolding authorize_intent_def by (intro quiet.within_intros quiet_intros quietlyI) simp_all

lemma quiet_record [quiet_intros]: "moves_in (quietly cr lp) (record_result cr lp i c p x)" "moves_in (quietly cr lp) (take_reconciled cr lp i ck)"
  unfolding record_result_def take_reconciled_def by (intro quiet.within_intros quiet_intros)+

lemma quiet_evaluate [quiet_intros]: "moves_in (quietly cr lp) (evaluate_protected cr lp i intent x)"
  unfolding evaluate_protected_def gather_receipts_def run_plan_def log_unavailable_def by (intro quiet.within_intros quiet_intros)

lemma quiet_verify [quiet_intros]: "moves_in (quietly cr lp) (verify_observation cr lp intent x)"
  unfolding verify_observation_def by (intro quiet.within_intros quiet_intros)

lemma quiet_probes [quiet_intros]: "moves_in (quietly cr lp) (loop_run_probes cr lp intent x r stage force)"
  "moves_in (quietly cr lp) (probe_before_accept cr lp intent x r)"
  unfolding probe_before_accept_def loop_run_probes_def by (intro quiet.within_intros quiet_intros)+

lemma quiet_record_verification [quiet_intros]: "moves_in (quietly cr lp) (record_verification cr lp intent x r)"
  unfolding record_verification_def by (intro quiet.within_intros quiet_intros quietlyI) simp_all

lemma quiet_shadow [quiet_intros]: "moves_in (quietly cr lp) (record_shadow_diagnostic cr lp intent x r)"
  unfolding record_shadow_diagnostic_def by (intro quiet.within_intros quiet_intros)

lemma quiet_final_goal [quiet_intros]: "moves_in (quietly cr lp) (verify_final_goal cr lp r)"
  unfolding verify_final_goal_def by (intro quiet.within_intros quiet_intros)

lemma quiet_commit [quiet_intros]: "moves_in (quietly cr lp) (commit_verified_memory cr lp final refs)"
  unfolding commit_verified_memory_def propose_and_commit_def
  by (intro quiet.within_intros quiet_intros quietlyI) (simp_all split: prod.split)

lemma quiet_notes [quiet_intros]: "moves_in (quietly cr lp) (push_history h)" "moves_in (quietly cr lp) (log_directive cr lp intent d)" "moves_in (quietly cr lp) (log_started cr lp)"
  "moves_in (quietly cr lp) (log_blocked cr lp reason c)" "moves_in (quietly cr lp) (resume_intent cr lp i c)"
  unfolding push_history_def log_directive_def log_started_def log_blocked_def resume_intent_def
  by (intro quiet.within_intros quiet_intros quietlyI; simp)+

section \<open>The whole controller moves the graph through the scheduler\<close>

named_theorems graph_intros \<open>methods that write the core\<close>

lemma graph_movesI: "ls_sched t = ls_sched s \<Longrightarrow> ls_effects t = ls_effects s \<Longrightarrow> graph_moves cr lp s t"
  by (simp add: graph_moves_def)

lemma graph_save [graph_intros]: "moves_in (graph_moves cr lp) (save_to_store cr lp c)" "moves_in (graph_moves cr lp) (restore_from d)"
  unfolding save_to_store_def restore_from_def
  by (intro graph.within_intros quiet_intros [THEN quietly_graph] graph_movesI; simp)+

lemma graph_save_checkpoint [graph_intros]:
  "moves_in (graph_moves cr lp) (save_checkpoint cr lp a)" "moves_in (graph_moves cr lp) (first_checkpoint cr lp)"
  unfolding save_checkpoint_def first_checkpoint_def
  by (intro graph.within_intros graph_intros quiet_intros [THEN quietly_graph])+

lemma graph_checkpoints [graph_intros]:
  "moves_in (graph_moves cr lp) (checkpoint_ready cr lp i)" "moves_in (graph_moves cr lp) (checkpoint_pending_authorization cr lp i intent)"
  "moves_in (graph_moves cr lp) (checkpoint_pending_effect cr lp i intent p)" "moves_in (graph_moves cr lp) (terminal cr lp d reason)"
  "moves_in (graph_moves cr lp) (await_approval cr lp i intent reason)" "moves_in (graph_moves cr lp) (resume_checkpoint cr lp c)"
  unfolding checkpoint_ready_def checkpoint_pending_authorization_def checkpoint_pending_effect_def terminal_def
    await_approval_def resume_checkpoint_def
  by (intro graph.within_intros graph_intros quiet_intros [THEN quietly_graph])+

lemma graph_restore [graph_intros]: "moves_in (graph_moves cr lp) (restore_or_start cr lp)"
  unfolding restore_or_start_def by (intro graph.within_intros graph_intros quiet_intros [THEN quietly_graph])

lemma graph_effect [graph_intros]: "moves_in (graph_moves cr lp) (run_effect lp i intent c p)"
  unfolding run_effect_def
  by (intro graph.within_andthen graph.within_modify quiet_intros [THEN quietly_graph]) (simp add: graph_moves_def)

lemma graph_execute [graph_intros]: "moves_in (graph_moves cr lp) (execute_effect cr lp i intent c)"
  unfolding execute_effect_def prepare_effect_def dispatch_effect_def
  by (intro graph.within_intros graph_intros quiet_intros [THEN quietly_graph] graph_movesI; simp)

lemma graph_acquire [graph_intros]: "moves_in (graph_moves cr lp) (acquire cr lp approvals i)"
  unfolding acquire_def authorize_and_execute_def propose_intent_def deny_intent_def
  by (intro graph.within_intros graph_intros quiet_intros [THEN quietly_graph] graph_movesI; simp)

lemma graph_remember: "moves_in (graph_moves cr lp) m \<Longrightarrow> moves_in (graph_moves cr lp) (remember_failure cr lp key reason m)"
  unfolding remember_failure_def
  by (intro graph.within_intros graph_intros graph_movesI; simp)

lemma graph_decide [graph_intros]: "moves_in (graph_moves cr lp) (conclude cr lp i intent x h)"
  unfolding conclude_def decide_def progress_criterion_def conclude_accepted_def repair_action_def accept_run_def
  by (intro graph.within_intros graph_remember graph_intros quiet_intros [THEN quietly_graph])

lemma graph_iterate: "(\<And>i. moves_in (graph_moves cr lp) (body i)) \<Longrightarrow> moves_in (graph_moves cr lp) (iterate body is)"
  by (induction "is") (simp_all, (intro graph.within_intros; simp)+)

lemma run_loop_moves: "moves_in (graph_moves cr lp) (run_loop cr lp approvals)"
  unfolding run_loop_def run_iteration_def
  by (intro graph.within_intros graph_iterate graph_intros quiet_intros [THEN quietly_graph])

end
