(* ===== verification/Loop_Inv.thy ===== *)
theory Loop_Inv
  imports Loop_Frame
begin

text \<open>
  What the controller guarantees about effects (\<open>src/vloop/controller.py\<close>), across any number of
  calls and restarts: every call of the executor is authorised by the gate, dispatched by the
  control graph and preceded by its durable checkpoint, and no iteration of a run executes twice.
\<close>

section \<open>The guards of an effect\<close>

text \<open>The gate granted the capability, for this intent, executor and graph node.\<close>

definition authorised_by :: "crypto \<Rightarrow> ('a, 'c, 'w, 'm) loop \<Rightarrow> action_intent \<Rightarrow> capability \<Rightarrow> bool" where
  "authorised_by cr lp intent c \<longleftrightarrow>
     (\<exists>q. gc_intent q = intent \<and> admitted (pg_contract (lp_gate lp)) intent (gc_now q)
        \<and> (requires_approval intent (matching_rules (pg_contract (lp_gate lp)) intent)
             \<longrightarrow> (\<exists>a \<in> set (gc_approvals q). acceptable_approval cr (lp_gate lp) q a)))
     \<and> cap_intent_digest c = intent_digest cr intent \<and> cap_executor_id c = lp_executor_id lp
     \<and> cap_graph_digest c = loop_graph_digest cr lp \<and> cap_graph_node_id c = ''capability.execute''"

definition node_completed :: "crypto \<Rightarrow> ('a, 'c, 'w, 'm) loop \<Rightarrow> sched_db \<Rightarrow> int \<Rightarrow> string \<Rightarrow> bool" where
  "node_completed cr lp db i node \<longleftrightarrow>
     (\<exists>st. load_state cr (lp_scheduler lp) db (lp_run_id lp) i = Inr st \<and> node \<in> ts_completed st)"

text \<open>The checkpoint that a restart would find.\<close>

definition stored_as :: "('a, 'c, 'w, 'm) loop \<Rightarrow> run_db \<Rightarrow> save_args \<Rightarrow> bool" where
  "stored_as lp db a \<longleftrightarrow> (\<exists>c k now. dget db (lp_run_id lp) = Some (row_of c k now) \<and> ck_phase c = va_phase a
     \<and> ck_next_iteration c = va_next_iteration a \<and> ck_pending_intent c = va_pending_intent a
     \<and> ck_executor_id c = va_executor_id a \<and> ck_prepared c = va_prepared a \<and> ck_reconciled c = va_reconciled a)"

definition pending_effect_args :: "('a, 'c, 'w, 'm) loop \<Rightarrow> int \<Rightarrow> action_intent \<Rightarrow> prepared_execution \<Rightarrow> save_args" where
  "pending_effect_args lp i intent p = (save_args_of PENDING_EFFECT i)\<lparr>va_pending_intent := Some intent,
     va_executor_id := lp_executor_id lp, va_prepared := Some p\<rparr>"

definition iteration_ok :: "('a, 'c, 'w, 'm) loop \<Rightarrow> int \<Rightarrow> bool" where
  "iteration_ok lp i \<longleftrightarrow> 1 \<le> i \<and> i \<le> tc_maximum_iterations (lp_contract lp)"

definition guarded_effect :: "crypto \<Rightarrow> ('a, 'c, 'w, 'm) loop \<Rightarrow> effect_call \<Rightarrow> bool" where
  "guarded_effect cr lp f \<longleftrightarrow> authorised_by cr lp (fc_intent f) (fc_capability f)
     \<and> iteration_ok lp (fc_iteration f) \<and> prepared_binds cr lp (fc_iteration f) (fc_intent f) (fc_prepared f)
     \<and> node_completed cr lp (fc_sched f) (fc_iteration f) ''executor.dispatch''
     \<and> stored_as lp (fc_runs f) (pending_effect_args lp (fc_iteration f) (fc_intent f) (fc_prepared f))"

section \<open>The invariant of a run\<close>

definition open_phases :: "run_phase set" where
  "open_phases = {READY, PENDING_AUTHORIZATION, AWAITING_APPROVAL}"

text \<open>Effects happened in earlier iterations than the stored one; at the stored one only once the
  stored phase tells so.\<close>

definition behind :: "effect_call list \<Rightarrow> checkpoint_row \<Rightarrow> bool" where
  "behind fs r \<longleftrightarrow> (\<forall>f \<in> set fs. fc_iteration f \<le> kr_next_iteration r
     \<and> (kr_phase r \<in> run_phase_value ` open_phases \<longrightarrow> fc_iteration f < kr_next_iteration r))"

definition run_inv :: "crypto \<Rightarrow> ('a, 'c, 'w, 'm) loop \<Rightarrow> ('a, 'c, 'w) loop_state \<Rightarrow> bool" where
  "run_inv cr lp s \<longleftrightarrow> (\<forall>f \<in> set (ls_effects s). guarded_effect cr lp f)
     \<and> sorted_wrt (<) (map fc_iteration (ls_effects s))
     \<and> (case dget (ls_runs s) (lp_run_id lp) of None \<Rightarrow> ls_effects s = [] | Some r \<Rightarrow> behind (ls_effects s) r)"

text \<open>The checkpoint in memory is the stored one, up to what its writer does not read.\<close>

definition synced :: "('a, 'c, 'w, 'm) loop \<Rightarrow> run_phase set \<Rightarrow> int \<Rightarrow> ('a, 'c, 'w) loop_state \<Rightarrow> bool" where
  "synced lp phases i s \<longleftrightarrow> (\<exists>c r. ls_checkpoint s = Some c \<and> dget (ls_runs s) (lp_run_id lp) = Some r
     \<and> ck_phase c \<in> phases \<and> kr_phase r = run_phase_value (ck_phase c)
     \<and> ck_next_iteration c = i \<and> kr_next_iteration r = i)"

text \<open>The tool calls counted since a point with \<open>n\<close> effects and \<open>k\<close> calls.\<close>

definition counted :: "('a, 'c, 'w, 'm) loop \<Rightarrow> int \<Rightarrow> int \<Rightarrow> ('a, 'c, 'w) loop_state \<Rightarrow> bool" where
  "counted lp n k s \<longleftrightarrow> int (length (ls_effects s)) - n \<le> ls_tool_calls s - k
     \<and> ls_tool_calls s \<le> max k (tc_maximum_tool_calls (lp_contract lp))"

definition during :: "crypto \<Rightarrow> ('a, 'c, 'w, 'm) loop \<Rightarrow> int \<Rightarrow> int \<Rightarrow> ('a, 'c, 'w) loop_state \<Rightarrow> bool" where
  "during cr lp n k s \<longleftrightarrow> run_inv cr lp s \<and> counted lp n k s"

lemma core_fields:
  "core s = core t \<Longrightarrow> ls_checkpoint s = ls_checkpoint t" "core s = core t \<Longrightarrow> ls_runs s = ls_runs t"
  "core s = core t \<Longrightarrow> ls_effects s = ls_effects t" "core s = core t \<Longrightarrow> ls_tool_calls s = ls_tool_calls t"
  by (simp_all add: core_def)

lemma core_stable:
  assumes "quietly cr lp s t"
  shows "run_inv cr lp' s = run_inv cr lp' t" "synced lp' ps i s = synced lp' ps i t" "counted lp' n k s = counted lp' n k t"
    "during cr lp' n k s = during cr lp' n k t" "stored_as lp' (ls_runs s) a = stored_as lp' (ls_runs t) a"
  using core_fields [of s t] assms
  by (simp_all add: quietly_def run_inv_def synced_def counted_def during_def cong: option.case_cong)

text \<open>Assertions over these.\<close>

locale core_assertion =
  fixes cr :: crypto and lp :: "('a, 'c, 'w, 'm) loop" and P :: "('a, 'c, 'w) loop_state \<Rightarrow> bool"
  assumes on_core: "quietly cr lp s t \<Longrightarrow> P s \<Longrightarrow> P t"
begin

lemma triple_quiet:
  assumes "moves_in (quietly cr lp) m" "\<And>s. P s \<Longrightarrow> E s"
  shows "triple P m (\<lambda>_. P) E"
  by (rule triple_conseq [OF quiet.triple_within [OF assms(1), of P]]) (auto intro: on_core assms(2))

lemma triple_quiet_then:
  assumes "moves_in (quietly cr lp) m" "\<And>s. P s \<Longrightarrow> E s" "\<And>x. triple P (k x) Q E"
  shows "triple P (andthen m k) Q E"
  by (rule triple_andthen [OF triple_quiet [OF assms(1,2)] assms(3)])

end

lemma triple_fixed: "(\<And>x. triple (\<lambda>s. P s \<and> f s = x) m Q E) \<Longrightarrow> triple P m Q E"
  by (simp add: triple_def)

section \<open>Saving\<close>

definition ahead :: "save_args \<Rightarrow> effect_call list \<Rightarrow> bool" where
  "ahead a fs \<longleftrightarrow> (\<forall>f \<in> set fs. fc_iteration f \<le> va_next_iteration a
     \<and> (va_phase a \<in> open_phases \<longrightarrow> fc_iteration f < va_next_iteration a))"

text \<open>The invariant with the effects and the counter held fixed.\<close>

definition frozen :: "crypto \<Rightarrow> ('a, 'c, 'w, 'm) loop \<Rightarrow> effect_call list \<Rightarrow> int \<Rightarrow> ('a, 'c, 'w) loop_state \<Rightarrow> bool" where
  "frozen cr lp fs t s \<longleftrightarrow> run_inv cr lp s \<and> ls_effects s = fs \<and> ls_tool_calls s = t"

lemma phase_value_inj: "run_phase_value p = run_phase_value q \<longleftrightarrow> p = q"
  by (metis enum_run_phase sum.inject(2))

lemma run_save_post:
  assumes "frozen cr lp fs t s" "ck_run_id c = lp_run_id lp" "checkpoint_wf cr c"
    "\<forall>f \<in> set fs. fc_iteration f \<le> ck_next_iteration c \<and> (ck_phase c \<in> open_phases \<longrightarrow> fc_iteration f < ck_next_iteration c)"
  shows "case run_save cr (ls_runs s) (c, now) of
      (Inr c', db) \<Rightarrow> (let s' = s\<lparr>ls_runs := db, ls_checkpoint := Some c'\<rparr> in frozen cr lp fs t s'
         \<and> synced lp {ck_phase c} (ck_next_iteration c) s' \<and> (\<exists>k now. dget db (lp_run_id lp) = Some (row_of c k now)))
    | (Inl e, db) \<Rightarrow> db = ls_runs s"
proof (cases rule: run_save_cases [OF assms(3), of "ls_runs s" now])
  case (1 c')
  define db where "db = snd (run_save cr (ls_runs s) (c, now))"
  have row: "dget db (lp_run_id lp) = Some (row_of c (ck_revision c + 1) now)" using 1(4) assms(2) by (simp add: db_def)
  have "behind fs (row_of c (ck_revision c + 1) now)"
    using assms(4) by (auto simp: behind_def row_of_def phase_value_inj image_iff)
  then show ?thesis
    using assms(1) 1(1,2) row by (simp add: db_def [symmetric] frozen_def run_inv_def synced_def row_of_def Let_def)
       (auto simp: row_of_def)
next
  case (2 e)
  then show ?thesis by simp
qed

lemma quietly_fields: "quietly cr lp s t \<Longrightarrow> ls_effects s = ls_effects t \<and> ls_tool_calls s = ls_tool_calls t"
  by (simp add: quietly_def core_def)

interpretation frozen: core_assertion cr lp "frozen cr lp fs t" for cr lp fs t
  by unfold_locales (metis frozen_def core_stable(1) quietly_fields)

interpretation during: core_assertion cr lp "during cr lp n k" for cr lp n k
  by unfold_locales (use core_stable(4) in blast)

interpretation at_phase: core_assertion cr lp "\<lambda>s. during cr lp n k s \<and> synced lp ps i s" for cr lp n k ps i
  by unfold_locales (use core_stable(2,4) in blast)

lemma save_to_store_triple:
  assumes "ck_run_id c = lp_run_id lp"
    "\<forall>f \<in> set fs. fc_iteration f \<le> ck_next_iteration c \<and> (ck_phase c \<in> open_phases \<longrightarrow> fc_iteration f < ck_next_iteration c)"
  shows "triple (frozen cr lp fs t) (save_to_store cr lp c)
    (\<lambda>_ s. frozen cr lp fs t s \<and> synced lp {ck_phase c} (ck_next_iteration c) s
       \<and> (\<exists>k now. dget (ls_runs s) (lp_run_id lp) = Some (row_of c k now)))
    (frozen cr lp fs t)"
proof (rule tripleI)
  fix s assume s: "frozen cr lp fs t s"
  have keep: "frozen cr lp fs t (snd (tick lp s))"
    using frozen.on_core [OF _ s] quiet_accesses(1) [of cr lp] unfolding moves_in_def by blast
  obtain now u where u: "tick lp s = (Inr now, u)"
    by (cases "lp_clock lp (ls_world s)") (simp add: tick_def on_world_def zoom_def)
  show "case save_to_store cr lp c s of (Inr x, s') \<Rightarrow> frozen cr lp fs t s' \<and> synced lp {ck_phase c} (ck_next_iteration c) s'
       \<and> (\<exists>k now. dget (ls_runs s') (lp_run_id lp) = Some (row_of c k now)) | (Inl e, s') \<Rightarrow> frozen cr lp fs t s'"
  proof (cases "checkpoint_init cr c")
    case (Inl e)
    then show ?thesis using s by (simp add: save_to_store_def andthen_def liftr_def)
  next
    case (Inr c')
    then have wf: "c' = c" "checkpoint_wf cr c" by (simp_all add: checkpoint_init_ok)
    show ?thesis
      using run_save_post [OF keep [unfolded u snd_conv] assms(1) wf(2) assms(2), of now] Inr wf(1) keep u
      by (simp add: save_to_store_def andthen_def liftr_def zoom_def modify_def Let_def split: prod.splits sum.splits)
  qed
qed

lemma save_existing_triple:
  "triple (\<lambda>s. frozen cr lp fs t s \<and> ahead a fs) (andthen (gets (checkpoint_of cr lp a c)) (save_to_store cr lp))
    (\<lambda>_ s. frozen cr lp fs t s \<and> synced lp {va_phase a} (va_next_iteration a) s \<and> stored_as lp (ls_runs s) a)
    (frozen cr lp fs t)"
proof (rule triple_andthen)
  let ?P = "\<lambda>d s. frozen cr lp fs t s \<and> ahead a fs \<and> (\<exists>s. d = checkpoint_of cr lp a c s)"
  show "triple (\<lambda>s. frozen cr lp fs t s \<and> ahead a fs) (gets (checkpoint_of cr lp a c)) ?P (frozen cr lp fs t)"
    by (rule triple_gets) auto
  fix d
  show "triple (?P d) (save_to_store cr lp d)
    (\<lambda>_ s. frozen cr lp fs t s \<and> synced lp {va_phase a} (va_next_iteration a) s \<and> stored_as lp (ls_runs s) a) (frozen cr lp fs t)"
  proof (cases "ahead a fs \<and> (\<exists>s. d = checkpoint_of cr lp a c s)")
    case True
    then have d: "ck_run_id d = lp_run_id lp" "ck_phase d = va_phase a" "ck_next_iteration d = va_next_iteration a"
      "ck_pending_intent d = va_pending_intent a" "ck_executor_id d = va_executor_id a" "ck_prepared d = va_prepared a"
      "ck_reconciled d = va_reconciled a"
      by (auto simp: checkpoint_of_def)
    show ?thesis
      by (rule triple_conseq [OF save_to_store_triple [OF d(1), of fs cr t, unfolded d(2,3)]])
        (use True d in \<open>auto simp: ahead_def stored_as_def\<close>)
  next
    case False
    then show ?thesis by (auto simp: triple_def)
  qed
qed

lemma save_checkpoint_triple:
  assumes "lp_store lp"
  shows "triple (\<lambda>s. frozen cr lp fs t s \<and> ahead a fs) (save_checkpoint cr lp a)
    (\<lambda>_ s. frozen cr lp fs t s \<and> synced lp {va_phase a} (va_next_iteration a) s \<and> stored_as lp (ls_runs s) a)
    (frozen cr lp fs t)"
proof -
  have "save_checkpoint cr lp a = andthen (gets ls_checkpoint) (\<lambda>old. case old of
      None \<Rightarrow> raise RuntimeError ''run checkpoint was not initialized''
    | Some c \<Rightarrow> andthen (gets (checkpoint_of cr lp a c)) (save_to_store cr lp))"
    using assms by (simp add: save_checkpoint_def)
  then show ?thesis
    by (simp only:) (rule triple_andthen [where R = "\<lambda>_ s. frozen cr lp fs t s \<and> ahead a fs"],
      rule triple_gets, assumption, rule triple_option, rule triple_raise, blast, rule save_existing_triple)
qed

section \<open>What the gate and the graph answer\<close>

lemma authorize_granted:
  assumes "fst (authorize cr (lp_gate lp) aconsume cconsume g q) = Inr c"
    "gc_executor_id q = lp_executor_id lp" "gc_graph_digest q = loop_graph_digest cr lp" "gc_graph_node_id q = ''capability.execute''"
  shows "authorised_by cr lp (gc_intent q) c"
  using authorize_okD [OF assms(1)] assms(2-) unfolding authorised_by_def
  by (auto dest: capability_issueD)

lemma authorize_intent_granted:
  assumes "authorize_intent cr lp intent approvals s = (Inr (Inr c), s')"
  shows "authorised_by cr lp intent c"
proof -
  define call where "call now clock cid nonce = \<lparr>gc_intent = intent, gc_executor_id = lp_executor_id lp, gc_approvals = approvals,
    gc_graph_digest = loop_graph_digest cr lp, gc_graph_node_id = ''capability.execute'', gc_now = now, gc_clock = clock,
    gc_capability_id = cid, gc_nonce = nonce\<rparr>" for now clock cid nonce
  obtain g now clock cid nonce t where
    "(case authorize cr (lp_gate lp) (lp_approval_consume lp) (lp_counter_consume lp) g (call now clock cid nonce) of
        (r, g') \<Rightarrow> (case r of Inl e \<Rightarrow> (if fst e = PolicyDenied then (Inr (Inl e), g') else (Inl e, g'))
          | Inr c \<Rightarrow> (Inr (Inr c), g'))) = (Inr (Inr c), t)"
    using assms unfolding authorize_intent_def call_def [symmetric] by (simp only: andthen_Inr zoom_Inr) blast
  then have "fst (authorize cr (lp_gate lp) (lp_approval_consume lp) (lp_counter_consume lp) g (call now clock cid nonce)) = Inr c"
    by (auto split: prod.splits sum.splits if_splits)
  from authorize_granted [OF this] show ?thesis by (simp add: call_def)
qed

lemma load_state_iteration: "load_state cr sc db run i = Inr st \<Longrightarrow> ts_iteration st = i"
  by (auto simp: load_state_def initial_state_def split: option.splits if_splits)

lemma load_state_finite: "load_state cr sc db run i = Inr st \<Longrightarrow> finite (ts_completed st)"
  by (auto simp: load_state_def initial_state_def split: option.splits if_splits)

lemma saved_completed:
  assumes "load_state cr sc db run i = Inr st"
  shows "\<exists>st'. load_state cr sc (save_state cr sc run (completed_state st n p) attempts db') run i = Inr st' \<and> n \<in> ts_completed st'"
  using load_state_iteration [OF assms] load_state_finite [OF assms]
  by (simp add: load_state_saved' completed_state_def row_state_saved)

lemma advance_completes:
  assumes "sched_advance cr sc a c eid now db = (Inr (ev, st), db')"
  shows "\<exists>st. load_state cr sc db' (sa_run_id a) (sa_iteration a) = Inr st \<and> sa_node a \<in> ts_completed st"
proof -
  consider "advance_owned cr sc a eid now db = (Inr (ev, st), db')"
    | k where "complete_direct cr sc a k eid now db = (Inr (ev, st), db')"
    using assms unfolding sched_advance_def by (auto split: if_splits option.splits)
  then show ?thesis
  proof cases
    case 1
    then obtain state attempts rows where
      "load_state cr sc db (sa_run_id a) (sa_iteration a) = Inr state"
      "mon_advance cr (sc_monitor sc) state (sa_node a) (sa_payload a) = Inr st"
      "db' = save_state cr sc (sa_run_id a) st attempts (db\<lparr>db_events := rows\<rparr>)"
      unfolding advance_owned_def Let_def by (simp add: tx_simps) blast
    then show ?thesis using saved_completed by (auto simp: mon_advance_def bnd_eq_Inr split: if_splits)
  next
    case 2
    then show ?thesis
      by (rule complete_directE) (use saved_completed in \<open>auto simp: mon_complete_def split: if_splits\<close>)
  qed
qed

lemma complete_completes:
  assumes "sched_complete cr sc a c eid now db = (Inr (ev, st), db')"
  shows "\<exists>st. load_state cr sc db' (sa_run_id a) (sa_iteration a) = Inr st \<and> sa_node a \<in> ts_completed st"
  using assms unfolding sched_complete_def
  by (rule complete_directE) (use saved_completed in \<open>auto simp: mon_complete_def split: if_splits\<close>)

lemma on_sched_Inr:
  assumes "on_sched lp op s = (Inr x, s')"
  obtains eid now db where "op eid now db = (Inr x, ls_sched s')"
  using assms unfolding on_sched_def by (auto simp: andthen_Inr zoom_Inr)

lemma graph_advance_completes:
  assumes "graph_advance cr lp i node ty payload auth s = (Inr x, s')"
  shows "node_completed cr lp (ls_sched s') i node"
proof -
  obtain st where st: "load_state cr (lp_scheduler lp) (ls_sched s) (lp_run_id lp) i = Inr st"
    using assms by (auto simp: graph_advance_def andthen_def graph_state_def asks_def split: sum.splits)
  show ?thesis
  proof (cases "node \<in> ts_completed st")
    case True
    then have "s' = s"
      using assms st by (auto simp: graph_advance_def andthen_def graph_state_def run_events_def asks_def ret_def split: sum.splits)
    then show ?thesis using st True by (auto simp: node_completed_def)
  next
    case False
    define a where "a es = (step_args lp i node ty payload (last_parent es))\<lparr>sa_authorization_ref := auth\<rparr>" for es
    obtain es eid now db e where "sched_advance cr (lp_scheduler lp) (a es) None eid now db = (Inr e, ls_sched s')"
      using assms st False unfolding graph_advance_def a_def [symmetric]
      by (auto simp: andthen_def graph_state_def run_events_def asks_def ret_def split: sum.splits prod.splits elim!: on_sched_Inr)
    with advance_completes [of cr "lp_scheduler lp" _ _ _ _ _ "fst e" "snd e"] show ?thesis
      by (fastforce simp: a_def step_args_def node_completed_def)
  qed
qed

lemma graph_complete_completes:
  assumes "graph_complete cr lp i node a r s = (Inr x, s')"
  shows "node_completed cr lp (ls_sched s') i node"
proof -
  obtain st where st: "load_state cr (lp_scheduler lp) (ls_sched s) (lp_run_id lp) i = Inr st"
    using assms by (auto simp: graph_complete_def andthen_def graph_state_def asks_def split: sum.splits)
  show ?thesis
  proof (cases "node \<in> ts_completed st")
    case True
    then have "s' = s"
      using assms st by (auto simp: graph_complete_def andthen_def graph_state_def run_events_def asks_def ret_def split: sum.splits)
    then show ?thesis using st True by (auto simp: node_completed_def)
  next
    case False
    obtain q t where "complete_reserved cr lp i node a q t = (Inr x, s')"
      using assms st False by (auto simp: graph_complete_def andthen_def graph_state_def asks_def split: sum.splits prod.splits)
    then obtain c eid now db e where "sched_complete cr (lp_scheduler lp) (step_args lp i node ''node.completed'' [] [ce_event_id (fst q)]) c eid now db
        = (Inr e, ls_sched s')"
      by (cases q) (auto simp: complete_reserved_def raise_def andthen_def ret_def split: option.splits sum.splits prod.splits elim!: on_sched_Inr)
    with complete_completes [of cr "lp_scheduler lp" _ _ _ _ _ "fst e" "snd e"] show ?thesis
      by (fastforce simp: step_args_def node_completed_def)
  qed
qed

end
