(* ===== verification/Loop_Safe.thy ===== *)
theory Loop_Safe
  imports Loop_Inv
begin

text \<open>
  The invariant of \<open>Loop_Inv\<close> through every method of the controller that writes a checkpoint, counts
  a tool call or calls the executor, up to the entry points.
\<close>

section \<open>Checkpoints\<close>

lemma triple_pure: "(b \<Longrightarrow> triple P m Q E) \<Longrightarrow> triple (\<lambda>s. P s \<and> b) m Q E"
  by (cases b) (simp_all add: triple_def)

lemma during_frozen:
  "during cr lp n k s \<longleftrightarrow> frozen cr lp (ls_effects s) (ls_tool_calls s) s \<and> counted lp n k s"
  by (simp add: during_def frozen_def)

lemma frozen_during:
  "frozen cr lp fs t s \<Longrightarrow> int (length fs) - n \<le> t - k \<Longrightarrow> t \<le> max k (tc_maximum_tool_calls (lp_contract lp)) \<Longrightarrow> during cr lp n k s"
  by (simp add: during_def frozen_def counted_def)

lemma save_during_calls:
  assumes "lp_store lp"
  shows "triple (\<lambda>s. during cr lp n k s \<and> ahead a (ls_effects s) \<and> ls_tool_calls s = t) (save_checkpoint cr lp a)
    (\<lambda>_ s. during cr lp n k s \<and> synced lp {va_phase a} (va_next_iteration a) s \<and> ls_tool_calls s = t) (during cr lp n k)"
proof (rule triple_fixed [where f = ls_effects])
  fix fs :: "effect_call list"
  let ?b = "int (length fs) - n \<le> t - k \<and> t \<le> max k (tc_maximum_tool_calls (lp_contract lp))"
  have "triple (\<lambda>s. (frozen cr lp fs t s \<and> ahead a fs) \<and> ?b) (save_checkpoint cr lp a)
    (\<lambda>_ s. during cr lp n k s \<and> synced lp {va_phase a} (va_next_iteration a) s \<and> ls_tool_calls s = t) (during cr lp n k)"
    by (rule triple_pure, rule triple_conseq [OF save_checkpoint_triple [OF assms, of cr fs t a]])
      (auto intro: frozen_during simp: frozen_def)
  then show "triple (\<lambda>s. (during cr lp n k s \<and> ahead a (ls_effects s) \<and> ls_tool_calls s = t) \<and> ls_effects s = fs) (save_checkpoint cr lp a)
    (\<lambda>_ s. during cr lp n k s \<and> synced lp {va_phase a} (va_next_iteration a) s \<and> ls_tool_calls s = t) (during cr lp n k)"
    by (rule triple_pre) (auto simp: during_def frozen_def counted_def)
qed

lemma save_during:
  assumes "lp_store lp"
  shows "triple (\<lambda>s. during cr lp n k s \<and> ahead a (ls_effects s)) (save_checkpoint cr lp a)
    (\<lambda>_ s. during cr lp n k s \<and> synced lp {va_phase a} (va_next_iteration a) s) (during cr lp n k)"
  by (rule triple_fixed [where f = ls_tool_calls], rule triple_conseq [OF save_during_calls [OF assms]]) auto

text \<open>What the checkpoint in memory says about the effects so far.\<close>

lemma synced_behind:
  "run_inv cr lp s \<Longrightarrow> synced lp ps i s \<Longrightarrow> f \<in> set (ls_effects s) \<Longrightarrow>
     fc_iteration f \<le> i \<and> (ps \<subseteq> open_phases \<longrightarrow> fc_iteration f < i)"
  by (fastforce simp: run_inv_def synced_def behind_def)

lemma during_behind:
  "during cr lp n k s \<Longrightarrow> synced lp ps i s \<Longrightarrow> f \<in> set (ls_effects s) \<Longrightarrow>
     fc_iteration f \<le> i \<and> (ps \<subseteq> open_phases \<longrightarrow> fc_iteration f < i)"
  using synced_behind [of cr lp s ps i f] by (simp add: during_def)

lemma synced_mono: "synced lp ps i s \<Longrightarrow> ps \<subseteq> qs \<Longrightarrow> synced lp qs i s"
  by (auto simp: synced_def)

lemma ready_triple:
  assumes "lp_store lp"
  shows "triple (\<lambda>s. during cr lp n k s \<and> synced lp ps i s) (checkpoint_ready cr lp (i + 1))
    (\<lambda>_ s. during cr lp n k s \<and> synced lp {READY} (i + 1) s) (during cr lp n k)"
  unfolding checkpoint_ready_def
  by (rule triple_conseq [OF save_during [OF assms]])
    (use during_behind in \<open>force simp: ahead_def save_args_of_def\<close>)+

lemma terminal_triple:
  assumes "lp_store lp"
  shows "triple (\<lambda>s. during cr lp n k s \<and> synced lp ps i s) (terminal cr lp d reason) (\<lambda>_. during cr lp n k) (during cr lp n k)"
  unfolding terminal_def
proof (rule triple_andthen)
  let ?a = "\<lambda>j. (save_args_of TERMINAL j)\<lparr>va_terminal_decision := Some d, va_terminal_reason := Some reason\<rparr>"
  show "triple (\<lambda>s. during cr lp n k s \<and> synced lp ps i s)
    (gets (\<lambda>s. case ls_checkpoint s of None \<Rightarrow> 1 | Some c \<Rightarrow> ck_next_iteration c))
    (\<lambda>j s. during cr lp n k s \<and> ahead (?a j) (ls_effects s)) (during cr lp n k)"
    by (rule triple_gets) (use during_behind in \<open>force simp: ahead_def save_args_of_def open_phases_def synced_def\<close>)
  show "triple (\<lambda>s. during cr lp n k s \<and> ahead (?a j) (ls_effects s))
    (andthen (save_checkpoint cr lp (?a j)) (\<lambda>_. andthen (gets ls_tool_calls) (\<lambda>calls. andthen (tick lp) (\<lambda>now.
      andthen (log_event cr lp ''run.terminal'' [(''decision'', PStr (loop_decision_value d)), (''reason'', PStr reason),
        (''tool_calls'', PInt calls), (''occurred_at'', PStr (isoformat (utc now)))]) (\<lambda>_. ret d)))))
    (\<lambda>_. during cr lp n k) (during cr lp n k)" for j
    by (rule triple_andthen [OF triple_conseq [OF save_during [OF assms]]], assumption, rule conjunct1, assumption, assumption,
      rule during.triple_quiet) (intro quiet.within_intros quiet_intros)
qed

lemma await_triple:
  assumes "lp_store lp"
  shows "triple (\<lambda>s. during cr lp n k s \<and> synced lp open_phases i s) (await_approval cr lp i intent reason)
    (\<lambda>_. during cr lp n k) (during cr lp n k)"
  unfolding await_approval_def
  by (rule triple_andthen [OF triple_conseq [OF save_during [OF assms]]],
      use during_behind [where ps = open_phases] in \<open>force simp: ahead_def save_args_of_def open_phases_def\<close>,
      rule conjunct1, assumption, assumption, rule during.triple_quiet)
    (intro quiet.within_intros quiet_intros)

section \<open>An effect\<close>

text \<open>Prepared, checkpointed and counted: one more effect fits the counter.\<close>

definition pend :: "crypto \<Rightarrow> ('a, 'c, 'w, 'm) loop \<Rightarrow> int \<Rightarrow> int \<Rightarrow> int \<Rightarrow> action_intent \<Rightarrow> prepared_execution
    \<Rightarrow> ('a, 'c, 'w) loop_state \<Rightarrow> bool" where
  "pend cr lp n k i intent p s \<longleftrightarrow> during cr lp (n - 1) k s \<and> synced lp {PENDING_EFFECT} i s
     \<and> stored_as lp (ls_runs s) (pending_effect_args lp i intent p) \<and> (\<forall>f \<in> set (ls_effects s). fc_iteration f < i)"

lemma counted_less: "counted lp (n - 1) k s \<Longrightarrow> counted lp n k s"
  by (simp add: counted_def)

lemma during_less: "during cr lp (n - 1) k s \<Longrightarrow> during cr lp n k s"
  by (simp add: during_def counted_less)

lemma pend_stable:
  assumes "quietly cr lp s t" "pend cr lp n k i intent p s"
  shows "pend cr lp n k i intent p t"
  using assms(2) quietly_fields [OF assms(1)]
  by (simp add: pend_def core_stable(2,4,5) [OF assms(1)])

interpretation pend: core_assertion cr lp "pend cr lp n k i intent p" for cr lp n k i intent p
  by unfold_locales (rule pend_stable)

lemma pending_ahead:
  assumes "run_inv cr lp s" "synced lp open_phases i s"
  shows "ahead (pending_effect_args lp i intent p) (ls_effects s)" and "f \<in> set (ls_effects s) \<Longrightarrow> fc_iteration f < i"
  using synced_behind [OF assms] by (auto simp: ahead_def pending_effect_args_def save_args_of_def open_phases_def)

lemma save_pending_triple:
  assumes "lp_store lp"
  shows "triple (\<lambda>s. during cr lp (n - 1) k s \<and> synced lp open_phases i s) (checkpoint_pending_effect cr lp i intent p)
    (\<lambda>_. pend cr lp n k i intent p) (during cr lp n k)"
proof (rule triple_fixed [where f = "\<lambda>s. (ls_effects s, ls_tool_calls s)"])
  fix x :: "effect_call list \<times> int"
  obtain fs t where x: "x = (fs, t)" by fastforce
  let ?b = "(\<forall>f \<in> set fs. fc_iteration f < i) \<and> int (length fs) - (n - 1) \<le> t - k \<and> t \<le> max k (tc_maximum_tool_calls (lp_contract lp))"
  let ?a = "pending_effect_args lp i intent p"
  have "triple (\<lambda>s. (frozen cr lp fs t s \<and> ahead ?a fs) \<and> ?b) (save_checkpoint cr lp ?a) (\<lambda>_. pend cr lp n k i intent p) (during cr lp n k)"
  proof (rule triple_pure, rule triple_conseq [OF save_checkpoint_triple [OF assms, of cr fs t ?a]])
    fix s u
    assume b: ?b
    then have c: "int (length fs) - (n - 1) \<le> t - k" "t \<le> max k (tc_maximum_tool_calls (lp_contract lp))" by blast+
    show "during cr lp n k s" if "frozen cr lp fs t s" by (rule frozen_during [OF that]) (use c in auto)
    assume post: "frozen cr lp fs t s \<and> synced lp {va_phase ?a} (va_next_iteration ?a) s \<and> stored_as lp (ls_runs s) ?a"
    moreover have "during cr lp (n - 1) k s" by (rule frozen_during [OF conjunct1 [OF post] c])
    moreover have "va_phase ?a = PENDING_EFFECT" "va_next_iteration ?a = i"
      by (simp_all add: pending_effect_args_def save_args_of_def)
    ultimately show "pend cr lp n k i intent p s" using b by (simp add: pend_def frozen_def)
  qed simp
  then show "triple (\<lambda>s. (during cr lp (n - 1) k s \<and> synced lp open_phases i s) \<and> (ls_effects s, ls_tool_calls s) = x)
    (checkpoint_pending_effect cr lp i intent p) (\<lambda>_. pend cr lp n k i intent p) (during cr lp n k)"
    unfolding checkpoint_pending_effect_def pending_effect_args_def [symmetric]
    by (rule triple_pre) (use pending_ahead in \<open>auto simp: x during_def frozen_def counted_def\<close>)
qed

lemma triple_conj_result:
  assumes "triple P m Q E" "\<And>s x s'. m s = (Inr x, s') \<Longrightarrow> R x s'"
  shows "triple P m (\<lambda>x s. Q x s \<and> R x s) E"
  using assms unfolding triple_def by (fastforce split: prod.splits sum.splits)

lemma prepare_binds:
  "loop_prepare_execution cr lp i intent s = (Inr p, s') \<Longrightarrow> prepared_binds cr lp i intent p"
  by (auto simp: loop_prepare_execution_def andthen_Inr ret_def raise_def split: if_splits)

text \<open>The budget is checked before an action is acquired.\<close>

definition willing :: "crypto \<Rightarrow> ('a, 'c, 'w, 'm) loop \<Rightarrow> int \<Rightarrow> int \<Rightarrow> int \<Rightarrow> ('a, 'c, 'w) loop_state \<Rightarrow> bool" where
  "willing cr lp n k i s \<longleftrightarrow> during cr lp n k s \<and> synced lp open_phases i s
     \<and> ls_tool_calls s < tc_maximum_tool_calls (lp_contract lp)"

interpretation willing: core_assertion cr lp "willing cr lp n k i" for cr lp n k i
  by unfold_locales (metis willing_def core_stable(2,4) quietly_fields)

lemma pending_authorization_triple:
  assumes "lp_store lp"
  shows "triple (willing cr lp n k i) (checkpoint_pending_authorization cr lp i intent) (\<lambda>_. willing cr lp n k i) (during cr lp n k)"
  unfolding checkpoint_pending_authorization_def
proof (rule triple_fixed [where f = ls_tool_calls])
  let ?a = "(save_args_of PENDING_AUTHORIZATION i)\<lparr>va_pending_intent := Some intent, va_executor_id := lp_executor_id lp\<rparr>"
  have a: "va_phase ?a = PENDING_AUTHORIZATION" "va_next_iteration ?a = i" by (simp_all add: save_args_of_def)
  fix t
  have "triple (\<lambda>s. (during cr lp n k s \<and> ahead ?a (ls_effects s) \<and> ls_tool_calls s = t) \<and> t < tc_maximum_tool_calls (lp_contract lp))
    (save_checkpoint cr lp ?a) (\<lambda>_. willing cr lp n k i) (during cr lp n k)"
    by (rule triple_pure, rule triple_post [OF save_during_calls [OF assms]])
      (auto simp: willing_def a open_phases_def elim: synced_mono)
  then show "triple (\<lambda>s. willing cr lp n k i s \<and> ls_tool_calls s = t) (save_checkpoint cr lp ?a) (\<lambda>_. willing cr lp n k i) (during cr lp n k)"
    by (rule triple_pre) (use during_behind [of cr lp n k _ open_phases i] in \<open>auto simp: willing_def ahead_def a\<close>)
qed

lemma charge_triple:
  "triple (willing cr lp n k i) (modify (\<lambda>s. s\<lparr>ls_tool_calls := ls_tool_calls s + 1\<rparr>))
    (\<lambda>_ s. during cr lp (n - 1) k s \<and> synced lp open_phases i s) E"
  by (rule triple_modify) (auto simp: willing_def during_def run_inv_def counted_def synced_def cong: option.case_cong)

lemma prepare_effect_triple:
  assumes "lp_store lp"
  shows "triple (willing cr lp n k i) (prepare_effect cr lp i intent c)
    (\<lambda>p s. pend cr lp n k i intent p s \<and> prepared_binds cr lp i intent p) (during cr lp n k)"
  unfolding prepare_effect_def
proof (rule willing.triple_quiet_then, intro quiet_intros, simp add: willing_def,
    rule willing.triple_quiet_then, intro quiet_intros, simp add: willing_def,
    rule triple_andthen [OF charge_triple], rule triple_andthen)
  let ?B = "\<lambda>s. during cr lp (n - 1) k s \<and> synced lp open_phases i s"
  show "triple ?B (loop_prepare_execution cr lp i intent) (\<lambda>p s. ?B s \<and> prepared_binds cr lp i intent p) (during cr lp n k)"
    by (rule triple_conj_result [OF at_phase.triple_quiet]) (auto intro: quiet_intros during_less prepare_binds)
  fix p
  let ?log = "log_event cr lp ''execution.started'' ([(''iteration'', PInt i), (''intent_digest'', PStr (intent_digest cr intent)),
        (''remote_job_id'', PStr (pe_remote_job_id p))] @ prepared_fields p)"
  show "triple (\<lambda>s. ?B s \<and> prepared_binds cr lp i intent p)
    (andthen (graph_complete cr lp i ''operation.prepared''
        ((completing (pe_request_digest p) [(''operation_id'', pe_operation_id p)])\<lparr>ca_authority_refs := [cap_capability_id c]\<rparr>) None) (\<lambda>_.
     andthen (checkpoint_pending_effect cr lp i intent p) (\<lambda>_. andthen ?log (\<lambda>_. ret p))))
    (\<lambda>p s. pend cr lp n k i intent p s \<and> prepared_binds cr lp i intent p) (during cr lp n k)"
  proof (rule triple_pure, rule at_phase.triple_quiet_then, intro quiet_intros, simp add: during_less,
      rule triple_andthen [OF save_pending_triple [OF assms]], rule pend.triple_quiet_then, intro quiet_intros)
    show "pend cr lp n k i intent p s \<Longrightarrow> during cr lp n k s" for s by (simp add: pend_def during_less)
  qed (simp add: triple_ret)
qed

text \<open>The call itself.\<close>

lemma effect_appended:
  assumes "pend cr lp n k i intent p s" "authorised_by cr lp intent c" "prepared_binds cr lp i intent p"
    "node_completed cr lp (ls_sched s) i ''executor.dispatch''" "iteration_ok lp i"
  shows "during cr lp n k (s\<lparr>ls_effects := ls_effects s @
      [\<lparr>fc_iteration = i, fc_intent = intent, fc_capability = c, fc_prepared = p, fc_runs = ls_runs s, fc_sched = ls_sched s\<rparr>]\<rparr>)"
  using assms unfolding pend_def during_def run_inv_def counted_def synced_def
  by (auto simp: guarded_effect_def sorted_wrt_append behind_def open_phases_def phase_value_inj)

lemma dispatch_effect_triple:
  assumes "authorised_by cr lp intent c" "prepared_binds cr lp i intent p" "iteration_ok lp i"
  shows "triple (pend cr lp n k i intent p) (dispatch_effect cr lp i intent c p)
    (\<lambda>_ s. during cr lp n k s \<and> synced lp {PENDING_EFFECT} i s) (during cr lp n k)"
  unfolding dispatch_effect_def
proof (rule pend.triple_quiet_then)
  show "moves_in (quietly cr lp) (case lp_bind_run lp of None \<Rightarrow> ret () | Some b \<Rightarrow> on_world (b (lp_run_id lp) (lp_contract_digest lp)))"
    by (intro quiet.within_intros quiet_intros)
  show less: "pend cr lp n k i intent p s \<Longrightarrow> during cr lp n k s" for s by (simp add: pend_def during_less)
  let ?advance = "graph_advance cr lp i ''executor.dispatch'' ''execution.dispatched'' [(''operation_id'', PStr (pe_operation_id p))] (cap_capability_id c)"
  show "triple (pend cr lp n k i intent p) (andthen ?advance (\<lambda>_. run_effect lp i intent c p))
    (\<lambda>_ s. during cr lp n k s \<and> synced lp {PENDING_EFFECT} i s) (during cr lp n k)"
  proof (rule triple_andthen [where R = "\<lambda>_ s. pend cr lp n k i intent p s \<and> node_completed cr lp (ls_sched s) i ''executor.dispatch''"])
    show "triple (pend cr lp n k i intent p) ?advance
      (\<lambda>_ s. pend cr lp n k i intent p s \<and> node_completed cr lp (ls_sched s) i ''executor.dispatch'') (during cr lp n k)"
      by (rule triple_conj_result [OF pend.triple_quiet]) (auto intro: quiet_intros less graph_advance_completes)
    show "triple (\<lambda>s. pend cr lp n k i intent p s \<and> node_completed cr lp (ls_sched s) i ''executor.dispatch'') (run_effect lp i intent c p)
      (\<lambda>_ s. during cr lp n k s \<and> synced lp {PENDING_EFFECT} i s) (during cr lp n k)"
      unfolding run_effect_def
    proof (rule triple_andthen [where R = "\<lambda>_ s. during cr lp n k s \<and> synced lp {PENDING_EFFECT} i s"])
      show "triple (\<lambda>s. during cr lp n k s \<and> synced lp {PENDING_EFFECT} i s)
        (on_world (case lp_execute_prepared lp of None \<Rightarrow> lp_execute lp intent c | Some f \<Rightarrow> f intent c p))
        (\<lambda>_ s. during cr lp n k s \<and> synced lp {PENDING_EFFECT} i s) (during cr lp n k)"
        by (rule at_phase.triple_quiet, rule quiet_world, rule conjunct1)
    qed (rule triple_modify, use effect_appended [OF _ assms(1,2) _ assms(3)] in \<open>auto simp: pend_def synced_def\<close>)
  qed
qed

section \<open>An action\<close>

lemma triple_ex:
  assumes "\<And>j. triple (P j) m Q E"
  shows "triple (\<lambda>s. \<exists>j. P j s) m Q E"
proof (rule tripleI, elim exE)
  fix s j assume "P j s"
  then show "case m s of (Inr x, s') \<Rightarrow> Q x s' | (Inl e, s') \<Rightarrow> E s'"
    using assms [of j] by (simp add: triple_def)
qed

lemma willing_during: "willing cr lp n k i s \<Longrightarrow> during cr lp n k s"
  by (simp add: willing_def)

lemma execute_effect_triple:
  assumes "lp_store lp" "iteration_ok lp i" "authorised_by cr lp intent c"
  shows "triple (willing cr lp n k i) (execute_effect cr lp i intent c)
    (\<lambda>_ s. during cr lp n k s \<and> synced lp {PENDING_EFFECT} i s) (during cr lp n k)"
  unfolding execute_effect_def
proof (rule triple_andthen [OF prepare_effect_triple [OF assms(1)]], rule triple_pure, rule triple_andthen)
  fix p assume p: "prepared_binds cr lp i intent p"
  show "triple (pend cr lp n k i intent p) (dispatch_effect cr lp i intent c p)
    (\<lambda>_ s. during cr lp n k s \<and> synced lp {PENDING_EFFECT} i s) (during cr lp n k)"
    by (rule dispatch_effect_triple [OF assms(3) p assms(2)])
qed (rule at_phase.triple_quiet, intro quiet.within_intros quiet_intros, rule conjunct1)

text \<open>What an action leaves: a decision, or an observation at the iteration's checkpoint.\<close>

definition acquired_ok :: "crypto \<Rightarrow> ('a, 'c, 'w, 'm) loop \<Rightarrow> int \<Rightarrow> int \<Rightarrow> int \<Rightarrow> acquired \<Rightarrow> ('a, 'c, 'w) loop_state \<Rightarrow> bool" where
  "acquired_ok cr lp n k i r s \<longleftrightarrow> during cr lp n k s \<and> ((\<exists>x. r = Inr x) \<longrightarrow> synced lp UNIV i s)"

lemma deny_triple:
  assumes "lp_store lp"
  shows "triple (willing cr lp n k i) (deny_intent cr lp i intent reason) (\<lambda>_. during cr lp n k) (during cr lp n k)"
  unfolding deny_intent_def push_history_def [symmetric]
proof (rule willing.triple_quiet_then, intro quiet_intros, rule willing_during, assumption,
    rule willing.triple_quiet_then, intro quiet_intros, rule willing_during, assumption, rule triple_if)
  show "triple (willing cr lp n k i) (await_approval cr lp i intent reason) (\<lambda>_. during cr lp n k) (during cr lp n k)"
    by (rule triple_pre [OF await_triple [OF assms]]) (simp add: willing_def)
  show "triple (willing cr lp n k i) (terminal cr lp ESCALATE ''policy-denied'') (\<lambda>_. during cr lp n k) (during cr lp n k)"
    by (rule triple_pre [OF terminal_triple [OF assms, of cr n k open_phases i]]) (simp add: willing_def)
qed

lemma authorize_and_execute_triple:
  assumes "lp_store lp" "iteration_ok lp i"
  shows "triple (willing cr lp n k i) (authorize_and_execute cr lp approvals i intent) (acquired_ok cr lp n k i) (during cr lp n k)"
  unfolding authorize_and_execute_def
proof (rule triple_andthen [where R = "\<lambda>r s. willing cr lp n k i s \<and> (\<forall>c. r = Inr c \<longrightarrow> authorised_by cr lp intent c)"])
  show "triple (willing cr lp n k i) (authorize_intent cr lp intent approvals)
    (\<lambda>r s. willing cr lp n k i s \<and> (\<forall>c. r = Inr c \<longrightarrow> authorised_by cr lp intent c)) (during cr lp n k)"
    by (rule triple_conj_result [OF willing.triple_quiet])
      (auto intro: quiet_intros willing_during authorize_intent_granted)
  fix r :: "(exc \<times> char list) + capability"
  show "triple (\<lambda>s. willing cr lp n k i s \<and> (\<forall>c. r = Inr c \<longrightarrow> authorised_by cr lp intent c))
    (case r of Inl (_, reason) \<Rightarrow> andthen (deny_intent cr lp i intent reason) (\<lambda>d. ret (Inl d))
     | Inr c \<Rightarrow> andthen (execute_effect cr lp i intent c) (\<lambda>(x, h). ret (Inr (intent, x, h)))) (acquired_ok cr lp n k i) (during cr lp n k)"
  proof (cases r)
    case (Inl e)
    show ?thesis
      by (cases e) (auto simp: Inl intro!: triple_andthen [OF deny_triple [OF assms(1)]] triple_ret simp: acquired_ok_def)
  next
    case (Inr c)
    have "triple (\<lambda>s. willing cr lp n k i s \<and> authorised_by cr lp intent c) (andthen (execute_effect cr lp i intent c)
      (\<lambda>(x, h). ret (Inr (intent, x, h)))) (acquired_ok cr lp n k i) (during cr lp n k)"
      by (rule triple_pure, rule triple_andthen [OF execute_effect_triple [OF assms]])
        (auto intro!: triple_ret simp: acquired_ok_def intro: synced_mono [OF _ subset_UNIV])
    then show ?thesis by (simp add: Inr)
  qed
qed

text \<open>An iteration starts at a checkpoint that no effect of its own precedes, or with a reconciled one.\<close>

definition live_phases :: "run_phase set" where
  "live_phases = insert RECONCILED_EFFECT open_phases"

definition eager :: "crypto \<Rightarrow> ('a, 'c, 'w, 'm) loop \<Rightarrow> int \<Rightarrow> int \<Rightarrow> int \<Rightarrow> ('a, 'c, 'w) loop_state \<Rightarrow> bool" where
  "eager cr lp n k i s \<longleftrightarrow> during cr lp n k s \<and> synced lp live_phases i s
     \<and> ls_tool_calls s < tc_maximum_tool_calls (lp_contract lp)"

lemma eager_willing:
  "eager cr lp n k i s \<Longrightarrow> ls_checkpoint s = Some c \<Longrightarrow> ck_phase c \<noteq> RECONCILED_EFFECT \<Longrightarrow> willing cr lp n k i s"
  by (auto simp: eager_def willing_def synced_def live_phases_def)

lemma propose_then_triple:
  assumes "lp_store lp" "iteration_ok lp i"
  shows "triple (willing cr lp n k i) (andthen (propose_intent cr lp i) (authorize_and_execute cr lp approvals i))
    (acquired_ok cr lp n k i) (during cr lp n k)"
proof (rule triple_andthen [where R = "\<lambda>_. willing cr lp n k i", OF _ authorize_and_execute_triple [OF assms]])
  show "triple (willing cr lp n k i) (propose_intent cr lp i) (\<lambda>_. willing cr lp n k i) (during cr lp n k)"
    unfolding propose_intent_def
    by (rule willing.triple_quiet_then, intro quiet_intros, rule willing_during, assumption,
        rule willing.triple_quiet_then, rule quiet.within_liftr, rule willing_during, assumption,
        rule willing.triple_quiet_then, intro quiet_intros, rule willing_during, assumption,
        rule willing.triple_quiet_then, intro quiet_intros, rule willing_during, assumption,
        rule triple_andthen [OF pending_authorization_triple [OF assms(1)]], rule triple_ret, assumption)
qed

lemma resume_then_triple:
  assumes "lp_store lp" "iteration_ok lp i"
  shows "triple (willing cr lp n k i) (andthen (resume_intent cr lp i c) (authorize_and_execute cr lp approvals i))
    (acquired_ok cr lp n k i) (during cr lp n k)"
  by (rule willing.triple_quiet_then [OF _ _ authorize_and_execute_triple [OF assms]], intro quiet_intros, rule willing_during)

lemma take_reconciled_triple:
  "triple (eager cr lp n k i) (take_reconciled cr lp i c) (acquired_ok cr lp n k i) (during cr lp n k)"
proof -
  have "triple (\<lambda>s. during cr lp n k s \<and> synced lp live_phases i s) (take_reconciled cr lp i c)
    (\<lambda>_ s. during cr lp n k s \<and> synced lp live_phases i s) (during cr lp n k)"
    by (rule at_phase.triple_quiet, intro quiet_intros, rule conjunct1)
  then show ?thesis by (rule triple_conseq) (auto simp: eager_def acquired_ok_def intro: synced_mono [OF _ subset_UNIV])
qed

lemma acquire_triple:
  assumes "lp_store lp" "iteration_ok lp i"
  shows "triple (eager cr lp n k i) (acquire cr lp approvals i) (acquired_ok cr lp n k i) (during cr lp n k)"
  unfolding acquire_def
proof (rule triple_andthen [where R = "\<lambda>found s. eager cr lp n k i s \<and> found = ls_checkpoint s"], rule triple_gets, simp)
  fix found
  let ?P = "\<lambda>s. eager cr lp n k i s \<and> found = ls_checkpoint s"
  show "triple ?P (case found of None \<Rightarrow> andthen (propose_intent cr lp i) (authorize_and_execute cr lp approvals i)
     | Some c \<Rightarrow> if ck_phase c = RECONCILED_EFFECT then take_reconciled cr lp i c
         else if ck_phase c = PENDING_AUTHORIZATION \<or> ck_phase c = AWAITING_APPROVAL
         then andthen (resume_intent cr lp i c) (authorize_and_execute cr lp approvals i)
         else andthen (propose_intent cr lp i) (authorize_and_execute cr lp approvals i)) (acquired_ok cr lp n k i) (during cr lp n k)"
  proof (cases found)
    case None
    then show ?thesis by (auto simp: triple_def eager_def synced_def)
  next
    case (Some c)
    have will: "ck_phase c \<noteq> RECONCILED_EFFECT \<Longrightarrow> ?P s \<Longrightarrow> willing cr lp n k i s" for s
      by (rule eager_willing) (simp_all add: Some)
    show ?thesis
      unfolding Some option.case
      by (intro triple_if triple_pre [OF take_reconciled_triple] triple_pre [OF resume_then_triple [OF assms]]
          triple_pre [OF propose_then_triple [OF assms]]) (use will Some in auto)
  qed
qed

end
