(* ===== verification/Loop_Effects.thy ===== *)
theory Loop_Effects
  imports Loop_Safe
begin

text \<open>
  The effect invariant through the decision of an iteration and the entry points of the controller,
  and the life of a run: any sequence of calls, with restarts in between.
\<close>

section \<open>Deciding\<close>

abbreviation deciding :: "crypto \<Rightarrow> ('a, 'c, 'w, 'm) loop \<Rightarrow> int \<Rightarrow> int \<Rightarrow> int \<Rightarrow> ('a, 'c, 'w) loop_state \<Rightarrow> bool" where
  "deciding cr lp n k i s \<equiv> during cr lp n k s \<and> synced lp UNIV i s"

definition decided_ok :: "crypto \<Rightarrow> ('a, 'c, 'w, 'm) loop \<Rightarrow> int \<Rightarrow> int \<Rightarrow> int \<Rightarrow> loop_decision option \<Rightarrow> ('a, 'c, 'w) loop_state \<Rightarrow> bool" where
  "decided_ok cr lp n k i r s \<longleftrightarrow> during cr lp n k s \<and> (r = None \<longrightarrow> synced lp live_phases (i + 1) s)"

lemma terminal_decided:
  assumes "lp_store lp"
  shows "triple (deciding cr lp n k i) (andthen (terminal cr lp d reason) (\<lambda>d. ret (Some d))) (decided_ok cr lp n k i) (during cr lp n k)"
  by (rule triple_andthen [OF terminal_triple [OF assms]], rule triple_ret) (simp add: decided_ok_def)

lemma ready_decided:
  assumes "lp_store lp"
  shows "triple (deciding cr lp n k i) (andthen (checkpoint_ready cr lp (i + 1)) (\<lambda>_. ret None)) (decided_ok cr lp n k i) (during cr lp n k)"
  by (rule triple_andthen [OF ready_triple [OF assms]], rule triple_ret)
    (auto simp: decided_ok_def live_phases_def open_phases_def elim: synced_mono)

lemmas quietly_then = at_phase.triple_quiet_then [where ps = UNIV, OF _ conjunct1]

lemma accept_decided:
  assumes "lp_store lp"
  shows "triple (deciding cr lp n k i) (accept_run cr lp i final x refs) (decided_ok cr lp n k i) (during cr lp n k)"
  unfolding accept_run_def
  by (rule quietly_then, intro quiet_intros, assumption, rule quietly_then, intro quiet_intros, assumption, rule terminal_decided [OF assms])

lemma remember_decided:
  assumes "lp_store lp" "triple (deciding cr lp n k i) m (decided_ok cr lp n k i) (during cr lp n k)"
  shows "triple (deciding cr lp n k i) (remember_failure cr lp key reason m) (decided_ok cr lp n k i) (during cr lp n k)"
  unfolding remember_failure_def
  by (rule quietly_then, rule quiet.within_gets, assumption, rule triple_if, rule terminal_decided [OF assms(1)],
      rule quietly_then, rule quiet.within_modify, rule quietlyI, simp, simp, assumption, rule assms(2))

lemma progress_decided:
  assumes "lp_store lp"
  shows "triple (deciding cr lp n k i) (progress_criterion cr lp i intent x r refs) (decided_ok cr lp n k i) (during cr lp n k)"
  unfolding progress_criterion_def
  by (rule quietly_then, intro quiet_intros, assumption, simp only: split_beta, rule triple_if, rule accept_decided [OF assms],
      rule quietly_then, rule quiet.within_liftr, assumption, rule quietly_then, intro quiet_intros, assumption,
      rule quietly_then, intro quiet_intros, assumption, rule ready_decided [OF assms])

lemma conclude_accepted_decided:
  assumes "lp_store lp"
  shows "triple (deciding cr lp n k i) (conclude_accepted cr lp i intent x r refs) (decided_ok cr lp n k i) (during cr lp n k)"
  unfolding conclude_accepted_def
  by (rule quietly_then, intro quiet_intros, assumption, simp only: split_beta, rule triple_if, rule accept_decided [OF assms],
      rule quietly_then, intro quiet_intros, assumption, rule remember_decided [OF assms],
      rule quietly_then, intro quiet_intros, assumption, rule ready_decided [OF assms])

lemma repair_decided:
  assumes "lp_store lp"
  shows "triple (deciding cr lp n k i) (repair_action cr lp i intent x r d) (decided_ok cr lp n k i) (during cr lp n k)"
  unfolding repair_action_def Let_def
  by (rule quietly_then, intro quiet_intros, assumption, rule triple_if, rule terminal_decided [OF assms],
      rule quietly_then, intro quiet_intros, assumption, rule remember_decided [OF assms],
      rule quietly_then, intro quiet_intros, assumption, rule ready_decided [OF assms])

lemma conclude_decided:
  assumes "lp_store lp"
  shows "triple (deciding cr lp n k i) (conclude cr lp i intent x h) (decided_ok cr lp n k i) (during cr lp n k)"
  unfolding conclude_def decide_def
  by ((rule quietly_then, intro quiet_intros, assumption)+, intro triple_if)
    (rule progress_decided [OF assms] conclude_accepted_decided [OF assms] repair_decided [OF assms])+

section \<open>Iterations\<close>

lemma iteration_triple:
  assumes "lp_store lp" "iteration_ok lp i"
  shows "triple (\<lambda>s. during cr lp n k s \<and> synced lp live_phases i s) (run_iteration cr lp approvals i)
    (decided_ok cr lp n k i) (during cr lp n k)"
  unfolding run_iteration_def
proof (rule at_phase.triple_quiet_then [OF quiet_graph_begin conjunct1], assumption,
    rule triple_andthen [where R = "\<lambda>calls s. (during cr lp n k s \<and> synced lp live_phases i s) \<and> calls = ls_tool_calls s"],
    rule triple_gets, simp, rule triple_if)
  fix calls
  let ?P = "\<lambda>s. (during cr lp n k s \<and> synced lp live_phases i s) \<and> calls = ls_tool_calls s"
  show "triple ?P (andthen (terminal cr lp STOP ''tool-call-budget-exhausted'') (\<lambda>d. ret (Some d))) (decided_ok cr lp n k i) (during cr lp n k)"
    by (rule triple_pre [OF terminal_decided [OF assms(1)]]) (auto intro: synced_mono [OF _ subset_UNIV])
  assume "\<not> tc_maximum_tool_calls (lp_contract lp) \<le> calls"
  then have eager: "?P s \<Longrightarrow> eager cr lp n k i s" for s by (simp add: eager_def)
  show "triple ?P (andthen (acquire cr lp approvals i) (\<lambda>r. case r of Inl d \<Rightarrow> ret (Some d)
       | Inr (intent, x, h) \<Rightarrow> conclude cr lp i intent x h)) (decided_ok cr lp n k i) (during cr lp n k)"
  proof (rule triple_pre [OF triple_andthen [OF acquire_triple [OF assms]]])
    fix r :: acquired
    show "triple (acquired_ok cr lp n k i r) (case r of Inl d \<Rightarrow> ret (Some d) | Inr (intent, x, h) \<Rightarrow> conclude cr lp i intent x h)
      (decided_ok cr lp n k i) (during cr lp n k)"
    proof (cases r)
      case (Inl d)
      show ?thesis unfolding Inl sum.case by (rule triple_ret) (simp add: acquired_ok_def decided_ok_def)
    next
      case (Inr y)
      obtain intent x h where y: "y = (intent, x, h)" by (cases y)
      show ?thesis unfolding Inr y sum.case prod.case
        by (rule triple_pre [OF conclude_decided [OF assms(1)]]) (simp add: acquired_ok_def)
    qed
  qed (rule eager)
qed

lemma iterate_triple:
  assumes "lp_store lp" "m \<le> tc_maximum_iterations (lp_contract lp)" "1 \<le> i"
  shows "triple (\<lambda>s. during cr lp n k s \<and> synced lp live_phases i s) (iterate (run_iteration cr lp approvals) [i..m])
    (\<lambda>r s. during cr lp n k s \<and> (r = None \<longrightarrow> (\<exists>j. synced lp UNIV j s))) (during cr lp n k)"
  using assms(3)
proof (induction "nat (m - i + 1)" arbitrary: i)
  case 0
  then have "[i..m] = []" by simp
  then show ?case by (simp only: iterate.simps) (rule triple_ret, auto intro: synced_mono [OF _ subset_UNIV])
next
  case (Suc w)
  then have upt: "[i..m] = i # [i + 1..m]" "w = nat (m - (i + 1) + 1)" by (simp_all add: upto_rec1)
  have i: "1 \<le> i + 1" "iteration_ok lp i" using Suc(2,3) assms(2) by (simp_all add: iteration_ok_def)
  note ih = Suc(1) [OF upt(2) i(1)]
  show ?case
    unfolding upt(1) iterate.simps
  proof (rule triple_andthen [OF iteration_triple [OF assms(1) i(2)]])
    fix r
    show "triple (decided_ok cr lp n k i r) (case r of Some d \<Rightarrow> ret (Some d) | None \<Rightarrow> iterate (run_iteration cr lp approvals) [i + 1..m])
      (\<lambda>r s. during cr lp n k s \<and> (r = None \<longrightarrow> (\<exists>j. synced lp UNIV j s))) (during cr lp n k)"
      by (cases r) (auto simp: decided_ok_def intro: triple_ret triple_pre [OF ih])
  qed
qed

section \<open>Starting and resuming\<close>

lemma run_load_fields:
  assumes "run_load cr db run = Inr (Some c)"
  shows "\<exists>r. dget db run = Some r \<and> kr_phase r = run_phase_value (ck_phase c) \<and> kr_next_iteration r = ck_next_iteration c \<and> 1 \<le> ck_next_iteration c"
proof -
  have phase: "v = run_phase_value p" if "run_phase_of (PStr v) = Inr p" for v p
    using that by (auto simp: run_phase_of_def enum_of_def split: if_splits)
  have first: "1 \<le> ck_next_iteration d" if "checkpoint_wf cr d" for d
    using that by (simp add: checkpoint_wf_def)
  show ?thesis
    using assms by (auto simp: run_load_def bnd_eq_Inr checkpoint_init_ok phase split: option.splits dest: first)
qed

text \<open>The tool calls a run of the controller starts from.\<close>

definition calls_at :: "crypto \<Rightarrow> ('a, 'c, 'w, 'm) loop \<Rightarrow> ('a, 'c, 'w) loop_state \<Rightarrow> int" where
  "calls_at cr lp s = (case run_load cr (ls_runs s) (lp_run_id lp) of Inr (Some c) \<Rightarrow> ck_tool_calls c | _ \<Rightarrow> ls_tool_calls s)"

text \<open>No effect so far; without an answer the run goes on at a live checkpoint.\<close>

definition restored :: "crypto \<Rightarrow> ('a, 'c, 'w, 'm) loop \<Rightarrow> effect_call list \<Rightarrow> int \<Rightarrow> ('a, 'c, 'w) loop_state \<Rightarrow> bool" where
  "restored cr lp fs k s \<longleftrightarrow> run_inv cr lp s \<and> ls_effects s = fs \<and> ls_tool_calls s = k \<and> (\<exists>i \<ge> 1. synced lp live_phases i s)"

abbreviation untouched :: "crypto \<Rightarrow> ('a, 'c, 'w, 'm) loop \<Rightarrow> effect_call list \<Rightarrow> ('a, 'c, 'w) loop_state \<Rightarrow> bool" where
  "untouched cr lp fs s \<equiv> run_inv cr lp s \<and> ls_effects s = fs"

interpretation untouched: core_assertion cr lp "untouched cr lp fs" for cr lp fs
  by unfold_locales (metis core_stable(1) quietly_fields)

lemma restored_stable:
  assumes "quietly cr lp s t" "restored cr lp fs k s"
  shows "restored cr lp fs k t"
  using assms(2) quietly_fields [OF assms(1)] by (simp add: restored_def core_stable(1,2) [OF assms(1)])

interpretation restored: core_assertion cr lp "restored cr lp fs k" for cr lp fs k
  by unfold_locales (rule restored_stable)

lemma frozen_untouched: "frozen cr lp fs t s \<Longrightarrow> untouched cr lp fs s"
  by (simp add: frozen_def)

lemma restored_first: "frozen cr lp fs k s \<Longrightarrow> synced lp {READY} 1 s \<Longrightarrow> restored cr lp fs k s"
  unfolding restored_def frozen_def
  by (intro conjI exI [of _ 1]) (auto simp: live_phases_def open_phases_def elim: synced_mono)

lemma first_checkpoint_triple:
  "triple (frozen cr lp [] k) (first_checkpoint cr lp) (\<lambda>_. restored cr lp [] k) (untouched cr lp [])"
  unfolding first_checkpoint_def
proof (rule triple_andthen [where R = "\<lambda>c s. frozen cr lp [] k s \<and> (ck_run_id c = lp_run_id lp \<and> ck_phase c = READY \<and> ck_next_iteration c = 1)"],
    rule triple_gets, simp, rule triple_pure, elim conjE)
  fix c :: checkpoint assume "ck_run_id c = lp_run_id lp" "ck_phase c = READY" "ck_next_iteration c = 1"
  then show "triple (frozen cr lp [] k) (save_to_store cr lp c) (\<lambda>_. restored cr lp [] k) (untouched cr lp [])"
    by (intro triple_conseq [OF save_to_store_triple [of c lp "[]"]])
      (auto intro: restored_first frozen_untouched simp: frozen_def)
qed

lemma resume_checkpoint_triple:
  assumes "lp_store lp" "1 \<le> ck_next_iteration c"
  shows "triple (\<lambda>s. frozen cr lp fs k s \<and> synced lp {ck_phase c} (ck_next_iteration c) s) (resume_checkpoint cr lp c)
    (\<lambda>r s. untouched cr lp fs s \<and> (r = None \<longrightarrow> restored cr lp fs k s)) (untouched cr lp fs)"
proof -
  let ?P = "\<lambda>s. frozen cr lp fs k s \<and> synced lp {ck_phase c} (ck_next_iteration c) s"
  let ?Q = "\<lambda>(r :: loop_decision option) s. untouched cr lp fs s \<and> (r = None \<longrightarrow> restored cr lp fs k s)"
  have stop: "triple ?P m ?Q (untouched cr lp fs)" if "triple (untouched cr lp fs) m (\<lambda>r s. untouched cr lp fs s \<and> r \<noteq> None) (untouched cr lp fs)" for m
    by (rule triple_conseq [OF that]) (auto simp: frozen_def)
  have blocked: "triple (untouched cr lp fs) (log_blocked cr lp reason c) (\<lambda>r s. untouched cr lp fs s \<and> r \<noteq> None) (untouched cr lp fs)" for reason
    unfolding log_blocked_def by (rule untouched.triple_quiet_then, intro quiet_intros, assumption, rule triple_ret, simp)
  have terminal: "triple (untouched cr lp fs) (andthen (liftr (loop_decision_of (text_or_empty (ck_terminal_decision c)))) (\<lambda>d. ret (Some d)))
      (\<lambda>r s. untouched cr lp fs s \<and> r \<noteq> None) (untouched cr lp fs)"
    by (rule untouched.triple_quiet_then, rule quiet.within_liftr, assumption, rule triple_ret, simp)
  show ?thesis
    unfolding resume_checkpoint_def
  proof (intro triple_if stop [OF terminal] stop [OF blocked])
    let ?a = "(save_args_of RECONCILIATION_REQUIRED (ck_next_iteration c))
      \<lparr>va_pending_intent := ck_pending_intent c, va_executor_id := ck_executor_id c, va_prepared := ck_prepared c\<rparr>"
    have ahead: "?P s \<Longrightarrow> frozen cr lp fs k s \<and> ahead ?a fs" for s
      using synced_behind [of cr lp s "{ck_phase c}" "ck_next_iteration c"]
      by (auto simp: frozen_def ahead_def save_args_of_def open_phases_def)
    show "triple ?P (andthen (save_checkpoint cr lp ?a) (\<lambda>_. log_blocked cr lp ''pending-effect-requires-reconciliation'' c))
      ?Q (untouched cr lp fs)"
    proof (rule triple_andthen [where R = "\<lambda>_. untouched cr lp fs"])
      show "triple ?P (save_checkpoint cr lp ?a) (\<lambda>_. untouched cr lp fs) (untouched cr lp fs)"
        by (rule triple_conseq [OF save_checkpoint_triple [OF assms(1), of cr fs k ?a]], rule ahead, assumption) (auto simp: frozen_def)
    qed (rule triple_post [OF blocked], auto)
  next
    assume "ck_phase c \<noteq> TERMINAL" "ck_phase c \<noteq> PENDING_EFFECT" "ck_phase c \<noteq> RECONCILIATION_REQUIRED"
    then have "ck_phase c \<in> live_phases" by (cases "ck_phase c") (simp_all add: live_phases_def open_phases_def)
    then have restored: "?P s \<Longrightarrow> restored cr lp fs k s" for s
      using assms(2) by (auto simp: restored_def frozen_def intro!: exI [of _ "ck_next_iteration c"] elim: synced_mono)
    show "triple ?P (andthen (log_event cr lp ''run.resumed'' [(''next_iteration'', PInt (ck_next_iteration c)),
       (''phase'', PStr (run_phase_value (ck_phase c)))]) (\<lambda>_. ret None)) ?Q (untouched cr lp fs)"
      by (rule triple_pre [where P = "restored cr lp fs k"], rule restored.triple_quiet_then, intro quiet_intros,
          simp add: restored_def, rule triple_ret, simp add: restored_def, rule restored)
  qed
qed

lemma restore_or_start_triple:
  assumes "lp_store lp"
  shows "triple (\<lambda>s. s = s0 \<and> run_inv cr lp s0) (restore_or_start cr lp)
    (\<lambda>r s. untouched cr lp (ls_effects s0) s \<and> (r = None \<longrightarrow> restored cr lp (ls_effects s0) (calls_at cr lp s0) s))
    (untouched cr lp (ls_effects s0))"
proof -
  let ?Q = "\<lambda>(r :: loop_decision option) s. untouched cr lp (ls_effects s0) s \<and> (r = None \<longrightarrow> restored cr lp (ls_effects s0) (calls_at cr lp s0) s)"
  let ?E = "untouched cr lp (ls_effects s0)"
  have fresh: "triple (\<lambda>s. (s = s0 \<and> run_inv cr lp s0) \<and> run_load cr (ls_runs s0) (lp_run_id lp) = Inr None)
      (andthen (first_checkpoint cr lp) (\<lambda>_. andthen (log_started cr lp) (\<lambda>_. ret None))) ?Q ?E"
  proof (rule triple_pure, rule triple_andthen [where R = "\<lambda>_. restored cr lp (ls_effects s0) (calls_at cr lp s0)"])
    assume load: "run_load cr (ls_runs s0) (lp_run_id lp) = Inr None"
    then have "dget (ls_runs s0) (lp_run_id lp) = None" by (auto simp: run_load_def bnd_eq_Inr split: option.splits)
    then show "triple (\<lambda>s. s = s0 \<and> run_inv cr lp s0) (first_checkpoint cr lp) (\<lambda>_. restored cr lp (ls_effects s0) (calls_at cr lp s0)) ?E"
      by (cases "run_inv cr lp s0", intro triple_conseq [OF first_checkpoint_triple [of cr lp "ls_tool_calls s0"]])
        (auto simp: load frozen_def run_inv_def calls_at_def triple_def)
  qed (rule restored.triple_quiet_then, intro quiet_intros, simp add: restored_def, rule triple_ret, simp add: restored_def)
  have found: "triple (\<lambda>s. (s = s0 \<and> run_inv cr lp s0) \<and> run_load cr (ls_runs s0) (lp_run_id lp) = Inr (Some c))
      (andthen (restore_from c) (\<lambda>_. resume_checkpoint cr lp c)) ?Q ?E" for c
  proof (rule triple_pure)
    assume load: "run_load cr (ls_runs s0) (lp_run_id lp) = Inr (Some c)"
    have next_it: "1 \<le> ck_next_iteration c" using run_load_fields [OF load] by blast
    have "triple (\<lambda>s. s = s0 \<and> run_inv cr lp s0) (restore_from c)
      (\<lambda>_ s. frozen cr lp (ls_effects s0) (calls_at cr lp s0) s \<and> synced lp {ck_phase c} (ck_next_iteration c) s) ?E"
      unfolding restore_from_def
      by (rule triple_modify) (use run_load_fields [OF load] in
        \<open>auto simp: frozen_def run_inv_def synced_def calls_at_def load\<close>)
    then show "triple (\<lambda>s. s = s0 \<and> run_inv cr lp s0) (andthen (restore_from c) (\<lambda>_. resume_checkpoint cr lp c)) ?Q ?E"
      by (rule triple_andthen [OF _ resume_checkpoint_triple [OF assms next_it]])
  qed
  show ?thesis
    unfolding restore_or_start_def load_checkpoint_def
    by (simp only: assms not_True_eq_False if_False,
        rule triple_andthen [where R = "\<lambda>found s. (s = s0 \<and> run_inv cr lp s0) \<and> run_load cr (ls_runs s0) (lp_run_id lp) = Inr found"],
        rule triple_asks, simp, simp, rule triple_option, simp only:, rule fresh,
        intro triple_if triple_raise, simp_all, insert found, simp)
qed

section \<open>The entry points\<close>

text \<open>At most \<open>n\<close> effects more than before.\<close>

definition spent :: "crypto \<Rightarrow> ('a, 'c, 'w, 'm) loop \<Rightarrow> int \<Rightarrow> int \<Rightarrow> ('a, 'c, 'w) loop_state \<Rightarrow> bool" where
  "spent cr lp n k s \<longleftrightarrow> run_inv cr lp s
     \<and> int (length (ls_effects s)) - n \<le> max 0 (tc_maximum_tool_calls (lp_contract lp) - k)"

lemma during_spent: "during cr lp n k s \<Longrightarrow> spent cr lp n k s"
  by (auto simp: during_def counted_def spent_def)

lemma untouched_spent: "untouched cr lp fs s \<Longrightarrow> spent cr lp (int (length fs)) k s"
  by (auto simp: spent_def)

lemma run_loop_triple:
  assumes "lp_store lp"
  shows "triple (\<lambda>s. s = s0 \<and> run_inv cr lp s0) (run_loop cr lp approvals)
    (\<lambda>_. spent cr lp (int (length (ls_effects s0))) (calls_at cr lp s0))
    (spent cr lp (int (length (ls_effects s0))) (calls_at cr lp s0))"
  unfolding run_loop_def
proof (rule triple_andthen [OF triple_conseq [OF restore_or_start_triple [OF assms]]], assumption, assumption, erule untouched_spent)
  let ?fs = "ls_effects s0" and ?k = "calls_at cr lp s0"
  let ?n = "int (length ?fs)"
  fix r :: "loop_decision option"
  let ?R = "\<lambda>s. untouched cr lp ?fs s \<and> (r = None \<longrightarrow> restored cr lp ?fs ?k s)"
  let ?body = "\<lambda>j. andthen (iterate (run_iteration cr lp approvals) [j..tc_maximum_iterations (lp_contract lp)]) (\<lambda>r. case r of
      Some d \<Rightarrow> ret d | None \<Rightarrow> terminal cr lp STOP ''iteration-budget-exhausted'')"
  have body: "triple (\<lambda>s. during cr lp ?n ?k s \<and> synced lp live_phases j s) (?body j) (\<lambda>_. during cr lp ?n ?k) (during cr lp ?n ?k)"
    if "1 \<le> j" for j
  proof (rule triple_andthen [OF iterate_triple [OF assms order_refl that]], rule triple_option)
    fix r :: "loop_decision option"
    have "triple (\<lambda>s. \<exists>j. during cr lp ?n ?k s \<and> synced lp UNIV j s) (terminal cr lp STOP ''iteration-budget-exhausted'')
      (\<lambda>_. during cr lp ?n ?k) (during cr lp ?n ?k)"
      by (rule triple_ex, rule terminal_triple [OF assms])
    then show "r = None \<Longrightarrow> triple (\<lambda>s. during cr lp ?n ?k s \<and> (r = None \<longrightarrow> (\<exists>j. synced lp UNIV j s)))
      (terminal cr lp STOP ''iteration-budget-exhausted'') (\<lambda>_. during cr lp ?n ?k) (during cr lp ?n ?k)"
      by (rule triple_pre) auto
  qed (rule triple_ret, simp)
  have "triple (restored cr lp ?fs ?k) (andthen (gets (\<lambda>s. case ls_checkpoint s of None \<Rightarrow> 1 | Some c \<Rightarrow> ck_next_iteration c)) ?body)
    (\<lambda>_. spent cr lp ?n ?k) (spent cr lp ?n ?k)"
  proof (rule triple_andthen)
    show "triple (restored cr lp ?fs ?k) (gets (\<lambda>s. case ls_checkpoint s of None \<Rightarrow> 1 | Some c \<Rightarrow> ck_next_iteration c))
      (\<lambda>j s. (during cr lp ?n ?k s \<and> synced lp live_phases j s) \<and> 1 \<le> j) (spent cr lp ?n ?k)"
      by (rule triple_gets) (auto simp: restored_def during_def counted_def synced_def)
  qed (rule triple_pure, rule triple_conseq [OF body], auto intro: during_spent)
  then show "triple ?R (case r of Some d \<Rightarrow> ret d
      | None \<Rightarrow> andthen (gets (\<lambda>s. case ls_checkpoint s of None \<Rightarrow> 1 | Some c \<Rightarrow> ck_next_iteration c)) ?body)
    (\<lambda>_. spent cr lp ?n ?k) (spent cr lp ?n ?k)"
    by (cases r) (auto intro: triple_pre triple_ret untouched_spent)
qed

end
