(* ===== verification/Loop_Accept.thy ===== *)
theory Loop_Accept
  imports Loop_Inv
begin

text \<open>
  What a run of the controller that answers ACCEPT has done: the final verifier passed on the evidence
  it leaves, and the control graph completed \<open>decision.accept\<close>.
\<close>

section \<open>Methods that keep the notes of a run\<close>

definition same :: "('s \<Rightarrow> 'g) \<Rightarrow> 's \<Rightarrow> 's \<Rightarrow> bool" where
  "same g s t \<longleftrightarrow> g s = g t"

interpretation same: frame_rel "same g" for g
  by unfold_locales (simp_all add: same_def)

text \<open>The notes are the history and the evidence; a at_rest run does not move the graph either.\<close>

definition noted :: "('a, 'c, 'w) loop_state \<Rightarrow> pydict list \<times> evidence_snapshot" where
  "noted s = (ls_history s, ls_evidence s)"

definition at_rest :: "('a, 'c, 'w) loop_state \<Rightarrow> (pydict list \<times> evidence_snapshot) \<times> sched_db" where
  "at_rest s = (noted s, ls_sched s)"

lemma notes_update [simp]:
  "noted (s\<lparr>ls_world := w\<rparr>) = noted s" "noted (s\<lparr>ls_ledger := l\<rparr>) = noted s" "noted (s\<lparr>ls_sched := d\<rparr>) = noted s"
  "noted (s\<lparr>ls_runs := r\<rparr>) = noted s" "noted (s\<lparr>ls_checkpoint := c\<rparr>) = noted s"
  "at_rest (s\<lparr>ls_world := w\<rparr>) = at_rest s" "at_rest (s\<lparr>ls_ledger := l\<rparr>) = at_rest s"
  "at_rest (s\<lparr>ls_runs := r\<rparr>) = at_rest s" "at_rest (s\<lparr>ls_checkpoint := c\<rparr>) = at_rest s"
  by (simp_all add: noted_def at_rest_def)

lemma settled_notes: "moves_in (same at_rest) m \<Longrightarrow> moves_in (same noted) m"
  by (simp add: moves_in_def same_def at_rest_def)

named_theorems settled_intros \<open>methods that keep the notes and the graph\<close>

lemma settled_access [settled_intros]: "moves_in (same at_rest) (on_world op)" "moves_in (same at_rest) (graph_state cr lp i)"
  "moves_in (same at_rest) (run_events lp)"
  unfolding on_world_def graph_state_def run_events_def by (intro same.within_intros; simp add: same_def)+

lemma settled_log [settled_intros]: "moves_in (same at_rest) (tick lp)" "moves_in (same at_rest) (fresh_id lp)"
  "moves_in (same at_rest) (log_event cr lp ty payload)"
  unfolding log_event_def tick_def fresh_id_def
  by (intro same.within_intros settled_intros; simp add: same_def)+

lemma settled_save [settled_intros]: "moves_in (same at_rest) (save_checkpoint cr lp a)"
  unfolding save_checkpoint_def save_to_store_def
  by (intro same.within_intros settled_intros; simp add: same_def)




named_theorems notes_intros \<open>methods that keep the notes\<close>

lemma notes_sched [notes_intros]: "moves_in (same noted) (on_sched lp op)"
  unfolding on_sched_def
  by (intro same.within_intros settled_intros [THEN settled_notes]; simp add: same_def)

lemma notes_graph_steps [notes_intros]:
  "moves_in (same noted) (graph_advance cr lp i node ty payload auth)" "moves_in (same noted) (graph_reserve cr lp i node)"
  "moves_in (same noted) (complete_reserved cr lp i node a r)"
  unfolding graph_advance_def graph_reserve_def complete_reserved_def
  by (intro same.within_intros notes_intros settled_intros [THEN settled_notes])+

lemma notes_graph_complete [notes_intros]: "moves_in (same noted) (graph_complete cr lp i node a r)"
  unfolding graph_complete_def by (intro same.within_intros notes_intros settled_intros [THEN settled_notes])



section \<open>Results\<close>




section \<open>Acceptance\<close>















section \<open>Over the compiled graph\<close>

text \<open>The scheduler that \<open>__init__\<close> builds runs the graph compiled from the contract.\<close>

definition compiled_for :: "crypto \<Rightarrow> ('a, 'c, 'w, 'm) loop \<Rightarrow> bool" where
  "compiled_for cr lp \<longleftrightarrow> (\<exists>cd specs. sc_monitor (lp_scheduler lp) = control_monitor cr (lp_contract lp) cd specs)"

lemma scheduler_init_monitor:
  assumes "graph_compile cr c receipts = Inr g" "scheduler_init g [] v = Inr sc"
  shows "\<exists>cd specs. sc_monitor sc = control_monitor cr c cd specs"
proof -
  obtain specs cd where "g = control_manifest cr c cd specs" using graph_compileD [OF assms(1)] by metis
  moreover have "sc_monitor sc = \<lparr>mon_manifest = g, mon_joins = gm_joins g\<rparr>"
    using assms(2) by (auto simp: scheduler_init_def monitor_init_def bnd_eq_Inr split: if_splits)
  ultimately show ?thesis
    by (auto simp: control_monitor_def control_manifest_def control_graph_def)
qed

lemma loop_init_compiled:
  assumes "loop_init cr lp0 None client v issued keygen = Inr lp"
  shows "compiled_for cr lp"
proof -
  obtain g vf sc where "graph_compile cr (lp_contract lp0) (planned_receipts lp0) = Inr g" "scheduler_init g [] vf = Inr sc"
    "lp_scheduler lp = sc" "lp_contract lp = lp_contract lp0"
    using assms unfolding loop_init_def
    by (auto simp: bnd_eq_Inr split: option.splits if_splits prod.splits)
  then show ?thesis unfolding compiled_for_def using scheduler_init_monitor by metis
qed




end
