(* ===== verification/Loop_Life.thy ===== *)
theory Loop_Life
  imports Loop_Effects Loop_Accept
begin

text \<open>
  The life of a run of the controller: any sequence of its entry points, with restarts and other
  runs in between, and the properties of the effects over the whole life.
\<close>

section \<open>Entry points keep the invariant\<close>















section \<open>The life of a run\<close>



text \<open>A new process with the same stores.\<close>

definition restart :: "('a, 'c, 'w, 'm) loop \<Rightarrow> ('a, 'c, 'w) loop_state \<Rightarrow> ('a, 'c, 'w) loop_state" where
  "restart lp s = (loop_start lp (ls_runs s) (ls_ledger s) (ls_sched s) (ls_gate s) (ls_world s))\<lparr>ls_effects := ls_effects s\<rparr>"





section \<open>Properties\<close>





end
