(* ===== verification/Loop_Restart.thy ===== *)
theory Loop_Restart
  imports Loop_Life
begin

text \<open>
  Restarts of the controller: what a run does with an uncertain effect, with a terminal checkpoint and
  with a reconciled outcome, and a concrete controller on which the properties of its life are
  instantiated.
\<close>

section \<open>Uncertain effects and terminal runs\<close>

definition still :: "('a, 'c, 'w) loop_state \<Rightarrow> effect_call list \<times> sched_db \<times> ('a \<times> 'c)" where
  "still s = (ls_effects s, ls_sched s, ls_gate s)"

lemma still_update [simp]:
  "still (s\<lparr>ls_world := w\<rparr>) = still s" "still (s\<lparr>ls_ledger := l\<rparr>) = still s" "still (s\<lparr>ls_runs := r\<rparr>) = still s"
  "still (s\<lparr>ls_checkpoint := c\<rparr>) = still s"
  by (simp_all add: still_def)

text \<open>The clock was read some number of times and no other collaborator was called.\<close>

definition ticked :: "('a, 'c, 'w, 'm) loop \<Rightarrow> 'w \<Rightarrow> 'w \<Rightarrow> bool" where
  "ticked lp w w' \<longleftrightarrow> (\<exists>n. w' = ((\<lambda>w. snd (lp_clock lp w)) ^^ n) w)"

lemma ticked_refl [simp]: "ticked lp w w"
  unfolding ticked_def by (rule exI [of _ 0]) simp

lemma ticked_once [simp]: "ticked lp w (snd (lp_clock lp w))"
  unfolding ticked_def by (rule exI [of _ 1]) simp

lemma ticked_clock: "lp_clock lp w = (now, w') \<Longrightarrow> ticked lp w w'"
  using ticked_once [of lp w] by simp

lemma ticked_trans: "ticked lp w v \<Longrightarrow> ticked lp v u \<Longrightarrow> ticked lp w u"
  unfolding ticked_def by (metis comp_apply funpow_add)

lemma log_event_keeps:
  assumes "log_event cr lp ty payload s = (x, t)"
  shows "still t = still s \<and> ls_runs t = ls_runs s \<and> ticked lp (ls_world s) (ls_world t)"
  using assms ticked_clock [of lp "ls_world s"]
  by (auto simp: log_event_def tick_def on_world_def andthen_def zoom_def split: prod.splits)

lemma save_to_store_keeps:
  assumes "save_to_store cr lp c s = (x, t)"
  shows "still t = still s \<and> ticked lp (ls_world s) (ls_world t) \<and> (if isl x then ls_runs t = ls_runs s
    else \<exists>now. \<forall>q. dget (ls_runs t) q = (if q = ck_run_id c then Some (row_of c (ck_revision c + 1) now) else dget (ls_runs s) q))"
proof (cases "checkpoint_init cr c")
  case (Inl e)
  then show ?thesis using assms by (auto simp: save_to_store_def andthen_def liftr_def)
next
  case (Inr d)
  then have wf: "checkpoint_wf cr c" "d = c" by (simp_all add: checkpoint_init_ok)
  obtain now w where clock: "lp_clock lp (ls_world s) = (now, w)" by fastforce
  then have w: "ticked lp (ls_world s) w" using ticked_once [of lp "ls_world s"] by simp
  show ?thesis
  proof (cases rule: run_save_cases [OF wf(1), of "ls_runs s" now])
    case (1 c')
    then obtain db where db: "run_save cr (ls_runs s) (c, now) = (Inr c', db)" by blast
    then have "x = Inr ()" "t = s\<lparr>ls_world := w, ls_runs := db, ls_checkpoint := Some c'\<rparr>"
      using assms Inr wf(2) clock by (simp_all add: save_to_store_def andthen_def liftr_def tick_def on_world_def zoom_def modify_def)
    then show ?thesis using 1(4) db w by auto
  next
    case (2 e)
    then have "isl x" "still t = still s" "ls_world t = w" "ls_runs t = ls_runs s"
      using assms Inr wf(2) clock by (auto simp: save_to_store_def andthen_def liftr_def tick_def on_world_def zoom_def)
    then show ?thesis using w by simp
  qed
qed

lemma restore_found:
  assumes "lp_store lp" "run_load cr (ls_runs s) (lp_run_id lp) = Inr (Some c)"
  shows "restore_or_start cr lp s =
    (if ck_contract_digest c \<noteq> lp_contract_digest lp
     then raise ValueError ''persisted run state belongs to a different task contract''
     else if ck_graph_digest c \<noteq> [] \<and> ck_graph_digest c \<noteq> loop_graph_digest cr lp
     then raise ValueError ''persisted run state belongs to a different control graph''
     else if tc_maximum_iterations (lp_contract lp) + 1 < ck_next_iteration c
     then raise ValueError ''persisted run state exceeds the contract iteration budget''
     else andthen (restore_from c) (\<lambda>_. resume_checkpoint cr lp c)) s"
  using assms by (simp add: restore_or_start_def load_checkpoint_def andthen_def asks_def)

text \<open>The checkpoint that takes the place of one with an effect in flight: same iteration, counters, pending intent
  and prepared operation, now requiring reconciliation.\<close>

definition uncertain :: "crypto \<Rightarrow> ('a, 'c, 'w, 'm) loop \<Rightarrow> checkpoint \<Rightarrow> checkpoint" where
  "uncertain cr lp c = c\<lparr>ck_run_id := lp_run_id lp, ck_contract_digest := lp_contract_digest lp,
     ck_phase := RECONCILIATION_REQUIRED, ck_seen_failures := sorted_pairs (remdups (ck_seen_failures c)),
     ck_graph_digest := loop_graph_digest cr lp, ck_reconciled := None, ck_terminal_decision := None,
     ck_terminal_reason := None, ck_updated_at := utc 0\<rparr>"

lemma uncertain_same: "ck_run_id (uncertain cr lp c) = lp_run_id lp" "ck_revision (uncertain cr lp c) = ck_revision c"
  by (simp_all add: uncertain_def)

definition marks_uncertain :: "crypto \<Rightarrow> ('a, 'c, 'w, 'm) loop \<Rightarrow> checkpoint \<Rightarrow> run_db \<Rightarrow> run_db \<Rightarrow> bool" where
  "marks_uncertain cr lp c db db' \<longleftrightarrow> (\<exists>now. \<forall>q. dget db' q =
     (if q = lp_run_id lp then Some (row_of (uncertain cr lp c) (ck_revision c + 1) now) else dget db q))"

lemma resume_uncertain:
  assumes "lp_store lp" "ck_phase c = PENDING_EFFECT" "andthen (restore_from c) (\<lambda>_. resume_checkpoint cr lp c) s = (r, t)"
  shows "still t = still s \<and> ticked lp (ls_world s) (ls_world t)
    \<and> (r = Inr (Some WAITING) \<and> marks_uncertain cr lp c (ls_runs s) (ls_runs t)
        \<or> isl r \<and> (ls_runs t = ls_runs s \<or> marks_uncertain cr lp c (ls_runs s) (ls_runs t)))"
proof -
  let ?u = "snd (restore_from c s)"
  let ?a = "(save_args_of RECONCILIATION_REQUIRED (ck_next_iteration c))
             \<lparr>va_pending_intent := ck_pending_intent c, va_executor_id := ck_executor_id c, va_prepared := ck_prepared c\<rparr>"
  have d: "checkpoint_of cr lp ?a c ?u = uncertain cr lp c"
    by (simp add: checkpoint_of_def save_args_of_def uncertain_def restore_from_def modify_def)
  have run: "andthen (save_to_store cr lp (uncertain cr lp c)) (\<lambda>_. log_blocked cr lp ''pending-effect-requires-reconciliation'' c) ?u = (r, t)"
    using assms d
    by (simp add: restore_from_def modify_def resume_checkpoint_def save_checkpoint_def stepping)
  have u: "still ?u = still s" "ls_runs ?u = ls_runs s" "ls_world ?u = ls_world s" by (simp_all add: restore_from_def modify_def still_def)
  obtain x v where v: "save_to_store cr lp (uncertain cr lp c) ?u = (x, v)" by fastforce
  note sv = save_to_store_keeps [OF v, unfolded u]
  show ?thesis
  proof (cases x)
    case (Inl e)
    then have "isl r" "t = v" using run v by (auto simp: andthen_def)
    then show ?thesis using sv Inl by simp
  next
    case (Inr y)
    then have m: "marks_uncertain cr lp c (ls_runs s) (ls_runs v)"
      using sv unfolding marks_uncertain_def uncertain_same by simp
    obtain z w where w: "log_event cr lp ''run.resume.blocked'' [(''reason'', PStr ''pending-effect-requires-reconciliation''),
        (''intent_digest'', PStr (pending_digest cr c))] v = (z, w)" by fastforce
    then have "t = w" "r = (case z of Inl e \<Rightarrow> Inl e | Inr h \<Rightarrow> Inr (Some WAITING))"
      using run v Inr by (auto simp: andthen_def log_blocked_def ret_def split: sum.splits)
    then show ?thesis using log_event_keeps [OF w] sv m ticked_trans by (cases z) auto
  qed
qed

lemma resume_required:
  assumes "ck_phase c = RECONCILIATION_REQUIRED" "andthen (restore_from c) (\<lambda>_. resume_checkpoint cr lp c) s = (r, t)"
  shows "still t = still s \<and> ticked lp (ls_world s) (ls_world t) \<and> ls_runs t = ls_runs s \<and> (r = Inr (Some WAITING) \<or> isl r)"
proof -
  let ?u = "snd (restore_from c s)"
  have u: "still ?u = still s" "ls_runs ?u = ls_runs s" "ls_world ?u = ls_world s" by (simp_all add: restore_from_def modify_def still_def)
  obtain z w where w: "log_event cr lp ''run.resume.blocked'' [(''reason'', PStr ''reconciliation-required''),
      (''intent_digest'', PStr (pending_digest cr c))] ?u = (z, w)" by fastforce
  then have "t = w" "r = (case z of Inl e \<Rightarrow> Inl e | Inr h \<Rightarrow> Inr (Some WAITING))"
    using assms by (auto simp: restore_from_def modify_def resume_checkpoint_def andthen_def log_blocked_def ret_def split: sum.splits)
  then show ?thesis using log_event_keeps [OF w] u by (auto split: sum.splits)
qed

text \<open>C4: a run whose stored checkpoint says that an effect may have happened answers WAITING or raises. It calls no
  collaborator but the clock, so it plans nothing and executes nothing; it asks the gate for nothing and moves no
  graph node. When reconciliation is already required it stores nothing; when an effect was in flight, the only
  thing it stores is the same checkpoint, with its intent, prepared operation and counters, marked as requiring
  reconciliation, and it does so whenever it answers WAITING.\<close>

theorem pending_effect_waits:
  assumes "lp_store lp" "run_load cr (ls_runs s) (lp_run_id lp) = Inr (Some c)"
    "ck_phase c \<in> {PENDING_EFFECT, RECONCILIATION_REQUIRED}" "run_loop cr lp approvals s = (r, t)"
  shows "still t = still s \<and> ticked lp (ls_world s) (ls_world t)
    \<and> (r = Inr WAITING \<and> (if ck_phase c = PENDING_EFFECT then marks_uncertain cr lp c (ls_runs s) (ls_runs t) else ls_runs t = ls_runs s)
       \<or> isl r \<and> (ls_runs t = ls_runs s \<or> ck_phase c = PENDING_EFFECT \<and> marks_uncertain cr lp c (ls_runs s) (ls_runs t)))"
proof -
  obtain x u where x: "restore_or_start cr lp s = (x, u)" by fastforce
  have "still u = still s \<and> ticked lp (ls_world s) (ls_world u)
    \<and> (x = Inr (Some WAITING) \<and> (if ck_phase c = PENDING_EFFECT then marks_uncertain cr lp c (ls_runs s) (ls_runs u) else ls_runs u = ls_runs s)
       \<or> isl x \<and> (ls_runs u = ls_runs s \<or> ck_phase c = PENDING_EFFECT \<and> marks_uncertain cr lp c (ls_runs s) (ls_runs u)))"
  proof (cases "andthen (restore_from c) (\<lambda>_. resume_checkpoint cr lp c) s = (x, u)")
    case True
    show ?thesis
    proof (cases "ck_phase c = PENDING_EFFECT")
      case pending: True
      then show ?thesis using resume_uncertain [OF assms(1) pending True] by auto
    next
      case False
      then show ?thesis using resume_required [OF _ True] assms(3) by auto
    qed
  next
    case False
    then have "isl x \<and> u = s" using x unfolding restore_found [OF assms(1,2)] by (auto simp: raise_def split: if_splits)
    then show ?thesis by simp
  qed
  moreover have "t = u \<and> (isl r = isl x) \<and> (x = Inr (Some WAITING) \<longrightarrow> r = Inr WAITING)"
    using assms(4) x calculation by (cases x) (auto simp: run_loop_def andthen_def ret_def)
  ultimately show ?thesis by auto
qed

text \<open>A run whose stored checkpoint is terminal, for this contract and graph, answers the stored decision
  and changes no store.\<close>

theorem terminal_run_answers:
  assumes "lp_store lp" "run_load cr (ls_runs s) (lp_run_id lp) = Inr (Some c)" "ck_phase c = TERMINAL"
    "ck_terminal_decision c = Some (loop_decision_value d)"
    "ck_contract_digest c = lp_contract_digest lp" "ck_graph_digest c \<in> {[], loop_graph_digest cr lp}"
    "ck_next_iteration c \<le> tc_maximum_iterations (lp_contract lp) + 1"
  shows "case run_loop cr lp approvals s of (r, t) \<Rightarrow>
    r = Inr d \<and> still t = still s \<and> ls_runs t = ls_runs s \<and> ls_ledger t = ls_ledger s \<and> ls_world t = ls_world s"
proof -
  have d: "loop_decision_of (loop_decision_value d) = Inr d" by (cases d) (simp_all add: loop_decision_of_def)
  have "restore_or_start cr lp s = (Inr (Some d), snd (restore_from c s))"
    using assms unfolding restore_found [OF assms(1,2)]
    by (auto simp: andthen_def restore_from_def modify_def resume_checkpoint_def liftr_def ret_def text_or_empty_def d)
  then show ?thesis
    by (simp add: run_loop_def andthen_def ret_def restore_from_def modify_def still_def)
qed

section \<open>Recording a reconciled outcome\<close>

lemma save_to_store_saved:
  assumes "save_to_store cr lp c s = (Inr (), t)"
  shows "\<exists>now. dget (ls_runs t) (ck_run_id c) = Some (row_of c (ck_revision c + 1) now)"
proof -
  have "\<exists>d now db saved. checkpoint_init cr c = Inr d \<and> run_save cr db (d, now) = (Inr saved, ls_runs t)"
    using assms unfolding save_to_store_def
    by (clarsimp simp: act_Inr liftr_def modify_def) blast
  then obtain d now db saved where "checkpoint_init cr c = Inr d" and save: "run_save cr db (d, now) = (Inr saved, ls_runs t)"
    by blast
  then have wf: "checkpoint_wf cr c" "d = c" by (simp_all add: checkpoint_init_ok)
  have "dget (ls_runs t) (ck_run_id c) = Some (row_of c (ck_revision c + 1) now)"
    by (rule run_save_cases [OF wf(1), of db now]) (use save wf(2) in auto)
  then show ?thesis by blast
qed

text \<open>C7: what \<open>reconcile_effect\<close> stores in a process that has not run yet, whatever the stored checkpoint
  \<open>c\<close> counted: no tool call, no history, no seen failure and no evidence. Only \<open>run\<close> and \<open>cancel_run\<close>
  restore these from the checkpoint.\<close>

theorem reconcile_forgets_counters:
  assumes "lp_store lp" "record_reconciled cr lp c intent p x (restart lp s) = (Inr (), t)"
  shows "\<exists>d k now. dget (ls_runs t) (lp_run_id lp) = Some (row_of d k now) \<and> ck_phase d = RECONCILED_EFFECT
    \<and> ck_next_iteration d = ck_next_iteration c \<and> ck_tool_calls d = 0 \<and> ck_history d = [] \<and> ck_seen_failures d = []
    \<and> es_actions (ck_evidence d) = []"
proof -
  let ?a = "(save_args_of RECONCILED_EFFECT (ck_next_iteration c))\<lparr>va_pending_intent := Some intent,
     va_executor_id := ck_executor_id c, va_prepared := Some p, va_reconciled := Some x\<rparr>"
  let ?u = "(restart lp s)\<lparr>ls_checkpoint := Some c\<rparr>" and ?d = "checkpoint_of cr lp ?a c ((restart lp s)\<lparr>ls_checkpoint := Some c\<rparr>)"
  obtain v where v: "save_to_store cr lp ?d ?u = (Inr (), v)" and t: "ls_runs t = ls_runs v"
  proof -
    obtain v payload h where v: "save_checkpoint cr lp ?a ?u = (Inr (), v)"
      and h: "log_event cr lp ''effect.reconciled'' payload v = (Inr h, t)"
      using assms(2) unfolding record_reconciled_def
      by (auto simp: act_Inr modify_def split: if_splits)
    from h have "ls_runs t = ls_runs v"
      by (auto simp: log_event_def tick_def on_world_def act_Inr split: prod.splits)
    moreover have "save_to_store cr lp ?d ?u = (Inr (), v)"
      using v assms(1) by (simp add: save_checkpoint_def andthen_def gets_def)
    ultimately show thesis by (rule that [rotated])
  qed
  from save_to_store_saved [OF v] obtain now where
    "dget (ls_runs v) (ck_run_id ?d) = Some (row_of ?d (ck_revision ?d + 1) now)" by blast
  then show ?thesis
    by (intro exI [of _ ?d] exI [of _ "ck_revision ?d + 1"] exI [of _ now])
      (simp add: t checkpoint_of_def save_args_of_def restart_def loop_start_def sorted_pairs_def)
qed

section \<open>A concrete controller\<close>

definition sample_client :: "node_completion \<Rightarrow> unit \<Rightarrow> node_completion res \<times> unit" where
  "sample_client c w = (Inr c, w)"

definition plain_observation :: observation where
  "plain_observation = \<lparr>ob_success = True, ob_exit_code = Some 0, ob_stdout = [], ob_stderr = [], ob_artifact_digests = [],
     ob_metadata = [(''operation_id'', PStr ''op''), (''request_digest'', PStr zero_hash), (''graph_digest'', PStr zero_hash),
       (''graph_node_id'', PStr ''operation.prepared'')]\<rparr>"

definition sample_loop :: "(approval_key set, (rule_key \<times> int) list, unit, unit) loop" where
  "sample_loop = \<lparr>lp_contract = sample_contract, lp_contract_digest = ''c'', lp_run_id = ''r'',
     lp_manifest = control_manifest toy_crypto sample_contract [] [],
     lp_scheduler = \<lparr>sc_monitor = control_monitor toy_crypto sample_contract [] [], sc_verifier = None\<rparr>,
     lp_complete = sample_client, lp_unsafe = False, lp_clock = (\<lambda>w. (0, w)), lp_fresh = (\<lambda>w. (''id'', w)),
     lp_propose = (\<lambda>_ _ w. (Inr sample_intent, w)), lp_propose_with_context = None, lp_context = None,
     lp_gate = sample_gate, lp_approval_consume = mem_approval_consume, lp_counter_consume = mem_counter_consume,
     lp_executor_id = ''exec'', lp_bind_run = None, lp_prepare = None, lp_execute = (\<lambda>_ _ w. (Inr plain_observation, w)),
     lp_execute_prepared = None, lp_checks = (\<lambda>_. []), lp_final = None, lp_probes = None, lp_shadow = None, lp_producer = None,
     lp_committer = None, lp_store = True, lp_reconciler = None, lp_evaluation = None\<rparr>"

definition sample_start :: "run_db \<Rightarrow> (approval_key set, (rule_key \<times> int) list, unit) loop_state" where
  "sample_start runs = loop_start sample_loop runs (ledger_open empty_ledger) empty_db ({}, []) ()"

lemma sample_loop_simps [simp]:
  "lp_store sample_loop" "lp_run_id sample_loop = ''r''" "lp_contract_digest sample_loop = ''c''"
  "ls_runs (sample_start runs) = runs" "ls_effects (sample_start runs) = []" "ls_sched (sample_start runs) = empty_db"
  by (simp_all add: sample_loop_def sample_start_def loop_start_def)

definition sample_prepared :: prepared_execution where
  "sample_prepared = \<lparr>pe_operation_id = ''op'', pe_executor_id = ''exec'', pe_intent_digest = zero_hash, pe_request_digest = zero_hash,
     pe_remote_job_id = ''op'', pe_graph_digest = zero_hash, pe_graph_node_id = ''operation.prepared''\<rparr>"

definition sample_stored :: "run_phase \<Rightarrow> checkpoint" where
  "sample_stored phase = \<lparr>ck_run_id = ''r'', ck_contract_digest = ''c'', ck_phase = phase, ck_next_iteration = 1, ck_tool_calls = 4,
     ck_history = [[(''failure'', PStr ''x'')]], ck_seen_failures = [(''a'', ''b'')], ck_evidence = \<lparr>es_run_id = ''r'', es_actions = []\<rparr>,
     ck_graph_digest = [], ck_pending_intent = (if phase = TERMINAL then None else Some sample_intent),
     ck_executor_id = (if phase = TERMINAL then [] else ''exec''), ck_prepared = (if phase = TERMINAL then None else Some sample_prepared),
     ck_reconciled = None, ck_terminal_decision = (if phase = TERMINAL then Some ''stop'' else None),
     ck_terminal_reason = (if phase = TERMINAL then Some ''budget'' else None), ck_revision = 3, ck_updated_at = utc 0\<rparr>"

definition sample_stored_db :: "run_phase \<Rightarrow> run_db" where
  "sample_stored_db phase = [(''r'', row_of (sample_stored phase) 3 0)]"

lemma toy_zero_hash: "digest toy_crypto v = zero_hash"
  by (simp add: digest_def toy_crypto_def zero_hash_def)

lemma sample_stored_wf:
  assumes "phase \<in> {PENDING_EFFECT, RECONCILIATION_REQUIRED, TERMINAL}"
  shows "checkpoint_wf toy_crypto (sample_stored phase)"
  using assms
  by (auto simp: checkpoint_wf_def sample_stored_def blank_iff py_isspace_def pending_phase_def prepared_wf_def effect_phase_def
      terminal_wf_def empty_text_def sample_prepared_def intent_digest_def toy_zero_hash zero_hash_def)

lemma sample_load:
  assumes "phase \<in> {PENDING_EFFECT, RECONCILIATION_REQUIRED, TERMINAL}"
  shows "run_load toy_crypto (sample_stored_db phase) ''r'' = Inr (Some (norm_checkpoint (sample_stored phase)))"
proof -
  have "built_intent toy_crypto sample_intent"
    by (simp add: built_intent_def intent_ok_def sample_intent_def startswith_def split_chr.simps blank_iff py_isspace_def dkeys_def)
  moreover have "prepared_execution_init sample_prepared = Inr sample_prepared" by code_simp
  ultimately have "built_checkpoint toy_crypto (sample_stored phase)"
    using sample_stored_wf [OF assms] by (auto simp: built_checkpoint_def sample_stored_def)
  from run_load_row [of "sample_stored_db phase" "sample_stored phase" 3 0, OF _ this _ iso_ok_epoch]
  show ?thesis by (simp add: sample_stored_db_def sample_stored_def dget_Cons)
qed





lemma sample_log:
  assumes "ls_ledger s = ledger_open empty_ledger"
  shows "\<exists>h t. log_event cr sample_loop ty payload s = (Inr h, t)"
  using assms by (simp add: log_event_def tick_def on_world_def andthen_def zoom_def sample_loop_def ledger_append_def Let_def
      ledger_open_def empty_ledger_def)

lemma log_returns: "\<exists>h t. m s = (Inr h, t) \<Longrightarrow> fst (andthen m (\<lambda>_. ret ()) s) = Inr ()"
  by (auto simp: andthen_def ret_def)

lemma zero_shape: "sha256_shape zero_hash"
  by (simp add: sha256_shape_def is_hex_def list_all_iff hex_chars_def zero_hash_def)

lemma saved_when_current:
  assumes "checkpoint_wf cr c" "dget (ls_runs s) (ck_run_id c) = Some r" "kr_revision r = ck_revision c" "lp_clock lp (ls_world s) = (now, w)"
  shows "\<exists>db saved. save_to_store cr lp c s = (Inr (), s\<lparr>ls_world := w, ls_runs := db, ls_checkpoint := Some saved\<rparr>)"
proof (rule run_save_cases [OF assms(1), of "ls_runs s" now])
  fix c'
  assume "run_save cr (ls_runs s) (c, now) = (Inr c', snd (run_save cr (ls_runs s) (c, now)))"
  then obtain db where db: "run_save cr (ls_runs s) (c, now) = (Inr c', db)" by blast
  have init: "checkpoint_init cr c = Inr c" using assms(1) by (simp add: checkpoint_init_ok)
  show ?thesis
    by (rule exI [of _ db], rule exI [of _ c'])
      (simp add: save_to_store_def andthen_def liftr_def init tick_def on_world_def zoom_def assms(4) modify_def db)
qed (use assms(2,3) in simp)

lemma pending_sample_answers: "fst (run_loop toy_crypto sample_loop [] (sample_start (sample_stored_db PENDING_EFFECT))) = Inr WAITING"
proof -
  let ?s = "sample_start (sample_stored_db PENDING_EFFECT)" and ?c = "norm_checkpoint (sample_stored PENDING_EFFECT)"
  let ?d = "uncertain toy_crypto sample_loop ?c"
  let ?a = "(save_args_of RECONCILIATION_REQUIRED (ck_next_iteration ?c))
             \<lparr>va_pending_intent := ck_pending_intent ?c, va_executor_id := ck_executor_id ?c, va_prepared := ck_prepared ?c\<rparr>"
  have c: "ck_phase ?c = PENDING_EFFECT" "ck_contract_digest ?c = ''c''" "ck_graph_digest ?c = []" "ck_next_iteration ?c = 1"
    "ck_revision ?c = 3"
    by (simp_all add: norm_checkpoint_def sample_stored_def)
  have m: "tc_maximum_iterations (lp_contract sample_loop) = 3" by (simp add: sample_loop_def sample_contract_def)
  let ?u = "?s\<lparr>ls_checkpoint := Some ?c, ls_tool_calls := ck_tool_calls ?c, ls_history := ck_history ?c,
     ls_seen := remdups (ck_seen_failures ?c), ls_evidence := ck_evidence ?c\<rparr>"
  have wf: "checkpoint_wf toy_crypto ?d"
    by (simp add: checkpoint_wf_def uncertain_def norm_checkpoint_def norm_evidence_def sample_stored_def
      blank_iff py_isspace_def pending_phase_def prepared_wf_def effect_phase_def terminal_wf_def sample_prepared_def intent_digest_def
      loop_graph_digest_def graph_digest_def toy_zero_hash zero_shape [unfolded zero_hash_def] zero_hash_def)
  have "checkpoint_of toy_crypto sample_loop ?a ?c ?u = ?d"
    by (simp add: checkpoint_of_def save_args_of_def uncertain_def)
  moreover obtain db saved where sv: "save_to_store toy_crypto sample_loop ?d ?u = (Inr (), ?u\<lparr>ls_world := (), ls_runs := db, ls_checkpoint := Some saved\<rparr>)"
    using saved_when_current [OF wf, of ?u "row_of (sample_stored PENDING_EFFECT) 3 0" sample_loop 0 "()"] c(5)
    by (auto simp: sample_stored_db_def dget_Cons uncertain_same row_of_def sample_loop_def)
  moreover have "ls_ledger (?u\<lparr>ls_world := (), ls_runs := db, ls_checkpoint := Some saved\<rparr>) = ledger_open empty_ledger"
    by (simp add: sample_start_def loop_start_def)
  then obtain h t where "log_event toy_crypto sample_loop ''run.resume.blocked'' [(''reason'', PStr ''pending-effect-requires-reconciliation''),
     (''intent_digest'', PStr (pending_digest toy_crypto ?c))] (?u\<lparr>ls_world := (), ls_runs := db, ls_checkpoint := Some saved\<rparr>) = (Inr h, t)"
    using sample_log by blast
  ultimately have "resume_checkpoint toy_crypto sample_loop ?c ?u = (Inr (Some WAITING), t)"
    by (simp add: resume_checkpoint_def c(1) save_checkpoint_def stepping log_blocked_def andthen_step [of "save_to_store toy_crypto sample_loop ?d", OF sv]) (simp add: andthen_def ret_def)
  then have "restore_or_start toy_crypto sample_loop ?s = (Inr (Some WAITING), t)"
    using restore_found [of sample_loop toy_crypto ?s ?c] by (simp add: sample_load c m restore_from_def andthen_modify)
  then show ?thesis by (simp add: run_loop_def andthen_def ret_def)
qed

theorem pending_effect_waits_witness:
  "case run_loop toy_crypto sample_loop [] (sample_start (sample_stored_db PENDING_EFFECT)) of (r, t) \<Rightarrow>
     r = Inr WAITING \<and> (\<exists>row. dget (ls_runs t) ''r'' = Some row \<and> kr_phase row = ''reconciliation-required'')"
proof -
  obtain r t where run: "run_loop toy_crypto sample_loop [] (sample_start (sample_stored_db PENDING_EFFECT)) = (r, t)" by fastforce
  let ?c = "norm_checkpoint (sample_stored PENDING_EFFECT)"
  have "ck_phase ?c = PENDING_EFFECT" by (simp add: norm_checkpoint_def sample_stored_def)
  then have "marks_uncertain toy_crypto sample_loop ?c (sample_stored_db PENDING_EFFECT) (ls_runs t)"
    using pending_effect_waits [OF _ _ _ run, of ?c] run pending_sample_answers by (auto simp: sample_load)
  then show ?thesis using run pending_sample_answers by (auto simp: marks_uncertain_def row_of_def uncertain_def)
qed

theorem terminal_run_answers_witness:
  "fst (run_loop toy_crypto sample_loop [] (sample_start (sample_stored_db TERMINAL))) = Inr STOP"
proof -
  let ?c = "norm_checkpoint (sample_stored TERMINAL)"
  have c: "ck_phase ?c = TERMINAL" "ck_terminal_decision ?c = Some (loop_decision_value STOP)" "ck_contract_digest ?c = ''c''"
    "ck_graph_digest ?c = []" "ck_next_iteration ?c = 1"
    by (simp_all add: norm_checkpoint_def sample_stored_def)
  moreover have "tc_maximum_iterations (lp_contract sample_loop) = 3" by (simp add: sample_loop_def sample_contract_def)
  ultimately show ?thesis
    using terminal_run_answers [of sample_loop toy_crypto "sample_start (sample_stored_db TERMINAL)" ?c STOP "[]"]
    by (simp add: sample_load split: prod.splits)
qed




theorem reconcile_forgets_counters_witness:
  "\<exists>d k now. ck_tool_calls (sample_stored RECONCILIATION_REQUIRED) = 4 \<and> ck_tool_calls d = 0
     \<and> dget (ls_runs (snd (record_reconciled toy_crypto sample_loop (sample_stored RECONCILIATION_REQUIRED) sample_intent
          sample_prepared plain_observation (restart sample_loop (sample_start (sample_stored_db RECONCILIATION_REQUIRED)))))) ''r''
        = Some (row_of d k now)"
proof -
  let ?s = "restart sample_loop (sample_start (sample_stored_db RECONCILIATION_REQUIRED))" and ?c = "sample_stored RECONCILIATION_REQUIRED"
  let ?a = "(save_args_of RECONCILED_EFFECT (ck_next_iteration ?c))\<lparr>va_pending_intent := Some sample_intent,
     va_executor_id := ck_executor_id ?c, va_prepared := Some sample_prepared, va_reconciled := Some plain_observation\<rparr>"
  let ?u = "?s\<lparr>ls_checkpoint := Some ?c\<rparr>"
  let ?d = "checkpoint_of toy_crypto sample_loop ?a ?c ?u"
  have bound: "reconciliation_bound plain_observation sample_prepared"
    by (simp add: reconciliation_bound_def prepared_fields_def plain_observation_def sample_prepared_def dget_Cons)
  have wf: "checkpoint_wf toy_crypto ?d"
    by (simp add: checkpoint_wf_def checkpoint_of_def save_args_of_def sample_stored_def restart_def loop_start_def sample_start_def
      blank_iff py_isspace_def pending_phase_def prepared_wf_def effect_phase_def terminal_wf_def sample_prepared_def intent_digest_def
      loop_graph_digest_def graph_digest_def toy_zero_hash zero_shape [unfolded zero_hash_def] zero_hash_def sample_loop_def)
  have row: "dget (ls_runs ?u) (ck_run_id ?d) = Some (row_of ?c 3 0)" "kr_revision (row_of ?c 3 0) = ck_revision ?d"
    by (simp_all add: restart_def sample_start_def loop_start_def sample_stored_db_def checkpoint_of_def dget_Cons sample_loop_def
      row_of_def sample_stored_def)
  have clock: "lp_clock sample_loop w = (0, w)" for w by (simp add: sample_loop_def)
  obtain db saved where sv: "save_to_store toy_crypto sample_loop ?d ?u = (Inr (), ?u\<lparr>ls_world := ls_world ?u, ls_runs := db, ls_checkpoint := Some saved\<rparr>)"
    using saved_when_current [OF wf row clock] by blast
  let ?v = "?u\<lparr>ls_world := ls_world ?u, ls_runs := db, ls_checkpoint := Some saved\<rparr>"
  have save: "save_checkpoint toy_crypto sample_loop ?a ?u = (Inr (), ?v)"
    by (simp add: save_checkpoint_def andthen_def gets_def sv)
  have "ls_ledger ?v = ledger_open empty_ledger" by (simp add: restart_def sample_start_def loop_start_def)
  then have log: "\<exists>h w. log_event toy_crypto sample_loop ty payload ?v = (Inr h, w)" for ty payload
    using sample_log by blast
  have "fst (record_reconciled toy_crypto sample_loop ?c sample_intent sample_prepared plain_observation ?s) = Inr ()"
    using log [of "''effect.reconciled''"] save bound unfolding record_reconciled_def
    by (simp add: andthen_def [of "modify _"] modify_def andthen_def [of "save_checkpoint _ _ _"] log_returns)
  then have "record_reconciled toy_crypto sample_loop ?c sample_intent sample_prepared plain_observation ?s
    = (Inr (), snd (record_reconciled toy_crypto sample_loop ?c sample_intent sample_prepared plain_observation ?s))"
    by (metis prod.collapse)
  from reconcile_forgets_counters [OF _ this] show ?thesis by (auto simp: sample_stored_def)
qed

end
