(* ===== verification/Floats.thy ===== *)
theory Floats
  imports Complex_Main Values "HOL-Library.Product_Lexorder"
begin

text \<open>
  Binary floating point as the program uses it: a finite float is the rational it denotes, an
  operation is the exact one rounded to the nearest float (ties to even), and a float in a payload
  is the text \<open>float.__repr__\<close> gives it. Infinities and NaN have no rational.
\<close>

section \<open>Rounding\<close>

definition round_half_even :: "rat \<Rightarrow> int" where
  "round_half_even q =
     (let f = \<lfloor>q\<rfloor>; d = q - of_int f in
      if d < 1 / 2 then f else if 1 / 2 < d then f + 1 else if even f then f else f + 1)"

text \<open>\<open>int.bit_length\<close> of a non-negative integer.\<close>

function bits :: "int \<Rightarrow> int" where
  "bits n = (if n \<le> 0 then 0 else 1 + bits (n div 2))"
  by pat_completeness auto
termination by (relation "measure nat") auto

declare bits.simps [simp del]

definition pow2 :: "int \<Rightarrow> rat" where
  "pow2 e = (if 0 \<le> e then 2 ^ nat e else 1 / 2 ^ nat (- e))"

text \<open>The exponent of the leading bit of a positive rational.\<close>

definition ilog2 :: "rat \<Rightarrow> int" where
  "ilog2 q = (case quotient_of q of (a, b) \<Rightarrow>
     let k = bits a - bits b in if q < pow2 k then k - 1 else k)"

text \<open>A float has 53 significant bits; the exponent of its last bit is at least -1074.\<close>

definition round64 :: "rat \<Rightarrow> rat" where
  "round64 q = (if q = 0 then 0
     else let e = max (-1074) (ilog2 \<bar>q\<bar> - 52) in of_int (round_half_even (q / pow2 e)) * pow2 e)"

definition fl_add :: "rat \<Rightarrow> rat \<Rightarrow> rat" where "fl_add x y = round64 (x + y)"
definition fl_mul :: "rat \<Rightarrow> rat \<Rightarrow> rat" where "fl_mul x y = round64 (x * y)"
definition fl_div :: "rat \<Rightarrow> rat \<Rightarrow> rat" where "fl_div x y = round64 (x / y)"

section \<open>Literals\<close>

definition dec_digits :: "string \<Rightarrow> int option" where
  "dec_digits s = (if s \<noteq> [] \<and> list_all is_digit s then Some (foldl (\<lambda>a c. 10 * a + digit_value c) 0 s) else None)"

definition dec_exponent :: "string \<Rightarrow> int option" where
  "dec_exponent s = (case s of
       c # t \<Rightarrow> if c = CHR ''-'' then map_option uminus (dec_digits t)
                else if c = CHR ''+'' then dec_digits t else dec_digits s
     | [] \<Rightarrow> None)"

definition pow10 :: "int \<Rightarrow> rat" where
  "pow10 e = (if 0 \<le> e then 10 ^ nat e else 1 / 10 ^ nat (- e))"

text \<open>Digits with an optional fraction.\<close>

definition mantissa_value :: "string \<Rightarrow> rat option" where
  "mantissa_value s =
     (let a = takeWhile (\<lambda>c. c \<noteq> CHR ''.'') s; r = drop (length a) s in
      case dec_digits a of
        None \<Rightarrow> None
      | Some i \<Rightarrow> if r = [] then Some (of_int i)
          else map_option (\<lambda>f. of_int i + of_int f * pow10 (- int (length (tl r)))) (dec_digits (tl r)))"

definition unsigned_value :: "string \<Rightarrow> rat option" where
  "unsigned_value s =
     (let m = takeWhile (\<lambda>c. c \<noteq> CHR ''e'') s; r = drop (length m) s in
      case (mantissa_value m, if r = [] then Some 0 else dec_exponent (tl r)) of
        (Some q, Some e) \<Rightarrow> Some (round64 (q * pow10 e))
      | _ \<Rightarrow> None)"

text \<open>The number a float text denotes; \<open>nan\<close> and the infinities denote none.\<close>

definition float_value :: "string \<Rightarrow> rat option" where
  "float_value s = (case s of
       c # t \<Rightarrow> if c = CHR ''-'' then map_option uminus (unsigned_value t) else unsigned_value s
     | [] \<Rightarrow> None)"

text \<open>\<open>0.0 <= x <= 1.0\<close>.\<close>

definition float_unit :: "string \<Rightarrow> bool" where
  "float_unit s = (case float_value s of None \<Rightarrow> False | Some q \<Rightarrow> 0 \<le> q \<and> q \<le> 1)"

section \<open>Bounds\<close>

lemma round_half_even_bounds: "\<lfloor>q\<rfloor> \<le> round_half_even q" "round_half_even q \<le> \<lceil>q\<rceil>"
proof -
  show "\<lfloor>q\<rfloor> \<le> round_half_even q" by (simp add: round_half_even_def Let_def)
  have "\<lfloor>q\<rfloor> + 1 \<le> \<lceil>q\<rceil>" if "\<not> q - of_int \<lfloor>q\<rfloor> < 1 / 2"
  proof -
    have "of_int \<lfloor>q\<rfloor> < q" using that by simp
    then show ?thesis by (simp add: less_ceiling_iff add1_zle_eq)
  qed
  moreover have "\<lfloor>q\<rfloor> \<le> \<lceil>q\<rceil>" by simp
  ultimately show "round_half_even q \<le> \<lceil>q\<rceil>" by (auto simp: round_half_even_def Let_def)
qed

lemma pow2_pos [simp]: "0 < pow2 e"
  by (simp add: pow2_def)

lemma round64_nonneg: "0 \<le> q \<Longrightarrow> 0 \<le> round64 q"
proof (cases "q = 0")
  case False
  assume "0 \<le> q"
  have "0 \<le> round_half_even (q / pow2 e)" for e
  proof -
    have "0 \<le> \<lfloor>q / pow2 e\<rfloor>" using \<open>0 \<le> q\<close> pow2_pos [of e] by (simp add: divide_nonneg_pos)
    then show ?thesis using round_half_even_bounds(1) [of "q / pow2 e"] by linarith
  qed
  then show ?thesis using False pow2_pos by (simp add: round64_def Let_def less_imp_le)
qed (simp add: round64_def)

end
