(* ===== verification/Memory.thy ===== *)
theory Memory
  imports Floats Codec Ledger
begin

text \<open>
  \<open>src/vloop/memory.py\<close>, the write side: candidates, the promotion gates, the claim authority, the
  canonical memory ledger with its index outbox, and the committer. The tables are lists of rows, a
  JSON column holds the value its text parses to, clocks and fresh ids are arguments.
\<close>

section \<open>Candidates and promotion\<close>

record memory_candidate =
  mc_claim :: string
  mc_scope :: string
  mc_conditions :: "(string \<times> string) list"
  mc_evidence_refs :: "string list"
  mc_confidence :: string
  mc_sensitivity :: string
  mc_expires_at :: "dtime option"
  mc_memory_id :: string
  mc_claim_kind :: string

record verified_memory =
  vm_candidate :: memory_candidate
  vm_source_run_id :: string
  vm_promoted_at :: dtime
  vm_status :: string

record memory_claim_rule =
  cl_kind :: string
  cl_permitted_scopes :: "string list"
  cl_required_conditions :: "string list"
  cl_maximum_claim_characters :: int

definition memory_claim_rule_init :: "memory_claim_rule \<Rightarrow> memory_claim_rule res" where
  "memory_claim_rule_init r =
     (if blank (cl_kind r) \<or> cl_permitted_scopes r = [] \<or> cl_maximum_claim_characters r < 1
      then Inl (ValueError, ''memory claim rules need a kind, scopes, and positive size limit'') else Inr r)"

text \<open>\<open>MemoryClaimAuthority\<close>: the rules by kind.\<close>

type_synonym claim_authority = "(string \<times> memory_claim_rule) list"

definition claim_authority_init :: "memory_claim_rule list \<Rightarrow> claim_authority res" where
  "claim_authority_init rules =
     (if rules = [] then Inl (ValueError, ''memory claim authority needs at least one rule'')
      else Inr (fold (\<lambda>r. AList.update (cl_kind r) r) rules []))"

definition authority_validate :: "claim_authority \<Rightarrow> memory_candidate \<Rightarrow> unit res" where
  "authority_validate a c =
     (case dget a (mc_claim_kind c) of
        None \<Rightarrow> Inl (PermissionError, ''memory claim kind is not server-authorized'')
      | Some r \<Rightarrow>
          if mc_scope c \<notin> set (cl_permitted_scopes r)
          then Inl (PermissionError, ''memory claim scope is not authorized for this kind'')
          else if cl_maximum_claim_characters r < int (length (mc_claim c))
          then Inl (PermissionError, ''memory claim exceeds its server-owned size limit'')
          else if \<not> set (cl_required_conditions r) \<subseteq> set (dkeys (mc_conditions c))
          then Inl (PermissionError, ''memory claim omits required applicability conditions'')
          else Inr ())"

definition opt_validate :: "claim_authority option \<Rightarrow> memory_candidate \<Rightarrow> unit res" where
  "opt_validate a c = (case a of None \<Rightarrow> Inr () | Some a \<Rightarrow> authority_validate a c)"

definition sensitivities :: "string list" where
  "sensitivities = [''public'', ''internal'', ''restricted'']"

text \<open>
  \<open>MemoryWriteGate.promote\<close>: of the report only whether it is accepted; \<open>given\<close> is the argument \<open>now\<close>,
  \<open>clock\<close> the current time, \<open>fresh\<close> a new uuid.
\<close>

definition promote :: "claim_authority option \<Rightarrow> memory_candidate \<Rightarrow> bool \<Rightarrow> string \<Rightarrow> dtime option \<Rightarrow> int \<Rightarrow> string \<Rightarrow> verified_memory res" where
  "promote a c accepted run given clock fresh =
     (if blank (mc_claim c) then Inl (ValueError, ''memory claim is required'')
      else if blank (mc_scope c) then Inl (ValueError, ''memory scope is required'')
      else if mc_evidence_refs c = [] then Inl (ValueError, ''memory needs evidence references'')
      else if \<not> float_unit (mc_confidence c) then Inl (ValueError, ''memory confidence must be in [0, 1]'')
      else if mc_sensitivity c \<notin> set sensitivities then Inl (ValueError, ''unknown sensitivity label'')
      else if blank (mc_claim_kind c) then Inl (ValueError, ''memory claim kind is required'')
      else if (case mc_expires_at c of None \<Rightarrow> False | Some t \<Rightarrow> \<not> aware t)
      then Inl (ValueError, ''memory expiry must be timezone-aware'')
      else if \<not> accepted then Inl (PermissionError, ''unverified runs cannot enter reusable memory'')
      else bnd (opt_validate a c) (\<lambda>_.
        Inr \<lparr>vm_candidate = (if mc_memory_id c = [] then c\<lparr>mc_memory_id := fresh\<rparr> else c), vm_source_run_id = run,
          vm_promoted_at = (case given of None \<Rightarrow> utc clock | Some t \<Rightarrow> t), vm_status = ''verified''\<rparr>))"

text \<open>\<open>DiagnosedFailureMemoryGate.promote\<close>: the success gate without an authority, on an accepted report.\<close>

definition promote_failure :: "memory_candidate \<Rightarrow> verification_report \<Rightarrow> string \<Rightarrow> dtime option \<Rightarrow> int \<Rightarrow> string \<Rightarrow> verified_memory res" where
  "promote_failure c r run given clock fresh =
     (if vr_correctness r \<noteq> FAIL \<and> vr_policy r \<noteq> FAIL
      then Inl (PermissionError, ''only hard-diagnosed failures can enter failure memory'')
      else bnd (promote None c (report_accepted (r\<lparr>vr_correctness := PASS, vr_policy := PASS, vr_evidence := PASS, vr_quality := PASS\<rparr>))
             run given clock fresh)
        (\<lambda>v. Inr (v\<lparr>vm_status := ''diagnosed-failure''\<rparr>)))"

section \<open>Records and tables\<close>

record memory_record =
  me_memory_id :: string
  me_scope :: string
  me_claim :: string
  me_conditions :: "(string \<times> string) list"
  me_evidence_refs :: "string list"
  me_confidence :: string
  me_sensitivity :: string
  me_source_run_id :: string
  me_promoted_at :: dtime
  me_ledger_event_hash :: string
  me_expires_at :: "dtime option"
  me_status :: string
  me_supersedes :: "string option"
  me_claim_kind :: string

definition is_live :: "memory_record \<Rightarrow> int \<Rightarrow> bool" where
  "is_live r now \<longleftrightarrow> me_status r \<in> {''verified'', ''diagnosed-failure''}
     \<and> (case me_expires_at r of None \<Rightarrow> True | Some t \<Rightarrow> now < instant t)"

record memory_row =
  mr_memory_id :: string
  mr_scope :: string
  mr_claim :: string
  mr_conditions :: pyval
  mr_evidence_refs :: pyval
  mr_confidence :: string
  mr_sensitivity :: string
  mr_source_run_id :: string
  mr_promoted_at :: string
  mr_ledger_event_hash :: string
  mr_expires_at :: "string option"
  mr_status :: string
  mr_supersedes :: "string option"
  mr_claim_kind :: string

record index_row =
  ix_memory_id :: string
  ix_record :: pyval
  ix_state :: string
  ix_attempts :: int
  ix_lease_owner :: "string option"
  ix_lease_expires_at :: "string option"
  ix_last_error :: "string option"
  ix_created_at :: string
  ix_updated_at :: string

record delivery_row =
  dv_memory_id :: string
  dv_projection :: string
  dv_state :: string
  dv_attempts :: int
  dv_lease_owner :: "string option"
  dv_lease_expires_at :: "string option"
  dv_last_error :: "string option"
  dv_updated_at :: string

record memory_db =
  mm_records :: "memory_row list"
  mm_outbox :: "index_row list"
  mm_deliveries :: "delivery_row list"

definition empty_memory :: memory_db where
  "empty_memory = \<lparr>mm_records = [], mm_outbox = [], mm_deliveries = []\<rparr>"

text \<open>The configuration of a \<open>MemoryLedger\<close>.\<close>

record memory_config =
  mg_projection_sensitivities :: "string list"
  mg_claim_authority :: "claim_authority option"

definition memory_config_init :: "memory_config \<Rightarrow> memory_config res" where
  "memory_config_init g =
     (if \<not> set (mg_projection_sensitivities g) \<subseteq> set sensitivities
      then Inl (ValueError, ''unknown projection sensitivity'') else Inr g)"

definition time_text :: "dtime option \<Rightarrow> string option" where
  "time_text t = map_option isoformat t"

definition memory_row_of :: "memory_record \<Rightarrow> memory_row" where
  "memory_row_of r = \<lparr>mr_memory_id = me_memory_id r, mr_scope = me_scope r, mr_claim = me_claim r,
     mr_conditions = json_norm (PDict (map (\<lambda>(k, v). (k, PStr v)) (me_conditions r))),
     mr_evidence_refs = json_norm (PTuple (map PStr (me_evidence_refs r))), mr_confidence = me_confidence r,
     mr_sensitivity = me_sensitivity r, mr_source_run_id = me_source_run_id r, mr_promoted_at = isoformat (me_promoted_at r),
     mr_ledger_event_hash = me_ledger_event_hash r, mr_expires_at = time_text (me_expires_at r), mr_status = me_status r,
     mr_supersedes = me_supersedes r, mr_claim_kind = me_claim_kind r\<rparr>"

definition opt_time_of :: "string option \<Rightarrow> dtime option res" where
  "opt_time_of t = (case t of None \<Rightarrow> Inr None
     | Some s \<Rightarrow> if s = [] then Inr None else bnd (time_of (PStr s)) (\<lambda>t. Inr (Some t)))"

definition record_from_row :: "memory_row \<Rightarrow> memory_record res" where
  "record_from_row r =
     bnd (str_dict_of (mr_conditions r)) (\<lambda>conditions.
     bnd (strs_of (mr_evidence_refs r)) (\<lambda>refs.
     bnd (time_of (PStr (mr_promoted_at r))) (\<lambda>promoted.
     bnd (opt_time_of (mr_expires_at r)) (\<lambda>expires.
       Inr \<lparr>me_memory_id = mr_memory_id r, me_scope = mr_scope r, me_claim = mr_claim r, me_conditions = conditions,
         me_evidence_refs = refs, me_confidence = mr_confidence r, me_sensitivity = mr_sensitivity r,
         me_source_run_id = mr_source_run_id r, me_promoted_at = promoted, me_ledger_event_hash = mr_ledger_event_hash r,
         me_expires_at = expires, me_status = mr_status r, me_supersedes = mr_supersedes r, me_claim_kind = mr_claim_kind r\<rparr>))))"

definition opt_text_py :: "string option \<Rightarrow> pyval" where
  "opt_text_py t = (case t of None \<Rightarrow> PNone | Some s \<Rightarrow> PStr s)"

definition encode_memory_record :: "memory_record \<Rightarrow> pydict" where
  "encode_memory_record r = [(''memory_id'', PStr (me_memory_id r)), (''scope'', PStr (me_scope r)), (''claim'', PStr (me_claim r)),
     (''conditions'', PDict (map (\<lambda>(k, v). (k, PStr v)) (me_conditions r))),
     (''evidence_refs'', PList (map PStr (me_evidence_refs r))), (''confidence'', PFloat (me_confidence r)),
     (''sensitivity'', PStr (me_sensitivity r)), (''source_run_id'', PStr (me_source_run_id r)),
     (''promoted_at'', PStr (isoformat (me_promoted_at r))), (''ledger_event_hash'', PStr (me_ledger_event_hash r)),
     (''expires_at'', opt_text_py (time_text (me_expires_at r))), (''status'', PStr (me_status r)),
     (''supersedes'', opt_text_py (me_supersedes r)), (''claim_kind'', PStr (me_claim_kind r))]"

fun float_of :: "pyval \<Rightarrow> string res" where
  "float_of (PFloat t) = Inr t"
| "float_of v = Inl (TypeError, ''expected a float'')"

definition py_text_of :: "pyval \<Rightarrow> string res" where
  "py_text_of v = Inr (py_str v)"

definition opt_time_field :: "pyval \<Rightarrow> dtime option res" where
  "opt_time_field v = (if \<not> truthy v then Inr None else bnd (time_of v) (\<lambda>t. Inr (Some t)))"

definition decode_memory_record :: "pyval \<Rightarrow> memory_record res" where
  "decode_memory_record v =
     bnd (dict_of v) (\<lambda>d.
     bnd (fld d ''memory_id'' py_text_of) (\<lambda>mid.
     bnd (fld d ''scope'' py_text_of) (\<lambda>scope.
     bnd (fld d ''claim'' py_text_of) (\<lambda>claim.
     bnd (fld d ''conditions'' str_dict_of) (\<lambda>conditions.
     bnd (fld d ''evidence_refs'' strs_of) (\<lambda>refs.
     bnd (fld d ''confidence'' float_of) (\<lambda>confidence.
     bnd (fld d ''sensitivity'' py_text_of) (\<lambda>sensitivity.
     bnd (fld d ''source_run_id'' py_text_of) (\<lambda>run.
     bnd (fld d ''promoted_at'' time_of) (\<lambda>promoted.
     bnd (fld d ''ledger_event_hash'' py_text_of) (\<lambda>h.
     bnd (fld_or d ''expires_at'' PNone opt_time_field) (\<lambda>expires.
     bnd (fld d ''status'' py_text_of) (\<lambda>status.
     bnd (fld_or d ''supersedes'' PNone opt_str_of) (\<lambda>supersedes.
     bnd (fld_or d ''claim_kind'' (PStr ''operational-procedure'') py_text_of) (\<lambda>kind.
       Inr \<lparr>me_memory_id = mid, me_scope = scope, me_claim = claim, me_conditions = conditions, me_evidence_refs = refs,
         me_confidence = confidence, me_sensitivity = sensitivity, me_source_run_id = run, me_promoted_at = promoted,
         me_ledger_event_hash = h, me_expires_at = expires, me_status = status, me_supersedes = supersedes,
         me_claim_kind = kind\<rparr>)))))))))))))))"

section \<open>Inserting\<close>

text \<open>\<open>event["payload"].get(k)\<close>; the payloads of the ledger are objects.\<close>

definition payload_field :: "ledger_row \<Rightarrow> string \<Rightarrow> pyval option" where
  "payload_field e k = (case lr_payload e of PDict d \<Rightarrow> dget d k | _ \<Rightarrow> None)"

definition passing_final_goal :: "ledger_row \<Rightarrow> bool" where
  "passing_final_goal e \<longleftrightarrow> lr_event_type e = ''final-goal.completed'' \<and> payload_field e ''status'' = Some (PStr ''pass'')"

definition hard_diagnosis :: "ledger_row \<Rightarrow> bool" where
  "hard_diagnosis e \<longleftrightarrow> lr_event_type e = ''verification.completed''
     \<and> (payload_field e ''correctness'' = Some (PStr ''fail'') \<or> payload_field e ''policy'' = Some (PStr ''fail''))"

definition validate_attested_promotion :: "crypto \<Rightarrow> memory_config \<Rightarrow> ledger \<Rightarrow> verified_memory \<Rightarrow> unit res" where
  "validate_attested_promotion cr g l v =
     (let c = vm_candidate v; refs = mc_evidence_refs c; events = map snd (events_for_hashes l (set refs)) in
      bnd (opt_validate (mg_claim_authority g) c) (\<lambda>_.
        if vm_status v \<notin> {''verified'', ''diagnosed-failure''}
        then Inl (PermissionError, ''memory status is not eligible for canonical storage'')
        else if mc_memory_id c = [] \<or> refs = []
        then Inl (PermissionError, ''memory must have an assigned id and evidence references'')
        else if \<not> verify_chain cr l then Inl (PermissionError, ''evidence ledger integrity check failed'')
        else if length events \<noteq> length (remdups refs) then Inl (PermissionError, ''memory cites unknown evidence'')
        else if list_ex (\<lambda>e. payload_field e ''run_id'' \<noteq> Some (PStr (vm_source_run_id v))) events
        then Inl (PermissionError, ''memory evidence belongs to another run'')
        else if vm_status v = ''verified''
        then (if \<not> list_ex passing_final_goal events
              then Inl (PermissionError, ''verified memory requires a cited passing final-goal event'') else Inr ())
        else if \<not> list_ex hard_diagnosis events
        then Inl (PermissionError, ''failure memory requires a cited hard diagnosis'') else Inr ()))"

definition promoted_payload :: "crypto \<Rightarrow> verified_memory \<Rightarrow> string option \<Rightarrow> pydict" where
  "promoted_payload cr v supersedes = (let c = vm_candidate v in
     [(''memory_id'', PStr (mc_memory_id c)), (''scope'', PStr (mc_scope c)), (''claim_digest'', PStr (digest cr (PStr (mc_claim c)))),
      (''evidence_refs'', PTuple (map PStr (mc_evidence_refs c))), (''source_run_id'', PStr (vm_source_run_id v)),
      (''confidence'', PFloat (mc_confidence c)), (''sensitivity'', PStr (mc_sensitivity c)),
      (''claim_kind'', PStr (mc_claim_kind c)), (''supersedes'', opt_text_py supersedes)])"

definition memory_record_of :: "verified_memory \<Rightarrow> string option \<Rightarrow> string \<Rightarrow> memory_record" where
  "memory_record_of v supersedes h = (let c = vm_candidate v in
     \<lparr>me_memory_id = mc_memory_id c, me_scope = mc_scope c, me_claim = mc_claim c, me_conditions = mc_conditions c,
      me_evidence_refs = mc_evidence_refs c, me_confidence = mc_confidence c, me_sensitivity = mc_sensitivity c,
      me_source_run_id = vm_source_run_id v, me_promoted_at = vm_promoted_at v, me_ledger_event_hash = h,
      me_expires_at = mc_expires_at c, me_status = vm_status v, me_supersedes = supersedes, me_claim_kind = mc_claim_kind c\<rparr>)"

text \<open>\<open>UPDATE memory_records SET status = 'superseded' WHERE memory_id = ?\<close>.\<close>

definition supersede :: "string option \<Rightarrow> memory_row list \<Rightarrow> memory_row list" where
  "supersede s rows = (case s of None \<Rightarrow> rows
     | Some i \<Rightarrow> if i = [] then rows
         else map (\<lambda>r. if mr_memory_id r = i then r\<lparr>mr_status := ''superseded''\<rparr> else r) rows)"

text \<open>\<open>INSERT ... ON CONFLICT(memory_id) DO UPDATE\<close>.\<close>

definition enqueue :: "memory_record \<Rightarrow> string \<Rightarrow> index_row list \<Rightarrow> index_row list" where
  "enqueue r now rows =
     (let j = json_norm (PDict (encode_memory_record r)) in
      if me_memory_id r \<in> set (map ix_memory_id rows)
      then map (\<lambda>x. if ix_memory_id x = me_memory_id r
                    then x\<lparr>ix_record := j, ix_state := ''pending'', ix_lease_owner := None,
                      ix_lease_expires_at := None, ix_updated_at := now\<rparr> else x) rows
      else rows @ [\<lparr>ix_memory_id = me_memory_id r, ix_record = j, ix_state = ''pending'', ix_attempts = 0,
             ix_lease_owner = None, ix_lease_expires_at = None, ix_last_error = None, ix_created_at = now, ix_updated_at = now\<rparr>])"

definition store_record :: "memory_config \<Rightarrow> memory_record \<Rightarrow> int \<Rightarrow> memory_db \<Rightarrow> memory_record res \<times> memory_db" where
  "store_record g r now db =
     (if me_memory_id r \<in> set (map mr_memory_id (mm_records db))
      then (Inl (IntegrityError, ''UNIQUE constraint failed: memory_records.memory_id''), db)
      else (Inr r, db\<lparr>mm_records := supersede (me_supersedes r) (mm_records db @ [memory_row_of r]),
        mm_outbox := (if me_sensitivity r \<in> set (mg_projection_sensitivities g)
          then enqueue r (isoformat (utc now)) (mm_outbox db) else mm_outbox db)\<rparr>))"

text \<open>The ledger event is committed before the record; \<open>t1\<close> and \<open>t2\<close> are the two clock readings.\<close>

definition memory_insert :: "crypto \<Rightarrow> memory_config \<Rightarrow> verified_memory \<Rightarrow> string option \<Rightarrow> int \<Rightarrow> int \<Rightarrow> ledger \<times> memory_db
    \<Rightarrow> memory_record res \<times> ledger \<times> memory_db" where
  "memory_insert cr g v supersedes t1 t2 s =
     (case s of (l, db) \<Rightarrow>
      (case validate_attested_promotion cr g l v of
         Inl e \<Rightarrow> (Inl e, l, db)
       | Inr _ \<Rightarrow>
           (case ledger_append cr ''memory.promoted'' (promoted_payload cr v supersedes) t1 l of
              (Inl e, l') \<Rightarrow> (Inl e, l', db)
            | (Inr h, l') \<Rightarrow> (case store_record g (memory_record_of v supersedes h) t2 db of (r, db') \<Rightarrow> (r, l', db')))))"

text \<open>\<open>VerifiedMemoryCommitter.commit\<close>.\<close>

definition memory_commit :: "crypto \<Rightarrow> memory_config \<Rightarrow> claim_authority option \<Rightarrow> memory_candidate \<Rightarrow> task_completion_report \<Rightarrow> check_result
    \<Rightarrow> string \<Rightarrow> string list \<Rightarrow> int \<times> int \<times> int \<Rightarrow> string \<Rightarrow> ledger \<times> memory_db \<Rightarrow> memory_record res \<times> ledger \<times> memory_db" where
  "memory_commit cr g gate c report final run refs clocks fresh s =
     (if cr_status final \<noteq> PASS then (Inl (PermissionError, ''final-goal verification is required for reusable memory''), s)
      else if \<not> set (mc_evidence_refs c) \<subseteq> set refs
      then (Inl (PermissionError, ''memory cites evidence outside this completed run''), s)
      else if \<not> contains_event_hashes (fst s) (set (mc_evidence_refs c))
      then (Inl (PermissionError, ''memory cites unknown evidence''), s)
      else case clocks of (t0, t1, t2) \<Rightarrow>
        (case promote gate c (completion_accepted report) run None t0 fresh of
          Inl e \<Rightarrow> (Inl e, s)
        | Inr v \<Rightarrow> memory_insert cr g v None t1 t2 s))"

section \<open>The index outbox\<close>

record index_item =
  it_memory_id :: string
  it_record :: memory_record
  it_attempts :: int

definition index_claimable :: "string \<Rightarrow> string \<Rightarrow> delivery_row \<Rightarrow> bool" where
  "index_claimable projection now d \<longleftrightarrow> dv_projection d = projection
     \<and> (dv_state d = ''pending''
        \<or> dv_state d = ''leased'' \<and> (case dv_lease_expires_at d of None \<Rightarrow> False | Some t \<Rightarrow> t \<le> now))"

text \<open>\<open>INSERT OR IGNORE INTO memory_index_deliveries ... SELECT ... FROM memory_index_outbox\<close>.\<close>

definition add_deliveries :: "string \<Rightarrow> string \<Rightarrow> memory_db \<Rightarrow> memory_db" where
  "add_deliveries projection now db = db\<lparr>mm_deliveries := mm_deliveries db @
     map (\<lambda>x. \<lparr>dv_memory_id = ix_memory_id x, dv_projection = projection, dv_state = ''pending'', dv_attempts = 0,
        dv_lease_owner = None, dv_lease_expires_at = None, dv_last_error = None, dv_updated_at = now\<rparr>)
      (filter (\<lambda>x. (ix_memory_id x, projection) \<notin> set (map (\<lambda>d. (dv_memory_id d, dv_projection d)) (mm_deliveries db))) (mm_outbox db))\<rparr>"

text \<open>The join of the outbox with the claimable deliveries, oldest first.\<close>

definition index_rows :: "string \<Rightarrow> string \<Rightarrow> nat \<Rightarrow> memory_db \<Rightarrow> (index_row \<times> delivery_row) list" where
  "index_rows projection now limit db = take limit (sort_key (\<lambda>(x, d). (ix_created_at x, ix_memory_id x))
     (filter (\<lambda>(x, d). dv_memory_id d = ix_memory_id x \<and> index_claimable projection now d)
       (List.product (mm_outbox db) (mm_deliveries db))))"

definition deliveries_update :: "(delivery_row \<Rightarrow> bool) \<Rightarrow> (delivery_row \<Rightarrow> delivery_row) \<Rightarrow> memory_db \<Rightarrow> memory_db" where
  "deliveries_update sel f db = db\<lparr>mm_deliveries := map (\<lambda>d. if sel d then f d else d) (mm_deliveries db)\<rparr>"

definition index_item_of :: "index_row \<times> delivery_row \<Rightarrow> index_item res" where
  "index_item_of x = bnd (decode_memory_record (ix_record (fst x))) (\<lambda>r.
     Inr \<lparr>it_memory_id = ix_memory_id (fst x), it_record = r, it_attempts = dv_attempts (snd x) + 1\<rparr>)"

definition claim_index_operations :: "string \<Rightarrow> string \<Rightarrow> int \<Rightarrow> int \<Rightarrow> int \<Rightarrow> memory_db \<Rightarrow> index_item list res \<times> memory_db" where
  "claim_index_operations projection worker limit lease now db =
     (if blank projection \<or> blank worker \<or> limit < 1 \<or> lease \<le> 0
      then (Inl (ValueError, ''invalid projection outbox lease request''), db)
      else let t = isoformat (utc now); db' = add_deliveries projection t db; rows = index_rows projection t (nat limit) db' in
        (map_res index_item_of rows,
         deliveries_update (\<lambda>d. dv_projection d = projection \<and> dv_memory_id d \<in> set (map (ix_memory_id \<circ> fst) rows))
           (\<lambda>d. d\<lparr>dv_state := ''leased'', dv_attempts := dv_attempts d + 1, dv_lease_owner := Some worker,
              dv_lease_expires_at := Some (isoformat (utc (now + lease))), dv_updated_at := t\<rparr>) db'))"

definition index_leased :: "string \<Rightarrow> string \<Rightarrow> string \<Rightarrow> delivery_row \<Rightarrow> bool" where
  "index_leased i projection worker d \<longleftrightarrow> dv_memory_id d = i \<and> dv_projection d = projection \<and> dv_state d = ''leased''
     \<and> dv_lease_owner d = Some worker"

definition complete_index_operation :: "string \<Rightarrow> string \<Rightarrow> string \<Rightarrow> int \<Rightarrow> memory_db \<Rightarrow> unit res \<times> memory_db" where
  "complete_index_operation i projection worker now db =
     (if length (filter (index_leased i projection worker) (mm_deliveries db)) \<noteq> 1
      then Inl (RuntimeError, ''memory index outbox lease was lost'') else Inr (),
      deliveries_update (index_leased i projection worker) (\<lambda>d. d\<lparr>dv_state := ''delivered'', dv_lease_owner := None,
        dv_lease_expires_at := None, dv_last_error := None, dv_updated_at := isoformat (utc now)\<rparr>) db)"

definition release_index_operation :: "string \<Rightarrow> string \<Rightarrow> string \<Rightarrow> string \<Rightarrow> int \<Rightarrow> memory_db \<Rightarrow> memory_db" where
  "release_index_operation i projection worker err now db =
     deliveries_update (index_leased i projection worker) (\<lambda>d. d\<lparr>dv_state := ''pending'', dv_lease_owner := None,
       dv_lease_expires_at := None, dv_last_error := Some err, dv_updated_at := isoformat (utc now)\<rparr>) db"

text \<open>\<open>MemoryProjectionWorker.drain\<close>: \<open>upsert\<close> is the external index, acting on its own state.\<close>

fun drain_items :: "('w \<Rightarrow> memory_record \<Rightarrow> (string + unit) \<times> 'w) \<Rightarrow> string \<Rightarrow> string \<Rightarrow> int \<Rightarrow> index_item list
    \<Rightarrow> nat \<Rightarrow> 'w \<times> memory_db \<Rightarrow> nat \<times> 'w \<times> memory_db" where
  "drain_items upsert projection worker now [] n s = (n, s)"
| "drain_items upsert projection worker now (x # xs) n (w, db) =
     (case upsert w (it_record x) of
        (Inl err, w') \<Rightarrow> drain_items upsert projection worker now xs n
          (w', release_index_operation (it_memory_id x) projection worker err now db)
      | (Inr _, w') \<Rightarrow>
          (case complete_index_operation (it_memory_id x) projection worker now db of
             (Inl e, db') \<Rightarrow> drain_items upsert projection worker now xs n
               (w', release_index_operation (it_memory_id x) projection worker (exc_name (fst e)) now db')
           | (Inr _, db') \<Rightarrow> drain_items upsert projection worker now xs (n + 1) (w', db')))"

definition projection_drain :: "('w \<Rightarrow> memory_record \<Rightarrow> (string + unit) \<times> 'w) \<Rightarrow> string \<Rightarrow> string \<Rightarrow> int \<Rightarrow> int \<Rightarrow> 'w \<times> memory_db
    \<Rightarrow> nat res \<times> 'w \<times> memory_db" where
  "projection_drain upsert projection worker limit now s =
     (case claim_index_operations projection worker limit (minutes 2) now (snd s) of
        (Inl e, db) \<Rightarrow> (Inl e, fst s, db)
      | (Inr xs, db) \<Rightarrow> (case drain_items upsert projection worker now xs 0 (fst s, db) of (n, s') \<Rightarrow> (Inr n, s')))"

end
