(* ===== verification/Memory_Search.thy ===== *)
theory Memory_Search
  imports Memory Context
begin

text \<open>
  \<open>src/vloop/memory.py\<close>, the read side: queries, the lexical index, the external indexes with the ids
  they embed in projection documents, the router and the retrieval service; with \<open>add_memory\<close> of
  \<open>src/vloop/context.py\<close>. Scores are floats; external scores are finite. Promotion times carry an
  offset, as the default clock gives them.
\<close>

section \<open>Working state\<close>

text \<open>\<open>WorkingStateStore\<close>: the states by task.\<close>

type_synonym working_store = "(string \<times> working_state) list"

definition working_put :: "working_state \<Rightarrow> int \<Rightarrow> working_store \<Rightarrow> working_store" where
  "working_put w now s = AList.update (ws_task_id w) (w\<lparr>ws_updated_at := utc now\<rparr>) s"

definition working_get :: "string \<Rightarrow> working_store \<Rightarrow> working_state option" where
  "working_get task s = dget s task"

definition working_clear :: "string \<Rightarrow> working_store \<Rightarrow> working_store" where
  "working_clear task s = ddel task s"

section \<open>Tokens\<close>

definition hot_token_char :: "char \<Rightarrow> bool" where
  "hot_token_char c \<longleftrightarrow> c \<in> set ''abcdefghijklmnopqrstuvwxyz0123456789_./-''"

text \<open>\<open>[a-z0-9_./-]+\<close>: the maximal runs of token characters.\<close>

fun find_tokens :: "string \<Rightarrow> string \<Rightarrow> string list" where
  "find_tokens acc [] = (if acc = [] then [] else [acc])"
| "find_tokens acc (c # cs) =
     (if hot_token_char c then find_tokens (acc @ [c]) cs
      else if acc = [] then find_tokens [] cs else acc # find_tokens [] cs)"

definition tokens :: "string \<Rightarrow> string list" where
  "tokens s = remdups (find_tokens [] (to_lower s))"

section \<open>Queries and results\<close>

record memory_query =
  mq_text :: string
  mq_scope :: string
  mq_limit :: int
  mq_include_scopes :: "string list"
  mq_allowed_sensitivities :: "string list"
  mq_historical :: bool
  mq_associative :: bool
  mq_latency_sensitive :: bool

definition memory_query_init :: "memory_query \<Rightarrow> memory_query res" where
  "memory_query_init q =
     (if blank (mq_text q) then Inl (ValueError, ''memory query text is required'')
      else if mq_limit q < 1 \<or> 50 < mq_limit q then Inl (ValueError, ''memory query limit must be in [1, 50]'')
      else if mq_allowed_sensitivities q = [] then Inl (ValueError, ''memory query needs at least one allowed sensitivity'')
      else Inr q)"

record retrieval_result =
  rr_record :: memory_record
  rr_score :: rat
  rr_source :: string

text \<open>\<open>MemoryLedger.records\<close>: the rows in table order; every live record is checked against one clock reading.\<close>

definition memory_records :: "memory_db \<Rightarrow> memory_query \<Rightarrow> int \<Rightarrow> memory_record list res" where
  "memory_records db q now =
     bnd (map_res record_from_row (filter (\<lambda>r. mr_scope r \<in> set (mq_scope q # mq_include_scopes q)
            \<and> mr_sensitivity r \<in> set (mq_allowed_sensitivities q)) (mm_records db)))
       (\<lambda>rs. Inr (filter (\<lambda>r. is_live r now) rs))"

section \<open>The lexical index\<close>

definition hot_name :: string where
  "hot_name = ''hot-lexical''"

definition material :: "memory_record \<Rightarrow> string" where
  "material r = join '' '' (me_claim r # map fst (me_conditions r) @ map snd (me_conditions r))"

definition confidence_of :: "memory_record \<Rightarrow> rat" where
  "confidence_of r = (case float_value (me_confidence r) of None \<Rightarrow> 0 | Some q \<Rightarrow> q)"

definition hot_score :: "string list \<Rightarrow> memory_record \<Rightarrow> nat \<Rightarrow> rat" where
  "hot_score ts r overlap = fl_add (fl_div (of_nat overlap) (of_nat (max 1 (length ts))))
     (fl_mul (confidence_of r) (round64 (5 / 100)))"

definition hot_result :: "string list \<Rightarrow> memory_record \<Rightarrow> retrieval_result list" where
  "hot_result ts r = (let overlap = length (filter (\<lambda>t. t \<in> set (tokens (material r))) ts) in
     if overlap = 0 then [] else [\<lparr>rr_record = r, rr_score = hot_score ts r overlap, rr_source = hot_name\<rparr>])"

definition hot_search :: "memory_query \<Rightarrow> memory_record list \<Rightarrow> retrieval_result list" where
  "hot_search q records = sort_key (\<lambda>x. (- rr_score x, instant (me_promoted_at (rr_record x))))
     (concat (map (hot_result (tokens (mq_text q))) records))"

section \<open>External indexes\<close>

text \<open>
  \<open>ExternalMemoryIndex.search\<close>: \<open>raw\<close> is what the service answers, ids with a score when the score is
  a number.
\<close>

definition external_search :: "string \<Rightarrow> (string \<times> rat option) list \<Rightarrow> memory_record list \<Rightarrow> retrieval_result list" where
  "external_search name raw records =
     (let by_id = fold (\<lambda>r. AList.update (me_memory_id r) r) records [] in
      concat (map (\<lambda>(i, score). case (dget by_id i, score) of
          (Some r, Some x) \<Rightarrow> [\<lparr>rr_record = r, rr_score = x, rr_source = name\<rparr>]
        | _ \<Rightarrow> []) raw))"

definition projection_document :: "memory_record \<Rightarrow> string" where
  "projection_document r =
     ''[vloop-memory-id:'' @ me_memory_id r @ '']'' @ [CHR 0x0A]
     @ ''[scope:'' @ me_scope r @ '']'' @ [CHR 0x0A]
     @ ''[ledger-event:'' @ me_ledger_event_hash r @ '']'' @ [CHR 0x0A]
     @ me_claim r @ [CHR 0x0A]
     @ ''Applicability:'' @ [CHR 0x0A]
     @ join [CHR 0x0A] (map (\<lambda>(k, v). k @ ''='' @ v) (sort_dict (me_conditions r)))"

definition id_mark :: string where
  "id_mark = ''[vloop-memory-id:''"

definition id_char :: "char \<Rightarrow> bool" where
  "id_char c \<longleftrightarrow> c \<in> set ''0123456789abcdef-''"

text \<open>A match of \<open>\[vloop-memory-id:([0-9a-f-]{8,64})\]\<close> at the start of the text, with what follows it.\<close>

definition match_id :: "string \<Rightarrow> (string \<times> string) option" where
  "match_id s =
     (if \<not> startswith s id_mark then None
      else let t = drop (length id_mark) s; i = takeWhile id_char t; r = drop (length i) t in
        if 8 \<le> length i \<and> length i \<le> 64 \<and> startswith r '']'' then Some (i, tl r) else None)"

lemma match_id_shorter:
  assumes "match_id s = Some (i, r)"
  shows "length r < length s"
proof -
  let ?t = "drop (length id_mark) s" and ?i = "takeWhile id_char (drop (length id_mark) s)"
  have r: "r = tl (drop (length ?i) ?t)" "take (length id_mark) s = id_mark"
    using assms by (auto simp: match_id_def Let_def startswith_def split: if_splits)
  from r(2) have "length id_mark \<le> length s" by (metis length_take min.cobounded1)
  moreover have "length r \<le> length s - length id_mark" by (simp add: r(1))
  moreover have "0 < length id_mark" by (simp add: id_mark_def)
  ultimately show ?thesis by linarith
qed

function find_ids :: "string \<Rightarrow> string list" where
  "find_ids [] = []"
| "find_ids (c # cs) = (case match_id (c # cs) of Some (i, r) \<Rightarrow> i # find_ids r | None \<Rightarrow> find_ids cs)"
  by pat_completeness auto
termination by (relation "measure length") (auto dest: match_id_shorter)

fun extract_memory_ids :: "pyval \<Rightarrow> string list" where
  "extract_memory_ids (PStr s) = find_ids s"
| "extract_memory_ids (PDict kvs) = concat (map (\<lambda>(k, v). extract_memory_ids v) kvs)"
| "extract_memory_ids (PList vs) = concat (map extract_memory_ids vs)"
| "extract_memory_ids (PTuple vs) = concat (map extract_memory_ids vs)"
| "extract_memory_ids v = []"

text \<open>\<open>_search_ids\<close> of LightRAG and HippoRAG: the distinct ids of the answer, scored by rank.\<close>

fun first_occurrences :: "string list \<Rightarrow> string list" where
  "first_occurrences [] = []"
| "first_occurrences (x # xs) = x # filter (\<lambda>y. y \<noteq> x) (first_occurrences xs)"

definition ranked_ids :: "pyval \<Rightarrow> (string \<times> rat option) list" where
  "ranked_ids answer = map (\<lambda>(k, i). (i, Some (fl_div 1 (round64 (of_nat (Suc k))))))
     (enumerate 0 (first_occurrences (extract_memory_ids answer)))"

text \<open>What the adapters send: the body of the request, and the arguments of the callables.\<close>

definition lightrag_upsert :: "(string \<Rightarrow> pydict \<Rightarrow> 'w \<Rightarrow> pyval res \<times> 'w) \<Rightarrow> memory_record \<Rightarrow> 'w \<Rightarrow> pyval res \<times> 'w" where
  "lightrag_upsert post r w = post ''/insert'' [(''text'', PStr (projection_document r))] w"

definition lightrag_search_ids :: "(string \<Rightarrow> pydict \<Rightarrow> 'w \<Rightarrow> pyval res \<times> 'w) \<Rightarrow> memory_query \<Rightarrow> 'w
    \<Rightarrow> (string \<times> rat option) list res \<times> 'w" where
  "lightrag_search_ids post q w =
     (case post ''/query'' [(''query'', PStr (mq_text q)), (''mode'', PStr ''hybrid''), (''only_need_context'', PBool True)] w of
        (Inl e, w') \<Rightarrow> (Inl e, w') | (Inr answer, w') \<Rightarrow> (Inr (ranked_ids answer), w'))"

definition hipporag_upsert :: "(string list \<Rightarrow> 'w \<Rightarrow> unit res \<times> 'w) \<Rightarrow> memory_record \<Rightarrow> 'w \<Rightarrow> unit res \<times> 'w" where
  "hipporag_upsert index r w = index [projection_document r] w"

definition hipporag_search_ids :: "(string list \<Rightarrow> int \<Rightarrow> 'w \<Rightarrow> pyval res \<times> 'w) \<Rightarrow> memory_query \<Rightarrow> 'w
    \<Rightarrow> (string \<times> rat option) list res \<times> 'w" where
  "hipporag_search_ids retrieve_documents q w =
     (case retrieve_documents [mq_text q] (mq_limit q) w of
        (Inl e, w') \<Rightarrow> (Inl e, w') | (Inr answer, w') \<Rightarrow> (Inr (ranked_ids answer), w'))"

section \<open>The service\<close>

text \<open>\<open>MemoryRouter.select\<close>.\<close>

definition router_select :: "memory_query \<Rightarrow> bool \<Rightarrow> string list" where
  "router_select q associative_available =
     (if associative_available \<and> (mq_historical q \<or> mq_associative q) \<and> \<not> mq_latency_sensitive q
      then [''hot'', ''associative''] else [''hot''])"

text \<open>An index answers a query on the records it is given; it may fail and it has its own state.\<close>

type_synonym 'w memory_index = "memory_query \<Rightarrow> memory_record list \<Rightarrow> 'w \<Rightarrow> retrieval_result list res \<times> 'w"

record 'w memory_service =
  sv_authorized_scopes :: "string list"
  sv_allowed_sensitivities :: "string list"
  sv_hot :: "'w memory_index"
  sv_associative :: "'w memory_index option"
  sv_rrf_k :: int

definition memory_service_init :: "'w memory_service \<Rightarrow> 'w memory_service res" where
  "memory_service_init sv =
     (if sv_authorized_scopes sv = [] then Inl (ValueError, ''at least one authorized memory scope is required'')
      else if sv_allowed_sensitivities sv = [] then Inl (ValueError, ''at least one allowed memory sensitivity is required'')
      else if sv_rrf_k sv < 1 then Inl (ValueError, ''rrf_k must be positive'') else Inr sv)"

definition hot_index :: "'w memory_index" where
  "hot_index q records w = (Inr (hot_search q records), w)"

definition external_index :: "string \<Rightarrow> (memory_query \<Rightarrow> 'w \<Rightarrow> (string \<times> rat option) list res \<times> 'w) \<Rightarrow> 'w memory_index" where
  "external_index name search_ids q records w =
     (case search_ids q w of
        (Inl e, w') \<Rightarrow> (Inl e, w') | (Inr raw, w') \<Rightarrow> (Inr (external_search name raw records), w'))"

text \<open>The best result of every source for every record.\<close>

definition keep_best :: "retrieval_result \<Rightarrow> (string \<times> (string \<times> retrieval_result) list) list
    \<Rightarrow> (string \<times> (string \<times> retrieval_result) list) list" where
  "keep_best x per =
     (let d = (case dget per (rr_source x) of None \<Rightarrow> [] | Some d \<Rightarrow> d); i = me_memory_id (rr_record x) in
      AList.update (rr_source x)
        (case dget d i of
           None \<Rightarrow> AList.update i x d
         | Some y \<Rightarrow> if rr_score y < rr_score x then AList.update i x d else d) per)"

definition per_source :: "retrieval_result list \<Rightarrow> (string \<times> (string \<times> retrieval_result) list) list" where
  "per_source results = fold keep_best results []"

text \<open>\<open>datetime.timestamp()\<close>.\<close>

definition timestamp :: "dtime \<Rightarrow> rat" where
  "timestamp t = fl_div (of_int (instant t)) 1000000"

definition rank_key :: "retrieval_result \<Rightarrow> rat \<times> rat" where
  "rank_key x = (- rr_score x, - timestamp (me_promoted_at (rr_record x)))"

type_synonym fused = "(string \<times> memory_record \<times> rat \<times> string list) list"

text \<open>Reciprocal-rank fusion: what the result at a rank of a source adds.\<close>

definition fuse_one :: "int \<Rightarrow> string \<Rightarrow> nat \<times> retrieval_result \<Rightarrow> fused \<Rightarrow> fused" where
  "fuse_one k source x fs =
     (case x of (rank, x) \<Rightarrow>
      let i = me_memory_id (rr_record x) in
      case (case dget fs i of None \<Rightarrow> (rr_record x, 0, []) | Some f \<Rightarrow> f) of (r, score, sources) \<Rightarrow>
        AList.update i (r, fl_add score (fl_div 1 (round64 (of_int (k + int rank)))), sources @ [source]) fs)"

definition fuse_source :: "int \<Rightarrow> string \<times> (string \<times> retrieval_result) list \<Rightarrow> fused \<Rightarrow> fused" where
  "fuse_source k s fs = (case s of (source, d) \<Rightarrow>
     fold (fuse_one k source) (enumerate 1 (sort_key rank_key (map snd d))) fs)"

definition fuse :: "int \<Rightarrow> retrieval_result list \<Rightarrow> retrieval_result list" where
  "fuse k results = sort_key rank_key (map (\<lambda>(i, r, score, sources).
       \<lparr>rr_record = r, rr_score = score, rr_source = ''rrf:'' @ join ''+'' (sort sources)\<rparr>)
     (fold (fuse_source k) (per_source results) []))"

definition run_index :: "'w memory_index \<Rightarrow> memory_query \<Rightarrow> memory_record list \<Rightarrow> retrieval_result list \<times> 'w
    \<Rightarrow> (retrieval_result list \<times> 'w) res" where
  "run_index ix q records s = (case ix q records (snd s) of
     (Inl e, w) \<Rightarrow> Inl e | (Inr xs, w) \<Rightarrow> Inr (fst s @ xs, w))"

text \<open>\<open>MemoryService.retrieve\<close>, on the state \<open>w\<close> of the indexes.\<close>

definition retrieve :: "'w memory_service \<Rightarrow> memory_db \<Rightarrow> memory_query \<Rightarrow> int \<Rightarrow> 'w \<Rightarrow> retrieval_result list res" where
  "retrieve sv db q now w =
     (if mq_scope q \<notin> set (sv_authorized_scopes sv) \<or> \<not> set (mq_include_scopes q) \<subseteq> set (sv_authorized_scopes sv)
      then Inl (PermissionError, ''memory query requests an unauthorized scope'')
      else let effective = filter (\<lambda>s. s \<in> set (sv_allowed_sensitivities sv)) (mq_allowed_sensitivities q) in
      if effective = [] then Inr []
      else bnd (memory_query_init (q\<lparr>mq_allowed_sensitivities := effective\<rparr>)) (\<lambda>q.
      bnd (memory_records db q now) (\<lambda>records.
      let selected = router_select q (sv_associative sv \<noteq> None) in
      bnd (if ''hot'' \<in> set selected then run_index (sv_hot sv) q records ([], w) else Inr ([], w)) (\<lambda>s.
      bnd (case sv_associative sv of
          Some ix \<Rightarrow> if ''associative'' \<in> set selected then run_index ix q records s else Inr s
        | None \<Rightarrow> Inr s) (\<lambda>(results, _).
      Inr (take (nat (mq_limit q)) (fuse (sv_rrf_k sv) results)))))))"

section \<open>Memories in the context\<close>

text \<open>\<open>f"{x:.6f}"\<close>.\<close>

definition fixed6 :: "bool \<Rightarrow> rat \<Rightarrow> string" where
  "fixed6 negative q = (let n = round_half_even (\<bar>q\<bar> * 1000000) in
     (if negative then ''-'' else []) @ dec_int (n div 1000000) @ ''.'' @ pad_dec 6 (n mod 1000000))"

definition memory_item :: "retrieval_result \<Rightarrow> int \<Rightarrow> context_item" where
  "memory_item x now =
     (let r = rr_record x; conditions = join ''; '' (map (\<lambda>(k, v). k @ ''='' @ v) (sort_dict (me_conditions r))) in
      \<lparr>ci_source_id = me_memory_id r, ci_kind = ''verified-memory'',
       ci_content = me_claim r @ [CHR 0x0A] @ ''Applicability: '' @ (if conditions = [] then ''none recorded'' else conditions),
       ci_trust = VERIFIED_MEMORY_TRUST,
       ci_metadata = [(''ledger_event_hash'', me_ledger_event_hash r), (''source'', rr_source x),
         (''score'', fixed6 (rr_score x < 0) (rr_score x)), (''source_run_id'', me_source_run_id r),
         (''confidence'', fixed6 (startswith (me_confidence r) ''-'') (confidence_of r)), (''status'', me_status r),
         (''expires_at'', case me_expires_at r of None \<Rightarrow> [] | Some t \<Rightarrow> isoformat t),
         (''supersedes'', case me_supersedes r of None \<Rightarrow> [] | Some s \<Rightarrow> s)],
       ci_captured_at = utc now\<rparr>)"

definition add_memory :: "context_engine \<Rightarrow> retrieval_result \<Rightarrow> int \<Rightarrow> context_engine res" where
  "add_memory x r now = context_add x (memory_item r now)"

end
