(* ===== verification/Memory_Inv.thy ===== *)
theory Memory_Inv
  imports Memory_Search
begin

text \<open>
  What the memory ledger and the retrieval service guarantee: every stored memory is grounded in the
  evidence ledger, records survive their encodings, external indexes only see what they may see and
  only return what the ledger holds, and retrieval stays within scopes, sensitivities and limits.
\<close>

section \<open>Records and their encodings\<close>

definition normal_record :: "memory_record \<Rightarrow> memory_record" where
  "normal_record r = r\<lparr>me_conditions := sort_dict (me_conditions r)\<rparr>"

definition record_times_ok :: "memory_record \<Rightarrow> bool" where
  "record_times_ok r \<longleftrightarrow> iso_ok (me_promoted_at r) \<and> (case me_expires_at r of None \<Rightarrow> True | Some t \<Rightarrow> iso_ok t)"

lemma norm_conditions [simp]: "norm_dict (map (\<lambda>(k, v). (k, PStr v)) d) = map (\<lambda>(k, v). (k, PStr v)) (sort_dict d)"
  using norm_dict_map [of PStr d] by simp

lemma isoformat_nonempty: "iso_ok t \<Longrightarrow> isoformat t \<noteq> []"
  by (auto simp: iso_ok_def fromisoformat_def digits_at_def Let_def split: option.splits)

lemma row_of_record:
  assumes "record_times_ok r"
  shows "record_from_row (memory_row_of r) = Inr (normal_record r)"
  using assms isoformat_nonempty
  by (cases "me_expires_at r")
    (simp_all add: record_from_row_def memory_row_of_def record_times_ok_def normal_record_def opt_time_of_def time_text_def
      json_norm_PDict comp_def del: json_norm.simps(3))

lemma record_decoded:
  assumes "record_times_ok r"
  shows "decode_memory_record (json_norm (PDict (encode_memory_record r))) = Inr (normal_record r)"
  using assms isoformat_nonempty
  unfolding decode_memory_record_def json_norm_PDict encode_memory_record_def
  by (cases "me_expires_at r"; cases "me_supersedes r")
    (simp_all add: dget_Cons record_times_ok_def normal_record_def time_text_def opt_text_py_def py_text_of_def
      opt_time_field_def json_norm_PDict comp_def del: json_norm.simps(3))

section \<open>Grounded memories\<close>

text \<open>The evidence a stored memory rests on: events of its own run, one of which decides its status, the
  promotion event of its claim, and the rule of the claim authority.\<close>

definition cites :: "ledger \<Rightarrow> memory_row \<Rightarrow> string list \<Rightarrow> bool" where
  "cites l r refs \<longleftrightarrow> refs \<noteq> [] \<and> mr_evidence_refs r = PList (map PStr refs)
     \<and> (\<forall>h \<in> set refs. \<exists>e \<in> set (lg_events l). lr_event_hash e = h \<and> payload_field e ''run_id'' = Some (PStr (mr_source_run_id r)))
     \<and> (mr_status r = ''verified'' \<longrightarrow> (\<exists>e \<in> set (lg_events l). lr_event_hash e \<in> set refs \<and> passing_final_goal e))
     \<and> (mr_status r = ''diagnosed-failure'' \<longrightarrow> (\<exists>e \<in> set (lg_events l). lr_event_hash e \<in> set refs \<and> hard_diagnosis e))"

definition announced :: "crypto \<Rightarrow> ledger \<Rightarrow> memory_row \<Rightarrow> bool" where
  "announced cr l r \<longleftrightarrow> (\<exists>e \<in> set (lg_events l). lr_event_hash e = mr_ledger_event_hash r \<and> lr_event_type e = ''memory.promoted''
     \<and> payload_field e ''memory_id'' = Some (PStr (mr_memory_id r))
     \<and> payload_field e ''claim_digest'' = Some (PStr (digest cr (PStr (mr_claim r))))
     \<and> payload_field e ''source_run_id'' = Some (PStr (mr_source_run_id r)))"

definition claim_allowed :: "memory_config \<Rightarrow> memory_row \<Rightarrow> bool" where
  "claim_allowed g r \<longleftrightarrow> (case mg_claim_authority g of None \<Rightarrow> True
     | Some a \<Rightarrow> (case dget a (mr_claim_kind r) of None \<Rightarrow> False
         | Some rule \<Rightarrow> mr_scope r \<in> set (cl_permitted_scopes rule) \<and> int (length (mr_claim r)) \<le> cl_maximum_claim_characters rule))"

definition grounded :: "crypto \<Rightarrow> memory_config \<Rightarrow> ledger \<Rightarrow> memory_row \<Rightarrow> bool" where
  "grounded cr g l r \<longleftrightarrow> mr_memory_id r \<noteq> [] \<and> mr_status r \<in> {''verified'', ''diagnosed-failure'', ''superseded''}
     \<and> (\<exists>refs. cites l r refs) \<and> announced cr l r \<and> claim_allowed g r"

text \<open>What may wait for an index: encodings of stored records that may leave the ledger.\<close>

definition projectable :: "memory_config \<Rightarrow> memory_db \<Rightarrow> index_row \<Rightarrow> bool" where
  "projectable g db x \<longleftrightarrow> (\<exists>r. ix_record x = json_norm (PDict (encode_memory_record r)) \<and> ix_memory_id x = me_memory_id r
     \<and> me_sensitivity r \<in> set (mg_projection_sensitivities g)
     \<and> (\<exists>row \<in> set (mm_records db). mr_memory_id row = me_memory_id r \<and> mr_sensitivity row = me_sensitivity r
          \<and> mr_claim row = me_claim r \<and> mr_scope row = me_scope r))"

definition memory_ok :: "crypto \<Rightarrow> memory_config \<Rightarrow> ledger \<times> memory_db \<Rightarrow> bool" where
  "memory_ok cr g s \<longleftrightarrow> (case s of (l, db) \<Rightarrow> ledger_ok cr l \<and> distinct (map mr_memory_id (mm_records db))
     \<and> (\<forall>r \<in> set (mm_records db). grounded cr g l r) \<and> (\<forall>x \<in> set (mm_outbox db). projectable g db x))"

lemma grounded_mono:
  assumes "grounded cr g l r" "set (lg_events l) \<subseteq> set (lg_events l')"
  shows "grounded cr g l' r"
proof -
  have "cites l r refs \<Longrightarrow> cites l' r refs" for refs using assms(2) unfolding cites_def by blast
  moreover have "announced cr l r \<Longrightarrow> announced cr l' r" using assms(2) unfolding announced_def by blast
  ultimately show ?thesis using assms(1) unfolding grounded_def by blast
qed

lemma append_events: "set (lg_events l) \<subseteq> set (lg_events (snd (ledger_append cr ty payload now l)))"
  by (auto simp: ledger_append_def Let_def split: option.splits)

lemma append_stores:
  assumes "ledger_append cr ty payload now l = (Inr h, l')"
  shows "\<exists>e \<in> set (lg_events l'). lr_event_hash e = h \<and> lr_event_type e = ty \<and> lr_payload e = PDict (norm_dict payload)"
  using assms unfolding json_norm_PDict ledger_append_def Let_def
  by (auto split: option.splits if_splits)

lemma events_for_refs: "e \<in> set (map snd (events_for_hashes l hs)) \<longleftrightarrow> e \<in> set (lg_events l) \<and> lr_event_hash e \<in> hs"
  by (auto simp: events_for_hashes_def)

lemma all_refs_known:
  assumes "length (events_for_hashes l (set refs)) = length (remdups refs)" "distinct (map lr_event_hash (lg_events l))"
  shows "\<forall>h \<in> set refs. \<exists>e \<in> set (lg_events l). lr_event_hash e = h"
proof -
  let ?es = "filter (\<lambda>e. lr_event_hash e \<in> set refs) (lg_events l)"
  have d: "distinct (map lr_event_hash ?es)" using assms(2) by (simp add: distinct_map_filter)
  have "card (set (map lr_event_hash ?es)) = card (set refs)"
    using assms(1) distinct_card [OF d] by (simp add: events_for_hashes_def length_remdups_card_conv)
  moreover have "set (map lr_event_hash ?es) \<subseteq> set refs" by auto
  ultimately have eq: "set (map lr_event_hash ?es) = set refs" by (intro card_subset_eq) simp_all
  show ?thesis
  proof
    fix h assume "h \<in> set refs"
    then have "h \<in> set (map lr_event_hash ?es)" unfolding eq .
    then show "\<exists>e \<in> set (lg_events l). lr_event_hash e = h" by auto
  qed
qed

lemma attested_cites:
  assumes "validate_attested_promotion cr g l v = Inr ()" "distinct (map lr_event_hash (lg_events l))"
  shows "cites l (memory_row_of (memory_record_of v old h)) (mc_evidence_refs (vm_candidate v))
    \<and> vm_status v \<in> {''verified'', ''diagnosed-failure''} \<and> mc_memory_id (vm_candidate v) \<noteq> []
    \<and> claim_allowed g (memory_row_of (memory_record_of v old h))"
proof -
  let ?c = "vm_candidate v" and ?es = "map snd (events_for_hashes l (set (mc_evidence_refs (vm_candidate v))))"
  note V = assms(1) [unfolded validate_attested_promotion_def Let_def]
  have auth: "opt_validate (mg_claim_authority g) ?c = Inr ()"
    using V by (cases "opt_validate (mg_claim_authority g) ?c") auto
  have S: "vm_status v \<in> {''verified'', ''diagnosed-failure''}" "mc_memory_id ?c \<noteq> []" "mc_evidence_refs ?c \<noteq> []"
    "length ?es = length (remdups (mc_evidence_refs ?c))"
    "\<forall>e \<in> set ?es. payload_field e ''run_id'' = Some (PStr (vm_source_run_id v))"
    "vm_status v = ''verified'' \<Longrightarrow> list_ex passing_final_goal ?es"
    "vm_status v \<noteq> ''verified'' \<Longrightarrow> list_ex hard_diagnosis ?es"
    using V auth by (auto split: if_splits simp: list_ex_iff)
  have known: "\<forall>h \<in> set (mc_evidence_refs ?c). \<exists>e \<in> set (lg_events l). lr_event_hash e = h"
    by (rule all_refs_known [OF _ assms(2)]) (use S(4) in simp)
  let ?r = "memory_row_of (memory_record_of v old h)"
  have F: "mr_evidence_refs ?r = PList (map PStr (mc_evidence_refs ?c))" "mr_source_run_id ?r = vm_source_run_id v" "mr_status ?r = vm_status v"
    by (simp_all add: memory_row_of_def memory_record_of_def Let_def comp_def)
  have E: "\<exists>e \<in> set (lg_events l). lr_event_hash e \<in> set (mc_evidence_refs ?c) \<and> p e" if "list_ex p ?es" for p
    using that events_for_refs [of _ l "set (mc_evidence_refs ?c)"] unfolding list_ex_iff by blast
  have own: "\<forall>h \<in> set (mc_evidence_refs ?c). \<exists>e \<in> set (lg_events l). lr_event_hash e = h
      \<and> payload_field e ''run_id'' = Some (PStr (vm_source_run_id v))"
    using known S(5) events_for_refs [of _ l "set (mc_evidence_refs ?c)"] by fast
  have "cites l ?r (mc_evidence_refs ?c)"
    unfolding cites_def F using S(3) own E [OF S(6)] E [OF S(7)] by auto
  moreover have "claim_allowed g (memory_row_of (memory_record_of v old h))"
    using auth by (auto simp: claim_allowed_def memory_row_of_def memory_record_of_def Let_def opt_validate_def authority_validate_def
        split: option.splits if_splits)
  ultimately show ?thesis using S by simp
qed

lemma insert_announced:
  assumes "ledger_append cr ''memory.promoted'' (promoted_payload cr v old) now l = (Inr h, l')"
  shows "announced cr l' (memory_row_of (memory_record_of v old h))"
proof -
  obtain e where e: "e \<in> set (lg_events l')" "lr_event_hash e = h" "lr_event_type e = ''memory.promoted''"
    "lr_payload e = PDict (norm_dict (promoted_payload cr v old))"
    using append_stores [OF assms] by blast
  have "payload_field e k = map_option json_norm (dget (promoted_payload cr v old) k)" for k
    by (simp add: payload_field_def e(4) dget_norm_dict)
  then show ?thesis
    using e(1-3) unfolding announced_def
    by (intro bexI [of _ e])
      (simp_all add: promoted_payload_def dget_Cons Let_def memory_row_of_def memory_record_of_def)
qed

lemma superseded_grounded: "grounded cr g l r \<Longrightarrow> grounded cr g l (r\<lparr>mr_status := ''superseded''\<rparr>)"
  unfolding grounded_def cites_def announced_def by (auto simp: claim_allowed_def split: option.splits)

lemma supersede_rows:
  "set (supersede old rows) \<subseteq> set rows \<union> (\<lambda>r. r\<lparr>mr_status := ''superseded''\<rparr>) ` set rows"
  "map mr_memory_id (supersede old rows) = map mr_memory_id rows"
  by (auto simp: supersede_def split: option.splits)

lemma supersede_keeps:
  assumes "r \<in> set rows"
  shows "\<exists>r' \<in> set (supersede old rows). mr_memory_id r' = mr_memory_id r \<and> mr_sensitivity r' = mr_sensitivity r
    \<and> mr_claim r' = mr_claim r \<and> mr_scope r' = mr_scope r"
proof (cases "case old of None \<Rightarrow> False | Some i \<Rightarrow> i \<noteq> [] \<and> mr_memory_id r = i")
  case True
  then have "r\<lparr>mr_status := ''superseded''\<rparr> \<in> set (supersede old rows)"
    using assms by (auto simp: supersede_def split: option.splits)
  then show ?thesis by (rule bexI [rotated]) simp
next
  case False
  then have "r \<in> set (supersede old rows)" using assms by (auto simp: supersede_def split: option.splits)
  then show ?thesis by (rule bexI [rotated]) simp
qed

lemma projectable_mono:
  assumes "projectable g db x" "\<And>r. r \<in> set (mm_records db) \<Longrightarrow> \<exists>r' \<in> set (mm_records db'). mr_memory_id r' = mr_memory_id r
    \<and> mr_sensitivity r' = mr_sensitivity r \<and> mr_claim r' = mr_claim r \<and> mr_scope r' = mr_scope r"
  shows "projectable g db' x"
  using assms unfolding projectable_def by metis

lemma enqueue_rows:
  assumes "x \<in> set (enqueue r now rows)"
  shows "x \<in> set rows \<or> ix_record x = json_norm (PDict (encode_memory_record r)) \<and> ix_memory_id x = me_memory_id r"
  using assms unfolding enqueue_def Let_def by (auto split: if_splits)

lemma store_record_ok:
  assumes ok: "memory_ok cr g (l, db)" and row: "grounded cr g l (memory_row_of r)" and s: "store_record g r now db = (res, db')"
  shows "memory_ok cr g (l, db')"
proof (cases "me_memory_id r \<in> set (map mr_memory_id (mm_records db))")
  case True
  then show ?thesis using ok s by (simp add: store_record_def)
next
  case False
  let ?rows = "mm_records db @ [memory_row_of r]"
  have db': "mm_records db' = supersede (me_supersedes r) ?rows"
    "mm_outbox db' = (if me_sensitivity r \<in> set (mg_projection_sensitivities g)
        then enqueue r (isoformat (utc now)) (mm_outbox db) else mm_outbox db)"
    using s False by (auto simp: store_record_def)
  have i: "mr_memory_id (memory_row_of r) = me_memory_id r" by (simp add: memory_row_of_def)
  have "distinct (map mr_memory_id ?rows)" using ok False i by (simp add: memory_ok_def)
  moreover have "\<forall>x \<in> set ?rows. grounded cr g l x" using ok row by (simp add: memory_ok_def)
  then have "\<forall>x \<in> set (mm_records db'). grounded cr g l x"
    using supersede_rows(1) [of "me_supersedes r" ?rows] superseded_grounded unfolding db'(1) by blast
  moreover have "projectable g db' x" if "x \<in> set (mm_outbox db')" for x
  proof -
    have old: "projectable g db' x" if "x \<in> set (mm_outbox db)"
      by (rule projectable_mono [of g db]) (use ok \<open>x \<in> set (mm_outbox db)\<close> supersede_keeps [of _ ?rows] db'(1) in \<open>auto simp: memory_ok_def\<close>)
    have "projectable g db' x" if x: "ix_record x = json_norm (PDict (encode_memory_record r))" "ix_memory_id x = me_memory_id r"
        "me_sensitivity r \<in> set (mg_projection_sensitivities g)"
      unfolding projectable_def
      using x supersede_keeps [of "memory_row_of r" ?rows "me_supersedes r"] unfolding db'(1)
      by (intro exI [of _ r]) (auto simp: memory_row_of_def)
    then show ?thesis using that old enqueue_rows unfolding db'(2) by (auto split: if_splits)
  qed
  ultimately show ?thesis using ok supersede_rows(2) [of "me_supersedes r" ?rows] db'(1) by (simp add: memory_ok_def)
qed

lemma ledger_grows_ok:
  assumes "memory_ok cr g (l, db)" "ledger_ok cr l'" "set (lg_events l) \<subseteq> set (lg_events l')"
  shows "memory_ok cr g (l', db)"
  using assms grounded_mono [OF _ assms(3)] by (auto simp: memory_ok_def)

lemma append_memory_ok:
  assumes "memory_ok cr g (l, db)"
  shows "memory_ok cr g (snd (ledger_append cr ty payload now l), db)"
proof (rule ledger_grows_ok [OF assms])
  show "ledger_ok cr (snd (ledger_append cr ty payload now l))"
    using assms by (simp add: memory_ok_def ledger_append_ok)
qed (rule append_events)

lemma memory_insert_ok:
  assumes "memory_ok cr g s"
  shows "memory_ok cr g (snd (memory_insert cr g v old t1 t2 s))"
proof -
  obtain l db where s: "s = (l, db)" by fastforce
  show ?thesis
  proof (cases "validate_attested_promotion cr g l v")
    case (Inl e)
    then show ?thesis using assms by (simp add: memory_insert_def s)
  next
    case (Inr u)
    obtain r l' where a: "ledger_append cr ''memory.promoted'' (promoted_payload cr v old) t1 l = (r, l')" by fastforce
    have ok: "memory_ok cr g (l', db)"
      using append_memory_ok [of cr g l db "''memory.promoted''" "promoted_payload cr v old" t1] assms a by (simp add: s)
    show ?thesis
    proof (cases r)
      case (Inl e)
      then show ?thesis using ok a Inr by (simp add: memory_insert_def s)
    next
      case (Inr h)
      let ?row = "memory_row_of (memory_record_of v old h)"
      have at: "cites l ?row (mc_evidence_refs (vm_candidate v)) \<and> vm_status v \<in> {''verified'', ''diagnosed-failure''}
          \<and> mc_memory_id (vm_candidate v) \<noteq> [] \<and> claim_allowed g ?row"
        by (rule attested_cites) (use \<open>validate_attested_promotion cr g l v = Inr u\<close> assms in \<open>auto simp: s memory_ok_def ledger_ok_def\<close>)
      have "announced cr l' ?row" using insert_announced a Inr by blast
      moreover have "cites l' ?row (mc_evidence_refs (vm_candidate v))"
      proof -
        have "set (lg_events l) \<subseteq> set (lg_events l')" using append_events [of l cr] a by (metis snd_conv)
        then show ?thesis using at unfolding cites_def by blast
      qed
      ultimately have row: "grounded cr g l' ?row"
        using at unfolding grounded_def by (auto simp: memory_row_of_def memory_record_of_def Let_def)
      obtain q db' where st: "store_record g (memory_record_of v old h) t2 db = (q, db')" by fastforce
      show ?thesis
        using store_record_ok [OF ok row st] a Inr \<open>validate_attested_promotion cr g l v = Inr u\<close>
        by (simp add: memory_insert_def s st)
    qed
  qed
qed

lemma deliveries_ok: "mm_records db' = mm_records db \<Longrightarrow> mm_outbox db' = mm_outbox db
    \<Longrightarrow> memory_ok cr g (l, db) \<Longrightarrow> memory_ok cr g (l, db')"
  by (simp add: memory_ok_def projectable_def)

text \<open>The operations on the index deliveries touch neither the records nor the outbox.\<close>

lemma index_tables [simp]:
  "mm_records (deliveries_update sel f db) = mm_records db" "mm_outbox (deliveries_update sel f db) = mm_outbox db"
  "mm_records (add_deliveries projection now db) = mm_records db" "mm_outbox (add_deliveries projection now db) = mm_outbox db"
  by (simp_all add: deliveries_update_def add_deliveries_def)

lemma index_operations [simp]:
  "mm_records (snd (claim_index_operations projection worker limit lease now db)) = mm_records db"
  "mm_outbox (snd (claim_index_operations projection worker limit lease now db)) = mm_outbox db"
  "mm_records (snd (complete_index_operation i projection worker now db)) = mm_records db"
  "mm_outbox (snd (complete_index_operation i projection worker now db)) = mm_outbox db"
  "mm_records (release_index_operation i projection worker err now db) = mm_records db"
  "mm_outbox (release_index_operation i projection worker err now db) = mm_outbox db"
  by (simp_all add: claim_index_operations_def complete_index_operation_def release_index_operation_def Let_def)

text \<open>A step of the system: an event of any component, an operation of the ledger's own outbox, the
  insertion of a promotion (also a forged one), or an operation of an index worker.\<close>

inductive memory_step :: "crypto \<Rightarrow> memory_config \<Rightarrow> ledger \<times> memory_db \<Rightarrow> ledger \<times> memory_db \<Rightarrow> bool" for cr g where
  event: "memory_step cr g (l, db) (snd (ledger_append cr ty payload now l), db)"
| anchor: "lg_events l' = lg_events l \<Longrightarrow> ledger_ok cr l' \<Longrightarrow> memory_step cr g (l, db) (l', db)"
| insert: "memory_step cr g s (snd (memory_insert cr g v old t1 t2 s))"
| claim: "memory_step cr g (l, db) (l, snd (claim_index_operations projection worker limit lease now db))"
| complete: "memory_step cr g (l, db) (l, snd (complete_index_operation i projection worker now db))"
| release: "memory_step cr g (l, db) (l, release_index_operation i projection worker err now db)"

definition memory_reachable :: "crypto \<Rightarrow> memory_config \<Rightarrow> ledger \<times> memory_db \<Rightarrow> bool" where
  "memory_reachable cr g s \<longleftrightarrow> (memory_step cr g)\<^sup>*\<^sup>* (ledger_open empty_ledger, empty_memory) s"

lemma memory_step_ok: "memory_step cr g s s' \<Longrightarrow> memory_ok cr g s \<Longrightarrow> memory_ok cr g s'"
proof (induction rule: memory_step.induct)
  case (event l db ty payload now)
  then show ?case by (rule append_memory_ok)
next
  case (anchor l' l db)
  from ledger_grows_ok [OF anchor(3) anchor(2)] anchor(1) show ?case by simp
next
  case (insert s v old t1 t2)
  then show ?case by (rule memory_insert_ok)
next
  case (claim l db projection worker limit lease now)
  then show ?case by (rule deliveries_ok [rotated 2]) simp_all
next
  case (complete l db i projection worker now)
  then show ?case by (rule deliveries_ok [rotated 2]) simp_all
next
  case (release l db i projection worker err now)
  then show ?case by (rule deliveries_ok [rotated 2]) simp_all
qed

lemma memory_reachable_ok: "memory_reachable cr g s \<Longrightarrow> memory_ok cr g s"
  unfolding memory_reachable_def
proof (induction rule: rtranclp_induct)
  case base
  have "ledger_ok cr (ledger_open empty_ledger)" by (rule ledger_ok_reachable [OF created])
  then show ?case by (simp add: memory_ok_def empty_memory_def)
next
  case (step s t)
  then show ?case using memory_step_ok by blast
qed

end
