(* ===== verification/Memory_Retrieval.thy ===== *)
theory Memory_Retrieval
  imports Memory_Inv
begin

text \<open>
  The contract between the retrieval service and its indexes: an index only returns records it was
  offered. The service is proved once against the contract; the lexical index and every external
  index, whatever its service answers, provide it.
\<close>

section \<open>The contract\<close>

locale rehydrating =
  fixes index :: "'w memory_index"
  assumes offered: "index q records w = (Inr xs, w') \<Longrightarrow> x \<in> set xs \<Longrightarrow> rr_record x \<in> set records"
begin

lemma run_offered:
  assumes "run_index index q records (ys, w) = Inr (xs, w')" "\<forall>y \<in> set ys. rr_record y \<in> set records" "x \<in> set xs"
  shows "rr_record x \<in> set records"
  using assms offered by (auto simp: run_index_def split: prod.splits sum.splits)

end

lemma hot_offered: "x \<in> set (hot_search q records) \<Longrightarrow> rr_record x \<in> set records"
  by (auto simp: hot_search_def hot_result_def Let_def split: if_splits)

interpretation hot: rehydrating hot_index
  by unfold_locales (auto simp: hot_index_def intro: hot_offered)

lemma by_id_known:
  "dget (fold (\<lambda>r. AList.update (me_memory_id r) r) records d) i = Some r \<Longrightarrow> r \<in> set records \<or> dget d i = Some r"
  by (induction records arbitrary: d) (fastforce split: if_splits)+

lemma external_offered: "x \<in> set (external_search name raw records) \<Longrightarrow> rr_record x \<in> set records"
  by (auto simp: external_search_def Let_def split: option.splits dest!: sym [THEN by_id_known])

interpretation external: rehydrating "external_index name search_ids" for name search_ids
  by unfold_locales (auto simp: external_index_def intro: external_offered split: prod.splits sum.splits)

section \<open>Fusion\<close>

lemma fold_invariant: "p s \<Longrightarrow> (\<And>x s. x \<in> set xs \<Longrightarrow> p s \<Longrightarrow> p (f x s)) \<Longrightarrow> p (fold f xs s)"
  by (induction xs arbitrary: s) auto

lemma update_entry: "(k, v) \<in> set (AList.update a b d) \<Longrightarrow> (k, v) = (a, b) \<or> (k, v) \<in> set d"
  by (induction d) (auto split: if_splits)

definition sources_ok :: "memory_record set \<Rightarrow> (string \<times> (string \<times> retrieval_result) list) list \<Rightarrow> bool" where
  "sources_ok R per \<longleftrightarrow> (\<forall>(s, d) \<in> set per. \<forall>(i, x) \<in> set d. me_memory_id (rr_record x) = i \<and> rr_record x \<in> R)"

lemma sources_entry: "sources_ok R per \<Longrightarrow> s \<in> set per \<Longrightarrow> \<forall>(i, x) \<in> set (snd s). me_memory_id (rr_record x) = i \<and> rr_record x \<in> R"
  by (cases s) (auto simp: sources_ok_def)

lemma dget_entry: "dget d k = Some v \<Longrightarrow> (k, v) \<in> set d"
  by (simp add: dget_def map_of_SomeD)

lemma keep_best_ok:
  assumes "sources_ok R per" "rr_record x \<in> R"
  shows "sources_ok R (keep_best x per)"
proof -
  let ?d = "case dget per (rr_source x) of None \<Rightarrow> [] | Some d \<Rightarrow> d"
  have d: "\<forall>(i, y) \<in> set ?d. me_memory_id (rr_record y) = i \<and> rr_record y \<in> R"
    using sources_entry [OF assms(1)] dget_entry [of per "rr_source x"] by (cases "dget per (rr_source x)") fastforce+
  show ?thesis
    using assms d unfolding sources_ok_def keep_best_def Let_def
    by (auto dest!: update_entry split: option.splits if_splits)
qed

lemma per_source_ok: "\<forall>x \<in> set results. rr_record x \<in> R \<Longrightarrow> sources_ok R (per_source results)"
  unfolding per_source_def by (rule fold_invariant) (auto simp: sources_ok_def [of R "[]"] intro: keep_best_ok)

definition fused_ok :: "memory_record set \<Rightarrow> fused \<Rightarrow> bool" where
  "fused_ok R fs \<longleftrightarrow> distinct (map fst fs) \<and> (\<forall>(i, r, z) \<in> set fs. me_memory_id r = i \<and> r \<in> R)"

lemma fuse_one_ok:
  assumes "fused_ok R fs" "rr_record (snd x) \<in> R"
  shows "fused_ok R (fuse_one k source x fs)"
proof -
  obtain rank y where x: "x = (rank, y)" by fastforce
  let ?i = "me_memory_id (rr_record y)"
  obtain r score sources where f: "(case dget fs ?i of None \<Rightarrow> (rr_record y, 0, []) | Some f \<Rightarrow> f) = (r, score, sources)"
    by (metis prod_cases3)
  have "me_memory_id r = ?i \<and> r \<in> R"
    using f assms dget_entry [of fs ?i] by (force simp: fused_ok_def x split: option.splits)
  then show ?thesis
    using assms(1) f unfolding fused_ok_def fuse_one_def x Let_def
    by (auto simp: distinct_update dest!: update_entry)
qed

lemma fuse_source_ok:
  assumes "fused_ok R fs" "\<forall>(i, x) \<in> set (snd s). rr_record x \<in> R"
  shows "fused_ok R (fuse_source k s fs)"
proof -
  obtain source d where s: "s = (source, d)" by fastforce
  have "rr_record (snd x) \<in> R" if "x \<in> set (enumerate 1 (sort_key rank_key (map snd d)))" for x
  proof -
    have "snd x \<in> set (map snd (enumerate 1 (sort_key rank_key (map snd d))))" using that unfolding set_map by (rule imageI)
    then show ?thesis using assms(2) unfolding map_snd_enumerate by (auto simp: s)
  qed
  then show ?thesis
    unfolding fuse_source_def s prod.case
    by (intro fold_invariant [of "fused_ok R", OF assms(1)] fuse_one_ok) auto
qed

lemma distinct_map_sort_key: "distinct (map f (sort_key key xs)) = distinct (map f xs)"
  by (metis (no_types) card_distinct distinct_card length_map length_sort set_map set_sort)

lemma fuse_sound:
  assumes "\<forall>x \<in> set results. rr_record x \<in> R"
  shows "distinct (map (me_memory_id \<circ> rr_record) (fuse k results)) \<and> (\<forall>x \<in> set (fuse k results). rr_record x \<in> R)
    \<and> sorted (map rank_key (fuse k results))"
proof -
  let ?fs = "fold (fuse_source k) (per_source results) []"
  let ?g = "\<lambda>(i, r, score, sources). \<lparr>rr_record = r, rr_score = score, rr_source = ''rrf:'' @ join ''+'' (sort sources)\<rparr>"
  have "fused_ok R ?fs"
  proof (rule fold_invariant [of "fused_ok R"])
    show "fused_ok R (fuse_source k x s)" if "x \<in> set (per_source results)" "fused_ok R s" for x s
      using sources_entry [OF per_source_ok [OF assms] that(1)] by (intro fuse_source_ok that(2)) auto
  qed (simp add: fused_ok_def)
  then have fs: "distinct (map fst ?fs)" "\<forall>(i, r, z) \<in> set ?fs. me_memory_id r = i \<and> r \<in> R" by (auto simp: fused_ok_def)
  have ids: "map (me_memory_id \<circ> rr_record) (map ?g ?fs) = map fst ?fs"
    using fs(2) by (auto split: prod.splits)
  have "distinct (map (me_memory_id \<circ> rr_record) (sort_key rank_key (map ?g ?fs)))"
    using fs(1) ids by (simp add: distinct_map_sort_key del: map_map)
  moreover have "\<forall>x \<in> set (sort_key rank_key (map ?g ?fs)). rr_record x \<in> R" using fs(2) by (auto split: prod.splits)
  ultimately show ?thesis unfolding fuse_def by simp
qed

section \<open>Retrieval\<close>

lemma map_res_source: "map_res f xs = Inr ys \<Longrightarrow> y \<in> set ys \<Longrightarrow> \<exists>x \<in> set xs. f x = Inr y"
  by (induction xs arbitrary: ys) (auto simp: bnd_def split: sum.splits)

text \<open>A record the query may see: a live row of a queried scope with a queried label.\<close>

definition visible :: "memory_db \<Rightarrow> memory_query \<Rightarrow> int \<Rightarrow> memory_record \<Rightarrow> bool" where
  "visible db q now r \<longleftrightarrow> (\<exists>row \<in> set (mm_records db). record_from_row row = Inr r)
     \<and> me_scope r \<in> set (mq_scope q # mq_include_scopes q) \<and> me_sensitivity r \<in> set (mq_allowed_sensitivities q) \<and> is_live r now"

lemma row_columns:
  assumes "record_from_row row = Inr r"
  shows "me_memory_id r = mr_memory_id row \<and> me_scope r = mr_scope row \<and> me_sensitivity r = mr_sensitivity row
    \<and> me_claim r = mr_claim row \<and> me_status r = mr_status row \<and> me_source_run_id r = mr_source_run_id row"
  using assms unfolding record_from_row_def
  by (cases "str_dict_of (mr_conditions row)"; cases "strs_of (mr_evidence_refs row)"; cases "time_of (PStr (mr_promoted_at row))";
      cases "opt_time_of (mr_expires_at row)") auto

lemma records_visible:
  assumes "memory_records db q now = Inr rs" "r \<in> set rs"
  shows "visible db q now r"
proof -
  let ?rows = "filter (\<lambda>r. mr_scope r \<in> set (mq_scope q # mq_include_scopes q) \<and> mr_sensitivity r \<in> set (mq_allowed_sensitivities q)) (mm_records db)"
  obtain ys where ys: "map_res record_from_row ?rows = Inr ys" "rs = filter (\<lambda>r. is_live r now) ys"
    using assms(1) by (cases "map_res record_from_row ?rows") (auto simp: memory_records_def)
  obtain row where row: "row \<in> set ?rows" "record_from_row row = Inr r"
    using map_res_source [OF ys(1), of r] assms(2) ys(2) by auto
  have "me_scope r = mr_scope row" "me_sensitivity r = mr_sensitivity row"
    using row_columns [OF row(2)] by simp_all
  then show ?thesis using row assms(2) ys(2) by (auto simp: visible_def)
qed

text \<open>The service over indexes that keep the contract.\<close>

locale retrieving =
  fixes sv :: "'w memory_service"
  assumes hot_keeps: "rehydrating (sv_hot sv)"
    and associative_keeps: "sv_associative sv = Some ix \<Longrightarrow> rehydrating ix"
begin

lemma retrieve_fused:
  assumes "retrieve sv db q now w = Inr xs" "xs \<noteq> []"
  obtains results q' where "q' = q\<lparr>mq_allowed_sensitivities := filter (\<lambda>s. s \<in> set (sv_allowed_sensitivities sv)) (mq_allowed_sensitivities q)\<rparr>"
    "\<forall>x \<in> set results. visible db q' now (rr_record x)"
    "xs = take (nat (mq_limit q)) (fuse (sv_rrf_k sv) results)" "set (mq_scope q # mq_include_scopes q) \<subseteq> set (sv_authorized_scopes sv)"
proof -
  let ?q = "q\<lparr>mq_allowed_sensitivities := filter (\<lambda>s. s \<in> set (sv_allowed_sensitivities sv)) (mq_allowed_sensitivities q)\<rparr>"
  have scopes: "set (mq_scope q # mq_include_scopes q) \<subseteq> set (sv_authorized_scopes sv)"
    using assms(1) by (auto simp: retrieve_def split: if_splits)
  obtain records where rs: "memory_query_init ?q = Inr ?q" "memory_records db ?q now = Inr records"
    using assms by (cases "memory_query_init ?q"; cases "memory_records db ?q now")
      (auto simp: retrieve_def Let_def memory_query_init_def split: if_splits)
  let ?selected = "router_select ?q (sv_associative sv \<noteq> None)"
  have hot: "''hot'' \<in> set ?selected" by (simp add: router_select_def)
  obtain s where s: "run_index (sv_hot sv) ?q records ([], w) = Inr s"
    using assms rs hot by (cases "run_index (sv_hot sv) ?q records ([], w)") (auto simp: retrieve_def Let_def split: if_splits)
  have first: "\<forall>x \<in> set (fst s). rr_record x \<in> set records"
    using rehydrating.run_offered [OF hot_keeps, of ?q records "[]" w] s by (cases s) auto
  obtain results w' where r: "(case sv_associative sv of
      Some ix \<Rightarrow> if ''associative'' \<in> set ?selected then run_index ix ?q records s else Inr s | None \<Rightarrow> Inr s) = Inr (results, w')"
    "xs = take (nat (mq_limit q)) (fuse (sv_rrf_k sv) results)"
    using assms rs hot s unfolding retrieve_def Let_def
    by (auto simp: bnd_def split: if_splits sum.splits)
  have "\<forall>x \<in> set results. rr_record x \<in> set records"
  proof (cases "sv_associative sv")
    case None
    then show ?thesis using r(1) first by auto
  next
    case (Some ix)
    obtain ys w1 where "s = (ys, w1)" by fastforce
    then show ?thesis
      using r(1) first Some rehydrating.run_offered [OF associative_keeps [OF Some], of ?q records ys w1 results w']
      by (auto split: if_splits)
  qed
  then show thesis using that [OF refl, of results] records_visible [OF rs(2)] r(2) scopes by blast
qed

lemma retrieve_keeps:
  assumes "retrieve sv db q now w = Inr xs"
  shows "distinct (map (me_memory_id \<circ> rr_record) xs) \<and> sorted (map rank_key xs) \<and> length xs \<le> nat (mq_limit q)
    \<and> (\<forall>x \<in> set xs. visible db q now (rr_record x) \<and> me_scope (rr_record x) \<in> set (sv_authorized_scopes sv)
         \<and> me_sensitivity (rr_record x) \<in> set (sv_allowed_sensitivities sv))"
proof (cases "xs = []")
  case False
  obtain results q' where q': "q' = q\<lparr>mq_allowed_sensitivities := filter (\<lambda>s. s \<in> set (sv_allowed_sensitivities sv)) (mq_allowed_sensitivities q)\<rparr>"
    and v: "\<forall>x \<in> set results. rr_record x \<in> Collect (visible db q' now)"
    and xs: "xs = take (nat (mq_limit q)) (fuse (sv_rrf_k sv) results)"
    and scopes: "set (mq_scope q # mq_include_scopes q) \<subseteq> set (sv_authorized_scopes sv)"
    using retrieve_fused [OF assms False] by (metis mem_Collect_eq)
  note sound = fuse_sound [OF v, of "sv_rrf_k sv"]
  have "visible db q' now (rr_record x)" if "x \<in> set xs" for x
    using sound that unfolding xs by (auto dest: in_set_takeD)
  then have "\<forall>x \<in> set xs. visible db q now (rr_record x) \<and> me_scope (rr_record x) \<in> set (sv_authorized_scopes sv)
         \<and> me_sensitivity (rr_record x) \<in> set (sv_allowed_sensitivities sv)"
    using subsetD [OF scopes] unfolding q' visible_def by fastforce
  moreover have "distinct (map (me_memory_id \<circ> rr_record) xs)" "sorted (map rank_key xs)"
    using sound unfolding xs take_map [symmetric] by (auto simp: distinct_take sorted_wrt_take)
  ultimately show ?thesis by (simp add: xs)
qed simp

end

end
