(* ===== verification/Memory_Props.thy ===== *)
theory Memory_Props
  imports Memory_Retrieval
begin

text \<open>
  The properties of the memory component, with a concrete evidence ledger, promotion and service as
  their witness.
\<close>

section \<open>The default service\<close>

text \<open>\<open>MemoryService\<close> as a deployment builds it: the lexical index, and an external index or none.\<close>

definition standard_service :: "string list \<Rightarrow> string list \<Rightarrow> (string \<times> (memory_query \<Rightarrow> 'w \<Rightarrow> (string \<times> rat option) list res \<times> 'w)) option
    \<Rightarrow> int \<Rightarrow> 'w memory_service" where
  "standard_service scopes labels ext k = \<lparr>sv_authorized_scopes = scopes, sv_allowed_sensitivities = labels, sv_hot = hot_index,
     sv_associative = map_option (\<lambda>(name, search_ids). external_index name search_ids) ext, sv_rrf_k = k\<rparr>"

interpretation standard: retrieving "standard_service scopes labels ext k" for scopes labels ext k
proof (rule retrieving.intro)
  show "rehydrating (sv_hot (standard_service scopes labels ext k))"
    by (simp add: standard_service_def hot.rehydrating_axioms)
  show "rehydrating ix" if "sv_associative (standard_service scopes labels ext k) = Some ix" for ix
    using that external.rehydrating_axioms by (auto simp: standard_service_def split: prod.splits)
qed

section \<open>Projection documents\<close>

definition id_shape :: "string \<Rightarrow> bool" where
  "id_shape i \<longleftrightarrow> 8 \<le> length i \<and> length i \<le> 64 \<and> list_all id_char i"

lemma match_own_id:
  assumes "id_shape i"
  shows "match_id (id_mark @ i @ '']'' @ r) = Some (i, r)"
proof -
  have "\<not> id_char (CHR '']'')" by (simp add: id_char_def)
  then have "takeWhile id_char (i @ CHR '']'' # r) = i"
    using assms by (simp add: id_shape_def list_all_iff takeWhile_append2)
  then show ?thesis using assms by (simp add: match_id_def id_shape_def startswith_def Let_def)
qed

lemma find_own_id:
  assumes "id_shape i"
  shows "find_ids (id_mark @ i @ '']'' @ r) = i # find_ids r"
proof -
  obtain c m where cm: "id_mark @ i @ '']'' @ r = c # m" by (simp add: id_mark_def)
  show ?thesis using match_own_id [OF assms, of r] unfolding cm by simp
qed

lemma ranked_ids_fst: "map fst (ranked_ids answer) = first_occurrences (extract_memory_ids answer)"
proof -
  have "map fst (map (\<lambda>(k, i). (i, f k)) ps) = map snd ps" for f :: "nat \<Rightarrow> rat option" and ps :: "(nat \<times> string) list"
    by (induction ps) auto
  then show ?thesis unfolding ranked_ids_def by (simp only: map_snd_enumerate)
qed

section \<open>What an index is given\<close>

lemma decoded_columns:
  assumes "decode_memory_record (json_norm (PDict (encode_memory_record r))) = Inr r'"
  shows "me_memory_id r' = me_memory_id r \<and> me_scope r' = me_scope r \<and> me_claim r' = me_claim r \<and> me_sensitivity r' = me_sensitivity r"
  using assms unfolding decode_memory_record_def json_norm_PDict encode_memory_record_def
  by (cases "time_of (PStr (isoformat (me_promoted_at r)))"; cases "me_expires_at r"; cases "me_supersedes r")
    (auto simp: dget_Cons opt_text_py_def py_text_of_def time_text_def opt_time_field_def json_norm_PDict comp_def bnd_def
      simp del: json_norm.simps(3) split: if_splits sum.splits)

lemma claimed_projectable:
  assumes "claim_index_operations projection worker limit lease now db = (Inr items, db')" "it \<in> set items"
  shows "\<exists>x \<in> set (mm_outbox db). it_memory_id it = ix_memory_id x \<and> decode_memory_record (ix_record x) = Inr (it_record it)"
proof -
  let ?t = "isoformat (utc now)"
  let ?rows = "index_rows projection ?t (nat limit) (add_deliveries projection ?t db)"
  have "map_res index_item_of ?rows = Inr items" using assms(1) by (simp add: claim_index_operations_def Let_def split: if_splits)
  from map_res_source [OF this assms(2)] obtain x d where x: "(x, d) \<in> set ?rows" "index_item_of (x, d) = Inr it" by auto
  have "x \<in> set (mm_outbox db)" using x(1) by (auto simp: index_rows_def dest!: in_set_takeD)
  then show ?thesis
    using x(2) by (cases "decode_memory_record (ix_record x)") (auto simp: index_item_of_def intro!: bexI [of _ x])
qed

section \<open>A concrete promotion\<close>

text \<open>A hash that tells events of different types apart.\<close>

definition prefix_crypto :: crypto where
  "prefix_crypto = toy_crypto\<lparr>sha256_hex := \<lambda>s. take 10 (drop 15 s)\<rparr>"

definition memory_evidence :: ledger where
  "memory_evidence = snd (ledger_append prefix_crypto ''final-goal.completed''
     [(''run_id'', PStr ''r''), (''status'', PStr ''pass'')] 0 (ledger_open empty_ledger))"

definition sample_memory :: "string \<Rightarrow> verified_memory" where
  "sample_memory i = \<lparr>vm_candidate = \<lparr>mc_claim = ''use tabs'', mc_scope = ''p'', mc_conditions = [(''lang'', ''py'')],
     mc_evidence_refs = map lr_event_hash (lg_events memory_evidence), mc_confidence = ''0.9'', mc_sensitivity = ''internal'',
     mc_expires_at = None, mc_memory_id = i, mc_claim_kind = ''k''\<rparr>, vm_source_run_id = ''r'', vm_promoted_at = utc 0,
     vm_status = ''verified''\<rparr>"

definition sample_config :: memory_config where
  "sample_config = \<lparr>mg_projection_sensitivities = [''public'', ''internal''], mg_claim_authority = None\<rparr>"

definition sample_system :: "ledger \<times> memory_db" where
  "sample_system = snd (memory_insert prefix_crypto sample_config (sample_memory ''deadbeef'') None 0 0 (memory_evidence, empty_memory))"

definition sample_query :: memory_query where
  "sample_query = \<lparr>mq_text = ''tabs or spaces'', mq_scope = ''p'', mq_limit = 3, mq_include_scopes = [],
     mq_allowed_sensitivities = [''public'', ''internal''], mq_historical = True, mq_associative = True, mq_latency_sensitive = False\<rparr>"

definition sample_service :: "unit memory_service" where
  "sample_service = standard_service [''p''] [''public'', ''internal'']
     (Some (''rag'', \<lambda>q w. (Inr [(''deadbeef'', Some 1), (''forged'', Some 2)], w))) 60"

lemma sample_memory_reachable: "memory_reachable prefix_crypto sample_config sample_system"
proof -
  have "memory_step prefix_crypto sample_config (ledger_open empty_ledger, empty_memory) (memory_evidence, empty_memory)"
    unfolding memory_evidence_def by (rule memory_step.event)
  moreover have "memory_step prefix_crypto sample_config (memory_evidence, empty_memory) sample_system"
    unfolding sample_system_def by (rule memory_step.insert)
  ultimately show ?thesis unfolding memory_reachable_def by (meson converse_rtranclp_into_rtranclp rtranclp.rtrancl_refl)
qed

definition stored_memory :: memory_db where
  "stored_memory = \<lparr>mm_records = [\<lparr>mr_memory_id = ''deadbeef'', mr_scope = ''p'', mr_claim = ''use tabs'',
     mr_conditions = PDict [(''lang'', PStr ''py'')], mr_evidence_refs = PList [PStr ''final-goal''], mr_confidence = ''0.9'',
     mr_sensitivity = ''internal'', mr_source_run_id = ''r'', mr_promoted_at = ''1970-01-01T00:00:00+00:00'',
     mr_ledger_event_hash = ''memory.pro'', mr_expires_at = None, mr_status = ''verified'', mr_supersedes = None, mr_claim_kind = ''k''\<rparr>],
     mm_outbox = [\<lparr>ix_memory_id = ''deadbeef'',
       ix_record = PDict [(''claim'', PStr ''use tabs''), (''claim_kind'', PStr ''k''), (''conditions'', PDict [(''lang'', PStr ''py'')]),
         (''confidence'', PFloat ''0.9''), (''evidence_refs'', PList [PStr ''final-goal'']), (''expires_at'', PNone),
         (''ledger_event_hash'', PStr ''memory.pro''), (''memory_id'', PStr ''deadbeef''),
         (''promoted_at'', PStr ''1970-01-01T00:00:00+00:00''), (''scope'', PStr ''p''), (''sensitivity'', PStr ''internal''),
         (''source_run_id'', PStr ''r''), (''status'', PStr ''verified''), (''supersedes'', PNone)],
       ix_state = ''pending'', ix_attempts = 0, ix_lease_owner = None, ix_lease_expires_at = None, ix_last_error = None,
       ix_created_at = ''1970-01-01T00:00:00+00:00'', ix_updated_at = ''1970-01-01T00:00:00+00:00''\<rparr>], mm_deliveries = []\<rparr>"

lemma sample_db: "snd sample_system = stored_memory"
  by code_simp

lemma sample_rows: "map mr_memory_id (mm_records (snd sample_system)) = [''deadbeef'']"
  by (simp add: sample_db stored_memory_def)

lemma sample_claimed: "map_sum id (map it_memory_id) (fst (claim_index_operations ''rag'' ''w'' 5 (minutes 2) 0 stored_memory)) = Inr [''deadbeef'']"
  by code_simp

lemma sample_retrieved: "map_sum id (map (me_memory_id \<circ> rr_record)) (retrieve sample_service stored_memory sample_query 0 ()) = Inr [''deadbeef'']"
  by code_simp

section \<open>Properties\<close>

text \<open>C29: whatever events are logged, whatever promotions are inserted (forged ones included) and whatever
  the index workers do, the ledger verifies, memory ids are unique, and every stored memory cites events
  of its own run, a passing final goal if it is verified and a hard diagnosis if it is a failure, has its
  promotion event in the ledger with the digest of its claim, and obeys the rule of the claim authority.\<close>

theorem memory_grounded:
  assumes "memory_reachable cr g (l, db)"
  shows "verify_chain cr l \<and> distinct (map mr_memory_id (mm_records db)) \<and> (\<forall>r \<in> set (mm_records db). grounded cr g l r)"
  using memory_reachable_ok [OF assms] by (simp add: memory_ok_def ledger_ok_def)

theorem memory_grounded_witness:
  "\<exists>r refs. mm_records (snd sample_system) = [r] \<and> mr_memory_id r = ''deadbeef'' \<and> cites (fst sample_system) r refs
     \<and> announced prefix_crypto (fst sample_system) r"
proof -
  have "memory_reachable prefix_crypto sample_config (fst sample_system, snd sample_system)" using sample_memory_reachable by simp
  from memory_grounded [OF this] have "\<forall>r \<in> set (mm_records (snd sample_system)). grounded prefix_crypto sample_config (fst sample_system) r"
    by blast
  moreover obtain r where "mm_records (snd sample_system) = [r]" "mr_memory_id r = ''deadbeef''"
    using sample_rows by (auto simp: map_eq_Cons_conv)
  ultimately show ?thesis by (auto simp: grounded_def)
qed

text \<open>C30: retrieval is confined. Whatever an external index answers, every result is a distinct record that
  the ledger holds, live now, in a scope the query names and the service is authorized for and with a
  sensitivity both allow; results come best score first and at most as many as the query asks for.\<close>

theorem retrieve_authorized:
  assumes "retrieve (standard_service scopes labels ext k) db q now w = Inr xs"
  shows "distinct (map (me_memory_id \<circ> rr_record) xs) \<and> sorted (map rank_key xs) \<and> length xs \<le> nat (mq_limit q)
    \<and> (\<forall>x \<in> set xs. visible db q now (rr_record x) \<and> me_scope (rr_record x) \<in> set scopes \<and> me_sensitivity (rr_record x) \<in> set labels)"
  using standard.retrieve_keeps [OF assms] by (simp add: standard_service_def)

theorem retrieve_authorized_witness:
  "\<exists>x. map_sum id (map rr_record) (retrieve sample_service stored_memory sample_query 0 ()) = Inr [x]
     \<and> me_memory_id x = ''deadbeef'' \<and> visible stored_memory sample_query 0 x \<and> me_scope x \<in> {''p''}"
proof -
  obtain xs where xs: "retrieve sample_service stored_memory sample_query 0 () = Inr xs"
    "map (me_memory_id \<circ> rr_record) xs = [''deadbeef'']"
    using sample_retrieved by (cases "retrieve sample_service stored_memory sample_query 0 ()") auto
  then obtain x where x: "xs = [x]" "me_memory_id (rr_record x) = ''deadbeef''" by (auto simp: map_eq_Cons_conv)
  show ?thesis
    using retrieve_authorized [OF xs(1) [unfolded sample_service_def]] x xs(1) by (intro exI [of _ "rr_record x"]) simp
qed

text \<open>C31: an index worker is only ever handed decodable encodings of records that the ledger stores and
  whose sensitivity may be projected: a restricted memory never reaches an external index.\<close>

theorem index_confined:
  assumes "memory_reachable cr g (l, db)" "claim_index_operations projection worker limit lease now db = (Inr items, db')"
    and "it \<in> set items"
  shows "me_sensitivity (it_record it) \<in> set (mg_projection_sensitivities g) \<and> it_memory_id it = me_memory_id (it_record it)
    \<and> (\<exists>row \<in> set (mm_records db). mr_memory_id row = it_memory_id it \<and> mr_claim row = me_claim (it_record it)
         \<and> mr_scope row = me_scope (it_record it) \<and> mr_sensitivity row = me_sensitivity (it_record it))"
proof -
  obtain x where x: "x \<in> set (mm_outbox db)" "it_memory_id it = ix_memory_id x" "decode_memory_record (ix_record x) = Inr (it_record it)"
    using claimed_projectable [OF assms(2,3)] by blast
  obtain r where r: "ix_record x = json_norm (PDict (encode_memory_record r))" "ix_memory_id x = me_memory_id r"
    "me_sensitivity r \<in> set (mg_projection_sensitivities g)"
    "\<exists>row \<in> set (mm_records db). mr_memory_id row = me_memory_id r \<and> mr_sensitivity row = me_sensitivity r
        \<and> mr_claim row = me_claim r \<and> mr_scope row = me_scope r"
    using memory_reachable_ok [OF assms(1)] x(1) unfolding memory_ok_def projectable_def by (simp only: prod.case) blast
  show ?thesis using decoded_columns [OF x(3) [unfolded r(1)]] r(2-4) x(2) by auto
qed

theorem index_confined_witness:
  "\<exists>it. map_sum id id (fst (claim_index_operations ''rag'' ''w'' 5 (minutes 2) 0 stored_memory)) = Inr [it]
     \<and> it_memory_id it = ''deadbeef'' \<and> me_sensitivity (it_record it) \<in> {''public'', ''internal''}"
proof -
  obtain items db' where c: "claim_index_operations ''rag'' ''w'' 5 (minutes 2) 0 stored_memory = (Inr items, db')"
    "map it_memory_id items = [''deadbeef'']"
    using sample_claimed by (cases "claim_index_operations ''rag'' ''w'' 5 (minutes 2) 0 stored_memory"; cases "fst (claim_index_operations ''rag'' ''w'' 5 (minutes 2) 0 stored_memory)") auto
  then obtain it where it: "items = [it]" "it_memory_id it = ''deadbeef''" by (auto simp: map_eq_Cons_conv)
  have "memory_reachable prefix_crypto sample_config (fst sample_system, stored_memory)"
    using sample_memory_reachable sample_db by (metis prod.collapse)
  from index_confined [OF this c(1), of it] show ?thesis using it c(1) by (auto simp: sample_config_def)
qed

text \<open>A projection document gives its own memory id back first: a search that answers with documents the
  adapters inserted, in any nesting of lists and mappings, identifies their records.\<close>

theorem projection_identifies:
  assumes "id_shape (me_memory_id r)"
  shows "(\<exists>more. extract_memory_ids (PStr (projection_document r)) = me_memory_id r # more)
    \<and> me_memory_id r \<in> set (map fst (ranked_ids (PDict [(''data'', PList [answer, PStr (projection_document r)])])))"
proof -
  have own: "\<exists>more. extract_memory_ids (PStr (projection_document r)) = me_memory_id r # more"
    using find_own_id [OF assms] by (simp add: projection_document_def id_mark_def)
  moreover have "set (first_occurrences xs) = set xs" for xs by (induction xs) auto
  ultimately show ?thesis unfolding ranked_ids_fst by auto
qed

theorem projection_identifies_witness:
  "''deadbeef'' \<in> set (map fst (ranked_ids (PDict [(''data'', PList [PNone,
     PStr (projection_document (memory_record_of (sample_memory ''deadbeef'') None ''h''))])])))"
  using projection_identifies [of "memory_record_of (sample_memory ''deadbeef'') None ''h''" PNone]
  by (simp add: id_shape_def id_char_def memory_record_of_def sample_memory_def Let_def)

text \<open>Promoting a second memory under an id in use fails after its promotion event has been committed:
  the evidence ledger then announces a memory that the memory ledger never stores.\<close>

theorem duplicate_promotion_is_announced:
  assumes "validate_attested_promotion cr g l v = Inr ()" "mc_memory_id (vm_candidate v) \<in> set (map mr_memory_id (mm_records db))"
    and "ledger_append cr ''memory.promoted'' (promoted_payload cr v old) t1 l = (Inr h, l')"
  shows "memory_insert cr g v old t1 t2 (l, db) = (Inl (IntegrityError, ''UNIQUE constraint failed: memory_records.memory_id''), l', db)
    \<and> announced cr l' (memory_row_of (memory_record_of v old h))"
  using assms insert_announced [OF assms(3)]
  by (auto simp: memory_insert_def store_record_def memory_record_of_def Let_def)

end
