(* ===== verification/Certificates.thy ===== *)
theory Certificates
  imports Graph_Compile Events
begin

text \<open>
  \<open>src/vloop/execution_certificate.py\<close>: certificates over a causal trace, their signer and their
  validator, which replays the trace on the transition monitor. Keys are texts interpreted by the
  crypto parameter.
\<close>

section \<open>Certificates\<close>

record certificate =
  ec_run_id :: string
  ec_contract_digest :: string
  ec_graph_digest :: string
  ec_realised_graph_digest :: string
  ec_harness_bundle_digest :: string
  ec_initial_workspace_digest :: string
  ec_final_workspace_digest :: string
  ec_causal_trace_root :: string
  ec_authority_proof_root :: string
  ec_evidence_proof_root :: string
  ec_final_decision :: string
  ec_validator_version :: string
  ec_key_id :: string
  ec_signature :: string

definition certificate_digests :: "certificate \<Rightarrow> string list" where
  "certificate_digests c = [ec_contract_digest c, ec_graph_digest c, ec_realised_graph_digest c, ec_harness_bundle_digest c,
     ec_initial_workspace_digest c, ec_final_workspace_digest c, ec_causal_trace_root c, ec_authority_proof_root c,
     ec_evidence_proof_root c]"

definition certificate_init :: "certificate \<Rightarrow> certificate res" where
  "certificate_init c =
     (if blank (ec_run_id c) \<or> blank (ec_final_decision c) \<or> blank (ec_validator_version c) \<or> blank (ec_key_id c)
      then Inl (ValueError, ''execution certificates need run, decision, validator, and key identities'')
      else if list_ex (\<lambda>v. length v \<noteq> 64) (certificate_digests c)
      then Inl (ValueError, ''execution certificate digests must be SHA-256 hex'') else Inr c)"

definition certificate_payload :: "certificate \<Rightarrow> string" where
  "certificate_payload c = canonical_json (PDict
     [(''run_id'', PStr (ec_run_id c)), (''contract_digest'', PStr (ec_contract_digest c)), (''graph_digest'', PStr (ec_graph_digest c)),
      (''realised_graph_digest'', PStr (ec_realised_graph_digest c)), (''harness_bundle_digest'', PStr (ec_harness_bundle_digest c)),
      (''initial_workspace_digest'', PStr (ec_initial_workspace_digest c)),
      (''final_workspace_digest'', PStr (ec_final_workspace_digest c)), (''causal_trace_root'', PStr (ec_causal_trace_root c)),
      (''authority_proof_root'', PStr (ec_authority_proof_root c)), (''evidence_proof_root'', PStr (ec_evidence_proof_root c)),
      (''final_decision'', PStr (ec_final_decision c)), (''validator_version'', PStr (ec_validator_version c)),
      (''key_id'', PStr (ec_key_id c)), (''signature'', PStr [])])"

text \<open>A signer: its key id and private key.\<close>

definition certificate_issue :: "crypto \<Rightarrow> string \<times> string \<Rightarrow> certificate \<Rightarrow> certificate res" where
  "certificate_issue cr signer c =
     (if ec_key_id c \<noteq> fst signer then Inl (ValueError, ''certificate key id does not match signer'')
      else certificate_init (c\<lparr>ec_signature := ed_sign cr (snd signer) (certificate_payload c)\<rparr>))"

section \<open>Roots of a trace\<close>

definition trace_root :: "crypto \<Rightarrow> causal_event list \<Rightarrow> string" where
  "trace_root cr es = digest cr (PList (map (PStr \<circ> event_digest cr) es))"

definition sorted_digest :: "crypto \<Rightarrow> string list \<Rightarrow> string" where
  "sorted_digest cr ts = digest cr (PList (map PStr (sort ts)))"

definition realised_graph :: "crypto \<Rightarrow> causal_event list \<Rightarrow> string" where
  "realised_graph cr es = sorted_digest cr (map ce_node_instance_id es)"

text \<open>What a caller of \<open>certificate_from_trace\<close> states about the run.\<close>

record certified_run =
  rn_run_id :: string
  rn_contract_digest :: string
  rn_graph_digest :: string
  rn_harness_bundle_digest :: string
  rn_initial_workspace_digest :: string
  rn_final_workspace_digest :: string
  rn_final_decision :: string
  rn_validator_version :: string
  rn_key_id :: string

definition certificate_from_trace :: "crypto \<Rightarrow> certified_run \<Rightarrow> causal_event list \<Rightarrow> certificate res" where
  "certificate_from_trace cr r es = certificate_init
     \<lparr>ec_run_id = rn_run_id r, ec_contract_digest = rn_contract_digest r, ec_graph_digest = rn_graph_digest r,
      ec_realised_graph_digest = realised_graph cr es, ec_harness_bundle_digest = rn_harness_bundle_digest r,
      ec_initial_workspace_digest = rn_initial_workspace_digest r, ec_final_workspace_digest = rn_final_workspace_digest r,
      ec_causal_trace_root = trace_root cr es,
      ec_authority_proof_root = sorted_digest cr (filter (\<lambda>t. t \<noteq> []) (map ce_authorization_ref es)),
      ec_evidence_proof_root = sorted_digest cr (concat (map ce_receipt_refs es)),
      ec_final_decision = rn_final_decision r, ec_validator_version = rn_validator_version r, ec_key_id = rn_key_id r,
      ec_signature = []\<rparr>"

section \<open>Replaying\<close>

type_synonym replay = "(int \<times> transition_state) list"

text \<open>The step of the monitor an event stands for.\<close>

definition replay_step :: "crypto \<Rightarrow> monitor \<Rightarrow> causal_event \<Rightarrow> transition_state \<Rightarrow> transition_state res" where
  "replay_step cr m e st =
     (if dget (ce_payload e) ''lifecycle'' = Some (PStr ''started'') then mon_reserve cr m st (ce_template_node_id e) (ce_payload e)
      else if ce_template_node_id e \<in> set (dkeys (ts_started st)) then mon_complete st (ce_template_node_id e) (ce_payload e)
      else mon_advance cr m st (ce_template_node_id e) (ce_payload e))"

definition replay_event :: "crypto \<Rightarrow> monitor \<Rightarrow> causal_event \<Rightarrow> replay \<Rightarrow> replay res" where
  "replay_event cr m e states =
     bnd (initial_state (ce_iteration e)) (\<lambda>fresh.
       case replay_step cr m e (case dget states (ce_iteration e) of None \<Rightarrow> fresh | Some st \<Rightarrow> st) of
         Inr st \<Rightarrow> Inr (AList.update (ce_iteration e) st states)
       | Inl x \<Rightarrow> if is_permission_error (fst x)
           then Inl (PermissionError, ''certificate trace violates the compiled transition graph'') else Inl x)"

definition replay_trace :: "crypto \<Rightarrow> graph_manifest \<Rightarrow> causal_event list \<Rightarrow> replay res" where
  "replay_trace cr g es = bnd (monitor_init g (gm_joins g)) (\<lambda>m. fold_res (replay_event cr m) es [])"

section \<open>Validation\<close>

definition expected_terminal :: "string \<Rightarrow> string option" where
  "expected_terminal d = (if d = ''accept'' then Some ''decision.accept''
     else if d = ''escalate'' then Some ''decision.escalate'' else None)"

definition check_replay :: "crypto \<Rightarrow> certificate \<Rightarrow> causal_event list \<Rightarrow> graph_manifest option \<Rightarrow> unit res" where
  "check_replay cr c es manifest = (case manifest of
       None \<Rightarrow> Inr ()
     | Some g \<Rightarrow> if graph_digest cr g \<noteq> ec_graph_digest c
         then Inl (PermissionError, ''certificate manifest does not match the certified graph'')
         else bnd (replay_trace cr g es) (\<lambda>_. Inr ()))"

text \<open>A validator: the key id it trusts and its public key.\<close>

definition certificate_validate :: "crypto \<Rightarrow> string \<times> string \<Rightarrow> certificate \<Rightarrow> causal_event list \<Rightarrow> graph_manifest option \<Rightarrow> unit res" where
  "certificate_validate cr v c es manifest =
     (if ec_key_id c \<noteq> fst v then Inl (PermissionError, ''execution certificate key is not trusted'')
      else if \<not> ed_verify cr (snd v) (certificate_payload c) (ec_signature c)
      then Inl (PermissionError, ''execution certificate signature is invalid'')
      else if es = [] \<or> list_ex (\<lambda>e. ce_run_id e \<noteq> ec_run_id c \<or> ce_graph_digest e \<noteq> ec_graph_digest c) es
      then Inl (PermissionError, ''certificate trace belongs to another run or graph'')
      else if \<not> distinct (map ce_event_id es)
        \<or> list_ex (\<lambda>e. list_ex (\<lambda>p. p \<notin> set (map ce_event_id es)) (ce_causal_parents e)) es
      then Inl (PermissionError, ''certificate trace has missing causal parents'')
      else if trace_root cr es \<noteq> ec_causal_trace_root c
      then Inl (PermissionError, ''certificate causal trace root does not match events'')
      else if realised_graph cr es \<noteq> ec_realised_graph_digest c
      then Inl (PermissionError, ''certificate realised graph does not match events'')
      else bnd (check_replay cr c es manifest) (\<lambda>_.
        case expected_terminal (ec_final_decision c) of
          None \<Rightarrow> Inr ()
        | Some t \<Rightarrow> if ce_template_node_id (last es) \<noteq> t
            then Inl (PermissionError, ''certificate terminal decision is absent from the causal trace'') else Inr ()))"

section \<open>What a replayed trace establishes\<close>

text \<open>Every state is a run of the monitor, and every event it records is one of the trace.\<close>

definition replay_ok :: "crypto \<Rightarrow> monitor \<Rightarrow> causal_event list \<Rightarrow> replay \<Rightarrow> bool" where
  "replay_ok cr m es states \<longleftrightarrow> (\<forall>i st. dget states i = Some st \<longrightarrow> mon_reachable cr m st
     \<and> (\<forall>n p. dget (ts_events st) n = Some p \<longrightarrow>
          (\<exists>e \<in> set es. ce_iteration e = i \<and> ce_template_node_id e = n \<and> ce_payload e = p)))"

lemma replay_step_reachable:
  assumes "mon_reachable cr m st" "replay_step cr m e st = Inr st'"
  shows "mon_reachable cr m st'"
proof (rule mon_reachable.step [OF assms(1)])
  show "mon_step cr m st st'"
    using assms(2) by (auto simp: replay_step_def split: if_splits intro: mon_step.intros)
qed

lemma replay_step_events:
  assumes "replay_step cr m e st = Inr st'" "dget (ts_events st') n = Some p"
  shows "dget (ts_events st) n = Some p \<or> n = ce_template_node_id e \<and> p = ce_payload e"
  using assms by (auto simp: replay_step_def mon_reserve_def mon_complete_def mon_advance_def bnd_eq_Inr split: if_splits)

lemma replay_step_active:
  assumes "replay_step cr m e st = Inr st'"
  shows "ce_template_node_id e \<in> ts_completed st' \<union> set (dkeys (ts_started st'))"
  using assms by (auto simp: replay_step_def mon_reserve_def mon_complete_def mon_advance_def bnd_eq_Inr split: if_splits)

lemma replay_eventD:
  assumes "replay_event cr m e states = Inr states'"
  obtains fresh st where "initial_state (ce_iteration e) = Inr fresh" "states' = AList.update (ce_iteration e) st states"
    "replay_step cr m e (case dget states (ce_iteration e) of None \<Rightarrow> fresh | Some st \<Rightarrow> st) = Inr st"
proof -
  obtain fresh where f: "initial_state (ce_iteration e) = Inr fresh"
    using assms by (auto simp: replay_event_def bnd_eq_Inr)
  then show thesis
    using assms that [OF f] by (auto simp: replay_event_def split: sum.splits if_splits)
qed

lemma replay_event_ok:
  assumes "replay_ok cr m es states" "replay_event cr m e states = Inr states'"
  shows "replay_ok cr m (es @ [e]) states' \<and> (\<exists>st. mon_reachable cr m st \<and> dget states' (ce_iteration e) = Some st
    \<and> ce_template_node_id e \<in> ts_completed st \<union> set (dkeys (ts_started st)))"
proof -
  obtain fresh st where s: "initial_state (ce_iteration e) = Inr fresh" "states' = AList.update (ce_iteration e) st states"
    "replay_step cr m e (case dget states (ce_iteration e) of None \<Rightarrow> fresh | Some st \<Rightarrow> st) = Inr st"
    by (rule replay_eventD [OF assms(2)])
  let ?old = "case dget states (ce_iteration e) of None \<Rightarrow> fresh | Some st \<Rightarrow> st"
  have old: "mon_reachable cr m ?old"
    "dget (ts_events ?old) n = Some p \<Longrightarrow> \<exists>x \<in> set es. ce_iteration x = ce_iteration e \<and> ce_template_node_id x = n \<and> ce_payload x = p" for n p
    using assms(1) s(1) mon_reachable.init [OF s(1), of cr m]
    by (auto simp: replay_ok_def initial_state_def split: option.splits if_splits)
  have new: "mon_reachable cr m st" by (rule replay_step_reachable [OF old(1) s(3)])
  have "\<exists>x \<in> set (es @ [e]). ce_iteration x = ce_iteration e \<and> ce_template_node_id x = n \<and> ce_payload x = p"
    if "dget (ts_events st) n = Some p" for n p
    using replay_step_events [OF s(3) that] old(2) [of n p] by auto
  then have "replay_ok cr m (es @ [e]) states'"
    using assms(1) new unfolding replay_ok_def s(2) by (fastforce split: if_splits)
  then show ?thesis using new replay_step_active [OF s(3)] by (auto simp: s(2))
qed

lemma fold_res_snoc: "fold_res f (xs @ [x]) s = bnd (fold_res f xs s) (f x)"
  by (induction xs arbitrary: s) (auto simp: bnd_def split: sum.splits)

lemma replay_trace_ok:
  assumes "fold_res (replay_event cr m) es [] = Inr states"
  shows "replay_ok cr m es states"
  using assms
proof (induction es arbitrary: states rule: rev_induct)
  case Nil
  then show ?case by (simp add: replay_ok_def)
next
  case (snoc e es)
  then obtain mid where "fold_res (replay_event cr m) es [] = Inr mid" "replay_event cr m e mid = Inr states"
    by (auto simp: fold_res_snoc bnd_eq_Inr)
  then show ?case using snoc.IH replay_event_ok by blast
qed

lemma replayed_state:
  assumes "fold_res (replay_event cr m) es [] = Inr states" "e \<in> set es"
  shows "\<exists>st. mon_reachable cr m st \<and> ce_template_node_id e \<in> active st
    \<and> (\<forall>n p. dget (ts_events st) n = Some p \<longrightarrow>
          (\<exists>x \<in> set es. ce_iteration x = ce_iteration e \<and> ce_template_node_id x = n \<and> ce_payload x = p))"
  using assms
proof (induction es arbitrary: states rule: rev_induct)
  case (snoc y es)
  then obtain mid where mid: "fold_res (replay_event cr m) es [] = Inr mid" "replay_event cr m y mid = Inr states"
    by (auto simp: fold_res_snoc bnd_eq_Inr)
  show ?case
  proof (cases "e = y")
    case True
    obtain st where "mon_reachable cr m st" "dget states (ce_iteration y) = Some st" "ce_template_node_id y \<in> active st"
      "replay_ok cr m (es @ [y]) states"
      using replay_event_ok [OF replay_trace_ok [OF mid(1)] mid(2)] by blast
    then show ?thesis unfolding True replay_ok_def by blast
  next
    case False
    then have "e \<in> set es" using snoc.prems(2) by simp
    have sub: "set es \<subseteq> set (es @ [y])" by auto
    show ?thesis using snoc.IH [OF mid(1) \<open>e \<in> set es\<close>] sub by blast
  qed
qed simp

lemma validate_trace:
  assumes "certificate_validate cr v c es (Some g) = Inr ()"
  shows "es \<noteq> [] \<and> ed_verify cr (snd v) (certificate_payload c) (ec_signature c)
    \<and> (\<forall>e \<in> set es. ce_run_id e = ec_run_id c \<and> ce_graph_digest e = ec_graph_digest c
         \<and> set (ce_causal_parents e) \<subseteq> ce_event_id ` set es)
    \<and> graph_digest cr g = ec_graph_digest c \<and> trace_root cr es = ec_causal_trace_root c
    \<and> (ec_final_decision c = ''accept'' \<longrightarrow> ce_template_node_id (last es) = ''decision.accept'')
    \<and> valid_graph g \<and> (\<exists>states. fold_res (replay_event cr \<lparr>mon_manifest = g, mon_joins = gm_joins g\<rparr>) es [] = Inr states)"
proof -
  have checks: "ed_verify cr (snd v) (certificate_payload c) (ec_signature c)" "es \<noteq> []"
    "\<forall>e \<in> set es. ce_run_id e = ec_run_id c \<and> ce_graph_digest e = ec_graph_digest c"
    "\<forall>e \<in> set es. set (ce_causal_parents e) \<subseteq> ce_event_id ` set es" "trace_root cr es = ec_causal_trace_root c"
    using assms by (auto simp: certificate_validate_def list_ex_iff split: if_splits)
  have replay: "check_replay cr c es (Some g) = Inr ()"
    using assms by (cases "check_replay cr c es (Some g)") (auto simp: certificate_validate_def split: if_splits)
  have terminal: "ec_final_decision c = ''accept'' \<Longrightarrow> ce_template_node_id (last es) = ''decision.accept''"
    using assms replay by (auto simp: certificate_validate_def expected_terminal_def split: if_splits)
  from replay obtain m states where m: "graph_digest cr g = ec_graph_digest c" "monitor_init g (gm_joins g) = Inr m"
    "fold_res (replay_event cr m) es [] = Inr states"
    by (auto simp: check_replay_def replay_trace_def bnd_eq_Inr split: if_splits)
  then have "require_valid g = Inr ()" "m = \<lparr>mon_manifest = g, mon_joins = gm_joins g\<rparr>"
    by (auto simp: monitor_init_def bnd_eq_Inr split: if_splits)
  then show ?thesis using checks terminal m by (auto simp: valid_graph_def require_valid_def bnd_eq_Inr split: if_splits)
qed

lemma certificate_replaysD:
  assumes "certificate_validate cr v c es (Some g) = Inr ()" "e \<in> set es"
  shows "\<exists>st. mon_reachable cr \<lparr>mon_manifest = g, mon_joins = gm_joins g\<rparr> st \<and> ce_template_node_id e \<in> active st
         \<and> (\<forall>n p. dget (ts_events st) n = Some p \<longrightarrow>
               (\<exists>x \<in> set es. ce_iteration x = ce_iteration e \<and> ce_template_node_id x = n \<and> ce_payload x = p))"
  using validate_trace [OF assms(1)] replayed_state [OF _ assms(2)] by blast

text \<open>The events of one iteration as moves on the graph: a reservation or a direct transition needs an enabled
  node, which is neither reserved nor completed yet; a completion needs a reservation. No event is skipped.\<close>

inductive legal_trace :: "monitor \<Rightarrow> int \<Rightarrow> causal_event list \<Rightarrow> transition_state \<Rightarrow> bool" for m i where
  start: "initial_state i = Inr st \<Longrightarrow> legal_trace m i [] st"
| reserve: "legal_trace m i es st \<Longrightarrow> dget (ce_payload e) ''lifecycle'' = Some (PStr ''started'')
    \<Longrightarrow> enabled m st (ce_template_node_id e) (ce_payload e) = Inr True
    \<Longrightarrow> legal_trace m i (es @ [e]) (st\<lparr>ts_started := AList.update (ce_template_node_id e) (ce_payload e) (ts_started st)\<rparr>)"
| complete: "legal_trace m i es st \<Longrightarrow> dget (ce_payload e) ''lifecycle'' \<noteq> Some (PStr ''started'')
    \<Longrightarrow> ce_template_node_id e \<in> set (dkeys (ts_started st))
    \<Longrightarrow> legal_trace m i (es @ [e]) (completed_state st (ce_template_node_id e) (ce_payload e))"
| advance: "legal_trace m i es st \<Longrightarrow> dget (ce_payload e) ''lifecycle'' \<noteq> Some (PStr ''started'')
    \<Longrightarrow> enabled m st (ce_template_node_id e) (ce_payload e) = Inr True
    \<Longrightarrow> legal_trace m i (es @ [e]) (completed_state st (ce_template_node_id e) (ce_payload e))"

lemma legal_step:
  assumes "legal_trace m i es st" "replay_step cr m e st = Inr st'"
  shows "legal_trace m i (es @ [e]) st'"
proof -
  consider (reserve) "dget (ce_payload e) ''lifecycle'' = Some (PStr ''started'')" "mon_reserve cr m st (ce_template_node_id e) (ce_payload e) = Inr st'"
    | (complete) "dget (ce_payload e) ''lifecycle'' \<noteq> Some (PStr ''started'')" "mon_complete st (ce_template_node_id e) (ce_payload e) = Inr st'"
    | (advance) "dget (ce_payload e) ''lifecycle'' \<noteq> Some (PStr ''started'')" "mon_advance cr m st (ce_template_node_id e) (ce_payload e) = Inr st'"
    using assms(2) by (auto simp: replay_step_def split: if_splits)
  then show ?thesis
  proof cases
    case reserve
    then show ?thesis using legal_trace.reserve [OF assms(1) reserve(1)] by (auto simp: mon_reserve_def bnd_eq_Inr split: if_splits)
  next
    case complete
    then show ?thesis using legal_trace.complete [OF assms(1) complete(1)] by (auto simp: mon_complete_def split: if_splits)
  next
    case advance
    then show ?thesis using legal_trace.advance [OF assms(1) advance(1)] by (auto simp: mon_advance_def bnd_eq_Inr split: if_splits)
  qed
qed

definition of_iteration :: "int \<Rightarrow> causal_event list \<Rightarrow> causal_event list" where
  "of_iteration i es = filter (\<lambda>e. ce_iteration e = i) es"

lemma replay_legal:
  assumes "fold_res (replay_event cr m) es [] = Inr states"
  shows "case dget states i of None \<Rightarrow> of_iteration i es = [] | Some st \<Rightarrow> legal_trace m i (of_iteration i es) st"
  using assms
proof (induction es arbitrary: states rule: rev_induct)
  case (snoc e es)
  then obtain mid where mid: "fold_res (replay_event cr m) es [] = Inr mid" "replay_event cr m e mid = Inr states"
    by (auto simp: fold_res_snoc bnd_eq_Inr)
  obtain fresh st where s: "initial_state (ce_iteration e) = Inr fresh" "states = AList.update (ce_iteration e) st mid"
    "replay_step cr m e (case dget mid (ce_iteration e) of None \<Rightarrow> fresh | Some st \<Rightarrow> st) = Inr st"
    by (rule replay_eventD [OF mid(2)])
  note ih = snoc.IH [OF mid(1)]
  show ?case
  proof (cases "ce_iteration e = i")
    case True
    have "legal_trace m i (of_iteration i es) (case dget mid i of None \<Rightarrow> fresh | Some st \<Rightarrow> st)"
      using ih s(1) True by (auto split: option.splits intro: legal_trace.start)
    then show ?thesis using legal_step s(2,3) True by (simp add: of_iteration_def)
  next
    case False
    then have "of_iteration i (es @ [e]) = of_iteration i es" by (simp add: of_iteration_def)
    then show ?thesis using ih s(2) False by (simp split: option.splits)
  qed
qed (simp add: of_iteration_def)

text \<open>C32: a certificate that validates together with the graph manifest proves its trace: it is signed, all its
  events are of the certified run and graph and name only causal parents in the trace, and the events of each
  iteration are, one after the other and with none left out, legal moves on the graph from the initial state.
  (The manifest is an optional argument of the validator; without one no event is replayed.)\<close>

theorem certificate_replays:
  assumes "certificate_validate cr v c es (Some g) = Inr ()"
  shows "ed_verify cr (snd v) (certificate_payload c) (ec_signature c) \<and> trace_root cr es = ec_causal_trace_root c
    \<and> graph_digest cr g = ec_graph_digest c
    \<and> (\<forall>e \<in> set es. ce_run_id e = ec_run_id c \<and> ce_graph_digest e = ec_graph_digest c
         \<and> set (ce_causal_parents e) \<subseteq> ce_event_id ` set es
         \<and> (\<exists>st. legal_trace \<lparr>mon_manifest = g, mon_joins = gm_joins g\<rparr> (ce_iteration e) (of_iteration (ce_iteration e) es) st))"
proof -
  note v = validate_trace [OF assms]
  obtain states where states: "fold_res (replay_event cr \<lparr>mon_manifest = g, mon_joins = gm_joins g\<rparr>) es [] = Inr states"
    using v by blast
  have "\<exists>st. legal_trace \<lparr>mon_manifest = g, mon_joins = gm_joins g\<rparr> (ce_iteration e) (of_iteration (ce_iteration e) es) st"
    if "e \<in> set es" for e
  proof -
    have "of_iteration (ce_iteration e) es \<noteq> []" using that by (auto simp: of_iteration_def filter_empty_conv)
    then show ?thesis using replay_legal [OF states, of "ce_iteration e"] by (auto split: option.splits)
  qed
  then show ?thesis using v by blast
qed

text \<open>C33: a certificate whose decision is \<open>accept\<close> and that validates together with a graph manifest which declares
  one join per node contains the evidence for it: for every guard that the accepting node requires, an event of the
  deciding iteration at a node that provides the guard, whose payload satisfies the condition of its edge into the
  barrier. Both conditions are the caller's: the validator takes the manifest as an optional argument, and neither
  it nor the static check of the graph refuses two joins for one node (\<open>twin_join_bypasses_guard\<close>); the compiler
  of contracts declares one (\<open>compiled_acceptance_traced\<close>).\<close>

theorem certified_accept_guards:
  assumes "certificate_validate cr v c es (Some g) = Inr ()" "ec_final_decision c = ''accept''"
    and joins: "joins_distinct \<lparr>mon_manifest = g, mon_joins = gm_joins g\<rparr>" "distinct (map join_node_id (gm_joins g))"
    and n: "n \<in> set (gm_nodes g)" "nd_type n = N_DECISION" "nd_id n = ''decision.accept''" "r \<in> set (nd_required_guards n)"
  shows "\<exists>e \<in> set (gm_edges g). guard_of g (ed_source e) = Inr r
    \<and> (\<exists>x \<in> set es. ce_iteration x = ce_iteration (last es) \<and> ce_template_node_id x = ed_source e
         \<and> condition_matches e [(ed_source e, ce_payload x)] [] = Inr True)"
proof -
  let ?m = "\<lparr>mon_manifest = g, mon_joins = gm_joins g\<rparr>"
  note v = validate_trace [OF assms(1)]
  then have last: "last es \<in> set es" "ce_template_node_id (last es) = ''decision.accept''" using assms(2) by simp_all
  obtain st where st: "mon_reachable cr ?m st" "''decision.accept'' \<in> active st"
    "\<forall>n p. dget (ts_events st) n = Some p \<longrightarrow>
       (\<exists>x \<in> set es. ce_iteration x = ce_iteration (last es) \<and> ce_template_node_id x = n \<and> ce_payload x = p)"
    using certificate_replaysD [OF assms(1) last(1)] last(2) by auto
  obtain e where e: "e \<in> set (gm_edges g)" "guard_of g (ed_source e) = Inr r" "edge_holds st e"
    using accepts_guarded [OF st(1) joins(1), of n r] v n st(2) joins(2) by auto
  obtain p where p: "dget (ts_events st) (ed_source e) = Some p"
    using edge_holds_source [OF e(3)] mon_reachable_inv [OF st(1) joins(1)] dget_None_iff [of "ts_events st" "ed_source e"]
    by (auto simp: mon_inv_def)
  have "condition_matches e [(ed_source e, p)] [] = condition_matches e (ts_events st) []"
    by (rule condition_matches_events) (simp add: p dget_Cons)
  then have "condition_matches e [(ed_source e, p)] [] = Inr True" using e(3) by (simp add: edge_holds_def)
  then show ?thesis using e(1,2) st(3) p by blast
qed

text \<open>Over the graph compiled for a contract, a trace that replays to an acceptance contains, for every guard of
  the contract, a criterion event of the same iteration that says the guard passed.\<close>

theorem compiled_acceptance_traced:
  assumes "fold_res (replay_event cr (control_monitor cr contract cd specs)) es [] = Inr states"
    and "es \<noteq> []" "ce_template_node_id (last es) = ''decision.accept''" "i < length (contract_guards contract)"
  shows "\<exists>x \<in> set es. ce_iteration x = ce_iteration (last es) \<and> ce_template_node_id x = idx ''criterion.'' i
    \<and> dget (ce_payload x) ''passed'' = Some (PBool True)"
proof -
  obtain st where st: "mon_reachable cr (control_monitor cr contract cd specs) st" "''decision.accept'' \<in> active st"
    "\<forall>n p. dget (ts_events st) n = Some p \<longrightarrow>
       (\<exists>x \<in> set es. ce_iteration x = ce_iteration (last es) \<and> ce_template_node_id x = n \<and> ce_payload x = p)"
    using replayed_state [OF assms(1), of "last es"] assms(2,3) by auto
  obtain p where "dget (ts_events st) (idx ''criterion.'' i) = Some p" "dget p ''passed'' = Some (PBool True)"
    using accepted_guard [OF mon_reachable_inv [OF st(1) control_joins_distinct] st(2) assms(4)] by blast
  then show ?thesis using st(3) by blast
qed

section \<open>Issuing and validating\<close>

text \<open>A trace of one run over one graph, closed under its causal parents, that ends as it should.\<close>

definition certifiable :: "certified_run \<Rightarrow> causal_event list \<Rightarrow> bool" where
  "certifiable r es \<longleftrightarrow> es \<noteq> [] \<and> distinct (map ce_event_id es)
     \<and> (\<forall>e \<in> set es. ce_run_id e = rn_run_id r \<and> ce_graph_digest e = rn_graph_digest r
          \<and> set (ce_causal_parents e) \<subseteq> ce_event_id ` set es)
     \<and> (case expected_terminal (rn_final_decision r) of None \<Rightarrow> True | Some t \<Rightarrow> ce_template_node_id (last es) = t)"

text \<open>What a signer issues over a certifiable trace, its own validator accepts, also with the manifest when
  the trace replays on it; the decision and all roots are those of the trace.\<close>

theorem certificate_roundtrip:
  assumes "ed25519_spec cr" "certificate_from_trace cr r es = Inr unsigned" "certificate_issue cr (rn_key_id r, sk) unsigned = Inr c"
    and "certifiable r es" "check_replay cr c es manifest = Inr ()"
  shows "certificate_validate cr (rn_key_id r, ed_public cr sk) c es manifest = Inr ()
    \<and> ec_final_decision c = rn_final_decision r \<and> ec_causal_trace_root c = trace_root cr es"
proof -
  have u: "ec_key_id unsigned = rn_key_id r" "ec_run_id unsigned = rn_run_id r" "ec_graph_digest unsigned = rn_graph_digest r"
    "ec_causal_trace_root unsigned = trace_root cr es" "ec_realised_graph_digest unsigned = realised_graph cr es"
    "ec_final_decision unsigned = rn_final_decision r"
    using assms(2) by (auto simp: certificate_from_trace_def certificate_init_def split: if_splits)
  have c: "c = unsigned\<lparr>ec_signature := ed_sign cr sk (certificate_payload unsigned)\<rparr>"
    using assms(3) by (auto simp: certificate_issue_def certificate_init_def split: if_splits)
  have "certificate_payload c = certificate_payload unsigned" by (simp add: c certificate_payload_def)
  then have "ed_verify cr (ed_public cr sk) (certificate_payload c) (ec_signature c)"
    using assms(1) by (simp add: ed25519_spec_def c)
  then show ?thesis
    using assms(4,5) u by (auto simp: certificate_validate_def c certifiable_def list_ex_iff split: option.splits)
qed

section \<open>A concrete certificate\<close>

definition trace_event :: "string \<times> pydict \<Rightarrow> causal_event" where
  "trace_event x = \<lparr>ce_event_id = fst x, ce_run_id = ''r'', ce_graph_digest = replicate 64 (CHR ''0''), ce_node_instance_id = fst x,
     ce_template_node_id = fst x, ce_event_type = ''e'', ce_iteration = 1, ce_attempt = 1, ce_causal_parents = [],
     ce_input_artifacts = [], ce_output_artifacts = [], ce_authorization_ref = [], ce_receipt_refs = [], ce_payload = snd x,
     ce_occurred_at = utc 0\<rparr>"

definition sample_trace :: "causal_event list" where
  "sample_trace = map trace_event sample_run"

definition sample_certified :: certified_run where
  "sample_certified = (let z = replicate 64 (CHR ''0'') in \<lparr>rn_run_id = ''r'', rn_contract_digest = z, rn_graph_digest = z,
     rn_harness_bundle_digest = z, rn_initial_workspace_digest = z, rn_final_workspace_digest = z, rn_final_decision = ''accept'',
     rn_validator_version = ''v'', rn_key_id = ''k''\<rparr>)"

definition sample_unsigned_certificate :: certificate where
  "sample_unsigned_certificate = (let z = replicate 64 (CHR ''0'') in \<lparr>ec_run_id = ''r'', ec_contract_digest = z, ec_graph_digest = z,
     ec_realised_graph_digest = z, ec_harness_bundle_digest = z, ec_initial_workspace_digest = z, ec_final_workspace_digest = z,
     ec_causal_trace_root = z, ec_authority_proof_root = z, ec_evidence_proof_root = z, ec_final_decision = ''accept'',
     ec_validator_version = ''v'', ec_key_id = ''k'', ec_signature = []\<rparr>)"

definition sample_certificate :: certificate where
  "sample_certificate = sample_unsigned_certificate\<lparr>ec_signature := ed_sign toy_crypto ''sk'' (certificate_payload sample_unsigned_certificate)\<rparr>"

lemma sample_certificate_made:
  "certificate_from_trace toy_crypto sample_certified sample_trace = Inr sample_unsigned_certificate"
  "certificate_issue toy_crypto (rn_key_id sample_certified, ''sk'') sample_unsigned_certificate = Inr sample_certificate"
  by (simp_all add: certificate_from_trace_def certificate_issue_def certificate_init_def certificate_digests_def sample_certified_def
      sample_unsigned_certificate_def sample_certificate_def realised_graph_def sorted_digest_def trace_root_def digest_def toy_crypto_def
      blank_iff py_isspace_def Let_def)

lemma sample_certifiable: "certifiable sample_certified sample_trace"
  by (simp add: certifiable_def sample_trace_def sample_run_def trace_event_def sample_certified_def expected_terminal_def Let_def)

lemma sample_replays: "case replay_trace toy_crypto sample_graph sample_trace of Inr _ \<Rightarrow> True | Inl _ \<Rightarrow> False"
  by code_simp

lemma sample_check: "check_replay toy_crypto sample_certificate sample_trace (Some sample_graph) = Inr ()"
proof -
  have "graph_digest toy_crypto sample_graph = ec_graph_digest sample_certificate"
    by (simp add: graph_digest_def digest_def toy_crypto_def sample_certificate_def sample_unsigned_certificate_def Let_def)
  then show ?thesis using sample_replays by (auto simp: check_replay_def split: sum.splits)
qed

theorem certificate_roundtrip_witness:
  "certificate_validate toy_crypto (''k'', ed_public toy_crypto ''sk'') sample_certificate sample_trace (Some sample_graph) = Inr ()"
  using certificate_roundtrip [OF toy_crypto_spec(2) sample_certificate_made sample_certifiable sample_check]
  by (simp add: sample_certified_def Let_def)

lemma sample_validates:
  "certificate_validate toy_crypto (''k'', ed_public toy_crypto ''sk'') sample_certificate sample_trace (Some sample_graph) = Inr ()"
proof -
  have "certificate_payload sample_certificate = certificate_payload sample_unsigned_certificate"
    by (simp add: sample_certificate_def certificate_payload_def)
  moreover have "trace_root toy_crypto es = replicate 64 (CHR ''0'')" "realised_graph toy_crypto es = replicate 64 (CHR ''0'')" for es
    by (simp_all add: trace_root_def realised_graph_def sorted_digest_def digest_def toy_crypto_def)
  ultimately show ?thesis
    unfolding certificate_validate_def sample_check
    by (simp add: sample_certificate_def sample_unsigned_certificate_def toy_crypto_def Let_def sample_trace_def sample_run_def
        trace_event_def expected_terminal_def)
qed

theorem certificate_replays_witness:
  "\<exists>st. legal_trace sample_monitor 1 sample_trace st"
proof -
  have one: "of_iteration 1 sample_trace = sample_trace"
    by (simp add: of_iteration_def sample_trace_def sample_run_def trace_event_def)
  show ?thesis using certificate_replays [OF sample_validates] one
    by (auto simp: sample_trace_def sample_run_def trace_event_def sample_monitor_def)
qed

theorem certified_accept_guards_witness:
  "\<exists>x \<in> set sample_trace. \<exists>e \<in> set (gm_edges sample_graph). ce_template_node_id x = ed_source e
     \<and> condition_matches e [(ed_source e, ce_payload x)] [] = Inr True"
proof -
  let ?n = "gm_nodes sample_graph ! 8"
  have n: "?n \<in> set (gm_nodes sample_graph)" "nd_type ?n = N_DECISION" "nd_id ?n = ''decision.accept''" "''ok'' \<in> set (nd_required_guards ?n)"
    by (rule sample_node, simp) (simp_all add: sample_graph_def graph_node_def)
  show ?thesis
    using certified_accept_guards [OF sample_validates _ _ _ n] sample_monitor_simps(1,3)
    by (fastforce simp: sample_certificate_def sample_unsigned_certificate_def sample_monitor_def Let_def)
qed

end
