(* ===== verification/Artifacts.thy ===== *)
theory Artifacts
  imports Policy_Rules Canonical
begin

text \<open>
  \<open>src/vloop/proof_artifacts.py\<close>: signed handoffs between graph nodes and the workspace transitions
  they cover. Keys are texts interpreted by the crypto parameter.
\<close>

section \<open>Artifacts\<close>

datatype artifact_type = PLAN | PREPARED_OPERATION | WORKSPACE_TRANSITION | EXECUTION_RESULT | EVALUATION_RECEIPT
  | COMPLETION_PROOF | MEMORY_CLAIM

primrec artifact_type_value :: "artifact_type \<Rightarrow> string" where
  "artifact_type_value PLAN = ''plan''"
| "artifact_type_value PREPARED_OPERATION = ''prepared-operation''"
| "artifact_type_value WORKSPACE_TRANSITION = ''workspace-transition''"
| "artifact_type_value EXECUTION_RESULT = ''execution-result''"
| "artifact_type_value EVALUATION_RECEIPT = ''evaluation-receipt''"
| "artifact_type_value COMPLETION_PROOF = ''completion-proof''"
| "artifact_type_value MEMORY_CLAIM = ''memory-claim''"

record proof_artifact =
  pa_type :: artifact_type
  pa_schema_digest :: string
  pa_producer :: string
  pa_graph_digest :: string
  pa_contract_digest :: string
  pa_workspace_generation :: int
  pa_authority_class :: string
  pa_input_digests :: "(string \<times> string) list"
  pa_validator_results :: "(string \<times> string) list"
  pa_payload_digest :: string
  pa_signer_id :: string
  pa_signature :: string

text \<open>\<open>_sha256\<close>.\<close>

definition require_sha256 :: "string \<Rightarrow> string \<Rightarrow> unit res" where
  "require_sha256 label v = (if \<not> sha256_shape v then Inl (ValueError, label @ '' must be a SHA-256 hex digest'') else Inr ())"

fun require_digests :: "(string \<times> string) list \<Rightarrow> unit res" where
  "require_digests [] = Inr ()"
| "require_digests ((label, v) # rest) = bnd (require_sha256 label v) (\<lambda>_. require_digests rest)"

definition proof_artifact_init :: "proof_artifact \<Rightarrow> proof_artifact res" where
  "proof_artifact_init a =
     (if blank (pa_authority_class a) \<or> blank (pa_signer_id a) \<or> pa_workspace_generation a < 0
      then Inl (ValueError, ''proof-carrying artifacts need authority, signer, and non-negative generation'')
      else bnd (require_digests [(''schema'', pa_schema_digest a), (''producer node instance'', pa_producer a),
          (''graph'', pa_graph_digest a), (''contract'', pa_contract_digest a), (''payload'', pa_payload_digest a)]) (\<lambda>_.
        if list_ex (blank \<circ> fst) (pa_input_digests a)
        then Inl (ValueError, ''proof-carrying artifact inputs are invalid'')
        else bnd (require_digests (map (\<lambda>x. (''input artifact'', snd x)) (pa_input_digests a))) (\<lambda>_.
          if pa_validator_results a = []
            \<or> list_ex (\<lambda>(n, v). blank n \<or> v \<notin> {''pass'', ''fail'', ''inconclusive''}) (pa_validator_results a)
          then Inl (ValueError, ''proof-carrying artifacts require closed validator results'') else Inr a)))"

definition artifact_fields :: "proof_artifact \<Rightarrow> pydict" where
  "artifact_fields a = [(''artifact_type'', PStr (artifact_type_value (pa_type a))), (''schema_digest'', PStr (pa_schema_digest a)),
     (''producer_node_instance_id'', PStr (pa_producer a)), (''graph_digest'', PStr (pa_graph_digest a)),
     (''contract_digest'', PStr (pa_contract_digest a)), (''workspace_generation'', PInt (pa_workspace_generation a)),
     (''authority_class'', PStr (pa_authority_class a)),
     (''input_artifact_digests'', PDict (map (\<lambda>(k, v). (k, PStr v)) (pa_input_digests a))),
     (''validator_results'', PDict (map (\<lambda>(k, v). (k, PStr v)) (pa_validator_results a))),
     (''payload_digest'', PStr (pa_payload_digest a)), (''signer_id'', PStr (pa_signer_id a)), (''signature'', PStr [])]"

definition artifact_digest :: "crypto \<Rightarrow> proof_artifact \<Rightarrow> string" where
  "artifact_digest cr a = digest cr (PDict (artifact_fields a))"

definition artifact_payload :: "proof_artifact \<Rightarrow> string" where
  "artifact_payload a = canonical_json (PDict (artifact_fields a))"

text \<open>A signer: its identity and private key; a verifier: the public keys by identity.\<close>

definition artifact_signer_init :: "string \<Rightarrow> string \<Rightarrow> (string \<times> string) res" where
  "artifact_signer_init i sk = (if blank i then Inl (ValueError, ''artifact signer needs an identity'') else Inr (i, sk))"

definition artifact_sign :: "crypto \<Rightarrow> string \<times> string \<Rightarrow> proof_artifact \<Rightarrow> proof_artifact res" where
  "artifact_sign cr signer a =
     (if pa_signer_id a \<noteq> fst signer then Inl (ValueError, ''artifact signer differs from artifact identity'')
      else proof_artifact_init (a\<lparr>pa_signature := ed_sign cr (snd signer) (artifact_payload a)\<rparr>))"

definition artifact_validate :: "crypto \<Rightarrow> (string \<times> string) list \<Rightarrow> proof_artifact \<Rightarrow> unit res" where
  "artifact_validate cr keys a =
     (case dget keys (pa_signer_id a) of
        None \<Rightarrow> Inl (PermissionError, ''artifact signer is not trusted'')
      | Some key \<Rightarrow> if \<not> ed_verify cr key (artifact_payload a) (pa_signature a)
          then Inl (PermissionError, ''proof-carrying artifact signature is invalid'') else Inr ())"

section \<open>Workspace transitions\<close>

record workspace_transition =
  wt_artifact :: proof_artifact
  wt_parent_snapshot :: string
  wt_output_snapshot :: string
  wt_operation_id :: string
  wt_changed_paths :: "string list"
  wt_manifest_digest :: string
  wt_supervisor_receipt :: string

definition transition_payload :: "workspace_transition \<Rightarrow> pyval" where
  "transition_payload t = PDict [(''parent_snapshot_digest'', PStr (wt_parent_snapshot t)),
     (''output_snapshot_digest'', PStr (wt_output_snapshot t)), (''operation_id'', PStr (wt_operation_id t)),
     (''changed_paths'', PTuple (map PStr (wt_changed_paths t))), (''artifact_manifest_digest'', PStr (wt_manifest_digest t)),
     (''supervisor_receipt_digest'', PStr (wt_supervisor_receipt t))]"

definition bad_path :: "string \<Rightarrow> bool" where
  "bad_path p \<longleftrightarrow> \<not> startswith p ''/'' \<or> has_infix ''/../'' (''/'' @ strip_chr (CHR ''/'') p @ ''/'') \<or> endswith p ''/..''"

definition workspace_transition_init :: "crypto \<Rightarrow> workspace_transition \<Rightarrow> workspace_transition res" where
  "workspace_transition_init cr t =
     (if pa_type (wt_artifact t) \<noteq> WORKSPACE_TRANSITION
      then Inl (ValueError, ''workspace transitions require a workspace-transition artifact'')
      else if blank (wt_operation_id t) \<or> wt_changed_paths t = []
      then Inl (ValueError, ''workspace transitions need an operation and changed paths'')
      else if list_ex bad_path (wt_changed_paths t)
      then Inl (ValueError, ''workspace transition paths must be normalized absolute paths'')
      else bnd (require_digests [(''parent snapshot'', wt_parent_snapshot t), (''output snapshot'', wt_output_snapshot t),
          (''artifact manifest'', wt_manifest_digest t), (''supervisor receipt'', wt_supervisor_receipt t)]) (\<lambda>_.
        if wt_parent_snapshot t = wt_output_snapshot t
        then Inl (ValueError, ''workspace transition must advance to a new snapshot'')
        else if dget (pa_input_digests (wt_artifact t)) ''parent_snapshot'' \<noteq> Some (wt_parent_snapshot t)
        then Inl (ValueError, ''workspace transition does not bind its parent snapshot input'')
        else if pa_payload_digest (wt_artifact t) \<noteq> digest cr (transition_payload t)
        then Inl (ValueError, ''workspace transition fields are not covered by the signed artifact payload'')
        else Inr t))"

section \<open>What the artifact of a transition determines\<close>

lemma transition_payload_inj:
  assumes "canonical_json (transition_payload t) = canonical_json (transition_payload t')"
  shows "wt_parent_snapshot t = wt_parent_snapshot t' \<and> wt_output_snapshot t = wt_output_snapshot t'
    \<and> wt_operation_id t = wt_operation_id t' \<and> wt_changed_paths t = wt_changed_paths t'
    \<and> wt_manifest_digest t = wt_manifest_digest t' \<and> wt_supervisor_receipt t = wt_supervisor_receipt t'"
proof -
  have "wf_json (transition_payload x)" for x by (simp add: transition_payload_def list_all_iff)
  then have "json_norm (transition_payload t) = json_norm (transition_payload t')" using canonical_json_inj assms by blast
  then have f: "map_option json_norm (dget (case transition_payload t of PDict d \<Rightarrow> d) k)
      = map_option json_norm (dget (case transition_payload t' of PDict d \<Rightarrow> d) k)" for k
    unfolding transition_payload_def json_norm_PDict pyval.inject pyval.case by (metis dget_norm_dict)
  note d = f [unfolded transition_payload_def pyval.case]
  have "map PStr (wt_changed_paths t) = map PStr (wt_changed_paths t')"
    using d [of "''changed_paths''"] by (simp add: dget_Cons comp_def)
  then have "wt_changed_paths t = wt_changed_paths t'" by (simp add: inj_map_eq_map inj_def)
  then show ?thesis
    using d [of "''parent_snapshot_digest''"] d [of "''output_snapshot_digest''"] d [of "''operation_id''"]
      d [of "''artifact_manifest_digest''"] d [of "''supervisor_receipt_digest''"] by (simp add: dget_Cons)
qed

text \<open>C34: a signed artifact covers one workspace transition: two accepted transitions with the same artifact have
  the same snapshots, operation, paths, manifest and supervisor receipt, unless their payloads are a hash
  collision; and a transition always advances from the parent the artifact names to another snapshot.\<close>

theorem transition_binding:
  assumes "workspace_transition_init cr t = Inr t" "workspace_transition_init cr t' = Inr t'" "wt_artifact t = wt_artifact t'"
  shows "(t = t' \<or> collision cr (canonical_json (transition_payload t)) (canonical_json (transition_payload t')))
    \<and> wt_parent_snapshot t \<noteq> wt_output_snapshot t
    \<and> dget (pa_input_digests (wt_artifact t)) ''parent_snapshot'' = Some (wt_parent_snapshot t)"
proof -
  have D: "wt_parent_snapshot x \<noteq> wt_output_snapshot x \<and> dget (pa_input_digests (wt_artifact x)) ''parent_snapshot'' = Some (wt_parent_snapshot x)
      \<and> pa_payload_digest (wt_artifact x) = digest cr (transition_payload x)" if "workspace_transition_init cr x = Inr x" for x
    using that by (auto simp: workspace_transition_init_def bnd_def split: if_splits sum.splits)
  have same: "digest cr (transition_payload t) = digest cr (transition_payload t')" using D [OF assms(1)] D [OF assms(2)] assms(3) by simp
  show ?thesis
  proof (cases "canonical_json (transition_payload t) = canonical_json (transition_payload t')")
    case True
    then have "t = t'" using transition_payload_inj [OF True] assms(3) by simp
    then show ?thesis using D [OF assms(1)] by blast
  next
    case False
    then show ?thesis using D [OF assms(1)] same by (simp add: collision_def digest_def)
  qed
qed

definition sample_artifact :: proof_artifact where
  "sample_artifact = (let z = replicate 64 (CHR ''0'') in \<lparr>pa_type = WORKSPACE_TRANSITION, pa_schema_digest = z, pa_producer = z,
     pa_graph_digest = z, pa_contract_digest = z, pa_workspace_generation = 0, pa_authority_class = ''a'',
     pa_input_digests = [(''parent_snapshot'', z)], pa_validator_results = [(''tests'', ''pass'')], pa_payload_digest = z,
     pa_signer_id = ''s'', pa_signature = []\<rparr>)"

definition sample_transition :: "string \<Rightarrow> workspace_transition" where
  "sample_transition p = \<lparr>wt_artifact = sample_artifact, wt_parent_snapshot = replicate 64 (CHR ''0''),
     wt_output_snapshot = replicate 64 (CHR ''1''), wt_operation_id = ''op'', wt_changed_paths = [p],
     wt_manifest_digest = replicate 64 (CHR ''0''), wt_supervisor_receipt = replicate 64 (CHR ''0'')\<rparr>"

lemma sample_transition_ok: "workspace_transition_init toy_crypto (sample_transition ''/a'') = Inr (sample_transition ''/a'')"
  by code_simp

theorem transition_binding_witness:
  "wt_parent_snapshot (sample_transition ''/a'') \<noteq> wt_output_snapshot (sample_transition ''/a'')"
  using transition_binding [OF sample_transition_ok sample_transition_ok] by simp

text \<open>A signed artifact passes the verifier that holds the signer's key.\<close>

theorem artifact_roundtrip:
  assumes "ed25519_spec cr" "artifact_sign cr (i, sk) a = Inr b" "dget keys i = Some (ed_public cr sk)"
  shows "artifact_validate cr keys b = Inr () \<and> artifact_digest cr b = artifact_digest cr a"
proof -
  have b: "pa_signer_id a = i" "b = a\<lparr>pa_signature := ed_sign cr sk (artifact_payload a)\<rparr>"
    using assms(2) by (auto simp: artifact_sign_def proof_artifact_init_def bnd_def split: if_splits sum.splits)
  have f: "artifact_fields b = artifact_fields a" by (simp add: b(2) artifact_fields_def)
  then have p: "artifact_payload b = artifact_payload a" by (simp add: artifact_payload_def)
  show ?thesis using assms(1,3) b p f by (simp add: artifact_validate_def ed25519_spec_def artifact_digest_def)
qed

end
