(* ===== verification/Extended.thy ===== *)
theory Extended
  imports Floats
begin

text \<open>
  Floats with infinities and NaN: the comparisons, subtraction, division and means of the parts of
  the program that compare measurements. Every comparison with NaN is false.
\<close>

datatype xfloat = Fin rat | PosInf | NegInf | NaN

text \<open>The float a text denotes.\<close>

definition xf :: "string \<Rightarrow> xfloat" where
  "xf t = (case float_value t of
     Some q \<Rightarrow> Fin q
   | None \<Rightarrow> if t = ''inf'' then PosInf else if t = ''-inf'' then NegInf else NaN)"

text \<open>A real result rounded to a float; it overflows from \<open>2 ^ 1024\<close> on.\<close>

definition overflow :: rat where
  "overflow = (2 ^ 32) ^ 32"

definition xround :: "rat \<Rightarrow> xfloat" where
  "xround q = (let r = round64 q in if overflow \<le> r then PosInf else if r \<le> - overflow then NegInf else Fin r)"

fun xf_lt :: "xfloat \<Rightarrow> xfloat \<Rightarrow> bool" where
  "xf_lt (Fin a) (Fin b) = (a < b)"
| "xf_lt (Fin a) PosInf = True"
| "xf_lt NegInf (Fin b) = True"
| "xf_lt NegInf PosInf = True"
| "xf_lt _ _ = False"

definition xf_le :: "xfloat \<Rightarrow> xfloat \<Rightarrow> bool" where
  "xf_le a b \<longleftrightarrow> xf_lt a b \<or> a = b \<and> a \<noteq> NaN"

fun xf_sub :: "xfloat \<Rightarrow> xfloat \<Rightarrow> xfloat" where
  "xf_sub (Fin a) (Fin b) = xround (a - b)"
| "xf_sub NaN _ = NaN"
| "xf_sub _ NaN = NaN"
| "xf_sub (Fin a) PosInf = NegInf"
| "xf_sub (Fin a) NegInf = PosInf"
| "xf_sub PosInf PosInf = NaN"
| "xf_sub PosInf _ = PosInf"
| "xf_sub NegInf NegInf = NaN"
| "xf_sub NegInf _ = NegInf"

primrec xf_neg :: "xfloat \<Rightarrow> xfloat" where
  "xf_neg (Fin a) = Fin (- a)"
| "xf_neg PosInf = NegInf"
| "xf_neg NegInf = PosInf"
| "xf_neg NaN = NaN"

text \<open>
  \<open>statistics.fmean\<close>: \<open>math.fsum\<close> rounds the exact sum once, the quotient is rounded again. \<open>fsum\<close>
  raises \<open>ValueError\<close> when both infinities occur, \<open>OverflowError\<close> when a finite sum overflows (sums that
  only overflow on the way are outside the model), and
  \<open>fmean\<close> raises \<open>StatisticsError\<close> (a \<open>ValueError\<close>) without data.
\<close>

definition finite_part :: "xfloat list \<Rightarrow> rat" where
  "finite_part xs = sum_list (map (\<lambda>x. case x of Fin q \<Rightarrow> q | _ \<Rightarrow> 0) xs)"

definition fsum :: "xfloat list \<Rightarrow> xfloat res" where
  "fsum xs =
     (if PosInf \<in> set xs \<and> NegInf \<in> set xs then Inl (ValueError, ''-inf + inf in fsum'')
      else if NaN \<in> set xs then Inr NaN
      else if PosInf \<in> set xs then Inr PosInf
      else if NegInf \<in> set xs then Inr NegInf
      else case xround (finite_part xs) of
        Fin q \<Rightarrow> Inr (Fin q)
      | _ \<Rightarrow> Inl (OtherException, ''intermediate overflow in fsum''))"

fun xf_over :: "xfloat \<Rightarrow> nat \<Rightarrow> xfloat" where
  "xf_over (Fin q) n = xround (q / of_nat n)"
| "xf_over x n = x"

definition fmean :: "xfloat list \<Rightarrow> xfloat res" where
  "fmean xs = (if xs = [] then Inl (ValueError, ''fmean requires at least one data point'')
     else bnd (fsum xs) (\<lambda>s. Inr (xf_over s (length xs))))"

text \<open>\<open>max(items, key=key)\<close>: the first of the items none of which has a greater key.\<close>

definition max_first :: "('a \<Rightarrow> xfloat) \<Rightarrow> 'a \<Rightarrow> 'a list \<Rightarrow> 'a" where
  "max_first key x xs = fold (\<lambda>y best. if xf_lt (key best) (key y) then y else best) xs x"

lemma max_first_mem: "max_first key x xs \<in> set (x # xs)"
proof (induction xs arbitrary: x)
  case (Cons y ys)
  let ?b = "if xf_lt (key x) (key y) then y else x"
  have "max_first key x (y # ys) = max_first key ?b ys" by (simp add: max_first_def)
  then show ?case using Cons.IH [of ?b] by auto
qed (simp add: max_first_def)

lemma xf_lt_irrefl [simp]: "\<not> xf_lt a a"
  by (cases a) auto

lemma xf_lt_trans: "xf_lt a b \<Longrightarrow> xf_lt b c \<Longrightarrow> xf_lt a c"
  by (cases a; cases b; cases c) auto

lemma xf_lt_NaN [simp]: "\<not> xf_lt NaN b" "\<not> xf_lt a NaN"
  by (cases b) (cases a; simp)+

text \<open>With no NaN among the keys the result is a greatest item.\<close>

lemma max_first_max:
  assumes "NaN \<notin> key ` set (x # xs)" "y \<in> set (x # xs)"
  shows "\<not> xf_lt (key (max_first key x xs)) (key y)"
  using assms
proof (induction xs arbitrary: x y)
  case (Cons z zs)
  let ?b = "if xf_lt (key x) (key z) then z else x"
  have m: "max_first key x (z # zs) = max_first key ?b zs" by (simp add: max_first_def)
  have n: "NaN \<notin> key ` set (?b # zs)" using Cons.prems(1) by auto
  have tot: "xf_lt a b \<or> xf_lt b a \<or> a = b" if "a \<noteq> NaN" "b \<noteq> NaN" for a b
    using that by (cases a; cases b) auto
  show ?case
  proof (cases "y \<in> set (?b # zs)")
    case True
    show ?thesis unfolding m by (rule Cons.IH [OF n True])
  next
    case False
    then have le: "\<not> xf_lt (key ?b) (key y)"
      using Cons.prems(2) xf_lt_trans [of "key x" "key z" "key x"] by (auto split: if_splits)
    have b: "\<not> xf_lt (key (max_first key ?b zs)) (key ?b)" by (rule Cons.IH [OF n]) simp
    have "key (max_first key ?b zs) \<in> key ` set (?b # zs)" by (rule imageI [OF max_first_mem])
    then have "key (max_first key ?b zs) \<noteq> NaN" using n by metis
    then show ?thesis unfolding m
      using le b tot [of "key ?b" "key y"] tot [of "key (max_first key ?b zs)" "key ?b"] Cons.prems n
        xf_lt_trans by (metis image_eqI list.set_intros(1))
  qed
qed (simp add: max_first_def)

end
