(* ===== verification/Delegation.thy ===== *)
theory Delegation
  imports Extended Ledger "HOL-Library.Sublist"
begin

text \<open>
  \<open>src/vloop/delegation.py\<close>: the gate that admits a specialist only on evidence of a verified gain,
  and the dispatcher. Floats are their texts, a specialist is a function on a world that raises (the
  name of the exception type) or answers, clocks are arguments.
\<close>

section \<open>Evidence and the gate\<close>

record delegation_evidence =
  de_task_kind :: string
  de_specialist_role :: string
  de_verified :: bool
  de_single_rate :: string
  de_specialist_rate :: string
  de_total_cost :: string

definition unit_rate :: "string \<Rightarrow> bool" where
  "unit_rate t \<longleftrightarrow> xf_le (Fin 0) (xf t) \<and> xf_le (xf t) (Fin 1)"

definition delegation_evidence_init :: "delegation_evidence \<Rightarrow> delegation_evidence res" where
  "delegation_evidence_init e =
     (if \<not> unit_rate (de_single_rate e) then Inl (ValueError, ''invalid single-agent success rate'')
      else if \<not> unit_rate (de_specialist_rate e) then Inl (ValueError, ''invalid specialist success rate'')
      else if xf_le (xf (de_total_cost e)) (Fin 0) then Inl (ValueError, ''measured total cost must be positive'')
      else Inr e)"

record delegation_decision =
  dd_allowed :: bool
  dd_reason :: string

record delegation_gate =
  dg_evidence :: "delegation_evidence list"
  dg_minimum_gain :: string

definition delegation_gate_init :: "delegation_evidence list \<Rightarrow> string \<Rightarrow> delegation_gate res" where
  "delegation_gate_init es gain =
     (if \<not> (xf_lt (Fin 0) (xf gain) \<and> xf_le (xf gain) (Fin 1)) then Inl (ValueError, ''minimum_gain must be in (0, 1]'')
      else Inr \<lparr>dg_evidence = es, dg_minimum_gain = gain\<rparr>)"

definition evidence_gain :: "delegation_evidence \<Rightarrow> xfloat" where
  "evidence_gain e = xf_sub (xf (de_specialist_rate e)) (xf (de_single_rate e))"

definition matching_evidence :: "delegation_gate \<Rightarrow> string \<Rightarrow> string \<Rightarrow> delegation_evidence list" where
  "matching_evidence g kind role =
     filter (\<lambda>e. de_task_kind e = kind \<and> de_specialist_role e = role \<and> de_verified e) (dg_evidence g)"

definition gate_decide :: "delegation_gate \<Rightarrow> string \<Rightarrow> string \<Rightarrow> string \<Rightarrow> delegation_decision" where
  "gate_decide g kind role budget =
     (case matching_evidence g kind role of
        [] \<Rightarrow> \<lparr>dd_allowed = False, dd_reason = ''no verified delegation experiment for this task and role''\<rparr>
      | x # xs \<Rightarrow>
          let best = max_first evidence_gain x xs in
          if xf_lt (evidence_gain best) (xf (dg_minimum_gain g))
          then \<lparr>dd_allowed = False, dd_reason = ''specialist did not show sufficient same-budget improvement''\<rparr>
          else if xf_lt (xf budget) (xf (de_total_cost best))
          then \<lparr>dd_allowed = False, dd_reason = ''requested budget is below the verified specialist budget''\<rparr>
          else \<lparr>dd_allowed = True, dd_reason = ''verified same-budget specialist improvement''\<rparr>)"

section \<open>Tasks, results and dispatching\<close>

record specialist_task =
  sp_task_kind :: string
  sp_specialist_role :: string
  sp_objective :: string
  sp_context :: "(string \<times> string) list"
  sp_total_budget :: string

definition specialist_task_init :: "specialist_task \<Rightarrow> specialist_task res" where
  "specialist_task_init t =
     (if blank (sp_task_kind t) \<or> blank (sp_specialist_role t) \<or> blank (sp_objective t)
      then Inl (ValueError, ''specialist task needs task kind, role, and objective'')
      else if xf_le (xf (sp_total_budget t)) (Fin 0) then Inl (ValueError, ''specialist task budget must be positive'')
      else Inr t)"

definition text_dict :: "(string \<times> string) list \<Rightarrow> pyval" where
  "text_dict d = PDict (map (\<lambda>(k, v). (k, PStr v)) d)"

definition specialist_task_digest :: "crypto \<Rightarrow> specialist_task \<Rightarrow> string" where
  "specialist_task_digest cr t = digest cr (PDict
     [(''task_kind'', PStr (sp_task_kind t)), (''specialist_role'', PStr (sp_specialist_role t)),
      (''objective'', PStr (sp_objective t)), (''context'', text_dict (sp_context t)), (''total_budget'', PFloat (sp_total_budget t))])"

record specialist_result =
  sr_summary :: string
  sr_evidence :: "(string \<times> string) list"
  sr_measured_cost :: string

definition specialist_result_init :: "specialist_result \<Rightarrow> specialist_result res" where
  "specialist_result_init r =
     (if blank (sr_summary r) then Inl (ValueError, ''specialist result needs a summary'')
      else if xf_le (xf (sr_measured_cost r)) (Fin 0) then Inl (ValueError, ''specialist cost must be positive'') else Inr r)"

record specialist_dispatch =
  sd_allowed :: bool
  sd_invoked :: bool
  sd_reason :: string
  sd_result :: "specialist_result option"

text \<open>A specialist acts on the world and may look at the shared ledger as it stands when it is called;
  \<open>Inl\<close> is the name of the exception type it raises.\<close>

type_synonym 'w specialist = "specialist_task \<Rightarrow> ledger option \<Rightarrow> 'w \<Rightarrow> (string + specialist_result) \<times> 'w"

record 'w dispatcher =
  dp_gate :: delegation_gate
  dp_specialists :: "(string \<times> 'w specialist) list"

definition dispatcher_init :: "delegation_gate \<Rightarrow> (string \<times> 'w specialist) list \<Rightarrow> 'w dispatcher res" where
  "dispatcher_init g sps =
     (if sps = [] then Inl (ValueError, ''at least one server-registered specialist is required'')
      else if list_ex (blank \<circ> fst) sps then Inl (ValueError, ''specialist roles must not be blank'')
      else Inr \<lparr>dp_gate = g, dp_specialists = sps\<rparr>)"

text \<open>\<open>_record\<close>: without a ledger nothing is recorded.\<close>

definition record_dispatch :: "crypto \<Rightarrow> string \<Rightarrow> specialist_task \<Rightarrow> pydict \<Rightarrow> int \<Rightarrow> ledger option \<Rightarrow> unit res \<times> ledger option" where
  "record_dispatch cr ty t payload now db =
     (case db of
        None \<Rightarrow> (Inr (), None)
      | Some l \<Rightarrow>
          (case ledger_append cr ty (dmerge [(''task_digest'', PStr (specialist_task_digest cr t)), (''task_kind'', PStr (sp_task_kind t)),
              (''specialist_role'', PStr (sp_specialist_role t))] payload) now l of
             (Inl e, l') \<Rightarrow> (Inl e, Some l')
           | (Inr _, l') \<Rightarrow> (Inr (), Some l')))"

text \<open>The answer of an invoked specialist; \<open>reason\<close> is that of the decision.\<close>

definition finish_dispatch :: "crypto \<Rightarrow> specialist_task \<Rightarrow> string \<Rightarrow> int \<Rightarrow> string + specialist_result \<Rightarrow> ledger option
    \<Rightarrow> specialist_dispatch res \<times> ledger option" where
  "finish_dispatch cr t reason now answer db =
     (case answer of
        Inl err \<Rightarrow>
          (case record_dispatch cr ''specialist.dispatch.failed'' t [(''error_type'', PStr err)] now db of
             (x, db') \<Rightarrow> (bnd x (\<lambda>_. Inr \<lparr>sd_allowed = True, sd_invoked = True, sd_reason = ''specialist failed'', sd_result = None\<rparr>), db'))
      | Inr r \<Rightarrow>
          if xf_lt (xf (sp_total_budget t)) (xf (sr_measured_cost r))
          then (case record_dispatch cr ''specialist.dispatch.rejected'' t
                  [(''reason'', PStr ''specialist exceeded total budget''), (''measured_cost'', PFloat (sr_measured_cost r))] now db of
             (x, db') \<Rightarrow> (bnd x (\<lambda>_. Inr \<lparr>sd_allowed = True, sd_invoked = True,
                sd_reason = ''specialist exceeded total budget'', sd_result = None\<rparr>), db'))
          else (case record_dispatch cr ''specialist.dispatch.completed'' t
                  [(''measured_cost'', PFloat (sr_measured_cost r)), (''summary_digest'', PStr (digest cr (PStr (sr_summary r)))),
                   (''evidence_digest'', PStr (digest cr (text_dict (sr_evidence r)))), (''advisory_only'', PBool True)] now db of
             (x, db') \<Rightarrow> (bnd x (\<lambda>_. Inr \<lparr>sd_allowed = True, sd_invoked = True, sd_reason = reason, sd_result = Some r\<rparr>), db')))"

definition dispatch :: "crypto \<Rightarrow> 'w dispatcher \<Rightarrow> specialist_task \<Rightarrow> int \<Rightarrow> int \<Rightarrow> 'w \<Rightarrow> ledger option
    \<Rightarrow> specialist_dispatch res \<times> 'w \<times> ledger option" where
  "dispatch cr d t now later w db =
     (let decision = gate_decide (dp_gate d) (sp_task_kind t) (sp_specialist_role t) (sp_total_budget t);
          denied = (\<lambda>reason. case record_dispatch cr ''specialist.dispatch.denied'' t [(''reason'', PStr reason)] now db of
            (x, db') \<Rightarrow> (bnd x (\<lambda>_. Inr \<lparr>sd_allowed = False, sd_invoked = False, sd_reason = reason, sd_result = None\<rparr>), w, db')) in
      case dget (dp_specialists d) (sp_specialist_role t) of
        None \<Rightarrow> denied ''specialist role is not server-registered''
      | Some specialist \<Rightarrow>
          if \<not> dd_allowed decision then denied (dd_reason decision)
          else case record_dispatch cr ''specialist.dispatch.started'' t [] now db of
            (Inl e, db') \<Rightarrow> (Inl e, w, db')
          | (Inr _, db') \<Rightarrow>
              (case specialist t db' w of
                 (answer, w') \<Rightarrow>
                   (case finish_dispatch cr t (dd_reason decision) later answer db' of (x, db'') \<Rightarrow> (x, w', db''))))"

section \<open>Properties\<close>

text \<open>The evidence a specialist may be invoked on.\<close>

definition delegation_justified :: "delegation_gate \<Rightarrow> specialist_task \<Rightarrow> delegation_evidence \<Rightarrow> bool" where
  "delegation_justified g t e \<longleftrightarrow> e \<in> set (dg_evidence g) \<and> de_verified e \<and> de_task_kind e = sp_task_kind t
     \<and> de_specialist_role e = sp_specialist_role t
     \<and> \<not> xf_lt (evidence_gain e) (xf (dg_minimum_gain g)) \<and> \<not> xf_lt (xf (sp_total_budget t)) (xf (de_total_cost e))"

lemma gate_decide_justified:
  assumes "dd_allowed (gate_decide g (sp_task_kind t) (sp_specialist_role t) (sp_total_budget t))"
  shows "\<exists>e. delegation_justified g t e"
proof -
  let ?ms = "matching_evidence g (sp_task_kind t) (sp_specialist_role t)"
  obtain x xs where ms: "?ms = x # xs" using assms by (cases ?ms) (auto simp: gate_decide_def)
  have "max_first evidence_gain x xs \<in> set ?ms" using max_first_mem ms by metis
  then have "delegation_justified g t (max_first evidence_gain x xs)"
    using assms ms by (auto simp: gate_decide_def matching_evidence_def delegation_justified_def Let_def split: if_splits)
  then show ?thesis by blast
qed

lemma ledger_append_extends:
  assumes "ledger_append cr ty d now l = (x, l')"
  shows "\<exists>es. lg_events l' = lg_events l @ es \<and> (\<not> isl x \<longrightarrow> map lr_event_type es = [ty])"
  using assms by (cases "lg_head l") (auto simp: ledger_append_def Let_def split: if_splits)

lemma record_dispatch_extends:
  assumes "record_dispatch cr ty t p now (Some l) = (x, db')"
  shows "\<exists>l' es. db' = Some l' \<and> lg_events l' = lg_events l @ es \<and> (x = Inr () \<longrightarrow> map lr_event_type es = [ty])"
proof -
  obtain d y l' where a: "ledger_append cr ty d now l = (y, l')"
    "(x, db') = (case y of Inl e \<Rightarrow> (Inl e, Some l') | Inr _ \<Rightarrow> (Inr (), Some l'))"
    using assms by (auto simp: record_dispatch_def split: prod.splits)
  then show ?thesis using ledger_append_extends [OF a(1)] by (auto split: sum.splits)
qed

lemma finish_dispatch_extends:
  assumes "finish_dispatch cr t reason now answer (Some l) = (x, db')"
  shows "\<exists>l' es. db' = Some l' \<and> lg_events l' = lg_events l @ es"
proof -
  have rd: "\<exists>l' es. snd (record_dispatch cr ty t p now (Some l)) = Some l' \<and> lg_events l' = lg_events l @ es" for ty p
    using record_dispatch_extends [of cr ty t p now l] by (metis prod.collapse)
  have "\<exists>ty p. db' = snd (record_dispatch cr ty t p now (Some l))"
    using assms by (auto simp: finish_dispatch_def split: sum.splits prod.splits if_splits) (metis snd_conv)+
  then show ?thesis using rd by metis
qed

lemma finish_dispatch_result:
  assumes "finish_dispatch cr t reason now answer db = (Inr d, db')"
  shows "sd_invoked d \<and> (\<forall>r. sd_result d = Some r \<longrightarrow> answer = Inr r \<and> \<not> xf_lt (xf (sp_total_budget t)) (xf (sr_measured_cost r)))"
  using assms by (auto simp: finish_dispatch_def bnd_eq_Inr split: sum.splits prod.splits if_splits)

lemma record_dispatch_none [simp]: "record_dispatch cr ty t p now None = (Inr (), None)"
  by (simp add: record_dispatch_def)

text \<open>A ledger that records \<open>specialist.dispatch.started\<close> next, and one that only grew.\<close>

definition records_start :: "ledger option \<Rightarrow> ledger option \<Rightarrow> bool" where
  "records_start db db' \<longleftrightarrow> (case db of None \<Rightarrow> db' = None
     | Some l \<Rightarrow> (case db' of None \<Rightarrow> False
         | Some l' \<Rightarrow> butlast (lg_events l') = lg_events l \<and> lg_events l' \<noteq> []
             \<and> lr_event_type (last (lg_events l')) = ''specialist.dispatch.started''))"

definition extends :: "ledger option \<Rightarrow> ledger option \<Rightarrow> bool" where
  "extends db db' \<longleftrightarrow> (case db of None \<Rightarrow> db' = None
     | Some l \<Rightarrow> (case db' of None \<Rightarrow> False | Some l' \<Rightarrow> prefix (lg_events l) (lg_events l')))"

lemma record_started:
  assumes "record_dispatch cr ''specialist.dispatch.started'' t p now db = (Inr (), db')"
  shows "records_start db db'"
proof (cases db)
  case (Some l)
  then obtain l' es where "db' = Some l'" "lg_events l' = lg_events l @ es" "map lr_event_type es = [''specialist.dispatch.started'']"
    using record_dispatch_extends assms by metis
  then show ?thesis using Some by (auto simp: records_start_def map_eq_Cons_conv)
qed (use assms in \<open>simp add: records_start_def\<close>)

lemma finish_extends:
  assumes "finish_dispatch cr t reason now answer db = (x, db')"
  shows "extends db db'"
proof (cases db)
  case None
  then show ?thesis using assms by (auto simp: extends_def finish_dispatch_def split: sum.splits if_splits)
next
  case (Some l)
  then show ?thesis using finish_dispatch_extends [of cr t reason now answer l x db'] assms by (auto simp: extends_def)
qed

lemma dispatch_cases:
  assumes "dispatch cr d t now later w db = (x, w', db')"
  shows "(w' = w \<and> (\<forall>r. x = Inr r \<longrightarrow> \<not> sd_invoked r \<and> sd_result r = None))
    \<or> (\<exists>specialist answer at_call. dget (dp_specialists d) (sp_specialist_role t) = Some specialist
         \<and> dd_allowed (gate_decide (dp_gate d) (sp_task_kind t) (sp_specialist_role t) (sp_total_budget t))
         \<and> record_dispatch cr ''specialist.dispatch.started'' t [] now db = (Inr (), at_call)
         \<and> specialist t at_call w = (answer, w')
         \<and> (\<exists>reason. finish_dispatch cr t reason later answer at_call = (x, db')))"
proof -
  let ?g = "gate_decide (dp_gate d) (sp_task_kind t) (sp_specialist_role t) (sp_total_budget t)"
  show ?thesis
  proof (cases "\<exists>specialist. dget (dp_specialists d) (sp_specialist_role t) = Some specialist \<and> dd_allowed ?g")
    case False
    then show ?thesis using assms
      by (auto simp: dispatch_def Let_def bnd_eq_Inr split: option.splits if_splits prod.splits)
  next
    case True
    then obtain specialist where sp: "dget (dp_specialists d) (sp_specialist_role t) = Some specialist" "dd_allowed ?g" by blast
    obtain y db1 where r: "record_dispatch cr ''specialist.dispatch.started'' t [] now db = (y, db1)" by fastforce
    obtain answer w1 where a: "specialist t db1 w = (answer, w1)" by fastforce
    show ?thesis
    proof (cases y)
      case (Inl e)
      then show ?thesis using assms sp r by (auto simp: dispatch_def Let_def)
    next
      case (Inr u)
      obtain z db2 where f: "finish_dispatch cr t (dd_reason ?g) later answer db1 = (z, db2)" by fastforce
      have "x = z \<and> w' = w1 \<and> db' = db2" using assms sp r Inr a f by (simp add: dispatch_def Let_def)
      then show ?thesis using sp r Inr a f by auto
    qed
  qed
qed

text \<open>C35: a specialist runs only under the gate. Whatever a dispatch answers or raises, when it reports a specialist
  as invoked or the world has changed, the specialist is the one registered for the role; some verified experiment of
  the same task kind and role shows the minimum gain at a cost the budget covers; the specialist was called, and so
  changed the world, when \<open>specialist.dispatch.started\<close> was already the last event of the ledger it could see; later
  records only extend that ledger; and a returned result never cost more than the budget. (A dispatcher built without
  a ledger records nothing; the rest holds for it too.)\<close>

theorem dispatch_gated:
  assumes "dispatch cr d t now later w db = (x, w', db')" and "w' \<noteq> w \<or> (\<exists>r. x = Inr r \<and> (sd_invoked r \<or> sd_result r \<noteq> None))"
  shows "\<exists>specialist answer e at_call. dget (dp_specialists d) (sp_specialist_role t) = Some specialist
    \<and> delegation_justified (dp_gate d) t e
    \<and> records_start db at_call \<and> specialist t at_call w = (answer, w') \<and> extends at_call db'
    \<and> (\<forall>r a. x = Inr r \<longrightarrow> sd_result r = Some a \<longrightarrow> answer = Inr a \<and> \<not> xf_lt (xf (sp_total_budget t)) (xf (sr_measured_cost a)))"
proof -
  obtain specialist answer at_call reason where s: "dget (dp_specialists d) (sp_specialist_role t) = Some specialist"
    "dd_allowed (gate_decide (dp_gate d) (sp_task_kind t) (sp_specialist_role t) (sp_total_budget t))"
    "record_dispatch cr ''specialist.dispatch.started'' t [] now db = (Inr (), at_call)"
    "specialist t at_call w = (answer, w')" "finish_dispatch cr t reason later answer at_call = (x, db')"
    using dispatch_cases [OF assms(1)] assms(2) by auto
  have "\<forall>r a. x = Inr r \<longrightarrow> sd_result r = Some a \<longrightarrow> answer = Inr a \<and> \<not> xf_lt (xf (sp_total_budget t)) (xf (sr_measured_cost a))"
    using finish_dispatch_result s(5) by blast
  then show ?thesis using s(1,4) gate_decide_justified [OF s(2)] record_started [OF s(3)] finish_extends [OF s(5)] by blast
qed

text \<open>A budget that is not a number is no bound: the task is accepted, no measured cost exceeds it.\<close>

lemma nan_budget_unbounded:
  assumes "xf (sp_total_budget t) = NaN"
  shows "finish_dispatch cr t reason now (Inr r) None
    = (Inr \<lparr>sd_allowed = True, sd_invoked = True, sd_reason = reason, sd_result = Some r\<rparr>, None)"
    "\<not> blank (sp_task_kind t) \<Longrightarrow> \<not> blank (sp_specialist_role t) \<Longrightarrow> \<not> blank (sp_objective t) \<Longrightarrow> specialist_task_init t = Inr t"
  using assms by (simp_all add: finish_dispatch_def record_dispatch_def specialist_task_init_def xf_le_def)

section \<open>A concrete dispatch\<close>

definition specialist_gate :: delegation_gate where
  "specialist_gate = \<lparr>dg_evidence = [\<lparr>de_task_kind = ''fix'', de_specialist_role = ''tester'', de_verified = True, de_single_rate = ''0.5'',
     de_specialist_rate = ''0.75'', de_total_cost = ''2.0''\<rparr>], dg_minimum_gain = ''0.05''\<rparr>"

text \<open>It counts its calls, and the events it finds in the ledger.\<close>

definition sample_specialist :: "string \<Rightarrow> nat specialist" where
  "sample_specialist cost t db w = (Inr \<lparr>sr_summary = ''ok'', sr_evidence = [], sr_measured_cost = cost\<rparr>, w + 1 + (case db of None \<Rightarrow> 0 | Some l \<Rightarrow> length (lg_events l)))"

definition sample_dispatcher :: "string \<Rightarrow> nat dispatcher" where
  "sample_dispatcher cost = \<lparr>dp_gate = specialist_gate, dp_specialists = [(''tester'', sample_specialist cost)]\<rparr>"

definition sample_task :: "string \<Rightarrow> specialist_task" where
  "sample_task budget = \<lparr>sp_task_kind = ''fix'', sp_specialist_role = ''tester'', sp_objective = ''o'', sp_context = [], sp_total_budget = budget\<rparr>"

definition text_crypto :: crypto where
  "text_crypto = toy_crypto\<lparr>sha256_hex := \<lambda>s. s\<rparr>"

definition sample_dispatch :: "string \<Rightarrow> string \<Rightarrow> specialist_dispatch res \<times> nat \<times> ledger option" where
  "sample_dispatch budget cost =
     dispatch text_crypto (sample_dispatcher cost) (sample_task budget) 0 0 0 (Some (ledger_open empty_ledger))"

lemma first_append:
  assumes "lg_head l = Some h" "lg_events l = []"
  shows "\<exists>e. ledger_append text_crypto ty p now l = (Inr (lr_event_hash e), snd (ledger_append text_crypto ty p now l))
    \<and> lg_events (snd (ledger_append text_crypto ty p now l)) = [e] \<and> lr_event_type e = ty
    \<and> lg_head (snd (ledger_append text_crypto ty p now l)) = Some (lr_event_hash e)
    \<and> (\<exists>tm par. lr_event_hash e = canonical_json (event_body ty tm (json_norm (PDict p)) par))"
  using assms by (auto simp: ledger_append_def Let_def digest_def text_crypto_def)

lemma event_body_wf: "wf_json (PDict p) \<Longrightarrow> wf_json (event_body ty tm (json_norm (PDict p)) par)"
  using wf_json_norm [of "PDict p"] by (simp add: event_body_def)

lemma second_append:
  assumes "lg_head l = Some h" "lg_events l = [e]" "lr_event_hash e = canonical_json (event_body ty' tm (json_norm (PDict p')) par)"
    and "ty \<noteq> ty'" "wf_json (PDict p)" "wf_json (PDict p')"
  shows "\<exists>x. fst (ledger_append text_crypto ty p now l) = Inr x"
proof -
  have "canonical_json (event_body ty tm2 (json_norm (PDict p)) par2) \<noteq> lr_event_hash e" for tm2 par2
  proof
    assume "canonical_json (event_body ty tm2 (json_norm (PDict p)) par2) = lr_event_hash e"
    then have "json_norm (event_body ty tm2 (json_norm (PDict p)) par2) = json_norm (event_body ty' tm (json_norm (PDict p')) par)"
      unfolding assms(3) by (rule canonical_json_inj [OF event_body_wf [OF assms(5)] event_body_wf [OF assms(6)]])
    then show False using event_body_norm assms(4) by metis
  qed
  then show ?thesis using assms(1,2) by (auto simp: ledger_append_def Let_def digest_def text_crypto_def)
qed

definition sample_payload :: "string \<Rightarrow> pydict \<Rightarrow> pydict" where
  "sample_payload budget p = dmerge [(''task_digest'', PStr (specialist_task_digest text_crypto (sample_task budget))),
     (''task_kind'', PStr ''fix''), (''specialist_role'', PStr ''tester'')] p"

lemma text_float: "float_text ''2.5''"
  by code_simp

lemma sample_dispatched:
  "\<exists>r l. sample_dispatch ''3.0'' ''2.5'' = (Inr r, 2, Some l) \<and> sd_invoked r"
proof -
  let ?l = "ledger_open empty_ledger"
  let ?done = "[(''measured_cost'', PFloat ''2.5''), (''summary_digest'', PStr (digest text_crypto (PStr ''ok''))),
    (''evidence_digest'', PStr (digest text_crypto (text_dict []))), (''advisory_only'', PBool True)]"
  have ok: "dd_allowed (gate_decide specialist_gate ''fix'' ''tester'' ''3.0'')" "\<not> xf_lt (xf ''3.0'') (xf ''2.5'')" by code_simp+
  have open_ledger: "lg_head ?l = Some zero_hash" "lg_events ?l = []" by code_simp+
  obtain e l1 tm par where a: "ledger_append text_crypto ''specialist.dispatch.started'' (sample_payload ''3.0'' []) 0 ?l = (Inr (lr_event_hash e), l1)"
    "lg_events l1 = [e]" "lg_head l1 = Some (lr_event_hash e)"
    "lr_event_hash e = canonical_json (event_body ''specialist.dispatch.started'' tm (json_norm (PDict (sample_payload ''3.0'' []))) par)"
    using first_append [OF open_ledger, of "''specialist.dispatch.started''" "sample_payload ''3.0'' []" 0] by metis
  have wf: "wf_json (PDict (sample_payload ''3.0'' []))" "wf_json (PDict (sample_payload ''3.0'' ?done))"
    by (simp_all add: sample_payload_def dmerge_def text_float)
  have differ: "''specialist.dispatch.completed'' \<noteq> ''specialist.dispatch.started''" by simp
  obtain x l2 where b: "ledger_append text_crypto ''specialist.dispatch.completed'' (sample_payload ''3.0'' ?done) 0 l1 = (Inr x, l2)"
    using second_append [OF a(3,2,4) _ wf(2,1), of "''specialist.dispatch.completed''" 0] by (metis differ prod.collapse)
  show ?thesis
    using ok a(1,2) b
    by (simp add: sample_dispatch_def dispatch_def Let_def sample_dispatcher_def sample_task_def dget_Cons record_dispatch_def
        finish_dispatch_def sample_specialist_def sample_payload_def)
qed

theorem dispatch_gated_witness:
  "\<exists>e r l at_call. delegation_justified specialist_gate (sample_task ''3.0'') e \<and> sample_dispatch ''3.0'' ''2.5'' = (Inr r, 2, Some l)
     \<and> records_start (Some (ledger_open empty_ledger)) (Some at_call) \<and> prefix (lg_events at_call) (lg_events l)
     \<and> snd (sample_specialist ''2.5'' (sample_task ''3.0'') (Some at_call) 0) = 2"
proof -
  obtain r l where d: "sample_dispatch ''3.0'' ''2.5'' = (Inr r, 2, Some l)" "sd_invoked r" using sample_dispatched by blast
  obtain specialist answer e at_call where w: "dget (dp_specialists (sample_dispatcher ''2.5'')) ''tester'' = Some specialist"
    "delegation_justified specialist_gate (sample_task ''3.0'') e" "records_start (Some (ledger_open empty_ledger)) at_call"
    "specialist (sample_task ''3.0'') at_call 0 = (answer, 2)" "extends at_call (Some l)"
    using dispatch_gated [OF d(1) [unfolded sample_dispatch_def]] by (auto simp: sample_dispatcher_def sample_task_def)
  then obtain l1 where "at_call = Some l1" by (cases at_call) (auto simp: extends_def)
  moreover have "specialist = sample_specialist ''2.5''" using w(1) by (simp add: sample_dispatcher_def dget_Cons)
  ultimately show ?thesis using w(2-5) d(1) by (auto simp: extends_def intro!: exI [of _ l1])
qed

end
