(* ===== verification/Redaction.thy ===== *)
theory Redaction
  imports Policy_Rules
begin

text \<open>
  The sanitizer of \<open>src/vloop/learning.py\<close>: its two regular expressions and the recursive
  \<open>_sanitize\<close>. The characters are the code points below 256, so a word character of \<open>re\<close> is an
  underscore or one of the alphanumeric characters of Latin-1.
\<close>

section \<open>Searching\<close>

definition trace_words :: "string list" where
  "trace_words = [''token'', ''password'', ''secret'', ''credential'', ''authorization'']"

text \<open>\<open>_SENSITIVE_KEY.search(key)\<close>.\<close>

definition trace_key :: "string \<Rightarrow> bool" where
  "trace_key k \<longleftrightarrow> has_api_key (lower k) \<or> list_ex (\<lambda>w. has_infix w (lower k)) trace_words"

text \<open>The class \<open>\w\<close>.\<close>

definition word_char :: "char \<Rightarrow> bool" where
  "word_char c \<longleftrightarrow> (let n = (of_char c :: nat) in (48 \<le> n \<and> n \<le> 57) \<or> (65 \<le> n \<and> n \<le> 90) \<or> n = 95 \<or> (97 \<le> n \<and> n \<le> 122)
     \<or> n \<in> {170, 178, 179, 181, 185, 186, 188, 189, 190} \<or> (192 \<le> n \<and> n \<noteq> 215 \<and> n \<noteq> 247))"

text \<open>
  \<open>[A-Za-z0-9._-]{m,}\b\<close> after a character that is a word character or not: the greatest number of
  characters at least \<open>m\<close> that ends at a word boundary, which is what backtracking finds.
\<close>

fun run_len :: "nat \<Rightarrow> bool \<Rightarrow> string \<Rightarrow> nat option" where
  "run_len m prev [] = (if m = 0 \<and> prev then Some 0 else None)"
| "run_len m prev (c # t) =
     (case (if token_char c then run_len (m - 1) (word_char c) t else None) of
        Some k \<Rightarrow> Some (Suc k)
      | None \<Rightarrow> if m = 0 \<and> prev \<noteq> word_char c then Some 0 else None)"

text \<open>The letters of one of the four prefixes (compared case-insensitively), then \<open>[_-]\<close>, then the run.\<close>

fun prefixed_run :: "string \<Rightarrow> string \<Rightarrow> nat option" where
  "prefixed_run p [] = None"
| "prefixed_run [] (c # t) = (if c = CHR ''_'' \<or> c = CHR ''-'' then map_option Suc (run_len 8 (word_char c) t) else None)"
| "prefixed_run (x # p) (c # t) = (if lower_char c = x then map_option Suc (prefixed_run p t) else None)"

definition secret_prefixes :: "string list" where
  "secret_prefixes = [''sk'', ''rk'', ''ghp'', ''bearer'']"

fun first_prefix :: "string list \<Rightarrow> string \<Rightarrow> nat option" where
  "first_prefix [] s = None"
| "first_prefix (p # ps) s = (case prefixed_run p s of Some n \<Rightarrow> Some n | None \<Rightarrow> first_prefix ps s)"

text \<open>The length of the match at the head of a text; \<open>\b\<close> looks at the character before it.\<close>

definition token_match :: "bool \<Rightarrow> string \<Rightarrow> nat option" where
  "token_match prev s = (case s of [] \<Rightarrow> None | c # t \<Rightarrow> if prev = word_char c then None else first_prefix secret_prefixes s)"

definition redacted :: string where
  "redacted = ''[redacted]''"

lemma run_len_le: "run_len m prev s = Some n \<Longrightarrow> n \<le> length s"
  by (induction m prev s arbitrary: n rule: run_len.induct) (force split: if_splits option.splits)+

lemma prefixed_run_le: "prefixed_run p s = Some n \<Longrightarrow> 0 < n \<and> n \<le> length s"
  by (induction p s arbitrary: n rule: prefixed_run.induct) (auto split: if_splits dest: run_len_le)

lemma first_prefix_le: "first_prefix ps s = Some n \<Longrightarrow> 0 < n \<and> n \<le> length s"
  by (induction ps) (auto split: option.splits dest: prefixed_run_le)

lemma token_match_le: "token_match prev s = Some n \<Longrightarrow> 0 < n \<and> n \<le> length s"
  by (auto simp: token_match_def split: list.splits if_splits dest: first_prefix_le)

section \<open>Substitution\<close>

text \<open>\<open>_TOKEN_LIKE.sub("[redacted]", value)\<close>.\<close>

function redact :: "bool \<Rightarrow> string \<Rightarrow> string" where
  "redact prev s =
     (case s of
        [] \<Rightarrow> []
      | c # t \<Rightarrow> (case token_match prev s of
            None \<Rightarrow> c # redact (word_char c) t
          | Some n \<Rightarrow> redacted @ redact (word_char (s ! (n - 1))) (drop n s)))"
  by pat_completeness auto
termination
  by (relation "measure (length \<circ> snd)") (auto dest: token_match_le)

declare redact.simps [simp del]

definition redact_text :: "string \<Rightarrow> string" where
  "redact_text s = redact False s"

fun sanitize :: "pyval \<Rightarrow> pyval" where
  "sanitize (PDict kvs) = PDict (map (\<lambda>(k, v). (k, if trace_key k then PStr redacted else sanitize v)) kvs)"
| "sanitize (PList xs) = PList (map sanitize xs)"
| "sanitize (PTuple xs) = PTuple (map sanitize xs)"
| "sanitize (PStr s) = PStr (redact_text s)"
| "sanitize v = v"

section \<open>Nothing token-like is left\<close>

text \<open>No position of the text, read after a character, starts a match.\<close>

fun no_token :: "bool \<Rightarrow> string \<Rightarrow> bool" where
  "no_token prev [] = True"
| "no_token prev (c # t) = (token_match prev (c # t) = None \<and> no_token (word_char c) t)"

lemma redact_Nil [simp]: "redact prev [] = []"
  by (subst redact.simps) simp

lemma redact_keep: "token_match prev (c # t) = None \<Longrightarrow> redact prev (c # t) = c # redact (word_char c) t"
  by (subst redact.simps) simp

lemma redact_match:
  "token_match prev (c # t) = Some n \<Longrightarrow> redact prev (c # t) = redacted @ redact (word_char ((c # t) ! (n - 1))) (drop n (c # t))"
  by (subst redact.simps) simp

lemma bracket: "\<not> token_char (CHR ''['')" "\<not> word_char (CHR ''['')" "lower_char (CHR ''['') = CHR ''[''"
  "\<not> word_char (CHR '']'')"
  by code_simp+

lemma redacted_hd: "redacted = CHR ''['' # ''redacted]''"
  by (simp add: redacted_def)

text \<open>A match starts with a word character, so it follows a character that is none.\<close>

lemma lower_word:
  assumes "lower_char c \<in> {CHR ''s'', CHR ''r'', CHR ''g'', CHR ''b''}"
  shows "word_char c"
proof -
  let ?n = "of_char c :: nat"
  have n: "?n < 256" by simp
  have "(of_char (lower_char c) :: nat) \<in> {115, 114, 103, 98}" using assms by auto
  then have "?n \<in> {115, 114, 103, 98, 83, 82, 71, 66}" using n
    by (auto simp: lower_char_def Let_def split: if_splits)
  then show ?thesis by (auto simp: word_char_def)
qed

lemma first_prefix_word: "first_prefix ps (c # t) = Some n \<Longrightarrow> set ps \<subseteq> set secret_prefixes \<Longrightarrow> word_char c"
proof (induction ps)
  case (Cons p ps)
  show ?case
  proof (cases "prefixed_run p (c # t)")
    case (Some k)
    obtain x q where p: "p = x # q" "x \<in> {CHR ''s'', CHR ''r'', CHR ''g'', CHR ''b''}"
      using Cons.prems(2) by (auto simp: secret_prefixes_def)
    then show ?thesis using Some lower_word by (auto split: if_splits)
  qed (use Cons in simp)
qed simp

lemma token_match_word: "token_match prev (c # t) = Some n \<Longrightarrow> word_char c \<and> \<not> prev"
  using first_prefix_word [of secret_prefixes c t n] by (auto simp: token_match_def split: if_splits)

text \<open>A match ends at a word boundary.\<close>

definition boundary :: "bool \<Rightarrow> string \<Rightarrow> bool" where
  "boundary prev s = (case s of [] \<Rightarrow> prev | c # t \<Rightarrow> prev \<noteq> word_char c)"

lemma run_len_boundary:
  "run_len m prev s = Some n \<Longrightarrow> boundary (if n = 0 then prev else word_char (s ! (n - 1))) (drop n s)"
proof (induction m prev s arbitrary: n rule: run_len.induct)
  case (2 m prev c t)
  show ?case
  proof (cases "if token_char c then run_len (m - 1) (word_char c) t else None")
    case None
    then show ?thesis using 2(2) by (auto simp: boundary_def split: if_splits)
  next
    case (Some k)
    then have n: "n = Suc k" and r: "token_char c" "run_len (m - 1) (word_char c) t = Some k" using 2(2) by (auto split: if_splits)
    show ?thesis using 2(1) [OF r] n by (cases k) auto
  qed
qed (auto simp: boundary_def split: if_splits)

lemma prefixed_run_boundary: "prefixed_run p s = Some n \<Longrightarrow> boundary (word_char (s ! (n - 1))) (drop n s)"
proof (induction p s arbitrary: n rule: prefixed_run.induct)
  case (2 c t)
  then obtain k where k: "n = Suc k" "run_len 8 (word_char c) t = Some k" by (auto split: if_splits)
  show ?case using run_len_boundary [OF k(2)] k(1) by (cases k) auto
next
  case (3 x p c t)
  then obtain k where k: "n = Suc k" "prefixed_run p t = Some k" "lower_char c = x" by (auto split: if_splits)
  have "0 < k" using prefixed_run_le [OF k(2)] by simp
  then show ?case using 3(1) [OF k(3,2)] k(1) by (cases k) auto
qed simp

lemma first_prefix_boundary: "first_prefix ps s = Some n \<Longrightarrow> boundary (word_char (s ! (n - 1))) (drop n s)"
  by (induction ps) (auto split: option.splits dest: prefixed_run_boundary)

lemma token_match_boundary: "token_match prev s = Some n \<Longrightarrow> boundary (word_char (s ! (n - 1))) (drop n s)"
  by (auto simp: token_match_def split: list.splits if_splits dest: first_prefix_boundary)

text \<open>Redacting later matches creates no match at an earlier position.\<close>

lemma redact_run: "run_len m prev t = None \<Longrightarrow> run_len m prev (redact prev t) = None"
proof (induction t arbitrary: m prev)
  case (Cons c u)
  show ?case
  proof (cases "token_match prev (c # u)")
    case None
    then show ?thesis using Cons by (auto simp: redact_keep split: if_splits option.splits)
  next
    case (Some n)
    then show ?thesis using token_match_word [OF Some] bracket by (simp add: redact_match redacted_hd)
  qed
qed simp

lemma redact_prefixed:
  "prefixed_run p s = None \<Longrightarrow> CHR ''['' \<notin> set p \<Longrightarrow> prefixed_run p (redact prev s) = None"
proof (induction p s arbitrary: prev rule: prefixed_run.induct)
  case (2 c t)
  then show ?case
    by (cases "token_match prev (c # t)") (auto simp: redact_keep redact_match redacted_hd redact_run split: if_splits)
next
  case (3 x p c t)
  then show ?case using bracket(3)
    by (cases "token_match prev (c # t)") (auto simp: redact_keep redact_match redacted_hd split: if_splits)
qed simp

lemma redact_first_match:
  "first_prefix ps s = None \<Longrightarrow> \<forall>p \<in> set ps. CHR ''['' \<notin> set p \<Longrightarrow> first_prefix ps (redact prev s) = None"
  by (induction ps) (auto simp: redact_prefixed split: option.splits)

lemma redact_token_match:
  assumes "token_match prev (c # t) = None"
  shows "token_match prev (c # redact (word_char c) t) = None"
proof (cases "prev = word_char c")
  case False
  then have "first_prefix secret_prefixes (c # t) = None" using assms by (simp add: token_match_def)
  then have "first_prefix secret_prefixes (redact prev (c # t)) = None"
    by (rule redact_first_match) (simp add: secret_prefixes_def)
  then show ?thesis using False assms by (simp add: redact_keep token_match_def)
qed (simp add: token_match_def)

lemma no_token_redacted: "no_token prev (redacted @ r) = no_token False r"
proof -
  have w: "map word_char redacted = [False, True, True, True, True, True, True, True, True, False]" by code_simp
  have l: "map lower_char redacted = redacted" by code_simp
  show ?thesis using w l by (simp add: redacted_def token_match_def secret_prefixes_def)
qed

lemma no_token_weaken: "no_token True r \<Longrightarrow> boundary True r \<Longrightarrow> no_token False r"
  by (cases r) (auto simp: boundary_def token_match_def)

lemma redact_boundary: "boundary True s \<Longrightarrow> boundary True (redact True s)"
proof (cases s)
  case (Cons c t)
  moreover have "token_match True (c # t) = None" by (cases "token_match True (c # t)") (auto dest: token_match_word)
  ultimately show "boundary True s \<Longrightarrow> ?thesis" by (simp add: boundary_def redact_keep)
qed simp

lemma no_token_redact: "no_token prev (redact prev s)"
proof (induction prev s rule: redact.induct)
  case (1 prev s)
  show ?case
  proof (cases s)
    case (Cons c t)
    show ?thesis
    proof (cases "token_match prev s")
      case None
      then show ?thesis using 1(1) [OF Cons None] Cons by (simp add: redact_keep redact_token_match)
    next
      case (Some n)
      let ?w = "word_char (s ! (n - 1))" and ?u = "drop n s"
      have r: "redact prev s = redacted @ redact ?w ?u" using Some Cons by (simp add: redact_match)
      have ih: "no_token ?w (redact ?w ?u)" by (rule 1(2) [OF Cons Some])
      have "no_token False (redact ?w ?u)"
      proof (cases ?w)
        case True
        then show ?thesis using ih token_match_boundary [OF Some] no_token_weaken redact_boundary by metis
      qed (use ih in simp)
      then show ?thesis by (simp add: r no_token_redacted)
    qed
  qed simp
qed

lemma redact_clean: "no_token prev s \<Longrightarrow> redact prev s = s"
  by (induction s arbitrary: prev) (auto simp: redact_keep)

text \<open>No text in a value has a match.\<close>

fun token_free :: "pyval \<Rightarrow> bool" where
  "token_free (PStr s) = no_token False s"
| "token_free (PList xs) = list_all token_free xs"
| "token_free (PTuple xs) = list_all token_free xs"
| "token_free (PDict kvs) = list_all (\<lambda>(k, v). token_free v) kvs"
| "token_free v = True"

lemma no_token_mark: "no_token False redacted"
  using no_token_redacted [of False "[]"] by simp

lemma sanitize_again: "sanitize (sanitize x) = sanitize x"
proof (induction x rule: sanitize.induct)
  case (1 kvs)
  have "sanitize (PStr redacted) = PStr redacted" by (simp add: redact_text_def redact_clean [OF no_token_mark])
  then show ?case using 1 by (auto simp: comp_def)
next
  case (4 s)
  then show ?case by (simp add: redact_text_def redact_clean [OF no_token_redact])
qed auto

lemma sanitize_token_free: "token_free (sanitize x)"
  by (induction x rule: sanitize.induct) (auto simp: list_all_iff redact_text_def no_token_redact no_token_mark)

text \<open>Below a sensitive key stands the mark, everywhere; and a value with neither sensitive entries nor tokens is
  a fixed point.\<close>

fun all_marked :: "pyval \<Rightarrow> bool" where
  "all_marked (PDict kvs) = list_all (\<lambda>(k, v). (trace_key k \<longrightarrow> v = PStr redacted) \<and> all_marked v) kvs"
| "all_marked (PList xs) = list_all all_marked xs"
| "all_marked (PTuple xs) = list_all all_marked xs"
| "all_marked v = True"

lemma sanitize_all_marked: "all_marked (sanitize x)"
  by (induction x rule: sanitize.induct) (auto simp: list_all_iff)

lemma sanitize_clean: "all_marked x \<Longrightarrow> token_free x \<Longrightarrow> sanitize x = x"
proof (induction x rule: sanitize.induct)
  case (1 kvs)
  then have "(\<lambda>(k, v). (k, if trace_key k then PStr redacted else sanitize v)) y = y" if "y \<in> set kvs" for y
    using that by (cases y) (fastforce simp: list_all_iff)
  then show ?case by (simp add: map_idI)
qed (auto simp: list_all_iff redact_text_def redact_clean intro!: map_idI)

lemma sanitize_fixed: "sanitize x = x \<longleftrightarrow> all_marked x \<and> token_free x"
  using sanitize_clean sanitize_all_marked sanitize_token_free by metis

text \<open>The keys of all dictionaries in a value, those below a sensitive key left out: they are exported as they are.\<close>

fun exported_keys :: "pyval \<Rightarrow> string list" where
  "exported_keys (PDict kvs) = concat (map (\<lambda>(k, v). k # (if trace_key k then [] else exported_keys v)) kvs)"
| "exported_keys (PList xs) = concat (map exported_keys xs)"
| "exported_keys (PTuple xs) = concat (map exported_keys xs)"
| "exported_keys v = []"

lemma sanitize_keys: "exported_keys (sanitize x) = exported_keys x"
proof (induction x rule: sanitize.induct)
  case (1 kvs)
  then show ?case by (auto intro!: arg_cong [of _ _ concat] simp: comp_def)
qed (auto intro!: arg_cong [of _ _ concat] simp: comp_def)

text \<open>A text in whose redaction no bracket occurs was not changed.\<close>

lemma redact_plain: "CHR ''['' \<notin> set (redact prev s) \<Longrightarrow> redact prev s = s"
proof (induction s arbitrary: prev)
  case (Cons c t)
  then show ?case by (cases "token_match prev (c # t)") (auto simp: redact_keep redact_match redacted_hd)
qed simp

lemma sanitize_text: "sanitize v = PStr s \<Longrightarrow> CHR ''['' \<notin> set s \<Longrightarrow> v = PStr s"
  using redact_plain [of False] by (cases v) (auto simp: redact_text_def, metis)

lemma sanitize_bool [simp]: "sanitize v = PBool b \<longleftrightarrow> v = PBool b"
  by (cases v) auto

end
