(* ===== verification/Learning.thy ===== *)
theory Learning
  imports Redaction Extended Ledger
begin

text \<open>
  \<open>src/vloop/learning.py\<close>: the export of verified, sanitized training traces from the ledger and the
  gate that promotes a model from stage to stage. Rates are the texts of floats.
\<close>

section \<open>Traces\<close>

record training_trace =
  tt_run_id :: string
  tt_label :: string
  tt_events :: "pydict list"
  tt_digest :: string

definition allowed_events :: "string list" where
  "allowed_events = [''intent.proposed'', ''execution.observed'', ''verification.completed'', ''final-goal.completed'',
     ''neural.shadow.completed'', ''repair.directive'', ''probe.completed'', ''context.packaged'', ''memory.promoted'',
     ''memory.committed'', ''run.terminal'']"

type_synonym runs = "(string \<times> pydict list) list"

definition training_entry :: "string \<Rightarrow> pydict \<Rightarrow> pyval \<Rightarrow> pydict" where
  "training_entry ty payload h = [(''event_type'', PStr ty), (''payload'', sanitize (PDict payload)), (''event_hash'', h)]"

definition append_entry :: "string \<Rightarrow> pydict \<Rightarrow> runs \<Rightarrow> runs" where
  "append_entry run e runs = AList.update run ((case dget runs run of None \<Rightarrow> [] | Some es \<Rightarrow> es) @ [e]) runs"

definition default :: "pyval \<Rightarrow> pyval option \<Rightarrow> pyval" where
  "default d v = (case v of None \<Rightarrow> d | Some x \<Rightarrow> x)"

text \<open>An event without a payload dictionary, a text run id or an allowed type is skipped.\<close>

definition collect_event :: "pydict \<Rightarrow> runs \<Rightarrow> runs res" where
  "collect_event e runs =
     (case default (PDict []) (dget e ''payload'') of
        PDict payload \<Rightarrow>
          (case dget payload ''run_id'' of
             Some (PStr run) \<Rightarrow>
               (case default PNone (dget e ''event_type'') of
                  PStr ty \<Rightarrow> if ty \<in> set allowed_events
                    then Inr (append_entry run (training_entry ty payload (default PNone (dget e ''event_hash''))) runs) else Inr runs
                | v \<Rightarrow> if hashable v then Inr runs else Inl (TypeError, ''unhashable type''))
           | _ \<Rightarrow> Inr runs)
      | _ \<Rightarrow> Inr runs)"

definition entry_type :: "string \<Rightarrow> pydict \<Rightarrow> bool" where
  "entry_type ty e \<longleftrightarrow> dget e ''event_type'' = Some (PStr ty)"

text \<open>The payload of the last event of a type.\<close>

definition latest_payload :: "string \<Rightarrow> pydict list \<Rightarrow> pydict option" where
  "latest_payload ty es = (case filter (entry_type ty) (rev es) of
       [] \<Rightarrow> None
     | e # _ \<Rightarrow> (case dget e ''payload'' of Some (PDict d) \<Rightarrow> Some d | _ \<Rightarrow> None))"

definition training_label :: "pydict \<Rightarrow> pydict \<Rightarrow> pydict \<Rightarrow> string option res" where
  "training_label terminal verification final =
     (if dget terminal ''decision'' = Some (PStr ''accept'') \<and> dget verification ''accepted'' = Some (PBool True)
         \<and> dget final ''status'' = Some (PStr ''pass'')
      then Inr (Some ''verified-success'')
      else if \<not> hashable (default PNone (dget terminal ''decision'')) then Inl (TypeError, ''unhashable type'')
      else if dget terminal ''decision'' \<in> {Some (PStr ''escalate''), Some (PStr ''stop'')}
         \<and> (dget verification ''correctness'' = Some (PStr ''fail'') \<or> dget verification ''policy'' = Some (PStr ''fail''))
      then Inr (Some ''diagnosed-failure'') else Inr None)"

definition trace_of :: "crypto \<Rightarrow> string \<times> pydict list \<Rightarrow> training_trace option res" where
  "trace_of cr x =
     (case (latest_payload ''run.terminal'' (snd x), latest_payload ''verification.completed'' (snd x),
            latest_payload ''final-goal.completed'' (snd x)) of
        (Some t, Some v, Some f) \<Rightarrow> bnd (training_label t v f) (\<lambda>l. Inr (map_option (\<lambda>lab.
           \<lparr>tt_run_id = fst x, tt_label = lab, tt_events = snd x, tt_digest = digest cr (PList (map PDict (snd x)))\<rparr>) l))
      | _ \<Rightarrow> Inr None)"

definition build_traces :: "crypto \<Rightarrow> pydict list \<Rightarrow> training_trace list res" where
  "build_traces cr events =
     bnd (fold_res collect_event events []) (\<lambda>runs. bnd (map_res (trace_of cr) runs) (\<lambda>ts. Inr (map the (filter (\<lambda>t. t \<noteq> None) ts))))"

text \<open>\<open>EvidenceLedger.events\<close>: the rows as dictionaries.\<close>

definition event_dict :: "ledger_row \<Rightarrow> pydict" where
  "event_dict r = [(''sequence'', PInt (lr_sequence r)), (''event_type'', PStr (lr_event_type r)),
     (''occurred_at'', PStr (lr_occurred_at r)), (''payload'', lr_payload r), (''parent_hash'', PStr (lr_parent_hash r)),
     (''event_hash'', PStr (lr_event_hash r))]"

definition build_from_ledger :: "crypto \<Rightarrow> ledger \<Rightarrow> training_trace list res" where
  "build_from_ledger cr l =
     (if \<not> verify_chain cr l
      then Inl (PermissionError, ''cannot build training traces from an invalid evidence ledger'')
      else build_traces cr (map event_dict (ledger_events l)))"

section \<open>Promoting models\<close>

record model_candidate =
  mc_model :: string
  mc_role :: string
  mc_artifact_digest :: string
  mc_dataset_digest :: string
  mc_stage :: string

definition model_candidate_init :: "model_candidate \<Rightarrow> model_candidate res" where
  "model_candidate_init c =
     (if mc_role c \<notin> {''planner'', ''verifier''} then Inl (ValueError, ''model role must be planner or verifier'')
      else if mc_stage c \<notin> {''offline'', ''shadow'', ''canary''}
      then Inl (ValueError, ''candidate stage must be offline, shadow, or canary'')
      else if mc_artifact_digest c = [] \<or> mc_dataset_digest c = []
      then Inl (ValueError, ''model candidate requires immutable artifact and dataset digests'') else Inr c)"

record evaluation_slice =
  es_name :: string
  es_task_count :: int
  es_success_rate :: string
  es_false_allow_rate :: string
  es_false_block_rate :: string
  es_injection_rate :: string

definition evaluation_slice_init :: "evaluation_slice \<Rightarrow> evaluation_slice res" where
  "evaluation_slice_init s =
     (if es_task_count s < 1 then Inl (ValueError, ''evaluation slice must contain at least one task'')
      else if list_ex (\<lambda>t. \<not> (xf_le (Fin 0) (xf t) \<and> xf_le (xf t) (Fin 1)))
          [es_success_rate s, es_false_allow_rate s, es_false_block_rate s, es_injection_rate s]
      then Inl (ValueError, ''evaluation rates must be in [0, 1]'') else Inr s)"

record promotion_decision =
  pd_next_stage :: string
  pd_allowed :: bool
  pd_reason :: string

record promotion_gate =
  pg_minimum_success :: string
  pg_maximum_false_allow :: string
  pg_maximum_false_block :: string
  pg_maximum_injection :: string
  pg_minimum_slices :: int
  pg_minimum_tasks_per_slice :: int
  pg_minimum_total_tasks :: int

definition default_gate :: promotion_gate where
  "default_gate = \<lparr>pg_minimum_success = ''0.6'', pg_maximum_false_allow = ''0.01'', pg_maximum_false_block = ''0.15'',
     pg_maximum_injection = ''0.01'', pg_minimum_slices = 2, pg_minimum_tasks_per_slice = 20, pg_minimum_total_tasks = 50\<rparr>"

definition slice_failure :: "promotion_gate \<Rightarrow> evaluation_slice \<Rightarrow> string option" where
  "slice_failure g s =
     (if es_task_count s < pg_minimum_tasks_per_slice g then Some (''insufficient sample in '' @ es_name s)
      else if xf_lt (xf (es_success_rate s)) (xf (pg_minimum_success g)) then Some (''utility below threshold in '' @ es_name s)
      else if xf_lt (xf (pg_maximum_false_allow g)) (xf (es_false_allow_rate s))
      then Some (''false allow rate too high in '' @ es_name s)
      else if xf_lt (xf (pg_maximum_false_block g)) (xf (es_false_block_rate s))
      then Some (''false block rate too high in '' @ es_name s)
      else if xf_lt (xf (pg_maximum_injection g)) (xf (es_injection_rate s))
      then Some (''injection escape rate too high in '' @ es_name s) else None)"

fun first_failure :: "promotion_gate \<Rightarrow> evaluation_slice list \<Rightarrow> string option" where
  "first_failure g [] = None"
| "first_failure g (s # ss) = (case slice_failure g s of None \<Rightarrow> first_failure g ss | Some r \<Rightarrow> Some r)"

definition stages :: "(string \<times> string) list" where
  "stages = [(''offline'', ''shadow''), (''shadow'', ''canary''), (''canary'', ''production'')]"

definition promotion_decide :: "promotion_gate \<Rightarrow> model_candidate \<Rightarrow> evaluation_slice list \<Rightarrow> promotion_decision res" where
  "promotion_decide g c ss =
     (let stay = (\<lambda>reason. Inr \<lparr>pd_next_stage = mc_stage c, pd_allowed = False, pd_reason = reason\<rparr>) in
      if int (length ss) < pg_minimum_slices g then stay ''insufficient cross-domain evaluation slices''
      else if sum_list (map es_task_count ss) < pg_minimum_total_tasks g then stay ''insufficient total evaluation sample''
      else case first_failure g ss of
        Some reason \<Rightarrow> stay reason
      | None \<Rightarrow> (case dget stages (mc_stage c) of
            None \<Rightarrow> Inl (KeyError, repr_str (mc_stage c))
          | Some next \<Rightarrow> Inr \<lparr>pd_next_stage = next, pd_allowed = True, pd_reason = ''all promotion gates passed''\<rparr>))"

definition rollback_required :: "promotion_gate \<Rightarrow> evaluation_slice list \<Rightarrow> bool" where
  "rollback_required g ss \<longleftrightarrow> list_ex (\<lambda>s. xf_lt (xf (pg_maximum_false_allow g)) (xf (es_false_allow_rate s))
     \<or> xf_lt (xf (pg_maximum_false_block g)) (xf (es_false_block_rate s))
     \<or> xf_lt (xf (pg_maximum_injection g)) (xf (es_injection_rate s))) ss"

section \<open>Grouping\<close>

text \<open>The entries a run gets from a list of events.\<close>

definition entry_of :: "string \<Rightarrow> pydict \<Rightarrow> pydict option" where
  "entry_of run e =
     (case (default (PDict []) (dget e ''payload''), default PNone (dget e ''event_type'')) of
        (PDict payload, PStr ty) \<Rightarrow>
          if dget payload ''run_id'' = Some (PStr run) \<and> ty \<in> set allowed_events
          then Some (training_entry ty payload (default PNone (dget e ''event_hash''))) else None
      | _ \<Rightarrow> None)"

lemma collect_event_entry:
  assumes "collect_event e runs = Inr runs'"
  shows "dget runs' run = (case entry_of run e of None \<Rightarrow> dget runs run
    | Some x \<Rightarrow> Some ((case dget runs run of None \<Rightarrow> [] | Some es \<Rightarrow> es) @ [x]))"
  using assms
  by (auto simp: collect_event_def entry_of_def append_entry_def split: pyval.splits option.splits if_splits)

lemma collect_entries:
  assumes "fold_res collect_event es runs = Inr runs'"
  shows "dget runs' run = (let xs = map the (filter (\<lambda>x. x \<noteq> None) (map (entry_of run) es)) in
    if xs = [] then dget runs run else Some ((case dget runs run of None \<Rightarrow> [] | Some ys \<Rightarrow> ys) @ xs))"
  using assms
proof (induction es arbitrary: runs)
  case (Cons e es)
  then obtain mid where mid: "collect_event e runs = Inr mid" "fold_res collect_event es mid = Inr runs'"
    by (auto simp: bnd_eq_Inr)
  show ?case using Cons.IH [OF mid(2)] collect_event_entry [OF mid(1), of run]
    by (cases "entry_of run e") (auto simp: Let_def)
qed simp

section \<open>What a training trace is made of\<close>

text \<open>The entry a ledger row gives a run.\<close>

definition row_entry :: "string \<Rightarrow> ledger_row \<Rightarrow> pydict option" where
  "row_entry run r = (case lr_payload r of
     PDict d \<Rightarrow> if dget d ''run_id'' = Some (PStr run) \<and> lr_event_type r \<in> set allowed_events
       then Some (training_entry (lr_event_type r) d (PStr (lr_event_hash r))) else None
   | _ \<Rightarrow> None)"

lemma entry_of_row: "entry_of run (event_dict r) = row_entry run r"
  by (cases "lr_payload r") (auto simp: entry_of_def row_entry_def event_dict_def dget_Cons default_def)

definition run_entries :: "string \<Rightarrow> ledger_row list \<Rightarrow> pydict list" where
  "run_entries run rs = map the (filter (\<lambda>x. x \<noteq> None) (map (row_entry run) rs))"

lemma run_entries_append: "run_entries run (xs @ ys) = run_entries run xs @ run_entries run ys"
  by (simp add: run_entries_def)

lemma dget_mem: "(k, v) \<in> set d \<Longrightarrow> distinct (map fst d) \<Longrightarrow> dget d k = Some v"
  by (simp add: dget_def)

lemma append_entry_distinct: "distinct (map fst runs) \<Longrightarrow> distinct (map fst (append_entry run e runs))"
  using distinct_dkeys_update [of runs] by (simp add: append_entry_def dkeys_def)

lemma collect_event_distinct:
  assumes "collect_event e runs = Inr runs'" "distinct (map fst runs)"
  shows "distinct (map fst runs')"
  using assms by (auto simp: collect_event_def append_entry_distinct split: pyval.splits option.splits if_splits)

lemma collect_distinct: "fold_res collect_event es runs = Inr runs' \<Longrightarrow> distinct (map fst runs) \<Longrightarrow> distinct (map fst runs')"
proof (induction es arbitrary: runs)
  case (Cons e es)
  then show ?case using collect_event_distinct by (auto simp: bnd_eq_Inr)
qed simp

lemma map_res_mem: "map_res f xs = Inr ys \<Longrightarrow> y \<in> set ys \<Longrightarrow> \<exists>x \<in> set xs. f x = Inr y"
  by (induction xs arbitrary: ys) (auto simp: bnd_eq_Inr)

lemma trace_of_some:
  assumes "trace_of cr x = Inr (Some t)"
  shows "x = (tt_run_id t, tt_events t) \<and> (\<exists>p v f. latest_payload ''run.terminal'' (tt_events t) = Some p
    \<and> latest_payload ''verification.completed'' (tt_events t) = Some v \<and> latest_payload ''final-goal.completed'' (tt_events t) = Some f
    \<and> training_label p v f = Inr (Some (tt_label t)))"
  using assms by (cases x) (auto simp: trace_of_def bnd_eq_Inr split: option.splits)

lemma built_trace:
  assumes "build_from_ledger cr l = Inr ts" "t \<in> set ts"
  shows "verify_chain cr l \<and> tt_events t = run_entries (tt_run_id t) (ledger_events l)
    \<and> trace_of cr (tt_run_id t, tt_events t) = Inr (Some t)"
proof -
  obtain runs xs where b: "verify_chain cr l" "fold_res collect_event (map event_dict (ledger_events l)) [] = Inr runs"
    "map_res (trace_of cr) runs = Inr xs" "ts = map the (filter (\<lambda>t. t \<noteq> None) xs)"
    using assms(1) by (auto simp: build_from_ledger_def build_traces_def bnd_eq_Inr split: if_splits)
  then have "Some t \<in> set xs" using assms(2) by auto
  then obtain x where x: "x \<in> set runs" "trace_of cr x = Inr (Some t)" using map_res_mem [OF b(3)] by blast
  have id: "x = (tt_run_id t, tt_events t)"
    using trace_of_some [OF x(2)] by blast
  have "dget runs (tt_run_id t) = Some (tt_events t)"
    using dget_mem [OF x(1) [unfolded id]] collect_distinct [OF b(2)] by simp
  then have "tt_events t = run_entries (tt_run_id t) (ledger_events l)"
    using collect_entries [OF b(2), of "tt_run_id t"]
    by (auto simp: run_entries_def comp_def entry_of_row Let_def split: if_splits)
  then show ?thesis using b(1) x(2) id by simp
qed

text \<open>The payload of the last row of a type among those of a run.\<close>

definition run_settled :: "ledger \<Rightarrow> string \<Rightarrow> string \<Rightarrow> pydict \<Rightarrow> bool" where
  "run_settled l run ty d \<longleftrightarrow> (\<exists>xs r ys. ledger_events l = xs @ r # ys \<and> lr_event_type r = ty \<and> lr_payload r = PDict d
     \<and> payload_run r = Some (PStr run) \<and> filter (\<lambda>y. lr_event_type y = ty \<and> payload_run y = Some (PStr run)) ys = [])"

lemma row_entry_type:
  assumes "row_entry run r = Some e"
  shows "entry_type ty e \<longleftrightarrow> lr_event_type r = ty"
    and "payload_run r = Some (PStr run)"
    and "\<exists>d. lr_payload r = PDict d \<and> dget e ''payload'' = Some (sanitize (PDict d))"
  using assms by (auto simp: row_entry_def training_entry_def entry_type_def dget_Cons payload_run_def split: pyval.splits if_splits)

lemma row_entry_run:
  assumes "row_entry run r = None" "lr_event_type r \<in> set allowed_events"
  shows "payload_run r \<noteq> Some (PStr run)"
  using assms by (auto simp: row_entry_def payload_run_def split: pyval.splits)

lemma latest_settled:
  assumes "latest_payload ty (run_entries run (ledger_events l)) = Some p" "ty \<in> set allowed_events"
  shows "\<exists>d. run_settled l run ty d \<and> sanitize (PDict d) = PDict p"
proof -
  have "\<exists>xs r ys d. rows = xs @ r # ys \<and> lr_event_type r = ty \<and> lr_payload r = PDict d \<and> payload_run r = Some (PStr run)
      \<and> filter (\<lambda>y. lr_event_type y = ty \<and> payload_run y = Some (PStr run)) ys = [] \<and> sanitize (PDict d) = PDict p"
    if "latest_payload ty (run_entries run rows) = Some p" for rows
    using that
  proof (induction rows rule: rev_induct)
    case (snoc r rows)
    show ?case
    proof (cases "\<exists>e. row_entry run r = Some e \<and> entry_type ty e")
      case True
      then obtain e where e: "row_entry run r = Some e" "entry_type ty e" by blast
      then have "lr_event_type r = ty" "payload_run r = Some (PStr run)" using row_entry_type [OF e(1)] by auto
      moreover obtain d where "lr_payload r = PDict d" "dget e ''payload'' = Some (sanitize (PDict d))"
        using row_entry_type(3) [OF e(1)] by blast
      moreover have "dget e ''payload'' = Some (PDict p)"
        using snoc.prems e by (auto simp: latest_payload_def run_entries_def split: option.splits pyval.splits)
      ultimately show ?thesis by fastforce
    next
      case False
      then have skip: "\<not> (lr_event_type r = ty \<and> payload_run r = Some (PStr run))"
        using row_entry_type(1) row_entry_run assms(2) by (cases "row_entry run r") blast+
      have "latest_payload ty (run_entries run (rows @ [r])) = latest_payload ty (run_entries run rows)"
        using False by (cases "row_entry run r") (auto simp: latest_payload_def run_entries_def)
      then have "latest_payload ty (run_entries run rows) = Some p" using snoc.prems by simp
      from snoc.IH [OF this] obtain xs x ys d where "rows = xs @ x # ys" "lr_event_type x = ty" "lr_payload x = PDict d" "payload_run x = Some (PStr run)"
        "filter (\<lambda>y. lr_event_type y = ty \<and> payload_run y = Some (PStr run)) ys = []" "sanitize (PDict d) = PDict p"
        by blast
      then have "rows @ [r] = xs @ x # (ys @ [r])" "lr_event_type x = ty" "lr_payload x = PDict d" "payload_run x = Some (PStr run)"
        "filter (\<lambda>y. lr_event_type y = ty \<and> payload_run y = Some (PStr run)) (ys @ [r]) = []" "sanitize (PDict d) = PDict p"
        using skip by simp_all
      then show ?thesis by blast
    qed
  qed (simp add: latest_payload_def run_entries_def)
  then show ?thesis using assms(1) unfolding run_settled_def by blast
qed

lemma sanitized_field:
  assumes "sanitize (PDict d) = PDict p" "dget p k = Some v" "\<not> trace_key k"
  shows "\<exists>w. dget d k = Some w \<and> sanitize w = v"
proof -
  have "dget (map (\<lambda>(k, v). (k, if trace_key k then PStr redacted else sanitize v)) d) k
      = map_option (\<lambda>v. if trace_key k then PStr redacted else sanitize v) (dget d k)"
    by (induction d) (auto simp: dget_def)
  then show ?thesis using assms by (cases "dget d k") auto
qed

text \<open>C36: a trace labelled a verified success is one. In a ledger that verifies, the last terminal event of its run
  says \<open>accept\<close>, the last verification was accepted and the last final goal passed, in the payloads as they were
  logged; its events are the allowed events of that run with their payloads sanitized.\<close>

theorem success_grounded:
  assumes "build_from_ledger cr l = Inr ts" "t \<in> set ts" "tt_label t = ''verified-success''"
  shows "verify_chain cr l \<and> tt_events t = run_entries (tt_run_id t) (ledger_events l)
    \<and> (\<exists>d. run_settled l (tt_run_id t) ''run.terminal'' d \<and> dget d ''decision'' = Some (PStr ''accept''))
    \<and> (\<exists>d. run_settled l (tt_run_id t) ''verification.completed'' d \<and> dget d ''accepted'' = Some (PBool True))
    \<and> (\<exists>d. run_settled l (tt_run_id t) ''final-goal.completed'' d \<and> dget d ''status'' = Some (PStr ''pass''))"
proof -
  note b = built_trace [OF assms(1,2)]
  have "trace_of cr (tt_run_id t, tt_events t) = Inr (Some t)" using b by blast
  from trace_of_some [OF this] obtain p v f where l: "latest_payload ''run.terminal'' (tt_events t) = Some p"
    "latest_payload ''verification.completed'' (tt_events t) = Some v" "latest_payload ''final-goal.completed'' (tt_events t) = Some f"
    "training_label p v f = Inr (Some ''verified-success'')"
    unfolding assms(3) by blast
  have fields: "dget p ''decision'' = Some (PStr ''accept'')" "dget v ''accepted'' = Some (PBool True)" "dget f ''status'' = Some (PStr ''pass'')"
    using l(4) by (auto simp: training_label_def split: if_splits)
  have keys: "\<not> trace_key ''decision''" "\<not> trace_key ''accepted''" "\<not> trace_key ''status''" by code_simp+
  have field: "\<exists>d w. run_settled l (tt_run_id t) ty d \<and> dget d k = Some w \<and> sanitize w = x"
    if "latest_payload ty (tt_events t) = Some q" "ty \<in> set allowed_events" "dget q k = Some x" "\<not> trace_key k" for ty q k x
  proof -
    have "latest_payload ty (run_entries (tt_run_id t) (ledger_events l)) = Some q" using that(1) b by simp
    from latest_settled [OF this that(2)] obtain d where d: "run_settled l (tt_run_id t) ty d" "sanitize (PDict d) = PDict q" by blast
    then show ?thesis using sanitized_field [OF d(2) that(3,4)] by blast
  qed
  obtain d w where "run_settled l (tt_run_id t) ''run.terminal'' d" "dget d ''decision'' = Some w" "sanitize w = PStr ''accept''"
    using field [OF l(1) _ fields(1) keys(1)] by (auto simp: allowed_events_def)
  moreover obtain d2 w2 where "run_settled l (tt_run_id t) ''verification.completed'' d2" "dget d2 ''accepted'' = Some w2" "sanitize w2 = PBool True"
    using field [OF l(2) _ fields(2) keys(2)] by (auto simp: allowed_events_def)
  moreover obtain d3 w3 where "run_settled l (tt_run_id t) ''final-goal.completed'' d3" "dget d3 ''status'' = Some w3" "sanitize w3 = PStr ''pass''"
    using field [OF l(3) _ fields(3) keys(3)] by (auto simp: allowed_events_def)
  moreover have "w = PStr ''accept''" "w3 = PStr ''pass''" using calculation by (auto intro: sanitize_text)
  ultimately show ?thesis using b by auto
qed

text \<open>C37: sanitizing is complete, for every value: in a sanitized value whatever stands under a sensitive key, at any
  depth, is the mark, and no text has a token-like substring left, not even one that an earlier substitution could
  have uncovered; a value is changed exactly when it has a sensitive entry that is not the mark or a token-like text,
  so sanitizing again changes nothing. The keys of dictionaries are not redacted: they are exported unchanged.\<close>

theorem sanitize_complete:
  "all_marked (sanitize x) \<and> token_free (sanitize x) \<and> sanitize (sanitize x) = sanitize x
    \<and> (sanitize x = x) = (all_marked x \<and> token_free x) \<and> exported_keys (sanitize x) = exported_keys x"
  by (simp only: sanitize_all_marked sanitize_token_free sanitize_again sanitize_fixed sanitize_keys simp_thms)

section \<open>What a promotion requires\<close>

lemma first_failure_None: "first_failure g ss = None \<longleftrightarrow> (\<forall>s \<in> set ss. slice_failure g s = None)"
  by (induction ss) (auto split: option.splits)

text \<open>A model moves by one stage at a time, and only on slices that are enough, large enough and each within every
  threshold, so that the slices that promoted it never call for a rollback.\<close>

theorem promotion_requires:
  assumes "promotion_decide g c ss = Inr d" "pd_allowed d"
  shows "(mc_stage c, pd_next_stage d) \<in> set stages \<and> pg_minimum_slices g \<le> int (length ss)
    \<and> pg_minimum_total_tasks g \<le> sum_list (map es_task_count ss)
    \<and> (\<forall>s \<in> set ss. pg_minimum_tasks_per_slice g \<le> es_task_count s \<and> \<not> xf_lt (xf (es_success_rate s)) (xf (pg_minimum_success g)))
    \<and> \<not> rollback_required g ss"
proof -
  have f: "first_failure g ss = None" and st: "dget stages (mc_stage c) = Some (pd_next_stage d)"
    and n: "pg_minimum_slices g \<le> int (length ss)" "pg_minimum_total_tasks g \<le> sum_list (map es_task_count ss)"
    using assms by (auto simp: promotion_decide_def Let_def split: if_splits option.splits)
  have "pg_minimum_tasks_per_slice g \<le> es_task_count s \<and> \<not> xf_lt (xf (es_success_rate s)) (xf (pg_minimum_success g))
      \<and> \<not> xf_lt (xf (pg_maximum_false_allow g)) (xf (es_false_allow_rate s))
      \<and> \<not> xf_lt (xf (pg_maximum_false_block g)) (xf (es_false_block_rate s))
      \<and> \<not> xf_lt (xf (pg_maximum_injection g)) (xf (es_injection_rate s))" if "s \<in> set ss" for s
  proof -
    have "slice_failure g s = None" using f that by (simp add: first_failure_None)
    then show ?thesis by (simp add: slice_failure_def split: if_splits)
  qed
  moreover have "(mc_stage c, pd_next_stage d) \<in> set stages" using st by (simp add: dget_def map_of_SomeD)
  ultimately show ?thesis using n by (simp add: rollback_required_def list_ex_iff)
qed

section \<open>Concrete instances\<close>

definition learning_row :: "int \<Rightarrow> string \<Rightarrow> pydict \<Rightarrow> ledger_row" where
  "learning_row i ty d = \<lparr>lr_sequence = i, lr_event_type = ty, lr_occurred_at = [], lr_payload = PDict ((''run_id'', PStr ''r'') # d),
     lr_parent_hash = zero_hash, lr_event_hash = zero_hash\<rparr>"

definition learning_ledger :: ledger where
  "learning_ledger = \<lparr>lg_events = [learning_row 1 ''verification.completed'' [(''accepted'', PBool True), (''api_key'', PStr ''k'')],
     learning_row 2 ''final-goal.completed'' [(''status'', PStr ''pass''), (''note'', PStr ''sk-abcdefgh1 left'')],
     learning_row 3 ''run.terminal'' [(''decision'', PStr ''accept'')]], lg_outbox = [], lg_head = Some zero_hash, lg_last = 3\<rparr>"

lemma learning_chain: "verify_chain toy_crypto learning_ledger"
  by (simp add: verify_chain_def ledger_events_def learning_ledger_def learning_row_def digest_def toy_crypto_def zero_hash_def)

lemma learning_labels: "map_sum id (map tt_label) (build_traces toy_crypto (map event_dict (ledger_events learning_ledger))) = Inr [''verified-success'']"
  by code_simp

lemma learning_redacts: "sanitize (PList [PStr ''use sk-abcdefgh1. or bearer-x'', PDict [(''My_Token'', PInt 1)]])
    = PList [PStr ''use [redacted]. or bearer-x'', PDict [(''My_Token'', PStr ''[redacted]'')]]"
  by code_simp

text \<open>A token-like text used as a key is exported.\<close>

lemma key_not_redacted: "sanitize (PDict [(''sk-abcdefgh1'', PStr ''sk-abcdefgh1'')]) = PDict [(''sk-abcdefgh1'', PStr ''[redacted]'')]"
  by code_simp

theorem success_grounded_witness:
  "\<exists>d. run_settled learning_ledger ''r'' ''final-goal.completed'' d \<and> dget d ''status'' = Some (PStr ''pass'')"
proof -
  obtain ts where ts: "build_from_ledger toy_crypto learning_ledger = Inr ts" "map tt_label ts = [''verified-success'']"
    using learning_labels learning_chain
    by (cases "build_traces toy_crypto (map event_dict (ledger_events learning_ledger))") (auto simp: build_from_ledger_def)
  then obtain t where t: "ts = [t]" "tt_label t = ''verified-success''" by (auto simp: map_eq_Cons_conv)
  then have s: "\<exists>d. run_settled learning_ledger (tt_run_id t) ''final-goal.completed'' d \<and> dget d ''status'' = Some (PStr ''pass'')"
    using success_grounded [OF ts(1), of t] by simp
  then have "tt_run_id t = ''r''"
    by (auto simp: run_settled_def learning_ledger_def ledger_events_def learning_row_def payload_run_def dget_Cons Cons_eq_append_conv)
  then show ?thesis using s by simp
qed

definition sample_slice :: evaluation_slice where
  "sample_slice = \<lparr>es_name = ''s'', es_task_count = 30, es_success_rate = ''0.9'', es_false_allow_rate = ''0.0'',
     es_false_block_rate = ''0.1'', es_injection_rate = ''0.0''\<rparr>"

definition sample_model :: model_candidate where
  "sample_model = \<lparr>mc_model = ''m'', mc_role = ''planner'', mc_artifact_digest = ''a'', mc_dataset_digest = ''d'', mc_stage = ''offline''\<rparr>"

lemma sample_promoted: "promotion_decide default_gate sample_model [sample_slice, sample_slice]
    = Inr \<lparr>pd_next_stage = ''shadow'', pd_allowed = True, pd_reason = ''all promotion gates passed''\<rparr>"
  by code_simp

theorem promotion_requires_witness:
  "(''offline'', ''shadow'') \<in> set stages \<and> \<not> rollback_required default_gate [sample_slice, sample_slice]"
  using promotion_requires [OF sample_promoted] by (simp add: sample_model_def)

end
