(* ===== verification/Harness_Experiments.thy ===== *)
theory Harness_Experiments
  imports Extended Canonical "HOL-Library.Multiset"
begin

text \<open>
  \<open>src/vloop/harness_experiments.py\<close>: experiments, paired runs, their statistics, signed evaluation
  bundles and review receipts. Metrics are the texts of floats; the numbers \<open>random.Random\<close> draws
  are a parameter (\<open>pick seed n k\<close> is the \<open>k\<close>-th index drawn below \<open>n\<close>); keys are texts
  interpreted by the crypto parameter.
\<close>

section \<open>Experiments and runs\<close>

datatype metric_direction = MAXIMIZE | MINIMIZE

primrec direction_value :: "metric_direction \<Rightarrow> string" where
  "direction_value MAXIMIZE = ''maximize''"
| "direction_value MINIMIZE = ''minimize''"

record experiment_key =
  xk_graph_digest :: string
  xk_harness_bundle_digest :: string
  xk_model_id :: string
  xk_model_config_digest :: string
  xk_dataset_digest :: string
  xk_tool_environment_digest :: string
  xk_evaluator_policy_digest :: string
  xk_compute_budget :: int

definition experiment_key_init :: "experiment_key \<Rightarrow> experiment_key res" where
  "experiment_key_init k =
     (if blank (xk_model_id k) \<or> xk_compute_budget k < 1
      then Inl (ValueError, ''experiments need a model and positive compute budget'')
      else if list_ex (\<lambda>v. length v \<noteq> 64) [xk_graph_digest k, xk_harness_bundle_digest k, xk_model_config_digest k,
          xk_dataset_digest k, xk_tool_environment_digest k, xk_evaluator_policy_digest k]
      then Inl (ValueError, ''experiment identities must be SHA-256 digests'') else Inr k)"

definition key_dict :: "experiment_key \<Rightarrow> pyval" where
  "key_dict k = PDict [(''graph_digest'', PStr (xk_graph_digest k)), (''harness_bundle_digest'', PStr (xk_harness_bundle_digest k)),
     (''model_id'', PStr (xk_model_id k)), (''model_config_digest'', PStr (xk_model_config_digest k)),
     (''dataset_digest'', PStr (xk_dataset_digest k)), (''tool_environment_digest'', PStr (xk_tool_environment_digest k)),
     (''evaluator_policy_digest'', PStr (xk_evaluator_policy_digest k)), (''compute_budget'', PInt (xk_compute_budget k))]"

definition experiment_digest :: "crypto \<Rightarrow> experiment_key \<Rightarrow> string" where
  "experiment_digest cr k = digest cr (key_dict k)"

type_synonym metrics = "(string \<times> string) list"

record paired_run =
  pr_task_id :: string
  pr_seed :: int
  pr_baseline_run_id :: string
  pr_candidate_run_id :: string
  pr_baseline_trace_root :: string
  pr_candidate_trace_root :: string
  pr_baseline_metrics :: metrics
  pr_candidate_metrics :: metrics

definition paired_run_init :: "paired_run \<Rightarrow> paired_run res" where
  "paired_run_init p =
     (if blank (pr_task_id p) \<or> blank (pr_baseline_run_id p) \<or> blank (pr_candidate_run_id p) \<or> pr_seed p < 0
      then Inl (ValueError, ''paired evidence needs task, seed, and run identities'')
      else if length (pr_baseline_trace_root p) \<noteq> 64 \<or> length (pr_candidate_trace_root p) \<noteq> 64
      then Inl (ValueError, ''paired evidence needs trace roots'')
      else if set (dkeys (pr_baseline_metrics p)) \<noteq> set (dkeys (pr_candidate_metrics p))
      then Inl (ValueError, ''paired runs must report the same metric set'') else Inr p)"

record topology_run =
  tr_task_id :: string
  tr_seed :: int
  tr_run_id :: string
  tr_trace_root :: string
  tr_metrics :: metrics
  tr_experiment :: experiment_key

definition topology_run_init :: "topology_run \<Rightarrow> topology_run res" where
  "topology_run_init r =
     (if blank (tr_task_id r) \<or> blank (tr_run_id r) \<or> tr_seed r < 0 \<or> length (tr_trace_root r) \<noteq> 64
      then Inl (ValueError, ''topology runs need task, seed, run, and trace identities'') else Inr r)"

definition comparable_experiments :: "experiment_key \<Rightarrow> experiment_key \<Rightarrow> bool" where
  "comparable_experiments a b \<longleftrightarrow> xk_model_id a = xk_model_id b \<and> xk_model_config_digest a = xk_model_config_digest b
     \<and> xk_dataset_digest a = xk_dataset_digest b \<and> xk_tool_environment_digest a = xk_tool_environment_digest b
     \<and> xk_evaluator_policy_digest a = xk_evaluator_policy_digest b \<and> xk_compute_budget a = xk_compute_budget b"

section \<open>Pairing\<close>

definition run_case :: "topology_run \<Rightarrow> string \<times> int" where
  "run_case r = (tr_task_id r, tr_seed r)"

definition by_case :: "topology_run list \<Rightarrow> ((string \<times> int) \<times> topology_run) list" where
  "by_case rs = fold (\<lambda>r d. AList.update (run_case r) r d) rs []"

definition paired_case :: "((string \<times> int) \<times> topology_run) list \<Rightarrow> ((string \<times> int) \<times> topology_run) list \<Rightarrow> string \<times> int \<Rightarrow> paired_run res" where
  "paired_case left right c =
     (case (dget left c, dget right c) of
        (Some l, Some r) \<Rightarrow>
          if \<not> comparable_experiments (tr_experiment l) (tr_experiment r)
          then Inl (ValueError, ''topology comparisons must hold model, data, evaluator, environment, and budget constant'')
          else paired_run_init \<lparr>pr_task_id = tr_task_id l, pr_seed = tr_seed l, pr_baseline_run_id = tr_run_id l,
            pr_candidate_run_id = tr_run_id r, pr_baseline_trace_root = tr_trace_root l, pr_candidate_trace_root = tr_trace_root r,
            pr_baseline_metrics = tr_metrics l, pr_candidate_metrics = tr_metrics r\<rparr>
      | _ \<Rightarrow> Inl (KeyError, []))"

definition pair_topology_runs :: "topology_run list \<Rightarrow> topology_run list \<Rightarrow> paired_run list res" where
  "pair_topology_runs baseline candidate =
     (let left = by_case baseline; right = by_case candidate in
      if left = [] \<or> set (dkeys left) \<noteq> set (dkeys right)
      then Inl (ValueError, ''topology comparisons require exactly matched task IDs and random seeds'')
      else if length left \<noteq> length baseline \<or> length right \<noteq> length candidate
      then Inl (ValueError, ''topology comparisons cannot contain duplicate task-and-seed cases'')
      else map_res (paired_case left right) (sort (dkeys left)))"

section \<open>Statistics\<close>

record metric_statistics =
  ms_metric :: string
  ms_direction :: metric_direction
  ms_mean_delta :: xfloat
  ms_median_delta :: xfloat
  ms_interval :: "xfloat \<times> xfloat"

definition metric_value :: "metrics \<Rightarrow> string \<Rightarrow> xfloat res" where
  "metric_value m k = (case dget m k of None \<Rightarrow> Inl (KeyError, repr_str k) | Some t \<Rightarrow> Inr (xf t))"

definition metric_delta :: "string \<Rightarrow> paired_run \<Rightarrow> xfloat res" where
  "metric_delta k p = bnd (metric_value (pr_candidate_metrics p) k) (\<lambda>c.
     bnd (metric_value (pr_baseline_metrics p) k) (\<lambda>b. Inr (xf_sub c b)))"

definition directed :: "metric_direction \<Rightarrow> xfloat \<Rightarrow> xfloat" where
  "directed d x = (case d of MAXIMIZE \<Rightarrow> x | MINIMIZE \<Rightarrow> xf_neg x)"

text \<open>\<open>sorted\<close>: stable insertion by \<open><\<close>. On numbers every sorting algorithm gives this result.\<close>

fun xinsert :: "xfloat \<Rightarrow> xfloat list \<Rightarrow> xfloat list" where
  "xinsert x [] = [x]"
| "xinsert x (y # ys) = (if xf_lt x y then x # y # ys else y # xinsert x ys)"

definition xsort :: "xfloat list \<Rightarrow> xfloat list" where
  "xsort xs = fold xinsert xs []"

definition xmedian :: "xfloat list \<Rightarrow> xfloat" where
  "xmedian xs = (let ys = xsort xs; n = length xs in
     if odd n then ys ! (n div 2) else xf_over (xf_sub (ys ! (n div 2 - 1)) (xf_neg (ys ! (n div 2)))) 2)"

text \<open>\<open>int(q * (n - 1))\<close> in floating point.\<close>

definition quantile_index :: "rat \<Rightarrow> int \<Rightarrow> nat" where
  "quantile_index q n = nat \<lfloor>round64 (round64 q * of_int (n - 1))\<rfloor>"

definition metrics_dict :: "metrics \<Rightarrow> pyval" where
  "metrics_dict m = PDict (map (\<lambda>(k, t). (k, PFloat t)) m)"

definition pair_dict :: "paired_run \<Rightarrow> pyval" where
  "pair_dict p = PDict [(''task_id'', PStr (pr_task_id p)), (''seed'', PInt (pr_seed p)),
     (''baseline_run_id'', PStr (pr_baseline_run_id p)), (''candidate_run_id'', PStr (pr_candidate_run_id p)),
     (''baseline_trace_root'', PStr (pr_baseline_trace_root p)), (''candidate_trace_root'', PStr (pr_candidate_trace_root p)),
     (''baseline_metrics'', metrics_dict (pr_baseline_metrics p)), (''candidate_metrics'', metrics_dict (pr_candidate_metrics p))]"

type_synonym picks = "string \<Rightarrow> nat \<Rightarrow> nat \<Rightarrow> nat"

text \<open>The means of \<open>samples\<close> resamples; the draws are consumed in order.\<close>

definition resamples :: "picks \<Rightarrow> string \<Rightarrow> xfloat list \<Rightarrow> int \<Rightarrow> xfloat list res" where
  "resamples pick seed xs samples = map_res (\<lambda>i. fmean (map (\<lambda>j. xs ! pick seed (length xs) (i * length xs + j)) [0..<length xs])) [0..<nat samples]"

definition paired_metric_statistics :: "crypto \<Rightarrow> picks \<Rightarrow> paired_run list \<Rightarrow> string \<Rightarrow> metric_direction \<Rightarrow> int \<Rightarrow> metric_statistics res" where
  "paired_metric_statistics cr pick ps metric d samples =
     (if ps = [] \<or> samples < 100 \<or> list_ex (\<lambda>p. metric \<notin> set (dkeys (pr_baseline_metrics p))) ps
      then Inl (ValueError, ''statistics need a metric in every paired result and a meaningful bootstrap count'')
      else bnd (map_res (\<lambda>p. bnd (metric_delta metric p) (\<lambda>x. Inr (directed d x))) ps) (\<lambda>signed.
        let seed = digest cr (PDict [(''metric'', PStr metric), (''pairs'', PTuple (map pair_dict ps)), (''samples'', PInt samples)]) in
        bnd (resamples pick seed signed samples) (\<lambda>means.
          let xs = xsort means in
          bnd (fmean signed) (\<lambda>mean.
            Inr \<lparr>ms_metric = metric, ms_direction = d, ms_mean_delta = mean, ms_median_delta = xmedian signed,
              ms_interval = (xs ! quantile_index (1 / 40) samples, xs ! quantile_index (39 / 40) samples)\<rparr>))))"

section \<open>Evaluation bundles\<close>

record evaluation_bundle =
  eb_change_id :: string
  eb_baseline :: experiment_key
  eb_candidate :: experiment_key
  eb_primary_metric :: string
  eb_direction :: metric_direction
  eb_minimum_improvement :: string
  eb_minimum_samples :: int
  eb_pairs :: "paired_run list"
  eb_signer_id :: string
  eb_signature :: string

definition evaluation_bundle_init :: "evaluation_bundle \<Rightarrow> evaluation_bundle res" where
  "evaluation_bundle_init b =
     (let x = eb_baseline b; y = eb_candidate b in
      if blank (eb_change_id b) \<or> blank (eb_primary_metric b) \<or> blank (eb_signer_id b) \<or> eb_minimum_samples b < 1
      then Inl (ValueError, ''evaluation bundles need identity, metric, signer, and sample floor'')
      else if xk_model_id x \<noteq> xk_model_id y \<or> xk_model_config_digest x \<noteq> xk_model_config_digest y
      then Inl (ValueError, ''paired evaluations must hold model configuration constant'')
      else if xk_dataset_digest x \<noteq> xk_dataset_digest y \<or> xk_tool_environment_digest x \<noteq> xk_tool_environment_digest y
      then Inl (ValueError, ''paired evaluations must hold dataset and tool environment constant'')
      else if int (length (eb_pairs b)) < eb_minimum_samples b
      then Inl (ValueError, ''evaluation bundle has too few paired samples'')
      else if \<not> distinct (map (\<lambda>p. (pr_task_id p, pr_seed p)) (eb_pairs b))
      then Inl (ValueError, ''evaluation bundle contains duplicate paired task-and-seed cases'')
      else if list_ex (\<lambda>p. eb_primary_metric b \<notin> set (dkeys (pr_baseline_metrics p))) (eb_pairs b)
      then Inl (ValueError, ''primary metric is missing from a paired run'') else Inr b)"

definition bundle_payload :: "evaluation_bundle \<Rightarrow> string" where
  "bundle_payload b = canonical_json (PDict [(''change_id'', PStr (eb_change_id b)), (''baseline'', key_dict (eb_baseline b)),
     (''candidate'', key_dict (eb_candidate b)), (''primary_metric'', PStr (eb_primary_metric b)),
     (''direction'', PStr (direction_value (eb_direction b))), (''minimum_improvement'', PFloat (eb_minimum_improvement b)),
     (''minimum_samples'', PInt (eb_minimum_samples b)), (''pairs'', PTuple (map pair_dict (eb_pairs b))),
     (''signer_id'', PStr (eb_signer_id b)), (''signature'', PStr [])])"

definition bundle_improvement :: "evaluation_bundle \<Rightarrow> xfloat res" where
  "bundle_improvement b = bnd (map_res (metric_delta (eb_primary_metric b)) (eb_pairs b)) (\<lambda>ds.
     bnd (fmean ds) (\<lambda>raw. Inr (directed (eb_direction b) raw)))"

definition safety_regression :: "evaluation_bundle \<Rightarrow> string \<Rightarrow> xfloat res" where
  "safety_regression b metric = bnd (map_res (metric_delta metric) (eb_pairs b)) fmean"

definition primary_statistics :: "crypto \<Rightarrow> picks \<Rightarrow> evaluation_bundle \<Rightarrow> metric_statistics res" where
  "primary_statistics cr pick b = paired_metric_statistics cr pick (eb_pairs b) (eb_primary_metric b) (eb_direction b) 2000"

text \<open>A signer is its identity and private key, a verifier the public keys by identity.\<close>

definition sign_bundle :: "crypto \<Rightarrow> string \<times> string \<Rightarrow> evaluation_bundle \<Rightarrow> evaluation_bundle res" where
  "sign_bundle cr signer b =
     (if eb_signer_id b \<noteq> fst signer then Inl (ValueError, ''evaluation bundle signer differs from signing key'')
      else evaluation_bundle_init (b\<lparr>eb_signature := ed_sign cr (snd signer) (bundle_payload b)\<rparr>))"

text \<open>The safety metrics are compared when every pair reports them.\<close>

fun check_regressions :: "evaluation_bundle \<Rightarrow> string list \<Rightarrow> unit res" where
  "check_regressions b [] = Inr ()"
| "check_regressions b (m # ms) =
     (if list_all (\<lambda>p. m \<in> set (dkeys (pr_baseline_metrics p))) (eb_pairs b)
      then bnd (safety_regression b m) (\<lambda>x. if xf_lt (Fin 0) x then Inl (PermissionError, ''evaluation regresses '' @ m)
        else check_regressions b ms)
      else check_regressions b ms)"

definition validate_bundle :: "crypto \<Rightarrow> picks \<Rightarrow> (string \<times> string) list \<Rightarrow> evaluation_bundle \<Rightarrow> unit res" where
  "validate_bundle cr pick keys b =
     (case dget keys (eb_signer_id b) of
        None \<Rightarrow> Inl (PermissionError, ''evaluation signer is not trusted'')
      | Some key \<Rightarrow>
          if \<not> ed_verify cr key (bundle_payload b) (eb_signature b)
          then Inl (PermissionError, ''evaluation bundle signature is invalid'')
          else bnd (bundle_improvement b) (\<lambda>x.
            if xf_lt x (xf (eb_minimum_improvement b))
            then Inl (PermissionError, ''evaluation did not meet its declared improvement'')
            else bnd (primary_statistics cr pick b) (\<lambda>s.
              if xf_lt (fst (ms_interval s)) (xf (eb_minimum_improvement b))
              then Inl (PermissionError, ''evaluation confidence interval does not meet its declared improvement'')
              else check_regressions b [''false_acceptance'', ''policy_violation''])))"

section \<open>Review receipts\<close>

record review_receipt =
  rv_change_id :: string
  rv_reviewer_id :: string
  rv_role :: string
  rv_issued_at :: dtime
  rv_expires_at :: dtime
  rv_nonce :: string
  rv_signer_id :: string
  rv_signature :: string

text \<open>Comparing an aware with a naive instant raises \<open>TypeError\<close>; the first test excludes a naive issue time.\<close>

definition review_receipt_init :: "review_receipt \<Rightarrow> review_receipt res" where
  "review_receipt_init r =
     (if blank (rv_change_id r) \<or> blank (rv_reviewer_id r) \<or> blank (rv_role r) \<or> blank (rv_nonce r) \<or> blank (rv_signer_id r)
      then Inl (ValueError, ''review receipts need change, reviewer, role, nonce, and signer'')
      else if \<not> aware (rv_issued_at r) then Inl (ValueError, ''review receipt validity is invalid'')
      else if \<not> aware (rv_expires_at r) then Inl (TypeError, ''can't compare offset-naive and offset-aware datetimes'')
      else if instant (rv_expires_at r) \<le> instant (rv_issued_at r) then Inl (ValueError, ''review receipt validity is invalid'')
      else Inr r)"

definition review_payload :: "review_receipt \<Rightarrow> string" where
  "review_payload r = canonical_json (PDict [(''change_id'', PStr (rv_change_id r)), (''reviewer_id'', PStr (rv_reviewer_id r)),
     (''role'', PStr (rv_role r)), (''issued_at'', PStr (isoformat (rv_issued_at r))), (''expires_at'', PStr (isoformat (rv_expires_at r))),
     (''nonce'', PStr (rv_nonce r)), (''signer_id'', PStr (rv_signer_id r)), (''signature'', PStr [])])"

definition issue_review :: "crypto \<Rightarrow> string \<times> string \<Rightarrow> string \<Rightarrow> string \<Rightarrow> string \<Rightarrow> int \<Rightarrow> int \<Rightarrow> review_receipt res" where
  "issue_review cr signer change reviewer role ttl now =
     bnd (review_receipt_init \<lparr>rv_change_id = change, rv_reviewer_id = reviewer, rv_role = role, rv_issued_at = utc now,
       rv_expires_at = utc (now + ttl), rv_nonce = digest cr (PDict [(''change_id'', PStr change), (''reviewer_id'', PStr reviewer),
       (''issued_at'', PStr (isoformat (utc now)))]), rv_signer_id = fst signer, rv_signature = []\<rparr>) (\<lambda>r.
     review_receipt_init (r\<lparr>rv_signature := ed_sign cr (snd signer) (review_payload r)\<rparr>))"

definition validate_review :: "crypto \<Rightarrow> (string \<times> string) list \<Rightarrow> review_receipt \<Rightarrow> string \<Rightarrow> int \<Rightarrow> unit res" where
  "validate_review cr keys r role now =
     (case dget keys (rv_signer_id r) of
        None \<Rightarrow> Inl (PermissionError, ''harness review receipt is not trusted or current'')
      | Some key \<Rightarrow>
          if rv_role r \<noteq> role \<or> instant (rv_expires_at r) \<le> now
          then Inl (PermissionError, ''harness review receipt is not trusted or current'')
          else if \<not> ed_verify cr key (review_payload r) (rv_signature r)
          then Inl (PermissionError, ''harness review receipt signature is invalid'') else Inr ())"

section \<open>What pairing establishes\<close>

lemma by_case_get: "dget (by_case rs) c = Some r \<Longrightarrow> r \<in> set rs \<and> run_case r = c"
proof (induction rs rule: rev_induct)
  case (snoc x xs)
  have "by_case (xs @ [x]) = AList.update (run_case x) x (by_case xs)" by (simp add: by_case_def)
  then show ?case using snoc by (auto split: if_splits)
qed (simp add: by_case_def)

lemma dkeys_by_case: "set (dkeys (by_case rs)) = run_case ` set rs \<and> distinct (dkeys (by_case rs))"
proof (induction rs rule: rev_induct)
  case (snoc x xs)
  have "by_case (xs @ [x]) = AList.update (run_case x) x (by_case xs)" by (simp add: by_case_def)
  then show ?case using snoc by simp
qed (simp add: by_case_def dkeys_def)

lemma by_case_distinct:
  assumes "length (by_case rs) = length rs"
  shows "distinct (map run_case rs)"
proof -
  have "card (set (map run_case rs)) = length (dkeys (by_case rs))"
    using dkeys_by_case [of rs] distinct_card by fastforce
  then show ?thesis using assms by (simp add: dkeys_def card_distinct)
qed

lemma map_res_nth: "map_res f xs = Inr ys \<Longrightarrow> length ys = length xs \<and> (\<forall>i < length xs. f (xs ! i) = Inr (ys ! i))"
  by (induction xs arbitrary: ys) (auto simp: bnd_eq_Inr nth_Cons split: nat.splits)

lemma pair_ofD:
  assumes "paired_case (by_case bs) (by_case cs) c = Inr p"
  shows "\<exists>l \<in> set bs. \<exists>r \<in> set cs. run_case l = c \<and> run_case r = c \<and> comparable_experiments (tr_experiment l) (tr_experiment r)
    \<and> (pr_task_id p, pr_seed p) = c \<and> pr_baseline_run_id p = tr_run_id l \<and> pr_candidate_run_id p = tr_run_id r
    \<and> pr_baseline_metrics p = tr_metrics l \<and> pr_candidate_metrics p = tr_metrics r"
proof -
  obtain l r where g: "dget (by_case bs) c = Some l" "dget (by_case cs) c = Some r"
    using assms by (auto simp: paired_case_def split: option.splits)
  have "run_case l = c" "run_case r = c" "l \<in> set bs" "r \<in> set cs" using by_case_get g by blast+
  then show ?thesis using assms g
    by (intro bexI [of _ l] bexI [of _ r]) (auto simp: paired_case_def paired_run_init_def run_case_def split: if_splits)
qed

text \<open>Pairing is exact: from two lists of runs it makes one pair for each task and seed, in order, when both lists
  have exactly the same cases and none twice; the two runs of a pair differ in nothing but the graph and the
  harness bundle.\<close>

theorem pairing_exact:
  assumes "pair_topology_runs bs cs = Inr ps"
  shows "map (\<lambda>p. (pr_task_id p, pr_seed p)) ps = sort (map run_case bs) \<and> distinct (map run_case bs)
    \<and> mset (map run_case cs) = mset (map run_case bs)
    \<and> (\<forall>p \<in> set ps. \<exists>l \<in> set bs. \<exists>r \<in> set cs. run_case l = (pr_task_id p, pr_seed p) \<and> run_case r = (pr_task_id p, pr_seed p)
         \<and> comparable_experiments (tr_experiment l) (tr_experiment r) \<and> pr_baseline_metrics p = tr_metrics l \<and> pr_candidate_metrics p = tr_metrics r)"
proof -
  have c: "set (dkeys (by_case bs)) = set (dkeys (by_case cs))" "length (by_case bs) = length bs" "length (by_case cs) = length cs"
    "map_res (paired_case (by_case bs) (by_case cs)) (sort (dkeys (by_case bs))) = Inr ps"
    using assms by (auto simp: pair_topology_runs_def Let_def split: if_splits)
  have d: "distinct (map run_case bs)" "distinct (map run_case cs)" using by_case_distinct c(2,3) by blast+
  have same: "set (map run_case bs) = set (dkeys (by_case bs))" "set (map run_case cs) = set (map run_case bs)"
    using dkeys_by_case [of bs] dkeys_by_case [of cs] c(1) by auto
  have keys: "sort (dkeys (by_case bs)) = sort (map run_case bs)"
    using same(1) d(1) dkeys_by_case [of bs] by (metis sorted_list_of_set_sort_remdups distinct_remdups_id)
  have len: "length ps = length (sort (dkeys (by_case bs)))" and nth: "i < length ps \<Longrightarrow> paired_case (by_case bs) (by_case cs) (sort (dkeys (by_case bs)) ! i) = Inr (ps ! i)" for i
    using map_res_nth [OF c(4)] by auto
  have at_i: "(pr_task_id (ps ! i), pr_seed (ps ! i)) = sort (dkeys (by_case bs)) ! i" if "i < length ps" for i
    using pair_ofD [OF nth [OF that]] by blast
  have "map (\<lambda>p. (pr_task_id p, pr_seed p)) ps = sort (dkeys (by_case bs))"
  proof (rule nth_equalityI)
    show "length (map (\<lambda>p. (pr_task_id p, pr_seed p)) ps) = length (sort (dkeys (by_case bs)))" using len by simp
    show "map (\<lambda>p. (pr_task_id p, pr_seed p)) ps ! i = sort (dkeys (by_case bs)) ! i"
      if "i < length (map (\<lambda>p. (pr_task_id p, pr_seed p)) ps)" for i
      using that at_i [of i] by simp
  qed
  moreover have "\<exists>l \<in> set bs. \<exists>r \<in> set cs. run_case l = (pr_task_id p, pr_seed p) \<and> run_case r = (pr_task_id p, pr_seed p)
         \<and> comparable_experiments (tr_experiment l) (tr_experiment r) \<and> pr_baseline_metrics p = tr_metrics l \<and> pr_candidate_metrics p = tr_metrics r"
    if mem: "p \<in> set ps" for p
  proof -
    obtain i where i: "i < length ps" "p = ps ! i" using mem by (auto simp: in_set_conv_nth)
    show ?thesis using pair_ofD [OF nth [OF i(1)]] at_i [OF i(1)] unfolding i(2) by metis
  qed
  moreover have "mset (map run_case cs) = mset (map run_case bs)" using d same(2) set_eq_iff_mset_eq_distinct by blast
  ultimately show ?thesis using keys d(1) by simp
qed

end
