(* ===== verification/Harness_Registry.thy ===== *)
theory Harness_Registry
  imports Harness_Experiments Codec
begin

text \<open>
  \<open>src/vloop/harness_evolution.py\<close>: versioned harness components and the registry that promotes and
  rolls back changes. The two tables are lists of rows, a JSON column holds its value, clocks are
  arguments; the calls of the registry are taken one after another.
\<close>

section \<open>Components and proposals\<close>

datatype change_status = PROPOSED | SHADOW_PASSED | REJECTED | PROMOTED | ROLLED_BACK

primrec change_status_value :: "change_status \<Rightarrow> string" where
  "change_status_value PROPOSED = ''proposed''"
| "change_status_value SHADOW_PASSED = ''shadow-passed''"
| "change_status_value REJECTED = ''rejected''"
| "change_status_value PROMOTED = ''promoted''"
| "change_status_value ROLLED_BACK = ''rolled-back''"

definition change_status_of :: "string \<Rightarrow> change_status res" where
  "change_status_of s = (case filter (\<lambda>x. change_status_value x = s) [PROPOSED, SHADOW_PASSED, REJECTED, PROMOTED, ROLLED_BACK] of
     [] \<Rightarrow> Inl (ValueError, repr_str s @ '' is not a valid HarnessChangeStatus'') | x # _ \<Rightarrow> Inr x)"

record harness_component =
  hc_component_id :: string
  hc_kind :: string
  hc_version :: string
  hc_configuration :: "(string \<times> string) list"

definition harness_component_init :: "harness_component \<Rightarrow> harness_component res" where
  "harness_component_init c = (if blank (hc_component_id c) \<or> blank (hc_kind c) \<or> blank (hc_version c)
     then Inl (ValueError, ''harness components need stable id, kind, and version'') else Inr c)"

text \<open>The dictionary that \<open>component_digest\<close> hashes is the one \<open>_encode_component\<close> stores.\<close>

definition encode_component :: "harness_component \<Rightarrow> pyval" where
  "encode_component c = PDict [(''component_id'', PStr (hc_component_id c)), (''kind'', PStr (hc_kind c)),
     (''version'', PStr (hc_version c)), (''configuration'', PDict (map (\<lambda>(k, v). (k, PStr v)) (hc_configuration c)))]"

definition component_digest :: "crypto \<Rightarrow> harness_component \<Rightarrow> string" where
  "component_digest cr c = digest cr (encode_component c)"

definition text_field :: "pyval \<Rightarrow> string res" where
  "text_field v = Inr (py_str v)"

definition decode_component :: "pyval \<Rightarrow> harness_component res" where
  "decode_component v =
     bnd (dict_of v) (\<lambda>d.
     bnd (fld d ''component_id'' text_field) (\<lambda>i.
     bnd (fld d ''kind'' text_field) (\<lambda>k.
     bnd (fld d ''version'' text_field) (\<lambda>n.
     bnd (fld d ''configuration'' str_dict_of) (\<lambda>f.
       harness_component_init \<lparr>hc_component_id = i, hc_kind = k, hc_version = n, hc_configuration = f\<rparr>)))))"

text \<open>\<open>HarnessComponent(**value)\<close>: the keys must be exactly the fields.\<close>

definition component_from_kwargs :: "pyval \<Rightarrow> harness_component res" where
  "component_from_kwargs v =
     bnd (dict_of v) (\<lambda>d.
     if set (dkeys d) \<noteq> {''component_id'', ''kind'', ''version'', ''configuration''}
     then Inl (TypeError, ''HarnessComponent.__init__() arguments'')
     else bnd (fld d ''component_id'' str_of) (\<lambda>i.
     bnd (fld d ''kind'' str_of) (\<lambda>k.
     bnd (fld d ''version'' str_of) (\<lambda>n.
     bnd (fld d ''configuration'' str_dict_of) (\<lambda>f.
       harness_component_init \<lparr>hc_component_id = i, hc_kind = k, hc_version = n, hc_configuration = f\<rparr>)))))"

record change_proposal =
  hp_change_id :: string
  hp_component :: harness_component
  hp_base_component_digest :: string
  hp_proposer_id :: string
  hp_predicted_metric :: string
  hp_minimum_improvement :: string
  hp_expected_failure_mode :: string
  hp_affected_task_classes :: "string list"

definition change_proposal_init :: "change_proposal \<Rightarrow> change_proposal res" where
  "change_proposal_init p =
     (if blank (hp_change_id p) \<or> hp_base_component_digest p = [] \<or> blank (hp_proposer_id p) \<or> blank (hp_predicted_metric p)
         \<or> blank (hp_expected_failure_mode p)
      then Inl (ValueError, ''harness proposals need stable identity and a predicted metric'')
      else if length (hp_base_component_digest p) \<noteq> 64
      then Inl (ValueError, ''harness proposal base digest must be SHA-256 hex'') else Inr p)"

definition encode_proposal :: "change_proposal \<Rightarrow> pyval" where
  "encode_proposal p = PDict [(''change_id'', PStr (hp_change_id p)), (''component'', json_norm (encode_component (hp_component p))),
     (''base_component_digest'', PStr (hp_base_component_digest p)), (''proposer_id'', PStr (hp_proposer_id p)),
     (''predicted_metric'', PStr (hp_predicted_metric p)), (''minimum_improvement'', PFloat (hp_minimum_improvement p)),
     (''expected_failure_mode'', PStr (hp_expected_failure_mode p)),
     (''affected_task_classes'', PTuple (map PStr (hp_affected_task_classes p)))]"

fun float_field :: "pyval \<Rightarrow> string res" where
  "float_field (PFloat t) = Inr t"
| "float_field v = Inl (TypeError, ''expected a float'')"

definition decode_proposal :: "pyval \<Rightarrow> change_proposal res" where
  "decode_proposal v =
     bnd (dict_of v) (\<lambda>d.
     bnd (fld d ''change_id'' text_field) (\<lambda>i.
     bnd (fld d ''component'' component_from_kwargs) (\<lambda>c.
     bnd (fld d ''base_component_digest'' text_field) (\<lambda>b.
     bnd (fld d ''proposer_id'' text_field) (\<lambda>p.
     bnd (fld d ''predicted_metric'' text_field) (\<lambda>m.
     bnd (fld d ''minimum_improvement'' float_field) (\<lambda>x.
     bnd (fld d ''expected_failure_mode'' text_field) (\<lambda>f.
     bnd (fld d ''affected_task_classes'' strs_of) (\<lambda>a.
       change_proposal_init \<lparr>hp_change_id = i, hp_component = c, hp_base_component_digest = b, hp_proposer_id = p,
         hp_predicted_metric = m, hp_minimum_improvement = x, hp_expected_failure_mode = f, hp_affected_task_classes = a\<rparr>)))))))))"

record shadow_evaluation =
  se_change_id :: string
  se_baseline_score :: string
  se_observed_score :: string
  se_held_out_passed :: bool
  se_rollback_threshold :: string

definition shadow_improvement :: "shadow_evaluation \<Rightarrow> xfloat" where
  "shadow_improvement e = xf_sub (xf (se_observed_score e)) (xf (se_baseline_score e))"

definition encode_shadow :: "shadow_evaluation \<Rightarrow> string" where
  "encode_shadow e = canonical_json (PDict [(''change_id'', PStr (se_change_id e)), (''baseline_score'', PFloat (se_baseline_score e)),
     (''observed_score'', PFloat (se_observed_score e)), (''held_out_passed'', PBool (se_held_out_passed e)),
     (''rollback_threshold'', PFloat (se_rollback_threshold e))])"

section \<open>The registry\<close>

record component_row =
  cw_component_id :: string
  cw_json :: pyval
  cw_digest :: string
  cw_updated_at :: string

record change_row =
  gw_change_id :: string
  gw_component_id :: string
  gw_proposal :: pyval
  gw_status :: string
  gw_shadow :: "pyval option"
  gw_reviewer_id :: "string option"
  gw_previous :: "pyval option"
  gw_updated_at :: string

record registry =
  rg_components :: "component_row list"
  rg_changes :: "change_row list"

definition component_row_for :: "registry \<Rightarrow> string \<Rightarrow> component_row option" where
  "component_row_for db i = List.find (\<lambda>r. cw_component_id r = i) (rg_components db)"

definition change_row_for :: "registry \<Rightarrow> string \<Rightarrow> change_row option" where
  "change_row_for db i = List.find (\<lambda>r. gw_change_id r = i) (rg_changes db)"

definition stamp :: "int \<Rightarrow> string" where
  "stamp now = isoformat (utc now)"

text \<open>\<open>INSERT ... ON CONFLICT(component_id) DO UPDATE\<close>.\<close>

definition register :: "crypto \<Rightarrow> harness_component \<Rightarrow> int \<Rightarrow> registry \<Rightarrow> registry" where
  "register cr c now db =
     (let row = \<lparr>cw_component_id = hc_component_id c, cw_json = json_norm (encode_component c), cw_digest = component_digest cr c,
        cw_updated_at = stamp now\<rparr> in
      db\<lparr>rg_components := (if hc_component_id c \<in> set (map cw_component_id (rg_components db))
        then map (\<lambda>r. if cw_component_id r = hc_component_id c then row else r) (rg_components db) else rg_components db @ [row])\<rparr>)"

definition registry_propose :: "change_proposal \<Rightarrow> int \<Rightarrow> registry \<Rightarrow> unit res \<times> registry" where
  "registry_propose p now db =
     (case component_row_for db (hc_component_id (hp_component p)) of
        None \<Rightarrow> (Inl (ValueError, ''harness proposal is not based on the current component''), db)
      | Some r \<Rightarrow>
          if cw_digest r \<noteq> hp_base_component_digest p
          then (Inl (ValueError, ''harness proposal is not based on the current component''), db)
          else if hp_change_id p \<in> set (map gw_change_id (rg_changes db))
          then (Inl (IntegrityError, ''UNIQUE constraint failed: harness_changes.change_id''), db)
          else (Inr (), db\<lparr>rg_changes := rg_changes db @ [\<lparr>gw_change_id = hp_change_id p,
            gw_component_id = hc_component_id (hp_component p), gw_proposal = json_norm (encode_proposal p), gw_status = ''proposed'',
            gw_shadow = None, gw_reviewer_id = None, gw_previous = None, gw_updated_at = stamp now\<rparr>]\<rparr>))"

definition record_shadow :: "shadow_evaluation \<Rightarrow> change_status res" where
  "record_shadow e = Inl (PermissionError, ''unsigned shadow results cannot promote harness changes'')"

definition promote_unsigned :: "string \<Rightarrow> string \<Rightarrow> harness_component res" where
  "promote_unsigned change reviewer = Inl (PermissionError, ''unsigned reviewer identity cannot promote a harness change'')"

definition rollback_unsigned :: "string \<Rightarrow> string \<Rightarrow> harness_component res" where
  "rollback_unsigned change reviewer = Inl (PermissionError, ''unsigned reviewer identity cannot roll back a harness change'')"

definition update_change :: "string \<Rightarrow> (change_row \<Rightarrow> change_row) \<Rightarrow> registry \<Rightarrow> registry" where
  "update_change i f db = db\<lparr>rg_changes := map (\<lambda>r. if gw_change_id r = i then f r else r) (rg_changes db)\<rparr>"

definition shadow_json :: "evaluation_bundle \<Rightarrow> pyval" where
  "shadow_json b = json_norm (PDict [(''bundle'', PStr (bundle_payload b)), (''signature'', PStr (eb_signature b))])"

definition record_signed_shadow :: "crypto \<Rightarrow> picks \<Rightarrow> (string \<times> string) list \<Rightarrow> evaluation_bundle \<Rightarrow> int \<Rightarrow> registry
    \<Rightarrow> change_status res \<times> registry" where
  "record_signed_shadow cr pick keys b now db =
     (case bnd (validate_bundle cr pick keys b) (\<lambda>_.
        case change_row_for db (eb_change_id b) of
          None \<Rightarrow> Inl (ValueError, ''only proposed harness changes may receive shadow evidence'')
        | Some row \<Rightarrow>
            if gw_status row \<noteq> ''proposed''
            then Inl (ValueError, ''only proposed harness changes may receive shadow evidence'')
            else bnd (decode_proposal (gw_proposal row)) (\<lambda>p.
              if eb_primary_metric b \<noteq> hp_predicted_metric p
              then Inl (PermissionError, ''signed shadow evidence does not satisfy its immutable proposal'')
              else bnd (bundle_improvement b) (\<lambda>x.
                if xf_lt x (xf (hp_minimum_improvement p))
                then Inl (PermissionError, ''signed shadow evidence does not satisfy its immutable proposal'') else Inr ()))) of
        Inl e \<Rightarrow> (Inl e, db)
      | Inr _ \<Rightarrow> (Inr SHADOW_PASSED, update_change (eb_change_id b)
          (\<lambda>r. r\<lparr>gw_status := ''shadow-passed'', gw_shadow := Some (shadow_json b), gw_updated_at := stamp now\<rparr>) db))"

text \<open>The checks of \<open>_promote\<close>, then its two updates; a failed check rolls the transaction back.\<close>

definition promote_checks :: "string \<Rightarrow> string \<Rightarrow> registry \<Rightarrow> (harness_component \<times> pyval) res" where
  "promote_checks change reviewer db =
     (case change_row_for db change of
        None \<Rightarrow> Inl (ValueError, ''unknown harness change'')
      | Some row \<Rightarrow> bnd (decode_proposal (gw_proposal row)) (\<lambda>p.
          if gw_status row \<noteq> ''shadow-passed'' then Inl (PermissionError, ''only held-out shadow-passed changes may be promoted'')
          else if reviewer = hp_proposer_id p then Inl (PermissionError, ''a harness proposer cannot promote its own change'')
          else case component_row_for db (hc_component_id (hp_component p)) of
            None \<Rightarrow> Inl (PermissionError, ''harness component changed since the shadow experiment'')
          | Some current \<Rightarrow> if cw_digest current \<noteq> hp_base_component_digest p
              then Inl (PermissionError, ''harness component changed since the shadow experiment'')
              else Inr (hp_component p, cw_json current)))"

definition promote_change :: "crypto \<Rightarrow> string \<Rightarrow> string \<Rightarrow> int \<Rightarrow> registry \<Rightarrow> harness_component res \<times> registry" where
  "promote_change cr change reviewer now db =
     (case promote_checks change reviewer db of
        Inl e \<Rightarrow> (Inl e, db)
      | Inr (c, previous) \<Rightarrow> (Inr c, update_change change (\<lambda>r. r\<lparr>gw_status := ''promoted'', gw_reviewer_id := Some reviewer,
          gw_previous := Some previous, gw_updated_at := stamp now\<rparr>) (register cr c now db)))"

definition promote_signed :: "crypto \<Rightarrow> (string \<times> string) list \<Rightarrow> string \<Rightarrow> review_receipt \<Rightarrow> int \<Rightarrow> registry
    \<Rightarrow> harness_component res \<times> registry" where
  "promote_signed cr keys change r now db =
     (if rv_change_id r \<noteq> change then (Inl (PermissionError, ''review receipt targets another harness change''), db)
      else case validate_review cr keys r ''harness-promoter'' now of
        Inl e \<Rightarrow> (Inl e, db)
      | Inr _ \<Rightarrow> promote_change cr change (rv_reviewer_id r) now db)"

definition rollback_checks :: "crypto \<Rightarrow> string \<Rightarrow> string \<Rightarrow> registry \<Rightarrow> harness_component res" where
  "rollback_checks cr change reviewer db =
     (case change_row_for db change of
        None \<Rightarrow> Inl (ValueError, ''unknown harness change'')
      | Some row \<Rightarrow> bnd (decode_proposal (gw_proposal row)) (\<lambda>p.
          case gw_previous row of
            None \<Rightarrow> Inl (PermissionError, ''only a promoted change with a retained baseline may be rolled back'')
          | Some previous \<Rightarrow>
              if gw_status row \<noteq> ''promoted''
              then Inl (PermissionError, ''only a promoted change with a retained baseline may be rolled back'')
              else if reviewer = hp_proposer_id p \<or> gw_reviewer_id row = Some reviewer
              then Inl (PermissionError, ''rollback needs an independent reviewer'')
              else case component_row_for db (hc_component_id (hp_component p)) of
                None \<Rightarrow> Inl (PermissionError, ''harness component changed after promotion; rollback would overwrite newer work'')
              | Some current \<Rightarrow> if cw_digest current \<noteq> component_digest cr (hp_component p)
                  then Inl (PermissionError, ''harness component changed after promotion; rollback would overwrite newer work'')
                  else decode_component previous))"

definition rollback_change :: "crypto \<Rightarrow> string \<Rightarrow> string \<Rightarrow> int \<Rightarrow> registry \<Rightarrow> harness_component res \<times> registry" where
  "rollback_change cr change reviewer now db =
     (case rollback_checks cr change reviewer db of
        Inl e \<Rightarrow> (Inl e, db)
      | Inr c \<Rightarrow> (Inr c, update_change change (\<lambda>r. r\<lparr>gw_status := ''rolled-back'', gw_reviewer_id := Some reviewer,
          gw_updated_at := stamp now\<rparr>) (register cr c now db)))"

definition rollback_signed :: "crypto \<Rightarrow> (string \<times> string) list \<Rightarrow> string \<Rightarrow> review_receipt \<Rightarrow> int \<Rightarrow> registry
    \<Rightarrow> harness_component res \<times> registry" where
  "rollback_signed cr keys change r now db =
     (if rv_change_id r \<noteq> change then (Inl (PermissionError, ''review receipt targets another harness change''), db)
      else case validate_review cr keys r ''harness-rollback'' now of
        Inl e \<Rightarrow> (Inl e, db)
      | Inr _ \<Rightarrow> rollback_change cr change (rv_reviewer_id r) now db)"

definition registry_status :: "registry \<Rightarrow> string \<Rightarrow> change_status res" where
  "registry_status db change = (case change_row_for db change of
     None \<Rightarrow> Inl (ValueError, ''unknown harness change'') | Some row \<Rightarrow> change_status_of (gw_status row))"

end
