(* ===== verification/Harness_Props.thy ===== *)
theory Harness_Props
  imports Harness_Registry
begin

text \<open>
  What the harness registry guarantees over every sequence of its operations: a change is promoted only
  with signed evidence and by another than its proposer, and a rollback_change restores the version the change
  was based on.
\<close>

section \<open>Reading back what is stored\<close>

definition norm_component :: "harness_component \<Rightarrow> harness_component" where
  "norm_component c = c\<lparr>hc_configuration := sort_dict (hc_configuration c)\<rparr>"

definition norm_proposal :: "change_proposal \<Rightarrow> change_proposal" where
  "norm_proposal p = p\<lparr>hp_component := norm_component (hp_component p)\<rparr>"

lemma norm_component_id [simp]: "hc_component_id (norm_component c) = hc_component_id c"
  by (simp add: norm_component_def)

lemma norm_component_init [simp]: "harness_component_init (norm_component c) = Inr (norm_component c) \<longleftrightarrow> harness_component_init c = Inr c"
  by (simp add: harness_component_init_def norm_component_def)

lemma encode_norm_component [simp]: "json_norm (encode_component (norm_component c)) = json_norm (encode_component c)"
  unfolding encode_component_def
  by (rule json_norm_PDict_cong) (simp add: norm_component_def norm_dict_sorted_map del: json_norm.simps(3))

lemma digest_norm_component [simp]: "component_digest cr (norm_component c) = component_digest cr c"
  unfolding component_digest_def by (metis digest_norm encode_norm_component)

lemma str_dict_norm: "str_dict_of (json_norm (PDict (map (\<lambda>(k, v). (k, PStr v)) d))) = Inr (sort_dict d)"
  unfolding json_norm_PDict norm_dict_map by simp

lemma decode_component_encode:
  assumes "harness_component_init c = Inr c"
  shows "decode_component (json_norm (encode_component c)) = Inr (norm_component c)"
proof -
  have "harness_component_init (norm_component c) = Inr (norm_component c)" using assms by simp
  then show ?thesis
    unfolding encode_component_def json_norm_PDict decode_component_def
    by (cases c) (simp add: dget_Cons text_field_def str_dict_norm norm_component_def del: json_norm.simps(3))
qed

lemma component_from_kwargs_encode:
  assumes "harness_component_init c = Inr c"
  shows "component_from_kwargs (json_norm (encode_component c)) = Inr (norm_component c)"
proof -
  have "harness_component_init (norm_component c) = Inr (norm_component c)" using assms by simp
  moreover have "set (dkeys (norm_dict [(''component_id'', a), (''kind'', b), (''version'', x), (''configuration'', y)]))
      = {''component_id'', ''kind'', ''version'', ''configuration''}" for a b x y
    unfolding norm_dict_def by (simp add: dkeys_def)
  ultimately show ?thesis
    unfolding encode_component_def json_norm_PDict component_from_kwargs_def
    by (cases c) (simp add: dget_Cons str_dict_norm norm_component_def del: json_norm.simps(3))
qed

lemma decode_proposal_encode:
  assumes "harness_component_init (hp_component p) = Inr (hp_component p)" "change_proposal_init p = Inr p"
  shows "decode_proposal (json_norm (encode_proposal p)) = Inr (norm_proposal p)"
proof -
  have ok: "change_proposal_init (norm_proposal p) = Inr (norm_proposal p)"
    using assms(2) by (auto simp: change_proposal_init_def norm_proposal_def split: if_splits)
  have c: "component_from_kwargs (json_norm (encode_component (hp_component p))) = Inr (norm_component (hp_component p))"
    by (rule component_from_kwargs_encode [OF assms(1)])
  have a: "strs_of (json_norm (PTuple (map PStr (hp_affected_task_classes p)))) = Inr (hp_affected_task_classes p)"
    by (simp add: comp_def)
  show ?thesis
    using ok c a unfolding encode_proposal_def json_norm_PDict decode_proposal_def
    by (cases p) (simp add: dget_Cons text_field_def norm_proposal_def)
qed

section \<open>Reachable registries\<close>

definition built_component :: "harness_component \<Rightarrow> bool" where
  "built_component c \<longleftrightarrow> harness_component_init c = Inr c"

definition built_proposal :: "change_proposal \<Rightarrow> bool" where
  "built_proposal p \<longleftrightarrow> built_component (hp_component p) \<and> change_proposal_init p = Inr p"

text \<open>\<open>ek\<close> and \<open>rk\<close> are the keys of the evaluation and of the review verifier.\<close>

inductive registry_step :: "crypto \<Rightarrow> picks \<Rightarrow> (string \<times> string) list \<Rightarrow> (string \<times> string) list \<Rightarrow> registry \<Rightarrow> registry \<Rightarrow> bool"
  for cr pick ek rk where
  registered: "built_component c \<Longrightarrow> registry_step cr pick ek rk db (register cr c now db)"
| proposed: "built_proposal p \<Longrightarrow> registry_step cr pick ek rk db (snd (registry_propose p now db))"
| shadowed: "registry_step cr pick ek rk db (snd (record_signed_shadow cr pick ek b now db))"
| promoted: "registry_step cr pick ek rk db (snd (promote_signed cr rk i r now db))"
| rolled_back: "registry_step cr pick ek rk db (snd (rollback_signed cr rk i r now db))"

inductive registry_reachable :: "crypto \<Rightarrow> picks \<Rightarrow> (string \<times> string) list \<Rightarrow> (string \<times> string) list \<Rightarrow> registry \<Rightarrow> bool"
  for cr pick ek rk where
  created: "registry_reachable cr pick ek rk \<lparr>rg_components = [], rg_changes = []\<rparr>"
| step: "registry_reachable cr pick ek rk db \<Longrightarrow> registry_step cr pick ek rk db db' \<Longrightarrow> registry_reachable cr pick ek rk db'"

section \<open>The invariant\<close>

definition component_ok :: "crypto \<Rightarrow> component_row \<Rightarrow> bool" where
  "component_ok cr r \<longleftrightarrow> (\<exists>c. built_component c \<and> cw_component_id r = hc_component_id c
     \<and> cw_json r = json_norm (encode_component c) \<and> cw_digest r = component_digest cr c)"

text \<open>The signed evidence of a change, and the receipt of a reviewer who is not its proposer.\<close>

definition evidenced :: "crypto \<Rightarrow> picks \<Rightarrow> (string \<times> string) list \<Rightarrow> change_row \<Rightarrow> change_proposal \<Rightarrow> bool" where
  "evidenced cr pick ek g p \<longleftrightarrow> (\<exists>b x. validate_bundle cr pick ek b = Inr () \<and> eb_change_id b = gw_change_id g
     \<and> eb_primary_metric b = hp_predicted_metric p \<and> bundle_improvement b = Inr x
     \<and> \<not> xf_lt x (xf (hp_minimum_improvement p)) \<and> gw_shadow g = Some (shadow_json b))"

definition reviewed :: "crypto \<Rightarrow> (string \<times> string) list \<Rightarrow> string \<Rightarrow> change_row \<Rightarrow> change_proposal \<Rightarrow> bool" where
  "reviewed cr rk role g p \<longleftrightarrow> (\<exists>r now. validate_review cr rk r role now = Inr () \<and> rv_change_id r = gw_change_id g
     \<and> rv_reviewer_id r \<noteq> hp_proposer_id p)"

definition retained :: "crypto \<Rightarrow> change_row \<Rightarrow> change_proposal \<Rightarrow> bool" where
  "retained cr g p \<longleftrightarrow> (\<exists>c. built_component c \<and> gw_previous g = Some (json_norm (encode_component c))
     \<and> component_digest cr c = hp_base_component_digest p \<and> hc_component_id c = hc_component_id (hp_component p))"

definition governed :: "crypto \<Rightarrow> picks \<Rightarrow> (string \<times> string) list \<Rightarrow> (string \<times> string) list \<Rightarrow> change_row \<Rightarrow> change_proposal \<Rightarrow> bool" where
  "governed cr pick ek rk g p \<longleftrightarrow>
     (gw_status g = ''proposed''
      \<or> gw_status g = ''shadow-passed'' \<and> evidenced cr pick ek g p
      \<or> gw_status g = ''promoted'' \<and> evidenced cr pick ek g p \<and> reviewed cr rk ''harness-promoter'' g p \<and> retained cr g p
      \<or> gw_status g = ''rolled-back'' \<and> evidenced cr pick ek g p \<and> reviewed cr rk ''harness-promoter'' g p
          \<and> reviewed cr rk ''harness-rollback'' g p \<and> retained cr g p)"

definition change_ok :: "crypto \<Rightarrow> picks \<Rightarrow> (string \<times> string) list \<Rightarrow> (string \<times> string) list \<Rightarrow> change_row \<Rightarrow> bool" where
  "change_ok cr pick ek rk g \<longleftrightarrow> (\<exists>p. decode_proposal (gw_proposal g) = Inr p \<and> built_component (hp_component p) \<and> governed cr pick ek rk g p)"

definition registry_ok :: "crypto \<Rightarrow> picks \<Rightarrow> (string \<times> string) list \<Rightarrow> (string \<times> string) list \<Rightarrow> registry \<Rightarrow> bool" where
  "registry_ok cr pick ek rk db \<longleftrightarrow> (\<forall>i r. component_row_for db i = Some r \<longrightarrow> component_ok cr r)
     \<and> (\<forall>i g. change_row_for db i = Some g \<longrightarrow> change_ok cr pick ek rk g)"

subsection \<open>Looking rows up\<close>

lemma find_replace:
  "List.find (\<lambda>r. f r = i) (map (\<lambda>r. if f r = k then g r else r) xs) =
     (if i = k then map_option g (List.find (\<lambda>r. f r = i) xs) else List.find (\<lambda>r. f r = i) xs)"
  if "\<And>r. f r = k \<Longrightarrow> f (g r) = k"
  using that by (induction xs) auto

lemma find_append: "List.find P (xs @ ys) = (case List.find P xs of None \<Rightarrow> List.find P ys | Some x \<Rightarrow> Some x)"
  by (induction xs) auto

lemma find_None_ids: "List.find (\<lambda>r. f r = i) xs = None \<longleftrightarrow> i \<notin> set (map f xs)"
  by (induction xs) auto

lemma change_row_id: "change_row_for db i = Some g \<Longrightarrow> gw_change_id g = i"
  by (auto simp: change_row_for_def find_Some_iff)

lemma component_row_id: "component_row_for db i = Some r \<Longrightarrow> cw_component_id r = i"
  by (auto simp: component_row_for_def find_Some_iff)

lemma change_rows_register [simp]: "change_row_for (register cr c now db) i = change_row_for db i"
  by (simp add: change_row_for_def register_def Let_def)

lemma component_rows_update [simp]: "component_row_for (update_change i f db) j = component_row_for db j"
  by (simp add: component_row_for_def update_change_def)

lemma component_row_register:
  "component_row_for (register cr c now db) i = (if i = hc_component_id c
     then Some \<lparr>cw_component_id = i, cw_json = json_norm (encode_component c), cw_digest = component_digest cr c, cw_updated_at = stamp now\<rparr>
     else component_row_for db i)"
proof (cases "hc_component_id c \<in> set (map cw_component_id (rg_components db))")
  case True
  then have "List.find (\<lambda>r. cw_component_id r = hc_component_id c) (rg_components db) \<noteq> None"
    by (simp only: find_None_ids not_not)
  then show ?thesis using True
    by (auto simp: component_row_for_def register_def Let_def find_replace)
next
  case False
  then have "List.find (\<lambda>r. cw_component_id r = hc_component_id c) (rg_components db) = None"
    by (simp only: find_None_ids not_False_eq_True)
  then show ?thesis using False
    by (auto simp: component_row_for_def register_def Let_def find_append split: option.splits)
qed

lemma change_row_update:
  assumes "\<And>r. gw_change_id (f r) = gw_change_id r"
  shows "change_row_for (update_change i f db) j = (if j = i then map_option f (change_row_for db j) else change_row_for db j)"
  using assms by (auto simp: change_row_for_def update_change_def find_replace)

section \<open>Every operation keeps the invariant\<close>

lemma registry_okI:
  assumes "\<And>i r. component_row_for db i = Some r \<Longrightarrow> component_ok cr r"
    and "\<And>i g. change_row_for db i = Some g \<Longrightarrow> change_ok cr pick ek rk g"
  shows "registry_ok cr pick ek rk db"
  using assms by (simp add: registry_ok_def)

lemma registry_okD:
  assumes "registry_ok cr pick ek rk db"
  shows "component_row_for db i = Some r \<Longrightarrow> component_ok cr r" "change_row_for db i = Some g \<Longrightarrow> change_ok cr pick ek rk g"
  using assms by (simp_all add: registry_ok_def)

lemma registered_ok:
  assumes "registry_ok cr pick ek rk db" "built_component c"
  shows "registry_ok cr pick ek rk (register cr c now db)"
  using assms by (intro registry_okI)
    (auto simp: component_row_register component_ok_def dest: registry_okD split: if_splits)

lemma proposed_ok:
  assumes "registry_ok cr pick ek rk db" "built_proposal p"
  shows "registry_ok cr pick ek rk (snd (registry_propose p now db))"
proof -
  have dec: "decode_proposal (json_norm (encode_proposal p)) = Inr (norm_proposal p)"
    using assms(2) by (intro decode_proposal_encode) (auto simp: built_proposal_def built_component_def)
  have "built_component (hp_component (norm_proposal p))"
    using assms(2) by (simp add: built_proposal_def built_component_def norm_proposal_def)
  then have new: "change_ok cr pick ek rk g" if "gw_proposal g = json_norm (encode_proposal p)" "gw_status g = ''proposed''" for g
    using that dec by (simp add: change_ok_def governed_def)
  show ?thesis
    using registry_okD [OF assms(1)] new
    by (intro registry_okI)
      (auto simp: registry_propose_def component_row_for_def change_row_for_def find_append split: option.splits if_splits)
qed

lemma shadowed_ok:
  assumes "registry_ok cr pick ek rk db"
  shows "registry_ok cr pick ek rk (snd (record_signed_shadow cr pick ek b now db))"
proof (cases "fst (record_signed_shadow cr pick ek b now db)")
  case (Inl e)
  then have "snd (record_signed_shadow cr pick ek b now db) = db" by (auto simp: record_signed_shadow_def split: sum.splits)
  then show ?thesis using assms by simp
next
  case (Inr s)
  obtain row p x where c: "validate_bundle cr pick ek b = Inr ()" "change_row_for db (eb_change_id b) = Some row"
    "decode_proposal (gw_proposal row) = Inr p" "eb_primary_metric b = hp_predicted_metric p"
    "bundle_improvement b = Inr x" "\<not> xf_lt x (xf (hp_minimum_improvement p))"
    using Inr by (auto simp: record_signed_shadow_def bnd_eq_Inr split: sum.splits option.splits if_splits)
  let ?f = "\<lambda>r. r\<lparr>gw_status := ''shadow-passed'', gw_shadow := Some (shadow_json b), gw_updated_at := stamp now\<rparr>"
  have db': "snd (record_signed_shadow cr pick ek b now db) = update_change (eb_change_id b) ?f db"
    using Inr by (auto simp: record_signed_shadow_def split: sum.splits)
  have "change_ok cr pick ek rk row" using registry_okD(2) [OF assms c(2)] .
  then have "change_ok cr pick ek rk (?f row)"
    using c change_row_id [OF c(2)] by (auto simp: change_ok_def governed_def evidenced_def)
  then show ?thesis unfolding db'
    using registry_okD [OF assms] c(2) by (intro registry_okI) (auto simp: change_row_update split: if_splits)
qed

lemma promote_checksD:
  assumes "promote_checks i reviewer db = Inr (c, previous)"
  obtains row p current where "change_row_for db i = Some row" "decode_proposal (gw_proposal row) = Inr p"
    "gw_status row = ''shadow-passed''" "reviewer \<noteq> hp_proposer_id p" "c = hp_component p"
    "component_row_for db (hc_component_id c) = Some current" "cw_digest current = hp_base_component_digest p" "previous = cw_json current"
  using assms by (auto simp: promote_checks_def bnd_eq_Inr split: option.splits if_splits)

lemma promote_signedD:
  assumes "promote_signed cr rk i r now db = (Inr c, db')"
  obtains previous where "rv_change_id r = i" "validate_review cr rk r ''harness-promoter'' now = Inr ()"
    "promote_checks i (rv_reviewer_id r) db = Inr (c, previous)"
    "db' = update_change i (\<lambda>g. g\<lparr>gw_status := ''promoted'', gw_reviewer_id := Some (rv_reviewer_id r),
          gw_previous := Some previous, gw_updated_at := stamp now\<rparr>) (register cr c now db)"
  using assms by (auto simp: promote_signed_def promote_change_def split: if_splits sum.splits)

lemma promote_signed_Inl: "fst (promote_signed cr rk i r now db) = Inl e \<Longrightarrow> snd (promote_signed cr rk i r now db) = db"
  by (auto simp: promote_signed_def promote_change_def split: if_splits sum.splits)

lemma promoted_ok:
  assumes "registry_ok cr pick ek rk db"
  shows "registry_ok cr pick ek rk (snd (promote_signed cr rk i r now db))"
proof (cases "promote_signed cr rk i r now db")
  case (Pair x db')
  show ?thesis
  proof (cases x)
    case (Inl e)
    then show ?thesis using assms promote_signed_Inl [of cr rk i r now db] Pair by simp
  next
    case (Inr c)
    obtain previous where s: "rv_change_id r = i" "validate_review cr rk r ''harness-promoter'' now = Inr ()"
      "promote_checks i (rv_reviewer_id r) db = Inr (c, previous)"
      "db' = update_change i (\<lambda>g. g\<lparr>gw_status := ''promoted'', gw_reviewer_id := Some (rv_reviewer_id r),
          gw_previous := Some previous, gw_updated_at := stamp now\<rparr>) (register cr c now db)"
      using promote_signedD [OF Pair [unfolded Inr]] by blast
    obtain row p current where p: "change_row_for db i = Some row" "decode_proposal (gw_proposal row) = Inr p"
      "gw_status row = ''shadow-passed''" "rv_reviewer_id r \<noteq> hp_proposer_id p" "c = hp_component p"
      "component_row_for db (hc_component_id c) = Some current" "cw_digest current = hp_base_component_digest p" "previous = cw_json current"
      by (rule promote_checksD [OF s(3)])
    have row: "built_component (hp_component p)" "evidenced cr pick ek row p"
      using registry_okD(2) [OF assms p(1)] p(2,3) by (auto simp: change_ok_def governed_def)
    obtain k where k: "built_component k" "hc_component_id k = hc_component_id c" "cw_json current = json_norm (encode_component k)"
      "cw_digest current = component_digest cr k"
      using registry_okD(1) [OF assms p(6)] component_row_id [OF p(6)] by (auto simp: component_ok_def)
    let ?g = "row\<lparr>gw_status := ''promoted'', gw_reviewer_id := Some (rv_reviewer_id r), gw_previous := Some previous, gw_updated_at := stamp now\<rparr>"
    have "retained cr ?g p" using k p(5,7,8) by (auto simp: retained_def)
    moreover have "reviewed cr rk ''harness-promoter'' ?g p" using s(1,2) p(4) change_row_id [OF p(1)] by (auto simp: reviewed_def)
    ultimately have "change_ok cr pick ek rk ?g" using row p(2) by (auto simp: change_ok_def governed_def evidenced_def)
    then show ?thesis using registry_okD [OF registered_ok [OF assms row(1), of now]] p(1,5) Pair s(4)
      by (intro registry_okI) (auto simp: change_row_update split: if_splits)
  qed
qed

lemma rollback_checksD:
  assumes "rollback_checks cr i reviewer db = Inr c"
  obtains row p previous current where "change_row_for db i = Some row" "decode_proposal (gw_proposal row) = Inr p"
    "gw_previous row = Some previous" "gw_status row = ''promoted''" "reviewer \<noteq> hp_proposer_id p" "gw_reviewer_id row \<noteq> Some reviewer"
    "component_row_for db (hc_component_id (hp_component p)) = Some current"
    "cw_digest current = component_digest cr (hp_component p)" "decode_component previous = Inr c"
  using assms by (auto simp: rollback_checks_def bnd_eq_Inr split: option.splits if_splits)

lemma rollback_signedD:
  assumes "rollback_signed cr rk i r now db = (Inr c, db')"
  shows "rv_change_id r = i \<and> validate_review cr rk r ''harness-rollback'' now = Inr () \<and> rollback_checks cr i (rv_reviewer_id r) db = Inr c
    \<and> db' = update_change i (\<lambda>g. g\<lparr>gw_status := ''rolled-back'', gw_reviewer_id := Some (rv_reviewer_id r),
          gw_updated_at := stamp now\<rparr>) (register cr c now db)"
  using assms by (auto simp: rollback_signed_def rollback_change_def split: if_splits sum.splits)

lemma rollback_signed_Inl: "fst (rollback_signed cr rk i r now db) = Inl e \<Longrightarrow> snd (rollback_signed cr rk i r now db) = db"
  by (auto simp: rollback_signed_def rollback_change_def split: if_splits sum.splits)

text \<open>What a rollback decodes is the version the proposal was based on.\<close>

lemma rolled_back_component:
  assumes "registry_ok cr pick ek rk db" "rollback_checks cr i reviewer db = Inr c"
  obtains row p where "change_row_for db i = Some row" "decode_proposal (gw_proposal row) = Inr p" "gw_status row = ''promoted''"
    "reviewer \<noteq> hp_proposer_id p" "gw_reviewer_id row \<noteq> Some reviewer" "built_component c"
    "component_digest cr c = hp_base_component_digest p" "hc_component_id c = hc_component_id (hp_component p)"
    "governed cr pick ek rk row p"
proof -
  obtain row p previous current where c: "change_row_for db i = Some row" "decode_proposal (gw_proposal row) = Inr p"
    "gw_previous row = Some previous" "gw_status row = ''promoted''" "reviewer \<noteq> hp_proposer_id p" "gw_reviewer_id row \<noteq> Some reviewer"
    "decode_component previous = Inr c"
    by (rule rollback_checksD [OF assms(2)])
  have g: "governed cr pick ek rk row p" using registry_okD(2) [OF assms(1) c(1)] c(2) by (auto simp: change_ok_def)
  then have "retained cr row p" using c(4) by (simp add: governed_def)
  then obtain k where k: "built_component k" "previous = json_norm (encode_component k)" "component_digest cr k = hp_base_component_digest p"
    "hc_component_id k = hc_component_id (hp_component p)" using c(3) by (auto simp: retained_def)
  have "c = norm_component k" using c(7) decode_component_encode k(1,2) by (simp add: built_component_def)
  then show thesis using that [OF c(1,2,4,5,6)] k g by (simp add: built_component_def)
qed

lemma rolled_back_ok:
  assumes "registry_ok cr pick ek rk db"
  shows "registry_ok cr pick ek rk (snd (rollback_signed cr rk i r now db))"
proof (cases "rollback_signed cr rk i r now db")
  case (Pair x db')
  show ?thesis
  proof (cases x)
    case (Inl e)
    then show ?thesis using assms rollback_signed_Inl [of cr rk i r now db] Pair by simp
  next
    case (Inr c)
    note s = rollback_signedD [OF Pair [unfolded Inr]]
    obtain row p where p: "change_row_for db i = Some row" "decode_proposal (gw_proposal row) = Inr p" "gw_status row = ''promoted''"
      "rv_reviewer_id r \<noteq> hp_proposer_id p" "built_component c" "governed cr pick ek rk row p"
      using rolled_back_component [OF assms, of i "rv_reviewer_id r" c] s by metis
    let ?g = "row\<lparr>gw_status := ''rolled-back'', gw_reviewer_id := Some (rv_reviewer_id r), gw_updated_at := stamp now\<rparr>"
    have "reviewed cr rk ''harness-rollback'' ?g p" using s p(4) change_row_id [OF p(1)] by (auto simp: reviewed_def)
    moreover have "evidenced cr pick ek ?g p" "reviewed cr rk ''harness-promoter'' ?g p" "retained cr ?g p"
      using p(3,6) by (auto simp: governed_def evidenced_def reviewed_def retained_def)
    moreover have "built_component (hp_component p)" using registry_okD(2) [OF assms p(1)] p(2) by (auto simp: change_ok_def)
    ultimately have "change_ok cr pick ek rk ?g" using p(2) by (auto simp: change_ok_def governed_def)
    then show ?thesis using registry_okD [OF registered_ok [OF assms p(5), of now]] p(1) Pair s
      by (intro registry_okI) (auto simp: change_row_update split: if_splits)
  qed
qed

lemma registry_reachable_ok: "registry_reachable cr pick ek rk db \<Longrightarrow> registry_ok cr pick ek rk db"
proof (induction rule: registry_reachable.induct)
  case created
  then show ?case by (simp add: registry_ok_def component_row_for_def change_row_for_def)
next
  case (step db db')
  from step(2) step.IH show ?case
    by cases (simp_all add: registered_ok proposed_ok shadowed_ok promoted_ok rolled_back_ok)
qed

section \<open>Properties\<close>

text \<open>C38: governed evolution. However the registry is used, a change that stands as promoted or rolled back has the
  stored bundle of a validated shadow evaluation that meets its own proposal, a trusted promotion receipt for
  this change whose reviewer is not its proposer, and, once rolled back, such a receipt for the rollback.\<close>

theorem promotion_governed:
  assumes "registry_reachable cr pick ek rk db" "change_row_for db i = Some g" "gw_status g \<in> {''promoted'', ''rolled-back''}"
  shows "\<exists>p. decode_proposal (gw_proposal g) = Inr p \<and> evidenced cr pick ek g p \<and> reviewed cr rk ''harness-promoter'' g p
    \<and> (gw_status g = ''promoted'' \<or> reviewed cr rk ''harness-rollback'' g p)"
  using registry_okD(2) [OF registry_reachable_ok [OF assms(1)] assms(2)] assms(3)
  by (auto simp: change_ok_def governed_def)

text \<open>The stored version of a component.\<close>

definition version_of :: "registry \<Rightarrow> string \<Rightarrow> string option" where
  "version_of db i = map_option cw_digest (component_row_for db i)"

text \<open>C39: a rollback restores. It succeeds only on a promoted change whose version is still the current one, by a
  reviewer who neither proposed nor promoted it; the component is then exactly the version the proposal was
  based on, and no other component changes.\<close>

theorem rollback_restores:
  assumes "registry_reachable cr pick ek rk db" "rollback_signed cr rk i r now db = (Inr c, db')"
  shows "\<exists>g p. change_row_for db i = Some g \<and> gw_status g = ''promoted'' \<and> decode_proposal (gw_proposal g) = Inr p
    \<and> rv_reviewer_id r \<noteq> hp_proposer_id p \<and> gw_reviewer_id g \<noteq> Some (rv_reviewer_id r)
    \<and> version_of db (hc_component_id (hp_component p)) = Some (component_digest cr (hp_component p))
    \<and> (\<forall>j. version_of db' j = (if j = hc_component_id (hp_component p) then Some (hp_base_component_digest p) else version_of db j))
    \<and> registry_status db' i = Inr ROLLED_BACK"
proof -
  note ok = registry_reachable_ok [OF assms(1)]
  note s = rollback_signedD [OF assms(2)]
  obtain g p where p: "change_row_for db i = Some g" "decode_proposal (gw_proposal g) = Inr p" "gw_status g = ''promoted''"
    "rv_reviewer_id r \<noteq> hp_proposer_id p" "gw_reviewer_id g \<noteq> Some (rv_reviewer_id r)"
    "component_digest cr c = hp_base_component_digest p" "hc_component_id c = hc_component_id (hp_component p)"
    using rolled_back_component [OF ok, of i "rv_reviewer_id r" c] s by metis
  have "rollback_checks cr i (rv_reviewer_id r) db = Inr c" using s by blast
  then have "version_of db (hc_component_id (hp_component p)) = Some (component_digest cr (hp_component p))"
    using p(1,2) by (auto elim!: rollback_checksD simp: version_of_def)
  moreover have "version_of db' j = (if j = hc_component_id (hp_component p) then Some (hp_base_component_digest p) else version_of db j)" for j
    using s p(6,7) by (simp add: version_of_def component_row_register)
  moreover have "registry_status db' i = Inr ROLLED_BACK"
    using s p(1) by (simp add: registry_status_def change_row_update change_status_of_def)
  ultimately show ?thesis using p by blast
qed


section \<open>A change that is promoted and rolled back\<close>

definition zero_text :: string where
  "zero_text = replicate 64 (CHR ''0'')"

definition sample_key :: experiment_key where
  "sample_key = \<lparr>xk_graph_digest = zero_text, xk_harness_bundle_digest = zero_text, xk_model_id = ''m'', xk_model_config_digest = zero_text,
     xk_dataset_digest = zero_text, xk_tool_environment_digest = zero_text, xk_evaluator_policy_digest = zero_text, xk_compute_budget = 1\<rparr>"

definition unsigned_bundle :: evaluation_bundle where
  "unsigned_bundle = \<lparr>eb_change_id = ''c'', eb_baseline = sample_key, eb_candidate = sample_key, eb_primary_metric = ''score'',
     eb_direction = MAXIMIZE, eb_minimum_improvement = ''0.25'', eb_minimum_samples = 1,
     eb_pairs = [\<lparr>pr_task_id = ''t'', pr_seed = 0, pr_baseline_run_id = ''a'', pr_candidate_run_id = ''b'',
       pr_baseline_trace_root = zero_text, pr_candidate_trace_root = zero_text, pr_baseline_metrics = [(''score'', ''0.5'')],
       pr_candidate_metrics = [(''score'', ''1.0'')]\<rparr>], eb_signer_id = ''s'', eb_signature = []\<rparr>"

definition signed_bundle :: evaluation_bundle where
  "signed_bundle = unsigned_bundle\<lparr>eb_signature := ed_sign toy_crypto ''k'' (bundle_payload unsigned_bundle)\<rparr>"

definition first_pick :: picks where
  "first_pick seed n k = 0"

lemma xsort_replicate: "xsort (replicate n x) = replicate n x"
proof -
  have ins: "xinsert x (replicate k x) = replicate (Suc k) x" for k
    by (induction k) auto
  have "fold xinsert (replicate n x) (replicate k x) = replicate (n + k) x" for k
  proof (induction n arbitrary: k)
    case (Suc n)
    have "fold xinsert (replicate (Suc n) x) (replicate k x) = fold xinsert (replicate n x) (replicate (Suc k) x)" by (simp only: replicate.simps(2) fold_simps ins)
    then show ?case unfolding Suc by simp
  qed simp
  from this [of 0] show ?thesis by (simp add: xsort_def)
qed

lemma map_res_constant: "map_res (\<lambda>_. Inr x) xs = Inr (replicate (length xs) x)"
  by (induction xs) auto

lemma sample_delta: "map_res (metric_delta ''score'') (eb_pairs unsigned_bundle) = Inr [Fin (1 / 2)]"
  by code_simp

lemma sample_mean: "fmean [Fin (1 / 2)] = Inr (Fin (1 / 2))"
proof -
  have "xround (1 / 2) = Fin (1 / 2)" by code_simp
  then show ?thesis by (simp add: fmean_def fsum_def finite_part_def)
qed

lemma sample_improvement: "bundle_improvement signed_bundle = Inr (Fin (1 / 2))"
  using sample_delta sample_mean by (simp add: bundle_improvement_def signed_bundle_def unsigned_bundle_def directed_def)

lemma sample_quantile: "quantile_index (1 / 40) 2000 = 49"
  by code_simp

lemma sample_statistics: "\<exists>s. primary_statistics toy_crypto first_pick signed_bundle = Inr s \<and> fst (ms_interval s) = Fin (1 / 2)"
proof -
  let ?b = unsigned_bundle
  have signed: "map_res (\<lambda>p. bnd (metric_delta ''score'' p) (\<lambda>x. Inr (directed MAXIMIZE x))) (eb_pairs ?b) = Inr [Fin (1 / 2)]"
    using sample_delta by (simp add: directed_def unsigned_bundle_def bnd_eq_Inr)
  have "resamples first_pick seed [Fin (1 / 2)] 2000 = Inr (replicate 2000 (Fin (1 / 2)))" for seed
    unfolding resamples_def using sample_mean map_res_constant [of "Fin (1 / 2)" "[0..<2000]"] by (simp add: first_pick_def)
  then show ?thesis
    using signed sample_mean sample_quantile
    by (simp add: primary_statistics_def paired_metric_statistics_def signed_bundle_def Let_def xsort_replicate)
       (simp add: unsigned_bundle_def dkeys_def xsort_replicate)
qed

lemma sample_validated: "validate_bundle toy_crypto first_pick [(''s'', ''k'')] signed_bundle = Inr ()"
proof -
  obtain s where s: "primary_statistics toy_crypto first_pick signed_bundle = Inr s" "fst (ms_interval s) = Fin (1 / 2)"
    using sample_statistics by blast
  have "ed_verify toy_crypto ''k'' (bundle_payload signed_bundle) (eb_signature signed_bundle)"
    by (simp add: signed_bundle_def bundle_payload_def toy_crypto_def)
  moreover have "check_regressions signed_bundle [''false_acceptance'', ''policy_violation''] = Inr ()"
    by (simp add: signed_bundle_def unsigned_bundle_def dkeys_def)
  moreover have "eb_signer_id signed_bundle = ''s''" "\<not> xf_lt (Fin (1 / 2)) (xf (eb_minimum_improvement signed_bundle))"
    by (simp add: signed_bundle_def unsigned_bundle_def) (simp add: signed_bundle_def unsigned_bundle_def, code_simp)
  ultimately show ?thesis using s sample_improvement by (simp add: validate_bundle_def dget_Cons)
qed

definition sample_component :: "string \<Rightarrow> harness_component" where
  "sample_component v = \<lparr>hc_component_id = ''p'', hc_kind = ''prompt'', hc_version = v, hc_configuration = []\<rparr>"

definition sample_proposal :: change_proposal where
  "sample_proposal = \<lparr>hp_change_id = ''c'', hp_component = sample_component ''2'', hp_base_component_digest = zero_text,
     hp_proposer_id = ''alice'', hp_predicted_metric = ''score'', hp_minimum_improvement = ''0.25'',
     hp_expected_failure_mode = ''none'', hp_affected_task_classes = []\<rparr>"

definition unsigned_review :: "string \<Rightarrow> string \<Rightarrow> review_receipt" where
  "unsigned_review reviewer role = \<lparr>rv_change_id = ''c'', rv_reviewer_id = reviewer, rv_role = role, rv_issued_at = utc 0,
     rv_expires_at = utc 10, rv_nonce = ''n'', rv_signer_id = ''r'', rv_signature = []\<rparr>"

definition signed_review :: "string \<Rightarrow> string \<Rightarrow> review_receipt" where
  "signed_review reviewer role = (unsigned_review reviewer role)\<lparr>rv_signature :=
     ed_sign toy_crypto ''k'' (review_payload (unsigned_review reviewer role))\<rparr>"

definition review_keys :: "(string \<times> string) list" where
  "review_keys = [(''r'', ''k'')]"

definition bundle_keys :: "(string \<times> string) list" where
  "bundle_keys = [(''s'', ''k'')]"

definition proposed_registry :: registry where
  "proposed_registry = snd (registry_propose sample_proposal 0
     (register toy_crypto (sample_component ''1'') 0 \<lparr>rg_components = [], rg_changes = []\<rparr>))"

definition shadowed_registry :: registry where
  "shadowed_registry = snd (record_signed_shadow toy_crypto first_pick bundle_keys signed_bundle 0 proposed_registry)"

definition promoted_registry :: registry where
  "promoted_registry = snd (promote_signed toy_crypto review_keys ''c'' (signed_review ''bob'' ''harness-promoter'') 0 shadowed_registry)"

lemma sample_receipt: "validate_review toy_crypto review_keys (signed_review reviewer role) role 0 = Inr ()"
  by (simp add: validate_review_def review_keys_def dget_Cons signed_review_def unsigned_review_def review_payload_def toy_crypto_def utc_def)

lemma sample_built: "built_component (sample_component ''1'')" "built_proposal sample_proposal"
  by code_simp+

lemma sample_decode: "decode_proposal (json_norm (encode_proposal sample_proposal)) = Inr (norm_proposal sample_proposal)"
  using decode_proposal_encode sample_built(2) by (simp add: built_proposal_def built_component_def)

lemma sample_fields:
  "hp_predicted_metric (norm_proposal sample_proposal) = ''score''" "hp_minimum_improvement (norm_proposal sample_proposal) = ''0.25''"
  "hp_proposer_id (norm_proposal sample_proposal) = ''alice''" "hp_base_component_digest (norm_proposal sample_proposal) = zero_text"
  "hc_component_id (hp_component (norm_proposal sample_proposal)) = ''p''" "\<not> xf_lt (Fin (1 / 2)) (xf ''0.25'')"
  by (simp_all add: norm_proposal_def sample_proposal_def sample_component_def) code_simp

lemma constant_digest: "component_digest toy_crypto c = zero_text"
  by (simp add: component_digest_def digest_def toy_crypto_def zero_text_def)

lemma proposed_rows:
  "\<exists>g. change_row_for proposed_registry ''c'' = Some g \<and> gw_proposal g = json_norm (encode_proposal sample_proposal)
     \<and> gw_status g = ''proposed''"
  "\<exists>r. component_row_for proposed_registry ''p'' = Some r \<and> cw_digest r = zero_text"
proof -
  have "component_row_for (register toy_crypto (sample_component ''1'') 0 \<lparr>rg_components = [], rg_changes = []\<rparr>) ''p''
      = Some \<lparr>cw_component_id = ''p'', cw_json = json_norm (encode_component (sample_component ''1'')), cw_digest = zero_text, cw_updated_at = stamp 0\<rparr>"
    by (simp add: component_row_register sample_component_def constant_digest)
  then show "\<exists>g. change_row_for proposed_registry ''c'' = Some g \<and> gw_proposal g = json_norm (encode_proposal sample_proposal)
     \<and> gw_status g = ''proposed''"
    and "\<exists>r. component_row_for proposed_registry ''p'' = Some r \<and> cw_digest r = zero_text"
    by (simp_all add: proposed_registry_def registry_propose_def sample_proposal_def sample_component_def change_row_for_def
        component_row_for_def register_def Let_def)
qed

lemma shadowed_rows:
  "\<exists>g. change_row_for shadowed_registry ''c'' = Some g \<and> gw_proposal g = json_norm (encode_proposal sample_proposal)
     \<and> gw_status g = ''shadow-passed''"
  "\<exists>r. component_row_for shadowed_registry ''p'' = Some r \<and> cw_digest r = zero_text"
proof -
  obtain g where g: "change_row_for proposed_registry ''c'' = Some g" "gw_proposal g = json_norm (encode_proposal sample_proposal)"
    "gw_status g = ''proposed''" using proposed_rows(1) by blast
  have b: "eb_change_id signed_bundle = ''c''" "eb_primary_metric signed_bundle = ''score''"
    by (simp_all add: signed_bundle_def unsigned_bundle_def)
  have e: "shadowed_registry = update_change ''c'' (\<lambda>r. r\<lparr>gw_status := ''shadow-passed'', gw_shadow := Some (shadow_json signed_bundle),
      gw_updated_at := stamp 0\<rparr>) proposed_registry"
    using g b sample_validated sample_decode sample_fields sample_improvement
    by (simp add: shadowed_registry_def record_signed_shadow_def bundle_keys_def)
  show "\<exists>g. change_row_for shadowed_registry ''c'' = Some g \<and> gw_proposal g = json_norm (encode_proposal sample_proposal)
     \<and> gw_status g = ''shadow-passed''"
    using g by (simp add: e change_row_update)
  show "\<exists>r. component_row_for shadowed_registry ''p'' = Some r \<and> cw_digest r = zero_text"
    using proposed_rows(2) by (simp add: e)
qed

lemma promoted_reachable: "registry_reachable toy_crypto first_pick bundle_keys review_keys promoted_registry"
  unfolding promoted_registry_def shadowed_registry_def proposed_registry_def
  by (intro registry_reachable.step [OF _ registry_step.promoted] registry_reachable.step [OF _ registry_step.shadowed]
      registry_reachable.step [OF _ registry_step.proposed] registry_reachable.step [OF _ registry_step.registered]
      registry_reachable.created sample_built)

lemma promoted_row:
  "\<exists>g. change_row_for promoted_registry ''c'' = Some g \<and> gw_proposal g = json_norm (encode_proposal sample_proposal)
     \<and> gw_status g = ''promoted'' \<and> gw_reviewer_id g = Some ''bob'' \<and> (\<exists>v. gw_previous g = Some v)"
  "\<exists>r. component_row_for promoted_registry ''p'' = Some r \<and> cw_digest r = zero_text"
proof -
  obtain g where g: "change_row_for shadowed_registry ''c'' = Some g" "gw_proposal g = json_norm (encode_proposal sample_proposal)"
    "gw_status g = ''shadow-passed''" using shadowed_rows(1) by blast
  obtain r where r: "component_row_for shadowed_registry ''p'' = Some r" "cw_digest r = zero_text" using shadowed_rows(2) by blast
  have c: "promote_checks ''c'' ''bob'' shadowed_registry = Inr (hp_component (norm_proposal sample_proposal), cw_json r)"
    using g r sample_decode sample_fields by (simp add: promote_checks_def)
  have s: "rv_change_id (signed_review ''bob'' ''harness-promoter'') = ''c''" "rv_reviewer_id (signed_review ''bob'' ''harness-promoter'') = ''bob''"
    by (simp_all add: signed_review_def unsigned_review_def)
  show "\<exists>g. change_row_for promoted_registry ''c'' = Some g \<and> gw_proposal g = json_norm (encode_proposal sample_proposal)
     \<and> gw_status g = ''promoted'' \<and> gw_reviewer_id g = Some ''bob'' \<and> (\<exists>v. gw_previous g = Some v)"
    and "\<exists>r. component_row_for promoted_registry ''p'' = Some r \<and> cw_digest r = zero_text"
    using c s g sample_receipt sample_fields
    by (simp_all add: promoted_registry_def promote_signed_def promote_change_def change_row_update component_row_register constant_digest)
qed

theorem promotion_governed_witness:
  "\<exists>g p. change_row_for promoted_registry ''c'' = Some g \<and> decode_proposal (gw_proposal g) = Inr p
     \<and> reviewed toy_crypto review_keys ''harness-promoter'' g p"
proof -
  obtain g where g: "change_row_for promoted_registry ''c'' = Some g" "gw_status g = ''promoted''" using promoted_row(1) by blast
  then show ?thesis using promotion_governed [OF promoted_reachable g(1)] by auto
qed

theorem rollback_restores_witness:
  "\<exists>c db'. rollback_signed toy_crypto review_keys ''c'' (signed_review ''carol'' ''harness-rollback'') 0 promoted_registry = (Inr c, db')
     \<and> version_of db' ''p'' = Some zero_text \<and> registry_status db' ''c'' = Inr ROLLED_BACK"
proof -
  let ?r = "signed_review ''carol'' ''harness-rollback''"
  obtain g v where g: "change_row_for promoted_registry ''c'' = Some g" "gw_proposal g = json_norm (encode_proposal sample_proposal)"
    "gw_status g = ''promoted''" "gw_reviewer_id g = Some ''bob''" "gw_previous g = Some v" using promoted_row(1) by blast
  obtain row where row: "component_row_for promoted_registry ''p'' = Some row" "cw_digest row = zero_text" using promoted_row(2) by blast
  have s: "rv_change_id ?r = ''c''" "rv_reviewer_id ?r = ''carol''" by (simp_all add: signed_review_def unsigned_review_def)
  have "change_ok toy_crypto first_pick bundle_keys review_keys g"
    using registry_okD(2) [OF registry_reachable_ok [OF promoted_reachable] g(1)] .
  then obtain k where k: "built_component k" "v = json_norm (encode_component k)"
    using g(3,5) by (auto simp: change_ok_def governed_def retained_def)
  have "rollback_checks toy_crypto ''c'' ''carol'' promoted_registry = Inr (norm_component k)"
    using g row sample_decode sample_fields decode_component_encode k by (simp add: rollback_checks_def constant_digest built_component_def)
  then obtain db' where db: "rollback_signed toy_crypto review_keys ''c'' ?r 0 promoted_registry = (Inr (norm_component k), db')"
    using s sample_receipt by (simp add: rollback_signed_def rollback_change_def)
  show ?thesis
    using rollback_restores [OF promoted_reachable db] db g(1,2) sample_decode sample_fields by auto
qed

end
