(* ===== verification/Firecracker_Job.thy ===== *)
theory Firecracker_Job
  imports Floats Canonical Models
begin

text \<open>
  The launch side of \<open>src/vloop/firecracker.py\<close>: deployment paths and assets, the preflight, the jailer
  plan and the builder that turns an intent into an immutable launch. The file system is a record of
  predicates on path texts; \<open>FirecrackerConfigurationError\<close> is a \<open>ValueError\<close>.
\<close>

section \<open>Deployment\<close>

record file_system =
  fs_file :: "string \<Rightarrow> bool"
  fs_dir :: "string \<Rightarrow> bool"
  fs_symlink :: "string \<Rightarrow> bool"
  fs_char_device :: "string \<Rightarrow> bool"
  fs_readable :: "string \<Rightarrow> bool"
  fs_writable :: "string \<Rightarrow> bool"
  fs_executable :: "string \<Rightarrow> bool"

definition absolute :: "string \<Rightarrow> bool" where
  "absolute p \<longleftrightarrow> startswith p ''/''"

record vm_runtime =
  vr_firecracker_binary :: string
  vr_jailer_binary :: string
  vr_chroot_base :: string
  vr_kvm_device :: string

fun check_absolute :: "(string \<times> string) list \<Rightarrow> unit res" where
  "check_absolute [] = Inr ()"
| "check_absolute ((label, p) # ps) =
     (if \<not> absolute p then Inl (ValueError, label @ '' must be an absolute path'') else check_absolute ps)"

definition vm_runtime_init :: "vm_runtime \<Rightarrow> vm_runtime res" where
  "vm_runtime_init r = bnd (check_absolute [(''Firecracker binary'', vr_firecracker_binary r), (''jailer binary'', vr_jailer_binary r),
     (''jailer chroot base'', vr_chroot_base r), (''KVM device'', vr_kvm_device r)]) (\<lambda>_. Inr r)"

record vm_assets =
  va_kernel_image :: string
  va_rootfs :: string
  va_job_drive :: string
  va_kernel_image_id :: string
  va_kernel_image_digest :: string
  va_rootfs_image_id :: string
  va_rootfs_digest :: string
  va_resource_profile_id :: string
  va_workspace_snapshot_id :: string
  va_workspace_snapshot_digest :: string

fun check_files :: "file_system \<Rightarrow> (string \<times> string) list \<Rightarrow> unit res" where
  "check_files fs [] = Inr ()"
| "check_files fs ((label, p) # ps) =
     (if \<not> absolute p \<or> \<not> fs_file fs p \<or> fs_symlink fs p
      then Inl (ValueError, label @ '' must be an absolute regular non-symlink file'') else check_files fs ps)"

definition assets_validate :: "file_system \<Rightarrow> vm_assets \<Rightarrow> unit res" where
  "assets_validate fs a = check_files fs [(''kernel image'', va_kernel_image a), (''rootfs'', va_rootfs a), (''job drive'', va_job_drive a)]"

text \<open>\<open>remote_asset_request\<close>: the empty dictionary when an identity is missing.\<close>

definition asset_values :: "vm_assets \<Rightarrow> (string \<times> string) list" where
  "asset_values a = [(''kernel_image_id'', va_kernel_image_id a), (''kernel_image_digest'', va_kernel_image_digest a),
     (''rootfs_image_id'', va_rootfs_image_id a), (''rootfs_digest'', va_rootfs_digest a),
     (''resource_profile_id'', va_resource_profile_id a), (''workspace_snapshot_id'', va_workspace_snapshot_id a),
     (''workspace_snapshot_digest'', va_workspace_snapshot_digest a)]"

fun check_digests :: "(string \<times> string) list \<Rightarrow> unit res" where
  "check_digests [] = Inr ()"
| "check_digests ((label, v) # vs) =
     (if \<not> sha256_shape v then Inl (ValueError, label @ '' must be a SHA-256 hex digest'') else check_digests vs)"

definition remote_asset_request :: "vm_assets \<Rightarrow> (string \<times> string) list res" where
  "remote_asset_request a =
     (if list_ex (blank \<circ> snd) (asset_values a) then Inr []
      else bnd (check_digests [(''kernel_image_digest'', va_kernel_image_digest a), (''rootfs_digest'', va_rootfs_digest a),
        (''workspace_snapshot_digest'', va_workspace_snapshot_digest a)]) (\<lambda>_. Inr (asset_values a)))"

record preflight_report =
  pf_ready :: bool
  pf_checks :: "(string \<times> string) list"

definition preflight_check :: "file_system \<Rightarrow> vm_runtime \<Rightarrow> vm_assets \<Rightarrow> preflight_report" where
  "preflight_check fs r a =
     (let binary = (\<lambda>p. if fs_file fs p \<and> \<not> fs_symlink fs p \<and> fs_executable fs p then ''ready'' else ''missing-or-not-executable'');
          checks = [(''firecracker_binary'', binary (vr_firecracker_binary r)), (''jailer_binary'', binary (vr_jailer_binary r)),
            (''jailer_chroot_base'', if fs_dir fs (vr_chroot_base r) \<and> \<not> fs_symlink fs (vr_chroot_base r)
               \<and> fs_writable fs (vr_chroot_base r) \<and> fs_executable fs (vr_chroot_base r) then ''ready'' else ''missing-or-not-writable''),
            (''kvm_device'', if fs_char_device fs (vr_kvm_device r) \<and> \<not> fs_symlink fs (vr_kvm_device r)
               \<and> fs_readable fs (vr_kvm_device r) \<and> fs_writable fs (vr_kvm_device r) then ''ready'' else ''unavailable''),
            (''guest_assets'', case assets_validate fs a of Inl _ \<Rightarrow> ''invalid'' | Inr _ \<Rightarrow> ''ready'')] in
      \<lparr>pf_ready = list_all (\<lambda>x. snd x = ''ready'') checks, pf_checks = checks\<rparr>)"

definition require_ready :: "preflight_report \<Rightarrow> unit res" where
  "require_ready p = (if \<not> pf_ready p
     then Inl (ValueError, ''Firecracker supervisor preflight failed: '' @ join '', '' (map fst (filter (\<lambda>x. snd x \<noteq> ''ready'') (pf_checks p))))
     else Inr ())"

record vm_resources =
  vs_vcpu_count :: int
  vs_mem_size_mib :: int
  vs_timeout_seconds :: int

definition vm_resources_init :: "vm_resources \<Rightarrow> vm_resources res" where
  "vm_resources_init r =
     (if \<not> (1 \<le> vs_vcpu_count r \<and> vs_vcpu_count r \<le> 8) then Inl (ValueError, ''vcpu_count must be in [1, 8]'')
      else if \<not> (128 \<le> vs_mem_size_mib r \<and> vs_mem_size_mib r \<le> 4096) then Inl (ValueError, ''mem_size_mib must be in [128, 4096]'')
      else if \<not> (1 \<le> vs_timeout_seconds r \<and> vs_timeout_seconds r \<le> 600) then Inl (ValueError, ''timeout_seconds must be in [1, 600]'')
      else Inr r)"

section \<open>Building a launch\<close>

record launch =
  la_job_id :: string
  la_config :: pyval
  la_manifest :: pydict
  la_config_digest :: string
  la_manifest_digest :: string
  la_asset_request :: "(string \<times> string) list"
  la_spec :: "(string \<times> string) list"
  la_spec_digest :: string

record job_builder =
  jb_assets :: vm_assets
  jb_resources :: vm_resources

definition job_builder_init :: "file_system \<Rightarrow> vm_assets \<Rightarrow> vm_resources \<Rightarrow> job_builder res" where
  "job_builder_init fs a r = bnd (assets_validate fs a) (\<lambda>_. Inr \<lparr>jb_assets = a, jb_resources = r\<rparr>)"

text \<open>\<open>value == i\<close> for a dynamically typed value: booleans and floats are numbers.\<close>

fun eq_int :: "pyval \<Rightarrow> int \<Rightarrow> bool" where
  "eq_int (PInt j) i = (j = i)"
| "eq_int (PBool b) i = (i = (if b then 1 else 0))"
| "eq_int (PFloat t) i = (float_value t = Some (of_int i))"
| "eq_int v i = False"

fun command_of :: "pyval option \<Rightarrow> string list option" where
  "command_of (Some (PList xs)) = (if xs = [] then None
     else if list_all (\<lambda>v. case v of PStr s \<Rightarrow> True | _ \<Rightarrow> False) xs then Some (map (\<lambda>v. case v of PStr s \<Rightarrow> s | _ \<Rightarrow> []) xs) else None)"
| "command_of v = None"

text \<open>\<open>value or default\<close>.\<close>

definition or_text :: "string option \<Rightarrow> string \<Rightarrow> string" where
  "or_text x d = (case x of None \<Rightarrow> d | Some s \<Rightarrow> if s = [] then d else s)"

text \<open>What \<open>build\<close> is told about the run.\<close>

record launch_request =
  lq_run_id :: string
  lq_contract_digest :: "string option"
  lq_operation_id :: "string option"
  lq_graph_digest :: string
  lq_graph_node_id :: string

definition execution_spec :: "(string \<times> string) list \<Rightarrow> string \<Rightarrow> string \<Rightarrow> launch_request \<Rightarrow> (string \<times> string) list" where
  "execution_spec req job intent q =
     (let at_key = (\<lambda>k. case dget req k of None \<Rightarrow> [] | Some v \<Rightarrow> v) in
      if req = [] then []
      else [(''operation_id'', job), (''kernel_image_id'', at_key ''kernel_image_id''), (''kernel_digest'', at_key ''kernel_image_digest''),
        (''rootfs_image_id'', at_key ''rootfs_image_id''), (''rootfs_digest'', at_key ''rootfs_digest''),
        (''resource_profile_id'', at_key ''resource_profile_id''), (''workspace_snapshot_id'', at_key ''workspace_snapshot_id''),
        (''workspace_snapshot_digest'', at_key ''workspace_snapshot_digest''), (''run_id'', lq_run_id q),
        (''contract_digest'', or_text (lq_contract_digest q) ''unbound''), (''intent_digest'', intent),
        (''graph_digest'', or_text (Some (lq_graph_digest q)) ''unbound''),
        (''graph_node_id'', or_text (Some (lq_graph_node_id q)) ''unbound'')])"

definition texts_py :: "(string \<times> string) list \<Rightarrow> pyval" where
  "texts_py d = PDict (map (\<lambda>(k, v). (k, PStr v)) d)"

definition launch_manifest :: "string \<Rightarrow> string \<Rightarrow> launch_request \<Rightarrow> string list \<Rightarrow> int \<Rightarrow> string \<Rightarrow> pydict" where
  "launch_manifest job intent q command timeout spec =
     [(''schema_version'', PInt 1), (''job_id'', PStr job), (''operation_id'', PStr job), (''run_id'', PStr (lq_run_id q)),
      (''contract_digest'', PStr (or_text (lq_contract_digest q) ''unbound'')), (''intent_digest'', PStr intent),
      (''graph_digest'', PStr (or_text (Some (lq_graph_digest q)) ''unbound'')),
      (''graph_node_id'', PStr (or_text (Some (lq_graph_node_id q)) ''unbound'')), (''argv'', PList (map PStr command)),
      (''working_directory'', PStr ''/workspace''), (''timeout_seconds'', PInt timeout), (''network_enabled'', PBool False),
      (''result_path'', PStr ''/job/vloop-result.json''), (''remote_execution_spec_digest'', PStr spec)]"

definition launch_config :: "job_builder \<Rightarrow> pyval" where
  "launch_config b = PDict
     [(''boot-source'', PDict [(''kernel_image_path'', PStr (va_kernel_image (jb_assets b))),
        (''boot_args'', PStr ''console=ttyS0 reboot=k panic=1 quiet'')]),
      (''machine-config'', PDict [(''vcpu_count'', PInt (vs_vcpu_count (jb_resources b))),
        (''mem_size_mib'', PInt (vs_mem_size_mib (jb_resources b))), (''smt'', PBool False), (''track_dirty_pages'', PBool True)]),
      (''drives'', PList [
        PDict [(''drive_id'', PStr ''rootfs''), (''path_on_host'', PStr (va_rootfs (jb_assets b))),
          (''is_root_device'', PBool True), (''is_read_only'', PBool True)],
        PDict [(''drive_id'', PStr ''job''), (''path_on_host'', PStr (va_job_drive (jb_assets b))),
          (''is_root_device'', PBool False), (''is_read_only'', PBool False)]])]"

definition build_launch :: "crypto \<Rightarrow> job_builder \<Rightarrow> action_intent \<Rightarrow> launch_request \<Rightarrow> string \<Rightarrow> launch res" where
  "build_launch cr b i q fresh =
     (let timeout = vs_timeout_seconds (jb_resources b) in
      if (lq_graph_digest q \<noteq> []) \<noteq> (lq_graph_node_id q \<noteq> [])
      then Inl (ValueError, ''Firecracker graph digest and node must be supplied together'')
      else if in_tool i \<noteq> ''command.run'' \<or> in_effect i \<noteq> EXECUTE
      then Inl (ValueError, ''Firecracker only executes command.run intents'')
      else case command_of (dget (in_arguments i) ''command'') of
        None \<Rightarrow> Inl (ValueError, ''guest command must be a non-empty argv list'')
      | Some command \<Rightarrow>
          if list_ex (\<lambda>s. CHR 0x00 \<in> set s) command then Inl (ValueError, ''guest command contains a NUL byte'')
          else if ddef (in_arguments i) ''network'' (PBool False) \<noteq> PBool False
          then Inl (ValueError, ''network is disabled for untrusted V0 jobs'')
          else if \<not> eq_int (ddef (in_arguments i) ''timeout_seconds'' (PInt timeout)) timeout
          then Inl (ValueError, ''timeout must match the supervisor-issued resource profile'')
          else let job = or_text (lq_operation_id q) fresh in
            bnd (remote_asset_request (jb_assets b)) (\<lambda>req.
              let spec = execution_spec req job (intent_digest cr i) q;
                  sd = (if spec = [] then [] else digest cr (texts_py spec));
                  manifest = launch_manifest job (intent_digest cr i) q command timeout sd in
              Inr \<lparr>la_job_id = job, la_config = launch_config b, la_manifest = manifest,
                la_config_digest = digest cr (launch_config b), la_manifest_digest = digest cr (PDict manifest),
                la_asset_request = req, la_spec = spec, la_spec_digest = sd\<rparr>))"

section \<open>The jailer plan\<close>

record supervisor_plan =
  pl_runtime :: vm_runtime
  pl_uid :: int
  pl_gid :: int

definition supervisor_plan_init :: "vm_runtime \<Rightarrow> int \<Rightarrow> int \<Rightarrow> supervisor_plan res" where
  "supervisor_plan_init r uid gid = (if uid < 0 \<or> gid < 0 then Inl (ValueError, ''jailer uid and gid must be non-negative'')
     else Inr \<lparr>pl_runtime = r, pl_uid = uid, pl_gid = gid\<rparr>)"

record jailer_spec =
  js_job_id :: string
  js_argv :: "string list"
  js_config_path :: string
  js_manifest_path :: string
  js_config_digest :: string
  js_manifest_digest :: string

text \<open>\<open>directory / name\<close> for a directory text without a trailing slash: an absolute name replaces it.\<close>

definition path_join :: "string \<Rightarrow> string \<Rightarrow> string" where
  "path_join d n = (if absolute n then n else d @ ''/'' @ n)"

definition build_plan :: "file_system \<Rightarrow> supervisor_plan \<Rightarrow> launch \<Rightarrow> string \<Rightarrow> jailer_spec res" where
  "build_plan fs p l staging =
     (if \<not> absolute staging \<or> fs_symlink fs staging
      then Inl (ValueError, ''supervisor staging directory must be absolute and non-symlink'')
      else let config = path_join staging (la_job_id l @ ''.firecracker.json''); manifest = path_join staging (la_job_id l @ ''.manifest.json'') in
        Inr \<lparr>js_job_id = la_job_id l,
          js_argv = [vr_jailer_binary (pl_runtime p), ''--id'', la_job_id l, ''--exec-file'', vr_firecracker_binary (pl_runtime p),
            ''--uid'', dec_int (pl_uid p), ''--gid'', dec_int (pl_gid p), ''--chroot-base-dir'', vr_chroot_base (pl_runtime p), ''--'',
            ''--config-file'', config],
          js_config_path = config, js_manifest_path = manifest, js_config_digest = la_config_digest l,
          js_manifest_digest = la_manifest_digest l\<rparr>)"

section \<open>What the digest of a specification determines\<close>

lemma texts_py_wf: "distinct (map fst d) \<Longrightarrow> wf_json (texts_py d)"
  by (induction d) (auto simp: texts_py_def list_all_iff comp_def case_prod_beta)

lemma texts_py_field:
  assumes "json_norm (texts_py d) = json_norm (texts_py d')"
  shows "dget d k = dget d' k"
proof -
  have g: "dget (map (\<lambda>(k, v). (k, PStr v)) d) k = map_option PStr (dget d k)" for d :: "(string \<times> string) list"
    by (induction d) (auto simp: dget_def)
  have "map_option json_norm (map_option PStr (dget d k)) = map_option json_norm (map_option PStr (dget d' k))"
    using assms unfolding texts_py_def json_norm_PDict pyval.inject by (metis dget_norm_dict g)
  then show ?thesis by (cases "dget d k"; cases "dget d' k") auto
qed

lemma build_launchD:
  assumes "build_launch cr b i q fresh = Inr l"
  shows "in_tool i = ''command.run''" "in_effect i = EXECUTE"
    "\<exists>command. command_of (dget (in_arguments i) ''command'') = Some command \<and> dget (la_manifest l) ''argv'' = Some (PList (map PStr command))
       \<and> (\<forall>s \<in> set command. CHR 0x00 \<notin> set s)"
    "ddef (in_arguments i) ''network'' (PBool False) = PBool False"
    "la_job_id l = or_text (lq_operation_id q) fresh"
    "\<exists>req. remote_asset_request (jb_assets b) = Inr req \<and> la_spec l = execution_spec req (la_job_id l) (intent_digest cr i) q"
    "la_spec_digest l = (if la_spec l = [] then [] else digest cr (texts_py (la_spec l)))"
    "la_manifest_digest l = digest cr (PDict (la_manifest l))"
proof -
  obtain command where command: "command_of (dget (in_arguments i) ''command'') = Some command"
    using assms by (auto simp: build_launch_def Let_def split: if_splits option.splits)
  note built = assms [unfolded build_launch_def Let_def command option.case if_Inl_eq_Inr bnd_eq_Inr]
  obtain req where req: "remote_asset_request (jb_assets b) = Inr req" using built by blast
  show "in_tool i = ''command.run''" "in_effect i = EXECUTE" "ddef (in_arguments i) ''network'' (PBool False) = PBool False"
    using built by blast+
  show "la_job_id l = or_text (lq_operation_id q) fresh" using built by auto
  show "\<exists>req. remote_asset_request (jb_assets b) = Inr req \<and> la_spec l = execution_spec req (la_job_id l) (intent_digest cr i) q"
    using built by auto
  show "la_spec_digest l = (if la_spec l = [] then [] else digest cr (texts_py (la_spec l)))"
    "la_manifest_digest l = digest cr (PDict (la_manifest l))"
    using built by auto
  have "dget (la_manifest l) ''argv'' = Some (PList (map PStr command))"
    using built by (auto simp: launch_manifest_def dget_Cons)
  moreover have "\<forall>s \<in> set command. CHR 0x00 \<notin> set s" using built by (simp add: list_ex_iff)
  ultimately show "\<exists>command. command_of (dget (in_arguments i) ''command'') = Some command
      \<and> dget (la_manifest l) ''argv'' = Some (PList (map PStr command)) \<and> (\<forall>s \<in> set command. CHR 0x00 \<notin> set s)"
    using command by blast
qed

lemma asset_request_values:
  "remote_asset_request a = Inr req \<Longrightarrow> req \<noteq> [] \<Longrightarrow> req = asset_values a"
  by (auto simp: remote_asset_request_def bnd_eq_Inr split: if_splits)

lemma execution_spec_values:
  "execution_spec (asset_values a) job intent q =
     [(''operation_id'', job), (''kernel_image_id'', va_kernel_image_id a), (''kernel_digest'', va_kernel_image_digest a),
      (''rootfs_image_id'', va_rootfs_image_id a), (''rootfs_digest'', va_rootfs_digest a),
      (''resource_profile_id'', va_resource_profile_id a), (''workspace_snapshot_id'', va_workspace_snapshot_id a),
      (''workspace_snapshot_digest'', va_workspace_snapshot_digest a), (''run_id'', lq_run_id q),
      (''contract_digest'', or_text (lq_contract_digest q) ''unbound''), (''intent_digest'', intent),
      (''graph_digest'', or_text (Some (lq_graph_digest q)) ''unbound''),
      (''graph_node_id'', or_text (Some (lq_graph_node_id q)) ''unbound'')]"
  by (simp add: execution_spec_def asset_values_def dget_Cons)

text \<open>A specification with the fields the code writes is determined, field by field, by its digest, up to a
  collision of the two texts.\<close>

lemma execution_spec_determined:
  assumes "la_spec_digest l1 = la_spec_digest l2" "la_spec_digest l1 \<noteq> []"
    and "build_launch cr b1 i1 q1 f1 = Inr l1" "build_launch cr b2 i2 q2 f2 = Inr l2"
  shows "(la_job_id l1 = la_job_id l2 \<and> lq_run_id q1 = lq_run_id q2 \<and> intent_digest cr i1 = intent_digest cr i2
       \<and> or_text (lq_contract_digest q1) ''unbound'' = or_text (lq_contract_digest q2) ''unbound''
       \<and> or_text (Some (lq_graph_node_id q1)) ''unbound'' = or_text (Some (lq_graph_node_id q2)) ''unbound''
       \<and> asset_values (jb_assets b1) = asset_values (jb_assets b2))
     \<or> collision cr (canonical_json (texts_py (la_spec l1))) (canonical_json (texts_py (la_spec l2)))"
proof -
  have s: "la_spec l1 \<noteq> []" "la_spec l2 \<noteq> []"
    using assms(1,2) build_launchD(7) [OF assms(3)] build_launchD(7) [OF assms(4)] by auto
  have spec: "la_spec l = execution_spec (asset_values (jb_assets b)) (la_job_id l) (intent_digest cr i) q"
    if "la_spec l \<noteq> []" "build_launch cr b i q f = Inr l" for l b i q f
    using build_launchD(6) [OF that(2)] that(1) asset_request_values by (metis execution_spec_def)
  note e = spec [OF s(1) assms(3), unfolded execution_spec_values] spec [OF s(2) assms(4), unfolded execution_spec_values]
  have wf: "wf_json (texts_py (la_spec l1))" "wf_json (texts_py (la_spec l2))"
    by (rule texts_py_wf, simp add: e)+
  have d: "digest cr (texts_py (la_spec l1)) = digest cr (texts_py (la_spec l2))"
    using assms(1) build_launchD(7) [OF assms(3)] build_launchD(7) [OF assms(4)] s by simp
  show ?thesis
  proof (cases rule: digest_eq_cases [OF wf d])
    case 1
    have f: "dget (la_spec l1) k = dget (la_spec l2) k" for k using texts_py_field [OF 1] .
    from f [of "''operation_id''"] f [of "''run_id''"] f [of "''intent_digest''"] f [of "''contract_digest''"]
      f [of "''graph_node_id''"] f [of "''kernel_image_id''"] f [of "''kernel_digest''"] f [of "''rootfs_image_id''"]
      f [of "''rootfs_digest''"] f [of "''resource_profile_id''"] f [of "''workspace_snapshot_id''"] f [of "''workspace_snapshot_digest''"]
    show ?thesis unfolding e by (simp add: dget_Cons asset_values_def)
  qed blast
qed

end
