(* ===== verification/Firecracker.thy ===== *)
theory Firecracker
  imports Firecracker_Job Receipts
begin

text \<open>
  The executor side of \<open>src/vloop/firecracker.py\<close>: \<open>FirecrackerExecutor\<close> with its table of prepared launches and
  \<open>FirecrackerEffectReconciler\<close>. The privileged supervisor is a parameter, functions on a world \<open>'w\<close> that may
  answer anything or raise. Every operation returns the state it leaves, also when it raises. The clock
  of the receipt check is the argument \<open>now\<close>. A message of the prepared-operation table is kept as the code has it.
\<close>

section \<open>Supervisor and executor\<close>

record guest_result =
  gr_manifest_digest :: string
  gr_success :: bool
  gr_exit_code :: "int option"
  gr_stdout :: string
  gr_stderr :: string
  gr_artifact_digests :: "(string \<times> string) list"
  gr_result_path :: string
  gr_supervisor_receipt :: "pydict option"
  gr_result_file_digest :: string
  gr_usage :: "(string \<times> int) list"

text \<open>\<open>reconcile\<close> may be missing; its answer may be no \<open>GuestExecutionResult\<close> (\<open>None\<close>).\<close>

record 'w vm_supervisor =
  su_run :: "'w \<Rightarrow> launch \<Rightarrow> guest_result res \<times> 'w"
  su_reconcile :: "('w \<Rightarrow> prepared_execution \<Rightarrow> guest_result option res \<times> 'w) option"

record vm_executor =
  fe_builder :: job_builder
  fe_verifier :: "receipt_verifier option"
  fe_run_id :: "string option"
  fe_contract_digest :: "string option"
  fe_prepared :: "(string \<times> launch) list"

definition vm_executor_init :: "job_builder \<Rightarrow> receipt_verifier option \<Rightarrow> vm_executor" where
  "vm_executor_init b v = \<lparr>fe_builder = b, fe_verifier = v, fe_run_id = None, fe_contract_digest = None, fe_prepared = []\<rparr>"

definition executor_asset_request :: "vm_executor \<Rightarrow> (string \<times> string) list res" where
  "executor_asset_request e = remote_asset_request (jb_assets (fe_builder e))"

definition vm_bind_run :: "string \<Rightarrow> string option \<Rightarrow> vm_executor \<Rightarrow> vm_executor" where
  "vm_bind_run run contract e = e\<lparr>fe_run_id := Some run, fe_contract_digest := contract\<rparr>"

text \<open>The keyword arguments of \<open>prepare_execution\<close>; \<open>iteration\<close> is deleted by the code.\<close>

record prepare_request =
  vq_run_id :: string
  vq_contract_digest :: string
  vq_operation_id :: string
  vq_executor_id :: string
  vq_graph_digest :: string
  vq_graph_node_id :: string

definition request_of :: "prepare_request \<Rightarrow> launch_request" where
  "request_of q = \<lparr>lq_run_id = vq_run_id q, lq_contract_digest = Some (vq_contract_digest q),
     lq_operation_id = Some (vq_operation_id q), lq_graph_digest = vq_graph_digest q, lq_graph_node_id = vq_graph_node_id q\<rparr>"

definition prepared_of :: "crypto \<Rightarrow> action_intent \<Rightarrow> prepare_request \<Rightarrow> launch \<Rightarrow> prepared_execution" where
  "prepared_of cr i q l = \<lparr>pe_operation_id = vq_operation_id q, pe_executor_id = vq_executor_id q,
     pe_intent_digest = intent_digest cr i, pe_request_digest = la_spec_digest l, pe_remote_job_id = la_job_id l,
     pe_graph_digest = vq_graph_digest q, pe_graph_node_id = vq_graph_node_id q\<rparr>"

definition vm_prepare :: "crypto \<Rightarrow> vm_executor \<Rightarrow> action_intent \<Rightarrow> prepare_request \<Rightarrow> string \<Rightarrow> prepared_execution res \<times> vm_executor" where
  "vm_prepare cr e i q fresh =
     (case build_launch cr (fe_builder e) i (request_of q) fresh of
        Inl err \<Rightarrow> (Inl err, e)
      | Inr l \<Rightarrow>
          if la_spec_digest l = []
          then (Inl (ValueError, ''remote Firecracker preparation requires a canonical execution spec''), e)
          else (prepared_execution_init (prepared_of cr i q l),
                e\<lparr>fe_prepared := AList.update (vq_operation_id q) l (fe_prepared e)\<rparr>))"

section \<open>The claims of a supervisor receipt\<close>

definition claims_text :: "pydict \<Rightarrow> string \<Rightarrow> string \<Rightarrow> bool" where
  "claims_text c k v \<longleftrightarrow> dget c k = Some (PStr v)"

definition claims_true :: "pydict \<Rightarrow> string \<Rightarrow> bool" where
  "claims_true c k \<longleftrightarrow> dget c k = Some (PBool True)"

text \<open>\<open>claims.get("exit_code") == result.exit_code\<close>: a missing claim equals \<open>None\<close>.\<close>

definition claims_exit :: "pydict \<Rightarrow> int option \<Rightarrow> bool" where
  "claims_exit c x \<longleftrightarrow> (case (dget c ''exit_code'', x) of
     (None, None) \<Rightarrow> True | (Some v, None) \<Rightarrow> v = PNone | (None, Some _) \<Rightarrow> False | (Some v, Some j) \<Rightarrow> eq_int v j)"

definition claims_count :: "pydict \<Rightarrow> string \<Rightarrow> bool" where
  "claims_count c k \<longleftrightarrow> (case dget c k of Some (PInt j) \<Rightarrow> \<not> j < 0 | Some (PBool _) \<Rightarrow> True | _ \<Rightarrow> False)"

definition claims_bool :: "pydict \<Rightarrow> string \<Rightarrow> bool" where
  "claims_bool c k \<longleftrightarrow> (case dget c k of Some (PBool _) \<Rightarrow> True | _ \<Rightarrow> False)"

definition expected_outcome :: "guest_result \<Rightarrow> string" where
  "expected_outcome res = (if gr_success res \<and> gr_exit_code res = Some 0 then ''pass'' else ''fail'')"

definition binds_operation :: "pydict \<Rightarrow> prepared_execution \<Rightarrow> bool" where
  "binds_operation c p \<longleftrightarrow> claims_text c ''operation_id'' (pe_operation_id p)
     \<and> claims_text c ''execution_spec_digest'' (pe_request_digest p)
     \<and> (pe_graph_digest p \<noteq> [] \<longrightarrow> claims_text c ''graph_digest'' (pe_graph_digest p)
          \<and> claims_text c ''graph_node_id'' (pe_graph_node_id p))"

definition binds_result :: "crypto \<Rightarrow> pydict \<Rightarrow> guest_result \<Rightarrow> bool" where
  "binds_result cr c res \<longleftrightarrow> claims_exit c (gr_exit_code res) \<and> claims_text c ''result_path'' (gr_result_path res)
     \<and> claims_text c ''stdout_digest'' (digest cr (PStr (gr_stdout res)))
     \<and> claims_text c ''stderr_digest'' (digest cr (PStr (gr_stderr res)))
     \<and> claims_text c ''result_file_digest'' (gr_result_file_digest res)"

text \<open>The checks of \<open>_validate_supervisor_receipt\<close> after authentication.\<close>

definition supervisor_claims :: "crypto \<Rightarrow> launch \<Rightarrow> guest_result \<Rightarrow> prepared_execution option \<Rightarrow> receipt \<Rightarrow> string option" where
  "supervisor_claims cr l res prepared r =
     (let c = rc_claims r in
      if \<not> claims_text c ''job_id'' (la_job_id l) \<or> \<not> claims_text c ''manifest_digest'' (la_manifest_digest l)
        \<or> \<not> claims_true c ''fresh_job_drive'' \<or> \<not> claims_true c ''job_drive_destroyed''
      then Some ''supervisor receipt lacks required job lifecycle attestations''
      else if (case prepared of None \<Rightarrow> False | Some p \<Rightarrow> \<not> binds_operation c p)
      then Some ''supervisor receipt is not bound to the prepared operation''
      else if rc_result r \<noteq> expected_outcome res
      then Some ''supervisor receipt result disagrees with guest execution outcome''
      else if \<not> binds_result cr c res then Some ''supervisor receipt does not bind the exact guest result''
      else if (case dget c ''job_drive_digest'' of Some (PStr s) \<Rightarrow> s = [] | _ \<Rightarrow> True)
      then Some ''supervisor receipt lacks a job-drive digest''
      else if \<not> claims_count c ''wall_time_ms'' \<or> \<not> claims_count c ''cpu_time_ms'' \<or> \<not> claims_count c ''memory_peak_bytes''
      then Some ''supervisor receipt has invalid resource measurements''
      else if \<not> claims_bool c ''timed_out'' \<or> \<not> claims_bool c ''oom_killed''
      then Some ''supervisor receipt lacks timeout/OOM attestations''
      else if gr_success res \<and> (claims_true c ''timed_out'' \<or> claims_true c ''oom_killed'')
      then Some ''successful guest result conflicts with timeout/OOM attestation''
      else None)"

text \<open>The checks of \<open>_validate_reconciliation_receipt\<close> after authentication.\<close>

definition reconciliation_claims :: "crypto \<Rightarrow> guest_result \<Rightarrow> prepared_execution \<Rightarrow> receipt \<Rightarrow> string option" where
  "reconciliation_claims cr res p r =
     (let c = rc_claims r in
      if \<not> binds_operation c p \<or> \<not> claims_true c ''reconciliation''
        \<or> \<not> claims_true c ''fresh_job_drive'' \<or> \<not> claims_true c ''job_drive_destroyed''
      then Some ''reconciliation receipt lacks prepared-operation lifecycle attestations''
      else if rc_result r \<noteq> expected_outcome res
      then Some ''reconciliation receipt result disagrees with guest execution outcome''
      else if \<not> binds_result cr c res then Some ''reconciliation receipt does not bind the exact guest result''
      else None)"

section \<open>Authentication\<close>

definition expected_guest :: "vm_executor \<Rightarrow> string \<Rightarrow> string \<Rightarrow> guest_result \<Rightarrow> prepared_execution option \<Rightarrow> expected_receipt" where
  "expected_guest e run intent res prepared =
     \<lparr>xr_receipt_type = ''firecracker-supervisor'', xr_run_id = run, xr_intent_digest = intent,
      xr_artifact_digests = gr_artifact_digests res, xr_contract_digest = fe_contract_digest e,
      xr_graph_digest = map_option pe_graph_digest prepared, xr_graph_node_id = map_option pe_graph_node_id prepared,
      xr_graph_node_instance_id = None\<rparr>"

definition authentic_receipt :: "crypto \<Rightarrow> receipt_verifier \<Rightarrow> expected_receipt \<Rightarrow> pydict \<Rightarrow> int \<Rightarrow> receipt res" where
  "authentic_receipt cr v x raw now =
     bnd (receipt_from_mapping raw) (\<lambda>r. bnd (receipt_validate cr v r x now) (\<lambda>_. Inr r))"

text \<open>\<open>except (KeyError, TypeError, ValueError, ReceiptRejected)\<close>\<close>

definition receipt_caught :: "exc \<Rightarrow> bool" where
  "receipt_caught ex \<longleftrightarrow> ex \<in> {KeyError, TypeError, ValueError, ReceiptRejected}"

text \<open>Authentication, then the claims: the error message, or \<open>None\<close>.\<close>

definition judge_receipt :: "receipt res \<Rightarrow> string \<Rightarrow> (receipt \<Rightarrow> string option) \<Rightarrow> string option res" where
  "judge_receipt authentic rejected claims =
     (case authentic of
        Inl (ex, m) \<Rightarrow> if receipt_caught ex then Inr (Some rejected) else Inl (ex, m)
      | Inr r \<Rightarrow> Inr (claims r))"

definition validate_supervisor_receipt ::
  "crypto \<Rightarrow> vm_executor \<Rightarrow> receipt_verifier \<Rightarrow> launch \<Rightarrow> action_intent \<Rightarrow> guest_result \<Rightarrow> prepared_execution option \<Rightarrow> int \<Rightarrow> string option res" where
  "validate_supervisor_receipt cr e v l i res prepared now =
     (case (fe_run_id e, gr_supervisor_receipt res) of
        (Some run, Some raw) \<Rightarrow>
          judge_receipt (authentic_receipt cr v (expected_guest e run (intent_digest cr i) res prepared) raw now)
            ''supervisor-signed execution receipt was rejected'' (supervisor_claims cr l res prepared)
      | _ \<Rightarrow> Inr (Some ''missing supervisor-signed execution receipt''))"

definition validate_reconciliation_receipt ::
  "crypto \<Rightarrow> vm_executor \<Rightarrow> action_intent \<Rightarrow> prepared_execution \<Rightarrow> guest_result \<Rightarrow> int \<Rightarrow> string option res" where
  "validate_reconciliation_receipt cr e i p res now =
     (case (fe_run_id e, gr_supervisor_receipt res, fe_verifier e) of
        (Some run, Some raw, Some v) \<Rightarrow>
          judge_receipt (authentic_receipt cr v (expected_guest e run (intent_digest cr i) res (Some p)) raw now)
            ''supervisor-signed reconciliation receipt was rejected'' (reconciliation_claims cr res p)
      | _ \<Rightarrow> Inr (Some ''missing supervisor-signed reconciliation receipt''))"

section \<open>Execution\<close>

text \<open>\<open>text[-16384:]\<close>\<close>

definition last_chars :: "string \<Rightarrow> string" where
  "last_chars s = drop (length s - 16384) s"

definition refused :: "int option \<Rightarrow> string \<Rightarrow> string \<Rightarrow> (string \<times> string) list \<Rightarrow> pydict \<Rightarrow> observation" where
  "refused code out msg arts meta = \<lparr>ob_success = False, ob_exit_code = code, ob_stdout = out, ob_stderr = msg,
     ob_artifact_digests = arts, ob_metadata = meta\<rparr>"

definition operation_metadata :: "prepared_execution \<Rightarrow> pydict" where
  "operation_metadata p = [(''operation_id'', PStr (pe_operation_id p)), (''request_digest'', PStr (pe_request_digest p)),
     (''remote_job_id'', PStr (pe_remote_job_id p)), (''graph_digest'', PStr (pe_graph_digest p)),
     (''graph_node_id'', PStr (pe_graph_node_id p))]"

definition receipt_metadata :: "guest_result \<Rightarrow> pydict" where
  "receipt_metadata res = [(''evaluator_receipts'', PDict [(''firecracker-supervisor'',
     case gr_supervisor_receipt res of None \<Rightarrow> PNone | Some raw \<Rightarrow> PDict raw)])]"

definition microvm :: pydict where
  "microvm = [(''executor'', PStr ''firecracker''), (''isolation'', PStr ''microvm'')]"

definition guest_observation :: "guest_result \<Rightarrow> pydict \<Rightarrow> observation" where
  "guest_observation res meta = \<lparr>ob_success = gr_success res, ob_exit_code = gr_exit_code res,
     ob_stdout = last_chars (gr_stdout res), ob_stderr = last_chars (gr_stderr res),
     ob_artifact_digests = gr_artifact_digests res, ob_metadata = meta\<rparr>"

definition launch_metadata :: "launch \<Rightarrow> guest_result \<Rightarrow> prepared_execution option \<Rightarrow> pydict" where
  "launch_metadata l res prepared = microvm @ [(''job_id'', PStr (la_job_id l)), (''config_digest'', PStr (la_config_digest l)),
     (''guest_manifest_digest'', PStr (la_manifest_digest l)), (''guest_result_path'', PStr (gr_result_path res)),
     (''rootfs_read_only'', PBool True), (''network_enabled'', PBool False)]
     @ (case prepared of None \<Rightarrow> [] | Some p \<Rightarrow> operation_metadata p)"

text \<open>What the executor reports of a supervisor's answer.\<close>

definition judge_result ::
  "crypto \<Rightarrow> vm_executor \<Rightarrow> action_intent \<Rightarrow> launch \<Rightarrow> prepared_execution option \<Rightarrow> int \<Rightarrow> guest_result \<Rightarrow> observation res" where
  "judge_result cr e i l prepared now res =
     (if gr_manifest_digest res \<noteq> la_manifest_digest l
      then Inr (refused (gr_exit_code res) (gr_stdout res) ''guest result is not bound to the launched manifest'' []
        (microvm @ [(''job_id'', PStr (la_job_id l)), (''config_digest'', PStr (la_config_digest l))]))
      else case fe_verifier e of
        None \<Rightarrow> Inr (guest_observation res (launch_metadata l res prepared))
      | Some v \<Rightarrow> bnd (validate_supervisor_receipt cr e v l i res prepared now) (\<lambda>problem.
          case problem of
            Some msg \<Rightarrow> Inr (refused (gr_exit_code res) (last_chars (gr_stdout res)) msg (gr_artifact_digests res) microvm)
          | None \<Rightarrow> Inr (guest_observation res (launch_metadata l res prepared @ receipt_metadata res))))"

definition execute_launch ::
  "crypto \<Rightarrow> 'w vm_supervisor \<Rightarrow> vm_executor \<Rightarrow> action_intent \<Rightarrow> launch \<Rightarrow> prepared_execution option \<Rightarrow> int \<Rightarrow> 'w \<Rightarrow> observation res \<times> 'w" where
  "execute_launch cr su e i l prepared now w =
     (case su_run su w l of (answer, w') \<Rightarrow> (bnd answer (judge_result cr e i l prepared now), w'))"

definition vm_execute :: "crypto \<Rightarrow> 'w vm_supervisor \<Rightarrow> vm_executor \<Rightarrow> action_intent \<Rightarrow> string \<Rightarrow> int \<Rightarrow> 'w \<Rightarrow> observation res \<times> 'w" where
  "vm_execute cr su e i fresh now w =
     (case build_launch cr (fe_builder e) i \<lparr>lq_run_id = or_text (fe_run_id e) ''unbound'', lq_contract_digest = fe_contract_digest e,
        lq_operation_id = None, lq_graph_digest = [], lq_graph_node_id = []\<rparr> fresh of
        Inl (ex, m) \<Rightarrow> (Inr (refused None [] m [] [(''executor'', PStr ''firecracker'')]), w)
      | Inr l \<Rightarrow> execute_launch cr su e i l None now w)"

definition execute_prepared ::
  "crypto \<Rightarrow> 'w vm_supervisor \<Rightarrow> vm_executor \<Rightarrow> action_intent \<Rightarrow> prepared_execution \<Rightarrow> int \<Rightarrow> 'w \<Rightarrow> observation res \<times> vm_executor \<times> 'w" where
  "execute_prepared cr su e i p now w =
     (case dget (fe_prepared e) (pe_operation_id p) of
        None \<Rightarrow> (Inr (refused None [] ''prepared Firecracker operation is unavailable; reconciliation is required'' []
          [(''executor'', PStr ''firecracker''), (''operation_id'', PStr (pe_operation_id p)),
           (''request_digest'', PStr (pe_request_digest p))]), e, w)
      | Some l \<Rightarrow>
          (let e' = e\<lparr>fe_prepared := ddel (pe_operation_id p) (fe_prepared e)\<rparr> in
           if la_job_id l \<noteq> pe_remote_job_id p \<or> la_spec_digest l \<noteq> pe_request_digest p
             \<or> intent_digest cr i \<noteq> pe_intent_digest p
           then (Inr (refused None [] ''prepared Firecracker operation binding mismatch'' [] []), e', w)
           else (case execute_launch cr su e' i l (Some p) now w of (x, w') \<Rightarrow> (x, e', w'))))"

section \<open>Reconciliation\<close>

definition reconciled_observation :: "guest_result \<Rightarrow> prepared_execution \<Rightarrow> observation" where
  "reconciled_observation res p = guest_observation res
     (microvm @ operation_metadata p @ [(''reconciliation_signed'', PBool True)] @ receipt_metadata res)"

definition reconcile_prepared ::
  "crypto \<Rightarrow> 'w vm_supervisor \<Rightarrow> vm_executor \<Rightarrow> action_intent \<Rightarrow> prepared_execution \<Rightarrow> int \<Rightarrow> 'w \<Rightarrow> observation res \<times> 'w" where
  "reconcile_prepared cr su e i p now w =
     (case su_reconcile su of
        None \<Rightarrow> (Inl (ValueError, ''supervisor does not support signed operation reconciliation''), w)
      | Some f \<Rightarrow> (case f w p of (answer, w') \<Rightarrow>
          (bnd answer (\<lambda>result. case result of
             None \<Rightarrow> Inl (ValueError, ''supervisor reconciliation returned an invalid result'')
           | Some res \<Rightarrow> bnd (validate_reconciliation_receipt cr e i p res now) (\<lambda>problem. case problem of
               Some msg \<Rightarrow> Inl (PermissionError, msg)
             | None \<Rightarrow> Inr (reconciled_observation res p))), w')))"

text \<open>\<open>FirecrackerEffectReconciler\<close> holds an executor and the identity it answers for.\<close>

definition vm_reconciler_init :: "'w vm_supervisor \<Rightarrow> vm_executor \<Rightarrow> string \<Rightarrow> string res" where
  "vm_reconciler_init su e executor_id =
     (if blank executor_id then Inl (ValueError, ''Firecracker reconciler needs an executor identity'')
      else if fe_verifier e = None then Inl (ValueError, ''Firecracker reconciler needs a supervisor receipt verifier'')
      else if su_reconcile su = None then Inl (ValueError, ''Firecracker reconciler needs a reconciliation-capable supervisor'')
      else Inr executor_id)"

text \<open>The contract is passed as what reading its \<open>contract_digest\<close> does: raise, or give a text, or \<open>None\<close> when it
  is absent or no text.\<close>

definition vm_reconcile ::
  "crypto \<Rightarrow> 'w vm_supervisor \<Rightarrow> string \<Rightarrow> vm_executor \<Rightarrow> string \<Rightarrow> string option res \<Rightarrow> action_intent \<Rightarrow> string \<Rightarrow> prepared_execution
     \<Rightarrow> int \<Rightarrow> 'w \<Rightarrow> observation res \<times> vm_executor \<times> 'w" where
  "vm_reconcile cr su own e run contract i executor_id p now w =
     (if executor_id \<noteq> own \<or> pe_executor_id p \<noteq> executor_id
      then (Inl (PermissionError, ''reconciliation request targets another executor''), e, w)
      else case contract of
        Inl err \<Rightarrow> (Inl err, e, w)
      | Inr None \<Rightarrow> (Inl (TypeError, ''reconciliation needs a task contract''), e, w)
      | Inr (Some cd) \<Rightarrow> let e' = vm_bind_run run (Some cd) e in
          (case reconcile_prepared cr su e' i p now w of (x, w') \<Rightarrow> (x, e', w')))"

section \<open>What an accepted receipt attests\<close>

text \<open>
  The claim a consumer relies on: a receipt of the supervisor's type, signed under a key of the verifier and
  not expired, for this run and intent, whose claims name the prepared operation and its specification, the
  destroyed job drive, and the digests of exactly this output, and whose result is that of this outcome.
\<close>

definition signed_outcome :: "crypto \<Rightarrow> receipt_verifier \<Rightarrow> string \<Rightarrow> string \<Rightarrow> int \<Rightarrow> prepared_execution \<Rightarrow> guest_result \<Rightarrow> receipt \<Rightarrow> bool" where
  "signed_outcome cr v run intent now p res r \<longleftrightarrow>
     (\<exists>key. dget (rv_keys v) (rc_key_id r) = Some key \<and> ed_verify cr key (receipt_payload r) (rc_signature r))
     \<and> rc_receipt_type r = ''firecracker-supervisor'' \<and> rc_run_id r = run \<and> rc_intent_digest r = intent
     \<and> now < instant (rc_expires_at r) \<and> binds_operation (rc_claims r) p \<and> binds_result cr (rc_claims r) res
     \<and> claims_true (rc_claims r) ''fresh_job_drive'' \<and> claims_true (rc_claims r) ''job_drive_destroyed''
     \<and> rc_result r = expected_outcome res"


lemma reconciliation_claimsD:
  assumes "reconciliation_claims cr res p r = None"
  shows "binds_operation (rc_claims r) p" "claims_true (rc_claims r) ''reconciliation''"
    "claims_true (rc_claims r) ''fresh_job_drive''" "claims_true (rc_claims r) ''job_drive_destroyed''"
    "rc_result r = expected_outcome res" "binds_result cr (rc_claims r) res"
  using assms unfolding reconciliation_claims_def Let_def if_Some_eq_None by simp_all

lemma judge_receipt_None:
  "judge_receipt a rejected claims = Inr None \<longleftrightarrow> (\<exists>r. a = Inr r \<and> claims r = None)"
  by (auto simp: judge_receipt_def split: sum.splits if_splits)

lemma authentic_receiptD:
  assumes "authentic_receipt cr v x raw now = Inr r"
  shows "receipt_from_mapping raw = Inr r" "rc_receipt_type r = xr_receipt_type x" "rc_run_id r = xr_run_id x"
    "rc_intent_digest r = xr_intent_digest x" "now < instant (rc_expires_at r)"
    "\<exists>key. dget (rv_keys v) (rc_key_id r) = Some key \<and> ed_verify cr key (receipt_payload r) (rc_signature r)"
    "xr_contract_digest x = Some c \<Longrightarrow> c \<noteq> [] \<Longrightarrow> rc_contract_digest r = c"
    "check_artifacts cr r (xr_artifact_digests x) = Inr ()"
proof -
  have raw: "receipt_from_mapping raw = Inr r" and ok: "receipt_validate cr v r x now = Inr ()"
    using assms by (auto simp: authentic_receipt_def bnd_eq_Inr)
  note ok = ok [unfolded receipt_validate_ok]
  show "receipt_from_mapping raw = Inr r" by (rule raw)
  show "rc_receipt_type r = xr_receipt_type x" "rc_run_id r = xr_run_id x" "rc_intent_digest r = xr_intent_digest x"
    "now < instant (rc_expires_at r)"
    using check_bindingD [OF conjunct1 [OF ok]] by auto
  show "\<exists>key. dget (rv_keys v) (rc_key_id r) = Some key \<and> ed_verify cr key (receipt_payload r) (rc_signature r)"
    using check_signatureD ok by blast
  show "xr_contract_digest x = Some c \<Longrightarrow> c \<noteq> [] \<Longrightarrow> rc_contract_digest r = c"
    using check_contractD ok by blast
  show "check_artifacts cr r (xr_artifact_digests x) = Inr ()" using ok by blast
qed


lemma validate_reconciliation_receiptD:
  assumes "validate_reconciliation_receipt cr e i p res now = Inr None"
  obtains run raw v r where "fe_run_id e = Some run" "gr_supervisor_receipt res = Some raw" "fe_verifier e = Some v"
    "authentic_receipt cr v (expected_guest e run (intent_digest cr i) res (Some p)) raw now = Inr r"
    "reconciliation_claims cr res p r = None"
  using assms by (auto simp: validate_reconciliation_receipt_def judge_receipt_None split: option.splits)

lemma refused_fails [simp]: "ob_success (refused code out msg arts meta) = False"
  by (simp add: refused_def)

lemma guest_observation_fields [simp]:
  "ob_success (guest_observation res meta) = gr_success res" "ob_exit_code (guest_observation res meta) = gr_exit_code res"
  "ob_stdout (guest_observation res meta) = last_chars (gr_stdout res)"
  "ob_artifact_digests (guest_observation res meta) = gr_artifact_digests res"
  "ob_metadata (guest_observation res meta) = meta"
  by (simp_all add: guest_observation_def)


lemma ddel_gone [simp]: "dget (ddel k d) k = None"
  by (simp add: dget_ddel)



text \<open>A reconciliation answers only for its own executor, with what the supervisor reports, and only when that
  is covered by a receipt signed for this run, intent, contract and prepared operation that says it is a
  reconciliation.\<close>

theorem attested_reconciliation:
  assumes "vm_reconcile cr su own e run contract i executor p now w = (Inr x, e', w')"
  shows "\<exists>v f res raw r cd. fe_verifier e = Some v \<and> executor = own \<and> pe_executor_id p = own \<and> contract = Inr (Some cd)
     \<and> su_reconcile su = Some f \<and> f w p = (Inr (Some res), w')
     \<and> gr_supervisor_receipt res = Some raw \<and> receipt_from_mapping raw = Inr r
     \<and> signed_outcome cr v run (intent_digest cr i) now p res r \<and> claims_true (rc_claims r) ''reconciliation''
     \<and> (cd \<noteq> [] \<longrightarrow> rc_contract_digest r = cd) \<and> check_artifacts cr r (ob_artifact_digests x) = Inr ()
     \<and> x = reconciled_observation res p"
proof -
  obtain cd f res where o: "executor = own" "pe_executor_id p = own" "contract = Inr (Some cd)"
      "e' = vm_bind_run run (Some cd) e" "su_reconcile su = Some f" "f w p = (Inr (Some res), w')"
      "validate_reconciliation_receipt cr e' i p res now = Inr None" "x = reconciled_observation res p"
    using assms
    by (auto simp: vm_reconcile_def reconcile_prepared_def Let_def bnd_eq_Inr split: sum.splits option.splits if_splits prod.splits)
  obtain run' raw v r where r: "fe_run_id e' = Some run'" "gr_supervisor_receipt res = Some raw" "fe_verifier e' = Some v"
      "authentic_receipt cr v (expected_guest e' run' (intent_digest cr i) res (Some p)) raw now = Inr r"
      "reconciliation_claims cr res p r = None"
    using validate_reconciliation_receiptD [OF o(7)] by metis
  have b: "run' = run" "fe_verifier e = Some v" "fe_contract_digest e' = Some cd"
    using r(1,3) by (simp_all add: o(4) vm_bind_run_def)
  note a = authentic_receiptD [OF r(4)] and c = reconciliation_claimsD [OF r(5)]
  have "signed_outcome cr v run (intent_digest cr i) now p res r"
    using a(2-6) c b(1) by (simp add: signed_outcome_def expected_guest_def)
  moreover have "cd \<noteq> [] \<longrightarrow> rc_contract_digest r = cd" using a(7) [of cd] b(3) by (simp add: expected_guest_def)
  moreover have "check_artifacts cr r (ob_artifact_digests x) = Inr ()"
    using a(8) o(8) by (simp add: expected_guest_def reconciled_observation_def)
  ultimately show ?thesis using o r(2) a(1) c(2) b(2) by auto
qed

section \<open>Prepared operations\<close>

lemma prepared_fields [simp]:
  "pe_operation_id (prepared_of cr i q l) = vq_operation_id q" "pe_executor_id (prepared_of cr i q l) = vq_executor_id q"
  "pe_intent_digest (prepared_of cr i q l) = intent_digest cr i" "pe_request_digest (prepared_of cr i q l) = la_spec_digest l"
  "pe_remote_job_id (prepared_of cr i q l) = la_job_id l" "pe_graph_digest (prepared_of cr i q l) = vq_graph_digest q"
  "pe_graph_node_id (prepared_of cr i q l) = vq_graph_node_id q"
  by (simp_all add: prepared_of_def)

lemma request_fields [simp]:
  "lq_run_id (request_of q) = vq_run_id q" "lq_contract_digest (request_of q) = Some (vq_contract_digest q)"
  "lq_operation_id (request_of q) = Some (vq_operation_id q)" "lq_graph_digest (request_of q) = vq_graph_digest q"
  "lq_graph_node_id (request_of q) = vq_graph_node_id q"
  by (simp_all add: request_of_def)

lemma vm_prepareD:
  assumes "vm_prepare cr e i q fresh = (Inr p, e')"
  obtains l where "build_launch cr (fe_builder e) i (request_of q) fresh = Inr l" "la_spec_digest l \<noteq> []"
    "p = prepared_of cr i q l" "e' = e\<lparr>fe_prepared := AList.update (vq_operation_id q) l (fe_prepared e)\<rparr>"
    "la_job_id l = vq_operation_id q"
proof -
  obtain l where l: "build_launch cr (fe_builder e) i (request_of q) fresh = Inr l" "la_spec_digest l \<noteq> []"
      "prepared_execution_init (prepared_of cr i q l) = Inr p"
      "e' = e\<lparr>fe_prepared := AList.update (vq_operation_id q) l (fe_prepared e)\<rparr>"
    using assms by (auto simp: vm_prepare_def split: sum.splits if_splits)
  have p: "p = prepared_of cr i q l" "\<not> blank (vq_operation_id q)"
    using l(3) by (auto simp: prepared_execution_init_def split: if_splits)
  have "vq_operation_id q \<noteq> []" using p(2) by (auto simp: blank_iff)
  then have "la_job_id l = vq_operation_id q" using build_launchD(5) [OF l(1)] by (simp add: or_text_def)
  with l p show thesis using that by blast
qed

text \<open>Two prepared executions with the same request digest are the same operation of the same run, contract,
  intent and graph node on the same kernel, root file system, workspace snapshot and resource profile, or their
  specifications are an exhibited collision of the hash.\<close>

theorem prepared_binding:
  assumes "vm_prepare cr e1 i1 q1 f1 = (Inr p1, e1')" "vm_prepare cr e2 i2 q2 f2 = (Inr p2, e2')"
    and "pe_request_digest p1 = pe_request_digest p2"
  shows "\<exists>l1 l2. dget (fe_prepared e1') (pe_operation_id p1) = Some l1 \<and> dget (fe_prepared e2') (pe_operation_id p2) = Some l2
     \<and> (pe_operation_id p1 = pe_operation_id p2 \<and> vq_run_id q1 = vq_run_id q2 \<and> pe_intent_digest p1 = pe_intent_digest p2
          \<and> or_text (Some (vq_contract_digest q1)) ''unbound'' = or_text (Some (vq_contract_digest q2)) ''unbound''
          \<and> or_text (Some (vq_graph_node_id q1)) ''unbound'' = or_text (Some (vq_graph_node_id q2)) ''unbound''
          \<and> asset_values (jb_assets (fe_builder e1)) = asset_values (jb_assets (fe_builder e2))
        \<or> collision cr (canonical_json (texts_py (la_spec l1))) (canonical_json (texts_py (la_spec l2))))"
proof -
  from vm_prepareD [OF assms(1)] obtain l1 where l1: "build_launch cr (fe_builder e1) i1 (request_of q1) f1 = Inr l1"
      "la_spec_digest l1 \<noteq> []" "p1 = prepared_of cr i1 q1 l1"
      "e1' = e1\<lparr>fe_prepared := AList.update (vq_operation_id q1) l1 (fe_prepared e1)\<rparr>" "la_job_id l1 = vq_operation_id q1" .
  from vm_prepareD [OF assms(2)] obtain l2 where l2: "build_launch cr (fe_builder e2) i2 (request_of q2) f2 = Inr l2"
      "la_spec_digest l2 \<noteq> []" "p2 = prepared_of cr i2 q2 l2"
      "e2' = e2\<lparr>fe_prepared := AList.update (vq_operation_id q2) l2 (fe_prepared e2)\<rparr>" "la_job_id l2 = vq_operation_id q2" .
  have d: "la_spec_digest l1 = la_spec_digest l2" using assms(3) l1(3) l2(3) by simp
  show ?thesis
    using execution_spec_determined [OF d l1(2) l1(1) l2(1)] unfolding l1(3,4) l2(3,4) by (auto simp: l1(5) l2(5))
qed

text \<open>A prepared operation reaches the supervisor with its own launch, once: any later call for it is answered
  with a failure that asks for reconciliation and touches neither the world nor the table.\<close>

theorem prepared_runs_once:
  assumes "vm_prepare cr e i q fresh = (Inr p, e1)" "execute_prepared cr su e1 i p now w = (x, e2, w')"
  shows "\<exists>l. dget (fe_prepared e1) (pe_operation_id p) = Some l \<and> (x, w') = execute_launch cr su e2 i l (Some p) now w
     \<and> (\<forall>j now' w2. \<exists>y. execute_prepared cr su e2 j p now' w2 = (Inr y, e2, w2) \<and> \<not> ob_success y)"
proof -
  from vm_prepareD [OF assms(1)] obtain l where l: "p = prepared_of cr i q l"
      "e1 = e\<lparr>fe_prepared := AList.update (vq_operation_id q) l (fe_prepared e)\<rparr>" "la_job_id l = vq_operation_id q" .
  have g: "dget (fe_prepared e1) (pe_operation_id p) = Some l" by (simp add: l(1,2))
  have m: "la_job_id l = pe_remote_job_id p" "la_spec_digest l = pe_request_digest p" "intent_digest cr i = pe_intent_digest p"
    by (simp_all add: l(1))
  have e2: "e2 = e1\<lparr>fe_prepared := ddel (pe_operation_id p) (fe_prepared e1)\<rparr>"
    and r: "(x, w') = execute_launch cr su e2 i l (Some p) now w"
    using assms(2) by (auto simp: execute_prepared_def Let_def g m split: prod.splits)
  have "dget (fe_prepared e2) (pe_operation_id p) = None" by (simp add: e2)
  then have "\<exists>y. execute_prepared cr su e2 j p now' w2 = (Inr y, e2, w2) \<and> \<not> ob_success y" for j now' w2
    by (simp add: execute_prepared_def)
  with g r show ?thesis by blast
qed

section \<open>A concrete deployment\<close>

definition zero_digest :: string where
  "zero_digest = replicate 64 (CHR ''0'')"

lemma zero_digest_toy [simp]: "digest toy_crypto v = zero_digest" "zero_digest \<noteq> []" "sha256_shape zero_digest"
  by (simp_all add: digest_def toy_crypto_def zero_digest_def sha256_shape_def is_hex_def list_all_iff hex_chars_def)

definition sample_assets :: vm_assets where
  "sample_assets = \<lparr>va_kernel_image = ''/k'', va_rootfs = ''/r'', va_job_drive = ''/j'', va_kernel_image_id = ''kernel'',
     va_kernel_image_digest = zero_digest, va_rootfs_image_id = ''rootfs'', va_rootfs_digest = zero_digest,
     va_resource_profile_id = ''small'', va_workspace_snapshot_id = ''snapshot'', va_workspace_snapshot_digest = zero_digest\<rparr>"

definition sample_builder :: job_builder where
  "sample_builder = \<lparr>jb_assets = sample_assets, jb_resources = \<lparr>vs_vcpu_count = 1, vs_mem_size_mib = 256, vs_timeout_seconds = 60\<rparr>\<rparr>"

definition sample_command :: action_intent where
  "sample_command = \<lparr>in_tool = ''command.run'', in_effect = EXECUTE, in_target = ''/workspace'',
     in_arguments = [(''command'', PList [PStr ''true''])], in_provenance = [], in_explanation = ''run'', in_contract_id = ''c'',
     in_contract_version = 1, in_idempotency_key = ''key'', in_argument_provenance = [], in_argument_provenance_graph = []\<rparr>"

definition sample_prepare :: prepare_request where
  "sample_prepare = \<lparr>vq_run_id = ''run'', vq_contract_digest = zero_digest, vq_operation_id = ''op'', vq_executor_id = ''vm'',
     vq_graph_digest = [], vq_graph_node_id = []\<rparr>"

definition sample_launch :: launch where
  "sample_launch = (let spec = execution_spec (asset_values sample_assets) ''op'' zero_digest (request_of sample_prepare);
       manifest = launch_manifest ''op'' zero_digest (request_of sample_prepare) [''true''] 60 zero_digest in
     \<lparr>la_job_id = ''op'', la_config = launch_config sample_builder, la_manifest = manifest, la_config_digest = zero_digest,
      la_manifest_digest = zero_digest, la_asset_request = asset_values sample_assets, la_spec = spec, la_spec_digest = zero_digest\<rparr>)"

definition guest_verifier :: receipt_verifier where
  "guest_verifier = \<lparr>rv_keys = [(''k'', ''sk'')], rv_policy = None, rv_trust_entries = [], rv_maximum_ttl = minutes 15,
     rv_maximum_age = minutes 15, rv_clock_skew = seconds 30\<rparr>"

definition idle_executor :: vm_executor where
  "idle_executor = vm_bind_run ''run'' (Some zero_digest) (vm_executor_init sample_builder (Some guest_verifier))"

definition sample_operation :: prepared_execution where
  "sample_operation = prepared_of toy_crypto sample_command sample_prepare sample_launch"

definition busy_executor :: vm_executor where
  "busy_executor = idle_executor\<lparr>fe_prepared := [(''op'', sample_launch)]\<rparr>"

lemma sample_asset_request: "remote_asset_request sample_assets = Inr (asset_values sample_assets)"
  by (simp add: remote_asset_request_def asset_values_def sample_assets_def blank_iff py_isspace_def zero_digest_def [symmetric])
    (simp add: zero_digest_def)

lemma sample_launch_built: "build_launch toy_crypto sample_builder sample_command (request_of sample_prepare) [] = Inr sample_launch"
proof -
  have "in_arguments sample_command = [(''command'', PList [PStr ''true''])]" "in_tool sample_command = ''command.run''"
    "in_effect sample_command = EXECUTE" "jb_assets sample_builder = sample_assets"
    "vs_timeout_seconds (jb_resources sample_builder) = 60" "vq_operation_id sample_prepare = ''op''"
    "vq_graph_digest sample_prepare = []" "vq_graph_node_id sample_prepare = []"
    by (simp_all add: sample_command_def sample_builder_def sample_prepare_def)
  moreover have "asset_values sample_assets \<noteq> []" by (simp add: asset_values_def)
  ultimately show ?thesis
    by (simp add: build_launch_def dget_Cons ddef_def or_text_def sample_asset_request intent_digest_def sample_launch_def Let_def execution_spec_values)
qed

lemma sample_prepared: "vm_prepare toy_crypto idle_executor sample_command sample_prepare [] = (Inr sample_operation, busy_executor)"
proof -
  have b: "fe_builder idle_executor = sample_builder" "fe_prepared idle_executor = []"
    by (simp_all add: idle_executor_def vm_bind_run_def vm_executor_init_def)
  have l: "la_spec_digest sample_launch = zero_digest" "la_job_id sample_launch = ''op''" by (simp_all add: sample_launch_def Let_def)
  have "prepared_execution_init sample_operation = Inr sample_operation"
    by (simp add: prepared_execution_init_def sample_operation_def l intent_digest_def)
      (simp add: sample_prepare_def blank_iff py_isspace_def)
  then show ?thesis
    by (simp add: vm_prepare_def b sample_launch_built l sample_operation_def [symmetric] busy_executor_def)
      (simp add: sample_prepare_def)
qed

theorem prepared_binding_witness:
  "\<exists>l1 l2. dget (fe_prepared busy_executor) (pe_operation_id sample_operation) = Some l1
     \<and> dget (fe_prepared busy_executor) (pe_operation_id sample_operation) = Some l2"
  using prepared_binding [OF sample_prepared sample_prepared refl] by blast

text \<open>A guest answer with a given exit code, and the receipt a supervisor signs for it.\<close>

definition guest_claims :: "int \<Rightarrow> pydict" where
  "guest_claims code = [(''job_id'', PStr ''op''), (''manifest_digest'', PStr zero_digest), (''fresh_job_drive'', PBool True),
     (''job_drive_destroyed'', PBool True), (''reconciliation'', PBool True), (''operation_id'', PStr ''op''),
     (''execution_spec_digest'', PStr zero_digest),
     (''exit_code'', PInt code), (''result_path'', PStr ''/job/vloop-result.json''), (''stdout_digest'', PStr zero_digest),
     (''stderr_digest'', PStr zero_digest), (''result_file_digest'', PStr ''f''), (''job_drive_digest'', PStr ''j''),
     (''wall_time_ms'', PInt 5), (''cpu_time_ms'', PInt 4), (''memory_peak_bytes'', PInt 3),
     (''timed_out'', PBool False), (''oom_killed'', PBool False)]"

definition guest_unsigned :: "int \<Rightarrow> string \<Rightarrow> receipt" where
  "guest_unsigned code outcome = sample_unsigned\<lparr>rc_receipt_type := ''firecracker-supervisor'', rc_intent_digest := zero_digest,
     rc_result := outcome, rc_claims := guest_claims code, rc_contract_digest := zero_digest, rc_artifact_manifest_digest := zero_digest\<rparr>"

definition guest_receipt :: "int \<Rightarrow> string \<Rightarrow> receipt" where
  "guest_receipt code outcome = (guest_unsigned code outcome)\<lparr>rc_signature := ''sk'' @ receipt_payload (guest_unsigned code outcome)\<rparr>"

definition sample_guest :: "int \<Rightarrow> string \<Rightarrow> guest_result" where
  "sample_guest code outcome = \<lparr>gr_manifest_digest = zero_digest, gr_success = True, gr_exit_code = Some code, gr_stdout = ''ok'',
     gr_stderr = [], gr_artifact_digests = [(''out'', ''d'')], gr_result_path = ''/job/vloop-result.json'',
     gr_supervisor_receipt = Some (receipt_mapping (guest_receipt code outcome)), gr_result_file_digest = ''f'', gr_usage = []\<rparr>"

definition sample_supervisor :: "int \<Rightarrow> string \<Rightarrow> nat vm_supervisor" where
  "sample_supervisor code outcome = \<lparr>su_run = (\<lambda>w l. (Inr (sample_guest code outcome), Suc w)),
     su_reconcile = Some (\<lambda>w p. (Inr (Some (sample_guest code outcome)), Suc w))\<rparr>"

lemma guest_receipt_fields [simp]:
  "rc_claims (guest_receipt code outcome) = guest_claims code" "rc_result (guest_receipt code outcome) = outcome"
  "rc_receipt_type (guest_receipt code outcome) = ''firecracker-supervisor''" "rc_run_id (guest_receipt code outcome) = ''run''"
  "rc_intent_digest (guest_receipt code outcome) = zero_digest" "rc_contract_digest (guest_receipt code outcome) = zero_digest"
  "rc_artifact_manifest_digest (guest_receipt code outcome) = zero_digest" "rc_key_id (guest_receipt code outcome) = ''k''"
  "rc_schema_version (guest_receipt code outcome) = 2" "rc_issued_at (guest_receipt code outcome) = utc 0"
  "rc_expires_at (guest_receipt code outcome) = dt_add (utc 0) (minutes 10)"
  "rc_primary_artifact_name (guest_receipt code outcome) = ''out''" "rc_primary_artifact_digest (guest_receipt code outcome) = ''d''"
  "rc_candidate_artifact_digest (guest_receipt code outcome) = ''d''" "rc_revocation_epoch (guest_receipt code outcome) = 0"
  by (simp_all add: guest_receipt_def guest_unsigned_def sample_unsigned_def unsigned_receipt_def sample_receipt_request_def sample_signer_def)

lemma guest_receipt_signed [simp]: "rc_signature (guest_receipt code outcome) = ''sk'' @ receipt_payload (guest_receipt code outcome)"
  by (simp add: guest_receipt_def)

lemma guest_receipt_wf:
  assumes "outcome = ''pass'' \<or> outcome = ''fail''"
  shows "receipt_from_mapping (receipt_mapping (guest_receipt code outcome)) = Inr (guest_receipt code outcome)"
proof (rule receipt_from_own_mapping)
  have "list_ex blank (receipt_required (guest_receipt code outcome)) = False" "list_ex blank (receipt_bindings (guest_receipt code outcome)) = False"
    by (simp_all add: receipt_required_def receipt_bindings_def)
      (simp_all add: guest_receipt_def guest_unsigned_def sample_unsigned_def unsigned_receipt_def sample_receipt_request_def blank_iff
        py_isspace_def zero_digest_def)
  then show "receipt_init (guest_receipt code outcome) = Inr (guest_receipt code outcome)"
    using assms by (auto simp: receipt_init_Inr receipt_error_def utc_def dt_add_def)
qed (use sample_times in simp_all)

lemma guest_receipt_authentic:
  assumes "outcome = ''pass'' \<or> outcome = ''fail''" "fe_contract_digest e = Some zero_digest"
    and "prepared = None \<or> prepared = Some sample_operation"
  shows "authentic_receipt toy_crypto guest_verifier (expected_guest e ''run'' zero_digest (sample_guest code outcome) prepared)
     (receipt_mapping (guest_receipt code outcome)) 1 = Inr (guest_receipt code outcome)"
proof -
  let ?r = "guest_receipt code outcome" and ?x = "expected_guest e ''run'' zero_digest (sample_guest code outcome) prepared"
  have x: "xr_receipt_type ?x = ''firecracker-supervisor''" "xr_run_id ?x = ''run''" "xr_intent_digest ?x = zero_digest"
    "xr_artifact_digests ?x = [(''out'', ''d'')]" "xr_contract_digest ?x = Some zero_digest" "xr_graph_node_instance_id ?x = None"
    "\<not> given (xr_graph_digest ?x)" "\<not> given (xr_graph_node_id ?x)"
    using assms(2,3) by (auto simp: expected_guest_def sample_guest_def given_def sample_operation_def sample_prepare_def)
  have v: "rv_policy guest_verifier = None" "rv_trust_entries guest_verifier = []" "rv_keys guest_verifier = [(''k'', ''sk'')]"
    by (simp_all add: guest_verifier_def)
  have "check_binding guest_verifier ?r ?x 1 = None"
    by (simp add: check_binding_def x) (simp add: guest_verifier_def utc_def dt_add_def minutes_def seconds_def)
  moreover have "check_signature toy_crypto guest_verifier ?r = None"
    by (simp add: check_signature_def v dget_Cons) (simp add: toy_crypto_def)
  moreover have "check_trust guest_verifier ?r 1 = None" "check_policy toy_crypto guest_verifier ?r = None"
    by (simp_all add: check_trust_def check_policy_def v)
  moreover have "check_contract guest_verifier ?r ?x = None"
    by (simp add: check_contract_def expected_contract_def x given_def v)
  moreover have "check_artifacts toy_crypto ?r (xr_artifact_digests ?x) = Inr ()"
    by (simp add: check_artifacts_def x artifact_manifest_digest_def dget_Cons)
  ultimately have "receipt_validate toy_crypto guest_verifier ?r ?x 1 = Inr ()" unfolding receipt_validate_ok by blast
  then show ?thesis by (simp add: authentic_receipt_def guest_receipt_wf [OF assms(1)])
qed

lemma guest_claims_accepted:
  "supervisor_claims toy_crypto sample_launch (sample_guest code outcome) (Some sample_operation) (guest_receipt code outcome) = None
     \<longleftrightarrow> outcome = expected_outcome (sample_guest code outcome)"
proof -
  have p: "pe_operation_id sample_operation = ''op''" "pe_request_digest sample_operation = zero_digest" "pe_graph_digest sample_operation = []"
    by (simp_all add: sample_operation_def sample_prepare_def sample_launch_def Let_def)
  have l: "la_job_id sample_launch = ''op''" "la_manifest_digest sample_launch = zero_digest" by (simp_all add: sample_launch_def Let_def)
  have "binds_operation (guest_claims code) sample_operation"
    by (simp add: binds_operation_def p claims_text_def guest_claims_def dget_Cons)
  moreover have "binds_result toy_crypto (guest_claims code) (sample_guest code outcome)"
    by (simp add: binds_result_def claims_text_def claims_exit_def guest_claims_def dget_Cons sample_guest_def)
  moreover have "claims_text (guest_claims code) ''job_id'' ''op''" "claims_text (guest_claims code) ''manifest_digest'' zero_digest"
    "claims_true (guest_claims code) ''fresh_job_drive''" "claims_true (guest_claims code) ''job_drive_destroyed''"
    "dget (guest_claims code) ''job_drive_digest'' = Some (PStr ''j'')" "claims_count (guest_claims code) ''wall_time_ms''"
    "claims_count (guest_claims code) ''cpu_time_ms''" "claims_count (guest_claims code) ''memory_peak_bytes''"
    "claims_bool (guest_claims code) ''timed_out''" "claims_bool (guest_claims code) ''oom_killed''"
    "\<not> claims_true (guest_claims code) ''timed_out''" "\<not> claims_true (guest_claims code) ''oom_killed''"
    by (simp_all add: claims_text_def claims_true_def claims_count_def claims_bool_def guest_claims_def dget_Cons)
  ultimately show ?thesis unfolding supervisor_claims_def Let_def by (simp add: l)
qed

lemma guest_executed:
  assumes "outcome = expected_outcome (sample_guest code outcome)"
  shows "execute_prepared toy_crypto (sample_supervisor code outcome) busy_executor sample_command sample_operation 1 0
     = (Inr (guest_observation (sample_guest code outcome)
          (launch_metadata sample_launch (sample_guest code outcome) (Some sample_operation) @ receipt_metadata (sample_guest code outcome))),
        idle_executor, 1)"
proof -
  have e: "fe_prepared busy_executor = [(''op'', sample_launch)]" "busy_executor\<lparr>fe_prepared := ddel ''op'' [(''op'', sample_launch)]\<rparr> = idle_executor"
    "fe_verifier idle_executor = Some guest_verifier" "fe_run_id idle_executor = Some ''run''" "fe_contract_digest idle_executor = Some zero_digest"
    by (simp_all add: busy_executor_def idle_executor_def vm_bind_run_def vm_executor_init_def ddel_def)
  have p: "pe_operation_id sample_operation = ''op''" "pe_remote_job_id sample_operation = la_job_id sample_launch"
    "pe_request_digest sample_operation = la_spec_digest sample_launch" "pe_intent_digest sample_operation = intent_digest toy_crypto sample_command"
    by (simp_all add: sample_operation_def sample_prepare_def)
  have i: "intent_digest toy_crypto sample_command = zero_digest" by (simp add: intent_digest_def)
  have g: "gr_supervisor_receipt (sample_guest code outcome) = Some (receipt_mapping (guest_receipt code outcome))"
    "gr_manifest_digest (sample_guest code outcome) = zero_digest" "la_manifest_digest sample_launch = zero_digest"
    by (simp_all add: sample_guest_def sample_launch_def Let_def)
  have o: "outcome = ''pass'' \<or> outcome = ''fail''" using assms by (metis expected_outcome_def)
  have "validate_supervisor_receipt toy_crypto idle_executor guest_verifier sample_launch sample_command (sample_guest code outcome)
      (Some sample_operation) 1 = Inr None"
    using guest_receipt_authentic [OF o e(5), of "Some sample_operation" code] assms
    by (simp add: validate_supervisor_receipt_def e g i judge_receipt_None guest_claims_accepted)
  then have "judge_result toy_crypto idle_executor sample_command sample_launch (Some sample_operation) 1 (sample_guest code outcome)
      = Inr (guest_observation (sample_guest code outcome)
          (launch_metadata sample_launch (sample_guest code outcome) (Some sample_operation) @ receipt_metadata (sample_guest code outcome)))"
    by (simp add: judge_result_def g e)
  then show ?thesis
    by (simp add: execute_prepared_def Let_def e dget_Cons p execute_launch_def sample_supervisor_def)
qed


theorem prepared_runs_once_witness:
  "\<exists>y. execute_prepared toy_crypto (sample_supervisor 0 ''pass'') idle_executor sample_command sample_operation 2 (7::nat)
     = (Inr y, idle_executor, 7) \<and> \<not> ob_success y"
proof -
  have o: "''pass'' = expected_outcome (sample_guest 0 ''pass'')" by (simp add: expected_outcome_def sample_guest_def)
  show ?thesis using prepared_runs_once [OF sample_prepared guest_executed [OF o]] by blast
qed

lemma guest_reconciled:
  "vm_reconcile toy_crypto (sample_supervisor 0 ''pass'') ''vm'' busy_executor ''run'' (Inr (Some zero_digest)) sample_command ''vm'' sample_operation 1 0
     = (Inr (reconciled_observation (sample_guest 0 ''pass'') sample_operation), busy_executor, 1)"
proof -
  have b: "vm_bind_run ''run'' (Some zero_digest) busy_executor = busy_executor" "fe_run_id busy_executor = Some ''run''"
    "fe_verifier busy_executor = Some guest_verifier" "fe_contract_digest busy_executor = Some zero_digest"
    by (simp_all add: busy_executor_def idle_executor_def vm_bind_run_def vm_executor_init_def)
  have g: "gr_supervisor_receipt (sample_guest 0 ''pass'') = Some (receipt_mapping (guest_receipt 0 ''pass''))" by (simp add: sample_guest_def)
  have p: "pe_operation_id sample_operation = ''op''" "pe_request_digest sample_operation = zero_digest" "pe_graph_digest sample_operation = []"
    "pe_executor_id sample_operation = ''vm''"
    by (simp_all add: sample_operation_def sample_prepare_def sample_launch_def Let_def)
  have "reconciliation_claims toy_crypto (sample_guest 0 ''pass'') sample_operation (guest_receipt 0 ''pass'') = None"
    by (simp add: reconciliation_claims_def Let_def binds_operation_def binds_result_def p claims_text_def claims_true_def claims_exit_def
        guest_claims_def dget_Cons expected_outcome_def sample_guest_def)
  then have "validate_reconciliation_receipt toy_crypto busy_executor sample_command sample_operation (sample_guest 0 ''pass'') 1 = Inr None"
    using guest_receipt_authentic [of "''pass''" busy_executor "Some sample_operation" 0] b(4)
    by (simp add: validate_reconciliation_receipt_def b g judge_receipt_None intent_digest_def)
  then show ?thesis by (simp add: vm_reconcile_def p b reconcile_prepared_def sample_supervisor_def)
qed

theorem attested_reconciliation_witness:
  "\<exists>v res r. signed_outcome toy_crypto v ''run'' (intent_digest toy_crypto sample_command) 1 sample_operation res r
     \<and> reconciled_observation (sample_guest 0 ''pass'') sample_operation = reconciled_observation res sample_operation"
  using attested_reconciliation [OF guest_reconciled] by blast

text \<open>
  A guest that reports success and a nonzero exit code, under a receipt whose signed result is \<open>fail\<close>, passes
  every check: the observation is successful although the supervisor attests a failure.
\<close>

theorem failed_guest_reported_success:
  "\<exists>x. execute_prepared toy_crypto (sample_supervisor 1 ''fail'') busy_executor sample_command sample_operation 1 0 = (Inr x, idle_executor, 1)
     \<and> ob_success x \<and> ob_exit_code x = Some 1 \<and> rc_result (guest_receipt 1 ''fail'') = ''fail''
     \<and> gr_supervisor_receipt (sample_guest 1 ''fail'') = Some (receipt_mapping (guest_receipt 1 ''fail''))"
proof -
  have o: "''fail'' = expected_outcome (sample_guest 1 ''fail'')" by (simp add: expected_outcome_def sample_guest_def)
  have g: "gr_success (sample_guest 1 ''fail'')" "gr_exit_code (sample_guest 1 ''fail'') = Some 1"
    "gr_supervisor_receipt (sample_guest 1 ''fail'') = Some (receipt_mapping (guest_receipt 1 ''fail''))"
    by (simp_all add: sample_guest_def)
  show ?thesis unfolding guest_executed [OF o] by (simp add: g)
qed

end
