(* ===== verification/Spec2Isabelle.thy ===== *)
theory Spec2Isabelle
  imports Graph_Valid Monitor Scheduler_Inv Policy Executor_Inv Completion Ledger Run_State Contract_Compiler Effects Dynamic_Graph Context Loop_Restart Memory_Props Certificates Artifacts Delegation Learning Harness_Props Firecracker
begin

text \<open>
  Verification library of V-Loop (\<open>src/src/vloop\<close>), a controller that lets a language model act only inside
  a verified loop: a planner proposes an intent, a policy gate turns it into a signed capability, an enforcing
  executor performs it once, verifiers judge the outcome, a completion gate decides when the task is done, and
  a hash-chained ledger records every step. Each theory is named below with the files it models; a Python
  function keeps its name where HOL allows it.

  \<^bold>\<open>Shared vocabulary.\<close> \<open>Prelude\<close> has exceptions as values (\<open>exc\<close>, \<open>'a res\<close>, \<open>bnd\<close> and the traversals \<open>map_res\<close>,
  \<open>fold_res\<close>), string methods and decimal texts; \<open>Values\<close> the dynamically typed values \<open>pyval\<close>, insertion-ordered
  dictionaries and instants with \<open>isoformat\<close>; \<open>Canonical\<close> (\<open>canonical.py\<close>) canonical JSON, digests and the proof that a
  canonical text determines its value. SHA-256 and Ed25519 are the fields of the parameter \<open>crypto\<close>; a claim that
  depends on collision resistance exhibits the collision instead. \<open>Floats\<close> and \<open>Extended\<close> are binary64 arithmetic:
  rationals rounded to even, with infinities and NaN. \<open>Codec\<close> holds the JSON encodings of \<open>run_state.py\<close> and the
  readers that other decoders share.

  \<^bold>\<open>Data.\<close> \<open>Models\<close> (\<open>models.py\<close>): contracts, action and argument rules, provenance graphs, intents, capabilities,
  observations and reports with every constructor check. \<open>Schema\<close> (\<open>graph_schema.py\<close>): ports, predicates, joins,
  node implementations.

  \<^bold>\<open>The graph.\<close> \<open>Graph\<close>, \<open>Graph_Search\<close>, \<open>Tarjan\<close>, \<open>Tarjan_Sound\<close>, \<open>Graph_Validate\<close>, \<open>Graph_Valid\<close> (\<open>graph.py\<close>): the
  manifest, its searches and cycle search (nothing reported means acyclic), the static check, and what an accepted
  graph guarantees; \<open>Graph_Compile\<close> the compiler from a
  contract to its control graph; \<open>Dynamic_Graph\<close> the policy for planner-made graphs and their read-only
  executor. \<open>Monitor\<close> (\<open>graph_monitor.py\<close>): the transition monitor, its step relation \<open>mon_step\<close> and the invariant
  that every node is justified. \<open>Attestations\<close> (\<open>attestations.py\<close>) and \<open>Events\<close> (\<open>graph_events.py\<close>): signed
  completions and the causal event table. \<open>Scheduler\<close>, \<open>Scheduler_Inv\<close> (\<open>graph_runtime.py\<close>): the durable scheduler
  over its SQLite state. \<open>Certificates\<close> (\<open>execution_certificate.py\<close>): signed certificates and the validator that
  replays the trace on the monitor. \<open>Artifacts\<close> (\<open>proof_artifacts.py\<close>): signed handoffs and workspace transitions.

  \<^bold>\<open>Authority.\<close> \<open>Once_Store\<close> is the locale of a store that accepts a key once; \<open>Authorization\<close> (\<open>authorization.py\<close>),
  \<open>Approvals\<close>, \<open>Counters\<close>, \<open>Policy_Rules\<close>, \<open>Policy\<close> (\<open>policy.py\<close>) interpret it for the nonce and approval stores and
  model capabilities, approvals, use counters, argument rules and the gate. \<open>Contract_Compiler\<close>
  (\<open>contract_compiler.py\<close>): contracts from an approved catalogue.

  \<^bold>\<open>Effects and evidence.\<close> \<open>Idempotency\<close>, \<open>Executor\<close>, \<open>Executor_Inv\<close> (\<open>executor.py\<close>): the operation store and the enforcing
  executor as a step relation in which calls interleave, retry and crash between any two actions. \<open>Receipts\<close>,
  \<open>Verifiers\<close>, \<open>Probes\<close>, \<open>Completion\<close> (\<open>receipts.py\<close>, \<open>verifiers.py\<close>, \<open>probes.py\<close>, \<open>completion.py\<close>): signed receipts, the
  verifiers and their composition, probes, accumulated evidence and the final verifiers. \<open>Ledger\<close> (\<open>ledger.py\<close>): the
  hash chain, the anchor outbox and its worker. \<open>Run_State\<close> (\<open>run_state.py\<close>): versioned checkpoints, a refinement of
  compare-and-swap registers.

  \<^bold>\<open>The controller.\<close> \<open>Effects\<close> is the state-and-exception monad of the loop; \<open>Loop_State\<close>, \<open>Loop_Graph\<close>, \<open>Loop_Run\<close>,
  \<open>Loop_Decide\<close> (\<open>controller.py\<close>, \<open>evaluation.py\<close>, \<open>repair.py\<close>) are its methods, from one checkpoint write up to \<open>run_loop\<close>.
  What lies outside the repository (planner, services, reconcilers) are functions on a world that may answer
  anything or raise; executor calls are recorded in a ghost trace. \<open>Loop_Frame\<close>, \<open>Loop_Inv\<close>, \<open>Loop_Safe\<close>,
  \<open>Loop_Effects\<close>, \<open>Loop_Accept\<close>, \<open>Loop_Life\<close>, \<open>Loop_Restart\<close> prove what each method keeps, then the properties of a
  whole life: any sequence of \<open>run\<close>, \<open>reconcile\<close> and \<open>cancel\<close> calls in any processes over one stored state, where
  every collaborator exception is a crash point.

  \<^bold>\<open>Knowledge.\<close> \<open>Memory\<close>, \<open>Memory_Search\<close>, \<open>Memory_Inv\<close>, \<open>Memory_Retrieval\<close>, \<open>Memory_Props\<close> (\<open>memory.py\<close>): write gates, the memory
  ledger and its index outbox as a step relation, the indexes, rank fusion, and the locales \<open>rehydrating\<close> and
  \<open>retrieving\<close> that state what an index may answer. \<open>Context\<close> (\<open>context.py\<close>): packages within a budget.

  \<^bold>\<open>Improvement.\<close> \<open>Delegation\<close> (\<open>delegation.py\<close>): the gate and dispatcher of specialists. \<open>Redaction\<close>, \<open>Learning\<close>
  (\<open>learning.py\<close>): the sanitizer with its regular expressions, training traces and model promotion.
  \<open>Harness_Experiments\<close>, \<open>Harness_Registry\<close>, \<open>Harness_Props\<close> (\<open>harness_experiments.py\<close>, \<open>harness_evolution.py\<close>): paired
  experiments, signed bundles and reviews, and the registry of harness changes.

  \<^bold>\<open>Isolation.\<close> \<open>Firecracker_Job\<close>, \<open>Firecracker\<close> (\<open>firecracker.py\<close>): preflight, job specifications and launches, the
  executor that prepares an operation, runs it through a supervisor (a parameter) and believes only a signed
  receipt for exactly that run, and the reconciler of uncertain effects.

  \<^bold>\<open>What the properties say.\<close> Nothing is executed without a capability, a stored pending-effect checkpoint and its
  place in the graph, at most once per operation, nonce and iteration, within the tool budget, across crashes and
  restarts; a run answers \<open>ACCEPT\<close> only with a passing completion report and every guard passed; the gate issues
  capabilities only for what the contract admits; the ledger and the certificates make a run tamper-evident and
  replayable; memories, training data, specialists and harness changes are admitted only on evidence. The
  theorems that show the code doing something else (an expiring contract, a guard that is also a required
  verifier, twin joins, counters lost by reconciliation) are kept beside them.

  \<^bold>\<open>Loops, bounds and fuel.\<close> Recursions are total: the searches terminate by the number of unvisited nodes, the cycle
  search recurses to a depth bounded by the number of nodes (\<open>Graph_Valid.validate_total\<close>), the executor runs at most
  five actions per call, \<open>run_loop\<close> recurses over the iterations \<open>k\<close> to \<open>maximum_iterations\<close> of the contract. There is no
  fuel that can run out. Python integers are \<open>int\<close>; SQLite and Python have no machine integers in what is modelled.
  Characters are the code points below 256. Instants are microseconds with an offset. Uuids and clocks are
  arguments. SQL transactions are atomic steps, and tables are lists of rows; a JSON column holds the value its
  text parses to.

  \<^bold>\<open>Not modelled.\<close> Clients and processes that only do I/O: \<open>services.py\<close>, \<open>snapshot.py\<close>,
  \<open>model_client.py\<close>, \<open>neural_verifier.py\<close>, \<open>native_backend.py\<close>, the local subprocess executor and the Bubblewrap argument
  builder of \<open>executor.py\<close>, the HTTP client of \<open>memory.py\<close>; the schema migrations of the SQLite constructors; the
  demonstrations; the Rust kernel. What the modelled code needs of them (an executor, a reconciler, an index, a
  model) is an argument of the definitions that use it.
\<close>

end
